(* ===== verification/Prelude.thy ===== *)
theory Prelude
  imports Complex_Main "HOL-Library.Sublist" "HOL-Library.Char_ord" "HOL-Library.List_Lexorder"
begin

text \<open>
  Shared vocabulary of the development: results that may fail, the JavaScript string and array
  operations the code uses, and the three interface locales (a guarded machine, a machine with a
  rank no step lowers, a store addressed by a key) the components are interpreted into.

  A string is a \<^typ>\<open>string\<close>: a list of 8-bit code units, so the text of the model is Latin-1.
  An operation that may throw returns \<open>'e + 'a\<close>, with \<open>Inl\<close> the error and \<open>Inr\<close> the value.
\<close>

named_theorems outcome "elimination of results, one component's success lemmas"

section \<open>Results\<close>

text \<open>\<open>try_bind r k\<close>: go on with the value of \<open>r\<close>, or stop with its error, as a call that may
  throw followed by the rest of the body does.\<close>

definition try_bind :: "'e + 'a \<Rightarrow> ('a \<Rightarrow> 'e + 'b) \<Rightarrow> 'e + 'b" where
  "try_bind r k = (case r of Inl e \<Rightarrow> Inl e | Inr x \<Rightarrow> k x)"

text \<open>\<open>try_map f xs\<close>: \<open>xs.map(f)\<close> where \<open>f\<close> may throw; the first error stops it.\<close>

fun try_map :: "('a \<Rightarrow> 'e + 'b) \<Rightarrow> 'a list \<Rightarrow> 'e + 'b list" where
  "try_map f [] = Inr []"
| "try_map f (x # xs) =
     (case f x of Inl e \<Rightarrow> Inl e
      | Inr y \<Rightarrow> (case try_map f xs of Inl e \<Rightarrow> Inl e | Inr ys \<Rightarrow> Inr (y # ys)))"

text \<open>\<open>map_error g r\<close>: a \<open>catch\<close> that rethrows the error under another name.\<close>

definition map_error :: "('e \<Rightarrow> 'f) \<Rightarrow> 'e + 'a \<Rightarrow> 'f + 'a" where
  "map_error g r = (case r of Inl e \<Rightarrow> Inl (g e) | Inr x \<Rightarrow> Inr x)"

definition is_ok :: "'e + 'a \<Rightarrow> bool" where
  "is_ok r = (case r of Inl e \<Rightarrow> False | Inr x \<Rightarrow> True)"

lemma try_bind_simps [simp]:
  "try_bind (Inl e) k = Inl e"
  "try_bind (Inr x) k = k x"
  by (simp_all add: try_bind_def)

lemma try_bind_Inr [outcome]: "try_bind r k = Inr y \<longleftrightarrow> (\<exists>x. r = Inr x \<and> k x = Inr y)"
  by (cases r) simp_all

lemma map_error_Inr [simp, outcome]: "map_error g r = Inr x \<longleftrightarrow> r = Inr x"
  by (cases r) (simp_all add: map_error_def)

lemma is_ok_simps [simp]: "is_ok (Inl e) = False" "is_ok (Inr x) = True"
  by (simp_all add: is_ok_def)

lemma is_ok_iff: "is_ok r \<longleftrightarrow> (\<exists>x. r = Inr x)"
  by (cases r) simp_all

lemma try_map_Inr: "try_map f xs = Inr ys \<longleftrightarrow> list_all2 (\<lambda>x y. f x = Inr y) xs ys"
proof (induction xs arbitrary: ys)
  case Nil
  then show ?case by auto
next
  case (Cons x xs)
  show ?case
  proof (cases "f x")
    case (Inl e)
    then show ?thesis by (cases ys) auto
  next
    case (Inr y)
    have ih: "list_all2 (\<lambda>x y. f x = Inr y) xs zs \<longleftrightarrow> try_map f xs = Inr zs" for zs
      using Cons.IH by simp
    from Inr show ?thesis
      by (cases ys; cases "try_map f xs") (auto simp: ih)
  qed
qed

lemma try_map_length: "try_map f xs = Inr ys \<Longrightarrow> length ys = length xs"
  by (simp add: try_map_Inr list_all2_lengthD)

lemma try_map_same:
  assumes "\<And>x y. f x = Inr y \<Longrightarrow> y = x" and "try_map f xs = Inr ys"
  shows "ys = xs"
proof -
  from assms(2) have "list_all2 (\<lambda>x y. f x = Inr y) xs ys" by (simp add: try_map_Inr)
  then have "list_all2 (=) xs ys" by (rule list_all2_mono) (auto dest: assms(1))
  then show ?thesis by (simp add: list.rel_eq)
qed

section \<open>Optional fields\<close>

text \<open>A field declared \<open>name?: T | null\<close> has three shapes: absent, \<open>null\<close>, or a value. Most
  readers fold the first two (\<open>?? null\<close>); comparing serialised objects does not.\<close>

datatype 'a field = Absent | Null | Present 'a

fun given :: "'a field \<Rightarrow> 'a option" where
  "given Absent = None"
| "given Null = None"
| "given (Present x) = Some x"

lemma given_Some [simp]: "given f = Some x \<longleftrightarrow> f = Present x"
  by (cases f) simp_all

lemma given_None: "given f = None \<longleftrightarrow> f = Absent \<or> f = Null"
  by (cases f) simp_all

text \<open>\<open>default d x\<close>: \<open>x ?? d\<close>.\<close>

definition default_to :: "'a \<Rightarrow> 'a option \<Rightarrow> 'a" where
  "default_to d x = (case x of None \<Rightarrow> d | Some y \<Rightarrow> y)"

lemma default_to_simps [simp]: "default_to d None = d" "default_to d (Some y) = y"
  by (simp_all add: default_to_def)

section \<open>Numbers\<close>

text \<open>A JavaScript number, where the code tells finite numbers from the others: a rational, or one
  of the three values that are not finite. Comparisons with \<open>NaN\<close> are false.\<close>

datatype jsnum = Num rat | NaN | PosInf | NegInf

fun is_finite_num :: "jsnum \<Rightarrow> bool" where
  "is_finite_num (Num q) = True"
| "is_finite_num _ = False"

fun num_le :: "jsnum \<Rightarrow> jsnum \<Rightarrow> bool" where
  "num_le NaN _ = False"
| "num_le _ NaN = False"
| "num_le NegInf _ = True"
| "num_le _ PosInf = True"
| "num_le (Num p) (Num q) = (p \<le> q)"
| "num_le _ _ = False"

definition num_less :: "jsnum \<Rightarrow> jsnum \<Rightarrow> bool" where
  "num_less a b \<longleftrightarrow> num_le a b \<and> \<not> num_le b a"

text \<open>\<open>Number.isInteger\<close> and \<open>Number.isSafeInteger\<close>.\<close>

fun is_integer_num :: "jsnum \<Rightarrow> bool" where
  "is_integer_num (Num q) = (snd (quotient_of q) = 1)"
| "is_integer_num _ = False"

definition safe_integer :: "int \<Rightarrow> bool" where
  "safe_integer n \<longleftrightarrow> \<bar>n\<bar> \<le> 9007199254740991"

section \<open>Strings\<close>

text \<open>The white space \<open>String.prototype.trim\<close> removes, among the 8-bit code units: tab, line feed,
  vertical tab, form feed, carriage return, space and the no-break space.\<close>

definition js_space :: "char \<Rightarrow> bool" where
  "js_space c = (let n = of_char c :: nat in n \<in> {9, 10, 11, 12, 13, 32, 160})"

definition trim_start :: "string \<Rightarrow> string" where
  "trim_start s = dropWhile js_space s"

definition trim :: "string \<Rightarrow> string" where
  "trim s = rev (dropWhile js_space (rev (dropWhile js_space s)))"

text \<open>\<open>!value.trim()\<close>.\<close>

definition blank :: "string \<Rightarrow> bool" where
  "blank s \<longleftrightarrow> trim s = []"

definition is_digit :: "char \<Rightarrow> bool" where
  "is_digit c = (let n = of_char c :: nat in 48 \<le> n \<and> n \<le> 57)"

definition is_lower :: "char \<Rightarrow> bool" where
  "is_lower c = (let n = of_char c :: nat in 97 \<le> n \<and> n \<le> 122)"

definition is_upper :: "char \<Rightarrow> bool" where
  "is_upper c = (let n = of_char c :: nat in 65 \<le> n \<and> n \<le> 90)"

definition digit_val :: "char \<Rightarrow> nat" where
  "digit_val c = (of_char c :: nat) - 48"

text \<open>Lower case of a Latin-1 code unit: \<open>A\<close> to \<open>Z\<close>, and 192 to 222 but the sign 215.\<close>

definition lower_char :: "char \<Rightarrow> char" where
  "lower_char c = (let n = of_char c :: nat in
     if (65 \<le> n \<and> n \<le> 90) \<or> (192 \<le> n \<and> n \<le> 222 \<and> n \<noteq> 215) then char_of (n + 32) else c)"

definition to_lower :: "string \<Rightarrow> string" where
  "to_lower s = map lower_char s"

text \<open>Upper case of an ASCII letter; the callers compare with ASCII words only.\<close>

definition upper_char :: "char \<Rightarrow> char" where
  "upper_char c = (if is_lower c then char_of ((of_char c :: nat) - 32) else c)"

definition to_upper :: "string \<Rightarrow> string" where
  "to_upper s = map upper_char s"

text \<open>The decimal numeral a string of digits denotes.\<close>

definition digits_val :: "string \<Rightarrow> nat" where
  "digits_val ds = foldl (\<lambda>n c. 10 * n + digit_val c) 0 ds"

definition all_digits :: "string \<Rightarrow> bool" where
  "all_digits s \<longleftrightarrow> s \<noteq> [] \<and> list_all is_digit s"

text \<open>\<open>text.includes(part)\<close>.\<close>

fun str_includes :: "string \<Rightarrow> string \<Rightarrow> bool" where
  "str_includes [] part = (part = [])"
| "str_includes (c # s) part = (take (length part) (c # s) = part \<or> str_includes s part)"

text \<open>\<open>text.startsWith(part)\<close> with the rest after it, and \<open>text.endsWith(part)\<close>.\<close>

definition strip_prefix :: "string \<Rightarrow> string \<Rightarrow> string option" where
  "strip_prefix part s = (if take (length part) s = part then Some (drop (length part) s) else None)"

definition ends_with :: "string \<Rightarrow> string \<Rightarrow> bool" where
  "ends_with part s \<longleftrightarrow> length part \<le> length s \<and> drop (length s - length part) s = part"

text \<open>\<open>text.split(sep)\<close> for a one-character separator.\<close>

fun split_on :: "char \<Rightarrow> string \<Rightarrow> string list" where
  "split_on sep [] = [[]]"
| "split_on sep (c # s) =
     (if c = sep then [] # split_on sep s
      else (case split_on sep s of [] \<Rightarrow> [[c]] | l # ls \<Rightarrow> (c # l) # ls))"

text \<open>\<open>parts.join(sep)\<close>.\<close>

fun join :: "string \<Rightarrow> string list \<Rightarrow> string" where
  "join sep [] = []"
| "join sep [x] = x"
| "join sep (x # y # ys) = x @ sep @ join sep (y # ys)"

definition newline :: string where
  "newline = [char_of (10 :: nat)]"

lemma strip_prefix_Some: "strip_prefix part s = Some rest \<longleftrightarrow> s = part @ rest"
  by (auto simp: strip_prefix_def) (metis append_take_drop_id)

lemma ends_with_iff: "ends_with part s \<longleftrightarrow> (\<exists>front. s = front @ part)"
  unfolding ends_with_def by (auto intro: exI[of _ "take (length s - length part) s"]) (metis append_take_drop_id)

lemma trim_eq_Nil_iff: "trim s = [] \<longleftrightarrow> list_all js_space s"
proof -
  have "trim s = [] \<longleftrightarrow> (\<forall>c\<in>set (dropWhile js_space s). js_space c)"
    by (simp add: trim_def dropWhile_eq_Nil_conv)
  also have "\<dots> \<longleftrightarrow> list_all js_space s"
  proof
    assume all: "\<forall>c\<in>set (dropWhile js_space s). js_space c"
    have "dropWhile js_space s = []"
    proof (rule ccontr)
      assume ne: "dropWhile js_space s \<noteq> []"
      then have "\<not> js_space (hd (dropWhile js_space s))" by (rule hd_dropWhile)
      moreover have "hd (dropWhile js_space s) \<in> set (dropWhile js_space s)" using ne by simp
      ultimately show False using all by blast
    qed
    then show "list_all js_space s" by (simp add: list_all_iff dropWhile_eq_Nil_conv)
  next
    assume "list_all js_space s"
    then show "\<forall>c\<in>set (dropWhile js_space s). js_space c"
      by (auto simp: list_all_iff dest: set_dropWhileD)
  qed
  finally show ?thesis .
qed

lemma blank_code [code]: "blank s = list_all js_space s"
  by (simp add: blank_def trim_eq_Nil_iff)

lemma blank_Nil [simp]: "blank []"
  by (simp add: blank_code)

lemma dropWhile_idem: "dropWhile P (dropWhile P xs) = dropWhile P xs"
  by (induction xs) auto

lemma trim_length: "length (trim s) \<le> length s"
  using length_dropWhile_le[of js_space "rev (dropWhile js_space s)"]
    length_dropWhile_le[of js_space s]
  by (simp add: trim_def)

lemma last_trim: "trim s \<noteq> [] \<Longrightarrow> \<not> js_space (last (trim s))"
  unfolding trim_def by (simp add: last_rev hd_dropWhile)

lemma hd_trim:
  assumes "trim s \<noteq> []"
  shows "\<not> js_space (hd (trim s))"
proof -
  let ?d = "dropWhile js_space s"
  have ne: "?d \<noteq> []"
  proof
    assume "?d = []"
    then have "trim s = []" unfolding trim_def by (simp only: rev.simps dropWhile.simps)
    with assms show False by simp
  qed
  have first: "\<not> js_space (hd ?d)" using ne by (rule hd_dropWhile)
  have "trim s = rev (dropWhile js_space (rev ?d))" by (simp add: trim_def)
  moreover have "hd (rev (dropWhile js_space (rev ?d))) = hd ?d"
  proof -
    have eq: "rev ?d = takeWhile js_space (rev ?d) @ dropWhile js_space (rev ?d)" by simp
    have ne2: "dropWhile js_space (rev ?d) \<noteq> []" using assms by (simp add: trim_def)
    have "last (rev ?d) = last (dropWhile js_space (rev ?d))"
      using eq ne2 by (metis last_appendR)
    then show ?thesis using ne ne2 by (simp add: hd_rev last_rev)
  qed
  ultimately show ?thesis using first by simp
qed

lemma trim_fixed:
  assumes "s = [] \<or> (\<not> js_space (hd s) \<and> \<not> js_space (last s))"
  shows "trim s = s"
proof (cases s)
  case Nil
  then show ?thesis by (simp add: trim_def)
next
  case (Cons c cs)
  then have front: "dropWhile js_space s = s" using assms by simp
  have "rev s \<noteq> []" "hd (rev s) = last s" using Cons by (simp_all add: hd_rev)
  then have "dropWhile js_space (rev s) = rev s"
    using assms Cons by (cases "rev s") auto
  then show ?thesis using front by (simp add: trim_def)
qed

lemma trim_idem [simp]: "trim (trim s) = trim s"
  by (rule trim_fixed) (auto simp: hd_trim last_trim)

lemma blank_trim [simp]: "blank (trim s) = blank s"
  by (simp add: blank_def)

lemma split_on_ne [simp]: "split_on sep s \<noteq> []"
  by (induction s) (auto split: list.splits)

lemma join_split_on: "join [sep] (split_on sep s) = s"
proof (induction s)
  case Nil
  then show ?case by simp
next
  case (Cons c s)
  show ?case
  proof (cases "split_on sep s")
    case Nil
    then show ?thesis by simp
  next
    case (Cons l ls)
    with Cons.IH show ?thesis by (cases ls) auto
  qed
qed

section \<open>Arrays\<close>

text \<open>\<open>xs.at(-1)\<close> and \<open>xs.at(-2)\<close>: undefined where the array is too short.\<close>

definition at_last :: "'a list \<Rightarrow> 'a option" where
  "at_last xs = (if xs = [] then None else Some (last xs))"

definition at_last2 :: "'a list \<Rightarrow> 'a option" where
  "at_last2 xs = (case rev xs of x # y # _ \<Rightarrow> Some y | _ \<Rightarrow> None)"

text \<open>\<open>xs[i]\<close> read as undefined out of range.\<close>

definition nth_opt :: "'a list \<Rightarrow> nat \<Rightarrow> 'a option" where
  "nth_opt xs i = (if i < length xs then Some (xs ! i) else None)"

text \<open>\<open>[...new Set(xs)]\<close>: distinct entries in the order of their first occurrence.\<close>

fun dedupe :: "'a list \<Rightarrow> 'a list" where
  "dedupe [] = []"
| "dedupe (x # xs) = x # filter (\<lambda>y. y \<noteq> x) (dedupe xs)"

text \<open>\<open>xs.slice(-n)\<close>: the last \<open>n\<close> entries, for a positive \<open>n\<close>.\<close>

definition slice_last :: "nat \<Rightarrow> 'a list \<Rightarrow> 'a list" where
  "slice_last n xs = drop (length xs - n) xs"

text \<open>\<open>xs.find(p)\<close>.\<close>

abbreviation find_first :: "('a \<Rightarrow> bool) \<Rightarrow> 'a list \<Rightarrow> 'a option" where
  "find_first p xs \<equiv> List.find p xs"

text \<open>\<open>xs.indexOf(x)\<close> and \<open>xs.findIndex(p)\<close>, with \<open>None\<close> for \<open>-1\<close>.\<close>

fun find_index :: "('a \<Rightarrow> bool) \<Rightarrow> 'a list \<Rightarrow> nat option" where
  "find_index p [] = None"
| "find_index p (x # xs) = (if p x then Some 0 else map_option Suc (find_index p xs))"

lemma at_last_simps [simp]:
  "at_last [] = None"
  "at_last (xs @ [x]) = Some x"
  "at_last (x # xs) = Some (last (x # xs))"
  by (simp_all add: at_last_def)

lemma at_last2_simps [simp]:
  "at_last2 [] = None"
  "at_last2 [x] = None"
  "at_last2 (xs @ [y, x]) = Some y"
  "xs \<noteq> [] \<Longrightarrow> at_last2 (xs @ [x]) = Some (last xs)"
proof -
  show "at_last2 [] = None" "at_last2 [x] = None" "at_last2 (xs @ [y, x]) = Some y"
    by (simp_all add: at_last2_def)
  show "at_last2 (xs @ [x]) = Some (last xs)" if "xs \<noteq> []"
    using that by (cases xs rule: rev_cases) (auto simp: at_last2_def)
qed

lemma at_last_Some: "at_last xs = Some x \<longleftrightarrow> xs \<noteq> [] \<and> last xs = x"
  by (auto simp: at_last_def)

lemma at_last2_mem: "at_last2 xs = Some y \<Longrightarrow> y \<in> set xs"
proof -
  assume "at_last2 xs = Some y"
  then have "y \<in> set (rev xs)" by (auto simp: at_last2_def split: list.splits)
  then show ?thesis by simp
qed

lemma set_dedupe [simp]: "set (dedupe xs) = set xs"
  by (induction xs) auto

lemma dedupe_Nil_iff [simp]: "dedupe xs = [] \<longleftrightarrow> xs = []"
  by (cases xs) simp_all

lemma distinct_dedupe [simp]: "distinct (dedupe xs)"
  by (induction xs) auto

lemma dedupe_distinct: "distinct xs \<Longrightarrow> dedupe xs = xs"
proof (induction xs)
  case Nil
  then show ?case by simp
next
  case (Cons x xs)
  then have "filter (\<lambda>y. y \<noteq> x) xs = xs" by (auto intro: filter_True)
  with Cons show ?case by simp
qed

lemma length_slice_last [simp]: "length (slice_last n xs) = min n (length xs)"
  by (simp add: slice_last_def)

lemma set_slice_last: "set (slice_last n xs) \<subseteq> set xs"
  by (simp add: slice_last_def set_drop_subset)

lemma slice_last_append_one: "0 < n \<Longrightarrow> x \<in> set (slice_last n (xs @ [x]))"
  by (auto simp: slice_last_def)

lemma find_first_Some: "find_first p xs = Some x \<Longrightarrow> x \<in> set xs \<and> p x"
  by (auto simp: find_Some_iff)

lemma find_first_None: "find_first p xs = None \<longleftrightarrow> (\<forall>x\<in>set xs. \<not> p x)"
  by (auto simp: find_None_iff)

lemma find_index_Some:
  "find_index p xs = Some i \<Longrightarrow> i < length xs \<and> p (xs ! i) \<and> (\<forall>j<i. \<not> p (xs ! j))"
proof (induction xs arbitrary: i)
  case Nil
  then show ?case by simp
next
  case (Cons x xs)
  show ?case
  proof (cases "p x")
    case True
    with Cons.prems show ?thesis by simp
  next
    case False
    with Cons.prems obtain k where "find_index p xs = Some k" "i = Suc k" by auto
    with Cons.IH False show ?thesis by (auto simp: less_Suc_eq_0_disj)
  qed
qed

lemma find_index_None: "find_index p xs = None \<longleftrightarrow> (\<forall>x\<in>set xs. \<not> p x)"
  by (induction xs) auto

section \<open>Stable sorting\<close>

text \<open>\<open>xs.sort(byKey)\<close> is stable, as \<^const>\<open>sort_key\<close> is.\<close>

lemma find_sort_key_distinct:
  assumes "\<And>x y. x \<in> set xs \<Longrightarrow> y \<in> set xs \<Longrightarrow> p x \<Longrightarrow> p y \<Longrightarrow> x = y"
  shows "find_first p (sort_key f xs) = find_first p xs"
proof (cases "find_first p xs")
  case None
  then have "find_first p (sort_key f xs) = None" by (simp add: find_first_None)
  with None show ?thesis by simp
next
  case (Some x)
  then have x: "x \<in> set xs" "p x" by (auto dest: find_first_Some)
  then obtain y where y: "find_first p (sort_key f xs) = Some y"
    by (cases "find_first p (sort_key f xs)") (auto simp: find_first_None)
  then have "y \<in> set xs" "p y" by (auto dest: find_first_Some)
  with x assms have "y = x" by blast
  with y Some show ?thesis by simp
qed

section \<open>Machines\<close>

text \<open>A machine is a state and a handler of commands that may refuse them. \<open>run_steps\<close> handles a
  list of commands and stops at the first refusal; \<open>accept_steps\<close> drops refused commands and goes
  on, as an interactive owner does.\<close>

fun run_steps :: "('s \<Rightarrow> 'c \<Rightarrow> 'e + 's) \<Rightarrow> 's \<Rightarrow> 'c list \<Rightarrow> 'e + 's" where
  "run_steps step s [] = Inr s"
| "run_steps step s (c # cs) =
     (case step s c of Inl e \<Rightarrow> Inl e | Inr t \<Rightarrow> run_steps step t cs)"

fun accept_steps :: "('s \<Rightarrow> 'c \<Rightarrow> 'e + 's) \<Rightarrow> 's \<Rightarrow> 'c list \<Rightarrow> 's" where
  "accept_steps step s [] = s"
| "accept_steps step s (c # cs) =
     (case step s c of Inl e \<Rightarrow> accept_steps step s cs | Inr t \<Rightarrow> accept_steps step t cs)"

inductive reachable_by :: "('s \<Rightarrow> 'c \<Rightarrow> 'e + 's) \<Rightarrow> 's \<Rightarrow> 's \<Rightarrow> bool"
  for step :: "'s \<Rightarrow> 'c \<Rightarrow> 'e + 's" and s :: 's where
  here: "reachable_by step s s"
| further: "reachable_by step s t \<Longrightarrow> step t c = Inr u \<Longrightarrow> reachable_by step s u"

lemma run_steps_append:
  "run_steps step s (cs @ ds) = try_bind (run_steps step s cs) (\<lambda>t. run_steps step t ds)"
  by (induction cs arbitrary: s) (auto split: sum.splits)

lemma run_steps_reachable: "run_steps step s cs = Inr t \<Longrightarrow> reachable_by step s t"
proof (induction cs arbitrary: t rule: rev_induct)
  case Nil
  then show ?case by (simp add: here)
next
  case (snoc c cs)
  from snoc.prems obtain u where "run_steps step s cs = Inr u" "step u c = Inr t"
    by (cases "run_steps step s cs") (auto simp: run_steps_append split: sum.splits)
  then show ?case by (meson snoc.IH further)
qed

text \<open>What the owner of a machine promises: every accepted command keeps the invariant.\<close>

locale guarded_machine =
  fixes step :: "'s \<Rightarrow> 'c \<Rightarrow> 'e + 's" and inv :: "'s \<Rightarrow> bool"
  assumes step_inv: "inv s \<Longrightarrow> step s c = Inr t \<Longrightarrow> inv t"
begin

lemma reachable_inv: "reachable_by step s t \<Longrightarrow> inv s \<Longrightarrow> inv t"
  by (induction rule: reachable_by.induct) (auto intro: step_inv)

lemma run_inv: "inv s \<Longrightarrow> run_steps step s cs = Inr t \<Longrightarrow> inv t"
  by (blast intro: reachable_inv run_steps_reachable)

lemma accept_inv: "inv s \<Longrightarrow> inv (accept_steps step s cs)"
  by (induction cs arbitrary: s) (auto split: sum.splits intro: step_inv)

end

text \<open>A machine whose accepted commands never lower a rank (a generation, a length, a number).\<close>

locale ranked_machine = guarded_machine step inv
  for step :: "'s \<Rightarrow> 'c \<Rightarrow> 'e + 's" and inv :: "'s \<Rightarrow> bool" +
  fixes rank :: "'s \<Rightarrow> int"
  assumes step_rank: "inv s \<Longrightarrow> step s c = Inr t \<Longrightarrow> rank s \<le> rank t"
begin

lemma reachable_rank: "reachable_by step s t \<Longrightarrow> inv s \<Longrightarrow> rank s \<le> rank t"
proof (induction rule: reachable_by.induct)
  case here
  then show ?case by simp
next
  case (further t c u)
  then have "inv t" by (blast intro: reachable_inv)
  with further show ?case by (meson order_trans step_rank)
qed

lemma run_rank: "inv s \<Longrightarrow> run_steps step s cs = Inr t \<Longrightarrow> rank s \<le> rank t"
  by (blast intro: reachable_rank run_steps_reachable)

lemma accept_rank: "inv s \<Longrightarrow> rank s \<le> rank (accept_steps step s cs)"
proof (induction cs arbitrary: s)
  case Nil
  then show ?case by simp
next
  case (Cons c cs)
  show ?case
  proof (cases "step s c")
    case (Inl e)
    with Cons show ?thesis by simp
  next
    case (Inr t)
    then have "inv t" "rank s \<le> rank t" using Cons.prems step_inv step_rank by blast+
    with Inr Cons.IH[of t] show ?thesis by simp
  qed
qed

end

text \<open>A machine with a settled set of states that no accepted command leaves.\<close>

locale absorbing_machine = guarded_machine step inv
  for step :: "'s \<Rightarrow> 'c \<Rightarrow> 'e + 's" and inv :: "'s \<Rightarrow> bool" +
  fixes settled :: "'s \<Rightarrow> bool"
  assumes settled_stuck: "inv s \<Longrightarrow> settled s \<Longrightarrow> \<exists>e. step s c = Inl e"
begin

lemma settled_run: "inv s \<Longrightarrow> settled s \<Longrightarrow> run_steps step s cs = Inr t \<Longrightarrow> t = s \<and> cs = []"
proof (cases cs)
  case Nil
  assume "run_steps step s cs = Inr t"
  with Nil show ?thesis by simp
next
  case (Cons c ds)
  assume s: "inv s" "settled s" and r: "run_steps step s cs = Inr t"
  obtain e where "step s c = Inl e" using settled_stuck s by blast
  with r Cons show ?thesis by simp
qed

lemma settled_accept: "inv s \<Longrightarrow> settled s \<Longrightarrow> accept_steps step s cs = s"
proof (induction cs)
  case Nil
  then show ?case by simp
next
  case (Cons c cs)
  then obtain e where "step s c = Inl e" using settled_stuck by blast
  with Cons show ?case by simp
qed

end

section \<open>Stores addressed by a key\<close>

text \<open>A collection that replaces the entry of one key: what \<open>put\<close> stores is what \<open>get\<close> then
  returns, the other keys keep their entries.\<close>

locale keyed_store =
  fixes get :: "'m \<Rightarrow> 'k \<Rightarrow> 'v option"
    and put :: "'m \<Rightarrow> 'k \<Rightarrow> 'v \<Rightarrow> 'm"
    and ok :: "'m \<Rightarrow> bool"
    and fits :: "'k \<Rightarrow> 'v \<Rightarrow> bool"
  assumes get_put_same: "ok m \<Longrightarrow> fits k v \<Longrightarrow> get (put m k v) k = Some v"
    and get_put_other: "ok m \<Longrightarrow> fits k v \<Longrightarrow> j \<noteq> k \<Longrightarrow> get (put m k v) j = get m j"
    and put_ok: "ok m \<Longrightarrow> fits k v \<Longrightarrow> ok (put m k v)"
begin

lemma get_put: "ok m \<Longrightarrow> fits k v \<Longrightarrow> get (put m k v) j = (if j = k then Some v else get m j)"
  using get_put_same get_put_other by auto

lemma puts_ok:
  "ok m \<Longrightarrow> \<forall>(k, v) \<in> set kvs. fits k v \<Longrightarrow> ok (foldl (\<lambda>m (k, v). put m k v) m kvs)"
  by (induction kvs arbitrary: m) (auto intro: put_ok)

lemma get_puts:
  assumes "ok m" and "\<forall>(k, v) \<in> set kvs. fits k v"
  shows "get (foldl (\<lambda>m (k, v). put m k v) m kvs) j =
    (case map_of (rev kvs) j of Some v \<Rightarrow> Some v | None \<Rightarrow> get m j)"
  using assms
proof (induction kvs rule: rev_induct)
  case Nil
  then show ?case by simp
next
  case (snoc kv kvs)
  obtain k v where kv: "kv = (k, v)" by (cases kv)
  have okm: "ok (foldl (\<lambda>m (k, v). put m k v) m kvs)"
    using snoc.prems by (intro puts_ok) auto
  with snoc kv show ?case by (auto simp: get_put)
qed

lemma put_put: "ok m \<Longrightarrow> fits k v \<Longrightarrow> fits k w \<Longrightarrow> get (put (put m k v) k w) j = get (put m k w) j"
  by (simp add: get_put put_ok)

end

end
