(* ===== verification/Instants.thy ===== *)
theory Instants
  imports Prelude "HOL-Library.Monad_Syntax"
begin

text \<open>
  \<open>src/domain/instant.ts\<close>: canonical UTC instants, over the part of the JavaScript \<open>Date\<close> the code
  uses. A time value is an \<^typ>\<open>int\<close> of epoch milliseconds, \<open>NaN\<close> is \<^const>\<open>None\<close>.

  \<open>date_parse\<close> is \<open>Date.parse\<close> on the date-time format of the language: a calendar date, or a date
  with a time and a zone, years written with four digits or signed with six. A day up to 31 that
  the month does not have rolls over, as in V8. A date-time with no zone (read in the machine's
  time zone) and the engine's private fallback formats are \<open>NaN\<close> here; nothing in the code writes
  them.
\<close>

section \<open>The civil calendar\<close>

definition ms_per_day :: int where
  "ms_per_day = 86400000"

definition leap_year :: "int \<Rightarrow> bool" where
  "leap_year y \<longleftrightarrow> y mod 4 = 0 \<and> (y mod 100 \<noteq> 0 \<or> y mod 400 = 0)"

text \<open>Days from 0001-01-01 to the first day of year \<open>y\<close>.\<close>

definition days_before_year :: "int \<Rightarrow> int" where
  "days_before_year y = 365 * (y - 1) + (y - 1) div 4 - (y - 1) div 100 + (y - 1) div 400"

definition days_before_month :: "bool \<Rightarrow> int \<Rightarrow> int" where
  "days_before_month leap m =
     (let l = (if leap then 1 else 0) in
      if m \<le> 1 then 0 else if m = 2 then 31 else if m = 3 then 59 + l else if m = 4 then 90 + l
      else if m = 5 then 120 + l else if m = 6 then 151 + l else if m = 7 then 181 + l
      else if m = 8 then 212 + l else if m = 9 then 243 + l else if m = 10 then 273 + l
      else if m = 11 then 304 + l else if m = 12 then 334 + l else 365 + l)"

definition days_in_month :: "bool \<Rightarrow> int \<Rightarrow> int" where
  "days_in_month leap m = days_before_month leap (m + 1) - days_before_month leap m"

text \<open>1970-01-01 is day 719162 counted from 0001-01-01.\<close>

definition epoch_day :: int where
  "epoch_day = 719162"

text \<open>The day number of a date, counted from 1970-01-01 (\<open>MakeDay\<close>).\<close>

definition day_number :: "int \<Rightarrow> int \<Rightarrow> int \<Rightarrow> int" where
  "day_number y m d = days_before_year y + days_before_month (leap_year y) m + d - 1 - epoch_day"

definition year_of_day :: "int \<Rightarrow> int" where
  "year_of_day n =
     (let c4 = n div 146097; r4 = n mod 146097;
          c1 = min 3 (r4 div 36524); r1 = r4 - 36524 * c1;
          q = r1 div 1461; rq = r1 mod 1461;
          k = min 3 (rq div 365)
      in 400 * c4 + 100 * c1 + 4 * q + k + 1)"

definition month_of_yday :: "bool \<Rightarrow> int \<Rightarrow> int" where
  "month_of_yday leap n =
     (let b = days_before_month leap in
      if n < b 2 then 1 else if n < b 3 then 2 else if n < b 4 then 3 else if n < b 5 then 4
      else if n < b 6 then 5 else if n < b 7 then 6 else if n < b 8 then 7 else if n < b 9 then 8
      else if n < b 10 then 9 else if n < b 11 then 10 else if n < b 12 then 11 else 12)"

text \<open>Year, month and day of a day number counted from 1970-01-01.\<close>

definition civil_of_day :: "int \<Rightarrow> int \<times> int \<times> int" where
  "civil_of_day day =
     (let n = day + epoch_day; y = year_of_day n; yd = n - days_before_year y;
          m = month_of_yday (leap_year y) yd
      in (y, m, yd - days_before_month (leap_year y) m + 1))"

definition valid_civil :: "int \<Rightarrow> int \<Rightarrow> int \<Rightarrow> bool" where
  "valid_civil y m d \<longleftrightarrow> 1 \<le> m \<and> m \<le> 12 \<and> 1 \<le> d \<and> d \<le> days_in_month (leap_year y) m"

lemma div_pred:
  fixes y k :: int
  assumes "0 < k"
  shows "y div k = (y - 1) div k + (if y mod k = 0 then 1 else 0)"
proof (cases "y mod k = 0")
  case True
  have "y = k * (y div k)" using True mult_div_mod_eq[of k y] by simp
  then have "(y - 1) div k = y div k - 1"
    using assms by (intro int_div_pos_eq[where r = "k - 1"]) (simp_all add: algebra_simps)
  with True show ?thesis by simp
next
  case False
  have "0 \<le> y mod k" "y mod k < k" using assms by simp_all
  with False have "(y - 1) div k = y div k"
    by (intro int_div_pos_eq[where r = "y mod k - 1"])
      (use mult_div_mod_eq[of k y] in linarith)+
  with False show ?thesis by simp
qed

lemma days_before_year_step:
  "days_before_year (y + 1) = days_before_year y + (if leap_year y then 366 else 365)"
proof -
  have 4: "y div 4 = (y - 1) div 4 + (if y mod 4 = 0 then 1 else 0)" by (rule div_pred) simp
  have 100: "y div 100 = (y - 1) div 100 + (if y mod 100 = 0 then 1 else 0)" by (rule div_pred) simp
  have 400: "y div 400 = (y - 1) div 400 + (if y mod 400 = 0 then 1 else 0)" by (rule div_pred) simp
  have dvds: "(4::int) dvd 100" "(100::int) dvd 400" by simp_all
  have imp: "y mod 400 = 0 \<Longrightarrow> y mod 100 = 0" "y mod 100 = 0 \<Longrightarrow> y mod 4 = 0"
    using dvds by (meson dvd_trans mod_eq_0_iff_dvd)+
  have "days_before_year (y + 1) = 365 * y + y div 4 - y div 100 + y div 400"
    by (simp add: days_before_year_def)
  also have "\<dots> = days_before_year y + 365 + (if y mod 4 = 0 then 1 else 0)
      - (if y mod 100 = 0 then 1 else 0) + (if y mod 400 = 0 then 1 else 0)"
    unfolding 4 100 400 by (simp add: days_before_year_def)
  also have "\<dots> = days_before_year y + (if leap_year y then 366 else 365)"
    using imp by (cases "y mod 4 = 0"; cases "y mod 100 = 0"; cases "y mod 400 = 0")
      (simp_all add: leap_year_def)
  finally show ?thesis .
qed

lemma days_before_year_mono: "y \<le> z \<Longrightarrow> days_before_year y \<le> days_before_year z"
proof (induction z rule: int_ge_induct)
  case base
  then show ?case by simp
next
  case (step i)
  then show ?case using days_before_year_step[of i] by (auto split: if_splits)
qed

text \<open>The year of a day is the one whose span holds the day.\<close>

lemma year_of_day_split:
  fixes n :: int
  defines "y \<equiv> year_of_day n"
  shows "days_before_year y \<le> n \<and> n < days_before_year (y + 1)"
proof -
  define c4 r4 where "c4 = n div 146097" and "r4 = n mod 146097"
  define c1 where "c1 = min 3 (r4 div 36524)"
  define r1 where "r1 = r4 - 36524 * c1"
  define q rq where "q = r1 div 1461" and "rq = r1 mod 1461"
  define k where "k = min 3 (rq div 365)"
  have y: "y = 400 * c4 + 100 * c1 + 4 * q + k + 1"
    by (simp only: y_def year_of_day_def Let_def c4_def r4_def c1_def r1_def q_def rq_def k_def)
  have n: "n = 146097 * c4 + r4" "0 \<le> r4" "r4 < 146097" by (simp_all add: c4_def r4_def)
  define s t where "s = r4 div 36524" and "t = r4 mod 36524"
  have st: "r4 = 36524 * s + t" "0 \<le> t" "t < 36524" by (simp_all add: s_def t_def)
  have c1s: "c1 = min 3 s" by (simp add: c1_def s_def)
  have c1: "0 \<le> c1" "c1 \<le> 3" using n st by (auto simp: c1s)
  have r1: "0 \<le> r1" "c1 < 3 \<Longrightarrow> r1 < 36524" "r1 < 36525"
    using n st unfolding r1_def c1s min_def by (simp_all split: if_splits)
  have rq: "r1 = 1461 * q + rq" "0 \<le> rq" "rq < 1461" by (simp_all add: q_def rq_def)
  have q: "0 \<le> q" "q \<le> 24" using r1 rq by linarith+
  define u v where "u = rq div 365" and "v = rq mod 365"
  have uv: "rq = 365 * u + v" "0 \<le> v" "v < 365" by (simp_all add: u_def v_def)
  have ku: "k = min 3 u" by (simp add: k_def u_def)
  have u: "0 \<le> u" using rq by (simp add: u_def)
  have k: "0 \<le> k" "k \<le> 3" using u by (auto simp: ku)
  have rk: "365 * k \<le> rq" "k < 3 \<Longrightarrow> rq < 365 * k + 365" "rq < 365 * k + 366"
    using rq uv unfolding ku min_def by (simp_all split: if_splits)
  have e4: "(y - 1) div 4 = 100 * c4 + 25 * c1 + q"
    by (rule int_div_pos_eq[where r = k]) (use y k in simp_all)
  have e100: "(y - 1) div 100 = 4 * c4 + c1"
    by (rule int_div_pos_eq[where r = "4 * q + k"]) (use y k q in simp_all)
  have e400: "(y - 1) div 400 = c4"
    by (rule int_div_pos_eq[where r = "100 * c1 + 4 * q + k"]) (use y k q c1 in simp_all)
  have start: "days_before_year y = 146097 * c4 + 36524 * c1 + 1461 * q + 365 * k"
    unfolding days_before_year_def e4 e100 e400 using y by simp
  have low: "days_before_year y \<le> n" using start n rq rk by (simp add: r1_def)
  have long: "leap_year y" if "rq = 365 * k + 365"
  proof -
    have k3: "k = 3" using that rk k by linarith
    then have "y = 4 * (100 * c4 + 25 * c1 + q + 1)" using y by simp
    then have "y mod 4 = 0" by (metis mod_mult_self1_is_0)
    moreover have "q < 24 \<or> c1 = 3"
    proof (rule ccontr)
      assume "\<not> (q < 24 \<or> c1 = 3)"
      then have "q = 24" "c1 < 3" using q c1 by linarith+
      then show False using r1 rq that k3 by linarith
    qed
    then have "y mod 100 \<noteq> 0 \<or> y mod 400 = 0"
    proof
      assume "q < 24"
      then have "y mod 100 = 4 * q + 4"
        using y k3 q by (intro int_mod_pos_eq[where q = "4 * c4 + c1"]) simp_all
      then show ?thesis using q by simp
    next
      assume c: "c1 = 3"
      show ?thesis
      proof (cases "q = 24")
        case True
        then have "y = 400 * (c4 + 1)" using y k3 c by simp
        then show ?thesis by (metis mod_mult_self1_is_0)
      next
        case False
        then have "y mod 100 = 4 * q + 4"
          using y k3 q by (intro int_mod_pos_eq[where q = "4 * c4 + c1"]) simp_all
        then show ?thesis using q by simp
      qed
    qed
    ultimately show ?thesis by (simp add: leap_year_def)
  qed
  have "n < days_before_year (y + 1)"
  proof (cases "leap_year y")
    case True
    then show ?thesis using days_before_year_step[of y] start n rq rk by (simp add: r1_def)
  next
    case False
    then have "rq < 365 * k + 365" using long rk by force
    then show ?thesis using False days_before_year_step[of y] start n rq by (simp add: r1_def)
  qed
  with low show ?thesis by simp
qed

lemma year_of_day_unique:
  assumes "days_before_year y \<le> n" and "n < days_before_year (y + 1)"
  shows "year_of_day n = y"
proof (rule ccontr)
  assume "year_of_day n \<noteq> y"
  then consider "year_of_day n + 1 \<le> y" | "y + 1 \<le> year_of_day n" by linarith
  then show False
  proof cases
    case 1
    then show False using assms year_of_day_split[of n] days_before_year_mono by fastforce
  next
    case 2
    then show False using assms year_of_day_split[of n] days_before_year_mono by fastforce
  qed
qed

lemma month_of_yday_split:
  assumes "0 \<le> n" and "n < (if leap then 366 else 365)"
  defines "m \<equiv> month_of_yday leap n"
  shows "1 \<le> m \<and> m \<le> 12 \<and> days_before_month leap m \<le> n \<and> n < days_before_month leap (m + 1)"
  using assms
  by (cases leap) (simp_all add: m_def month_of_yday_def days_before_month_def Let_def)

lemma month_cases:
  fixes m :: int
  assumes "1 \<le> m" "m \<le> 12"
  obtains "m = 1" | "m = 2" | "m = 3" | "m = 4" | "m = 5" | "m = 6" | "m = 7" | "m = 8" | "m = 9"
    | "m = 10" | "m = 11" | "m = 12"
proof -
  have "m = 1 \<or> m = 2 \<or> m = 3 \<or> m = 4 \<or> m = 5 \<or> m = 6 \<or> m = 7 \<or> m = 8 \<or> m = 9
    \<or> m = 10 \<or> m = 11 \<or> m = 12"
    using assms by arith
  then show thesis using that by blast
qed

lemma month_of_yday_unique:
  assumes "1 \<le> m" "m \<le> 12" "days_before_month leap m \<le> n" "n < days_before_month leap (m + 1)"
  shows "month_of_yday leap n = m"
  by (rule month_cases[OF assms(1,2)]; cases leap)
    (use assms(3,4) in \<open>simp_all add: month_of_yday_def days_before_month_def Let_def\<close>)

lemma days_in_month_le:
  assumes "1 \<le> m" "m \<le> 12"
  shows "28 \<le> days_in_month leap m \<and> days_in_month leap m \<le> 31"
  by (cases leap; rule month_cases[OF assms])
    (simp_all add: days_in_month_def days_before_month_def Let_def)

lemma civil_of_day_valid:
  assumes "civil_of_day day = (y, m, d)"
  shows "valid_civil y m d" and "day_number y m d = day"
proof -
  let ?n = "day + epoch_day"
  have y: "y = year_of_day ?n" using assms by (simp add: civil_of_day_def Let_def)
  let ?yd = "?n - days_before_year y"
  have m: "m = month_of_yday (leap_year y) ?yd"
    using assms y by (simp add: civil_of_day_def Let_def)
  have d: "d = ?yd - days_before_month (leap_year y) m + 1"
    using assms y m by (simp add: civil_of_day_def Let_def)
  have "0 \<le> ?yd" "?yd < (if leap_year y then 366 else 365)"
    using year_of_day_split[of ?n] y days_before_year_step[of y] by (auto split: if_splits)
  from month_of_yday_split[OF this] m d show "valid_civil y m d"
    by (auto simp: valid_civil_def days_in_month_def)
  show "day_number y m d = day" by (simp add: day_number_def d)
qed

lemma civil_of_day_number:
  assumes "valid_civil y m d"
  shows "civil_of_day (day_number y m d) = (y, m, d)"
proof -
  let ?n = "day_number y m d + epoch_day"
  have m: "1 \<le> m" "m \<le> 12" and d: "1 \<le> d" "d \<le> days_in_month (leap_year y) m"
    using assms by (simp_all add: valid_civil_def)
  have pos: "0 \<le> days_before_month (leap_year y) m"
    by (simp add: days_before_month_def Let_def)
  have cap: "days_before_month (leap_year y) (m + 1) \<le> (if leap_year y then 366 else 365)"
    by (simp add: days_before_month_def Let_def)
  have n: "?n = days_before_year y + (days_before_month (leap_year y) m + d - 1)"
    by (simp add: day_number_def)
  have y: "year_of_day ?n = y"
  proof (rule year_of_day_unique)
    show "days_before_year y \<le> ?n" using n pos d by linarith
    show "?n < days_before_year (y + 1)"
      using n d cap days_before_year_step[of y] by (auto simp: days_in_month_def split: if_splits)
  qed
  have mo: "month_of_yday (leap_year y) (days_before_month (leap_year y) m + d - 1) = m"
    using m d by (intro month_of_yday_unique) (auto simp: days_in_month_def)
  show ?thesis using n y mo by (simp add: civil_of_day_def Let_def)
qed

section \<open>Reading and writing date strings\<close>

definition digit_char :: "nat \<Rightarrow> char" where
  "digit_char n = char_of (48 + n mod 10)"

text \<open>The last \<open>w\<close> decimal digits of a number, zeros in front.\<close>

fun pad :: "nat \<Rightarrow> nat \<Rightarrow> string" where
  "pad 0 n = []"
| "pad (Suc w) n = pad w (n div 10) @ [digit_char n]"

text \<open>\<open>new Date(t).toISOString()\<close>.\<close>

definition iso_year :: "int \<Rightarrow> string" where
  "iso_year y =
     (if 0 \<le> y \<and> y \<le> 9999 then pad 4 (nat y)
      else (if y < 0 then ''-'' else ''+'') @ pad 6 (nat \<bar>y\<bar>))"

definition iso_string :: "int \<Rightarrow> string" where
  "iso_string t =
     (let day = t div ms_per_day; ms = t mod ms_per_day in
      case civil_of_day day of (y, m, d) \<Rightarrow>
        iso_year y @ ''-'' @ pad 2 (nat m) @ ''-'' @ pad 2 (nat d) @ ''T''
        @ pad 2 (nat (ms div 3600000)) @ '':'' @ pad 2 (nat (ms div 60000 mod 60)) @ '':''
        @ pad 2 (nat (ms div 1000 mod 60)) @ ''.'' @ pad 3 (nat (ms mod 1000)) @ ''Z'')"

text \<open>Scanning: exactly \<open>n\<close> digits, one character of a set, an optional fraction, a zone.\<close>

definition eat_digits :: "nat \<Rightarrow> string \<Rightarrow> (string \<times> string) option" where
  "eat_digits n s =
     (if n \<le> length s \<and> list_all is_digit (take n s) then Some (take n s, drop n s) else None)"

fun eat_one :: "string \<Rightarrow> string \<Rightarrow> string option" where
  "eat_one cs [] = None"
| "eat_one cs (c # s) = (if c \<in> set cs then Some s else None)"

definition eat_fraction :: "string \<Rightarrow> (string \<times> string) option" where
  "eat_fraction s =
     (case s of c # r \<Rightarrow>
        (if c = CHR ''.'' then
           (case takeWhile is_digit r of [] \<Rightarrow> None | ds \<Rightarrow> Some (ds, dropWhile is_digit r))
         else Some ([], s))
      | [] \<Rightarrow> Some ([], s))"

datatype zone = Zulu | Offset bool nat nat \<comment> \<open>west of Greenwich, hours, minutes\<close>

definition scan_zone :: "string \<Rightarrow> zone option" where
  "scan_zone s =
     (case s of [] \<Rightarrow> None
      | c # r \<Rightarrow>
        (if c \<in> set ''Zz'' then (if r = [] then Some Zulu else None)
         else if c \<in> set ''+-'' then
           do { (h, r) \<leftarrow> eat_digits 2 r;
                r \<leftarrow> Some (case eat_one '':'' r of Some r' \<Rightarrow> r' | None \<Rightarrow> r);
                (m, r) \<leftarrow> eat_digits 2 r;
                if r = [] then Some (Offset (c = CHR ''-'') (digits_val h) (digits_val m)) else None }
         else None))"

definition zone_ms :: "zone \<Rightarrow> int" where
  "zone_ms z = (case z of Zulu \<Rightarrow> 0
     | Offset west h m \<Rightarrow> (if west then -1 else 1) * (int h * 3600000 + int m * 60000))"

text \<open>The first three digits of a fraction of a second.\<close>

definition fraction_ms :: "string \<Rightarrow> nat" where
  "fraction_ms f = digits_val (take 3 (f @ ''000''))"

definition eat_year :: "string \<Rightarrow> (int \<times> string) option" where
  "eat_year s =
     (case eat_one ''+-'' s of
        None \<Rightarrow> do { (y, r) \<leftarrow> eat_digits 4 s; Some (int (digits_val y), r) }
      | Some s' \<Rightarrow>
          do { (y, r) \<leftarrow> eat_digits 6 s';
               if hd s = CHR ''-'' then
                 (if digits_val y = 0 then None else Some (- int (digits_val y), r))
               else Some (int (digits_val y), r) })"

text \<open>Time values beyond 100 million days around the epoch are \<open>NaN\<close>.\<close>

definition time_clip :: "int \<Rightarrow> int option" where
  "time_clip t = (if \<bar>t\<bar> \<le> 8640000000000000 then Some t else None)"

definition time_of_day :: "nat \<Rightarrow> nat \<Rightarrow> nat \<Rightarrow> nat \<Rightarrow> int option" where
  "time_of_day h m s f =
     (if m \<le> 59 \<and> s \<le> 59 \<and> (h \<le> 23 \<or> (h = 24 \<and> m = 0 \<and> s = 0 \<and> f = 0))
      then Some (int h * 3600000 + int m * 60000 + int s * 1000 + int f) else None)"

definition date_parse :: "string \<Rightarrow> int option" where
  "date_parse s =
     do { (y, s) \<leftarrow> eat_year s;
          s \<leftarrow> eat_one ''-'' s; (mo, s) \<leftarrow> eat_digits 2 s;
          s \<leftarrow> eat_one ''-'' s; (d, s) \<leftarrow> eat_digits 2 s;
          let mo = digits_val mo; d = digits_val d in
          if \<not> (1 \<le> mo \<and> mo \<le> 12 \<and> 1 \<le> d \<and> d \<le> 31) then None
          else let midnight = day_number y (int mo) (int d) * ms_per_day in
          if s = [] then time_clip midnight
          else do { s \<leftarrow> eat_one ''Tt'' s;
                    (h, s) \<leftarrow> eat_digits 2 s; s \<leftarrow> eat_one '':'' s;
                    (mi, s) \<leftarrow> eat_digits 2 s; s \<leftarrow> eat_one '':'' s;
                    (se, s) \<leftarrow> eat_digits 2 s; (f, s) \<leftarrow> eat_fraction s;
                    z \<leftarrow> scan_zone s;
                    ms \<leftarrow> time_of_day (digits_val h) (digits_val mi) (digits_val se) (fraction_ms f);
                    time_clip (midnight + ms - zone_ms z) } }"

section \<open>Instants\<close>

text \<open>The capture groups of the instant pattern.\<close>

record stamp =
  st_year :: string
  st_month :: string
  st_day :: string
  st_hour :: string
  st_minute :: string
  st_second :: string
  st_fraction :: string
  st_zone :: zone

definition scan_stamp :: "string \<Rightarrow> stamp option" where
  "scan_stamp s =
     do { (y, s) \<leftarrow> eat_digits 4 s; s \<leftarrow> eat_one ''-'' s;
          (mo, s) \<leftarrow> eat_digits 2 s; s \<leftarrow> eat_one ''-'' s;
          (d, s) \<leftarrow> eat_digits 2 s; s \<leftarrow> eat_one ''Tt'' s;
          (h, s) \<leftarrow> eat_digits 2 s; s \<leftarrow> eat_one '':'' s;
          (mi, s) \<leftarrow> eat_digits 2 s; s \<leftarrow> eat_one '':'' s;
          (se, s) \<leftarrow> eat_digits 2 s; (f, s) \<leftarrow> eat_fraction s;
          z \<leftarrow> scan_zone s;
          Some \<lparr>st_year = y, st_month = mo, st_day = d, st_hour = h, st_minute = mi,
                st_second = se, st_fraction = f, st_zone = z\<rparr> }"

definition zone_in_range :: "zone \<Rightarrow> bool" where
  "zone_in_range z = (case z of Zulu \<Rightarrow> True | Offset _ h m \<Rightarrow> h \<le> 23 \<and> m \<le> 59)"

definition parse_instant_ms :: "string \<Rightarrow> int option" where
  "parse_instant_ms value =
     (case scan_stamp value of
        None \<Rightarrow> None
      | Some st \<Rightarrow>
        (let calendar = st_year st @ ''-'' @ st_month st @ ''-'' @ st_day st @ ''T00:00:00.000Z'' in
         case date_parse calendar of
           None \<Rightarrow> None
         | Some calendar_ms \<Rightarrow>
           (if iso_string calendar_ms \<noteq> calendar \<or> digits_val (st_hour st) > 23
               \<or> digits_val (st_minute st) > 59 \<or> digits_val (st_second st) > 59 then None
            else if \<not> zone_in_range (st_zone st) then None
            else date_parse value)))"

definition is_valid_iso_instant :: "string \<Rightarrow> bool" where
  "is_valid_iso_instant value \<longleftrightarrow> parse_instant_ms value \<noteq> None"

text \<open>A non-zero digit after the first three digits of a fraction that runs up to the zone: the
  value is finer than a millisecond.\<close>

definition below_ms :: "string \<Rightarrow> bool" where
  "below_ms value =
     (case scan_stamp value of
        None \<Rightarrow> False
      | Some st \<Rightarrow> 3 < length (st_fraction st) \<and> (\<exists>c\<in>set (drop 3 (st_fraction st)). c \<noteq> CHR ''0''))"

definition to_canonical_utc_instant :: "string \<Rightarrow> unit + string" where
  "to_canonical_utc_instant value =
     (case parse_instant_ms value of
        None \<Rightarrow> Inl ()
      | Some ms \<Rightarrow> if below_ms value then Inl () else Inr (iso_string ms))"

text \<open>\<open>YYYY-MM-DDTHH:mm:ss.sssZ\<close>, one predicate for each character.\<close>

definition canonical_shape :: "(char \<Rightarrow> bool) list" where
  "canonical_shape =
     (let d = is_digit; is = (\<lambda>c x. x = c) in
      [d, d, d, d, is CHR ''-'', d, d, is CHR ''-'', d, d, is CHR ''T'', d, d, is CHR '':'', d, d,
       is CHR '':'', d, d, is CHR ''.'', d, d, d, is CHR ''Z''])"

definition is_canonical_utc_instant :: "string \<Rightarrow> bool" where
  "is_canonical_utc_instant value \<longleftrightarrow>
     list_all2 (\<lambda>p c. p c) canonical_shape value \<and> parse_instant_ms value \<noteq> None"

text \<open>\<open>left < right\<close> on strings compares code units.\<close>

fun str_less :: "string \<Rightarrow> string \<Rightarrow> bool" where
  "str_less s [] = False"
| "str_less [] (d # t) = True"
| "str_less (c # s) (d # t) =
     (of_char c < (of_char d :: nat) \<or> (c = d \<and> str_less s t))"

section \<open>Round trips\<close>

lemma length_pad [simp]: "length (pad w n) = w"
  by (induction w arbitrary: n) simp_all

lemma of_digit_char: "(of_char (digit_char n) :: nat) = 48 + n mod 10"
proof -
  have "n mod 10 < 10" by simp
  then have "48 + n mod 10 < 256" by simp
  then show ?thesis by (simp add: digit_char_def)
qed

lemma is_digit_digit_char [simp]: "is_digit (digit_char n)"
  by (simp add: is_digit_def of_digit_char Let_def)

lemma digit_val_digit_char [simp]: "digit_val (digit_char n) = n mod 10"
  by (simp add: digit_val_def of_digit_char)

lemma all_digits_pad [simp]: "list_all is_digit (pad w n)"
  by (induction w arbitrary: n) simp_all

lemma digits_val_snoc [simp]: "digits_val (ds @ [c]) = 10 * digits_val ds + digit_val c"
  by (simp add: digits_val_def)

lemma digits_val_Nil [simp]: "digits_val [] = 0"
  by (simp add: digits_val_def)

lemma digits_val_pad: "digits_val (pad w n) = n mod 10 ^ w"
proof (induction w arbitrary: n)
  case 0
  then show ?case by simp
next
  case (Suc w)
  have "n mod (10 * 10 ^ w) = 10 * (n div 10 mod 10 ^ w) + n mod 10"
    by (rule mod_mult2_eq)
  with Suc show ?case by simp
qed

lemma digits_val_pad_small: "n < 10 ^ w \<Longrightarrow> digits_val (pad w n) = n"
  by (simp add: digits_val_pad)

lemma digit_val_less: "is_digit c \<Longrightarrow> digit_val c < 10"
  by (auto simp: is_digit_def digit_val_def Let_def)

lemma digits_val_bound: "list_all is_digit ds \<Longrightarrow> digits_val ds < 10 ^ length ds"
proof (induction ds rule: rev_induct)
  case Nil
  then show ?case by simp
next
  case (snoc c ds)
  then have "digits_val ds + 1 \<le> 10 ^ length ds" "digit_val c < 10"
    by (auto simp: digit_val_less)
  then show ?case by simp
qed

lemma eat_digits_append [simp]:
  "list_all is_digit ds \<Longrightarrow> length ds = n \<Longrightarrow> eat_digits n (ds @ r) = Some (ds, r)"
  by (simp add: eat_digits_def)

lemma eat_digits_Some:
  "eat_digits n s = Some (ds, r) \<longleftrightarrow> s = ds @ r \<and> length ds = n \<and> list_all is_digit ds"
  by (auto simp: eat_digits_def split: if_splits)

lemma eat_one_Some: "eat_one cs s = Some r \<longleftrightarrow> (\<exists>c. s = c # r \<and> c \<in> set cs)"
  by (cases s) auto

lemma is_digit_not_sign: "is_digit c \<Longrightarrow> c \<notin> set ''+-''"
  by (auto simp: is_digit_def Let_def)

lemma eat_year_four:
  assumes "list_all is_digit y" and "length y = 4"
  shows "eat_year (y @ r) = Some (int (digits_val y), r)"
proof -
  obtain c cs where y: "y = c # cs" using assms by (cases y) auto
  then have "c \<notin> set ''+-''" using assms is_digit_not_sign by auto
  then have "eat_one ''+-'' (y @ r) = None" using y by simp
  moreover have "eat_digits 4 (y @ r) = Some (y, r)" using assms by simp
  ultimately show ?thesis by (simp add: eat_year_def)
qed

lemma eat_year_iso:
  assumes "\<bar>y\<bar> < 1000000"
  shows "eat_year (iso_year y @ r) = Some (y, r)"
proof (cases "0 \<le> y \<and> y \<le> 9999")
  case True
  then have "digits_val (pad 4 (nat y)) = nat y" by (intro digits_val_pad_small) (simp add: nat_less_iff)
  with True show ?thesis using eat_year_four[of "pad 4 (nat y)" r] by (simp add: iso_year_def)
next
  case False
  then have "nat \<bar>y\<bar> < 1000000" "y < 0 \<Longrightarrow> nat \<bar>y\<bar> \<noteq> 0" using assms by auto
  then have v: "digits_val (pad 6 (nat \<bar>y\<bar>)) = nat \<bar>y\<bar>" by (simp add: digits_val_pad)
  have e: "eat_digits 6 (pad 6 (nat \<bar>y\<bar>) @ r) = Some (pad 6 (nat \<bar>y\<bar>), r)" by simp
  show ?thesis
  proof (cases "y < 0")
    case True
    then show ?thesis using False v e by (simp add: iso_year_def eat_year_def)
  next
    case nn: False
    then show ?thesis using False v e by (simp add: iso_year_def eat_year_def)
  qed
qed

lemma eat_fraction_three:
  assumes "list_all is_digit f" and "f \<noteq> []"
  shows "eat_fraction (CHR ''.'' # f @ CHR ''Z'' # r) = Some (f, CHR ''Z'' # r)"
proof -
  have z: "\<not> is_digit (CHR ''Z'')" by (simp add: is_digit_def Let_def)
  have all: "\<forall>x\<in>set f. is_digit x" using assms by (simp add: list_all_iff)
  have "takeWhile is_digit (f @ CHR ''Z'' # r) = f" "dropWhile is_digit (f @ CHR ''Z'' # r) = CHR ''Z'' # r"
    using all z by (simp_all add: takeWhile_append2 dropWhile_append2)
  moreover obtain c cs where "f = c # cs" using assms by (cases f) auto
  ultimately show ?thesis by (simp add: eat_fraction_def)
qed

lemma scan_zone_Z [simp]: "scan_zone ''Z'' = Some Zulu"
  by (simp add: scan_zone_def)

lemma fraction_ms_three: "length f = 3 \<Longrightarrow> fraction_ms f = digits_val f"
  by (simp add: fraction_ms_def)

text \<open>A stamp in the written form, read back field by field.\<close>

lemma date_parse_fields:
  assumes mo: "list_all is_digit mo" "length mo = 2" "1 \<le> digits_val mo" "digits_val mo \<le> 12"
    and d: "list_all is_digit d" "length d = 2" "1 \<le> digits_val d" "digits_val d \<le> 31"
    and h: "list_all is_digit h" "length h = 2" "digits_val h \<le> 23"
    and mi: "list_all is_digit mi" "length mi = 2" "digits_val mi \<le> 59"
    and se: "list_all is_digit se" "length se = 2" "digits_val se \<le> 59"
    and f: "list_all is_digit f" "length f = 3"
    and y: "\<And>r. eat_year (ys @ r) = Some (yv, r)"
  shows "date_parse (ys @ ''-'' @ mo @ ''-'' @ d @ ''T'' @ h @ '':'' @ mi @ '':'' @ se @ ''.'' @ f @ ''Z'') =
    time_clip (day_number yv (int (digits_val mo)) (int (digits_val d)) * ms_per_day
      + int (digits_val h) * 3600000 + int (digits_val mi) * 60000 + int (digits_val se) * 1000
      + int (digits_val f))"
proof -
  have fr: "eat_fraction (CHR ''.'' # f @ ''Z'') = Some (f, ''Z'')"
    using eat_fraction_three[of f "[]"] f by fastforce
  have fm: "fraction_ms f = digits_val f" using f fraction_ms_three by simp
  show ?thesis
    using assms
    by (simp add: date_parse_def y fr fm time_of_day_def zone_ms_def Let_def add.assoc)
qed

text \<open>The clock fields of a time within a day.\<close>

lemma clock_split:
  fixes ms :: int
  assumes "0 \<le> ms" "ms < ms_per_day"
  shows "ms = ms div 3600000 * 3600000 + ms div 60000 mod 60 * 60000 + ms div 1000 mod 60 * 1000 + ms mod 1000"
    and "0 \<le> ms div 3600000" "ms div 3600000 \<le> 23"
proof -
  have a: "ms = ms div 1000 * 1000 + ms mod 1000" by simp
  have b: "ms div 1000 = ms div 60000 * 60 + ms div 1000 mod 60"
    using zdiv_zmult2_eq[of 60 ms 1000] mult_div_mod_eq[of 60 "ms div 1000"] by simp
  have c: "ms div 60000 = ms div 3600000 * 60 + ms div 60000 mod 60"
    using zdiv_zmult2_eq[of 60 ms 60000] mult_div_mod_eq[of 60 "ms div 60000"] by simp
  show "ms = ms div 3600000 * 3600000 + ms div 60000 mod 60 * 60000 + ms div 1000 mod 60 * 1000 + ms mod 1000"
    using a b c by linarith
  show "0 \<le> ms div 3600000" using assms by simp
  show "ms div 3600000 \<le> 23" using assms by (simp add: ms_per_day_def)
qed

lemma year_bound:
  assumes "\<bar>day\<bar> \<le> 100000000" and "civil_of_day day = (y, m, d)"
  shows "\<bar>y\<bar> < 1000000"
proof -
  let ?n = "day + epoch_day"
  have y: "y = year_of_day ?n" using assms by (simp add: civil_of_day_def Let_def)
  have split: "days_before_year y \<le> ?n" "?n < days_before_year (y + 1)"
    using year_of_day_split[of ?n] y by simp_all
  have hi: "days_before_year 1000000 > ?n" using assms by (simp add: days_before_year_def epoch_day_def)
  have lo: "days_before_year (- 999999) \<le> ?n" using assms by (simp add: days_before_year_def epoch_day_def)
  have "y < 1000000"
  proof (rule ccontr)
    assume "\<not> y < 1000000"
    then have "days_before_year 1000000 \<le> days_before_year y" by (intro days_before_year_mono) simp
    with split hi show False by simp
  qed
  moreover have "- 1000000 < y"
  proof (rule ccontr)
    assume "\<not> - 1000000 < y"
    then have "days_before_year (y + 1) \<le> days_before_year (- 999999)" by (intro days_before_year_mono) simp
    with split lo show False by simp
  qed
  ultimately show ?thesis by simp
qed

lemma valid_civil_bounds: "valid_civil y m d \<Longrightarrow> 1 \<le> m \<and> m \<le> 12 \<and> 1 \<le> d \<and> d \<le> 31"
  using days_in_month_le[of m "leap_year y"] by (auto simp: valid_civil_def)

text \<open>\<open>Date.parse\<close> reads back every string \<open>toISOString\<close> writes.\<close>

lemma date_parse_iso_string:
  assumes "\<bar>t\<bar> \<le> 8640000000000000"
  shows "date_parse (iso_string t) = Some t"
proof -
  define day ms where "day = t div ms_per_day" and "ms = t mod ms_per_day"
  obtain y m d where c: "civil_of_day day = (y, m, d)" by (cases "civil_of_day day")
  have t: "t = day * ms_per_day + ms" by (simp add: day_def ms_def)
  have ms: "0 \<le> ms" "ms < ms_per_day" by (simp_all add: ms_def ms_per_day_def)
  have day: "\<bar>day\<bar> \<le> 100000000"
  proof -
    have "86400000 * day \<le> t" "t < 86400000 * day + 86400000"
      using t ms by (simp_all add: ms_per_day_def)
    moreover have "t \<le> 8640000000000000" "- 8640000000000000 \<le> t" using assms by simp_all
    ultimately have "day \<le> 100000000" and "- 100000000 \<le> day" by linarith+
    then show ?thesis by simp
  qed
  have v: "valid_civil y m d" and dn: "day_number y m d = day"
    using civil_of_day_valid[OF c] by simp_all
  have b: "1 \<le> m" "m \<le> 12" "1 \<le> d" "d \<le> 31" using valid_civil_bounds[OF v] by simp_all
  note clock = clock_split[OF ms]
  define H M S F where "H = nat (ms div 3600000)" and "M = nat (ms div 60000 mod 60)"
    and "S = nat (ms div 1000 mod 60)" and "F = nat (ms mod 1000)"
  have hmsf: "int H = ms div 3600000" "int M = ms div 60000 mod 60" "int S = ms div 1000 mod 60"
    "int F = ms mod 1000"
    using clock(2) by (simp_all add: H_def M_def S_def F_def)
  have m60: "x mod 60 \<le> 59" for x :: int using pos_mod_bound[of 60 x] by linarith
  have m1000: "x mod 1000 < 1000" for x :: int by simp
  have r: "H \<le> 23" "M \<le> 59" "S \<le> 59" "F < 1000"
    unfolding H_def M_def S_def F_def nat_le_iff nat_less_iff[OF pos_mod_sign, simplified]
    using clock(3) m60 m1000 by (simp_all add: nat_le_iff)
  have sum: "int H * 3600000 + int M * 60000 + int S * 1000 + int F = ms"
    unfolding hmsf by (rule clock(1)[symmetric])
  have dv: "digits_val (pad 2 k) = k" if "k < 100" for k using that by (simp add: digits_val_pad)
  have dvs: "digits_val (pad 2 H) = H" "digits_val (pad 2 M) = M" "digits_val (pad 2 S) = S"
    "digits_val (pad 3 F) = F" "digits_val (pad 2 (nat m)) = nat m" "digits_val (pad 2 (nat d)) = nat d"
    using r b by (simp_all add: dv digits_val_pad)
  have "iso_string t = iso_year y @ ''-'' @ pad 2 (nat m) @ ''-'' @ pad 2 (nat d) @ ''T''
        @ pad 2 H @ '':'' @ pad 2 M @ '':'' @ pad 2 S @ ''.'' @ pad 3 F @ ''Z''"
    using c by (simp add: iso_string_def Let_def H_def M_def S_def F_def flip: day_def ms_def)
  also have "date_parse \<dots> = time_clip (day_number y (int (digits_val (pad 2 (nat m)))) (int (digits_val (pad 2 (nat d)))) * ms_per_day
      + int (digits_val (pad 2 H)) * 3600000 + int (digits_val (pad 2 M)) * 60000
      + int (digits_val (pad 2 S)) * 1000 + int (digits_val (pad 3 F)))"
  proof (rule date_parse_fields)
    show "eat_year (iso_year y @ r) = Some (y, r)" for r by (rule eat_year_iso) (rule year_bound[OF day c])
  qed (use r b in \<open>simp_all add: dvs\<close>)
  also have "\<dots> = time_clip t"
    unfolding dvs using b dn sum t by (simp add: add.assoc)
  finally show ?thesis using assms by (simp add: time_clip_def)
qed

section \<open>Canonical instants\<close>

lemma digit_char_val: "is_digit c \<Longrightarrow> digit_char (10 * k + digit_val c) = c"
proof -
  assume d: "is_digit c"
  then have "48 \<le> (of_char c :: nat)" "(of_char c :: nat) < 58"
    by (auto simp: is_digit_def Let_def)
  then have "48 + digit_val c = of_char c" "digit_val c < 10" by (auto simp: digit_val_def)
  then show ?thesis by (simp add: digit_char_def)
qed

lemma pad_digits_val:
  assumes "list_all is_digit ds" "length ds = w"
  shows "pad w (digits_val ds) = ds"
  using assms
proof (induction ds arbitrary: w rule: rev_induct)
  case Nil
  then show ?case by simp
next
  case (snoc c ds)
  then obtain v where w: "w = Suc v" "length ds = v" by auto
  have "digit_val c < 10" using snoc.prems by (auto simp: digit_val_less)
  then have "(10 * digits_val ds + digit_val c) div 10 = digits_val ds" by simp
  with snoc w show ?case by (simp add: digit_char_val)
qed

text \<open>The text of a canonical instant, from its seven fields.\<close>

definition stamp_text :: "string \<Rightarrow> string \<Rightarrow> string \<Rightarrow> string \<Rightarrow> string \<Rightarrow> string \<Rightarrow> string \<Rightarrow> string" where
  "stamp_text y mo d h mi se f =
     y @ ''-'' @ mo @ ''-'' @ d @ ''T'' @ h @ '':'' @ mi @ '':'' @ se @ ''.'' @ f @ ''Z''"

definition field_digits :: "string \<Rightarrow> string \<Rightarrow> string \<Rightarrow> string \<Rightarrow> string \<Rightarrow> string \<Rightarrow> string \<Rightarrow> bool" where
  "field_digits y mo d h mi se f \<longleftrightarrow>
     list_all is_digit y \<and> length y = 4 \<and> list_all is_digit mo \<and> length mo = 2 \<and>
     list_all is_digit d \<and> length d = 2 \<and> list_all is_digit h \<and> length h = 2 \<and>
     list_all is_digit mi \<and> length mi = 2 \<and> list_all is_digit se \<and> length se = 2 \<and>
     list_all is_digit f \<and> length f = 3"

definition field_ms :: "string \<Rightarrow> string \<Rightarrow> string \<Rightarrow> string \<Rightarrow> string \<Rightarrow> string \<Rightarrow> string \<Rightarrow> int" where
  "field_ms y mo d h mi se f =
     day_number (int (digits_val y)) (int (digits_val mo)) (int (digits_val d)) * ms_per_day
      + int (digits_val h) * 3600000 + int (digits_val mi) * 60000 + int (digits_val se) * 1000
      + int (digits_val f)"

lemma stamp_text_cong:
  assumes "field_digits y mo d h mi se f" and "field_digits y' mo' d' h' mi' se' f'"
  shows "stamp_text y mo d h mi se f = stamp_text y' mo' d' h' mi' se' f' \<longleftrightarrow>
    y = y' \<and> mo = mo' \<and> d = d' \<and> h = h' \<and> mi = mi' \<and> se = se' \<and> f = f'"
  using assms by (auto simp: stamp_text_def field_digits_def)

lemma canonical_shape_iff:
  "list_all2 (\<lambda>p c. p c) canonical_shape v \<longleftrightarrow>
    (\<exists>y mo d h mi se f. field_digits y mo d h mi se f \<and> v = stamp_text y mo d h mi se f)"
proof
  assume "list_all2 (\<lambda>p c. p c) canonical_shape v"
  then obtain y1 y2 y3 y4 m1 m2 d1 d2 h1 h2 n1 n2 s1 s2 f1 f2 f3 where
    dig: "list_all is_digit [y1,y2,y3,y4]" "list_all is_digit [m1,m2]" "list_all is_digit [d1,d2]"
      "list_all is_digit [h1,h2]" "list_all is_digit [n1,n2]" "list_all is_digit [s1,s2]"
      "list_all is_digit [f1,f2,f3]"
    and v: "v = stamp_text [y1,y2,y3,y4] [m1,m2] [d1,d2] [h1,h2] [n1,n2] [s1,s2] [f1,f2,f3]"
    by (auto simp: canonical_shape_def Let_def list_all2_Cons1 stamp_text_def)
  then have "field_digits [y1,y2,y3,y4] [m1,m2] [d1,d2] [h1,h2] [n1,n2] [s1,s2] [f1,f2,f3]"
    by (simp add: field_digits_def)
  with v show "\<exists>y mo d h mi se f. field_digits y mo d h mi se f \<and> v = stamp_text y mo d h mi se f"
    by blast
next
  assume "\<exists>y mo d h mi se f. field_digits y mo d h mi se f \<and> v = stamp_text y mo d h mi se f"
  then show "list_all2 (\<lambda>p c. p c) canonical_shape v"
    by (auto simp: field_digits_def stamp_text_def canonical_shape_def Let_def eval_nat_numeral
        length_Suc_conv)
qed

lemma scan_stamp_text:
  assumes "field_digits y mo d h mi se f"
  shows "scan_stamp (stamp_text y mo d h mi se f) =
    Some \<lparr>st_year = y, st_month = mo, st_day = d, st_hour = h, st_minute = mi,
          st_second = se, st_fraction = f, st_zone = Zulu\<rparr>"
proof -
  have "eat_fraction (CHR ''.'' # f @ ''Z'') = Some (f, ''Z'')"
    using eat_fraction_three[of f "[]"] assms by (fastforce simp: field_digits_def)
  with assms show ?thesis by (simp add: scan_stamp_def stamp_text_def field_digits_def)
qed

lemma valid_civil_iso_day:
  assumes "valid_civil y m d" "0 \<le> y" "y \<le> 9999"
  shows "iso_string (day_number y m d * ms_per_day) =
    pad 4 (nat y) @ ''-'' @ pad 2 (nat m) @ ''-'' @ pad 2 (nat d) @ ''T00:00:00.000Z''"
proof -
  have "pad 2 0 = ''00''" "pad 3 0 = ''000''" by code_simp+
  then show ?thesis
    using assms civil_of_day_number[OF assms(1)]
    by (simp add: iso_string_def iso_year_def ms_per_day_def)
qed

lemma iso_year_four:
  assumes "iso_year y' @ r' = y @ r" and "list_all is_digit y" and "length y = 4"
  shows "0 \<le> y' \<and> y' \<le> 9999 \<and> iso_year y' = y"
proof -
  obtain c cs where y: "y = c # cs" "is_digit c" using assms by (cases y) auto
  have c: "c \<noteq> CHR ''-''" "c \<noteq> CHR ''+''" using y(2) is_digit_not_sign by fastforce+
  have "0 \<le> y' \<and> y' \<le> 9999"
    using assms(1) c y by (auto simp: iso_year_def split: if_splits)
  with assms show ?thesis by (auto simp: iso_year_def)
qed

text \<open>A date is real exactly when writing its day number gives the date back.\<close>

lemma calendar_check:
  assumes "list_all is_digit y" "length y = 4" "list_all is_digit mo" "length mo = 2"
    and "list_all is_digit d" "length d = 2"
  shows "iso_string (day_number (int (digits_val y)) (int (digits_val mo)) (int (digits_val d)) * ms_per_day)
      = y @ ''-'' @ mo @ ''-'' @ d @ ''T00:00:00.000Z''
    \<longleftrightarrow> valid_civil (int (digits_val y)) (int (digits_val mo)) (int (digits_val d))"
    (is "iso_string (?day * _) = ?cal \<longleftrightarrow> ?valid")
proof
  assume ?valid
  moreover have "digits_val y < 10 ^ 4" using digits_val_bound[OF assms(1)] assms(2) by simp
  ultimately show "iso_string (?day * ms_per_day) = ?cal"
    using assms by (simp add: valid_civil_iso_day pad_digits_val)
next
  assume eq: "iso_string (?day * ms_per_day) = ?cal"
  obtain y' m' d' where c: "civil_of_day ?day = (y', m', d')" by (cases "civil_of_day ?day")
  have v: "valid_civil y' m' d'" using civil_of_day_valid[OF c] by simp
  have b: "1 \<le> m'" "m' \<le> 12" "1 \<le> d'" "d' \<le> 31" using valid_civil_bounds[OF v] by simp_all
  have iso: "iso_string (?day * ms_per_day) =
      iso_year y' @ ''-'' @ pad 2 (nat m') @ ''-'' @ pad 2 (nat d') @ ''T'' @ pad 2 0 @ '':''
        @ pad 2 0 @ '':'' @ pad 2 0 @ ''.'' @ pad 3 0 @ ''Z''"
    using c by (simp add: iso_string_def ms_per_day_def)
  have yr: "0 \<le> y'" "y' \<le> 9999" "iso_year y' = y"
    using iso_year_four[OF eq[unfolded iso] assms(1,2)] by simp_all
  have rest: "pad 2 (nat m') = mo" "pad 2 (nat d') = d"
    using eq yr(3) assms unfolding iso by auto
  have "digits_val y = nat y'"
    using yr by (auto simp: iso_year_def digits_val_pad_small nat_less_iff dest!: arg_cong[where f = digits_val])
  moreover have "digits_val mo = nat m'" "digits_val d = nat d'"
    using rest b digits_val_pad_small[of "nat m'" 2] digits_val_pad_small[of "nat d'" 2] by auto
  ultimately show ?valid using v yr b by simp
qed

text \<open>Every date of a four-digit year lies within the range of time values.\<close>

lemma day_number_range:
  assumes "0 \<le> y" "y \<le> 9999" "1 \<le> m" "m \<le> 12" "1 \<le> d" "d \<le> 31"
  shows "- 719528 \<le> day_number y m d" "day_number y m d \<le> 3000000"
proof -
  have bm: "0 \<le> days_before_month l m" "days_before_month l m \<le> 335" for l
    by (cases l; rule month_cases[OF assms(3,4)]; simp add: days_before_month_def Let_def)+
  have "days_before_year 0 \<le> days_before_year y" "days_before_year y \<le> days_before_year 9999"
    using assms by (simp_all add: days_before_year_mono)
  moreover have "days_before_year 0 = -366" "days_before_year 9999 = 3651694"
    by (simp_all add: days_before_year_def)
  ultimately show "- 719528 \<le> day_number y m d" "day_number y m d \<le> 3000000"
    using bm[of "leap_year y"] assms by (simp_all add: day_number_def epoch_day_def)
qed

lemma date_parse_stamp_text:
  assumes "field_digits y mo d h mi se f"
    and "1 \<le> digits_val mo" "digits_val mo \<le> 12" "1 \<le> digits_val d" "digits_val d \<le> 31"
    and "digits_val h \<le> 23" "digits_val mi \<le> 59" "digits_val se \<le> 59"
  shows "date_parse (stamp_text y mo d h mi se f) = Some (field_ms y mo d h mi se f)"
proof -
  have y4: "list_all is_digit y" "length y = 4" using assms by (simp_all add: field_digits_def)
  have "digits_val y < 10 ^ 4" using digits_val_bound[OF y4(1)] y4(2) by simp
  then have dn: "- 719528 \<le> day_number (int (digits_val y)) (int (digits_val mo)) (int (digits_val d))"
    "day_number (int (digits_val y)) (int (digits_val mo)) (int (digits_val d)) \<le> 3000000"
    using assms by (intro day_number_range; simp)+
  have "digits_val f < 10 ^ 3"
    using digits_val_bound[of f] assms by (simp add: field_digits_def)
  then have "\<bar>field_ms y mo d h mi se f\<bar> \<le> 8640000000000000"
    using dn assms by (simp add: field_ms_def ms_per_day_def)
  moreover have "date_parse (stamp_text y mo d h mi se f) = time_clip (field_ms y mo d h mi se f)"
    unfolding stamp_text_def field_ms_def
    using assms eat_year_four[OF y4] by (intro date_parse_fields) (simp_all add: field_digits_def)
  ultimately show ?thesis by (simp add: time_clip_def)
qed

lemma date_parse_calendar:
  assumes "list_all is_digit y" "length y = 4" "list_all is_digit mo" "length mo = 2"
    and "list_all is_digit d" "length d = 2"
  shows "date_parse (y @ ''-'' @ mo @ ''-'' @ d @ ''T00:00:00.000Z'') =
    (if 1 \<le> digits_val mo \<and> digits_val mo \<le> 12 \<and> 1 \<le> digits_val d \<and> digits_val d \<le> 31
     then Some (day_number (int (digits_val y)) (int (digits_val mo)) (int (digits_val d)) * ms_per_day)
     else None)"
proof (cases "1 \<le> digits_val mo \<and> digits_val mo \<le> 12 \<and> 1 \<le> digits_val d \<and> digits_val d \<le> 31")
  case True
  have z: "digits_val ''00'' = 0" "digits_val ''000'' = 0" by code_simp+
  have "field_digits y mo d ''00'' ''00'' ''00'' ''000''"
    using assms by (simp add: field_digits_def is_digit_def Let_def)
  from date_parse_stamp_text[OF this] True show ?thesis
    by (simp add: stamp_text_def field_ms_def z)
next
  case False
  then show ?thesis
    using assms eat_year_four[OF assms(1,2)] by (simp add: date_parse_def Let_def)
qed

lemma parse_instant_stamp_text:
  assumes "field_digits y mo d h mi se f"
  shows "parse_instant_ms (stamp_text y mo d h mi se f) =
    (if valid_civil (int (digits_val y)) (int (digits_val mo)) (int (digits_val d))
        \<and> digits_val h \<le> 23 \<and> digits_val mi \<le> 59 \<and> digits_val se \<le> 59
     then Some (field_ms y mo d h mi se f) else None)"
proof -
  have dig: "list_all is_digit y" "length y = 4" "list_all is_digit mo" "length mo = 2"
    "list_all is_digit d" "length d = 2" using assms by (simp_all add: field_digits_def)
  show ?thesis
  proof (cases "valid_civil (int (digits_val y)) (int (digits_val mo)) (int (digits_val d))")
    case True
    then have "1 \<le> digits_val mo" "digits_val mo \<le> 12" "1 \<le> digits_val d" "digits_val d \<le> 31"
      using valid_civil_bounds by fastforce+
    then show ?thesis
      using True scan_stamp_text[OF assms] date_parse_calendar[OF dig] calendar_check[OF dig]
        date_parse_stamp_text[OF assms]
      by (simp add: parse_instant_ms_def zone_in_range_def not_less[symmetric])
  next
    case False
    then show ?thesis
      using scan_stamp_text[OF assms] date_parse_calendar[OF dig] calendar_check[OF dig]
      by (simp add: parse_instant_ms_def Let_def)
  qed
qed

text \<open>A time value with a year of four digits is written in the canonical shape, and read back.\<close>

definition four_digit_year :: "int \<Rightarrow> bool" where
  "four_digit_year t \<longleftrightarrow> 0 \<le> fst (civil_of_day (t div ms_per_day)) \<and> fst (civil_of_day (t div ms_per_day)) \<le> 9999"

lemma iso_string_stamp:
  assumes "four_digit_year t"
  obtains y mo d h mi se f where "field_digits y mo d h mi se f"
    and "iso_string t = stamp_text y mo d h mi se f"
proof -
  obtain y m d where c: "civil_of_day (t div ms_per_day) = (y, m, d)"
    by (cases "civil_of_day (t div ms_per_day)")
  with assms have y: "0 \<le> y" "y \<le> 9999" by (simp_all add: four_digit_year_def)
  show thesis
    using c y by (intro that) (auto simp: iso_string_def Let_def iso_year_def stamp_text_def field_digits_def)
qed

lemma iso_string_canonical:
  assumes "\<bar>t\<bar> \<le> 8640000000000000" and "four_digit_year t"
  shows "is_canonical_utc_instant (iso_string t)" and "parse_instant_ms (iso_string t) = Some t"
proof -
  define day ms where "day = t div ms_per_day" and "ms = t mod ms_per_day"
  obtain y m d where c: "civil_of_day day = (y, m, d)" by (cases "civil_of_day day")
  have v: "valid_civil y m d" and dn: "day_number y m d = day" using civil_of_day_valid[OF c] by simp_all
  have b: "1 \<le> m" "m \<le> 12" "1 \<le> d" "d \<le> 31" using valid_civil_bounds[OF v] by simp_all
  have y: "0 \<le> y" "y \<le> 9999" using assms c by (simp_all add: four_digit_year_def day_def)
  have ms: "0 \<le> ms" "ms < ms_per_day" by (simp_all add: ms_def ms_per_day_def)
  have m60: "nat (x mod 60) \<le> 59" for x :: int using pos_mod_bound[of 60 x] by (simp add: nat_le_iff)
  have "nat (x mod 60) < 100" for x :: int using m60[of x] by simp
  then have dv: "digits_val (pad 4 (nat y)) = nat y" "digits_val (pad 2 (nat m)) = nat m"
    "digits_val (pad 2 (nat d)) = nat d" "digits_val (pad 2 (nat (x mod 60))) = nat (x mod 60)" for x
    using y b by (simp_all add: digits_val_pad_small nat_less_iff)
  have h: "nat (ms div 3600000) \<le> 23" using clock_split(3)[OF ms] by (simp add: nat_le_iff)
  then have dh: "digits_val (pad 2 (nat (ms div 3600000))) = nat (ms div 3600000)"
    by (simp add: digits_val_pad_small)
  let ?f = "field_digits (pad 4 (nat y)) (pad 2 (nat m)) (pad 2 (nat d)) (pad 2 (nat (ms div 3600000)))
    (pad 2 (nat (ms div 60000 mod 60))) (pad 2 (nat (ms div 1000 mod 60))) (pad 3 (nat (ms mod 1000)))"
  let ?t = "stamp_text (pad 4 (nat y)) (pad 2 (nat m)) (pad 2 (nat d)) (pad 2 (nat (ms div 3600000)))
    (pad 2 (nat (ms div 60000 mod 60))) (pad 2 (nat (ms div 1000 mod 60))) (pad 3 (nat (ms mod 1000)))"
  have f: ?f by (simp add: field_digits_def)
  have iso: "iso_string t = ?t"
    using c y by (simp add: iso_string_def iso_year_def stamp_text_def Let_def flip: day_def ms_def)
  have ok: "parse_instant_ms ?t \<noteq> None" and same: "parse_instant_ms ?t = date_parse ?t"
  proof -
    have "date_parse ?t = Some (field_ms (pad 4 (nat y)) (pad 2 (nat m)) (pad 2 (nat d)) (pad 2 (nat (ms div 3600000)))
      (pad 2 (nat (ms div 60000 mod 60))) (pad 2 (nat (ms div 1000 mod 60))) (pad 3 (nat (ms mod 1000))))"
      using f b h m60 by (intro date_parse_stamp_text) (simp_all add: dv dh)
    then show "parse_instant_ms ?t \<noteq> None" "parse_instant_ms ?t = date_parse ?t"
      using parse_instant_stamp_text[OF f] v y b h m60 by (simp_all add: dv dh)
  qed
  show "is_canonical_utc_instant (iso_string t)"
    unfolding is_canonical_utc_instant_def canonical_shape_iff iso using f ok by blast
  show "parse_instant_ms (iso_string t) = Some t"
    using same date_parse_iso_string[OF assms(1)] by (simp add: iso)
qed

lemma canonical_parse_range:
  assumes "is_canonical_utc_instant v" and "parse_instant_ms v = Some t"
  shows "\<not> below_ms v"
proof -
  from assms(1) obtain y mo d h mi se f where f: "field_digits y mo d h mi se f"
    and v: "v = stamp_text y mo d h mi se f"
    unfolding is_canonical_utc_instant_def canonical_shape_iff by blast
  then show ?thesis using scan_stamp_text[OF f] by (simp add: below_ms_def field_digits_def)
qed

lemma parse_instant_clip: "parse_instant_ms v = Some t \<Longrightarrow> \<bar>t\<bar> \<le> 8640000000000000"
  by (auto simp: parse_instant_ms_def date_parse_def time_clip_def Let_def
      split: option.splits if_splits Option.bind_splits)

section \<open>Order of canonical instants\<close>

lemma str_less_append:
  "length a = length b \<Longrightarrow> str_less (a @ x) (b @ y) \<longleftrightarrow> str_less a b \<or> (a = b \<and> str_less x y)"
proof (induction a b rule: list_induct2)
  case Nil
  then show ?case by simp
next
  case (Cons c a d b)
  then show ?case by auto
qed

lemma str_less_irrefl [simp]: "\<not> str_less s s"
  by (induction s) auto

lemma str_less_total:
  "length a = length b \<Longrightarrow> a \<noteq> b \<Longrightarrow> str_less a b \<or> str_less b a"
proof (induction a b rule: list_induct2)
  case Nil
  then show ?case by simp
next
  case (Cons c a d b)
  show ?case
  proof (cases "c = d")
    case True
    with Cons show ?thesis by auto
  next
    case False
    then have "(of_char c :: nat) \<noteq> of_char d" by simp
    then have "of_char c < (of_char d :: nat) \<or> of_char d < (of_char c :: nat)" by linarith
    then show ?thesis by auto
  qed
qed

lemma digits_val_Cons: "digits_val (c # cs) = digit_val c * 10 ^ length cs + digits_val cs"
proof (induction cs rule: rev_induct)
  case Nil
  then show ?case by (simp add: digits_val_def)
next
  case (snoc d cs)
  have "digits_val (c # cs @ [d]) = 10 * digits_val (c # cs) + digit_val d"
    using digits_val_snoc[of "c # cs" d] by simp
  with snoc show ?case by simp
qed

lemma str_less_digits:
  "length a = length b \<Longrightarrow> list_all is_digit a \<Longrightarrow> list_all is_digit b \<Longrightarrow>
    str_less a b \<longleftrightarrow> digits_val a < digits_val b"
proof (induction a b rule: list_induct2)
  case Nil
  then show ?case by simp
next
  case (Cons c a d b)
  have ba: "digits_val a < 10 ^ length a" and bb: "digits_val b < 10 ^ length a"
    using Cons digits_val_bound[of a] digits_val_bound[of b] by simp_all
  have dig: "is_digit c" "is_digit d" using Cons.prems by simp_all
  then have nc: "48 + digit_val c = of_char c" "48 + digit_val d = of_char d"
    by (auto simp only: is_digit_def digit_val_def Let_def)
  then have cd1: "of_char c < (of_char d :: nat) \<longleftrightarrow> digit_val c < digit_val d" by linarith
  have cd2: "c = d \<longleftrightarrow> digit_val c = digit_val d"
    using digit_char_val[OF dig(1), of 0] digit_char_val[OF dig(2), of 0] by metis
  note cd = cd1 cd2
  have step: "i * 10 ^ length a + x < j * 10 ^ length a + y" if "i < j" "x < 10 ^ length a" for i j x y :: nat
  proof -
    have "i * 10 ^ length a + x < (i + 1) * 10 ^ length a" using that by simp
    also have "\<dots> \<le> j * 10 ^ length a" using that by (intro mult_right_mono) simp_all
    finally show ?thesis by simp
  qed
  have dc: "digits_val (c # a) = digit_val c * 10 ^ length a + digits_val a"
    "digits_val (d # b) = digit_val d * 10 ^ length a + digits_val b"
    using Cons.hyps by (simp_all add: digits_val_Cons)
  show ?case
  proof (cases "digit_val c" "digit_val d" rule: linorder_cases)
    case less
    with step[OF less ba] cd dc show ?thesis by simp
  next
    case equal
    with cd dc Cons show ?thesis by simp
  next
    case greater
    have "digits_val (d # b) < digits_val (c # a)" unfolding dc by (rule step[OF greater bb])
    with greater cd show ?thesis by simp
  qed
qed

text \<open>Dates in calendar order have day numbers in the same order.\<close>

lemma day_number_less:
  assumes "valid_civil y m d" "valid_civil y' m' d'"
    and "y < y' \<or> (y = y' \<and> (m < m' \<or> (m = m' \<and> d < d')))"
  shows "day_number y m d < day_number y' m' d'"
proof -
  have m: "1 \<le> m" "m \<le> 12" "1 \<le> m'" "m' \<le> 12" "1 \<le> d" "d \<le> days_in_month (leap_year y) m" "1 \<le> d'"
    using assms by (simp_all add: valid_civil_def)
  consider "y < y'" | "y = y'" "m < m'" | "y = y'" "m = m'" "d < d'" using assms by blast
  then show ?thesis
  proof cases
    case 1
    have "days_before_month (leap_year y) (m + 1) \<le> (if leap_year y then 366 else 365)"
      by (simp add: days_before_month_def Let_def)
    then have "day_number y m d + epoch_day < days_before_year (y + 1)"
      using m days_before_year_step[of y] by (auto simp: day_number_def days_in_month_def split: if_splits)
    also have "\<dots> \<le> days_before_year y'" using 1 by (intro days_before_year_mono) simp
    also have "\<dots> \<le> day_number y' m' d' + epoch_day"
      using m by (simp add: day_number_def days_before_month_def Let_def)
    finally show ?thesis by simp
  next
    case 2
    have "days_before_month l (m + 1) \<le> days_before_month l m'" for l
      by (rule month_cases[OF m(1,2)]; rule month_cases[OF m(3,4)]; cases l)
        (use 2 in \<open>simp_all add: days_before_month_def Let_def\<close>)
    from this[of "leap_year y"] 2 m show ?thesis by (simp add: day_number_def days_in_month_def)
  next
    case 3
    then show ?thesis by (simp add: day_number_def)
  qed
qed

definition clock_ms :: "nat \<Rightarrow> nat \<Rightarrow> nat \<Rightarrow> nat \<Rightarrow> int" where
  "clock_ms h m s f = int h * 3600000 + int m * 60000 + int s * 1000 + int f"

lemma clock_ms_less:
  assumes "m \<le> 59" "s \<le> 59" "f \<le> 999"
    and "h < h' \<or> (h = h' \<and> (m < m' \<or> (m = m' \<and> (s < s' \<or> (s = s' \<and> f < f')))))"
  shows "clock_ms h m s f < clock_ms h' m' s' f'"
  using assms unfolding clock_ms_def by linarith

lemma date_fields_less:
  assumes f: "field_digits y mo d h mi se f" and f': "field_digits y' mo' d' h' mi' se' f'"
    and less: "str_less (y @ mo @ d) (y' @ mo' @ d')"
  shows "digits_val y < digits_val y' \<or> (digits_val y = digits_val y' \<and>
    (digits_val mo < digits_val mo' \<or> (digits_val mo = digits_val mo' \<and> digits_val d < digits_val d')))"
proof -
  have l: "length y = length y'" "length mo = length mo'" "length d = length d'"
    using f f' by (simp_all add: field_digits_def)
  have "str_less y y' \<or> y = y' \<and> (str_less mo mo' \<or> mo = mo' \<and> str_less d d')"
    using less by (simp add: str_less_append l)
  moreover have "str_less y y' \<Longrightarrow> digits_val y < digits_val y'"
    "str_less mo mo' \<Longrightarrow> digits_val mo < digits_val mo'" "str_less d d' \<Longrightarrow> digits_val d < digits_val d'"
    using f f' l by (simp_all add: str_less_digits field_digits_def)
  ultimately show ?thesis by blast
qed

lemma clock_fields_less:
  assumes f: "field_digits y mo d h mi se f" and f': "field_digits y' mo' d' h' mi' se' f'"
    and less: "str_less (h @ mi @ se @ f) (h' @ mi' @ se' @ f')"
  shows "digits_val h < digits_val h' \<or> (digits_val h = digits_val h' \<and>
    (digits_val mi < digits_val mi' \<or> (digits_val mi = digits_val mi' \<and>
    (digits_val se < digits_val se' \<or> (digits_val se = digits_val se' \<and> digits_val f < digits_val f')))))"
proof -
  have l: "length h = length h'" "length mi = length mi'" "length se = length se'" "length f = length f'"
    using f f' by (simp_all add: field_digits_def)
  have "str_less h h' \<or> h = h' \<and> (str_less mi mi' \<or> mi = mi' \<and>
    (str_less se se' \<or> se = se' \<and> str_less f f'))"
    using less by (simp add: str_less_append l)
  moreover have "str_less h h' \<Longrightarrow> digits_val h < digits_val h'"
    "str_less mi mi' \<Longrightarrow> digits_val mi < digits_val mi'" "str_less se se' \<Longrightarrow> digits_val se < digits_val se'"
    "str_less f f' \<Longrightarrow> digits_val f < digits_val f'"
    using f f' l by (simp_all add: str_less_digits field_digits_def)
  ultimately show ?thesis by blast
qed

lemma stamp_text_less:
  assumes f: "field_digits y mo d h mi se f" and f': "field_digits y' mo' d' h' mi' se' f'"
    and ok: "parse_instant_ms (stamp_text y mo d h mi se f) = Some t"
    and ok': "parse_instant_ms (stamp_text y' mo' d' h' mi' se' f') = Some t'"
    and less: "str_less (stamp_text y mo d h mi se f) (stamp_text y' mo' d' h' mi' se' f')"
  shows "t < t'"
proof -
  note p = parse_instant_stamp_text[OF f] and p' = parse_instant_stamp_text[OF f']
  have v: "valid_civil (int (digits_val y)) (int (digits_val mo)) (int (digits_val d))"
    and c: "digits_val h \<le> 23" "digits_val mi \<le> 59" "digits_val se \<le> 59"
    and t: "t = field_ms y mo d h mi se f"
    using ok p by (auto split: if_splits)
  have v': "valid_civil (int (digits_val y')) (int (digits_val mo')) (int (digits_val d'))"
    and c': "digits_val h' \<le> 23" "digits_val mi' \<le> 59" "digits_val se' \<le> 59"
    and t': "t' = field_ms y' mo' d' h' mi' se' f'"
    using ok' p' by (auto split: if_splits)
  have lf: "digits_val f \<le> 999" "digits_val f' \<le> 999"
    using f f' digits_val_bound[of f] digits_val_bound[of f'] by (simp_all add: field_digits_def)
  let ?D = "day_number (int (digits_val y)) (int (digits_val mo)) (int (digits_val d))"
  let ?D' = "day_number (int (digits_val y')) (int (digits_val mo')) (int (digits_val d'))"
  let ?C = "clock_ms (digits_val h) (digits_val mi) (digits_val se) (digits_val f)"
  let ?C' = "clock_ms (digits_val h') (digits_val mi') (digits_val se') (digits_val f')"
  have T: "t = ?D * 86400000 + ?C" "t' = ?D' * 86400000 + ?C'"
    by (simp_all add: t t' field_ms_def clock_ms_def ms_per_day_def)
  have C: "0 \<le> ?C'" "?C < 86400000" using c lf unfolding clock_ms_def by linarith+
  have cases: "str_less (y @ mo @ d) (y' @ mo' @ d') \<or>
    (y = y' \<and> mo = mo' \<and> d = d' \<and> str_less (h @ mi @ se @ f) (h' @ mi' @ se' @ f'))"
    using less f f' by (auto simp: stamp_text_def field_digits_def str_less_append)
  then show ?thesis
  proof
    assume "str_less (y @ mo @ d) (y' @ mo' @ d')"
    then have "digits_val y < digits_val y' \<or> (digits_val y = digits_val y' \<and>
      (digits_val mo < digits_val mo' \<or> (digits_val mo = digits_val mo' \<and> digits_val d < digits_val d')))"
      by (rule date_fields_less[OF f f'])
    then have "?D < ?D'" by (intro day_number_less v v') auto
    then show ?thesis using T C by linarith
  next
    assume eq: "y = y' \<and> mo = mo' \<and> d = d' \<and> str_less (h @ mi @ se @ f) (h' @ mi' @ se' @ f')"
    then have "digits_val h < digits_val h' \<or> (digits_val h = digits_val h' \<and>
      (digits_val mi < digits_val mi' \<or> (digits_val mi = digits_val mi' \<and>
      (digits_val se < digits_val se' \<or> (digits_val se = digits_val se' \<and> digits_val f < digits_val f')))))"
      by (elim conjE, intro clock_fields_less[OF f f']) simp
    then have "?C < ?C'" using c lf by (intro clock_ms_less) auto
    then show ?thesis using T eq by simp
  qed
qed

lemma canonical_order:
  assumes "is_canonical_utc_instant a" and "is_canonical_utc_instant b"
    and a: "parse_instant_ms a = Some t" and b: "parse_instant_ms b = Some u"
  shows "str_less a b \<longleftrightarrow> t < u"
proof -
  obtain y mo d h mi se f where fa: "field_digits y mo d h mi se f" "a = stamp_text y mo d h mi se f"
    using assms(1) unfolding is_canonical_utc_instant_def canonical_shape_iff by blast
  obtain y' mo' d' h' mi' se' f' where fb: "field_digits y' mo' d' h' mi' se' f'"
    "b = stamp_text y' mo' d' h' mi' se' f'"
    using assms(2) unfolding is_canonical_utc_instant_def canonical_shape_iff by blast
  have ab: "str_less a b \<Longrightarrow> t < u" using stamp_text_less[OF fa(1) fb(1)] fa fb a b by simp
  have ba: "str_less b a \<Longrightarrow> u < t" using stamp_text_less[OF fb(1) fa(1)] fa fb a b by simp
  have len: "length a = length b" using fa fb by (simp add: stamp_text_def field_digits_def)
  show ?thesis
  proof (cases "a = b")
    case True
    then show ?thesis using a b by simp
  next
    case False
    with str_less_total[OF len] ab ba show ?thesis by fastforce
  qed
qed

lemma canonical_idem:
  assumes "to_canonical_utc_instant v = Inr c" and "parse_instant_ms v = Some t" and "four_digit_year t"
  shows "is_canonical_utc_instant c \<and> parse_instant_ms c = Some t \<and> to_canonical_utc_instant c = Inr c"
proof -
  have c: "c = iso_string t" using assms by (auto simp: to_canonical_utc_instant_def split: if_splits)
  have r: "\<bar>t\<bar> \<le> 8640000000000000" using assms(2) by (rule parse_instant_clip)
  have k: "is_canonical_utc_instant c" "parse_instant_ms c = Some t"
    using iso_string_canonical[OF r assms(3)] c by simp_all
  moreover have "\<not> below_ms c" using canonical_parse_range k by blast
  ultimately show ?thesis using c by (simp add: to_canonical_utc_instant_def)
qed

text \<open>C40: Stored instants sort as text. Two instants whose years have four digits, however they are
  spelled, are stored in canonical spellings whose order as strings is their order in time; a canonical
  spelling denotes the same millisecond, is recognised as canonical and is left as it is when it is
  stored again.\<close>

theorem stored_instants_sort:
  assumes "to_canonical_utc_instant v = Inr a" and "to_canonical_utc_instant w = Inr b"
    and "parse_instant_ms v = Some t" and "parse_instant_ms w = Some u"
    and "four_digit_year t" and "four_digit_year u"
  shows "(str_less a b \<longleftrightarrow> t < u) \<and> (a = b \<longleftrightarrow> t = u) \<and>
    is_canonical_utc_instant a \<and> parse_instant_ms a = Some t \<and> to_canonical_utc_instant a = Inr a"
proof -
  note a = canonical_idem [OF assms(1,3,5)] and b = canonical_idem [OF assms(2,4,6)]
  have "a = b" if "t = u"
    using assms that by (auto simp: to_canonical_utc_instant_def split: if_splits)
  then show ?thesis using a b canonical_order [of a b t u] by auto
qed

theorem stored_instants_sort_witness:
  "str_less ''2026-10-10T00:30:00.000Z'' ''2026-10-10T00:45:00.500Z'' \<and>
    is_canonical_utc_instant ''2026-10-10T00:30:00.000Z''"
proof -
  have "to_canonical_utc_instant ''2026-10-09T23:30:00-01:00'' = Inr ''2026-10-10T00:30:00.000Z''"
    and "to_canonical_utc_instant ''2026-10-10T00:45:00.5Z'' = Inr ''2026-10-10T00:45:00.500Z''"
    and "parse_instant_ms ''2026-10-09T23:30:00-01:00'' = Some 1791592200000"
    and "parse_instant_ms ''2026-10-10T00:45:00.5Z'' = Some 1791593100500"
    and "four_digit_year 1791592200000" and "four_digit_year 1791593100500"
    by code_simp+
  from stored_instants_sort [OF this] show ?thesis by simp
qed

end
