(* ===== verification/DecisionWindows.thy ===== *)
theory DecisionWindows
  imports Instants
begin

text \<open>
  Reporting days and weeks: \<open>src/src/domain/decision-window.ts\<close>.

  A day is the text \<open>YYYY-MM-DD\<close>. The local day of an instant in a time zone is what
  \<open>Intl.DateTimeFormat\<close> says: the parameter \<open>local_day\<close>. The label of a window is not modelled. A \<open>Date\<close>
  is a time value, \<open>None\<close> when it is invalid.
\<close>

section \<open>Days\<close>

definition DECISION_WINDOW_DAYS :: int where
  "DECISION_WINDOW_DAYS = 7"

datatype moment = Text string | Date_value "int option"

text \<open>\<open>/^\d{4}-\d{2}-\d{2}$/.test(at)\<close>.\<close>

definition is_day_label :: "string \<Rightarrow> bool" where
  "is_day_label s \<longleftrightarrow> list_all2 (\<lambda>p c. p c)
     [is_digit, is_digit, is_digit, is_digit, \<lambda>c. c = CHR ''-'', is_digit, is_digit, \<lambda>c. c = CHR ''-'', is_digit, is_digit] s"

text \<open>\<open>+YYYYYY-MM\<close> is a date too: the first of the month.\<close>

definition month_form :: "string \<Rightarrow> (int \<times> nat) option" where
  "month_form s =
     (case eat_year s of None \<Rightarrow> None
      | Some (y, r) \<Rightarrow>
          (case Option.bind (eat_one ''-'' r) (eat_digits 2) of
             Some (m, []) \<Rightarrow> if 1 \<le> digits_val m \<and> digits_val m \<le> 12 then Some (y, digits_val m) else None
           | _ \<Rightarrow> None))"

definition midnight :: "string \<Rightarrow> int option" where
  "midnight day =
     (case month_form day of
        Some (y, m) \<Rightarrow> time_clip (day_number y (int m) 1 * ms_per_day)
      | None \<Rightarrow> date_parse (day @ ''T00:00:00Z''))"

definition date_of :: "int \<Rightarrow> string" where
  "date_of t = take 10 (iso_string t)"

text \<open>The empty text is the answer for what is no date.\<close>

definition decisionWindowDay :: "(string \<Rightarrow> int \<Rightarrow> string) \<Rightarrow> moment \<Rightarrow> string \<Rightarrow> string" where
  "decisionWindowDay local_day at_moment timeZone =
     (case at_moment of
        Text s \<Rightarrow>
          if is_day_label s then (case midnight s of None \<Rightarrow> [] | Some t \<Rightarrow> if date_of t = s then s else [])
          else (case date_parse s of None \<Rightarrow> [] | Some t \<Rightarrow> local_day timeZone t)
      | Date_value None \<Rightarrow> []
      | Date_value (Some t) \<Rightarrow> local_day timeZone t)"

text \<open>\<open>None\<close>: \<open>toISOString\<close> of an invalid date throws.\<close>

definition shiftDays :: "string \<Rightarrow> int \<Rightarrow> string option" where
  "shiftDays day days =
     map_option date_of (Option.bind (midnight day) (\<lambda>t. time_clip (t + days * ms_per_day)))"

section \<open>Windows\<close>

record decision_window =
  dw_timeZone :: string
  dw_start :: "int option"
  dw_end :: "int option"
  dw_startDate :: string
  dw_endDate :: string

datatype window_error = Retention_days | Observation_invalid | Date_out_of_range

definition decisionWindowEndingOn ::
  "(string \<Rightarrow> int \<Rightarrow> string) \<Rightarrow> moment \<Rightarrow> jsnum \<Rightarrow> string \<Rightarrow> window_error + decision_window" where
  "decisionWindowEndingOn local_day endDate days timeZone =
     (case days of
        Num q \<Rightarrow>
          if \<not> is_integer_num days \<or> q < 1 then Inl Retention_days
          else let final = decisionWindowDay local_day endDate timeZone in
            if final = [] then Inl Observation_invalid
            else (case shiftDays final (- (floor q - 1)) of
                None \<Rightarrow> Inl Date_out_of_range
              | Some first \<Rightarrow> Inr \<lparr> dw_timeZone = timeZone, dw_start = midnight first, dw_end = midnight final,
                  dw_startDate = first, dw_endDate = final \<rparr>)
      | _ \<Rightarrow> Inl Retention_days)"

definition weeklyDecisionWindows ::
  "(string \<Rightarrow> int \<Rightarrow> string) \<Rightarrow> moment \<Rightarrow> string \<Rightarrow> window_error + decision_window \<times> decision_window" where
  "weeklyDecisionWindows local_day today timeZone =
     try_bind (decisionWindowEndingOn local_day today (Num (of_int DECISION_WINDOW_DAYS)) timeZone) (\<lambda>current.
       (case shiftDays (dw_startDate current) (- 1) of
          None \<Rightarrow> Inl Date_out_of_range
        | Some before \<Rightarrow>
            map_sum id (Pair current)
              (decisionWindowEndingOn local_day (Text before) (Num (of_int DECISION_WINDOW_DAYS)) timeZone)))"

text \<open>The loop over the days need not end: \<open>None\<close> is a loop that runs for ever, \<open>Inl\<close> one that throws.\<close>

partial_function (option) days_until :: "string \<Rightarrow> string \<Rightarrow> (unit + string list) option" where
  "days_until final day =
     (if str_less final day then Some (Inr [])
      else if shiftDays day 1 = None then Some (Inl ())
      else Option.bind (days_until final (the (shiftDays day 1))) (\<lambda>rest. Some (map_sum id ((#) day) rest)))"

definition decisionWindowDays :: "decision_window \<Rightarrow> (unit + string list) option" where
  "decisionWindowDays window = days_until (dw_endDate window) (dw_startDate window)"

definition decisionWindowContains :: "(string \<Rightarrow> int \<Rightarrow> string) \<Rightarrow> decision_window \<Rightarrow> string \<Rightarrow> bool" where
  "decisionWindowContains local_day window at_text =
     (let day = decisionWindowDay local_day (Text at_text) (dw_timeZone window) in
      day \<noteq> [] \<and> \<not> str_less day (dw_startDate window) \<and> \<not> str_less (dw_endDate window) day)"

definition decisionRetentionBoundary ::
  "(string \<Rightarrow> int \<Rightarrow> string) \<Rightarrow> moment \<Rightarrow> jsnum \<Rightarrow> string \<Rightarrow> window_error + string" where
  "decisionRetentionBoundary local_day at_moment days timeZone =
     (if days = Num 0
      then try_bind (decisionWindowEndingOn local_day at_moment (Num 1) timeZone) (\<lambda>window.
        (case shiftDays (dw_endDate window) 1 of None \<Rightarrow> Inl Date_out_of_range | Some day \<Rightarrow> Inr day))
      else map_sum id dw_startDate (decisionWindowEndingOn local_day at_moment days timeZone))"

text \<open>A reporting window has its two dates only; \<open>None\<close> when one of them is invalid and \<open>toISOString\<close> throws.\<close>

definition reportingWindowContains ::
  "(string \<Rightarrow> int \<Rightarrow> string) \<Rightarrow> string \<Rightarrow> int option \<Rightarrow> int option \<Rightarrow> string \<Rightarrow> bool option" where
  "reportingWindowContains local_day timeZone start_date end_date at_text =
     (let day = decisionWindowDay local_day (Text at_text) timeZone in
      if day = [] then Some False
      else (case start_date of
          None \<Rightarrow> None
        | Some s \<Rightarrow> if str_less day (date_of s) then Some False
            else map_option (\<lambda>e. \<not> str_less (date_of e) day) end_date))"

section \<open>The end of a day\<close>

text \<open>The search for the boundary between two local days; the list of the instants it looked at comes with it.\<close>

function day_boundary :: "(int \<Rightarrow> string) \<Rightarrow> string \<Rightarrow> int \<Rightarrow> int \<Rightarrow> int \<times> int list" where
  "day_boundary day_at nextDay before after =
     (if after - before > 1
      then let middle = (before + after) div 2;
               (boundary, probes) = (if str_less (day_at middle) nextDay then day_boundary day_at nextDay middle after
                 else day_boundary day_at nextDay before middle)
           in (boundary, middle # probes)
      else (before, []))"
  by pat_completeness auto
termination
  by (relation "measure (\<lambda>(_, _, before, after). nat (after - before))") auto

declare day_boundary.simps [simp del]

definition HALF_SPAN :: int where
  "HALF_SPAN = 36 * 60 * 60 * 1000"

definition decisionWindowDayEnd :: "(string \<Rightarrow> int \<Rightarrow> string) \<Rightarrow> string \<Rightarrow> string \<Rightarrow> (string \<times> int list) option" where
  "decisionWindowDayEnd local_day day timeZone =
     Option.bind (shiftDays day 1) (\<lambda>nextDay. Option.bind (midnight nextDay) (\<lambda>anchor.
       let (boundary, probes) = day_boundary (\<lambda>t. decisionWindowDay local_day (Date_value (time_clip t)) timeZone) nextDay
             (anchor - HALF_SPAN) (anchor + HALF_SPAN)
       in map_option (\<lambda>t. (iso_string t, probes)) (time_clip boundary)))"

section \<open>Day texts\<close>

text \<open>The text of a day of the years 0 to 9999, from its number counted from 1970-01-01.\<close>

definition day_text :: "int \<Rightarrow> string" where
  "day_text n = date_of (n * ms_per_day)"

definition four_digit_day :: "int \<Rightarrow> bool" where
  "four_digit_day n \<longleftrightarrow> - 719528 \<le> n \<and> n \<le> 2932896"

lemma four_digit_day_year:
  assumes "four_digit_day n" and "civil_of_day n = (y, m, d)"
  shows "0 \<le> y \<and> y \<le> 9999"
proof -
  let ?n = "n + epoch_day"
  have y: "y = year_of_day ?n" using assms by (simp add: civil_of_day_def Let_def)
  have split: "days_before_year y \<le> ?n" "?n < days_before_year (y + 1)"
    using year_of_day_split[of ?n] y by simp_all
  have "days_before_year 0 \<le> ?n" "?n < days_before_year 10000"
    using assms(1) by (simp_all add: four_digit_day_def days_before_year_def epoch_day_def)
  with split have "\<not> y + 1 \<le> 0" "\<not> 10000 \<le> y"
    using days_before_year_mono[of "y + 1" 0] days_before_year_mono[of 10000 y] by auto
  then show ?thesis by simp
qed

lemma day_text_fields:
  assumes "four_digit_day n"
  obtains y m d where "civil_of_day n = (y, m, d)" "valid_civil y m d" "day_number y m d = n" "0 \<le> y" "y \<le> 9999"
    "day_text n = pad 4 (nat y) @ ''-'' @ pad 2 (nat m) @ ''-'' @ pad 2 (nat d)"
    "iso_string (n * ms_per_day) = day_text n @ ''T00:00:00.000Z''"
proof -
  obtain y m d where c: "civil_of_day n = (y, m, d)" by (cases "civil_of_day n")
  note v = civil_of_day_valid[OF c] and y = four_digit_day_year[OF assms c]
  have iso: "iso_string (n * ms_per_day) = pad 4 (nat y) @ ''-'' @ pad 2 (nat m) @ ''-'' @ pad 2 (nat d) @ ''T00:00:00.000Z''"
    using valid_civil_iso_day[OF v(1)] y v(2) by simp
  then have "day_text n = pad 4 (nat y) @ ''-'' @ pad 2 (nat m) @ ''-'' @ pad 2 (nat d)"
    by (simp add: day_text_def date_of_def)
  with that c v y iso show ?thesis by simp
qed

lemma day_text_length: "four_digit_day n \<Longrightarrow> length (day_text n) = 10"
  by (rule day_text_fields) auto

lemma day_text_order:
  assumes "four_digit_day a" and "four_digit_day b"
  shows "str_less (day_text a) (day_text b) \<longleftrightarrow> a < b"
proof -
  have range: "\<bar>n * ms_per_day\<bar> \<le> 8640000000000000" "four_digit_year (n * ms_per_day)" if "four_digit_day n" for n
  proof -
    have "- 719528 * 86400000 \<le> n * 86400000" "n * 86400000 \<le> 2932896 * 86400000"
      using that by (simp_all add: four_digit_day_def)
    then show "\<bar>n * ms_per_day\<bar> \<le> 8640000000000000" by (simp add: ms_per_day_def)
    show "four_digit_year (n * ms_per_day)"
      using that by (elim day_text_fields) (simp add: four_digit_year_def ms_per_day_def)
  qed
  have "str_less (iso_string (a * ms_per_day)) (iso_string (b * ms_per_day)) \<longleftrightarrow> a * ms_per_day < b * ms_per_day"
    using iso_string_canonical[OF range[OF assms(1)]] iso_string_canonical[OF range[OF assms(2)]] canonical_order by blast
  moreover have "iso_string (n * ms_per_day) = day_text n @ ''T00:00:00.000Z''" if "four_digit_day n" for n
    using that by (rule day_text_fields)
  ultimately show ?thesis
    using assms day_text_length by (simp add: str_less_append ms_per_day_def)
qed

lemma day_text_inj: "four_digit_day a \<Longrightarrow> four_digit_day b \<Longrightarrow> day_text a = day_text b \<longleftrightarrow> a = b"
  using day_text_order[of a b] day_text_order[of b a] by (metis linorder_neqE str_less_irrefl)

lemma day_label_shape:
  assumes "list_all is_digit y" "length y = 4" "list_all is_digit m" "length m = 2" "list_all is_digit d" "length d = 2"
  shows "is_day_label (y @ ''-'' @ m @ ''-'' @ d)"
  using assms by (auto simp: is_day_label_def length_Suc_conv numeral_eq_Suc)

lemma day_text_label:
  assumes "four_digit_day n"
  shows "is_day_label (day_text n)"
proof -
  obtain y m d where f: "day_text n = pad 4 (nat y) @ ''-'' @ pad 2 (nat m) @ ''-'' @ pad 2 (nat d)"
    using assms by (rule day_text_fields)
  show ?thesis unfolding f by (rule day_label_shape) simp_all
qed

text \<open>The time \<open>T00:00:00Z\<close> adds nothing.\<close>

lemma zero_clock:
  "eat_digits 2 ''00:00:00Z'' = Some (''00'', '':00:00Z'')" "eat_digits 2 ''00:00Z'' = Some (''00'', '':00Z'')"
  "eat_digits 2 ''00Z'' = Some (''00'', ''Z'')" "eat_fraction ''Z'' = Some ([], ''Z'')"
  "digits_val ''00'' = 0" "fraction_ms [] = 0"
  by code_simp+

lemma midnight_day_text:
  assumes "four_digit_day n"
  shows "midnight (day_text n) = Some (n * ms_per_day)"
proof -
  obtain y m d where f: "valid_civil y m d" "day_number y m d = n" "0 \<le> y" "y \<le> 9999"
    "day_text n = pad 4 (nat y) @ ''-'' @ pad 2 (nat m) @ ''-'' @ pad 2 (nat d)"
    using assms by (rule day_text_fields)
  note b = valid_civil_bounds[OF f(1)]
  have dv: "digits_val (pad 4 (nat y)) = nat y" "digits_val (pad 2 (nat m)) = nat m" "digits_val (pad 2 (nat d)) = nat d"
    using b f by (simp_all add: digits_val_pad_small nat_less_iff)
  have "\<bar>n * ms_per_day\<bar> \<le> 8640000000000000" using assms by (auto simp: four_digit_day_def ms_per_day_def)
  moreover have "month_form (day_text n) = None"
    using b by (simp add: month_form_def f(5) eat_year_four)
  moreover have "1 \<le> nat m" "nat m \<le> 12" "1 \<le> nat d" "nat d \<le> 31" using b by auto
  ultimately show ?thesis
    using b f(2,3) by (simp add: midnight_def f(5) date_parse_def eat_year_four dv zero_clock time_of_day_def
        zone_ms_def time_clip_def Let_def)
qed

lemma shift_day_text:
  assumes "four_digit_day n" and "four_digit_day (n + k)"
  shows "shiftDays (day_text n) k = Some (day_text (n + k))"
proof -
  have "\<bar>(n + k) * ms_per_day\<bar> \<le> 8640000000000000" using assms(2) by (auto simp: four_digit_day_def ms_per_day_def)
  then show ?thesis
    using midnight_day_text[OF assms(1)] by (simp add: shiftDays_def time_clip_def day_text_def algebra_simps)
qed

lemma decision_day_text: "four_digit_day n \<Longrightarrow> decisionWindowDay local_day (Text (day_text n)) timeZone = day_text n"
  by (simp add: decisionWindowDay_def day_text_label midnight_day_text) (simp add: day_text_def)

lemma date_of_day:
  assumes "four_digit_day (t div ms_per_day)"
  shows "date_of t = day_text (t div ms_per_day)"
proof -
  obtain y m d where c: "civil_of_day (t div ms_per_day) = (y, m, d)" "0 \<le> y" "y \<le> 9999"
    "day_text (t div ms_per_day) = pad 4 (nat y) @ ''-'' @ pad 2 (nat m) @ ''-'' @ pad 2 (nat d)"
    using assms by (rule day_text_fields)
  then show ?thesis by (simp add: date_of_def iso_string_def iso_year_def Let_def)
qed

section \<open>Windows of days\<close>

lemma window_ending_on:
  assumes "four_digit_day (n - (k - 1))" and "four_digit_day n" and "1 \<le> k"
  shows "decisionWindowEndingOn local_day (Text (day_text n)) (Num (of_int k)) timeZone =
    Inr \<lparr> dw_timeZone = timeZone, dw_start = Some ((n - (k - 1)) * ms_per_day), dw_end = Some (n * ms_per_day),
      dw_startDate = day_text (n - (k - 1)), dw_endDate = day_text n \<rparr>"
proof -
  have "day_text n \<noteq> []" using day_text_length[OF assms(2)] by auto
  moreover have "shiftDays (day_text n) (- (k - 1)) = Some (day_text (n - (k - 1)))"
    using shift_day_text[OF assms(2), of "- (k - 1)"] assms(1) unfolding diff_conv_add_uminus by blast
  ultimately show ?thesis using assms
    by (simp add: decisionWindowEndingOn_def decision_day_text midnight_day_text Let_def)
qed

lemma days_until_texts:
  assumes "four_digit_day a" and "four_digit_day b" and "four_digit_day (b + 1)" and "a \<le> b + 1"
  shows "days_until (day_text b) (day_text a) = Some (Inr (map day_text [a..b]))"
  using assms
proof (induction "nat (b + 1 - a)" arbitrary: a)
  case 0
  then have "a = b + 1" by simp
  then show ?case using day_text_order[of b a] 0 by (simp add: days_until.simps)
next
  case (Suc k)
  then have a: "a \<le> b" "four_digit_day b" "four_digit_day (a + 1)" by (auto simp: four_digit_day_def)
  then have "\<not> str_less (day_text b) (day_text a)" using day_text_order[of b a] Suc.prems by simp
  moreover have "shiftDays (day_text a) 1 = Some (day_text (a + 1))" using Suc.prems a by (intro shift_day_text)
  moreover have "days_until (day_text b) (day_text (a + 1)) = Some (Inr (map day_text [a + 1..b]))"
    using Suc a by (intro Suc.hyps) auto
  moreover have "[a..b] = a # [a + 1..b]" using a by (simp add: upto_rec1)
  ultimately show ?case by (simp add: days_until.simps[of "day_text b" "day_text a"])
qed

text \<open>From the last day of year 9999 the loop steps to \<open>+010000-01\<close>, a text below every date, and stays there.\<close>

lemma calendar_ends: "valid_civil 9999 12 31" "day_number 9999 12 31 = 2932896" "valid_civil 10000 1 1" "day_number 10000 1 1 = 2932897"
  "valid_civil 10000 1 2" "day_number 10000 1 2 = 2932898"
  by (simp_all add: valid_civil_def day_number_def days_in_month_def days_before_month_def days_before_year_def leap_year_def
      epoch_day_def)

lemma date_of_number:
  assumes "valid_civil y m d"
  shows "date_of (day_number y m d * ms_per_day) = take 10 (iso_year y @ ''-'' @ pad 2 (nat m) @ ''-'' @ pad 2 (nat d) @ ''T'')"
  using civil_of_day_number[OF assms] by (simp add: date_of_def iso_string_def iso_year_def ms_per_day_def)

lemma pad_numeral: "pad (numeral k) n = pad (pred_numeral k) (n div 10) @ [digit_char n]"
  using pad.simps(2)[of "pred_numeral k" n] by (simp only: numeral_eq_Suc[of k])

lemma small_texts: "pad 4 9999 = ''9999''" "pad 6 10000 = ''010000''" "pad 2 12 = ''12''" "pad 2 31 = ''31''"
  "pad 2 (Suc 0) = ''01''" "pad 2 2 = ''02''"
  by (simp_all add: pad_numeral digit_char_def char_of_def bit_0)

lemma step_of_last_day:
  "day_text 2932896 = ''9999-12-31''" "shiftDays ''9999-12-31'' 1 = Some ''+010000-01''"
  "shiftDays ''+010000-01'' 1 = Some ''+010000-01''" "\<not> str_less ''9999-12-31'' ''+010000-01''"
proof -
  note dates = date_of_number[OF calendar_ends(1)] date_of_number[OF calendar_ends(3)] date_of_number[OF calendar_ends(5)]
  show last_day: "day_text 2932896 = ''9999-12-31''"
    using dates(1) by (simp add: day_text_def calendar_ends small_texts iso_year_def)
  have "midnight ''9999-12-31'' = Some (2932896 * ms_per_day)"
    using midnight_day_text[of 2932896] by (simp add: last_day four_digit_day_def)
  then show "shiftDays ''9999-12-31'' 1 = Some ''+010000-01''"
    using dates(2) by (simp add: shiftDays_def time_clip_def calendar_ends small_texts iso_year_def ms_per_day_def)
  have "month_form ''+010000-01'' = Some (10000, 1)" by code_simp
  then show "shiftDays ''+010000-01'' 1 = Some ''+010000-01''"
    using dates(3) by (simp add: shiftDays_def midnight_def time_clip_def calendar_ends small_texts iso_year_def ms_per_day_def)
  show "\<not> str_less ''9999-12-31'' ''+010000-01''" by simp
qed

lemma never_ends:
  "days_until final day = Some result \<Longrightarrow>
    final = ''9999-12-31'' \<longrightarrow> day \<noteq> ''+010000-01'' \<and> (\<forall>n. four_digit_day n \<longrightarrow> day \<noteq> day_text n)"
proof (induction rule: days_until.raw_induct[rotated, consumes 1])
  case (1 loop final day result)
  show ?case
  proof (intro impI conjI allI notI)
    assume "final = ''9999-12-31''" "day = ''+010000-01''"
    then show False using 1 step_of_last_day by (auto split: if_splits Option.bind_splits)
  next
    fix n
    assume f: "final = ''9999-12-31''" and n: "four_digit_day n" and d: "day = day_text n"
    have stay: "\<not> str_less ''9999-12-31'' day"
      using day_text_order[of 2932896 n] n d step_of_last_day(1) by (simp add: four_digit_day_def)
    show False
    proof (cases "n = 2932896")
      case True
      then show ?thesis using stay f d 1 step_of_last_day by (auto split: if_splits Option.bind_splits)
    next
      case False
      then have next_day: "four_digit_day (n + 1)" using n by (simp add: four_digit_day_def)
      then have "shiftDays day 1 = Some (day_text (n + 1))" using shift_day_text n d by simp
      then show ?thesis using stay f 1 next_day by (auto split: if_splits Option.bind_splits)
    qed
  qed
qed

section \<open>The search for the end of a day\<close>

lemma day_boundary_correct:
  assumes "before < boundary" and "boundary \<le> after"
    and "\<And>t. before \<le> t \<Longrightarrow> t < after \<Longrightarrow> str_less (day_at t) nextDay \<longleftrightarrow> t < boundary"
  shows "fst (day_boundary day_at nextDay before after) = boundary - 1"
  using assms
proof (induction day_at nextDay before after rule: day_boundary.induct)
  case (1 day_at nextDay before after)
  show ?case
  proof (cases "after - before > 1")
    case True
    let ?m = "(before + after) div 2"
    have m: "before < ?m" "?m < after" using True by auto
    show ?thesis
    proof (cases "str_less (day_at ?m) nextDay")
      case up: True
      then have "?m < boundary" using 1(5)[of ?m] m by simp
      then have "fst (day_boundary day_at nextDay ?m after) = boundary - 1"
        using 1(1)[OF True refl up] 1(4,5) m by simp
      then show ?thesis using True up by (simp add: day_boundary.simps[of day_at nextDay before after] Let_def split_beta)
    next
      case down: False
      then have "boundary \<le> ?m" using 1(5)[of ?m] m by simp
      then have "fst (day_boundary day_at nextDay before ?m) = boundary - 1"
        using 1(2)[OF True refl down] 1(3,5) m by simp
      then show ?thesis using True down by (simp add: day_boundary.simps[of day_at nextDay before after] Let_def split_beta)
    qed
  next
    case False
    then show ?thesis using 1(3,4) by (simp add: day_boundary.simps[of day_at nextDay before after])
  qed
qed

lemma day_boundary_probes:
  "after - before \<le> 2 ^ k \<Longrightarrow> length (snd (day_boundary day_at nextDay before after)) \<le> k"
proof (induction k arbitrary: before after)
  case 0
  then show ?case by (simp add: day_boundary.simps)
next
  case (Suc k)
  let ?m = "(before + after) div 2"
  have "after - ?m \<le> 2 ^ k" "?m - before \<le> 2 ^ k" using Suc.prems by auto
  then show ?case using Suc.IH
    by (simp add: day_boundary.simps[of day_at nextDay before after] Let_def split_beta)
qed

section \<open>Properties\<close>

text \<open>C23: The days of a reporting window are the days it spans, and listing them ends. A window of \<open>k\<close> days that ends on a
  day before the last one of year 9999 lists exactly its \<open>k\<close> days, first to last. For a window that ends on
  9999-12-31 the loop never ends: the day after it is written \<open>+010000-01\<close>, which is below every date.\<close>

theorem window_days_listed:
  assumes "four_digit_day (n - (k - 1))" and "four_digit_day n" and "1 \<le> k"
  shows "\<exists>w. decisionWindowEndingOn local_day (Text (day_text n)) (Num (of_int k)) timeZone = Inr w \<and>
    dw_startDate w = day_text (n - (k - 1)) \<and> dw_endDate w = day_text n \<and>
    decisionWindowDays w = (if n < 2932896 then Some (Inr (map day_text [n - (k - 1)..n])) else None)"
proof -
  have "decisionWindowDays \<lparr> dw_timeZone = timeZone, dw_start = Some ((n - (k - 1)) * ms_per_day), dw_end = Some (n * ms_per_day),
      dw_startDate = day_text (n - (k - 1)), dw_endDate = day_text n \<rparr> =
    (if n < 2932896 then Some (Inr (map day_text [n - (k - 1)..n])) else None)"
  proof (cases "n < 2932896")
    case True
    then have "four_digit_day (n + 1)" using assms(2) by (simp add: four_digit_day_def)
    then show ?thesis
      using True days_until_texts[OF assms(1,2)] assms(3) by (simp add: decisionWindowDays_def)
  next
    case False
    then have "day_text n = ''9999-12-31''" using assms(2) step_of_last_day(1) by (simp add: four_digit_day_def)
    then show ?thesis
      using False never_ends[of "day_text n" "day_text (n - (k - 1))"] assms(1)
      by (cases "days_until (day_text n) (day_text (n - (k - 1)))") (auto simp: decisionWindowDays_def)
  qed
  then show ?thesis using window_ending_on[OF assms] by simp
qed

theorem window_days_listed_witness:
  "\<exists>w. decisionWindowEndingOn (\<lambda>_ _. []) (Text (day_text 20454)) (Num 7) ''UTC'' = Inr w \<and>
    decisionWindowDays w = Some (Inr (map day_text [20448..20454]))"
  using window_days_listed[of 20454 7 "\<lambda>_ _. []" "''UTC''"] by (auto simp: four_digit_day_def)

text \<open>The two weekly windows cover the last fourteen days, each day once. A completion is in the current
  window exactly when its local day is one of the last seven, and in the previous one exactly when it is
  one of the seven before them.\<close>

lemma weekly_windows_partition:
  assumes "four_digit_day (n - 13)" and "four_digit_day n"
  shows "\<exists>current previous. weeklyDecisionWindows local_day (Text (day_text n)) timeZone = Inr (current, previous) \<and>
    (\<forall>at_text j. decisionWindowDay local_day (Text at_text) timeZone = day_text j \<and> four_digit_day j \<longrightarrow>
      (decisionWindowContains local_day current at_text \<longleftrightarrow> n - 6 \<le> j \<and> j \<le> n) \<and>
      (decisionWindowContains local_day previous at_text \<longleftrightarrow> n - 13 \<le> j \<and> j \<le> n - 7))"
proof -
  have days: "four_digit_day (n - 6)" "four_digit_day (n - 7)" "four_digit_day (n - 7 - 6)"
    using assms by (simp_all add: four_digit_day_def)
  have week: "Num (of_int DECISION_WINDOW_DAYS) = Num (of_int 7)" by (simp add: DECISION_WINDOW_DAYS_def)
  let ?w = "\<lambda>k. \<lparr> dw_timeZone = timeZone, dw_start = Some ((k - 6) * ms_per_day), dw_end = Some (k * ms_per_day),
    dw_startDate = day_text (k - 6), dw_endDate = day_text k \<rparr>"
  have ending: "decisionWindowEndingOn local_day (Text (day_text k)) (Num (of_int DECISION_WINDOW_DAYS)) timeZone = Inr (?w k)"
    if "four_digit_day (k - 6)" "four_digit_day k" for k
    unfolding week using window_ending_on[of k 7] that by simp
  have "shiftDays (day_text (n - 6)) (- 1) = Some (day_text (n - 7))"
    using shift_day_text[of "n - 6" "- 1"] days by simp
  then have windows: "weeklyDecisionWindows local_day (Text (day_text n)) timeZone = Inr (?w n, ?w (n - 7))"
    using ending[of n] ending[of "n - 7"] days assms by (simp add: weeklyDecisionWindows_def)
  have inside: "decisionWindowContains local_day (?w k) at_text \<longleftrightarrow> k - 6 \<le> j \<and> j \<le> k"
    if "decisionWindowDay local_day (Text at_text) timeZone = day_text j" "four_digit_day j" "four_digit_day (k - 6)" "four_digit_day k"
    for k j at_text
  proof -
    have "day_text j \<noteq> []" using day_text_length[OF that(2)] by auto
    then show ?thesis using that by (auto simp: decisionWindowContains_def Let_def day_text_order)
  qed
  show ?thesis
    using windows inside[of _ _ n] inside[of _ _ "n - 7"] days assms by (intro exI conjI) auto
qed

text \<open>The end of a local day is found with at most 28 probes. If within 36 hours of midnight UTC the local date
  steps once, from before the next day to not before it, then \<open>decisionWindowDayEnd\<close> returns the last
  millisecond before that step, whatever the offset of the zone.\<close>

lemma day_end_found:
  assumes "four_digit_day n" and "n < 2932896"
    and "(n + 1) * ms_per_day - HALF_SPAN < boundary" and "boundary \<le> (n + 1) * ms_per_day + HALF_SPAN"
    and "\<And>t. (n + 1) * ms_per_day - HALF_SPAN \<le> t \<Longrightarrow> t < (n + 1) * ms_per_day + HALF_SPAN \<Longrightarrow>
      str_less (local_day timeZone t) (day_text (n + 1)) \<longleftrightarrow> t < boundary"
  shows "\<exists>probes. decisionWindowDayEnd local_day (day_text n) timeZone = Some (iso_string (boundary - 1), probes) \<and>
    length probes \<le> 28"
proof -
  let ?a = "(n + 1) * ms_per_day"
  let ?at = "\<lambda>t. decisionWindowDay local_day (Date_value (time_clip t)) timeZone"
  have four: "four_digit_day (n + 1)" using assms(1,2) by (simp add: four_digit_day_def)
  have clip: "time_clip t = Some t" if "?a - HALF_SPAN \<le> t" "t \<le> ?a + HALF_SPAN" for t
    using that four by (simp add: time_clip_def four_digit_day_def ms_per_day_def HALF_SPAN_def abs_le_iff)
  have "fst (day_boundary ?at (day_text (n + 1)) (?a - HALF_SPAN) (?a + HALF_SPAN)) = boundary - 1"
    by (rule day_boundary_correct[OF assms(3,4)]) (use assms(5) clip in \<open>simp add: decisionWindowDay_def\<close>)
  moreover have "length (snd (day_boundary ?at (day_text (n + 1)) (?a - HALF_SPAN) (?a + HALF_SPAN))) \<le> 28"
    by (rule day_boundary_probes) (simp add: HALF_SPAN_def)
  moreover have "time_clip (boundary - 1) = Some (boundary - 1)" using assms(3,4) by (intro clip) auto
  ultimately show ?thesis
    using shift_day_text[OF assms(1) four] midnight_day_text[OF four]
    by (auto simp: decisionWindowDayEnd_def Let_def split_beta)
qed

end
