(* ===== verification/ReviewTypes.thy ===== *)
theory ReviewTypes
  imports Prelude
begin

text \<open>
  The data of a review conversation: \<open>src/src/domain/review.ts\<close>, with the types it takes from
  \<open>integration-validation-policy.ts\<close>, \<open>integration-approval-retention.ts\<close>,
  \<open>integration-repair-record.ts\<close>, \<open>classifier-review.ts\<close> and \<open>review-phase-policy.ts\<close>.

  A field declared \<open>T | null\<close> is an option, \<open>name?: T\<close> is an option (absent is \<open>None\<close>), and
  \<open>name?: T | null\<close> is a \<^typ>\<open>'a field\<close>, because comparing serialised decisions tells the two
  empty shapes apart. Branded strings (\<open>ChangeRevision\<close>, \<open>ReviewFindingId\<close>, \<open>AgentFamily\<close>) are
  strings; their constructors are the checks.
\<close>

type_synonym agent_family = string
type_synonym revision = string
type_synonym finding_id = string

text \<open>The configured step of \<open>agents.ts\<close>: \<open>StepSelectionPolicy\<close>.\<close>

record step_policy =
  sp_eligible :: "agent_family list"
  sp_strategy :: string
  sp_weights :: "(agent_family \<times> jsnum) list option"

section \<open>The change under review\<close>

record review_finding =
  rf_id :: finding_id
  rf_summary :: string
  rf_location :: "string option"

datatype item_kind = Item_fixed | Item_pushed_back | Item_parked

record item_disposition =
  id_kind :: item_kind
  id_findingId :: finding_id

record pull_request =
  pr_provider :: string
  pr_id :: string
  pr_url :: "string option"
  pr_sourceBranch :: string
  pr_targetBranch :: string

record local_branch =
  lb_sourceBranch :: string
  lb_targetBranch :: string

datatype reviewed_change = Pull_request pull_request | Local_branch local_branch

fun sourceBranch :: "reviewed_change \<Rightarrow> string" where
  "sourceBranch (Pull_request p) = pr_sourceBranch p"
| "sourceBranch (Local_branch l) = lb_sourceBranch l"

fun targetBranch :: "reviewed_change \<Rightarrow> string" where
  "targetBranch (Pull_request p) = pr_targetBranch p"
| "targetBranch (Local_branch l) = lb_targetBranch l"

record reviewed_revision =
  rr_change :: reviewed_change
  rr_revision :: revision
  rr_baseline :: "revision option"

section \<open>Gate evidence and repair assessments\<close>

text \<open>The payload of \<open>{ kind: 'integration-gate-failure' }\<close>, shared by a revocation cause and a
  repair incident.\<close>

record gate_failure =
  gf_gate :: "string option"
  gf_command :: "string field"
  gf_log :: "string field"

record validation_marker =
  vm_missionId :: string
  vm_sha :: string
  vm_hooks :: "string list"

record retention_validation = validation_marker +
  rv_createdAt :: string
  rv_reference :: string
  rv_baseline :: "string option"
  rv_failed :: "bool option"

record historical_source =
  hs_approvedRevision :: string
  hs_candidateRevision :: string
  hs_failedGate :: string
  hs_validationRevision :: string
  hs_validationReference :: string
  hs_validatedAt :: string

datatype assessment_outcome =
    Pending | Retained | Restored
  | Mission_change_differs | Gate_evidence_missing | Gate_failed | Comparison_error

record repair_incident =
  ri_startedAt :: string
  ri_cause :: gate_failure

text \<open>\<open>assessment_core\<close> is \<open>Omit<IntegrationRepairAssessment, 'priorRestoration'>\<close>; the full
  assessment adds the archived restoration.\<close>

record assessment_core =
  ia_assessedAt :: string
  ia_approvedRevision :: string
  ia_candidateRevision :: string
  ia_failedGate :: "string option"
  ia_outcome :: assessment_outcome
  ia_repair :: "repair_incident option"
  ia_validation :: "retention_validation option"
  ia_source :: "historical_source option"
  ia_normalReviewMs :: "jsnum option"
  ia_normalReviewCostUsd :: "jsnum option"

record repair_assessment = assessment_core +
  ia_priorRestoration :: "assessment_core option"

section \<open>Decisions\<close>

datatype approval_source = Provider string | Local | Mechanical_restoration historical_source

datatype revocation_cause =
    Operator
  | Integration_gate_failure gate_failure
  | Review_repair
  | Rebase_repair

record revocation =
  rk_revokedAt :: string
  rk_revokedBy :: string
  rk_reason :: string
  rk_cause :: "revocation_cause option"

record supersession =
  ss_supersededAt :: string
  ss_supersedingRevision :: revision
  ss_recordedBy :: string

text \<open>Provenance of a decision taken by the classifier (\<open>classifier-review.ts\<close>).\<close>

record repair_provenance =
  rp_revokedAt :: string
  rp_gate :: "string option"

record weakening_question =
  wq_clearedBy :: string
  wq_preserves :: jsnum
  wq_versions :: "string list"

record weakening_provenance =
  wp_decisionSource :: string
  wp_approvedRevision :: revision
  wp_gate :: string
  wp_factAdmitted :: "bool option"
  wp_validationSha :: "string option"
  wp_validationRecordedAt :: "string option"
  wp_relation :: "string option"
  wp_question :: "weakening_question option"

record obligation_provenance =
  op_generalRound :: int
  op_failingIds :: "string list"

record classifier_source =
  cs_decisionId :: string
  cs_provider :: string
  cs_model :: string
  cs_packetHash :: string
  cs_priorRevision :: revision
  cs_candidateRevision :: revision
  cs_responseRevision :: "revision option"
  cs_integrationRepair :: "repair_provenance option"
  cs_baseRef :: "string option" \<comment> \<open>\<open>successCriteria?: { baseRef }\<close>\<close>
  cs_weakening :: "weakening_provenance option"
  cs_obligations :: "obligation_provenance option"
  cs_findingIds :: "string list"
  cs_policyVersion :: string
  cs_label :: string
  cs_score :: jsnum

record approval =
  ap_classifier :: "classifier_source option"
  ap_revision :: "revision field"
  ap_decidedAt :: string
  ap_comment :: "string option"
  ap_source :: approval_source
  ap_revocation :: "revocation option"
  ap_supersession :: "supersession option"

record change_request =
  cr_classifier :: "classifier_source option"
  cr_revision :: "revision field"
  cr_decidedAt :: string
  cr_comment :: "string option"
  cr_findings :: "review_finding list"

datatype reviewer_decision = Approved approval | Changes_requested change_request

fun decision_revision :: "reviewer_decision \<Rightarrow> revision field" where
  "decision_revision (Approved a) = ap_revision a"
| "decision_revision (Changes_requested c) = cr_revision c"

fun approval_of :: "reviewer_decision option \<Rightarrow> approval option" where
  "approval_of (Some (Approved a)) = Some a"
| "approval_of _ = None"

fun request_of :: "reviewer_decision option \<Rightarrow> change_request option" where
  "request_of (Some (Changes_requested c)) = Some c"
| "request_of _ = None"

section \<open>The implementer's answer\<close>

datatype resolution_kind = Fixed string | Disputed string \<comment> \<open>evidence, rationale\<close>

record finding_resolution =
  fr_findingId :: finding_id
  fr_kind :: resolution_kind

record implementer_resolution =
  ir_respondedAt :: string
  ir_resolutions :: "finding_resolution list"
  ir_resultingRevision :: revision

datatype disposition =
  APPROVED | REQUEST_CHANGES | COMMENT | PUSHBACK_ALL | BLOCKED | PARKED | CHANGES_MADE

datatype review_phase = Reviewing | Fixing | Pending_approval | Phase_approved

section \<open>Rounds and the conversation\<close>

record review_round =
  rd_assessment :: "repair_assessment option" \<comment> \<open>\<open>integrationRepairAssessment\<close>\<close>
  rd_number :: int
  rd_subject :: reviewed_revision
  rd_reviewer :: agent_family
  rd_implementer :: agent_family
  rd_startedAt :: string
  rd_decision :: "reviewer_decision option"
  rd_response :: "implementer_resolution option"
  rd_phase :: review_phase
  rd_disposition :: "disposition option"
  rd_reviewerRetryCount :: int
  rd_implementerRetryCount :: int
  rd_implementerResponseContent :: "string option"
  rd_itemDispositions :: "item_disposition list option"
  rd_blockedReason :: "string option"

datatype requester = By_reviewer | By_implementer | By_workflow

record intervention =
  iv_requestedAt :: string
  iv_requestedBy :: requester
  iv_reason :: string

record launch_window =
  lw_stageKey :: string
  lw_fingerprints :: "string list"

datatype event_type =
    Reviewer_findings | Reviewer_outcome | Implementer_round_summary | Implementer_disposition
  | Neutral_discussion | Human_note | Blocked_publication | Parked_followup

record review_event =
  re_position :: int
  re_eventType :: event_type
  re_roundNumber :: "int option"
  re_phase :: "string option"
  re_actor :: "string option"
  re_content :: string
  re_disposition :: "string option"
  re_verdict :: "string option"
  re_itemDispositions :: "item_disposition list option"
  re_blockedReason :: "string option"
  re_followUpReference :: "string option"
  re_createdAt :: string

text \<open>\<open>rounds\<close> is a non-empty tuple in the source; here a list, with \<open>rounds \<noteq> []\<close> part of the
  invariant of the conversation.\<close>

record review =
  rounds :: "review_round list"
  intervention_of :: "intervention option" \<comment> \<open>\<open>intervention\<close>\<close>
  stageLaunches :: "launch_window list"
  reviewEvents :: "review_event list"

datatype review_status =
    Awaiting_review | Awaiting_implementation | Ready_for_next_round
  | Status_approved | Human_intervention

section \<open>Commands\<close>

record approve_payload =
  ac_revision :: "revision field"
  ac_decidedAt :: string
  ac_comment :: "string option"
  ac_source :: approval_source

record request_payload =
  rc_revision :: "revision field"
  rc_decidedAt :: string
  rc_comment :: "string option"
  rc_findings :: "review_finding list"
  rc_disposition :: "disposition option"

datatype reviewer_command = Approve approve_payload | Request_changes request_payload

record resolution_payload =
  su_respondedAt :: string
  su_resolutions :: "finding_resolution list"
  su_resultingRevision :: revision

record human_payload =
  hp_requestedAt :: string
  hp_reason :: string

datatype implementer_command =
  Submit_resolution resolution_payload | Request_human_intervention human_payload

text \<open>A projection of the recorded decision: \<open>decision?.kind\<close>.\<close>

definition is_approval :: "reviewer_decision option \<Rightarrow> bool" where
  "is_approval d \<longleftrightarrow> approval_of d \<noteq> None"

definition is_request :: "reviewer_decision option \<Rightarrow> bool" where
  "is_request d \<longleftrightarrow> request_of d \<noteq> None"

lemma approval_of_Some [simp]: "approval_of d = Some a \<longleftrightarrow> d = Some (Approved a)"
  by (cases d rule: approval_of.cases) auto

lemma request_of_Some [simp]: "request_of d = Some c \<longleftrightarrow> d = Some (Changes_requested c)"
  by (cases d rule: request_of.cases) auto

lemma approval_of_None: "approval_of d = None \<longleftrightarrow> d = None \<or> (\<exists>c. d = Some (Changes_requested c))"
  by (cases d rule: approval_of.cases) auto

lemma request_of_None: "request_of d = None \<longleftrightarrow> d = None \<or> (\<exists>a. d = Some (Approved a))"
  by (cases d rule: request_of.cases) auto

lemma is_approval_simps [simp]:
  "\<not> is_approval None" "is_approval (Some (Approved a))" "\<not> is_approval (Some (Changes_requested c))"
  by (simp_all add: is_approval_def)

lemma is_request_simps [simp]:
  "\<not> is_request None" "is_request (Some (Changes_requested c))" "\<not> is_request (Some (Approved a))"
  by (simp_all add: is_request_def)

lemma is_approval_iff: "is_approval d \<longleftrightarrow> (\<exists>a. d = Some (Approved a))"
  by (auto simp: is_approval_def)

lemma is_request_iff: "is_request d \<longleftrightarrow> (\<exists>c. d = Some (Changes_requested c))"
  by (auto simp: is_request_def)

end
