(* ===== verification/Retention.thy ===== *)
theory Retention
  imports ReviewTypes Instants
begin

text \<open>
  Gate evidence across a repair: the marker that lets integration skip validated gates
  (\<open>integration-validation-policy.ts\<close>), the check that a repaired candidate keeps its approval
  (\<open>integration-approval-retention.ts\<close>), and the archive of an earlier restoration
  (\<open>integration-repair-record.ts\<close>).
\<close>

section \<open>Validation markers\<close>

datatype marker_error = Requires_mission_id | Requires_sha | Requires_hook

definition buildIntegrationValidationMarker ::
  "string \<Rightarrow> string \<Rightarrow> string list \<Rightarrow> marker_error + validation_marker" where
  "buildIntegrationValidationMarker missionId sha hooks =
     (if missionId = [] then Inl Requires_mission_id
      else if sha = [] then Inl Requires_sha
      else let normalized = filter (\<lambda>hook. hook \<noteq> []) hooks; distinct_hooks = dedupe normalized in
        if distinct_hooks = [] then Inl Requires_hook
        else Inr \<lparr>vm_missionId = missionId, vm_sha = sha, vm_hooks = distinct_hooks\<rparr>)"

text \<open>\<open>/^backlog\/(?:tasks|completed)\/[^/]+\.md$/\<close>.\<close>

definition markdown_name :: "string \<Rightarrow> bool" where
  "markdown_name s \<longleftrightarrow> ends_with ''.md'' s \<and> 3 < length s \<and> CHR ''/'' \<notin> set s"

definition isBookkeepingPath :: "string \<Rightarrow> bool" where
  "isBookkeepingPath filePath =
     (case strip_prefix ''backlog/tasks/'' filePath of
        Some name \<Rightarrow> markdown_name name
      | None \<Rightarrow>
          (case strip_prefix ''backlog/completed/'' filePath of
             Some name \<Rightarrow> markdown_name name | None \<Rightarrow> False))"

text \<open>\<open>ValidatedCommitDiff\<close>: the paths that differ, or a git failure.\<close>

datatype commit_diff = Diff_paths "string list" | Diff_failed "string option"

definition validationSkipApplies ::
  "validation_marker option \<Rightarrow> string option \<Rightarrow> commit_diff option \<Rightarrow> bool" where
  "validationSkipApplies marker finalizedCommit diffFromValidated =
     (case marker of
        None \<Rightarrow> False
      | Some m \<Rightarrow>
          if vm_hooks m = [] then False
          else (case finalizedCommit of
              None \<Rightarrow> False
            | Some commit \<Rightarrow>
                if commit = [] then False
                else if vm_sha m = commit then True
                else (case diffFromValidated of
                    Some (Diff_paths paths) \<Rightarrow> list_all isBookkeepingPath paths
                  | _ \<Rightarrow> False)))"

text \<open>The loop over the configured keys, then the filter.\<close>

fun gates_to_run :: "string list \<Rightarrow> string list \<Rightarrow> string list \<Rightarrow> string list" where
  "gates_to_run whitelist [] run = run"
| "gates_to_run whitelist (key # keys) run =
     gates_to_run whitelist keys (if key \<in> set whitelist then run else run @ [key])"

definition partitionGatesForSkip ::
  "string list \<Rightarrow> 'm validation_marker_scheme \<Rightarrow> string list \<times> string list" where
  "partitionGatesForSkip configuredKeys marker =
     (let whitelist = vm_hooks marker in
       (filter (\<lambda>key. key \<in> set whitelist) configuredKeys, gates_to_run whitelist configuredKeys []))"

lemma gates_to_run_filter:
  "gates_to_run whitelist keys run = run @ filter (\<lambda>key. key \<notin> set whitelist) keys"
  by (induction keys arbitrary: run) auto

lemma partition_filters:
  "partitionGatesForSkip keys m =
    (filter (\<lambda>key. key \<in> set (vm_hooks m)) keys, filter (\<lambda>key. key \<notin> set (vm_hooks m)) keys)"
  by (simp add: partitionGatesForSkip_def gates_to_run_filter Let_def)

lemma marker_Inr:
  "buildIntegrationValidationMarker i s hs = Inr m \<longleftrightarrow>
    i \<noteq> [] \<and> s \<noteq> [] \<and> (\<exists>h\<in>set hs. h \<noteq> []) \<and>
    m = \<lparr>vm_missionId = i, vm_sha = s, vm_hooks = dedupe (filter (\<lambda>h. h \<noteq> []) hs)\<rparr>"
  by (auto simp: buildIntegrationValidationMarker_def Let_def filter_empty_conv)

lemma bookkeeping_iff:
  "isBookkeepingPath p \<longleftrightarrow> (\<exists>name. (p = ''backlog/tasks/'' @ name \<or> p = ''backlog/completed/'' @ name) \<and>
    markdown_name name)"
  unfolding isBookkeepingPath_def
  by (auto simp: strip_prefix_Some split: option.splits) (auto simp: strip_prefix_def split: if_splits)

lemma skip_applies_iff:
  "validationSkipApplies marker commit diff \<longleftrightarrow>
    (\<exists>m c. marker = Some m \<and> vm_hooks m \<noteq> [] \<and> commit = Some c \<and> c \<noteq> [] \<and>
      (vm_sha m = c \<or> (\<exists>paths. diff = Some (Diff_paths paths) \<and> list_all isBookkeepingPath paths)))"
  by (auto simp: validationSkipApplies_def split: option.splits commit_diff.splits)

section \<open>Retention of a judgment\<close>

fun instants_of :: "string list \<Rightarrow> int list option" where
  "instants_of [] = Some []"
| "instants_of (t # ts) =
     (case (date_parse t, instants_of ts) of (Some ms, Some rest) \<Rightarrow> Some (ms # rest) | _ \<Rightarrow> None)"

definition retentionTimesMatch :: "string \<Rightarrow> string \<Rightarrow> string \<Rightarrow> bool" where
  "retentionTimesMatch startedAt validatedAt assessedAt =
     (case instants_of [startedAt, validatedAt, assessedAt] of
        Some ts \<Rightarrow> ts ! 1 \<ge> ts ! 0 \<and> ts ! 1 \<le> ts ! 2
      | None \<Rightarrow> False)"

text \<open>\<open>mission\<close> and \<open>candidateBaseline\<close> are optional parameters; an empty mission is not compared,
  an empty baseline never matches.\<close>

definition retentionEvidenceMatches ::
  "'a assessment_core_scheme \<Rightarrow> string option \<Rightarrow> string option \<Rightarrow> bool" where
  "retentionEvidenceMatches assessment mission candidateBaseline =
     (case ia_validation assessment of
        None \<Rightarrow> False
      | Some v \<Rightarrow>
          rv_failed v \<noteq> Some True \<and> vm_missionId v \<noteq> [] \<and>
          (default_to [] mission = [] \<or> Some (vm_missionId v) = mission) \<and>
          (case candidateBaseline of
             None \<Rightarrow> True | Some baseline \<Rightarrow> baseline \<noteq> [] \<and> rv_baseline v = Some baseline) \<and>
          vm_sha v = ia_candidateRevision assessment \<and>
          (case ia_failedGate assessment of
             None \<Rightarrow> False
           | Some failedGate \<Rightarrow>
               failedGate \<noteq> [] \<and> failedGate \<in> set (vm_hooks v) \<and> rv_reference v \<noteq> [] \<and>
               (case ia_repair assessment of
                  None \<Rightarrow> False
                | Some repair \<Rightarrow>
                    gf_gate (ri_cause repair) = Some failedGate \<and>
                    retentionTimesMatch (ri_startedAt repair) (rv_createdAt v)
                      (ia_assessedAt assessment))))"

text \<open>What the evidence has to be, in one formula.\<close>

definition retention_proof ::
  "'a assessment_core_scheme \<Rightarrow> retention_validation \<Rightarrow> repair_incident \<Rightarrow> string \<Rightarrow> bool" where
  "retention_proof a v r gate \<longleftrightarrow>
     ia_validation a = Some v \<and> ia_repair a = Some r \<and> ia_failedGate a = Some gate \<and>
     gf_gate (ri_cause r) = Some gate \<and> gate \<in> set (vm_hooks v) \<and> gate \<noteq> [] \<and>
     rv_failed v \<noteq> Some True \<and> rv_reference v \<noteq> [] \<and> vm_missionId v \<noteq> [] \<and>
     vm_sha v = ia_candidateRevision a \<and>
     (\<exists>started validated assessed. date_parse (ri_startedAt r) = Some started \<and>
       date_parse (rv_createdAt v) = Some validated \<and> date_parse (ia_assessedAt a) = Some assessed \<and>
       started \<le> validated \<and> validated \<le> assessed)"

lemma retention_times_iff:
  "retentionTimesMatch s v a \<longleftrightarrow> (\<exists>started validated assessed. date_parse s = Some started \<and>
    date_parse v = Some validated \<and> date_parse a = Some assessed \<and>
    started \<le> validated \<and> validated \<le> assessed)"
  by (cases "date_parse s"; cases "date_parse v"; cases "date_parse a")
    (simp_all add: retentionTimesMatch_def)

lemma retention_iff:
  "retentionEvidenceMatches a mission baseline \<longleftrightarrow>
    (\<exists>v r gate. retention_proof a v r gate \<and>
      (mission = None \<or> mission = Some [] \<or> mission = Some (vm_missionId v)) \<and>
      (baseline = None \<or> (rv_baseline v = baseline \<and> baseline \<noteq> Some [])))"
  unfolding retentionEvidenceMatches_def retention_proof_def
  by (auto simp: retention_times_iff default_to_def split: option.splits)

lemma retention_drop_args:
  "retentionEvidenceMatches a mission baseline \<Longrightarrow> retentionEvidenceMatches a None None"
  by (auto simp: retention_iff)

section \<open>Archived restorations\<close>

text \<open>The archive keeps the core of an assessment; a restored assessment is archived as it is, its
  own archive (absent by construction, see \<open>restorationArchive\<close>) aside.\<close>

definition assessment_core_of :: "repair_assessment \<Rightarrow> assessment_core" where
  "assessment_core_of a = assessment_core.truncate a"

definition preserveHistoricalRestoration :: "repair_assessment option \<Rightarrow> assessment_core option" where
  "preserveHistoricalRestoration assessment =
     (case assessment of
        None \<Rightarrow> None
      | Some a \<Rightarrow> if ia_outcome a = Restored then Some (assessment_core_of a)
                else ia_priorRestoration a)"

section \<open>Properties\<close>

text \<open>C38: A marker lets integration skip only when it names the finalized commit, or when that
  commit differs from the validated one in backlog records alone; a missing or failed comparison
  and any other changed path run the whole suite. What is then skipped was validated: the partition
  of the configured gates keeps their order, every gate is on exactly one side, and the skipped
  ones are hooks of the marker.\<close>

theorem skip_only_validated:
  assumes built: "buildIntegrationValidationMarker mission sha hooks = Inr m"
    and skip: "validationSkipApplies (Some m) commit diff"
    and parts: "partitionGatesForSkip keys m = (skipped, run)"
  shows "(commit = Some sha \<or> (\<exists>paths. diff = Some (Diff_paths paths) \<and>
      (\<forall>p\<in>set paths. \<exists>name. markdown_name name \<and>
        (p = ''backlog/tasks/'' @ name \<or> p = ''backlog/completed/'' @ name)))) \<and>
    set skipped \<subseteq> set hooks \<and> set skipped \<union> set run = set keys \<and> set skipped \<inter> set run = {} \<and>
    subseq skipped keys \<and> subseq run keys \<and> length skipped + length run = length keys"
proof -
  have m: "vm_sha m = sha" "set (vm_hooks m) \<subseteq> set hooks" using built by (auto simp: marker_Inr)
  have s: "skipped = filter (\<lambda>key. key \<in> set (vm_hooks m)) keys"
    and r: "run = filter (\<lambda>key. key \<notin> set (vm_hooks m)) keys"
    using parts by (auto simp: partition_filters)
  have "commit = Some sha \<or> (\<exists>paths. diff = Some (Diff_paths paths) \<and> list_all isBookkeepingPath paths)"
    using skip m by (auto simp: skip_applies_iff)
  then have "commit = Some sha \<or> (\<exists>paths. diff = Some (Diff_paths paths) \<and>
      (\<forall>p\<in>set paths. \<exists>name. markdown_name name \<and>
        (p = ''backlog/tasks/'' @ name \<or> p = ''backlog/completed/'' @ name)))"
    by (fastforce simp: list_all_iff bookkeeping_iff)
  moreover have "set skipped \<subseteq> set hooks" "set skipped \<union> set run = set keys"
    "set skipped \<inter> set run = {}" using m by (auto simp: s r)
  moreover have "length skipped + length run = length keys"
    by (simp add: s r sum_length_filter_compl)
  ultimately show ?thesis by (simp add: s r subseq_filter_left)
qed

theorem skip_only_validated_witness:
  "set [''unit''] \<subseteq> set [''unit'', ''e2e'', ''unit''] \<and> subseq [''lint''] [''unit'', ''lint'']"
  using skip_only_validated[of "''px-0001''" "''abc''" "[''unit'', ''e2e'', ''unit'']"
      "\<lparr>vm_missionId = ''px-0001'', vm_sha = ''abc'', vm_hooks = [''unit'', ''e2e'']\<rparr>" "Some ''def''"
      "Some (Diff_paths [''backlog/tasks/task-1.md''])" "[''unit'', ''lint'']" "[''unit'']" "[''lint'']"]
  by (simp add: buildIntegrationValidationMarker_def validationSkipApplies_def isBookkeepingPath_def
      strip_prefix_def markdown_name_def ends_with_def partitionGatesForSkip_def)

text \<open>Retained judgments rest on real evidence. \<open>retentionEvidenceMatches\<close> answers yes exactly
  when the assessment carries a validation that did not fail, of the candidate revision, with a
  reference, whose hooks name the failed gate the incident was opened for, and whose time lies
  between the start of the repair and the assessment, all three being real instants; the optional
  mission and baseline arguments only narrow it.\<close>

lemma retention_evidence_exact:
  "retentionEvidenceMatches a mission baseline \<longleftrightarrow>
    (\<exists>v r gate. retention_proof a v r gate \<and>
      (mission = None \<or> mission = Some [] \<or> mission = Some (vm_missionId v)) \<and>
      (baseline = None \<or> (rv_baseline v = baseline \<and> baseline \<noteq> Some [])))"
  by (rule retention_iff)

end
