(* ===== verification/Reviews.thy ===== *)
theory Reviews
  imports ReviewTypes
begin

text \<open>
  The review conversation: the operations of \<open>src/src/domain/review.ts\<close> and the phase table of
  \<open>review-phase-policy.ts\<close>. Each operation has the checks of the source in their order and returns
  the error of the first one that fails. The order \<open>localeCompare\<close> gives stage keys is a
  parameter, the collation key \<open>ck\<close>. The conversation as a machine (\<open>review_step\<close>) has its
  invariant, \<open>conversation\<close>, at the end.
\<close>

section \<open>Errors\<close>

datatype review_error =
    Finding_id_empty | Reviewed_revision_empty
  | Eligibility_unconfigured | Eligibility_empty | Eligibility_duplicated
  | Change_requires_branches | Pull_request_requires_identity
  | Revocation_round_invalid | Revocation_reason_missing | Revocation_identity_missing
  | Revocation_time_missing | Not_current_decision int | Not_an_approval int | Already_revoked int
  | Reviewer_ineligible agent_family | Reviewer_own_work agent_family "agent_family list"
  | Round_start_missing
  | Reviewer_cannot reviewer_command review_status | Mechanical_restoration_historical
  | Decision_time_missing | Findings_missing | Finding_incomplete | Finding_duplicated finding_id
  | Phase_cannot_move review_phase review_phase "review_phase list" | Invalid_phase string
  | Stage_key_missing
  | Resolution_unknown_finding finding_id | Resolution_repeated finding_id
  | Resolution_unexplained finding_id | Resolution_missing "finding_id list"
  | Implementer_cannot implementer_command review_status | Intervention_incomplete
  | Resolution_requires_request | Response_time_missing
  | Cannot_begin_round review_status | Round_requires_resolution
  | Approved_cannot_intervene | Not_waiting_for_human | Not_blocked | Continue_start_missing

section \<open>Checked identifiers and vocabularies\<close>

definition reviewFindingId :: "string \<Rightarrow> review_error + finding_id" where
  "reviewFindingId value = (if blank value then Inl Finding_id_empty else Inr value)"

definition changeRevision :: "string \<Rightarrow> review_error + revision" where
  "changeRevision value = (if blank value then Inl Reviewed_revision_empty else Inr value)"

fun disposition_text :: "disposition \<Rightarrow> string" where
  "disposition_text APPROVED = ''APPROVED''"
| "disposition_text REQUEST_CHANGES = ''REQUEST_CHANGES''"
| "disposition_text COMMENT = ''COMMENT''"
| "disposition_text PUSHBACK_ALL = ''PUSHBACK_ALL''"
| "disposition_text BLOCKED = ''BLOCKED''"
| "disposition_text PARKED = ''PARKED''"
| "disposition_text CHANGES_MADE = ''CHANGES_MADE''"

definition REVIEW_DISPOSITIONS :: "disposition list" where
  "REVIEW_DISPOSITIONS =
     [APPROVED, REQUEST_CHANGES, COMMENT, PUSHBACK_ALL, BLOCKED, PARKED, CHANGES_MADE]"

definition parseReviewDisposition :: "string option \<Rightarrow> disposition option" where
  "parseReviewDisposition value =
     (let candidate = to_upper (trim (default_to [] value)) in
       find_first (\<lambda>d. disposition_text d = candidate) REVIEW_DISPOSITIONS)"

section \<open>Phases\<close>

fun phase_text :: "review_phase \<Rightarrow> string" where
  "phase_text Reviewing = ''reviewing''"
| "phase_text Fixing = ''fixing''"
| "phase_text Pending_approval = ''pending-approval''"
| "phase_text Phase_approved = ''approved''"

definition REVIEW_PHASES :: "review_phase list" where
  "REVIEW_PHASES = [Reviewing, Fixing, Pending_approval, Phase_approved]"

fun REVIEW_PHASE_TRANSITIONS :: "review_phase \<Rightarrow> review_phase list" where
  "REVIEW_PHASE_TRANSITIONS Reviewing = [Fixing, Phase_approved]"
| "REVIEW_PHASE_TRANSITIONS Fixing = [Reviewing, Pending_approval]"
| "REVIEW_PHASE_TRANSITIONS Pending_approval = [Reviewing]"
| "REVIEW_PHASE_TRANSITIONS Phase_approved = []"

definition parseReviewPhase :: "string \<Rightarrow> review_phase option" where
  "parseReviewPhase value = find_first (\<lambda>phase. phase_text phase = value) REVIEW_PHASES"

definition requireReviewPhase :: "string \<Rightarrow> review_error + review_phase" where
  "requireReviewPhase value =
     (case parseReviewPhase value of None \<Rightarrow> Inl (Invalid_phase value) | Some phase \<Rightarrow> Inr phase)"

definition assertReviewPhaseTransition :: "review_phase \<Rightarrow> review_phase \<Rightarrow> review_error + unit" where
  "assertReviewPhaseTransition current nxt =
     try_bind (requireReviewPhase (phase_text current)) (\<lambda>_.
     try_bind (requireReviewPhase (phase_text nxt)) (\<lambda>_.
       let allowed = REVIEW_PHASE_TRANSITIONS current in
       if nxt \<in> set allowed then Inr () else Inl (Phase_cannot_move current nxt allowed)))"

section \<open>Eligibility and identity\<close>

record eligibility =
  reviewers :: "agent_family list"

definition fromReviewStep :: "step_policy option \<Rightarrow> review_error + eligibility" where
  "fromReviewStep policy =
     (case policy of
        None \<Rightarrow> Inl Eligibility_unconfigured
      | Some p \<Rightarrow>
          if sp_eligible p = [] then Inl Eligibility_empty
          else if length (dedupe (sp_eligible p)) \<noteq> length (sp_eligible p) then Inl Eligibility_duplicated
          else Inr \<lparr>reviewers = sp_eligible p\<rparr>)"

definition requireEligibleReviewer :: "agent_family \<Rightarrow> eligibility \<Rightarrow> review_error + unit" where
  "requireEligibleReviewer reviewer elig =
     (if reviewer \<in> set (reviewers elig) then Inr () else Inl (Reviewer_ineligible reviewer))"

definition requireSeparateReviewer ::
  "agent_family \<Rightarrow> agent_family \<Rightarrow> eligibility \<Rightarrow> review_error + unit" where
  "requireSeparateReviewer reviewer implementer elig =
     (if reviewer \<noteq> implementer then Inr ()
      else if length (reviewers elig) = 1 \<and> reviewers elig ! 0 = reviewer then Inr ()
      else Inl (Reviewer_own_work reviewer (filter (\<lambda>family. family \<noteq> reviewer) (reviewers elig))))"

fun assertReviewedChange :: "reviewed_change \<Rightarrow> review_error + unit" where
  "assertReviewedChange (Pull_request p) =
     (if blank (pr_sourceBranch p) \<or> blank (pr_targetBranch p) then Inl Change_requires_branches
      else if blank (pr_provider p) \<or> blank (pr_id p) then Inl Pull_request_requires_identity
      else Inr ())"
| "assertReviewedChange (Local_branch l) =
     (if blank (lb_sourceBranch l) \<or> blank (lb_targetBranch l) then Inl Change_requires_branches
      else Inr ())"

fun same_kind :: "reviewed_change \<Rightarrow> reviewed_change \<Rightarrow> bool" where
  "same_kind (Pull_request p) (Pull_request q) = True"
| "same_kind (Local_branch l) (Local_branch m) = True"
| "same_kind _ _ = False"

definition sameReviewedChange :: "reviewed_change \<Rightarrow> reviewed_change \<Rightarrow> bool" where
  "sameReviewedChange left right \<longleftrightarrow>
     same_kind left right \<and> sourceBranch left = sourceBranch right \<and>
     targetBranch left = targetBranch right \<and>
     (case left of
        Local_branch _ \<Rightarrow> True
      | Pull_request p \<Rightarrow>
          (case right of
             Pull_request q \<Rightarrow> pr_provider p = pr_provider q \<and> pr_id p = pr_id q
           | Local_branch _ \<Rightarrow> False))"

definition sameReviewedRevision :: "reviewed_revision \<Rightarrow> reviewed_revision \<Rightarrow> bool" where
  "sameReviewedRevision left right \<longleftrightarrow>
     sameReviewedChange (rr_change left) (rr_change right) \<and> rr_revision left = rr_revision right"

section \<open>Reading the conversation\<close>

definition currentReviewRound :: "review \<Rightarrow> review_round" where
  "currentReviewRound review = rounds review ! (length (rounds review) - 1)"

definition decidedRevisionOf :: "review_round option \<Rightarrow> revision option" where
  "decidedRevisionOf subject =
     (case subject of
        None \<Rightarrow> None
      | Some r \<Rightarrow> (case rd_decision r of None \<Rightarrow> None | Some d \<Rightarrow> given (decision_revision d)))"

definition replaceCurrentRound :: "review \<Rightarrow> review_round \<Rightarrow> review_round list" where
  "replaceCurrentRound review replacement =
     (case rounds review of
        [] \<Rightarrow> [replacement]
      | first # rest \<Rightarrow> if rest = [] then [replacement] else first # butlast rest @ [replacement])"

definition effective_approval :: "reviewer_decision option \<Rightarrow> bool" where
  "effective_approval d \<longleftrightarrow> (case approval_of d of None \<Rightarrow> False | Some a \<Rightarrow> ap_revocation a = None)"

definition reviewStatus :: "review \<Rightarrow> review_status" where
  "reviewStatus review =
     (let round = currentReviewRound review in
       if effective_approval (rd_decision round) then Status_approved
       else if intervention_of review \<noteq> None then Human_intervention
       else if rd_response round \<noteq> None then Ready_for_next_round
       else if is_request (rd_decision round) then Awaiting_implementation
       else Awaiting_review)"

definition reviewApprovalOwed :: "review option \<Rightarrow> bool" where
  "reviewApprovalOwed review =
     (case review of
        None \<Rightarrow> False
      | Some r \<Rightarrow>
          (let current = at_last (rounds r);
               by_provider = (case current of
                   None \<Rightarrow> False
                 | Some c \<Rightarrow> (case approval_of (rd_decision c) of
                       None \<Rightarrow> False
                     | Some a \<Rightarrow> (case ap_source a of Provider _ \<Rightarrow> True | _ \<Rightarrow> False))) in
           if by_provider then False
           else list_ex (\<lambda>event. re_blockedReason event = Some ''external-formal-approval-owed'')
             (reviewEvents r)))"

section \<open>Opening and deciding rounds\<close>

text \<open>The round every operation that opens one starts from.\<close>

definition fresh_round ::
  "int \<Rightarrow> reviewed_revision \<Rightarrow> agent_family \<Rightarrow> agent_family \<Rightarrow> string \<Rightarrow> review_round" where
  "fresh_round n subject reviewer implementer startedAt =
     \<lparr>rd_assessment = None, rd_number = n, rd_subject = subject, rd_reviewer = reviewer,
      rd_implementer = implementer, rd_startedAt = startedAt, rd_decision = None,
      rd_response = None, rd_phase = Reviewing, rd_disposition = None, rd_reviewerRetryCount = 0,
      rd_implementerRetryCount = 0, rd_implementerResponseContent = None,
      rd_itemDispositions = None, rd_blockedReason = None\<rparr>"

definition startReview ::
  "reviewed_revision \<Rightarrow> agent_family \<Rightarrow> agent_family \<Rightarrow> string \<Rightarrow> eligibility \<Rightarrow>
    review_error + review" where
  "startReview subject reviewer implementer startedAt reviewerEligibility =
     try_bind (assertReviewedChange (rr_change subject)) (\<lambda>_.
     try_bind (changeRevision (rr_revision subject)) (\<lambda>_.
     try_bind (requireEligibleReviewer reviewer reviewerEligibility) (\<lambda>_.
     try_bind (requireSeparateReviewer reviewer implementer reviewerEligibility) (\<lambda>_.
       if blank startedAt then Inl Round_start_missing
       else Inr \<lparr>rounds = [fresh_round 1 subject reviewer implementer startedAt],
                 intervention_of = None, stageLaunches = [], reviewEvents = []\<rparr>))))"

definition superseding_revision :: "approval \<Rightarrow> revision option" where
  "superseding_revision a = map_option ss_supersedingRevision (ap_supersession a)"

definition revokeApprovedDecision :: "review \<Rightarrow> int \<Rightarrow> revocation \<Rightarrow> review_error + review" where
  "revokeApprovedDecision review roundNumber rk =
     (if \<not> safe_integer roundNumber \<or> roundNumber < 1 then Inl Revocation_round_invalid
      else if blank (rk_reason rk) then Inl Revocation_reason_missing
      else if blank (rk_revokedBy rk) then Inl Revocation_identity_missing
      else if blank (rk_revokedAt rk) then Inl Revocation_time_missing
      else let current = currentReviewRound review in
        if rd_number current \<noteq> roundNumber then Inl (Not_current_decision roundNumber)
        else case approval_of (rd_decision current) of
            None \<Rightarrow> Inl (Not_an_approval roundNumber)
          | Some a \<Rightarrow>
              if ap_revocation a \<noteq> None then Inl (Already_revoked roundNumber)
              else if reviewStatus review \<noteq> Status_approved then Inl (Not_current_decision roundNumber)
              else let revokedRound = current\<lparr>rd_decision := Some (Approved (a\<lparr>ap_revocation := Some rk\<rparr>))\<rparr>;
                       subject = (case superseding_revision a of
                           None \<Rightarrow> rd_subject current
                         | Some r \<Rightarrow> if r = [] then rd_subject current
                                   else (rd_subject current)\<lparr>rr_revision := r\<rparr>);
                       nextRound = fresh_round (rd_number current + 1) subject (rd_reviewer current)
                         (rd_implementer current) (rk_revokedAt rk) in
                Inr (review\<lparr>rounds := replaceCurrentRound review revokedRound @ [nextRound],
                            intervention_of := None\<rparr>))"

fun validateRequestChanges :: "finding_id list \<Rightarrow> review_finding list \<Rightarrow> review_error + unit" where
  "validateRequestChanges ids [] = Inr ()"
| "validateRequestChanges ids (finding # findings) =
     (if blank (rf_id finding) \<or> blank (rf_summary finding) then Inl Finding_incomplete
      else if rf_id finding \<in> set ids then Inl (Finding_duplicated (rf_id finding))
      else validateRequestChanges (rf_id finding # ids) findings)"

text \<open>\<open>typeof command.revision === 'string' ? changeRevision(command.revision) : null\<close>.\<close>

definition judged_revision :: "revision field \<Rightarrow> review_error + revision field" where
  "judged_revision f = (case given f of
     None \<Rightarrow> Inr Null
   | Some r \<Rightarrow> (case changeRevision r of Inl e \<Rightarrow> Inl e | Inr r' \<Rightarrow> Inr (Present r')))"

definition applyReviewerCommand :: "review \<Rightarrow> reviewer_command \<Rightarrow> review_error + review" where
  "applyReviewerCommand review command =
     (if reviewStatus review \<noteq> Awaiting_review
      then Inl (Reviewer_cannot command (reviewStatus review))
      else let current = currentReviewRound review in
       case command of
         Approve c \<Rightarrow>
           (case ac_source c of
              Mechanical_restoration _ \<Rightarrow> Inl Mechanical_restoration_historical
            | _ \<Rightarrow>
              if blank (ac_decidedAt c) then Inl Decision_time_missing
              else try_bind (assertReviewPhaseTransition (rd_phase current) Phase_approved) (\<lambda>_.
                try_bind (judged_revision (ac_revision c)) (\<lambda>judged.
                  Inr (review\<lparr>rounds := replaceCurrentRound review (current\<lparr>
                    rd_decision := Some (Approved \<lparr>ap_classifier = None, ap_revision = judged,
                      ap_decidedAt = ac_decidedAt c, ap_comment = ac_comment c,
                      ap_source = ac_source c, ap_revocation = None, ap_supersession = None\<rparr>),
                    rd_disposition := Some APPROVED, rd_phase := Phase_approved\<rparr>)\<rparr>))))
       | Request_changes c \<Rightarrow>
           if blank (rc_decidedAt c) then Inl Decision_time_missing
           else if rc_findings c = [] then Inl Findings_missing
           else try_bind (validateRequestChanges [] (rc_findings c)) (\<lambda>_.
             try_bind (judged_revision (rc_revision c)) (\<lambda>judged.
               Inr (review\<lparr>rounds := replaceCurrentRound review (current\<lparr>
                 rd_decision := Some (Changes_requested \<lparr>cr_classifier = None, cr_revision = judged,
                   cr_decidedAt = rc_decidedAt c, cr_comment = rc_comment c,
                   cr_findings = rc_findings c\<rparr>),
                 rd_disposition := Some (default_to REQUEST_CHANGES (rc_disposition c)),
                 rd_phase := Fixing\<rparr>)\<rparr>))))"

definition transitionReviewPhase :: "review \<Rightarrow> review_phase \<Rightarrow> review_error + review" where
  "transitionReviewPhase review phase =
     (let current = currentReviewRound review in
       try_bind (assertReviewPhaseTransition (rd_phase current) phase) (\<lambda>_.
         Inr (review\<lparr>rounds := replaceCurrentRound review (current\<lparr>rd_phase := phase\<rparr>)\<rparr>)))"

section \<open>Stage launches\<close>

definition STAGE_LAUNCH_HISTORY_LIMIT :: nat where
  "STAGE_LAUNCH_HISTORY_LIMIT = 20"

definition sortStageLaunchWindows :: "(string \<Rightarrow> 'k::linorder) \<Rightarrow> launch_window list \<Rightarrow> launch_window list" where
  "sortStageLaunchWindows ck windows = sort_key (\<lambda>w. ck (lw_stageKey w)) windows"

text \<open>The entries of the untyped bag that survive the type tests: the keys whose value is an array,
  with the entries of the array that are strings as \<open>Some\<close>.\<close>

definition stageLaunchWindowsFrom ::
  "(string \<Rightarrow> 'k::linorder) \<Rightarrow> (string \<times> string option list option) list option \<Rightarrow> launch_window list" where
  "stageLaunchWindowsFrom ck source =
     (case source of
        None \<Rightarrow> []
      | Some entries \<Rightarrow> sortStageLaunchWindows ck (List.map_filter (\<lambda>(stageKey, value).
          if blank stageKey then None
          else case value of
              None \<Rightarrow> None
            | Some vs \<Rightarrow>
                let fingerprints = slice_last STAGE_LAUNCH_HISTORY_LIMIT
                      (List.map_filter (\<lambda>v. case v of None \<Rightarrow> None | Some t \<Rightarrow> if t = [] then None else Some t) vs) in
                if fingerprints = [] then None
                else Some \<lparr>lw_stageKey = stageKey, lw_fingerprints = fingerprints\<rparr>) entries))"

definition window_of :: "launch_window list \<Rightarrow> string \<Rightarrow> launch_window option" where
  "window_of windows stageKey = find_first (\<lambda>entry. lw_stageKey entry = stageKey) windows"

definition hasRecordedStageLaunch :: "review \<Rightarrow> string \<Rightarrow> string \<Rightarrow> bool" where
  "hasRecordedStageLaunch review stageKey fingerprint =
     (case window_of (stageLaunches review) stageKey of
        None \<Rightarrow> False | Some window \<Rightarrow> fingerprint \<in> set (lw_fingerprints window))"

text \<open>\<open>sortStageLaunchWindows([...others, { stageKey, fingerprints }])\<close>.\<close>

definition put_window ::
  "(string \<Rightarrow> 'k::linorder) \<Rightarrow> launch_window list \<Rightarrow> string \<Rightarrow> launch_window \<Rightarrow> launch_window list" where
  "put_window ck windows stageKey window =
     sortStageLaunchWindows ck (filter (\<lambda>entry. lw_stageKey entry \<noteq> stageKey) windows @ [window])"

definition recordStageLaunch ::
  "(string \<Rightarrow> 'k::linorder) \<Rightarrow> review \<Rightarrow> string \<Rightarrow> string \<Rightarrow> review_error + review" where
  "recordStageLaunch ck review stageKey fingerprint =
     (if blank stageKey then Inl Stage_key_missing
      else if hasRecordedStageLaunch review stageKey fingerprint then Inr review
      else let existing = window_of (stageLaunches review) stageKey;
               before = (case existing of None \<Rightarrow> [] | Some w \<Rightarrow> lw_fingerprints w);
               fingerprints = slice_last STAGE_LAUNCH_HISTORY_LIMIT (before @ [fingerprint]) in
        Inr (review\<lparr>stageLaunches := put_window ck (stageLaunches review) stageKey
          \<lparr>lw_stageKey = stageKey, lw_fingerprints = fingerprints\<rparr>\<rparr>))"

section \<open>The implementer's side\<close>

fun explanation :: "resolution_kind \<Rightarrow> string" where
  "explanation (Fixed evidence) = evidence"
| "explanation (Disputed rationale) = rationale"

fun check_resolutions ::
  "finding_id list \<Rightarrow> finding_id list \<Rightarrow> finding_resolution list \<Rightarrow> review_error + finding_id list" where
  "check_resolutions expected seen [] = Inr seen"
| "check_resolutions expected seen (r # rs) =
     (if fr_findingId r \<notin> set expected then Inl (Resolution_unknown_finding (fr_findingId r))
      else if fr_findingId r \<in> set seen then Inl (Resolution_repeated (fr_findingId r))
      else if blank (explanation (fr_kind r)) then Inl (Resolution_unexplained (fr_findingId r))
      else check_resolutions expected (fr_findingId r # seen) rs)"

definition validateResolutions ::
  "review_finding list \<Rightarrow> finding_resolution list \<Rightarrow> review_error + unit" where
  "validateResolutions findings resolutions =
     try_bind (check_resolutions (map rf_id findings) [] resolutions) (\<lambda>seen.
       let unresolved = filter (\<lambda>f. rf_id f \<notin> set seen) findings in
       if unresolved \<noteq> [] then Inl (Resolution_missing (map rf_id unresolved)) else Inr ())"

definition applyImplementerCommand :: "review \<Rightarrow> implementer_command \<Rightarrow> review_error + review" where
  "applyImplementerCommand review command =
     (if reviewStatus review \<noteq> Awaiting_implementation
      then Inl (Implementer_cannot command (reviewStatus review))
      else case command of
        Request_human_intervention c \<Rightarrow>
          if blank (hp_reason c) \<or> blank (hp_requestedAt c) then Inl Intervention_incomplete
          else Inr (review\<lparr>intervention_of := Some \<lparr>iv_requestedAt = hp_requestedAt c,
            iv_requestedBy = By_implementer, iv_reason = hp_reason c\<rparr>\<rparr>)
      | Submit_resolution c \<Rightarrow>
          let current = currentReviewRound review in
          case request_of (rd_decision current) of
            None \<Rightarrow> Inl Resolution_requires_request
          | Some request \<Rightarrow>
              try_bind (validateResolutions (cr_findings request) (su_resolutions c)) (\<lambda>_.
                if blank (su_respondedAt c) then Inl Response_time_missing
                else try_bind (changeRevision (su_resultingRevision c)) (\<lambda>_.
                  Inr (review\<lparr>rounds := replaceCurrentRound review (current\<lparr>
                    rd_phase := Pending_approval, rd_disposition := Some CHANGES_MADE,
                    rd_response := Some \<lparr>ir_respondedAt = su_respondedAt c,
                      ir_resolutions = su_resolutions c,
                      ir_resultingRevision = su_resultingRevision c\<rparr>\<rparr>),
                    intervention_of := None\<rparr>))))"

definition beginNextReviewRound ::
  "review \<Rightarrow> agent_family \<Rightarrow> agent_family \<Rightarrow> string \<Rightarrow> eligibility \<Rightarrow> review_error + review" where
  "beginNextReviewRound review reviewer implementer startedAt reviewerEligibility =
     (if reviewStatus review \<noteq> Ready_for_next_round then Inl (Cannot_begin_round (reviewStatus review))
      else try_bind (requireEligibleReviewer reviewer reviewerEligibility) (\<lambda>_.
        try_bind (requireSeparateReviewer reviewer implementer reviewerEligibility) (\<lambda>_.
          if blank startedAt then Inl Round_start_missing
          else let current = currentReviewRound review in
            case rd_response current of
              None \<Rightarrow> Inl Round_requires_resolution
            | Some response \<Rightarrow>
                Inr (review\<lparr>rounds := rounds review @ [fresh_round (rd_number current + 1)
                    \<lparr>rr_change = rr_change (rd_subject current),
                     rr_revision = ir_resultingRevision response, rr_baseline = None\<rparr>
                    reviewer implementer startedAt],
                  intervention_of := None\<rparr>))))"

definition requestReviewIntervention :: "review \<Rightarrow> intervention \<Rightarrow> review_error + review" where
  "requestReviewIntervention review i =
     (if reviewStatus review = Status_approved then Inl Approved_cannot_intervene
      else if blank (iv_reason i) \<or> blank (iv_requestedAt i) then Inl Intervention_incomplete
      else Inr (review\<lparr>intervention_of := Some i\<rparr>))"

definition resumeReview :: "review \<Rightarrow> review_error + review" where
  "resumeReview review =
     (if intervention_of review = None then Inl Not_waiting_for_human
      else Inr (review\<lparr>intervention_of := None, stageLaunches := []\<rparr>))"

definition invalidateBlocker :: "review \<Rightarrow> string \<Rightarrow> review_error + review" where
  "invalidateBlocker review startedAt =
     (let round = currentReviewRound review in
       if rd_disposition round \<noteq> Some BLOCKED \<and> rd_disposition round \<noteq> Some PARKED
       then Inl Not_blocked
       else if blank startedAt then Inl Continue_start_missing
       else Inr (review\<lparr>rounds := rounds review @ [round\<lparr>rd_number := rd_number round + 1,
            rd_startedAt := startedAt, rd_decision := None, rd_response := None,
            rd_disposition := None, rd_phase := Reviewing, rd_reviewerRetryCount := 0,
            rd_implementerRetryCount := 0, rd_implementerResponseContent := None,
            rd_itemDispositions := None, rd_blockedReason := None\<rparr>],
          intervention_of := None, stageLaunches := []\<rparr>))"

section \<open>The conversation as a machine\<close>

datatype review_command =
    Reviewer_acts reviewer_command
  | Implementer_acts implementer_command
  | Phase_moves review_phase
  | Launch_recorded string string
  | Round_begins agent_family agent_family string eligibility
  | Intervention_requested intervention
  | Human_resumes
  | Blocker_invalidated string
  | Approval_revoked int revocation

fun review_step :: "(string \<Rightarrow> 'k::linorder) \<Rightarrow> review \<Rightarrow> review_command \<Rightarrow> review_error + review" where
  "review_step ck review (Reviewer_acts c) = applyReviewerCommand review c"
| "review_step ck review (Implementer_acts c) = applyImplementerCommand review c"
| "review_step ck review (Phase_moves p) = transitionReviewPhase review p"
| "review_step ck review (Launch_recorded k f) = recordStageLaunch ck review k f"
| "review_step ck review (Round_begins r i t e) = beginNextReviewRound review r i t e"
| "review_step ck review (Intervention_requested i) = requestReviewIntervention review i"
| "review_step ck review Human_resumes = resumeReview review"
| "review_step ck review (Blocker_invalidated t) = invalidateBlocker review t"
| "review_step ck review (Approval_revoked n r) = revokeApprovedDecision review n r"

text \<open>A response answers each finding of the request exactly once, with a reason.\<close>

definition answers :: "review_finding list \<Rightarrow> finding_resolution list \<Rightarrow> bool" where
  "answers findings resolutions \<longleftrightarrow>
     distinct (map fr_findingId resolutions) \<and>
     set (map fr_findingId resolutions) = set (map rf_id findings) \<and>
     (\<forall>r\<in>set resolutions. \<not> blank (explanation (fr_kind r)))"

definition round_ok :: "review_round \<Rightarrow> bool" where
  "round_ok rd \<longleftrightarrow>
     (\<forall>c. rd_decision rd = Some (Changes_requested c) \<longrightarrow>
       cr_findings c \<noteq> [] \<and> distinct (map rf_id (cr_findings c))) \<and>
     (\<forall>r. rd_response rd = Some r \<longrightarrow>
       (\<exists>c. rd_decision rd = Some (Changes_requested c) \<and> answers (cr_findings c) (ir_resolutions r))) \<and>
     (rd_disposition rd = Some BLOCKED \<or> rd_disposition rd = Some PARKED \<longrightarrow> is_request (rd_decision rd))"

text \<open>A superseded round keeps its decision, and no approval of it is in force.\<close>

definition round_settled :: "review_round \<Rightarrow> bool" where
  "round_settled rd \<longleftrightarrow> rd_decision rd \<noteq> None \<and> \<not> effective_approval (rd_decision rd)"

definition rounds_ok :: "review_round list \<Rightarrow> bool" where
  "rounds_ok rs \<longleftrightarrow> rs \<noteq> [] \<and> (\<forall>rd\<in>set rs. round_ok rd) \<and> (\<forall>rd\<in>set (butlast rs). round_settled rd) \<and>
     map rd_number rs = [1..int (length rs)] \<and>
     (\<forall>rd\<in>set rs. rr_change (rd_subject rd) = rr_change (rd_subject (hd rs)))"

definition window_ok :: "launch_window \<Rightarrow> bool" where
  "window_ok w \<longleftrightarrow> \<not> blank (lw_stageKey w) \<and> lw_fingerprints w \<noteq> [] \<and> distinct (lw_fingerprints w) \<and>
     length (lw_fingerprints w) \<le> STAGE_LAUNCH_HISTORY_LIMIT"

definition windows_ok :: "(string \<Rightarrow> 'k::linorder) \<Rightarrow> launch_window list \<Rightarrow> bool" where
  "windows_ok ck ws \<longleftrightarrow> distinct (map lw_stageKey ws) \<and> (\<forall>w\<in>set ws. window_ok w) \<and>
     sorted (map (\<lambda>w. ck (lw_stageKey w)) ws)"

definition conversation :: "(string \<Rightarrow> 'k::linorder) \<Rightarrow> review \<Rightarrow> bool" where
  "conversation ck review \<longleftrightarrow> rounds_ok (rounds review) \<and> windows_ok ck (stageLaunches review)"

section \<open>Lemmas on rounds\<close>

lemma effective_approval_iff:
  "effective_approval d \<longleftrightarrow> (\<exists>a. d = Some (Approved a) \<and> ap_revocation a = None)"
  by (auto simp: effective_approval_def split: option.splits)

lemma current_snoc [simp]: "rounds r = xs @ [x] \<Longrightarrow> currentReviewRound r = x"
  by (simp add: currentReviewRound_def)

lemma current_fields [simp]:
  "currentReviewRound (r\<lparr>intervention_of := i\<rparr>) = currentReviewRound r"
  "currentReviewRound (r\<lparr>stageLaunches := ws\<rparr>) = currentReviewRound r"
  by (simp_all add: currentReviewRound_def)

lemma current_last: "rounds r \<noteq> [] \<Longrightarrow> currentReviewRound r = last (rounds r)"
  by (simp add: currentReviewRound_def last_conv_nth)

lemma replace_current [simp]: "replaceCurrentRound r x = butlast (rounds r) @ [x]"
  by (simp add: replaceCurrentRound_def split: list.split)

lemma rounds_ok_snoc:
  "rounds_ok (xs @ [x]) \<longleftrightarrow> round_ok x \<and> (\<forall>y\<in>set xs. round_ok y \<and> round_settled y) \<and>
    map rd_number xs = [1..int (length xs)] \<and> rd_number x = int (length xs) + 1 \<and>
    (\<forall>y\<in>set xs. rr_change (rd_subject y) = rr_change (rd_subject x))"
proof -
  have up: "[1..1 + int (length xs)] = [1..int (length xs)] @ [1 + int (length xs)]"
    using upto_rec2[of 1 "1 + int (length xs)"] by simp
  have "map rd_number (xs @ [x]) = [1..int (length (xs @ [x]))] \<longleftrightarrow>
    map rd_number xs = [1..int (length xs)] \<and> rd_number x = int (length xs) + 1"
    by (simp add: up add.commute)
  moreover have "(\<forall>y\<in>set (xs @ [x]). rr_change (rd_subject y) = rr_change (rd_subject (hd (xs @ [x])))) \<longleftrightarrow>
    (\<forall>y\<in>set xs. rr_change (rd_subject y) = rr_change (rd_subject x))"
    by (cases xs) auto
  ultimately show ?thesis unfolding rounds_ok_def by auto
qed

lemma rounds_ok_replace:
  assumes "rounds_ok rs" and "round_ok x" and "rd_number x = rd_number (last rs)"
    and "rr_change (rd_subject x) = rr_change (rd_subject (last rs))"
  shows "rounds_ok (butlast rs @ [x])"
  using assms by (cases rs rule: rev_cases) (auto simp: rounds_ok_snoc rounds_ok_def[of "[]"])

lemma rounds_ok_append:
  assumes "rounds_ok rs" and "round_settled (last rs)" and "round_ok x"
    and "rd_number x = rd_number (last rs) + 1"
    and "rr_change (rd_subject x) = rr_change (rd_subject (last rs))"
  shows "rounds_ok (rs @ [x])"
proof (cases rs rule: rev_cases)
  case Nil
  with assms show ?thesis by (simp add: rounds_ok_def)
next
  case (snoc ys y)
  then have ok: "rounds_ok (ys @ [y])" using assms by simp
  note split = ok[unfolded rounds_ok_snoc]
  have numbers: "map rd_number rs = [1..int (length rs)]" using assms(1) by (simp only: rounds_ok_def)
  have number: "rd_number x = int (length rs) + 1" using split assms(4) snoc by simp
  have earlier: "\<forall>z\<in>set rs. round_ok z \<and> round_settled z" using split assms(2) snoc by simp
  have change: "rr_change (rd_subject z) = rr_change (rd_subject x)" if "z \<in> set rs" for z
  proof (cases "z = y")
    case True
    with assms(5) snoc show ?thesis by simp
  next
    case False
    with that snoc have "z \<in> set ys" by simp
    with split have "rr_change (rd_subject z) = rr_change (rd_subject y)" by blast
    also have "\<dots> = rr_change (rd_subject x)" using assms(5) snoc by simp
    finally show ?thesis .
  qed
  show ?thesis unfolding rounds_ok_snoc using assms(3) earlier numbers number change by blast
qed

lemma fresh_round_ok [simp]: "round_ok (fresh_round n s r i t)"
  by (simp add: round_ok_def fresh_round_def)

lemma fresh_round_simps [simp]:
  "rd_number (fresh_round n s r i t) = n" "rd_subject (fresh_round n s r i t) = s"
  "rd_decision (fresh_round n s r i t) = None" "rd_response (fresh_round n s r i t) = None"
  "rd_phase (fresh_round n s r i t) = Reviewing" "rd_reviewer (fresh_round n s r i t) = r"
  "rd_implementer (fresh_round n s r i t) = i" "rd_startedAt (fresh_round n s r i t) = t"
  "rd_disposition (fresh_round n s r i t) = None" "rd_assessment (fresh_round n s r i t) = None"
  by (simp_all add: fresh_round_def)

lemma conversation_ne: "conversation ck r \<Longrightarrow> rounds r \<noteq> []"
  by (simp add: conversation_def rounds_ok_def)

lemma conversation_current: "conversation ck r \<Longrightarrow> round_ok (currentReviewRound r)"
  by (auto simp: conversation_def rounds_ok_def current_last)

lemma conversation_replace:
  assumes "conversation ck r" and "round_ok x" and "rd_number x = rd_number (currentReviewRound r)"
    and "rr_change (rd_subject x) = rr_change (rd_subject (currentReviewRound r))"
  shows "conversation ck (r\<lparr>rounds := replaceCurrentRound r x\<rparr>)"
  using assms conversation_ne[OF assms(1)]
  by (auto simp: conversation_def current_last intro!: rounds_ok_replace)

lemma conversation_intervention [simp]: "conversation ck (r\<lparr>intervention_of := i\<rparr>) = conversation ck r"
  by (simp add: conversation_def)

lemma conversation_append:
  assumes "conversation ck r" and "round_settled (currentReviewRound r)" and "round_ok x"
    and "rd_number x = rd_number (currentReviewRound r) + 1"
    and "rr_change (rd_subject x) = rr_change (rd_subject (currentReviewRound r))"
  shows "conversation ck (r\<lparr>rounds := rounds r @ [x]\<rparr>)"
  using assms conversation_ne[OF assms(1)]
  by (auto simp: conversation_def current_last intro!: rounds_ok_append)

section \<open>Status\<close>

lemma status_cases:
  "reviewStatus r = Status_approved \<longleftrightarrow> effective_approval (rd_decision (currentReviewRound r))"
  "reviewStatus r = Awaiting_review \<longleftrightarrow> \<not> effective_approval (rd_decision (currentReviewRound r)) \<and>
     intervention_of r = None \<and> rd_response (currentReviewRound r) = None \<and>
     \<not> is_request (rd_decision (currentReviewRound r))"
  "reviewStatus r = Awaiting_implementation \<longleftrightarrow> intervention_of r = None \<and>
     rd_response (currentReviewRound r) = None \<and> is_request (rd_decision (currentReviewRound r))"
  "reviewStatus r = Ready_for_next_round \<longleftrightarrow> \<not> effective_approval (rd_decision (currentReviewRound r)) \<and>
     intervention_of r = None \<and> rd_response (currentReviewRound r) \<noteq> None"
  by (auto simp: reviewStatus_def Let_def effective_approval_iff is_request_iff)

lemma effective_not_request: "effective_approval d \<Longrightarrow> \<not> is_request d"
  by (auto simp: effective_approval_iff)

lemma settled_request: "is_request (rd_decision rd) \<Longrightarrow> round_settled rd"
  by (auto simp: round_settled_def is_request_iff effective_approval_iff)

section \<open>What an accepted operation did\<close>

lemma phase_transition_Inr [outcome]:
  "assertReviewPhaseTransition p q = Inr u \<longleftrightarrow> q \<in> set (REVIEW_PHASE_TRANSITIONS p)"
  by (cases p; cases q)
    (simp_all add: assertReviewPhaseTransition_def requireReviewPhase_def parseReviewPhase_def REVIEW_PHASES_def)

lemma validate_requests_Inr [outcome]:
  "validateRequestChanges ids fs = Inr u \<longleftrightarrow> (\<forall>f\<in>set fs. \<not> blank (rf_id f) \<and> \<not> blank (rf_summary f)) \<and>
    distinct (map rf_id fs) \<and> set ids \<inter> set (map rf_id fs) = {}"
  by (induction ids fs rule: validateRequestChanges.induct) auto

lemma check_resolutions_Inr:
  "check_resolutions expected seen rs = Inr all \<longleftrightarrow> (\<forall>r\<in>set rs. fr_findingId r \<in> set expected \<and>
    \<not> blank (explanation (fr_kind r))) \<and> distinct (map fr_findingId rs) \<and>
    set seen \<inter> set (map fr_findingId rs) = {} \<and> all = rev (map fr_findingId rs) @ seen"
  by (induction expected seen rs rule: check_resolutions.induct) auto

lemma validate_resolutions_Inr [outcome]:
  "validateResolutions fs rs = Inr u \<longleftrightarrow> answers fs rs"
  by (auto simp: validateResolutions_def try_bind_Inr check_resolutions_Inr answers_def
      filter_empty_conv Let_def) 

lemma change_revision_Inr [outcome]: "changeRevision v = Inr w \<longleftrightarrow> \<not> blank v \<and> w = v"
  by (auto simp: changeRevision_def)

lemma judged_revision_Inr [outcome]:
  "judged_revision f = Inr g \<longleftrightarrow> (given f = None \<and> g = Null) \<or> (\<exists>v. f = Present v \<and> \<not> blank v \<and> g = f)"
  by (auto simp: judged_revision_def changeRevision_def split: option.splits if_splits)


section \<open>Stage windows are a keyed store\<close>

lemma sort_windows [simp]:
  "set (sortStageLaunchWindows ck ws) = set ws"
  "distinct (map lw_stageKey (sortStageLaunchWindows ck ws)) = distinct (map lw_stageKey ws)"
  "sorted (map (\<lambda>w. ck (lw_stageKey w)) (sortStageLaunchWindows ck ws))"
  by (simp_all add: sortStageLaunchWindows_def distinct_map distinct_sort)

lemma find_sorted_windows:
  assumes "distinct (map lw_stageKey ws)"
  shows "window_of (sortStageLaunchWindows ck ws) k = window_of ws k"
  unfolding window_of_def sortStageLaunchWindows_def
  by (rule find_sort_key_distinct) (use assms in \<open>auto simp: distinct_map dest: inj_onD\<close>)

lemma find_append: "find_first p (xs @ ys) = (case find_first p xs of None \<Rightarrow> find_first p ys | Some x \<Rightarrow> Some x)"
  by (induction xs) auto

lemma find_other: "j \<noteq> k \<Longrightarrow> window_of (filter (\<lambda>w. lw_stageKey w \<noteq> k) ws) j = window_of ws j"
  by (induction ws) (auto simp: window_of_def)

lemma distinct_put: "distinct (map lw_stageKey ws) \<Longrightarrow> lw_stageKey w = k \<Longrightarrow>
    distinct (map lw_stageKey (filter (\<lambda>w. lw_stageKey w \<noteq> k) ws @ [w]))"
  by (auto simp: distinct_map inj_on_def)

interpretation windows: keyed_store window_of "put_window ck" "windows_ok ck"
  "\<lambda>k w. window_ok w \<and> lw_stageKey w = k" for ck :: "string \<Rightarrow> 'k::linorder"
proof
  fix m :: "launch_window list" and k j v
  assume ok: "windows_ok ck m" and fits: "window_ok v \<and> lw_stageKey v = k"
  let ?l = "filter (\<lambda>w. lw_stageKey w \<noteq> k) m @ [v]"
  have d: "distinct (map lw_stageKey ?l)"
    using ok fits by (intro distinct_put) (simp_all add: windows_ok_def)
  have none: "window_of (filter (\<lambda>w. lw_stageKey w \<noteq> k) m) k = None"
    by (simp add: window_of_def find_first_None)
  show "window_of (put_window ck m k v) k = Some v"
    unfolding put_window_def find_sorted_windows[OF d] using none fits
    by (simp add: window_of_def find_append)
  show "windows_ok ck (put_window ck m k v)"
    using ok fits d by (auto simp: windows_ok_def put_window_def)
  show "window_of (put_window ck m k v) j = window_of m j" if "j \<noteq> k"
    unfolding put_window_def find_sorted_windows[OF d] using that fits find_other[OF that, of m]
    by (auto simp: window_of_def find_append split: option.splits)
qed

lemma slice_last_ok:
  "distinct (xs @ [x]) \<Longrightarrow> 0 < n \<Longrightarrow> distinct (slice_last n (xs @ [x])) \<and> slice_last n (xs @ [x]) \<noteq> []"
  using slice_last_append_one[of n x xs] distinct_drop[of "xs @ [x]" "length (xs @ [x]) - n"]
  by (metis empty_iff list.set(1) slice_last_def)

lemma launch_window_ok:
  assumes "windows_ok ck (stageLaunches r)" and "\<not> blank k" and "\<not> hasRecordedStageLaunch r k f"
  shows "window_ok \<lparr>lw_stageKey = k, lw_fingerprints = slice_last STAGE_LAUNCH_HISTORY_LIMIT
    ((case window_of (stageLaunches r) k of None \<Rightarrow> [] | Some w \<Rightarrow> lw_fingerprints w) @ [f])\<rparr>"
proof -
  have d: "distinct ((case window_of (stageLaunches r) k of None \<Rightarrow> [] | Some w \<Rightarrow> lw_fingerprints w) @ [f])"
    using assms by (auto simp: windows_ok_def window_ok_def hasRecordedStageLaunch_def window_of_def
        split: option.splits dest!: find_first_Some)
  show ?thesis
    using slice_last_ok[OF d, of STAGE_LAUNCH_HISTORY_LIMIT] assms(2)
    by (simp add: window_ok_def STAGE_LAUNCH_HISTORY_LIMIT_def)
qed

lemma record_launch_conversation:
  assumes "conversation ck r" and "recordStageLaunch ck r k f = Inr r'"
  shows "conversation ck r' \<and> rounds r' = rounds r"
proof (cases "hasRecordedStageLaunch r k f")
  case True
  with assms show ?thesis by (auto simp: recordStageLaunch_def split: if_splits)
next
  case False
  have w: "windows_ok ck (stageLaunches r)" using assms(1) by (simp add: conversation_def)
  have b: "\<not> blank k" using assms(2) by (auto simp: recordStageLaunch_def split: if_splits)
  let ?w = "\<lparr>lw_stageKey = k, lw_fingerprints = slice_last STAGE_LAUNCH_HISTORY_LIMIT
    ((case window_of (stageLaunches r) k of None \<Rightarrow> [] | Some w \<Rightarrow> lw_fingerprints w) @ [f])\<rparr>"
  have r': "r' = r\<lparr>stageLaunches := put_window ck (stageLaunches r) k ?w\<rparr>"
    using assms(2) False b by (simp add: recordStageLaunch_def Let_def)
  have "windows_ok ck (put_window ck (stageLaunches r) k ?w)"
    using launch_window_ok[OF w b False] w by (intro windows.put_ok) simp_all
  with assms(1) show ?thesis by (simp add: r' conversation_def)
qed

section \<open>Every operation keeps the conversation\<close>

lemma reviewer_command_Inr:
  assumes "applyReviewerCommand r c = Inr r'"
  obtains x where "reviewStatus r = Awaiting_review" and
    "r' = r\<lparr>rounds := replaceCurrentRound r x\<rparr>" and
    "rd_number x = rd_number (currentReviewRound r)" and "rd_subject x = rd_subject (currentReviewRound r)" and
    "rd_response x = rd_response (currentReviewRound r)" and
    "(\<exists>a. c = Approve a \<and> rd_phase (currentReviewRound r) = Reviewing \<and> rd_phase x = Phase_approved \<and>
        rd_disposition x = Some APPROVED \<and> effective_approval (rd_decision x)) \<or>
     (\<exists>p q. c = Request_changes p \<and> rd_phase x = Fixing \<and> rd_decision x = Some (Changes_requested q) \<and>
        cr_findings q = rc_findings p \<and> rc_findings p \<noteq> [] \<and> distinct (map rf_id (rc_findings p)))"
proof (cases c)
  case (Approve a)
  have st: "reviewStatus r = Awaiting_review" using assms by (auto simp: applyReviewerCommand_def split: if_splits)
  have ph: "Phase_approved \<in> set (REVIEW_PHASE_TRANSITIONS p) \<Longrightarrow> p = Reviewing" for p
    by (cases p) auto
  show ?thesis
    using assms Approve st
    by (auto simp: applyReviewerCommand_def Let_def try_bind_Inr phase_transition_Inr effective_approval_iff
        simp del: replace_current split: if_splits approval_source.splits dest!: ph intro!: that)
next
  case (Request_changes p)
  have st: "reviewStatus r = Awaiting_review" using assms by (auto simp: applyReviewerCommand_def split: if_splits)
  show ?thesis
    using assms Request_changes st
    by (auto simp: applyReviewerCommand_def Let_def try_bind_Inr validate_requests_Inr
        simp del: replace_current split: if_splits intro!: that)
qed

lemma reviewer_command_conversation:
  assumes "conversation ck r" and "applyReviewerCommand r c = Inr r'"
  shows "conversation ck r'"
proof (rule reviewer_command_Inr[OF assms(2)])
  fix x
  assume st: "reviewStatus r = Awaiting_review" and r': "r' = r\<lparr>rounds := replaceCurrentRound r x\<rparr>"
    and eq: "rd_number x = rd_number (currentReviewRound r)" "rd_subject x = rd_subject (currentReviewRound r)"
      "rd_response x = rd_response (currentReviewRound r)"
    and d: "(\<exists>a. c = Approve a \<and> rd_phase (currentReviewRound r) = Reviewing \<and> rd_phase x = Phase_approved \<and>
        rd_disposition x = Some APPROVED \<and> effective_approval (rd_decision x)) \<or>
     (\<exists>p q. c = Request_changes p \<and> rd_phase x = Fixing \<and> rd_decision x = Some (Changes_requested q) \<and>
        cr_findings q = rc_findings p \<and> rc_findings p \<noteq> [] \<and> distinct (map rf_id (rc_findings p)))"
  have "rd_response x = None" using st eq by (simp add: status_cases)
  then have "round_ok x" using d by (auto simp: round_ok_def effective_approval_iff)
  then show ?thesis unfolding r' using assms(1) eq by (intro conversation_replace) simp_all
qed

lemma implementer_command_Inr:
  assumes "applyImplementerCommand r c = Inr r'"
  obtains (intervene) i p where "reviewStatus r = Awaiting_implementation" "c = Request_human_intervention p"
      "r' = r\<lparr>intervention_of := Some i\<rparr>"
  | (resolve) x p q where "reviewStatus r = Awaiting_implementation" "c = Submit_resolution p"
      "r' = r\<lparr>rounds := replaceCurrentRound r x, intervention_of := None\<rparr>"
      "rd_decision (currentReviewRound r) = Some (Changes_requested q)" "answers (cr_findings q) (su_resolutions p)"
      "\<not> blank (su_resultingRevision p)"
      "x = (currentReviewRound r)\<lparr>rd_phase := Pending_approval, rd_disposition := Some CHANGES_MADE,
        rd_response := Some \<lparr>ir_respondedAt = su_respondedAt p, ir_resolutions = su_resolutions p,
          ir_resultingRevision = su_resultingRevision p\<rparr>\<rparr>"
proof (cases c)
  case (Submit_resolution p)
  show ?thesis
    using assms Submit_resolution
    by (auto simp: applyImplementerCommand_def Let_def try_bind_Inr validate_resolutions_Inr change_revision_Inr
        simp del: replace_current split: if_splits option.splits intro!: resolve)
next
  case (Request_human_intervention p)
  show ?thesis
    using assms Request_human_intervention
    by (auto simp: applyImplementerCommand_def split: if_splits intro!: intervene)
qed

lemma implementer_command_decision:
  assumes "applyImplementerCommand r c = Inr r'"
  shows "rd_decision (currentReviewRound r') = rd_decision (currentReviewRound r)"
  using assms by (cases rule: implementer_command_Inr) simp_all

lemma implementer_command_conversation:
  assumes "conversation ck r" and "applyImplementerCommand r c = Inr r'"
  shows "conversation ck r'"
  using assms(2)
proof (cases rule: implementer_command_Inr)
  case intervene
  with assms(1) show ?thesis by simp
next
  case (resolve x p q)
  have "round_ok (currentReviewRound r)" using assms(1) by (rule conversation_current)
  then have "round_ok x" using resolve by (simp add: round_ok_def)
  then have "conversation ck (r\<lparr>rounds := replaceCurrentRound r x\<rparr>)"
    using resolve by (intro conversation_replace assms(1)) simp_all
  then show ?thesis unfolding resolve(3) by (simp add: conversation_def)
qed

lemma transition_conversation:
  assumes "conversation ck r" and "transitionReviewPhase r p = Inr r'"
  shows "conversation ck r'"
proof -
  have r': "r' = r\<lparr>rounds := replaceCurrentRound r ((currentReviewRound r)\<lparr>rd_phase := p\<rparr>)\<rparr>"
    using assms(2) by (auto simp: transitionReviewPhase_def Let_def try_bind_Inr simp del: replace_current)
  have "round_ok ((currentReviewRound r)\<lparr>rd_phase := p\<rparr>)"
    using conversation_current[OF assms(1)] by (simp add: round_ok_def)
  then show ?thesis unfolding r' by (intro conversation_replace assms(1)) simp_all
qed

lemma next_round_Inr:
  assumes "beginNextReviewRound r reviewer implementer t e = Inr r'"
  obtains response where "reviewStatus r = Ready_for_next_round" "rd_response (currentReviewRound r) = Some response"
    "reviewer \<in> set (reviewers e)" "reviewer \<noteq> implementer \<or> reviewers e = [implementer]" "\<not> blank t"
    "r' = r\<lparr>rounds := rounds r @ [fresh_round (rd_number (currentReviewRound r) + 1)
       \<lparr>rr_change = rr_change (rd_subject (currentReviewRound r)),
        rr_revision = ir_resultingRevision response, rr_baseline = None\<rparr> reviewer implementer t],
       intervention_of := None\<rparr>"
proof -
  have sep: "requireSeparateReviewer reviewer implementer e = Inr u \<Longrightarrow> reviewer \<noteq> implementer \<or> reviewers e = [implementer]" for u
    by (cases "reviewers e") (auto simp: requireSeparateReviewer_def split: if_splits)
  show ?thesis
    using assms by (auto simp: beginNextReviewRound_def requireEligibleReviewer_def Let_def try_bind_Inr
        split: if_splits option.splits dest!: sep intro!: that)
qed

lemma next_round_conversation:
  assumes "conversation ck r" and "beginNextReviewRound r reviewer implementer t e = Inr r'"
  shows "conversation ck r'"
  using assms(2)
proof (cases rule: next_round_Inr)
  case (1 response)
  have "is_request (rd_decision (currentReviewRound r))"
    using conversation_current[OF assms(1)] 1 by (auto simp: round_ok_def)
  then have "round_settled (currentReviewRound r)" by (rule settled_request)
  then have "conversation ck (r\<lparr>rounds := rounds r @ [fresh_round (rd_number (currentReviewRound r) + 1)
       \<lparr>rr_change = rr_change (rd_subject (currentReviewRound r)),
        rr_revision = ir_resultingRevision response, rr_baseline = None\<rparr> reviewer implementer t]\<rparr>)"
    by (intro conversation_append assms(1)) simp_all
  then show ?thesis unfolding 1 by (simp add: conversation_def)
qed

lemma revoke_Inr:
  assumes "revokeApprovedDecision r n rk = Inr r'"
  obtains a subject where "rd_decision (currentReviewRound r) = Some (Approved a)" "ap_revocation a = None"
    "rd_number (currentReviewRound r) = n" "1 \<le> n" "\<not> blank (rk_reason rk)" "\<not> blank (rk_revokedBy rk)"
    "\<not> blank (rk_revokedAt rk)"
    "subject = (if superseding_revision a = None \<or> superseding_revision a = Some [] then rd_subject (currentReviewRound r)
       else (rd_subject (currentReviewRound r))\<lparr>rr_revision := the (superseding_revision a)\<rparr>)"
    "r' = r\<lparr>rounds := butlast (rounds r) @ [(currentReviewRound r)\<lparr>rd_decision := Some (Approved (a\<lparr>ap_revocation := Some rk\<rparr>))\<rparr>,
       fresh_round (n + 1) subject (rd_reviewer (currentReviewRound r)) (rd_implementer (currentReviewRound r)) (rk_revokedAt rk)],
       intervention_of := None\<rparr>"
proof -
  obtain a where a: "rd_decision (currentReviewRound r) = Some (Approved a)" "ap_revocation a = None"
    and n: "rd_number (currentReviewRound r) = n" "1 \<le> n"
    and b: "\<not> blank (rk_reason rk)" "\<not> blank (rk_revokedBy rk)" "\<not> blank (rk_revokedAt rk)"
    using assms by (auto simp: revokeApprovedDecision_def Let_def split: if_splits option.splits)
  show ?thesis
    using assms a n b
    by (intro that[OF a n b refl]) (auto simp: revokeApprovedDecision_def Let_def split: if_splits option.splits)
qed

lemma revoke_conversation:
  assumes "conversation ck r" and "revokeApprovedDecision r n rk = Inr r'"
  shows "conversation ck r'"
  using assms(2)
proof (cases rule: revoke_Inr)
  case (1 a subject)
  let ?x = "(currentReviewRound r)\<lparr>rd_decision := Some (Approved (a\<lparr>ap_revocation := Some rk\<rparr>))\<rparr>"
  let ?y = "fresh_round (n + 1) subject (rd_reviewer (currentReviewRound r)) (rd_implementer (currentReviewRound r)) (rk_revokedAt rk)"
  have ok: "round_ok (currentReviewRound r)" using assms(1) by (rule conversation_current)
  then have x: "round_ok ?x" using 1 by (auto simp: round_ok_def)
  let ?s = "r\<lparr>rounds := replaceCurrentRound r ?x\<rparr>"
  have s: "conversation ck ?s" using x by (intro conversation_replace assms(1)) simp_all
  have cur: "currentReviewRound ?s = ?x" by simp
  have "conversation ck (?s\<lparr>rounds := rounds ?s @ [?y]\<rparr>)"
    using 1 by (intro conversation_append s) (simp_all add: cur round_settled_def effective_approval_iff)
  then show ?thesis unfolding 1(9) by (simp add: conversation_def)
qed

lemma invalidate_Inr:
  assumes "invalidateBlocker r t = Inr r'"
  obtains x where "rd_disposition (currentReviewRound r) = Some BLOCKED \<or> rd_disposition (currentReviewRound r) = Some PARKED"
    "\<not> blank t" "r' = r\<lparr>rounds := rounds r @ [x], intervention_of := None, stageLaunches := []\<rparr>"
    "rd_number x = rd_number (currentReviewRound r) + 1" "rd_subject x = rd_subject (currentReviewRound r)"
    "rd_decision x = None" "rd_response x = None" "rd_phase x = Reviewing" "rd_disposition x = None"
    "rd_reviewer x = rd_reviewer (currentReviewRound r)" "rd_implementer x = rd_implementer (currentReviewRound r)"
  using assms by (auto simp: invalidateBlocker_def Let_def split: if_splits intro!: that)

lemma invalidate_conversation:
  assumes "conversation ck r" and "invalidateBlocker r t = Inr r'"
  shows "conversation ck r'"
  using assms(2)
proof (cases rule: invalidate_Inr)
  case (1 x)
  have "is_request (rd_decision (currentReviewRound r))"
    using conversation_current[OF assms(1)] 1 by (auto simp: round_ok_def)
  then have "round_settled (currentReviewRound r)" by (rule settled_request)
  moreover have "round_ok x" using 1 by (simp add: round_ok_def)
  ultimately have "conversation ck (r\<lparr>rounds := rounds r @ [x]\<rparr>)"
    using 1 by (intro conversation_append assms(1)) simp_all
  then show ?thesis unfolding 1(3) by (simp add: conversation_def windows_ok_def)
qed

lemma review_step_conversation:
  assumes "conversation ck r" and "review_step ck r c = Inr r'"
  shows "conversation ck r'"
  using assms
proof (cases c)
  case (Intervention_requested i)
  with assms show ?thesis by (auto simp: requestReviewIntervention_def split: if_splits)
next
  case Human_resumes
  with assms show ?thesis by (auto simp: resumeReview_def conversation_def windows_ok_def split: if_splits)
next
  case (Launch_recorded k f)
  with assms record_launch_conversation show ?thesis by fastforce
qed (use reviewer_command_conversation implementer_command_conversation transition_conversation
    next_round_conversation invalidate_conversation revoke_conversation in fastforce)+

text \<open>No command drops or rewrites an earlier round.\<close>

lemma review_step_history:
  assumes "conversation ck r" and "review_step ck r c = Inr r'"
  shows "prefix (butlast (rounds r)) (rounds r') \<and> length (rounds r) \<le> length (rounds r')"
proof -
  have ne: "rounds r \<noteq> []" using assms(1) by (rule conversation_ne)
  have same: "rounds r' = rounds r \<Longrightarrow> ?thesis" using prefixeq_butlast by auto
  have repl: "rounds r' = butlast (rounds r) @ [x] \<Longrightarrow> ?thesis" for x using ne by auto
  have app: "rounds r' = rounds r @ [x] \<Longrightarrow> ?thesis" for x
    using prefixeq_butlast[of "rounds r"] by (auto intro: prefix_order.trans)
  show ?thesis
  proof (cases c)
    case (Reviewer_acts d)
    with assms(2) obtain x where "rounds r' = butlast (rounds r) @ [x]" by (auto elim: reviewer_command_Inr)
    then show ?thesis by (rule repl)
  next
    case (Implementer_acts d)
    with assms(2) have "rounds r' = rounds r \<or> (\<exists>x. rounds r' = butlast (rounds r) @ [x])"
      by (auto elim: implementer_command_Inr)
    then show ?thesis using same repl by blast
  next
    case (Phase_moves p)
    with assms(2) show ?thesis by (auto simp: transitionReviewPhase_def Let_def try_bind_Inr intro: repl)
  next
    case (Launch_recorded k f)
    with assms record_launch_conversation same show ?thesis by fastforce
  next
    case (Round_begins a b t e)
    with assms(2) obtain x where "rounds r' = rounds r @ [x]" by (auto elim: next_round_Inr)
    then show ?thesis by (rule app)
  next
    case (Intervention_requested i)
    with assms(2) have "rounds r' = rounds r" by (auto simp: requestReviewIntervention_def split: if_splits)
    then show ?thesis by (rule same)
  next
    case Human_resumes
    with assms(2) have "rounds r' = rounds r" by (auto simp: resumeReview_def split: if_splits)
    then show ?thesis by (rule same)
  next
    case (Blocker_invalidated t)
    with assms(2) obtain x where "rounds r' = rounds r @ [x]" by (auto elim: invalidate_Inr)
    then show ?thesis by (rule app)
  next
    case (Approval_revoked n rk)
    with assms(2) obtain x y where "rounds r' = butlast (rounds r) @ [x, y]" by (auto elim: revoke_Inr)
    then show ?thesis using ne by auto
  qed
qed

interpretation review_machine: ranked_machine "review_step ck" "conversation ck"
  "\<lambda>r. int (length (rounds r))" for ck :: "string \<Rightarrow> 'k::linorder"
proof
  show "conversation ck t" if "conversation ck s" "review_step ck s c = Inr t" for s c t
    using that by (rule review_step_conversation)
  show "int (length (rounds s)) \<le> int (length (rounds t))" if "conversation ck s" "review_step ck s c = Inr t" for s c t
    using review_step_history[OF that] by simp
qed

lemma start_conversation:
  assumes "startReview subject reviewer implementer t e = Inr r"
  shows "conversation ck r \<and> rounds r = [fresh_round 1 subject reviewer implementer t] \<and>
    reviewer \<in> set (reviewers e) \<and> (reviewer \<noteq> implementer \<or> reviewers e = [implementer]) \<and>
    reviewStatus r = Awaiting_review"
proof -
  have sep: "requireSeparateReviewer reviewer implementer e = Inr u \<Longrightarrow> reviewer \<noteq> implementer \<or> reviewers e = [implementer]" for u
    by (cases "reviewers e") (auto simp: requireSeparateReviewer_def split: if_splits)
  show ?thesis
    using assms by (auto simp: startReview_def try_bind_Inr requireEligibleReviewer_def conversation_def windows_ok_def
        rounds_ok_snoc[of "[]", simplified] status_cases effective_approval_iff
        currentReviewRound_def split: if_splits dest!: sep)
qed

section \<open>Properties\<close>

lemma conversation_facts:
  assumes "conversation ck r"
  shows "map rd_number (rounds r) = [1..int (length (rounds r))]"
    and "rd \<in> set (butlast (rounds r)) \<Longrightarrow> rd_decision rd \<noteq> None \<and> \<not> effective_approval (rd_decision rd)"
    and "rd \<in> set (rounds r) \<Longrightarrow> rd_response rd = Some a \<Longrightarrow>
      \<exists>c. rd_decision rd = Some (Changes_requested c) \<and> answers (cr_findings c) (ir_resolutions a)"
    and "distinct (map lw_stageKey (stageLaunches r))"
    and "w \<in> set (stageLaunches r) \<Longrightarrow> distinct (lw_fingerprints w) \<and> length (lw_fingerprints w) \<le> 20"
    and "rd \<in> set (rounds r) \<Longrightarrow> rr_change (rd_subject rd) = rr_change (rd_subject (hd (rounds r)))"
proof -
  have ok: "rounds_ok (rounds r)" and w: "windows_ok ck (stageLaunches r)"
    using assms by (simp_all add: conversation_def)
  note rs = ok[unfolded rounds_ok_def]
  show "map rd_number (rounds r) = [1..int (length (rounds r))]" using rs by blast
  show "rr_change (rd_subject rd) = rr_change (rd_subject (hd (rounds r)))" if "rd \<in> set (rounds r)" for rd
    using rs that by blast
  show "rd_decision rd \<noteq> None \<and> \<not> effective_approval (rd_decision rd)" if "rd \<in> set (butlast (rounds r))" for rd
    using rs that by (auto simp only: round_settled_def)
  show "\<exists>c. rd_decision rd = Some (Changes_requested c) \<and> answers (cr_findings c) (ir_resolutions a)"
    if "rd \<in> set (rounds r)" "rd_response rd = Some a" for rd a
  proof -
    have "round_ok rd" using rs that by blast
    with that(2) show ?thesis by (simp add: round_ok_def)
  qed
  show "distinct (map lw_stageKey (stageLaunches r))" using w by (simp add: windows_ok_def)
  show "distinct (lw_fingerprints w) \<and> length (lw_fingerprints w) \<le> 20" if "w \<in> set (stageLaunches r)" for w
    using w that by (simp add: windows_ok_def window_ok_def STAGE_LAUNCH_HISTORY_LIMIT_def)
qed

lemma first_round_change:
  "reachable_by (review_step ck) r s \<Longrightarrow> conversation ck r \<Longrightarrow>
    rr_change (rd_subject (hd (rounds s))) = rr_change (rd_subject (hd (rounds r)))"
proof (induction rule: reachable_by.induct)
  case here
  then show ?case by simp
next
  case (further t c u)
  have t: "conversation ck t" using further.hyps(1) further.prems by (rule review_machine.reachable_inv)
  have u: "conversation ck u" using t further.hyps(2) by (rule review_step_conversation)
  have "rr_change (rd_subject (hd (rounds u))) = rr_change (rd_subject (hd (rounds t)))"
    if new: "rounds u \<noteq> rounds t"
  proof (cases "butlast (rounds t)")
    case Nil
    have differ: "u \<noteq> t" using new by blast
    obtain x where x: "rounds t = [x]" using Nil conversation_ne[OF t] by (cases "rounds t" rule: rev_cases) auto
    have "rr_change (rd_subject (hd (rounds u))) = rr_change (rd_subject x)"
      using further.hyps(2) differ
      by (cases c) (auto simp: x currentReviewRound_def transitionReviewPhase_def Let_def try_bind_Inr recordStageLaunch_def
          requestReviewIntervention_def resumeReview_def split: if_splits
          elim!: reviewer_command_Inr implementer_command_Inr next_round_Inr revoke_Inr invalidate_Inr)
    with x show ?thesis by simp
  next
    case (Cons x xs)
    have h: "hd (rounds t) = x" using Cons by (cases "rounds t") (auto split: if_splits)
    have "prefix (x # xs) (rounds u)" using review_step_history[OF t further.hyps(2)] Cons by simp
    then have "hd (rounds u) = x" by (auto elim: prefixE)
    with h show ?thesis by simp
  qed
  with further show ?case by fastforce
qed

definition sample_change :: reviewed_change where
  "sample_change = Local_branch \<lparr>lb_sourceBranch = ''mission/px-0001'', lb_targetBranch = ''main''\<rparr>"

definition sample_subject :: reviewed_revision where
  "sample_subject = \<lparr>rr_change = sample_change, rr_revision = ''aaa'', rr_baseline = Some ''base''\<rparr>"

definition sample_eligibility :: eligibility where
  "sample_eligibility = \<lparr>reviewers = [''claude'', ''codex'']\<rparr>"

definition sample_review :: review where
  "sample_review = \<lparr>rounds = [fresh_round 1 sample_subject ''claude'' ''codex'' ''2026-01-01T00:00:00Z''],
     intervention_of = None, stageLaunches = [], reviewEvents = []\<rparr>"

definition sample_finding :: review_finding where
  "sample_finding = \<lparr>rf_id = ''f1'', rf_summary = ''no test'', rf_location = None\<rparr>"

definition sample_request :: request_payload where
  "sample_request = \<lparr>rc_revision = Present ''aaa'', rc_decidedAt = ''2026-01-01T01:00:00Z'', rc_comment = None,
     rc_findings = [sample_finding], rc_disposition = None\<rparr>"

definition sample_resolution :: resolution_payload where
  "sample_resolution = \<lparr>su_respondedAt = ''2026-01-01T02:00:00Z'',
     su_resolutions = [\<lparr>fr_findingId = ''f1'', fr_kind = Fixed ''added the test''\<rparr>], su_resultingRevision = ''bbb''\<rparr>"

definition sample_approve :: approve_payload where
  "sample_approve = \<lparr>ac_revision = Present ''aaa'', ac_decidedAt = ''2026-01-01T01:00:00Z'', ac_comment = None,
     ac_source = Local\<rparr>"

definition sample_revocation :: revocation where
  "sample_revocation = \<lparr>rk_revokedAt = ''2026-01-02T00:00:00Z'', rk_revokedBy = ''operator'',
     rk_reason = ''wrong branch'', rk_cause = Some Operator\<rparr>"

definition run_sample :: "review_command list \<Rightarrow> review_error + review" where
  "run_sample = run_steps (review_step (\<lambda>s. s :: string)) sample_review"

lemma start_sample:
  "startReview sample_subject ''claude'' ''codex'' ''2026-01-01T00:00:00Z'' sample_eligibility = Inr sample_review"
  by code_simp

lemma sample_conversation:
  "conversation (\<lambda>s. s :: string) sample_review" "reviewStatus sample_review = Awaiting_review"
  using start_conversation[OF start_sample, of "\<lambda>s. s :: string"] by simp_all

text \<open>C3: The conversation is well formed after any accepted commands. Whatever reviewer,
  implementer, loop and operator do to a started review, its rounds are numbered 1, 2, 3 and on,
  all review the change it was started with, every round but the last carries a decision and no
  approval in force, every recorded response answers each finding of its round exactly once, and
  each stage has one launch window of at most twenty distinct fingerprints.\<close>

theorem conversation_reachable:
  assumes start: "startReview subject reviewer implementer t e = Inr r0"
    and reach: "reachable_by (review_step ck) r0 r"
  shows "map rd_number (rounds r) = [1..int (length (rounds r))] \<and>
    (\<forall>rd\<in>set (rounds r). rr_change (rd_subject rd) = rr_change subject) \<and>
    (\<forall>rd\<in>set (butlast (rounds r)). rd_decision rd \<noteq> None \<and> \<not> effective_approval (rd_decision rd)) \<and>
    (\<forall>rd\<in>set (rounds r). \<forall>a. rd_response rd = Some a \<longrightarrow>
      (\<exists>c. rd_decision rd = Some (Changes_requested c) \<and> answers (cr_findings c) (ir_resolutions a))) \<and>
    distinct (map lw_stageKey (stageLaunches r)) \<and>
    (\<forall>w\<in>set (stageLaunches r). distinct (lw_fingerprints w) \<and> length (lw_fingerprints w) \<le> 20)"
proof -
  have r0: "conversation ck r0" and hd0: "hd (rounds r0) = fresh_round 1 subject reviewer implementer t"
    using start_conversation[OF start, of ck] by simp_all
  have r: "conversation ck r" using reach r0 by (rule review_machine.reachable_inv)
  have "rr_change (rd_subject (hd (rounds r))) = rr_change subject"
    using first_round_change[OF reach r0] hd0 by simp
  then show ?thesis using conversation_facts[OF r] by simp
qed

theorem conversation_reachable_witness:
  "\<exists>r. run_sample [Reviewer_acts (Request_changes sample_request), Launch_recorded ''fixing'' ''h1'',
      Implementer_acts (Submit_resolution sample_resolution),
      Round_begins ''claude'' ''codex'' ''2026-01-01T03:00:00Z'' sample_eligibility] = Inr r \<and>
    map rd_number (rounds r) = [1, 2] \<and> (\<forall>rd\<in>set (rounds r). rr_change (rd_subject rd) = sample_change)"
proof -
  let ?cs = "[Reviewer_acts (Request_changes sample_request), Launch_recorded ''fixing'' ''h1'',
      Implementer_acts (Submit_resolution sample_resolution),
      Round_begins ''claude'' ''codex'' ''2026-01-01T03:00:00Z'' sample_eligibility]"
  have "case run_sample ?cs of Inl _ \<Rightarrow> False | Inr r \<Rightarrow> map rd_number (rounds r) = [1, 2]" by code_simp
  then obtain r where r: "run_sample ?cs = Inr r" "map rd_number (rounds r) = [1, 2]"
    by (cases "run_sample ?cs") auto
  have "reachable_by (review_step (\<lambda>s. s :: string)) sample_review r"
    using r(1) unfolding run_sample_def by (rule run_steps_reachable)
  from conversation_reachable[OF start_sample this] r show ?thesis
    by (simp add: sample_subject_def)
qed

text \<open>No round disappears: every accepted command keeps all rounds before the current one as
  they were and never shortens the conversation, so after any number of commands the earlier
  rounds are still there, unchanged.\<close>

lemma history_is_kept:
  assumes "conversation ck r" and "reachable_by (review_step ck) r s"
  shows "prefix (butlast (rounds r)) (rounds s) \<and> length (rounds r) \<le> length (rounds s)"
  using assms(2,1)
proof (induction rule: reachable_by.induct)
  case here
  then show ?case by (simp add: prefixeq_butlast)
next
  case (further t c u)
  have t: "conversation ck t" using further.hyps(1) further.prems by (rule review_machine.reachable_inv)
  have "prefix (butlast (rounds r)) (butlast (rounds t))"
    using further.IH[OF further.prems] conversation_ne[OF further.prems] conversation_ne[OF t]
    by (cases "rounds t" rule: rev_cases; cases "rounds r" rule: rev_cases) (auto simp: prefix_snoc)
  then show ?case
    using review_step_history[OF t further.hyps(2)] further.IH[OF further.prems]
    by (auto intro: prefix_order.trans)
qed

text \<open>Where an approval enters force and leaves it, among the commands of the conversation.\<close>

lemma review_step_boundary:
  assumes ok: "conversation ck r" and step: "review_step ck r c = Inr r'"
    and changed: "(reviewStatus r = Status_approved) \<noteq> (reviewStatus r' = Status_approved)"
  shows "if reviewStatus r' = Status_approved
    then (\<exists>a. c = Reviewer_acts (Approve a) \<and> reviewStatus r = Awaiting_review \<and>
      rd_phase (currentReviewRound r) = Reviewing \<and> (\<forall>h. ac_source a \<noteq> Mechanical_restoration h))
    else (\<exists>rk. c = Approval_revoked (rd_number (currentReviewRound r)) rk)"
proof (cases c)
  case (Reviewer_acts d)
  show ?thesis
  proof (cases d)
    case (Approve a)
    then have "\<forall>h. ac_source a \<noteq> Mechanical_restoration h"
      using step Reviewer_acts by (auto simp: applyReviewerCommand_def Let_def split: if_splits)
    with Approve Reviewer_acts step show ?thesis
      by (auto simp: status_cases elim!: reviewer_command_Inr)
  next
    case (Request_changes p)
    with Reviewer_acts step changed show ?thesis
      by (auto simp: status_cases effective_approval_iff elim!: reviewer_command_Inr)
  qed
next
  case (Implementer_acts d)
  with step changed show ?thesis
    using implementer_command_decision[of r d r'] by (simp add: status_cases)
next
  case (Phase_moves p)
  then obtain x where "r' = r\<lparr>rounds := butlast (rounds r) @ [x]\<rparr>" "rd_decision x = rd_decision (currentReviewRound r)"
    using step by (auto simp: transitionReviewPhase_def Let_def try_bind_Inr)
  with changed show ?thesis by (simp add: status_cases)
next
  case (Launch_recorded k f)
  with step ok record_launch_conversation have "rounds r' = rounds r" by fastforce
  with changed show ?thesis by (simp add: status_cases currentReviewRound_def)
next
  case (Round_begins a b t e)
  with step changed show ?thesis
    by (auto simp: status_cases effective_approval_iff elim!: next_round_Inr)
next
  case (Intervention_requested i)
  with step changed show ?thesis
    by (auto simp: requestReviewIntervention_def status_cases currentReviewRound_def split: if_splits)
next
  case Human_resumes
  with step changed show ?thesis by (auto simp: resumeReview_def status_cases currentReviewRound_def split: if_splits)
next
  case (Blocker_invalidated t)
  have "\<not> effective_approval (rd_decision (currentReviewRound r))"
    using step Blocker_invalidated conversation_current[OF ok]
    by (auto simp: round_ok_def effective_approval_iff elim!: invalidate_Inr)
  with Blocker_invalidated step changed show ?thesis
    by (auto simp: status_cases effective_approval_iff elim!: invalidate_Inr)
next
  case (Approval_revoked n rk)
  with step show ?thesis by (auto simp: status_cases effective_approval_iff elim!: revoke_Inr)
qed

lemma revoke_effective:
  assumes ok: "conversation ck r" and appr: "rd_decision (currentReviewRound r) = Some (Approved a)"
    and force: "ap_revocation a = None" and safe: "safe_integer (rd_number (currentReviewRound r))"
    and rk: "\<not> blank (rk_reason rk)" "\<not> blank (rk_revokedBy rk)" "\<not> blank (rk_revokedAt rk)"
  obtains r' opened where "revokeApprovedDecision r (rd_number (currentReviewRound r)) rk = Inr r'"
    "conversation ck r'" "reviewStatus r' = Awaiting_review"
    "rounds r' = butlast (rounds r) @
      [(currentReviewRound r)\<lparr>rd_decision := Some (Approved (a\<lparr>ap_revocation := Some rk\<rparr>))\<rparr>, opened]"
    "rd_subject opened = (if superseding_revision a = None \<or> superseding_revision a = Some [] then rd_subject (currentReviewRound r)
       else (rd_subject (currentReviewRound r))\<lparr>rr_revision := the (superseding_revision a)\<rparr>)"
    "rd_reviewer opened = rd_reviewer (currentReviewRound r)" "rd_implementer opened = rd_implementer (currentReviewRound r)"
    "rd_startedAt opened = rk_revokedAt rk"
proof -
  let ?n = "rd_number (currentReviewRound r)"
  have st: "reviewStatus r = Status_approved" using appr force by (simp add: status_cases effective_approval_iff)
  have n: "1 \<le> ?n"
    using ok by (cases "rounds r" rule: rev_cases)
      (auto simp: conversation_def rounds_ok_snoc rounds_ok_def[of "[]"])
  have "\<exists>r'. revokeApprovedDecision r ?n rk = Inr r'"
    using appr force st safe rk n by (auto simp: revokeApprovedDecision_def Let_def)
  then obtain r' where r': "revokeApprovedDecision r ?n rk = Inr r'" ..
  have conv: "conversation ck r'" using ok r' by (rule revoke_conversation)
  from r' show ?thesis
  proof (cases rule: revoke_Inr)
    case (1 b subject)
    have b: "b = a" using 1(1) appr by simp
    let ?y = "fresh_round (?n + 1) subject (rd_reviewer (currentReviewRound r)) (rd_implementer (currentReviewRound r)) (rk_revokedAt rk)"
    let ?k = "(currentReviewRound r)\<lparr>rd_decision := Some (Approved (a\<lparr>ap_revocation := Some rk\<rparr>))\<rparr>"
    have rs: "rounds r' = butlast (rounds r) @ [?k, ?y]" using 1(9) b by simp
    then have cur: "currentReviewRound r' = ?y" by (simp add: currentReviewRound_def nth_append)
    have "reviewStatus r' = Awaiting_review"
      using 1(9) by (simp add: status_cases cur effective_approval_iff)
    then show ?thesis using 1(8) b by (intro that[OF r' conv _ rs]) simp_all
  qed
qed

text \<open>C8: Revocation is a correction, not an edit. On a conversation with an approval in force,
  naming the current round with a reason, an identity and a time, revoking succeeds; it leaves the
  approved round as it was apart from the recorded revocation, and opens the next round for the
  same reviewer and implementer, awaiting review, of the revision that superseded the approved one
  if a branch move was recorded and of the approved one otherwise.\<close>

theorem revocation_opens_review:
  assumes ok: "conversation ck r" and appr: "rd_decision (currentReviewRound r) = Some (Approved a)"
    and force: "ap_revocation a = None" and safe: "safe_integer (rd_number (currentReviewRound r))"
    and rk: "\<not> blank (rk_reason rk)" "\<not> blank (rk_revokedBy rk)" "\<not> blank (rk_revokedAt rk)"
  shows "\<exists>r' kept opened. revokeApprovedDecision r (rd_number (currentReviewRound r)) rk = Inr r' \<and>
    conversation ck r' \<and> reviewStatus r' = Awaiting_review \<and> rounds r' = butlast (rounds r) @ [kept, opened] \<and>
    kept = (currentReviewRound r)\<lparr>rd_decision := Some (Approved (a\<lparr>ap_revocation := Some rk\<rparr>))\<rparr> \<and>
    rr_change (rd_subject opened) = rr_change (rd_subject kept) \<and>
    rr_revision (rd_subject opened) = (case ap_supersession a of
      Some s \<Rightarrow> if ss_supersedingRevision s = [] then rr_revision (rd_subject kept) else ss_supersedingRevision s
    | None \<Rightarrow> rr_revision (rd_subject kept)) \<and>
    rd_reviewer opened = rd_reviewer kept \<and> rd_implementer opened = rd_implementer kept \<and>
    rd_startedAt opened = rk_revokedAt rk"
proof -
  obtain r' opened where facts: "revokeApprovedDecision r (rd_number (currentReviewRound r)) rk = Inr r'"
    "conversation ck r'" "reviewStatus r' = Awaiting_review"
    "rounds r' = butlast (rounds r) @
      [(currentReviewRound r)\<lparr>rd_decision := Some (Approved (a\<lparr>ap_revocation := Some rk\<rparr>))\<rparr>, opened]"
    and subject: "rd_subject opened = (if superseding_revision a = None \<or> superseding_revision a = Some []
       then rd_subject (currentReviewRound r)
       else (rd_subject (currentReviewRound r))\<lparr>rr_revision := the (superseding_revision a)\<rparr>)"
    and same: "rd_reviewer opened = rd_reviewer (currentReviewRound r)"
      "rd_implementer opened = rd_implementer (currentReviewRound r)" "rd_startedAt opened = rk_revokedAt rk"
    by (rule revoke_effective[OF ok appr force safe rk])
  have "rr_change (rd_subject opened) = rr_change (rd_subject (currentReviewRound r))"
    "rr_revision (rd_subject opened) = (case ap_supersession a of
      Some s \<Rightarrow> if ss_supersedingRevision s = [] then rr_revision (rd_subject (currentReviewRound r)) else ss_supersedingRevision s
    | None \<Rightarrow> rr_revision (rd_subject (currentReviewRound r)))"
    by (auto simp: subject superseding_revision_def split: option.splits)
  with facts same have "\<exists>opened. revokeApprovedDecision r (rd_number (currentReviewRound r)) rk = Inr r' \<and>
    conversation ck r' \<and> reviewStatus r' = Awaiting_review \<and>
    rounds r' = butlast (rounds r) @
      [(currentReviewRound r)\<lparr>rd_decision := Some (Approved (a\<lparr>ap_revocation := Some rk\<rparr>))\<rparr>, opened] \<and>
    rr_change (rd_subject opened) = rr_change (rd_subject (currentReviewRound r)) \<and>
    rr_revision (rd_subject opened) = (case ap_supersession a of
      Some s \<Rightarrow> if ss_supersedingRevision s = [] then rr_revision (rd_subject (currentReviewRound r)) else ss_supersedingRevision s
    | None \<Rightarrow> rr_revision (rd_subject (currentReviewRound r))) \<and>
    rd_reviewer opened = rd_reviewer (currentReviewRound r) \<and>
    rd_implementer opened = rd_implementer (currentReviewRound r) \<and> rd_startedAt opened = rk_revokedAt rk"
    by blast
  then show ?thesis by (intro exI[of _ r']) (simp cong: option.case_cong if_cong)
qed

theorem revocation_opens_review_witness:
  "\<exists>r r'. run_sample [Reviewer_acts (Approve sample_approve)] = Inr r \<and>
    revokeApprovedDecision r 1 sample_revocation = Inr r' \<and> reviewStatus r' = Awaiting_review"
proof -
  let ?cs = "[Reviewer_acts (Approve sample_approve)]"
  have "case run_sample ?cs of Inl _ \<Rightarrow> False | Inr r \<Rightarrow> reviewStatus r = Status_approved \<and>
      rd_number (currentReviewRound r) = 1" by code_simp
  then obtain r where r: "run_sample ?cs = Inr r" "reviewStatus r = Status_approved" "rd_number (currentReviewRound r) = 1"
    by (cases "run_sample ?cs") auto
  then obtain a where a: "rd_decision (currentReviewRound r) = Some (Approved a)" "ap_revocation a = None"
    by (auto simp: status_cases effective_approval_iff)
  have "conversation (\<lambda>s. s :: string) sample_review" by (rule sample_conversation)
  then have ok: "conversation (\<lambda>s. s :: string) r"
    using r(1) unfolding run_sample_def by (rule review_machine.run_inv)
  have b: "\<not> blank (rk_reason sample_revocation)" "\<not> blank (rk_revokedBy sample_revocation)"
      "\<not> blank (rk_revokedAt sample_revocation)" "safe_integer 1" by code_simp+
  from revocation_opens_review[OF ok a _ b(1-3)] b(4) r show ?thesis by auto
qed

text \<open>C9: A resolution is accepted exactly when it is complete. On a conversation that awaits the
  implementer, submitting a resolution succeeds if and only if it answers every finding of the
  request once, with evidence or a rationale, and names no other finding, and has a time and a
  resulting revision; the conversation is then ready for the next round.\<close>

theorem resolution_accepted_iff:
  assumes "reviewStatus r = Awaiting_implementation"
    and "rd_decision (currentReviewRound r) = Some (Changes_requested q)"
  shows "(\<exists>r'. applyImplementerCommand r (Submit_resolution p) = Inr r' \<and> reviewStatus r' = Ready_for_next_round) \<longleftrightarrow>
    distinct (map fr_findingId (su_resolutions p)) \<and>
    set (map fr_findingId (su_resolutions p)) = set (map rf_id (cr_findings q)) \<and>
    (\<forall>x\<in>set (su_resolutions p). \<not> blank (explanation (fr_kind x))) \<and>
    \<not> blank (su_respondedAt p) \<and> \<not> blank (su_resultingRevision p)"
proof -
  have "is_ok (applyImplementerCommand r (Submit_resolution p)) \<longleftrightarrow>
    answers (cr_findings q) (su_resolutions p) \<and> \<not> blank (su_respondedAt p) \<and> \<not> blank (su_resultingRevision p)"
    using assms by (auto simp: is_ok_iff applyImplementerCommand_def Let_def try_bind_Inr validate_resolutions_Inr
        change_revision_Inr split: if_splits)
  moreover have "reviewStatus r' = Ready_for_next_round"
    if "applyImplementerCommand r (Submit_resolution p) = Inr r'" for r'
    using that by (cases rule: implementer_command_Inr) (auto simp: status_cases effective_approval_iff)
  ultimately show ?thesis by (auto simp: is_ok_iff answers_def)
qed

theorem resolution_accepted_iff_witness:
  "\<exists>r r'. run_sample [Reviewer_acts (Request_changes sample_request)] = Inr r \<and>
    applyImplementerCommand r (Submit_resolution sample_resolution) = Inr r' \<and> reviewStatus r' = Ready_for_next_round"
proof -
  let ?cs = "[Reviewer_acts (Request_changes sample_request)]"
  have "case run_sample ?cs of Inl _ \<Rightarrow> False | Inr r \<Rightarrow> reviewStatus r = Awaiting_implementation \<and>
      (case rd_decision (currentReviewRound r) of Some (Changes_requested q) \<Rightarrow> cr_findings q = [sample_finding] | _ \<Rightarrow> False)"
    by code_simp
  then obtain r q where r: "run_sample ?cs = Inr r" "reviewStatus r = Awaiting_implementation"
      "rd_decision (currentReviewRound r) = Some (Changes_requested q)" "cr_findings q = [sample_finding]"
    by (cases "run_sample ?cs") (auto split: option.splits reviewer_decision.splits)
  have "distinct (map fr_findingId (su_resolutions sample_resolution)) \<and>
    set (map fr_findingId (su_resolutions sample_resolution)) = set (map rf_id [sample_finding]) \<and>
    (\<forall>x\<in>set (su_resolutions sample_resolution). \<not> blank (explanation (fr_kind x))) \<and>
    \<not> blank (su_respondedAt sample_resolution) \<and> \<not> blank (su_resultingRevision sample_resolution)" by code_simp
  with resolution_accepted_iff[OF r(2,3), of sample_resolution] r show ?thesis by auto
qed

text \<open>Stage launches are recorded once per stage. Recording a launch makes it recorded, leaves
  the windows of all other stages alone, and recording it again changes nothing.\<close>

lemma launch_recorded_once:
  assumes ok: "conversation ck r" and rec: "recordStageLaunch ck r k f = Inr r'"
  shows "hasRecordedStageLaunch r' k f \<and> recordStageLaunch ck r' k f = Inr r' \<and>
    (\<forall>j g. j \<noteq> k \<longrightarrow> hasRecordedStageLaunch r' j g = hasRecordedStageLaunch r j g)"
proof (cases "hasRecordedStageLaunch r k f")
  case True
  with rec show ?thesis by (auto simp: recordStageLaunch_def split: if_splits)
next
  case False
  have w: "windows_ok ck (stageLaunches r)" using ok by (simp add: conversation_def)
  have b: "\<not> blank k" using rec by (auto simp: recordStageLaunch_def split: if_splits)
  let ?w = "\<lparr>lw_stageKey = k, lw_fingerprints = slice_last STAGE_LAUNCH_HISTORY_LIMIT
    ((case window_of (stageLaunches r) k of None \<Rightarrow> [] | Some w \<Rightarrow> lw_fingerprints w) @ [f])\<rparr>"
  have r': "stageLaunches r' = put_window ck (stageLaunches r) k ?w"
    using rec False b by (auto simp: recordStageLaunch_def Let_def)
  have get: "window_of (stageLaunches r') j = (if j = k then Some ?w else window_of (stageLaunches r) j)" for j
    unfolding r' using launch_window_ok[OF w b False] by (intro windows.get_put w) simp
  have "f \<in> set (lw_fingerprints ?w)"
    by (simp add: slice_last_append_one STAGE_LAUNCH_HISTORY_LIMIT_def)
  then have "hasRecordedStageLaunch r' k f" by (simp add: hasRecordedStageLaunch_def get)
  then show ?thesis using b by (auto simp: recordStageLaunch_def hasRecordedStageLaunch_def get)
qed

text \<open>No agent reviews its own work unless it is alone. Every round that starting a review or
  beginning the next round opens has an eligible reviewer, who is the implementer only where the
  configured eligibility is exactly that one family.\<close>

lemma reviewer_is_separate:
  assumes "startReview subject reviewer implementer t e = Inr r \<or> beginNextReviewRound r0 reviewer implementer t e = Inr r"
  shows "rd_reviewer (currentReviewRound r) = reviewer \<and> rd_implementer (currentReviewRound r) = implementer \<and>
    reviewer \<in> set (reviewers e) \<and> (reviewer = implementer \<longrightarrow> reviewers e = [implementer]) \<and>
    reviewStatus r = Awaiting_review"
  using assms
proof
  assume "startReview subject reviewer implementer t e = Inr r"
  from start_conversation[OF this, of "\<lambda>s. s :: string"] show ?thesis by (auto simp: currentReviewRound_def)
next
  assume "beginNextReviewRound r0 reviewer implementer t e = Inr r"
  then show ?thesis
    by (cases rule: next_round_Inr) (auto simp: status_cases effective_approval_iff)
qed

end
