(* ===== verification/Checkpoints.thy ===== *)
theory Checkpoints
  imports Prelude Instants "HOL-Library.AList"
begin

text \<open>
  Checkpoint evidence: \<open>src/src/domain/checkpoint.ts\<close>, with the exact-success coverage of repair
  incidents from \<open>repair-coverage.ts\<close> (the two files import each other) and the blocker type of
  \<open>rebound-policy.ts\<close>.
\<close>

section \<open>Data\<close>

record goal_row =
  gr_criterion :: string
  gr_criterionId :: "string field"
  gr_evidence :: string
  gr_recordedRound :: "int option"
  gr_repairedGate :: "string option"
  gr_repairedGates :: "string list option"
  gr_carriedFrom :: "string option"

record contract_blocker =
  ib_command :: string
  ib_diagnostic :: string
  ib_authorityReason :: string
  ib_proposedCorrection :: string

record repair_occurrence =
  oc_openedMissionRevision :: int
  oc_worktree :: string
  oc_failureRevision :: string
  oc_failureEvidenceId :: string

record covered_occurrence = repair_occurrence +
  co_checkpoint :: string
  co_incidentId :: string
  co_attempt :: int

record exact_execution =
  ex_id :: string
  ex_producer :: string
  ex_startedAt :: string
  ex_completedAt :: string
  ex_exitCode :: int

record exact_coverage =
  ec_producer :: string
  ec_missionId :: string
  ec_worktree :: string
  ec_command :: string
  ec_authorizedGates :: "string list"
  ec_authorizedCriteria :: "string list"
  ec_executionRevision :: string
  ec_executionMissionRevision :: int
  ec_checkpointEvidenceRevision :: int
  ec_verifiedMissionRevision :: int
  ec_execution :: exact_execution
  ec_verifiedOccurrence :: covered_occurrence
  ec_coveredOccurrences :: "covered_occurrence list"

record operator_correction =
  oz_authorizedCriteria :: "string list option"
  oz_authorizedGates :: "string list option"
  oz_blocker :: contract_blocker
  oz_operator :: string
  oz_decision :: string
  oz_evidence :: string
  oz_occurredAt :: string
  oz_missionRevision :: int

record checkpoint_repair =
  rx_incidentId :: string
  rx_command :: string
  rx_authorizedGates :: "string list"
  rx_authorizedCriteria :: "string list"
  rx_attempt :: int
  rx_evidenceRecorded :: bool
  rx_verified :: bool
  rx_occurrence :: "repair_occurrence option"
  rx_exactSuccessCoverage :: "exact_coverage option"
  rx_blocker :: "contract_blocker option"
  rx_acknowledgedBlocker :: "contract_blocker option"
  rx_acknowledgedBy :: "string option"
  rx_acknowledgedAt :: "string option"
  rx_corrections :: "operator_correction list option"

record recording =
  rg_recordedAt :: string
  rg_recordedRound :: "int option"
  rg_missionRevision :: int

record checkpoint =
  cp_missionId :: string
  cp_recording :: "recording option"
  cp_name :: string
  cp_rawFilename :: "string option"
  cp_firstLine :: "string option"
  cp_repair :: "checkpoint_repair option"
  cp_goalCheck :: "goal_row list"
  cp_nextActionText :: string

datatype checkpoint_error =
    Not_review_ready string | Goal_criterion_empty | Goal_evidence_empty | Foreign_evidence
  | Checkpoint_name_shape string | Checkpoint_description_invalid | Already_planned string

section \<open>Recording and planning\<close>

text \<open>\<open>/^CP-\d+$/\<close>.\<close>

definition isCheckpointName :: "string \<Rightarrow> bool" where
  "isCheckpointName value = (case strip_prefix ''CP-'' value of Some ds \<Rightarrow> all_digits ds | None \<Rightarrow> False)"

definition isReviewPreparationReadyCheckpoint :: "checkpoint \<Rightarrow> bool" where
  "isReviewPreparationReadyCheckpoint cp \<longleftrightarrow>
     isCheckpointName (cp_name cp) \<and> cp_goalCheck cp \<noteq> [] \<and> trim (cp_nextActionText cp) \<noteq> []"

fun assertGoalCheckRows :: "goal_row list \<Rightarrow> checkpoint_error + unit" where
  "assertGoalCheckRows [] = Inr ()"
| "assertGoalCheckRows (row # rows) =
     (if blank (gr_criterion row) then Inl Goal_criterion_empty
      else if blank (gr_evidence row) then Inl Goal_evidence_empty
      else assertGoalCheckRows rows)"

text \<open>\<open>Number(name.slice(3))\<close>, for the names \<open>isCheckpointName\<close> accepts.\<close>

definition checkpoint_number :: "string \<Rightarrow> nat" where
  "checkpoint_number name = digits_val (drop 3 name)"

definition byNumber :: "checkpoint list \<Rightarrow> checkpoint list" where
  "byNumber checkpoints = sort_key (\<lambda>cp. checkpoint_number (cp_name cp)) checkpoints"

definition checkpoint_named :: "checkpoint list \<Rightarrow> string \<Rightarrow> checkpoint option" where
  "checkpoint_named checkpoints name = find_first (\<lambda>cp. cp_name cp = name) checkpoints"

text \<open>\<open>byNumber([...checkpoints.filter(other name), recorded])\<close>.\<close>

definition put_checkpoint :: "checkpoint list \<Rightarrow> string \<Rightarrow> checkpoint \<Rightarrow> checkpoint list" where
  "put_checkpoint checkpoints name cp = byNumber (filter (\<lambda>c. cp_name c \<noteq> name) checkpoints @ [cp])"

definition has_text :: "string option \<Rightarrow> bool" where
  "has_text t \<longleftrightarrow> default_to [] t \<noteq> []"

definition recordCheckpoint :: "checkpoint list \<Rightarrow> checkpoint \<Rightarrow> checkpoint_error + checkpoint list" where
  "recordCheckpoint checkpoints replacement =
     (if \<not> isReviewPreparationReadyCheckpoint replacement then Inl (Not_review_ready (cp_name replacement))
      else try_bind (assertGoalCheckRows (cp_goalCheck replacement)) (\<lambda>_.
        if list_ex (\<lambda>cp. cp_missionId cp \<noteq> cp_missionId replacement) checkpoints then Inl Foreign_evidence
        else let planned = checkpoint_named checkpoints (cp_name replacement);
                 plannedLine = (case planned of None \<Rightarrow> None | Some p \<Rightarrow> cp_firstLine p);
                 recorded = (if has_text (cp_firstLine replacement) \<or> \<not> has_text plannedLine then replacement
                             else replacement\<lparr>cp_firstLine := plannedLine\<rparr>) in
          Inr (put_checkpoint checkpoints (cp_name replacement) recorded)))"

definition planCheckpoint ::
  "checkpoint list \<Rightarrow> string \<Rightarrow> string \<Rightarrow> string \<Rightarrow> checkpoint_error + checkpoint list" where
  "planCheckpoint checkpoints missionId name description =
     (if \<not> isCheckpointName name then Inl (Checkpoint_name_shape name)
      else let text = trim description in
        if text = [] \<or> 512 < length text then Inl Checkpoint_description_invalid
        else if list_ex (\<lambda>cp. cp_name cp = name) checkpoints then Inl (Already_planned name)
        else Inr (byNumber (checkpoints @ [\<lparr>cp_missionId = missionId, cp_recording = None, cp_name = name,
          cp_rawFilename = None, cp_firstLine = Some text, cp_repair = None, cp_goalCheck = [],
          cp_nextActionText = []\<rparr>])))"

definition isPlannedCheckpoint :: "checkpoint \<Rightarrow> bool" where
  "isPlannedCheckpoint cp \<longleftrightarrow> cp_goalCheck cp = [] \<and> \<not> has_text (cp_rawFilename cp)"

definition latestEvidencedCheckpoint :: "checkpoint list \<Rightarrow> checkpoint option" where
  "latestEvidencedCheckpoint checkpoints = find_first (\<lambda>cp. \<not> isPlannedCheckpoint cp) (rev checkpoints)"

section \<open>Coverage of criteria\<close>

text \<open>The identities the rows of the checkpoints name: their criterion ids where the caller compares
  ids, their texts otherwise. A row with an empty criterion covers nothing.\<close>

definition covered_identities :: "goal_row list list \<Rightarrow> bool \<Rightarrow> string list" where
  "covered_identities checks by_id =
     concat (map (\<lambda>rows. List.map_filter (\<lambda>row.
       if gr_criterion row = [] then None
       else Some (if by_id then default_to [] (given (gr_criterionId row)) else gr_criterion row)) rows) checks)"

definition uncoveredCriteria :: "goal_row list list \<Rightarrow> string list \<Rightarrow> string list option \<Rightarrow> string list" where
  "uncoveredCriteria checks requiredCriteria identities =
     (let covered = covered_identities checks (identities \<noteq> None);
          identity = (\<lambda>(index, criterion). case identities of
              None \<Rightarrow> criterion
            | Some ids \<Rightarrow> default_to criterion (nth_opt ids index)) in
       map snd (filter (\<lambda>e. identity e \<notin> set covered) (enumerate 0 requiredCriteria)))"

definition uncoveredCompletedCriteria ::
  "goal_row list list \<Rightarrow> string list \<Rightarrow> nat list \<Rightarrow> string list option \<Rightarrow> string list" where
  "uncoveredCompletedCriteria checks successCriteria completedSuccessCriteria identities =
     (let pick = (\<lambda>xs. map snd (filter (\<lambda>(index, _). index \<in> set completedSuccessCriteria) (enumerate 0 xs))) in
       uncoveredCriteria checks (pick successCriteria) (map_option pick identities))"

definition row_key :: "goal_row \<Rightarrow> string" where
  "row_key row = default_to (gr_criterion row) (given (gr_criterionId row))"

text \<open>A JavaScript \<open>Map\<close> is an association list in insertion order; setting a present key keeps its
  place, as \<^const>\<open>AList.update\<close> does.\<close>

definition prior_map :: "goal_row list \<Rightarrow> (string \<times> goal_row) list" where
  "prior_map priorRows = foldl (\<lambda>m row. AList.update (row_key row) row m) [] priorRows"

definition retain_key :: "goal_row list \<Rightarrow> (string \<times> goal_row) list \<Rightarrow> goal_row \<Rightarrow> string" where
  "retain_key priorRows m row =
     (let key = row_key row; textMatch = find_first (\<lambda>prior. gr_criterion prior = gr_criterion row) priorRows in
       if map_of m key \<noteq> None then key
       else case textMatch of None \<Rightarrow> key | Some prior \<Rightarrow> row_key prior)"

definition retainPriorGoalCheckRows :: "goal_row list \<Rightarrow> goal_row list \<Rightarrow> goal_row list" where
  "retainPriorGoalCheckRows priorRows newRows =
     (if priorRows = [] then newRows
      else map snd (foldl (\<lambda>m row. AList.update (retain_key priorRows m row) row m) (prior_map priorRows) newRows))"

definition carriedGoalCheckRows :: "checkpoint list \<Rightarrow> goal_row list" where
  "carriedGoalCheckRows checkpoints =
     (case at_last (byNumber (filter (\<lambda>cp. cp_goalCheck cp \<noteq> [] \<and>
        (case cp_repair cp of None \<Rightarrow> True | Some repair \<Rightarrow> rx_verified repair)) checkpoints)) of
        None \<Rightarrow> []
      | Some source \<Rightarrow> map (\<lambda>row. row\<lparr>gr_carriedFrom := Some (cp_name source)\<rparr>) (cp_goalCheck source))"

definition freshGoalCheckRows :: "goal_row list \<Rightarrow> goal_row list" where
  "freshGoalCheckRows rows = filter (\<lambda>row. gr_carriedFrom row = None) rows"

section \<open>What an open repair still owes\<close>

record integration_incident =
  ii_round :: int
  ii_startedAt :: string

record open_repair =
  or_round :: int
  or_affected :: "string list"
  or_gate :: "string option"
  or_integrationIncident :: "integration_incident option"

definition not_before :: "string \<Rightarrow> string \<Rightarrow> bool" where
  "not_before later earlier = (case (date_parse later, date_parse earlier) of
     (Some l, Some e) \<Rightarrow> l \<ge> e | _ \<Rightarrow> False)"

definition incidentEvidenceIsFresh :: "checkpoint \<Rightarrow> goal_row \<Rightarrow> open_repair \<Rightarrow> bool" where
  "incidentEvidenceIsFresh cp row repair =
     (case or_integrationIncident repair of
        None \<Rightarrow> False
      | Some incident \<Rightarrow>
          (case cp_repair cp of
             None \<Rightarrow> False
           | Some r \<Rightarrow>
               rx_evidenceRecorded r \<and> rx_verified r \<and>
               (case cp_recording cp of
                  None \<Rightarrow> False
                | Some rg \<Rightarrow> not_before (rg_recordedAt rg) (ii_startedAt incident)) \<and>
               (case or_gate repair of
                  None \<Rightarrow> False
                | Some gate \<Rightarrow> gate \<noteq> [] \<and> (rx_command r = gate \<or> gate \<in> set (rx_authorizedGates r))) \<and>
               gr_recordedRound row = Some (ii_round incident) \<and> \<not> has_text (gr_carriedFrom row)))"

definition staleRepairCriteria :: "checkpoint list \<Rightarrow> open_repair \<Rightarrow> string list" where
  "staleRepairCriteria checkpoints repair =
     (let fresh = concat (map (\<lambda>cp. map gr_criterion (filter (\<lambda>row.
            gr_recordedRound row = Some (or_round repair) \<or> incidentEvidenceIsFresh cp row repair)
            (cp_goalCheck cp))) checkpoints) in
       if or_affected repair = [] then (if fresh \<noteq> [] then [] else [''(any)''])
       else filter (\<lambda>criterion. criterion \<notin> set fresh) (or_affected repair))"

section \<open>Exact-success coverage\<close>

definition sameRepairAuthority :: "string list \<Rightarrow> string list \<Rightarrow> bool" where
  "sameRepairAuthority left right \<longleftrightarrow> left = right"

definition repairOccurrence :: "checkpoint \<Rightarrow> covered_occurrence option" where
  "repairOccurrence cp =
     (case cp_repair cp of
        None \<Rightarrow> None
      | Some repair \<Rightarrow>
          (case rx_occurrence repair of
             None \<Rightarrow> None
           | Some occ \<Rightarrow>
               if \<not> safe_integer (oc_openedMissionRevision occ) \<or> oc_openedMissionRevision occ < 1 \<or>
                  oc_worktree occ = [] \<or> oc_failureRevision occ = [] \<or> oc_failureEvidenceId occ = []
               then None
               else Some \<lparr>oc_openedMissionRevision = oc_openedMissionRevision occ, oc_worktree = oc_worktree occ,
                 oc_failureRevision = oc_failureRevision occ, oc_failureEvidenceId = oc_failureEvidenceId occ,
                 co_checkpoint = cp_name cp, co_incidentId = rx_incidentId repair, co_attempt = rx_attempt repair\<rparr>))"

definition sameRepairOccurrence :: "covered_occurrence \<Rightarrow> covered_occurrence \<Rightarrow> bool" where
  "sameRepairOccurrence left right \<longleftrightarrow>
     co_checkpoint left = co_checkpoint right \<and> co_incidentId left = co_incidentId right \<and>
     co_attempt left = co_attempt right \<and>
     oc_openedMissionRevision left = oc_openedMissionRevision right \<and> oc_worktree left = oc_worktree right \<and>
     oc_failureRevision left = oc_failureRevision right \<and>
     oc_failureEvidenceId left = oc_failureEvidenceId right"

definition validExactExecution :: "exact_execution \<Rightarrow> bool" where
  "validExactExecution execution \<longleftrightarrow>
     ex_producer execution = ''rebound-exact-verifier'' \<and> ex_id execution \<noteq> [] \<and> ex_exitCode execution = 0 \<and>
     date_parse (ex_startedAt execution) \<noteq> None \<and> date_parse (ex_completedAt execution) \<noteq> None \<and>
     not_before (ex_completedAt execution) (ex_startedAt execution)"

definition validCoverageRevisions :: "exact_coverage \<Rightarrow> covered_occurrence \<Rightarrow> bool" where
  "validCoverageRevisions receipt own \<longleftrightarrow>
     ec_checkpointEvidenceRevision receipt \<ge> oc_openedMissionRevision own \<and>
     ec_executionMissionRevision receipt \<ge> ec_checkpointEvidenceRevision receipt \<and>
     ec_verifiedMissionRevision receipt > ec_executionMissionRevision receipt"

definition validCoverageLinks :: "checkpoint \<Rightarrow> checkpoint_repair \<Rightarrow> exact_coverage \<Rightarrow> covered_occurrence \<Rightarrow> bool" where
  "validCoverageLinks source repair receipt own \<longleftrightarrow>
     ec_producer receipt = ''harness-exact-check'' \<and> ec_missionId receipt = cp_missionId source \<and>
     ec_worktree receipt = oc_worktree own \<and> ec_command receipt = rx_command repair \<and>
     ec_executionRevision receipt \<noteq> [] \<and> sameRepairOccurrence (ec_verifiedOccurrence receipt) own \<and>
     map_option rg_missionRevision (cp_recording source) = Some (ec_checkpointEvidenceRevision receipt) \<and>
     validCoverageRevisions receipt own \<and> validExactExecution (ec_execution receipt)"

definition acceptedCoverageSource :: "checkpoint \<Rightarrow> exact_coverage option" where
  "acceptedCoverageSource source =
     (case cp_repair source of
        None \<Rightarrow> None
      | Some repair \<Rightarrow>
          (case (rx_exactSuccessCoverage repair, repairOccurrence source) of
             (Some receipt, Some own) \<Rightarrow>
               if \<not> rx_verified repair \<or> rx_blocker repair \<noteq> None \<or> \<not> rx_evidenceRecorded repair \<or>
                  freshGoalCheckRows (cp_goalCheck source) = []
               then None
               else if validCoverageLinks source repair receipt own then Some receipt else None
           | _ \<Rightarrow> None))"

definition compatibleCoverageAuthority ::
  "exact_coverage \<Rightarrow> checkpoint_repair \<Rightarrow> checkpoint_repair \<Rightarrow> string list option \<Rightarrow> string list option \<Rightarrow> bool" where
  "compatibleCoverageAuthority receipt source target gates criteria \<longleftrightarrow>
     sameRepairAuthority (ec_authorizedGates receipt) (rx_authorizedGates source) \<and>
     sameRepairAuthority (ec_authorizedCriteria receipt) (rx_authorizedCriteria source) \<and>
     sameRepairAuthority (ec_authorizedGates receipt) (rx_authorizedGates target) \<and>
     sameRepairAuthority (ec_authorizedCriteria receipt) (rx_authorizedCriteria target) \<and>
     (case gates of None \<Rightarrow> True | Some gs \<Rightarrow> sameRepairAuthority (ec_authorizedGates receipt) gs) \<and>
     (case criteria of None \<Rightarrow> True | Some cs \<Rightarrow> sameRepairAuthority (ec_authorizedCriteria receipt) cs)"

text \<open>The closure \<open>checkpoints.some\<close> tests each source with.\<close>

definition covering_source ::
  "checkpoint \<Rightarrow> covered_occurrence \<Rightarrow> checkpoint_repair \<Rightarrow> string list option \<Rightarrow> string list option \<Rightarrow>
    checkpoint \<Rightarrow> bool" where
  "covering_source cp target targetRepair gates criteria source =
     (case (acceptedCoverageSource source, cp_repair source) of
        (Some receipt, Some sourceRepair) \<Rightarrow>
          if cp_missionId source \<noteq> cp_missionId cp \<or> ec_worktree receipt \<noteq> oc_worktree target \<or>
             ec_command receipt \<noteq> rx_command targetRepair \<or>
             \<not> compatibleCoverageAuthority receipt sourceRepair targetRepair gates criteria
          then False
          else list_ex (\<lambda>item. sameRepairOccurrence item target \<and>
            oc_openedMissionRevision item \<le> ec_executionMissionRevision receipt) (ec_coveredOccurrences receipt)
      | _ \<Rightarrow> False)"

definition isExplicitlyCovered ::
  "checkpoint \<Rightarrow> checkpoint list \<Rightarrow> string list option \<Rightarrow> string list option \<Rightarrow> string option \<Rightarrow> bool" where
  "isExplicitlyCovered cp checkpoints gates criteria worktree =
     (case (repairOccurrence cp, cp_repair cp) of
        (Some target, Some targetRepair) \<Rightarrow>
          if rx_blocker targetRepair \<noteq> None \<or> (has_text worktree \<and> Some (oc_worktree target) \<noteq> worktree) then False
          else list_ex (covering_source cp target targetRepair gates criteria) checkpoints
      | _ \<Rightarrow> False)"

definition effectiveRepairObligations ::
  "checkpoint list \<Rightarrow> string list option \<Rightarrow> string list option \<Rightarrow> string option \<Rightarrow> checkpoint list" where
  "effectiveRepairObligations checkpoints gates criteria worktree =
     filter (\<lambda>cp. case cp_repair cp of
         None \<Rightarrow> False
       | Some repair \<Rightarrow> \<not> rx_verified repair \<and> \<not> isExplicitlyCovered cp checkpoints gates criteria worktree)
       checkpoints"

definition missingCheckpointEvidence ::
  "checkpoint list \<Rightarrow> string list option \<Rightarrow> string list option \<Rightarrow> checkpoint list" where
  "missingCheckpointEvidence checkpoints gates criteria =
     filter (\<lambda>cp. cp_goalCheck cp = [] \<or> (case cp_repair cp of
         None \<Rightarrow> False
       | Some repair \<Rightarrow> \<not> rx_evidenceRecorded repair \<and> \<not> isExplicitlyCovered cp checkpoints gates criteria None))
       checkpoints"

section \<open>Review boundaries\<close>

record success_criterion =
  sc_id :: string
  sc_text :: string

record checkpoint_version =
  cv_version :: int
  cv_checkpoint :: checkpoint
  cv_recordedAt :: "string option"
  cv_recordedRound :: "int option"
  cv_missionRevision :: "int option"

record review_checkpoint_state =
  rs_round :: int
  rs_versions :: "int list"
  rs_successCriteria :: "success_criterion list field"
  rs_uncoveredCriterionIds :: "string list field"
  rs_checkpoints :: "checkpoint list"

definition captureReviewCheckpointState ::
  "int \<Rightarrow> checkpoint list \<Rightarrow> checkpoint_version list \<Rightarrow> success_criterion list \<Rightarrow> review_checkpoint_state" where
  "captureReviewCheckpointState rnd checkpoints history successCriteria =
     (let uncovered = uncoveredCriteria (map cp_goalCheck checkpoints) (map sc_text successCriteria)
            (Some (map sc_id successCriteria)) in
      \<lparr>rs_round = rnd,
       rs_versions = concat (map (\<lambda>cp. case find_first (\<lambda>item. cp_name (cv_checkpoint item) = cp_name cp) (rev history) of
           None \<Rightarrow> [] | Some current \<Rightarrow> [cv_version current]) checkpoints),
       rs_successCriteria = Present successCriteria,
       rs_uncoveredCriterionIds = Present (map sc_id (filter (\<lambda>item. sc_text item \<in> set uncovered) successCriteria)),
       rs_checkpoints = checkpoints\<rparr>)"

section \<open>Lemmas\<close>

lemma goal_rows_Inr [outcome]: "assertGoalCheckRows rows = Inr u \<longleftrightarrow>
    (\<forall>row\<in>set rows. \<not> blank (gr_criterion row) \<and> \<not> blank (gr_evidence row))"
  by (induction rows rule: assertGoalCheckRows.induct) auto

lemma byNumber_simps [simp]:
  "set (byNumber cps) = set cps" "length (byNumber cps) = length cps"
  "distinct (map cp_name (byNumber cps)) = distinct (map cp_name cps)"
  "sorted (map (\<lambda>cp. checkpoint_number (cp_name cp)) (byNumber cps))"
  by (simp_all add: byNumber_def distinct_map distinct_sort)

lemma named_byNumber:
  assumes "distinct (map cp_name cps)"
  shows "checkpoint_named (byNumber cps) name = checkpoint_named cps name"
  unfolding checkpoint_named_def byNumber_def
  by (rule find_sort_key_distinct) (use assms in \<open>auto simp: distinct_map dest: inj_onD\<close>)

lemma named_filter: "j \<noteq> name \<Longrightarrow>
    checkpoint_named (filter (\<lambda>c. cp_name c \<noteq> name) cps) j = checkpoint_named cps j"
  by (induction cps) (auto simp: checkpoint_named_def)

lemma named_append: "checkpoint_named (xs @ ys) n =
    (case checkpoint_named xs n of None \<Rightarrow> checkpoint_named ys n | Some x \<Rightarrow> Some x)"
  by (induction xs) (auto simp: checkpoint_named_def)

text \<open>A checkpoint list of one mission: its names are distinct and in the order of their numbers.\<close>

definition checkpoints_ok :: "checkpoint list \<Rightarrow> bool" where
  "checkpoints_ok cps \<longleftrightarrow> distinct (map cp_name cps) \<and>
     sorted (map (\<lambda>cp. checkpoint_number (cp_name cp)) cps)"

lemma distinct_put_checkpoint: "distinct (map cp_name cps) \<Longrightarrow> cp_name cp = n \<Longrightarrow>
    distinct (map cp_name (filter (\<lambda>c. cp_name c \<noteq> n) cps @ [cp]))"
  by (auto simp: distinct_map inj_on_def)

interpretation checkpoint_store: keyed_store checkpoint_named put_checkpoint checkpoints_ok
  "\<lambda>name cp. cp_name (cp :: checkpoint) = name"
proof
  fix m k v j
  assume ok: "checkpoints_ok m" and fits: "cp_name (v :: checkpoint) = k"
  have d: "distinct (map cp_name (filter (\<lambda>c. cp_name c \<noteq> k) m @ [v]))"
    using ok fits by (intro distinct_put_checkpoint) (simp_all add: checkpoints_ok_def)
  have none: "checkpoint_named (filter (\<lambda>c. cp_name c \<noteq> k) m) k = None"
    by (simp add: checkpoint_named_def find_first_None)
  show "checkpoint_named (put_checkpoint m k v) k = Some v"
    unfolding put_checkpoint_def named_byNumber[OF d] named_append none using fits
    by (simp add: checkpoint_named_def)
  show "checkpoints_ok (put_checkpoint m k v)"
    using d by (simp add: checkpoints_ok_def put_checkpoint_def)
  show "checkpoint_named (put_checkpoint m k v) j = checkpoint_named m j" if "j \<noteq> k"
    unfolding put_checkpoint_def named_byNumber[OF d] named_append named_filter[OF that]
    using that fits by (auto simp: checkpoint_named_def split: option.splits)
qed

lemma record_Inr:
  assumes "recordCheckpoint cps r = Inr cps'"
  obtains recorded where "isReviewPreparationReadyCheckpoint r"
    "\<forall>row\<in>set (cp_goalCheck r). \<not> blank (gr_criterion row) \<and> \<not> blank (gr_evidence row)"
    "\<forall>cp\<in>set cps. cp_missionId cp = cp_missionId r"
    "cps' = put_checkpoint cps (cp_name r) recorded" "cp_name recorded = cp_name r"
    "recorded = r \<or> (\<not> has_text (cp_firstLine r) \<and> (\<exists>p. checkpoint_named cps (cp_name r) = Some p \<and>
       has_text (cp_firstLine p) \<and> recorded = r\<lparr>cp_firstLine := cp_firstLine p\<rparr>))"
  using assms
  by (auto simp: recordCheckpoint_def Let_def try_bind_Inr goal_rows_Inr list_ex_iff has_text_def
      split: if_splits option.splits intro!: that)

lemma plan_Inr:
  "planCheckpoint cps m n d = Inr cps' \<longleftrightarrow> isCheckpointName n \<and> trim d \<noteq> [] \<and> length (trim d) \<le> 512 \<and>
    n \<notin> cp_name ` set cps \<and>
    cps' = byNumber (cps @ [\<lparr>cp_missionId = m, cp_recording = None, cp_name = n, cp_rawFilename = None,
      cp_firstLine = Some (trim d), cp_repair = None, cp_goalCheck = [], cp_nextActionText = []\<rparr>])"
  by (auto simp: planCheckpoint_def Let_def list_ex_iff)

lemma plan_is_put: "n \<notin> cp_name ` set cps \<Longrightarrow> byNumber (cps @ [cp]) = put_checkpoint cps n cp"
proof -
  assume "n \<notin> cp_name ` set cps"
  then have "filter (\<lambda>c. cp_name c \<noteq> n) cps = cps" by (auto intro: filter_True)
  then show ?thesis by (simp add: put_checkpoint_def)
qed

lemma record_then_named:
  assumes ok: "checkpoints_ok cps" and r: "recordCheckpoint cps r = Inr cps'"
  shows "checkpoints_ok cps' \<and> (\<exists>recorded. checkpoint_named cps' (cp_name r) = Some recorded \<and>
      cp_goalCheck recorded = cp_goalCheck r \<and> cp_missionId recorded = cp_missionId r \<and>
      recorded = r\<lparr>cp_firstLine := cp_firstLine recorded\<rparr> \<and>
      (has_text (cp_firstLine r) \<longrightarrow> cp_firstLine recorded = cp_firstLine r) \<and>
      (\<forall>p. \<not> has_text (cp_firstLine r) \<longrightarrow> checkpoint_named cps (cp_name r) = Some p \<longrightarrow> has_text (cp_firstLine p) \<longrightarrow>
        recorded = r \<or> cp_firstLine recorded = cp_firstLine p)) \<and>
    (\<forall>j. j \<noteq> cp_name r \<longrightarrow> checkpoint_named cps' j = checkpoint_named cps j)"
  using r
proof (cases rule: record_Inr)
  case (1 recorded)
  have get: "checkpoint_named cps' j = (if j = cp_name r then Some recorded else checkpoint_named cps j)" for j
    unfolding 1(4) by (rule checkpoint_store.get_put[OF ok 1(5)])
  have "checkpoints_ok cps'" unfolding 1(4) by (rule checkpoint_store.put_ok[OF ok 1(5)])
  with 1(6) show ?thesis by (auto simp: get)
qed

section \<open>Coverage\<close>

lemma covered_set: "set (covered_identities checks by_id) =
    {if by_id then default_to [] (given (gr_criterionId row)) else gr_criterion row | row rows.
      rows \<in> set checks \<and> row \<in> set rows \<and> gr_criterion row \<noteq> []}"
  by (auto simp: covered_identities_def List.map_filter_def split: if_splits)

lemma uncovered_by_text:
  "uncoveredCriteria checks required None =
    filter (\<lambda>c. \<forall>rows\<in>set checks. \<forall>row\<in>set rows. gr_criterion row = c \<longrightarrow> c = []) required"
proof -
  have e: "map snd (filter (\<lambda>e. P (snd e)) (enumerate n xs)) = filter P xs" for P and xs :: "string list" and n
    by (induction xs arbitrary: n) auto
  have "uncoveredCriteria checks required None = filter (\<lambda>c. c \<notin> set (covered_identities checks False)) required"
    using e[of "\<lambda>c. c \<notin> set (covered_identities checks False)" 0 required]
    by (simp add: uncoveredCriteria_def Let_def case_prod_beta)
  also have "\<dots> = filter (\<lambda>c. \<forall>rows\<in>set checks. \<forall>row\<in>set rows. gr_criterion row = c \<longrightarrow> c = []) required"
    by (rule filter_cong) (auto simp: covered_set)
  finally show ?thesis .
qed

lemma uncovered_subseq: "subseq (uncoveredCriteria checks required ids) required"
proof -
  have "subseq (filter P (enumerate n xs)) (enumerate n xs)" for P and xs :: "string list" and n by simp
  then have "subseq (map snd (filter P (enumerate n xs))) (map snd (enumerate n xs))" for P and xs :: "string list" and n
    by (rule subseq_map)
  then show ?thesis by (simp add: uncoveredCriteria_def Let_def)
qed

lemma uncovered_mono:
  assumes "set checks \<subseteq> set extra"
  shows "set (uncoveredCriteria extra required ids) \<subseteq> set (uncoveredCriteria checks required ids)"
proof -
  have "set (covered_identities checks b) \<subseteq> set (covered_identities extra b)" for b
    using assms unfolding covered_set by blast
  then show ?thesis unfolding uncoveredCriteria_def Let_def set_map set_filter by (intro image_mono) blast
qed

section \<open>Coverage receipts\<close>

lemma accepted_source_iff:
  "acceptedCoverageSource source = Some receipt \<longleftrightarrow> (\<exists>repair own. cp_repair source = Some repair \<and>
    rx_exactSuccessCoverage repair = Some receipt \<and> repairOccurrence source = Some own \<and> rx_verified repair \<and>
    rx_blocker repair = None \<and> rx_evidenceRecorded repair \<and> freshGoalCheckRows (cp_goalCheck source) \<noteq> [] \<and>
    validCoverageLinks source repair receipt own)"
  by (auto simp: acceptedCoverageSource_def split: option.splits if_splits)

lemma not_before_iff: "not_before l e \<longleftrightarrow>
    (\<exists>tl te. date_parse l = Some tl \<and> date_parse e = Some te \<and> te \<le> tl)"
  by (auto simp: not_before_def split: option.splits)

lemma covered_obtains:
  assumes "isExplicitlyCovered cp cps gates criteria worktree"
  obtains source receipt repair target targetRepair item where
    "source \<in> set cps" "acceptedCoverageSource source = Some receipt" "cp_repair source = Some repair"
    "repairOccurrence cp = Some target" "cp_repair cp = Some targetRepair" "rx_blocker targetRepair = None"
    "cp_missionId source = cp_missionId cp" "ec_worktree receipt = oc_worktree target"
    "ec_command receipt = rx_command targetRepair"
    "compatibleCoverageAuthority receipt repair targetRepair gates criteria"
    "item \<in> set (ec_coveredOccurrences receipt)" "sameRepairOccurrence item target"
    "oc_openedMissionRevision item \<le> ec_executionMissionRevision receipt"
proof -
  obtain target targetRepair where t: "repairOccurrence cp = Some target" "cp_repair cp = Some targetRepair"
    using assms by (auto simp: isExplicitlyCovered_def split: option.splits)
  then have b: "rx_blocker targetRepair = None" using assms by (auto simp: isExplicitlyCovered_def split: if_splits)
  have "list_ex (covering_source cp target targetRepair gates criteria) cps"
    using assms t b by (simp add: isExplicitlyCovered_def split: if_splits)
  then obtain source where s: "source \<in> set cps" "covering_source cp target targetRepair gates criteria source"
    by (auto simp: list_ex_iff)
  then show ?thesis
    using t b that by (auto simp: covering_source_def list_ex_iff split: option.splits if_splits)
qed

section \<open>Properties\<close>

text \<open>C33: Recording evidence is a keyed update. An accepted record is found again under its name
  with its own rows; if it supplies no description it takes over the planned one, and nothing else
  of it changes; every other checkpoint keeps its entry; and the list stays sorted by number with
  distinct names.\<close>

theorem record_checkpoint_store:
  assumes ok: "checkpoints_ok cps" and rec: "recordCheckpoint cps r = Inr cps'"
  shows "checkpoints_ok cps' \<and> (\<forall>j. j \<noteq> cp_name r \<longrightarrow> checkpoint_named cps' j = checkpoint_named cps j) \<and>
    checkpoint_named cps' (cp_name r) = Some (if has_text (cp_firstLine r) then r
      else case checkpoint_named cps (cp_name r) of
          None \<Rightarrow> r
        | Some p \<Rightarrow> if has_text (cp_firstLine p) then r\<lparr>cp_firstLine := cp_firstLine p\<rparr> else r)"
proof -
  let ?rec = "if has_text (cp_firstLine r) then r else case checkpoint_named cps (cp_name r) of
      None \<Rightarrow> r | Some p \<Rightarrow> if has_text (cp_firstLine p) then r\<lparr>cp_firstLine := cp_firstLine p\<rparr> else r"
  have cps': "cps' = put_checkpoint cps (cp_name r) ?rec" "cp_name ?rec = cp_name r"
    using rec by (auto simp: recordCheckpoint_def Let_def try_bind_Inr has_text_def split: if_splits option.splits)
  show ?thesis
    unfolding cps'(1) using checkpoint_store.get_put[OF ok cps'(2)] checkpoint_store.put_ok[OF ok cps'(2)] by simp
qed

definition sample_row :: goal_row where
  "sample_row = \<lparr>gr_criterion = ''builds'', gr_criterionId = Absent, gr_evidence = ''npm test'',
     gr_recordedRound = None, gr_repairedGate = None, gr_repairedGates = None, gr_carriedFrom = None\<rparr>"

definition sample_checkpoint :: "string \<Rightarrow> checkpoint" where
  "sample_checkpoint name = \<lparr>cp_missionId = ''px-0001'', cp_recording = None, cp_name = name, cp_rawFilename = None,
     cp_firstLine = None, cp_repair = None, cp_goalCheck = [sample_row], cp_nextActionText = ''next''\<rparr>"

definition sample_plan :: "checkpoint list" where
  "sample_plan = [(sample_checkpoint ''CP-2'')\<lparr>cp_firstLine := Some ''second'', cp_goalCheck := []\<rparr>,
     sample_checkpoint ''CP-10'']"

theorem record_checkpoint_store_witness:
  "\<exists>cps'. recordCheckpoint sample_plan (sample_checkpoint ''CP-2'') = Inr cps' \<and>
    checkpoint_named cps' ''CP-2'' = Some ((sample_checkpoint ''CP-2'')\<lparr>cp_firstLine := Some ''second''\<rparr>)"
proof -
  have "is_ok (recordCheckpoint sample_plan (sample_checkpoint ''CP-2''))" by code_simp
  then obtain cps' where c: "recordCheckpoint sample_plan (sample_checkpoint ''CP-2'') = Inr cps'" by (auto simp: is_ok_iff)
  have "checkpoints_ok sample_plan" by code_simp
  from record_checkpoint_store[OF this c] c show ?thesis
    by (simp add: sample_plan_def sample_checkpoint_def has_text_def checkpoint_named_def)
qed

text \<open>Planning adds, never replaces. A plan is accepted exactly for a well-shaped unused name and
  a description of 1 to 512 characters; the new checkpoint is the only change to what is found under
  any name, it counts as planned rather than evidenced, and recording evidence without a description
  under that name later keeps the planned description.\<close>

lemma plan_then_record:
  assumes ok: "checkpoints_ok cps" and plan: "planCheckpoint cps m n d = Inr planned"
  shows "checkpoints_ok planned \<and> checkpoint_named cps n = None \<and>
    (\<exists>p. checkpoint_named planned n = Some p \<and> isPlannedCheckpoint p \<and> cp_firstLine p = Some (trim d)) \<and>
    (\<forall>j. j \<noteq> n \<longrightarrow> checkpoint_named planned j = checkpoint_named cps j) \<and>
    (\<forall>r recorded. cp_name r = n \<and> \<not> has_text (cp_firstLine r) \<and> recordCheckpoint planned r = Inr recorded \<longrightarrow>
      checkpoint_named recorded n = Some (r\<lparr>cp_firstLine := Some (trim d)\<rparr>))"
proof -
  let ?p = "\<lparr>cp_missionId = m, cp_recording = None, cp_name = n, cp_rawFilename = None,
      cp_firstLine = Some (trim d), cp_repair = None, cp_goalCheck = [], cp_nextActionText = []\<rparr>"
  have new: "n \<notin> cp_name ` set cps" and filled: "trim d \<noteq> []" and eq: "planned = byNumber (cps @ [?p])"
    using plan by (auto simp: plan_Inr)
  have put: "planned = put_checkpoint cps n ?p" using eq plan_is_put[OF new] by simp
  have get: "checkpoint_named planned j = (if j = n then Some ?p else checkpoint_named cps j)" for j
    unfolding put by (rule checkpoint_store.get_put[OF ok]) simp
  have okp: "checkpoints_ok planned" unfolding put by (rule checkpoint_store.put_ok[OF ok]) simp
  have "checkpoint_named recorded n = Some (r\<lparr>cp_firstLine := Some (trim d)\<rparr>)"
    if "cp_name r = n" "\<not> has_text (cp_firstLine r)" "recordCheckpoint planned r = Inr recorded" for r recorded
  proof -
    let ?r = "r\<lparr>cp_firstLine := Some (trim d)\<rparr>"
    have "recorded = put_checkpoint planned n ?r"
      using that filled get[of n] by (auto simp: recordCheckpoint_def Let_def try_bind_Inr has_text_def split: if_splits)
    then show ?thesis using checkpoint_store.get_put_same[OF okp, of ?r n] that by simp
  qed
  then show ?thesis
    using okp get new by (auto simp: isPlannedCheckpoint_def has_text_def checkpoint_named_def find_first_None)
qed

text \<open>Coverage is a union of named criteria, not a count. Without identities, the uncovered
  criteria are exactly the required ones, in their order, that no row of any checkpoint names; with
  or without identities, more recorded checkpoints never uncover a criterion.\<close>

lemma uncovered_exact:
  "uncoveredCriteria checks required None =
     filter (\<lambda>c. \<not> (\<exists>rows\<in>set checks. \<exists>row\<in>set rows. gr_criterion row = c \<and> c \<noteq> [])) required \<and>
   set (uncoveredCriteria (checks @ extra) required ids) \<subseteq> set (uncoveredCriteria checks required ids) \<and>
   subseq (uncoveredCriteria checks required ids) required"
proof (intro conjI)
  show "uncoveredCriteria checks required None =
     filter (\<lambda>c. \<not> (\<exists>rows\<in>set checks. \<exists>row\<in>set rows. gr_criterion row = c \<and> c \<noteq> [])) required"
    unfolding uncovered_by_text by (rule filter_cong) auto
  show "set (uncoveredCriteria (checks @ extra) required ids) \<subseteq> set (uncoveredCriteria checks required ids)"
    by (rule uncovered_mono) simp
  show "subseq (uncoveredCriteria checks required ids) required" by (rule uncovered_subseq)
qed

text \<open>C34: A repair incident is excused only by a receipt of its own verifier. If an incident counts
  as explicitly covered, then it carries no blocker, and some checkpoint of the same mission has a
  verified, unblocked repair with fresh evidence rows and a receipt of the harness whose command,
  worktree and authority are those of the incident, whose execution exited with code 0 and completed
  no earlier than it started, and which lists the incident's exact occurrence, opened no later than
  the mission revision the execution ran on, before the revision that verified it.\<close>

theorem covered_only_by_receipt:
  assumes covered: "isExplicitlyCovered cp cps gates criteria worktree"
  shows "\<exists>source repair receipt targetRepair target item. source \<in> set cps \<and> cp_missionId source = cp_missionId cp \<and>
    cp_repair source = Some repair \<and> rx_exactSuccessCoverage repair = Some receipt \<and> rx_verified repair \<and>
    rx_blocker repair = None \<and> freshGoalCheckRows (cp_goalCheck source) \<noteq> [] \<and>
    cp_repair cp = Some targetRepair \<and> rx_blocker targetRepair = None \<and>
    ec_producer receipt = ''harness-exact-check'' \<and> ec_command receipt = rx_command targetRepair \<and>
    rx_command repair = rx_command targetRepair \<and>
    rx_authorizedGates repair = rx_authorizedGates targetRepair \<and>
    rx_authorizedCriteria repair = rx_authorizedCriteria targetRepair \<and>
    ex_exitCode (ec_execution receipt) = 0 \<and>
    not_before (ex_completedAt (ec_execution receipt)) (ex_startedAt (ec_execution receipt)) \<and>
    repairOccurrence cp = Some target \<and> item \<in> set (ec_coveredOccurrences receipt) \<and> item = target \<and>
    ec_worktree receipt = oc_worktree target \<and>
    oc_openedMissionRevision target \<le> ec_executionMissionRevision receipt \<and>
    ec_executionMissionRevision receipt < ec_verifiedMissionRevision receipt"
  using covered
proof (rule covered_obtains)
  fix source receipt repair target targetRepair item
  assume a: "acceptedCoverageSource source = Some receipt" and r: "cp_repair source = Some repair"
    and rest: "source \<in> set cps" "repairOccurrence cp = Some target" "cp_repair cp = Some targetRepair"
      "rx_blocker targetRepair = None" "cp_missionId source = cp_missionId cp" "ec_worktree receipt = oc_worktree target"
      "ec_command receipt = rx_command targetRepair" "item \<in> set (ec_coveredOccurrences receipt)"
    and auth: "compatibleCoverageAuthority receipt repair targetRepair gates criteria"
    and same: "sameRepairOccurrence item target" and le: "oc_openedMissionRevision item \<le> ec_executionMissionRevision receipt"
  obtain own where own: "rx_exactSuccessCoverage repair = Some receipt" "rx_verified repair" "rx_blocker repair = None"
    "freshGoalCheckRows (cp_goalCheck source) \<noteq> []" "validCoverageLinks source repair receipt own"
    using a r by (auto simp: accepted_source_iff)
  have eq: "item = target"
    using same by (cases item; cases target) (auto simp: sameRepairOccurrence_def)
  have "ec_producer receipt = ''harness-exact-check'' \<and> ec_command receipt = rx_command repair \<and>
    ex_exitCode (ec_execution receipt) = 0 \<and>
    not_before (ex_completedAt (ec_execution receipt)) (ex_startedAt (ec_execution receipt)) \<and>
    ec_executionMissionRevision receipt < ec_verifiedMissionRevision receipt"
    using own(5) by (simp add: validCoverageLinks_def validExactExecution_def validCoverageRevisions_def)
  moreover have "rx_authorizedGates repair = rx_authorizedGates targetRepair \<and>
    rx_authorizedCriteria repair = rx_authorizedCriteria targetRepair"
    using auth unfolding compatibleCoverageAuthority_def sameRepairAuthority_def by metis
  ultimately show ?thesis using own rest r eq le by fastforce
qed

definition sample_occurrence :: repair_occurrence where
  "sample_occurrence = \<lparr>oc_openedMissionRevision = 4, oc_worktree = ''/w'', oc_failureRevision = ''bad'',
     oc_failureEvidenceId = ''ev1''\<rparr>"

definition sample_covered :: "string \<Rightarrow> covered_occurrence" where
  "sample_covered name = repair_occurrence.extend sample_occurrence
     \<lparr>co_checkpoint = name, co_incidentId = name, co_attempt = 1\<rparr>"

definition sample_repair :: "string \<Rightarrow> checkpoint_repair" where
  "sample_repair name = \<lparr>rx_incidentId = name, rx_command = ''npm test'', rx_authorizedGates = [''npm test''],
     rx_authorizedCriteria = [], rx_attempt = 1, rx_evidenceRecorded = False, rx_verified = False,
     rx_occurrence = Some sample_occurrence, rx_exactSuccessCoverage = None, rx_blocker = None,
     rx_acknowledgedBlocker = None, rx_acknowledgedBy = None, rx_acknowledgedAt = None, rx_corrections = None\<rparr>"

definition sample_receipt :: exact_coverage where
  "sample_receipt = \<lparr>ec_producer = ''harness-exact-check'', ec_missionId = ''px-0001'', ec_worktree = ''/w'',
     ec_command = ''npm test'', ec_authorizedGates = [''npm test''], ec_authorizedCriteria = [],
     ec_executionRevision = ''abc'', ec_executionMissionRevision = 6, ec_checkpointEvidenceRevision = 5,
     ec_verifiedMissionRevision = 7,
     ec_execution = \<lparr>ex_id = ''run1'', ex_producer = ''rebound-exact-verifier'', ex_startedAt = ''2026-01-01T00:00:00Z'',
       ex_completedAt = ''2026-01-01T00:01:00Z'', ex_exitCode = 0\<rparr>,
     ec_verifiedOccurrence = sample_covered ''CP-2'', ec_coveredOccurrences = [sample_covered ''CP-1'']\<rparr>"

definition sample_incident :: checkpoint where
  "sample_incident = (sample_checkpoint ''CP-1'')\<lparr>cp_repair := Some (sample_repair ''CP-1'')\<rparr>"

definition sample_source :: checkpoint where
  "sample_source = (sample_checkpoint ''CP-2'')\<lparr>
     cp_recording := Some \<lparr>rg_recordedAt = ''2026-01-01T00:00:00Z'', rg_recordedRound = Some 1, rg_missionRevision = 5\<rparr>,
     cp_repair := Some ((sample_repair ''CP-2'')\<lparr>rx_evidenceRecorded := True, rx_verified := True,
       rx_exactSuccessCoverage := Some sample_receipt\<rparr>)\<rparr>"

theorem covered_only_by_receipt_witness:
  "\<exists>source repair. source \<in> set [sample_incident, sample_source] \<and> cp_repair source = Some repair \<and> rx_verified repair"
proof -
  have "isExplicitlyCovered sample_incident [sample_incident, sample_source] (Some [''npm test'']) None None" by code_simp
  from covered_only_by_receipt[OF this] show ?thesis by blast
qed

end
