(* ===== verification/Contracts.thy ===== *)
theory Contracts
  imports Prelude Instants ReviewTypes
begin

text \<open>
  The attributes of a mission's contract and their checked constructors: declared gates
  (\<open>mission-gates.ts\<close>), the brief (\<open>mission-brief.ts\<close>), success criteria and their completion
  (\<open>mission-success-criteria.ts\<close>), the repository id (\<open>repository.ts\<close>), external task references
  (\<open>external-task.ts\<close>), NEL buckets and artifact references (\<open>net-engineering-lines.ts\<close>).
\<close>

section \<open>Decimal numerals\<close>

text \<open>\<open>`${n}`\<close> of a natural number.\<close>

fun decimal :: "nat \<Rightarrow> string" where
  "decimal n = (if n < 10 then [digit_char n] else decimal (n div 10) @ [digit_char n])"

declare decimal.simps [simp del]

lemma decimal_digits: "list_all is_digit (decimal n) \<and> decimal n \<noteq> [] \<and> digits_val (decimal n) = n"
proof (induction n rule: decimal.induct)
  case (1 n)
  show ?case
  proof (cases "n < 10")
    case True
    then show ?thesis by (simp add: decimal.simps[of n] digits_val_def)
  next
    case False
    with 1 show ?thesis by (simp add: decimal.simps[of n])
  qed
qed

lemma decimal_inj [simp]: "decimal m = decimal n \<longleftrightarrow> m = n"
  by (metis decimal_digits)

section \<open>Bounded lists of distinct entries\<close>

datatype contract_error =
    Too_many nat | Entry_invalid nat | Already_declared string
  | Brief_too_many | Brief_text string nat
  | Criterion_out_of_range int | Criterion_ids_unpaired | Criterion_id_unknown string | Criterion_ids_repeated
  | Repository_empty
  | Task_reference_empty string | Task_reference_content string | Task_reference_long string
  | Artifact_location_missing | Artifact_content | Artifact_location_long | Artifact_size_invalid
  | Depends_on_itself string | Dependency_not_slug string

fun check_entries :: "nat \<Rightarrow> string list \<Rightarrow> string list \<Rightarrow> contract_error + string list" where
  "check_entries len seen [] = Inr []"
| "check_entries len seen (value # values) =
     (if value = [] \<or> value \<noteq> trim value \<or> len < length value then Inl (Entry_invalid len)
      else if value \<in> set seen then Inl (Already_declared value)
      else case check_entries len (value # seen) values of Inl e \<Rightarrow> Inl e | Inr vs \<Rightarrow> Inr (value # vs))"

definition distinctEntries :: "string list \<Rightarrow> nat \<Rightarrow> nat \<Rightarrow> contract_error + string list" where
  "distinctEntries values len count =
     (if count < length values then Inl (Too_many count) else check_entries len [] values)"

definition declaredGates :: "string list \<Rightarrow> contract_error + string list" where
  "declaredGates values = distinctEntries values 512 16"

definition successCriteria :: "string list \<Rightarrow> contract_error + string list" where
  "successCriteria values = distinctEntries values 512 32"

lemma check_entries_Inr [outcome]:
  "check_entries len seen vs = Inr ws \<longleftrightarrow> ws = vs \<and> distinct vs \<and> set seen \<inter> set vs = {} \<and>
    (\<forall>v\<in>set vs. v \<noteq> [] \<and> v = trim v \<and> length v \<le> len)"
  by (induction len seen vs arbitrary: ws rule: check_entries.induct) (auto split: sum.splits)

lemma distinct_entries_Inr [outcome]:
  "distinctEntries vs len n = Inr ws \<longleftrightarrow> ws = vs \<and> distinct vs \<and> length vs \<le> n \<and>
    (\<forall>v\<in>set vs. v \<noteq> [] \<and> v = trim v \<and> length v \<le> len)"
  by (auto simp: distinctEntries_def check_entries_Inr)

section \<open>The brief\<close>

record mission_brief =
  mb_goal :: string
  mb_why :: string
  mb_scope :: "string option"
  mb_outOfScope :: "string list"

definition brief_text :: "string \<Rightarrow> string \<Rightarrow> nat \<Rightarrow> contract_error + string" where
  "brief_text value name limit =
     (if value = [] \<or> value \<noteq> trim value \<or> limit < length value then Inl (Brief_text name limit) else Inr value)"

definition missionBrief :: "mission_brief \<Rightarrow> contract_error + mission_brief" where
  "missionBrief b =
     (if 16 < length (mb_outOfScope b) then Inl Brief_too_many
      else try_bind (brief_text (mb_goal b) ''goal'' 4000) (\<lambda>goal.
        try_bind (brief_text (mb_why b) ''why'' 4000) (\<lambda>why.
        try_bind (case mb_scope b of None \<Rightarrow> Inr None
            | Some s \<Rightarrow> (case brief_text s ''scope'' 4000 of Inl e \<Rightarrow> Inl e | Inr s' \<Rightarrow> Inr (Some s'))) (\<lambda>scope.
        try_bind (try_map (\<lambda>entry. brief_text entry ''out-of-scope entry'' 512) (mb_outOfScope b)) (\<lambda>outOfScope.
          Inr \<lparr>mb_goal = goal, mb_why = why, mb_scope = scope, mb_outOfScope = outOfScope\<rparr>)))))"

definition brief_ok :: "mission_brief \<Rightarrow> bool" where
  "brief_ok b \<longleftrightarrow> (let ok = (\<lambda>s n. s \<noteq> [] \<and> trim s = s \<and> length s \<le> n) in
     ok (mb_goal b) (4000 :: nat) \<and> ok (mb_why b) 4000 \<and> (\<forall>s. mb_scope b = Some s \<longrightarrow> ok s 4000) \<and>
     length (mb_outOfScope b) \<le> 16 \<and> (\<forall>e\<in>set (mb_outOfScope b). ok e 512))"

lemma brief_text_Inr [outcome]:
  "brief_text v name n = Inr w \<longleftrightarrow> w = v \<and> v \<noteq> [] \<and> trim v = v \<and> length v \<le> n"
  by (auto simp: brief_text_def)

lemma brief_text_Inl: "brief_text v name n = Inl e \<longleftrightarrow>
    \<not> (v \<noteq> [] \<and> trim v = v \<and> length v \<le> n) \<and> e = Brief_text name n"
  by (auto simp: brief_text_def)

lemma try_map_text: "try_map (\<lambda>e. brief_text e name n) vs = Inr ws \<longleftrightarrow>
    ws = vs \<and> (\<forall>v\<in>set vs. v \<noteq> [] \<and> trim v = v \<and> length v \<le> n)"
proof (induction vs arbitrary: ws)
  case Nil
  then show ?case by auto
next
  case (Cons v vs)
  then show ?case by (auto simp: brief_text_Inr brief_text_Inl split: sum.splits)
qed

lemma mission_brief_Inr [outcome]: "missionBrief b = Inr c \<longleftrightarrow> c = b \<and> brief_ok b"
proof -
  have scope: "(case mb_scope b of None \<Rightarrow> Inr None
      | Some s \<Rightarrow> (case brief_text s ''scope'' 4000 of Inl e \<Rightarrow> Inl e | Inr s' \<Rightarrow> Inr (Some s'))) = Inr u \<longleftrightarrow>
    u = mb_scope b \<and> (\<forall>s. mb_scope b = Some s \<longrightarrow> s \<noteq> [] \<and> trim s = s \<and> length s \<le> 4000)" for u
    by (cases "mb_scope b") (auto simp: brief_text_Inr brief_text_Inl split: sum.splits)
  show ?thesis
    unfolding missionBrief_def try_bind_Inr
    by (auto simp: try_bind_Inr brief_text_Inr try_map_text scope brief_ok_def Let_def)
qed

section \<open>Completion of criteria\<close>

text \<open>Positions arrive as numbers and are checked one by one before the list is normalised.\<close>

fun in_criteria_range :: "nat \<Rightarrow> jsnum \<Rightarrow> bool" where
  "in_criteria_range n (Num q) = (is_integer_num (Num q) \<and> 0 \<le> q \<and> q < of_nat n)"
| "in_criteria_range n _ = False"

fun position_of :: "jsnum \<Rightarrow> nat" where
  "position_of (Num q) = nat \<lfloor>q\<rfloor>"
| "position_of _ = 0"

definition completedCriteria :: "jsnum list \<Rightarrow> nat \<Rightarrow> contract_error + nat list" where
  "completedCriteria indexes criteriaCount =
     (case find_first (\<lambda>i. \<not> in_criteria_range criteriaCount i) indexes of
        Some i \<Rightarrow> Inl (Criterion_out_of_range (int (position_of i) + 1))
      | None \<Rightarrow> Inr (sort (dedupe (map position_of indexes))))"

definition carryCompletion :: "string list \<Rightarrow> nat list \<Rightarrow> string list \<Rightarrow> nat list" where
  "carryCompletion before completed after =
     (let done_texts = map (nth_opt before) completed in
       map fst (filter (\<lambda>(index, criterion). Some criterion \<in> set done_texts) (enumerate 0 after)))"

lemma completed_Inr:
  "completedCriteria is n = Inr ps \<longleftrightarrow> (\<forall>i\<in>set is. in_criteria_range n i) \<and> ps = sort (dedupe (map position_of is))"
  by (auto simp: completedCriteria_def find_first_None split: option.splits dest: find_first_Some)

lemma in_range_position: "in_criteria_range n i \<Longrightarrow> position_of i < n"
proof (cases i)
  case (Num q)
  assume "in_criteria_range n i"
  with Num have q: "0 \<le> q" "q < of_nat n" by simp_all
  have "\<lfloor>q\<rfloor> < int n" using q by (metis floor_less_iff of_int_of_nat_eq)
  then have "nat \<lfloor>q\<rfloor> < n" using q by (simp add: nat_less_iff)
  then show ?thesis using Num by simp
qed auto

section \<open>Repositories, external tasks, artifacts\<close>

definition repositoryId :: "string \<Rightarrow> contract_error + string" where
  "repositoryId value = (let normalized = trim value in if normalized = [] then Inl Repository_empty else Inr normalized)"

record external_task_ref =
  et_source :: string
  et_id :: string
  et_url :: "string option"

definition has_line_break :: "string \<Rightarrow> bool" where
  "has_line_break s \<longleftrightarrow> list_ex (\<lambda>c. of_char c = (10 :: nat) \<or> of_char c = (13 :: nat)) s"

definition task_reference :: "string \<Rightarrow> string \<Rightarrow> contract_error + string" where
  "task_reference field_name value =
     (let normalized = trim value in
       if normalized = [] then Inl (Task_reference_empty field_name)
       else if has_line_break normalized then Inl (Task_reference_content field_name)
       else if 512 < length normalized then Inl (Task_reference_long field_name)
       else Inr normalized)"

definition externalTaskRef :: "string \<Rightarrow> string \<Rightarrow> string option \<Rightarrow> contract_error + external_task_ref" where
  "externalTaskRef source identifier url =
     try_bind (task_reference ''source'' source) (\<lambda>s.
     try_bind (task_reference ''id'' identifier) (\<lambda>i.
     try_bind (case url of None \<Rightarrow> Inr None
         | Some u \<Rightarrow> (case task_reference ''url'' u of Inl e \<Rightarrow> Inl e | Inr u' \<Rightarrow> Inr (Some u'))) (\<lambda>u.
       Inr \<lparr>et_source = to_lower s, et_id = i, et_url = u\<rparr>)))"

definition sameExternalTaskRef :: "external_task_ref option \<Rightarrow> external_task_ref option \<Rightarrow> bool" where
  "sameExternalTaskRef left right =
     (case (left, right) of
        (Some l, Some r) \<Rightarrow> et_source l = et_source r \<and> et_id l = et_id r \<and> et_url l = et_url r
      | (None, None) \<Rightarrow> True
      | _ \<Rightarrow> False)"

datatype nel_label = Small | Medium | Large

record nel_bucket =
  nb_label :: nel_label
  nb_min :: jsnum
  nb_max :: jsnum

definition classifyNelBucket :: "jsnum \<Rightarrow> nel_bucket" where
  "classifyNelBucket nel =
     (if num_le nel (Num 80) then \<lparr>nb_label = Small, nb_min = Num 0, nb_max = Num 80\<rparr>
      else if num_le nel (Num 235) then \<lparr>nb_label = Medium, nb_min = Num 81, nb_max = Num 235\<rparr>
      else \<lparr>nb_label = Large, nb_min = Num 236, nb_max = PosInf\<rparr>)"

datatype artifact_kind = File_artifact | Git_range | Url_artifact

record artifact_ref =
  ar_kind :: artifact_kind
  ar_location :: string
  ar_byteSize :: "jsnum option"

definition natural_num :: "jsnum \<Rightarrow> bool" where
  "natural_num v \<longleftrightarrow> is_integer_num v \<and> \<not> num_less v (Num 0)"

definition artifactReference :: "artifact_kind \<Rightarrow> string \<Rightarrow> jsnum option \<Rightarrow> contract_error + artifact_ref" where
  "artifactReference kind location byteSize =
     (let normalized = trim location in
       if normalized = [] then Inl Artifact_location_missing
       else if has_line_break normalized \<or> CHR 0x00 \<in> set normalized then Inl Artifact_content
       else if 1024 < length normalized then Inl Artifact_location_long
       else if (case byteSize of None \<Rightarrow> False | Some n \<Rightarrow> \<not> natural_num n) then Inl Artifact_size_invalid
       else Inr \<lparr>ar_kind = kind, ar_location = normalized, ar_byteSize = byteSize\<rparr>)"

end
