(* ===== verification/Missions.thy ===== *)
theory Missions
  imports Reviews Checkpoints Contracts
begin

text \<open>
  The mission aggregate: \<open>src/src/domain/mission.ts\<close>, with the attributes other files compute on it
  (\<open>mission-dependencies.ts\<close>, the identity half of \<open>mission-success-criteria.ts\<close>,
  \<open>missionNelRecord\<close> of \<open>net-engineering-lines.ts\<close>, \<open>mission-authoring.ts\<close>).

  \<open>OpenMission | ClosedMission\<close> is one record with a status and a closing time. Optional attributes
  that every reader takes with \<open>?? []\<close> are plain lists; the others are options.
\<close>

section \<open>Identities\<close>

datatype mission_status = Backlog | Refined | Active | In_review | Integration | Done

fun status_text :: "mission_status \<Rightarrow> string" where
  "status_text Backlog = ''backlog''"
| "status_text Refined = ''refined''"
| "status_text Active = ''active''"
| "status_text In_review = ''review''"
| "status_text Integration = ''integration''"
| "status_text Done = ''done''"

definition MISSION_STATUSES :: "mission_status list" where
  "MISSION_STATUSES = [Backlog, Refined, Active, In_review, Integration, Done]"

datatype mission_error =
    Invalid_slug string | Label_empty
  | Title_missing string | Owner_missing string | Nel_invalid jsnum
  | Already_closed string | Close_before_done string | Closure_time_missing string
  | Closure_time_unparseable string | Not_closed string
  | Classification_invalid | Contract_locked | Authoring_incomplete
  | Contract contract_error | Checkpoint checkpoint_error
  | Nel_unrecorded string | Capture_time_missing string | Round_count_invalid jsnum

fun segments :: "(char \<Rightarrow> bool) \<Rightarrow> string \<Rightarrow> string list" where
  "segments sep [] = [[]]"
| "segments sep (c # s) =
     (if sep c then [] # segments sep s
      else (case segments sep s of [] \<Rightarrow> [[c]] | l # ls \<Rightarrow> (c # l) # ls))"

definition slug_char :: "char \<Rightarrow> bool" where
  "slug_char c \<longleftrightarrow> is_lower c \<or> is_digit c"

text \<open>\<open>/^[a-z][a-z0-9]*(?:[-.][a-z0-9]+)+$/\<close>: at least two segments separated by \<open>-\<close> or \<open>.\<close>,
  all non-empty words over \<open>a-z0-9\<close>, the first starting with a letter.\<close>

definition slug_shape :: "string \<Rightarrow> bool" where
  "slug_shape value =
     (let parts = segments (\<lambda>c. c = CHR ''-'' \<or> c = CHR ''.'') value in
       2 \<le> length parts \<and> list_all (\<lambda>p. p \<noteq> [] \<and> list_all slug_char p) parts \<and> is_lower (hd (hd parts)))"

definition missionId :: "string \<Rightarrow> mission_error + string" where
  "missionId value = (if slug_shape value then Inr value else Inl (Invalid_slug value))"

definition four_digits :: "string \<Rightarrow> bool" where
  "four_digits s \<longleftrightarrow> 4 \<le> length s \<and> list_all is_digit s"

text \<open>\<open>/^px-\d{4,}$/i\<close>, \<open>/^parallix-adhoc-.+$/i\<close> and
  \<open>/^(?:(?:task|adhoc)-[a-z0-9][a-z0-9.-]*|px-\d{4,})$/i\<close>, on the trimmed text in lower case.\<close>

definition isDbAdhocIdentity :: "string \<Rightarrow> bool" where
  "isDbAdhocIdentity value =
     (case strip_prefix ''px-'' (to_lower (trim value)) of None \<Rightarrow> False | Some rest \<Rightarrow> four_digits rest)"

definition isLegacyAdhocIdentity :: "string \<Rightarrow> bool" where
  "isLegacyAdhocIdentity value =
     (case strip_prefix ''parallix-adhoc-'' (to_lower (trim value)) of
        None \<Rightarrow> False | Some rest \<Rightarrow> rest \<noteq> [] \<and> \<not> has_line_break rest)"

definition slug_word :: "string \<Rightarrow> bool" where
  "slug_word s \<longleftrightarrow> s \<noteq> [] \<and> slug_char (hd s) \<and>
     list_all (\<lambda>c. slug_char c \<or> c = CHR ''.'' \<or> c = CHR ''-'') s"

definition isMissionSlugCandidate :: "string \<Rightarrow> bool" where
  "isMissionSlugCandidate value =
     (let v = to_lower (trim value) in
       (case strip_prefix ''task-'' v of Some rest \<Rightarrow> slug_word rest
        | None \<Rightarrow> (case strip_prefix ''adhoc-'' v of Some rest \<Rightarrow> slug_word rest
          | None \<Rightarrow> (case strip_prefix ''px-'' v of Some rest \<Rightarrow> four_digits rest | None \<Rightarrow> False))))"

definition missionLabel :: "string \<Rightarrow> mission_error + string" where
  "missionLabel value =
     (let normalized = to_lower (trim value) in if normalized = [] then Inl Label_empty else Inr normalized)"

definition missionLabels :: "string list \<Rightarrow> mission_error + string list" where
  "missionLabels values = (case try_map missionLabel values of Inl e \<Rightarrow> Inl e | Inr ls \<Rightarrow> Inr (dedupe ls))"

section \<open>The aggregate\<close>

record mission =
  ms_id :: string
  ms_repositoryId :: string
  ms_title :: string
  ms_description :: "string option"
  ms_labels :: "string list"
  ms_assignee :: "agent_family option"
  ms_checkpoints :: "checkpoint list"
  ms_brief :: "mission_brief option"
  ms_declaredGates :: "string list"
  ms_successCriteria :: "string list"
  ms_successCriterionIds :: "string list option"
  ms_nextSuccessCriterionId :: "nat option"
  ms_completedSuccessCriteria :: "nat list"
  ms_dependencies :: "string list"
  ms_predictedNelBucket :: "nel_label option"
  ms_reproductionTest :: "string option"
  ms_review :: "review option"
  ms_reviewPreparationPending :: bool
  ms_netEngineeringLines :: "jsnum option"
  ms_rawStatus :: "string option"
  ms_externalTaskRef :: "external_task_ref option"
  ms_status :: mission_status
  ms_closedAt :: "string option"

record mission_intake =
  mi_id :: string
  mi_repositoryId :: string
  mi_title :: string
  mi_labels :: "string list option"
  mi_assignee :: "agent_family option"
  mi_description :: "string option"
  mi_rawStatus :: "string option"
  mi_externalTaskRef :: "external_task_ref option"

text \<open>\<open>/^(?:>|\|)[-+]?\d*$/\<close>.\<close>

definition block_scalar_title :: "string \<Rightarrow> bool" where
  "block_scalar_title s =
     (case s of
        [] \<Rightarrow> False
      | c # rest \<Rightarrow> (c = CHR ''>'' \<or> c = CHR ''|'') \<and>
          (case rest of
             d # ds \<Rightarrow> if d = CHR ''-'' \<or> d = CHR ''+'' then list_all is_digit ds else list_all is_digit rest
           | [] \<Rightarrow> True))"

definition missionTitle :: "string \<Rightarrow> string \<Rightarrow> string" where
  "missionTitle value fallback =
     (let title = trim value in if title \<noteq> [] \<and> \<not> block_scalar_title title then title else fallback)"

definition intakeMission :: "mission_intake \<Rightarrow> mission_error + mission" where
  "intakeMission intake =
     (if blank (mi_title intake) then Inl (Title_missing (mi_id intake))
      else if blank (mi_repositoryId intake) then Inl (Owner_missing (mi_id intake))
      else Inr \<lparr>ms_id = mi_id intake, ms_repositoryId = mi_repositoryId intake,
        ms_title = missionTitle (mi_title intake) (mi_id intake),
        ms_description = (if has_text (mi_description intake) then mi_description intake else None),
        ms_labels = (case mi_labels intake of None \<Rightarrow> [] | Some ls \<Rightarrow> dedupe ls),
        ms_assignee = mi_assignee intake, ms_checkpoints = [], ms_brief = None, ms_declaredGates = [],
        ms_successCriteria = [], ms_successCriterionIds = None, ms_nextSuccessCriterionId = None,
        ms_completedSuccessCriteria = [], ms_dependencies = [], ms_predictedNelBucket = None,
        ms_reproductionTest = None, ms_review = None, ms_reviewPreparationPending = False,
        ms_netEngineeringLines = None, ms_rawStatus = mi_rawStatus intake,
        ms_externalTaskRef = mi_externalTaskRef intake, ms_status = Backlog, ms_closedAt = None\<rparr>)"

definition recordNetEngineeringLines :: "mission \<Rightarrow> jsnum \<Rightarrow> mission_error + mission" where
  "recordNetEngineeringLines mission value =
     (if \<not> is_integer_num value \<or> num_less value (Num 0) then Inl (Nel_invalid value)
      else Inr (mission\<lparr>ms_netEngineeringLines := Some value\<rparr>))"

definition isClosedMission :: "mission \<Rightarrow> bool" where
  "isClosedMission mission \<longleftrightarrow> ms_status mission = Done \<and> ms_closedAt mission \<noteq> None"

definition closeMission :: "mission \<Rightarrow> string \<Rightarrow> mission_error + mission" where
  "closeMission mission closedAt =
     (if isClosedMission mission then Inl (Already_closed (ms_id mission))
      else if ms_status mission \<noteq> Done then Inl (Close_before_done (ms_id mission))
      else if blank closedAt then Inl (Closure_time_missing (ms_id mission))
      else (case to_canonical_utc_instant closedAt of
          Inl _ \<Rightarrow> Inl (Closure_time_unparseable closedAt)
        | Inr canonical \<Rightarrow> Inr (mission\<lparr>ms_status := Done, ms_closedAt := Some canonical\<rparr>)))"

definition requireClosedMission :: "mission \<Rightarrow> mission_error + mission" where
  "requireClosedMission mission =
     (if isClosedMission mission then Inr mission else Inl (Not_closed (ms_id mission)))"

section \<open>Dependencies\<close>

definition missionDependencies :: "string list \<Rightarrow> string \<Rightarrow> mission_error + string list" where
  "missionDependencies values owner =
     (case distinctEntries values 128 32 of
        Inl e \<Rightarrow> Inl (Contract e)
      | Inr entries \<Rightarrow> try_map (\<lambda>entry.
          if entry = owner then Inl (Contract (Depends_on_itself owner))
          else map_error (\<lambda>_. Contract (Dependency_not_slug entry)) (missionId entry)) entries)"

section \<open>Identities of success criteria\<close>

definition criterion_id :: "nat \<Rightarrow> string" where
  "criterion_id n = ''sc-'' @ decimal n"

text \<open>\<open>mission.successCriterionIds ?? before.map(() => `sc-${next++}`)\<close>.\<close>

definition previous_ids :: "mission \<Rightarrow> string list \<times> nat" where
  "previous_ids mission =
     (let before = ms_successCriteria mission; nxt = default_to 1 (ms_nextSuccessCriterionId mission) in
       case ms_successCriterionIds mission of
         Some ids \<Rightarrow> (ids, nxt)
       | None \<Rightarrow> (map criterion_id [nxt ..< nxt + length before], nxt + length before))"

text \<open>The id of one text: the one the caller carries, else (for a replacement by text alone) the one
  of the first equal text before, else a new one. The caller's ids are given entry by entry.\<close>

fun assign_ids ::
  "string list \<Rightarrow> string list \<Rightarrow> bool \<Rightarrow> (string \<times> string option) list \<Rightarrow> nat \<Rightarrow>
    contract_error + string list \<times> nat" where
  "assign_ids before previousIds by_id [] nxt = Inr ([], nxt)"
| "assign_ids before previousIds by_id ((criterion, requested) # entries) nxt =
     (let kept = (case requested of
            Some r \<Rightarrow> Some r
          | None \<Rightarrow> if by_id then None
                    else Option.bind (find_index (\<lambda>t. t = criterion) before) (nth_opt previousIds)) in
      if requested \<noteq> None \<and> the requested \<notin> set previousIds then Inl (Criterion_id_unknown (the requested))
      else case kept of
          Some i \<Rightarrow> (case assign_ids before previousIds by_id entries nxt of
              Inl e \<Rightarrow> Inl e | Inr (rest, n) \<Rightarrow> Inr (i # rest, n))
        | None \<Rightarrow> (case assign_ids before previousIds by_id entries (nxt + 1) of
              Inl e \<Rightarrow> Inl e | Inr (rest, n) \<Rightarrow> Inr (criterion_id nxt # rest, n)))"

definition replaceSuccessCriteria ::
  "mission \<Rightarrow> string list \<Rightarrow> string option list option \<Rightarrow> contract_error + mission" where
  "replaceSuccessCriteria mission texts ids =
     (let before = ms_successCriteria mission; (previousIds, nxt) = previous_ids mission in
       if ids \<noteq> None \<and> length (the ids) \<noteq> length texts then Inl Criterion_ids_unpaired
       else let entries = zip texts (case ids of None \<Rightarrow> replicate (length texts) None | Some is \<Rightarrow> is) in
         try_bind (assign_ids before previousIds (ids \<noteq> None) entries nxt) (\<lambda>(assigned, next').
           if length (dedupe assigned) \<noteq> length assigned then Inl Criterion_ids_repeated
           else let completed = map (nth_opt previousIds) (ms_completedSuccessCriteria mission) in
             Inr (mission\<lparr>ms_successCriteria := texts, ms_successCriterionIds := Some assigned,
               ms_nextSuccessCriterionId := Some next',
               ms_completedSuccessCriteria :=
                 map fst (filter (\<lambda>(index, i). Some i \<in> set completed) (enumerate 0 assigned))\<rparr>)))"

definition criterionContract :: "mission \<Rightarrow> success_criterion list" where
  "criterionContract mission =
     map (\<lambda>(index, criterion). \<lparr>sc_id = default_to [] (nth_opt (default_to [] (ms_successCriterionIds mission)) index),
       sc_text = criterion\<rparr>) (enumerate 0 (ms_successCriteria mission))"

definition identifyGoalCheckRows :: "goal_row list \<Rightarrow> success_criterion list \<Rightarrow> goal_row list" where
  "identifyGoalCheckRows rows criteria =
     map (\<lambda>row. row\<lparr>gr_criterionId :=
       (if gr_criterionId row \<noteq> Absent then gr_criterionId row
        else (case find_first (\<lambda>criterion. sc_text criterion = gr_criterion row) criteria of
            None \<Rightarrow> Null
          | Some criterion \<Rightarrow> if sc_id criterion = [] then Null else Present (sc_id criterion)))\<rparr>) rows"

section \<open>Authoring\<close>

definition MISSION_CLASSIFICATIONS :: "string list" where
  "MISSION_CLASSIFICATIONS = [''ai_sdlc'', ''user_value'', ''unknown'']"

definition recordedClassification :: "string list \<Rightarrow> string option" where
  "recordedClassification labels =
     (let matches = filter (\<lambda>l. l \<in> set MISSION_CLASSIFICATIONS) labels in
       if length matches = 1 then Some (hd matches) else None)"

record authoring_fields =
  af_brief :: mission_brief
  af_criteria :: "string list"
  af_checkpoints :: "(string \<times> string) list" \<comment> \<open>name, description\<close>
  af_gates :: "string list"
  af_predictedNelBucket :: nel_label
  af_classification :: string

definition classificationLabels :: "mission \<Rightarrow> string \<Rightarrow> mission_error + string list" where
  "classificationLabels mission classification =
     (let value = to_lower (trim classification) in
       if value \<notin> set MISSION_CLASSIFICATIONS then Inl Classification_invalid
       else try_bind (missionLabel value) (\<lambda>l.
         Inr (filter (\<lambda>label. label \<notin> set MISSION_CLASSIFICATIONS) (ms_labels mission) @ [l])))"

fun plan_all :: "string \<Rightarrow> checkpoint list \<Rightarrow> (string \<times> string) list \<Rightarrow> checkpoint_error + checkpoint list" where
  "plan_all mission planned [] = Inr planned"
| "plan_all mission planned ((name, description) # rest) =
     (case planCheckpoint planned mission name description of
        Inl e \<Rightarrow> Inl e | Inr planned' \<Rightarrow> plan_all mission planned' rest)"

definition authorMission :: "mission \<Rightarrow> authoring_fields \<Rightarrow> mission_error + mission" where
  "authorMission mission draft =
     (if ms_status mission \<notin> {Backlog, Refined} \<or> ms_closedAt mission \<noteq> None \<or>
         list_ex (\<lambda>cp. cp_goalCheck cp \<noteq> [] \<or> cp_repair cp \<noteq> None) (ms_checkpoints mission)
      then Inl Contract_locked
      else try_bind (map_error Contract (missionBrief (af_brief draft))) (\<lambda>brief.
        try_bind (map_error Contract (successCriteria (af_criteria draft))) (\<lambda>criteria.
        try_bind (map_error Contract (declaredGates (af_gates draft))) (\<lambda>gates.
          if \<not> has_text (mb_scope brief) \<or> criteria = [] \<or> gates = [] \<or> af_checkpoints draft = []
          then Inl Authoring_incomplete
          else try_bind (map_error Checkpoint (plan_all (ms_id mission) [] (af_checkpoints draft))) (\<lambda>checkpoints.
            try_bind (map_error Contract (replaceSuccessCriteria mission criteria None)) (\<lambda>replaced.
            try_bind (classificationLabels mission (af_classification draft)) (\<lambda>labels.
              Inr (replaced\<lparr>ms_brief := Some brief, ms_checkpoints := checkpoints, ms_declaredGates := gates,
                ms_predictedNelBucket := Some (af_predictedNelBucket draft), ms_labels := labels\<rparr>))))))))"

section \<open>The reported NEL record\<close>

record nel_record_input =
  ni_predictedBucket :: "nel_label option"
  ni_capturedAt :: string
  ni_artifacts :: "artifact_ref list option"
  ni_reviewRounds :: "jsnum option"

record nel_record =
  nr_missionId :: string
  nr_predictedBucket :: "nel_label option" \<comment> \<open>\<open>None\<close> is \<open>'Unknown'\<close>\<close>
  nr_netEngineeringLines :: jsnum
  nr_actualBucket :: nel_label
  nr_reviewRounds :: jsnum
  nr_capturedAt :: string
  nr_artifacts :: "artifact_ref list"

definition missionNelRecord :: "mission \<Rightarrow> nel_record_input \<Rightarrow> mission_error + nel_record" where
  "missionNelRecord mission i =
     (case ms_netEngineeringLines mission of
        None \<Rightarrow> Inl (Nel_unrecorded (ms_id mission))
      | Some nel \<Rightarrow>
          if blank (ni_capturedAt i) then Inl (Capture_time_missing (ms_id mission))
          else if (case ni_reviewRounds i of None \<Rightarrow> False | Some n \<Rightarrow> \<not> is_integer_num n \<or> num_less n (Num 1))
          then Inl (Round_count_invalid (the (ni_reviewRounds i)))
          else Inr \<lparr>nr_missionId = ms_id mission, nr_predictedBucket = ni_predictedBucket i,
            nr_netEngineeringLines = nel, nr_actualBucket = nb_label (classifyNelBucket nel),
            nr_reviewRounds = (case ni_reviewRounds i of
                Some n \<Rightarrow> n
              | None \<Rightarrow> (case ms_review mission of
                    None \<Rightarrow> Num 1
                  | Some r \<Rightarrow> Num (of_nat (max 1 (length (rounds r)))))),
            nr_capturedAt = ni_capturedAt i, nr_artifacts = default_to [] (ni_artifacts i)\<rparr>)"

section \<open>Lemmas\<close>

lemma criterion_id_inj [simp]: "criterion_id m = criterion_id n \<longleftrightarrow> m = n"
  by (simp add: criterion_id_def)

lemma nth_opt_mem: "nth_opt xs i = Some x \<Longrightarrow> x \<in> set xs"
  by (auto simp: nth_opt_def split: if_splits)

lemma assign_ids_fresh:
  "assign_ids before prev by_id entries nxt = Inr (assigned, n) \<Longrightarrow>
    length assigned = length entries \<and> nxt \<le> n \<and>
    (\<forall>i\<in>set assigned. i \<in> set prev \<or> (\<exists>k. nxt \<le> k \<and> k < n \<and> i = criterion_id k))"
proof (induction before prev by_id entries nxt arbitrary: assigned n rule: assign_ids.induct)
  case (1 before prev by_id nxt)
  then show ?case by simp
next
  case (2 before prev by_id criterion requested entries nxt)
  let ?kept = "case requested of Some r \<Rightarrow> Some r
    | None \<Rightarrow> if by_id then None else Option.bind (find_index (\<lambda>t. t = criterion) before) (nth_opt prev)"
  have known: "\<not> (requested \<noteq> None \<and> the requested \<notin> set prev)"
    using 2(3) by (auto simp: Let_def split: if_splits)
  show ?case
  proof (cases ?kept)
    case None
    with 2(3) known obtain rest where r: "assign_ids before prev by_id entries (nxt + 1) = Inr (rest, n)"
        "assigned = criterion_id nxt # rest"
      by (auto simp: Let_def split: sum.splits option.splits if_splits)
    from 2(1)[OF refl known None r(1)] r(2) show ?thesis by (fastforce intro: Suc_leD)
  next
    case (Some i)
    with 2(3) known obtain rest where r: "assign_ids before prev by_id entries nxt = Inr (rest, n)" "assigned = i # rest"
      by (auto simp: Let_def split: sum.splits option.splits if_splits)
    have "i \<in> set prev"
      using Some known by (auto simp: Option.bind_eq_Some_conv dest: nth_opt_mem split: option.splits if_splits)
    with 2(2)[OF refl known Some r(1)] r(2) show ?thesis by auto
  qed
qed

text \<open>Stored identities: parallel to the criteria, distinct, and all issued before the counter.\<close>

definition criteria_ids_ok :: "mission \<Rightarrow> bool" where
  "criteria_ids_ok m \<longleftrightarrow> (case ms_successCriterionIds m of
      None \<Rightarrow> True
    | Some ids \<Rightarrow> length ids = length (ms_successCriteria m) \<and> distinct ids \<and>
        (\<forall>i\<in>set ids. \<exists>k < default_to 1 (ms_nextSuccessCriterionId m). i = criterion_id k))"

lemma previous_ids_ok:
  assumes "criteria_ids_ok m" and "previous_ids m = (prev, nxt)"
  shows "length prev = length (ms_successCriteria m) \<and> distinct prev \<and> default_to 1 (ms_nextSuccessCriterionId m) \<le> nxt \<and>
    (\<forall>i\<in>set prev. \<exists>k<nxt. i = criterion_id k)"
proof (cases "ms_successCriterionIds m")
  case None
  then have p: "prev = map criterion_id [default_to 1 (ms_nextSuccessCriterionId m) ..<
      default_to 1 (ms_nextSuccessCriterionId m) + length (ms_successCriteria m)]"
    "nxt = default_to 1 (ms_nextSuccessCriterionId m) + length (ms_successCriteria m)"
    using assms(2) by (auto simp: previous_ids_def Let_def)
  show ?thesis by (auto simp: p distinct_map inj_on_def)
next
  case (Some ids)
  with assms show ?thesis by (auto simp: previous_ids_def Let_def criteria_ids_ok_def)
qed

lemma length_dedupe: "length (dedupe xs) = length xs \<longleftrightarrow> distinct xs"
proof
  assume "length (dedupe xs) = length xs"
  then have "card (set xs) = length xs" using distinct_card[of "dedupe xs"] by simp
  then show "distinct xs" by (rule card_distinct)
qed (simp add: dedupe_distinct)

lemma replace_criteria_Inr:
  assumes "replaceSuccessCriteria m texts ids = Inr m'"
  obtains prev nxt assigned next' where "previous_ids m = (prev, nxt)"
    "assign_ids (ms_successCriteria m) prev (ids \<noteq> None)
       (zip texts (case ids of None \<Rightarrow> replicate (length texts) None | Some is \<Rightarrow> is)) nxt = Inr (assigned, next')"
    "ids \<noteq> None \<Longrightarrow> length (the ids) = length texts" "distinct assigned"
    "m' = m\<lparr>ms_successCriteria := texts, ms_successCriterionIds := Some assigned,
       ms_nextSuccessCriterionId := Some next',
       ms_completedSuccessCriteria := map fst (filter (\<lambda>(index, i).
         Some i \<in> set (map (nth_opt prev) (ms_completedSuccessCriteria m))) (enumerate 0 assigned))\<rparr>"
proof -
  obtain prev nxt where p: "previous_ids m = (prev, nxt)" by fastforce
  show ?thesis
    using assms p by (auto simp: replaceSuccessCriteria_def Let_def try_bind_Inr length_dedupe
        split: if_splits prod.splits intro!: that)
qed

lemma enumerate_positions:
  "set (map fst (filter (\<lambda>(i, x). P x) (enumerate 0 xs))) = {i. i < length xs \<and> P (xs ! i)}"
  by (force simp: in_set_enumerate_eq)

section \<open>Properties\<close>

text \<open>C32: Criterion identities are issued once. Replacing the criteria of a mission, by text or with
  carried identities, leaves one identity per criterion, all distinct and all issued before the
  advanced counter; an identity in the result is one the mission had before or one never issued
  before; and a position is marked complete afterwards exactly when the identity it carries marked
  a completed criterion before.\<close>

theorem criterion_identity:
  assumes ok: "criteria_ids_ok m" and step: "replaceSuccessCriteria m texts ids = Inr m'"
    and prev: "previous_ids m = (prev, nxt)"
  shows "\<exists>assigned. criteria_ids_ok m' \<and> ms_successCriteria m' = texts \<and> ms_successCriterionIds m' = Some assigned \<and>
    length assigned = length texts \<and> distinct assigned \<and>
    default_to 1 (ms_nextSuccessCriterionId m) \<le> default_to 1 (ms_nextSuccessCriterionId m') \<and>
    (\<forall>i\<in>set assigned. i \<in> set prev \<or> (\<exists>k. nxt \<le> k \<and> k < default_to 1 (ms_nextSuccessCriterionId m') \<and>
      i = criterion_id k \<and> i \<notin> set prev)) \<and>
    set (ms_completedSuccessCriteria m') = {index. index < length texts \<and>
      (\<exists>done \<in> set (ms_completedSuccessCriteria m). nth_opt prev done = Some (assigned ! index))}"
  using step
proof (rule replace_criteria_Inr)
  fix prev' nxt' assigned next'
  assume p': "previous_ids m = (prev', nxt')" and d: "distinct assigned"
    and a: "assign_ids (ms_successCriteria m) prev' (ids \<noteq> None)
       (zip texts (case ids of None \<Rightarrow> replicate (length texts) None | Some is \<Rightarrow> is)) nxt' = Inr (assigned, next')"
    and l: "ids \<noteq> None \<Longrightarrow> length (the ids) = length texts"
    and m': "m' = m\<lparr>ms_successCriteria := texts, ms_successCriterionIds := Some assigned,
       ms_nextSuccessCriterionId := Some next',
       ms_completedSuccessCriteria := map fst (filter (\<lambda>(index, i).
         Some i \<in> set (map (nth_opt prev') (ms_completedSuccessCriteria m))) (enumerate 0 assigned))\<rparr>"
  have eq: "prev' = prev" "nxt' = nxt" using prev p' by simp_all
  note pok = previous_ids_ok[OF ok prev]
  note f = assign_ids_fresh[OF a[unfolded eq]]
  have len: "length assigned = length texts" using f l by (cases ids) auto
  have issued: "\<forall>i\<in>set assigned. \<exists>k<next'. i = criterion_id k" using f pok by (meson less_le_trans)
  have "i \<in> set prev \<or> (\<exists>k. nxt \<le> k \<and> k < next' \<and> i = criterion_id k \<and> i \<notin> set prev)" if "i \<in> set assigned" for i
    using f that by blast
  moreover have "set (ms_completedSuccessCriteria m') = {index. index < length texts \<and>
      (\<exists>done \<in> set (ms_completedSuccessCriteria m). nth_opt prev done = Some (assigned ! index))}"
  proof -
    have "ms_completedSuccessCriteria m' = map fst (filter (\<lambda>(i, x).
        Some x \<in> set (map (nth_opt prev) (ms_completedSuccessCriteria m))) (enumerate 0 assigned))"
      by (simp add: m' eq)
    then have "set (ms_completedSuccessCriteria m') = {i. i < length assigned \<and>
        Some (assigned ! i) \<in> set (map (nth_opt prev) (ms_completedSuccessCriteria m))}"
      using enumerate_positions[of "\<lambda>x. Some x \<in> set (map (nth_opt prev) (ms_completedSuccessCriteria m))" assigned]
      by simp
    then show ?thesis by (force simp: len)
  qed
  ultimately show ?thesis
    using len d issued f pok by (auto simp: m' criteria_ids_ok_def)
qed

definition sample_criteria_mission :: mission where
  "sample_criteria_mission = (case intakeMission \<lparr>mi_id = ''px-0001'', mi_repositoryId = ''repo'', mi_title = ''Title'',
       mi_labels = None, mi_assignee = None, mi_description = None, mi_rawStatus = None, mi_externalTaskRef = None\<rparr> of
     Inl _ \<Rightarrow> undefined | Inr m \<Rightarrow> m\<lparr>ms_successCriteria := [''a'', ''b''], ms_completedSuccessCriteria := [1]\<rparr>)"

theorem criterion_identity_witness:
  "\<exists>m' assigned. replaceSuccessCriteria sample_criteria_mission [''b'', ''c''] None = Inr m' \<and>
    ms_successCriterionIds m' = Some assigned \<and> distinct assigned \<and> length assigned = 2"
proof -
  have "is_ok (replaceSuccessCriteria sample_criteria_mission [''b'', ''c''] None) \<and>
      criteria_ids_ok sample_criteria_mission" by code_simp
  then obtain m' where m: "replaceSuccessCriteria sample_criteria_mission [''b'', ''c''] None = Inr m'"
      "criteria_ids_ok sample_criteria_mission" by (auto simp: is_ok_iff)
  obtain prev nxt where "previous_ids sample_criteria_mission = (prev, nxt)" by fastforce
  from criterion_identity[OF m(2,1) this] m(1) show ?thesis by auto
qed

text \<open>A closed mission stays closed at one canonical instant. Closing succeeds exactly on a done
  mission without a closing time and with a closing time that is an instant; the stored time then
  denotes the same millisecond, in the canonical spelling if its year has four digits, and closing
  again is refused.\<close>

lemma closing_is_canonical:
  assumes "closeMission m t = Inr m'"
  shows "ms_status m = Done \<and> ms_closedAt m = None \<and> isClosedMission m' \<and>
    (\<exists>ms c. parse_instant_ms t = Some ms \<and> m' = m\<lparr>ms_status := Done, ms_closedAt := Some c\<rparr> \<and>
      (four_digit_year ms \<longrightarrow> is_canonical_utc_instant c \<and> parse_instant_ms c = Some ms)) \<and>
    (\<forall>t'. closeMission m' t' = Inl (Already_closed (ms_id m)))"
proof -
  obtain c where c: "to_canonical_utc_instant t = Inr c" and m': "m' = m\<lparr>ms_status := Done, ms_closedAt := Some c\<rparr>"
    and st: "ms_status m = Done" "ms_closedAt m = None"
    using assms by (auto simp: closeMission_def isClosedMission_def split: if_splits sum.splits)
  obtain ms where ms: "parse_instant_ms t = Some ms"
    using c by (cases "parse_instant_ms t") (auto simp: to_canonical_utc_instant_def)
  have "four_digit_year ms \<Longrightarrow> is_canonical_utc_instant c \<and> parse_instant_ms c = Some ms"
    using canonical_idem[OF c ms] by simp
  then show ?thesis using m' st ms by (auto simp: isClosedMission_def closeMission_def)
qed

end
