(* ===== verification/MissionWorkflow.thy ===== *)
theory MissionWorkflow
  imports Missions Retention
begin

text \<open>
  The transition authority of a mission: \<open>decideMission\<close> of \<open>src/src/domain/mission-workflow.ts\<close>,
  with the repair facts it asks for (\<open>integration-repair-policy.ts\<close>). Comparing two values by their
  serialised text (\<open>JSON.stringify\<close>) is equality of the values here: the order of an object's
  properties is not modelled.
\<close>

section \<open>Integration repairs\<close>

text \<open>A withdrawn approval: the round, its approval and the gate failure that withdrew it.\<close>

definition gate_withdrawal :: "review_round \<Rightarrow> (approval \<times> revocation \<times> gate_failure) option" where
  "gate_withdrawal rd =
     (case approval_of (rd_decision rd) of
        None \<Rightarrow> None
      | Some a \<Rightarrow>
          (case ap_revocation a of
             None \<Rightarrow> None
           | Some rk \<Rightarrow>
               (case rk_cause rk of Some (Integration_gate_failure g) \<Rightarrow> Some (a, rk, g) | _ \<Rightarrow> None)))"

definition rounds_of :: "mission \<Rightarrow> review_round list" where
  "rounds_of mission = (case ms_review mission of None \<Rightarrow> [] | Some r \<Rightarrow> rounds r)"

definition integrationGateWithdrawals :: "mission \<Rightarrow> review_round list" where
  "integrationGateWithdrawals mission = filter (\<lambda>rd. gate_withdrawal rd \<noteq> None) (rounds_of mission)"

definition repairApproval :: "mission \<Rightarrow> review_round \<Rightarrow> review_round option" where
  "repairApproval mission withdrawn =
     find_first (\<lambda>rd. rd_number rd > rd_number withdrawn \<and> is_approval (rd_decision rd)) (rounds_of mission)"

definition integrationRepairNeedsReview :: "mission \<Rightarrow> bool" where
  "integrationRepairNeedsReview mission =
     (case ms_review mission of
        None \<Rightarrow> False
      | Some r \<Rightarrow>
          if (ms_status mission \<noteq> Active \<and> ms_status mission \<noteq> In_review) \<or> reviewStatus r = Status_approved then False
          else (case at_last (integrationGateWithdrawals mission) of
              None \<Rightarrow> False | Some withdrawn \<Rightarrow> repairApproval mission withdrawn = None))"

datatype re_review = Re_pending | Re_approved | Re_changes_requested

record repair_facts =
  fx_gate :: "string option"
  fx_command :: "string option"
  fx_log :: "string option"
  fx_approvedRevision :: revision
  fx_approvedBaseline :: "revision option"
  fx_repairedBaseline :: "revision option"
  fx_repairedRevision :: "revision option"
  fx_withdrawnAt :: string
  fx_reReview :: re_review

definition repairReviewOutcome :: "review_round \<Rightarrow> re_review" where
  "repairReviewOutcome rd =
     (if is_approval (rd_decision rd) then Re_approved
      else if is_request (rd_decision rd) then Re_changes_requested else Re_pending)"

definition repairRevision :: "review_round \<Rightarrow> revision" where
  "repairRevision rd = default_to (rr_revision (rd_subject rd)) (decidedRevisionOf (Some rd))"

definition recordedWithdrawal :: "mission \<Rightarrow> review_round option" where
  "recordedWithdrawal mission =
     (case at_last (integrationGateWithdrawals mission) of
        None \<Rightarrow> None
      | Some rd \<Rightarrow> if has_text (decidedRevisionOf (Some rd)) then Some rd else None)"

definition nonempty_text :: "string option \<Rightarrow> string option" where
  "nonempty_text t = (if has_text t then t else None)"

definition latestIntegrationRepair :: "mission \<Rightarrow> repair_facts option" where
  "latestIntegrationRepair mission =
     (case recordedWithdrawal mission of
        None \<Rightarrow> None
      | Some withdrawn \<Rightarrow>
          (case (case repairApproval mission withdrawn of Some rd \<Rightarrow> Some rd | None \<Rightarrow> at_last (rounds_of mission)) of
             None \<Rightarrow> None
           | Some current \<Rightarrow>
               if rd_number current \<le> rd_number withdrawn then None
               else (case gate_withdrawal withdrawn of
                   None \<Rightarrow> None
                 | Some (a, rk, cause) \<Rightarrow>
                     let approvedRevision = default_to [] (decidedRevisionOf (Some withdrawn));
                         latest = repairRevision current in
                     Some \<lparr>fx_gate = gf_gate cause, fx_command = given (gf_command cause), fx_log = given (gf_log cause),
                       fx_approvedRevision = approvedRevision,
                       fx_approvedBaseline = nonempty_text (rr_baseline (rd_subject withdrawn)),
                       fx_repairedBaseline = nonempty_text (rr_baseline (rd_subject current)),
                       fx_repairedRevision = (if latest = approvedRevision then None else Some latest),
                       fx_withdrawnAt = rk_revokedAt rk,
                       fx_reReview = repairReviewOutcome current\<rparr>)))"

definition pendingIntegrationApproval :: "mission \<Rightarrow> review_round option" where
  "pendingIntegrationApproval mission =
     (case ms_review mission of
        None \<Rightarrow> None
      | Some r \<Rightarrow>
          if ms_status mission \<notin> {Active, In_review} \<or> reviewStatus r \<noteq> Status_approved then None
          else let current = currentReviewRound r in
            (case rd_assessment current of
               None \<Rightarrow> None
             | Some a \<Rightarrow> if ia_repair a = None then None else Some current))"

section \<open>Commands\<close>

text \<open>\<open>ReboundCause\<close>: every revocation cause but the operator's.\<close>

datatype rebound_cause = Gate_rebound gate_failure | Review_rebound | Rebase_rebound

fun cause_of :: "rebound_cause \<Rightarrow> revocation_cause" where
  "cause_of (Gate_rebound g) = Integration_gate_failure g"
| "cause_of Review_rebound = Review_repair"
| "cause_of Rebase_rebound = Rebase_repair"

fun REBOUND_REASONS :: "rebound_cause \<Rightarrow> string" where
  "REBOUND_REASONS (Gate_rebound g) = ''Integration gates failed; the mission returned to implementation for repair.''"
| "REBOUND_REASONS Review_rebound = ''Review repair; the mission returned to implementation.''"
| "REBOUND_REASONS Rebase_rebound = ''Rebase repair; the mission returned to implementation.''"

record submission =
  sm_gatesPassed :: bool
  sm_preparedRevision :: "revision option"
  sm_review :: review
  sm_reviewerEligibility :: eligibility

datatype mission_command =
    Refine
  | Activate agent_family
  | Begin_review_preparation
  | Record_implementer agent_family
  | Abort_activation "agent_family option"
  | Rebound_to_active agent_family rebound_cause "string option"
  | Submit_for_review submission
  | Request_mission_changes review
  | Approve_mission review
  | Revoke_approval review
  | Integrate

datatype contract_part =
  Goal_and_why | Scope | Success_criterion | Checkpoint_plan | Verification_gate | Nel_bucket | Reproduction_test

datatype workflow_error =
    Mission_closed mission_command string
  | Status_refused mission_command string mission_status "mission_status list"
  | Contract_incomplete mission_command string "contract_part list"
  | Unknown_classification
  | Revision_not_preserved
  | Gates_not_passed | Evidence_missing | Submission_not_awaiting
  | Submission_refused review_error | Round_must_advance
  | Repair_owes_retention
  | Repair_time_missing | Repair_needs_gate_failure | Rebound_decided_review
  | Review_refused review_error
  | Identity_mismatch agent_family agent_family
  | Judgment_not_retained | Active_not_approvable | Not_approved
  | No_effective_approval | Revocation_not_awaiting
  | Request_not_awaiting_implementation | Approved_implementer_change

section \<open>Guards\<close>

definition missing_parts :: "mission \<Rightarrow> contract_part list" where
  "missing_parts mission =
     (case ms_brief mission of None \<Rightarrow> [Goal_and_why, Scope]
      | Some brief \<Rightarrow> if has_text (mb_scope brief) then [] else [Scope]) @
     (if ms_successCriteria mission = [] then [Success_criterion] else []) @
     (if ms_checkpoints mission = [] then [Checkpoint_plan] else []) @
     (if ms_declaredGates mission = [] then [Verification_gate] else []) @
     (if ms_predictedNelBucket mission = None then [Nel_bucket] else []) @
     (if ''bug'' \<in> set (ms_labels mission) \<and> \<not> has_text (ms_reproductionTest mission) then [Reproduction_test] else [])"

definition requireDraftedContract :: "mission \<Rightarrow> mission_command \<Rightarrow> workflow_error + unit" where
  "requireDraftedContract mission command =
     (let missing = missing_parts mission in
       if missing \<noteq> [] then Inl (Contract_incomplete command (ms_id mission) missing) else Inr ())"

definition requireStatus :: "mission \<Rightarrow> mission_status list \<Rightarrow> mission_command \<Rightarrow> workflow_error + unit" where
  "requireStatus mission allowed command =
     (if isClosedMission mission then Inl (Mission_closed command (ms_id mission))
      else if ms_status mission \<notin> set allowed
      then Inl (Status_refused command (ms_id mission) (ms_status mission) allowed)
      else Inr ())"

definition requireSameReviewedRevision :: "mission \<Rightarrow> review \<Rightarrow> workflow_error + unit" where
  "requireSameReviewedRevision mission proposed =
     (case ms_review mission of
        None \<Rightarrow> Inl Revision_not_preserved
      | Some recorded \<Rightarrow>
          if sameReviewedRevision (rd_subject (currentReviewRound recorded)) (rd_subject (currentReviewRound proposed))
          then Inr () else Inl Revision_not_preserved)"

definition requireRevocationSubject :: "review \<Rightarrow> review \<Rightarrow> workflow_error + unit" where
  "requireRevocationSubject recorded revoked =
     (let approved = currentReviewRound recorded; opened = currentReviewRound revoked in
       case at_last2 (rounds revoked) of
         None \<Rightarrow> Inl Revision_not_preserved
       | Some withdrawn \<Rightarrow>
           let superseding = Option.bind (approval_of (rd_decision withdrawn)) superseding_revision in
           if \<not> sameReviewedRevision (rd_subject approved) (rd_subject withdrawn) \<or>
              \<not> sameReviewedChange (rr_change (rd_subject approved)) (rr_change (rd_subject opened)) \<or>
              rr_revision (rd_subject opened) \<noteq> default_to (rr_revision (rd_subject approved)) superseding
           then Inl Revision_not_preserved else Inr ())"

definition hasApprovedRecordedRound :: "mission \<Rightarrow> bool" where
  "hasApprovedRecordedRound mission \<longleftrightarrow>
     ms_status mission = Active \<and>
     (case ms_review mission of None \<Rightarrow> False | Some r \<Rightarrow> rounds r \<noteq> [] \<and> reviewStatus r = Status_approved)"

definition validateReviewRound :: "review option \<Rightarrow> review \<Rightarrow> eligibility \<Rightarrow> workflow_error + unit" where
  "validateReviewRound recordedReview review elig =
     (let submitted = currentReviewRound review in
       if rd_reviewer submitted \<notin> set (reviewers elig)
       then Inl (Submission_refused (Reviewer_ineligible (rd_reviewer submitted)))
       else try_bind (map_error Submission_refused
           (requireSeparateReviewer (rd_reviewer submitted) (rd_implementer submitted) elig)) (\<lambda>_.
         try_bind (map_error Submission_refused (assertReviewedChange (rr_change (rd_subject submitted)))) (\<lambda>_.
           case recordedReview of
             None \<Rightarrow> Inr ()
           | Some rec \<Rightarrow>
               let recorded = currentReviewRound rec;
                   resubmission = (rd_number submitted = rd_number recorded \<and> rd_decision recorded = None) in
               if \<not> sameReviewedChange (rr_change (rd_subject recorded)) (rr_change (rd_subject submitted)) \<or>
                  (\<not> resubmission \<and> rd_number submitted \<le> rd_number recorded)
               then Inl Round_must_advance else Inr ())))"

definition validateSubmission :: "mission \<Rightarrow> submission \<Rightarrow> workflow_error + unit" where
  "validateSubmission mission s =
     (if \<not> sm_gatesPassed s then Inl Gates_not_passed
      else if \<not> list_ex (\<lambda>cp. cp_goalCheck cp \<noteq> []) (ms_checkpoints mission) then Inl Evidence_missing
      else if reviewStatus (sm_review s) \<noteq> Awaiting_review then Inl Submission_not_awaiting
      else validateReviewRound (ms_review mission) (sm_review s) (sm_reviewerEligibility s))"

definition completeReviewPreparation :: "mission \<Rightarrow> review option \<Rightarrow> revision option \<Rightarrow> mission" where
  "completeReviewPreparation mission review preparedRevision =
     (let submitted = mission\<lparr>ms_status := In_review, ms_review := review\<rparr> in
       case review of
         None \<Rightarrow> submitted
       | Some r \<Rightarrow>
           if Some (rr_revision (rd_subject (currentReviewRound r))) = preparedRevision
           then submitted\<lparr>ms_reviewPreparationPending := False\<rparr> else submitted)"

text \<open>The condition under which a submission repeats the recorded round instead of replacing it.\<close>

definition repeats_recorded :: "mission \<Rightarrow> review \<Rightarrow> review \<Rightarrow> bool" where
  "repeats_recorded mission recordedReview submittedReview \<longleftrightarrow>
     (let recorded = currentReviewRound recordedReview; submitted = currentReviewRound submittedReview in
       reviewStatus recordedReview = Status_approved \<or>
       (rd_number recorded = rd_number submitted \<and>
         ((rd_number recorded = 1 \<and> \<not> ms_reviewPreparationPending mission) \<or> rd_decision recorded \<noteq> None \<or>
          sameReviewedRevision (rd_subject recorded) (rd_subject submitted))))"

section \<open>Handlers\<close>

definition submit_new :: "mission \<Rightarrow> submission \<Rightarrow> workflow_error + mission" where
  "submit_new mission s =
     (if hasApprovedRecordedRound mission
      then Inr (completeReviewPreparation mission (ms_review mission) (sm_preparedRevision s))
      else try_bind (validateSubmission mission s) (\<lambda>_.
        Inr (completeReviewPreparation mission (Some (sm_review s)) (sm_preparedRevision s))))"

definition submitForReview :: "mission \<Rightarrow> submission \<Rightarrow> workflow_error + mission" where
  "submitForReview mission s =
     try_bind (requireStatus mission [Active, In_review] (Submit_for_review s)) (\<lambda>_.
       if pendingIntegrationApproval mission \<noteq> None then Inl Repair_owes_retention
       else case ms_review mission of
           Some recorded \<Rightarrow>
             if ms_status mission = In_review \<and> repeats_recorded mission recorded (sm_review s)
             then try_bind (if ms_reviewPreparationPending mission \<and> reviewStatus recorded \<noteq> Status_approved
                   then validateSubmission mission s else Inr ()) (\<lambda>_.
               Inr (completeReviewPreparation mission (Some recorded) (sm_preparedRevision s)))
             else submit_new mission s
         | None \<Rightarrow> submit_new mission s)"

definition approvableFromActiveLane :: "mission \<Rightarrow> bool" where
  "approvableFromActiveLane mission \<longleftrightarrow>
     (case ms_review mission of None \<Rightarrow> False | Some r \<Rightarrow> reviewStatus r = Awaiting_review) \<and>
     \<not> integrationRepairNeedsReview mission"

definition retainRepairJudgment ::
  "review \<Rightarrow> rebound_cause \<Rightarrow> string \<Rightarrow> workflow_error + review" where
  "retainRepairJudgment review cause occurredAt =
     (case cause of
        Gate_rebound g \<Rightarrow>
          let rd = currentReviewRound review;
              revision = default_to ''unknown'' (decidedRevisionOf (Some rd)) in
          Inr (review\<lparr>rounds := replaceCurrentRound review (rd\<lparr>rd_assessment := Some
            \<lparr>ia_assessedAt = occurredAt, ia_approvedRevision = revision, ia_candidateRevision = revision,
             ia_failedGate = gf_gate g, ia_outcome = Pending,
             ia_repair = Some \<lparr>ri_startedAt = occurredAt, ri_cause = g\<rparr>, ia_validation = None, ia_source = None,
             ia_normalReviewMs = None, ia_normalReviewCostUsd = None,
             ia_priorRestoration = preserveHistoricalRestoration (rd_assessment rd)\<rparr>\<rparr>)\<rparr>)
      | _ \<Rightarrow> Inl Repair_needs_gate_failure)"

fun is_gate_rebound :: "rebound_cause \<Rightarrow> bool" where
  "is_gate_rebound (Gate_rebound g) = True"
| "is_gate_rebound _ = False"

definition rebound_review :: "review option \<Rightarrow> rebound_cause \<Rightarrow> string option \<Rightarrow> workflow_error + review option" where
  "rebound_review recorded cause occurredAt =
     (case recorded of
        None \<Rightarrow> Inr None
      | Some r \<Rightarrow>
          if reviewStatus r \<noteq> Status_approved then Inr (Some r)
          else if is_gate_rebound cause
          then (case retainRepairJudgment r cause (default_to [] occurredAt) of Inl e \<Rightarrow> Inl e | Inr r' \<Rightarrow> Inr (Some r'))
          else (case revokeApprovedDecision r (rd_number (currentReviewRound r))
              \<lparr>rk_revokedAt = default_to [] occurredAt, rk_revokedBy = ''workflow'',
               rk_reason = REBOUND_REASONS cause, rk_cause = Some (cause_of cause)\<rparr> of
              Inl e \<Rightarrow> Inl (Review_refused e) | Inr r' \<Rightarrow> Inr (Some r')))"

definition reboundMission ::
  "mission \<Rightarrow> agent_family \<Rightarrow> rebound_cause \<Rightarrow> string option \<Rightarrow> workflow_error + mission" where
  "reboundMission mission agent cause occurredAt =
     try_bind (requireStatus mission [Integration, In_review, Active] (Rebound_to_active agent cause occurredAt)) (\<lambda>_.
       if is_gate_rebound cause \<and> date_parse (default_to [] occurredAt) = None then Inl Repair_time_missing
       else if pendingIntegrationApproval mission \<noteq> None
       then Inr (mission\<lparr>ms_status := Active, ms_assignee := Some agent\<rparr>)
       else if ms_status mission = In_review \<and> (case ms_review mission of None \<Rightarrow> False | Some r \<Rightarrow>
           reviewStatus r \<notin> {Awaiting_review, Awaiting_implementation, Ready_for_next_round})
       then Inl Rebound_decided_review
       else try_bind (rebound_review (ms_review mission) cause occurredAt) (\<lambda>review.
         Inr (mission\<lparr>ms_status := Active, ms_assignee := Some agent, ms_review := review\<rparr>)))"

definition requireReviewIdentity :: "mission \<Rightarrow> review \<Rightarrow> workflow_error + unit" where
  "requireReviewIdentity mission review =
     (let rd = currentReviewRound review in
       case ms_assignee mission of
         None \<Rightarrow> Inr ()
       | Some assignee \<Rightarrow>
           if assignee \<noteq> [] \<and> rd_implementer rd \<noteq> assignee
           then Inl (Identity_mismatch assignee (rd_implementer rd)) else Inr ())"

definition requireRetainedJudgment :: "mission \<Rightarrow> review \<Rightarrow> review_round \<Rightarrow> workflow_error + unit" where
  "requireRetainedJudgment mission review pending =
     (let retained = currentReviewRound review in
       case rd_assessment retained of
         None \<Rightarrow> Inl Judgment_not_retained
       | Some a \<Rightarrow>
           if ia_outcome a \<noteq> Retained \<or> \<not> retentionEvidenceMatches a (Some (ms_id mission)) None \<or>
              Some (ia_approvedRevision a) \<noteq> decidedRevisionOf (Some pending) \<or>
              rd_decision pending \<noteq> rd_decision retained \<or> rd_subject pending \<noteq> rd_subject retained \<or>
              Option.bind (rd_assessment pending) ia_repair \<noteq> ia_repair a \<or>
              length (rounds_of mission) \<noteq> length (rounds review)
           then Inl Judgment_not_retained else Inr ())"

definition approveMission :: "mission \<Rightarrow> review \<Rightarrow> workflow_error + mission" where
  "approveMission mission review =
     try_bind (requireStatus mission [In_review, Active] (Approve_mission review)) (\<lambda>_.
     try_bind (case pendingIntegrationApproval mission of
         None \<Rightarrow> Inr () | Some pending \<Rightarrow> requireRetainedJudgment mission review pending) (\<lambda>_.
       if ms_status mission = Active \<and> pendingIntegrationApproval mission = None \<and> \<not> approvableFromActiveLane mission
       then Inl Active_not_approvable
       else try_bind (requireSameReviewedRevision mission review) (\<lambda>_.
         if reviewStatus review \<noteq> Status_approved then Inl Not_approved
         else try_bind (requireReviewIdentity mission review) (\<lambda>_.
           Inr (mission\<lparr>ms_status := Integration, ms_review := Some review\<rparr>)))))"

definition revokeMissionApproval :: "mission \<Rightarrow> review \<Rightarrow> workflow_error + mission" where
  "revokeMissionApproval mission review =
     try_bind (requireStatus mission [Integration, Active, In_review] (Revoke_approval review)) (\<lambda>_.
       case ms_review mission of
         None \<Rightarrow> Inl No_effective_approval
       | Some recorded \<Rightarrow>
           if reviewStatus recorded \<noteq> Status_approved then Inl No_effective_approval
           else try_bind (requireRevocationSubject recorded review) (\<lambda>_.
             if reviewStatus review \<noteq> Awaiting_review then Inl Revocation_not_awaiting
             else let integrationRepair = (ms_status mission = Active \<and>
                    (case at_last2 (rounds review) of None \<Rightarrow> False | Some rd \<Rightarrow> gate_withdrawal rd \<noteq> None)) in
               Inr (mission\<lparr>ms_status := (if integrationRepair then Active else In_review), ms_review := Some review\<rparr>)))"

definition recordImplementer :: "mission \<Rightarrow> agent_family \<Rightarrow> workflow_error + mission" where
  "recordImplementer mission agent =
     try_bind (requireStatus mission [Active, In_review] (Record_implementer agent)) (\<lambda>_.
       case ms_review mission of
         None \<Rightarrow> Inr (mission\<lparr>ms_assignee := Some agent\<rparr>)
       | Some r \<Rightarrow>
           if reviewStatus r = Status_approved \<and> pendingIntegrationApproval mission = None
           then Inl Approved_implementer_change
           else let previous = currentReviewRound r; changed = (rd_implementer previous \<noteq> agent) in
             Inr (mission\<lparr>ms_assignee := Some agent,
               ms_review := Some (r\<lparr>rounds := replaceCurrentRound r (previous\<lparr>rd_implementer := agent,
                 rd_response := (if changed then None else rd_response previous),
                 rd_disposition := (if changed \<and> is_request (rd_decision previous) then Some REQUEST_CHANGES
                   else rd_disposition previous)\<rparr>)\<rparr>)\<rparr>))"

definition beginReviewPreparation :: "mission \<Rightarrow> workflow_error + mission" where
  "beginReviewPreparation mission =
     try_bind (requireStatus mission [Active, In_review, Integration] Begin_review_preparation) (\<lambda>_.
       Inr (mission\<lparr>ms_status := In_review,
         ms_reviewPreparationPending := (ms_status mission = Active \<or> ms_reviewPreparationPending mission)\<rparr>))"

definition refineMission :: "mission \<Rightarrow> workflow_error + mission" where
  "refineMission mission =
     try_bind (requireStatus mission [Backlog, Refined] Refine) (\<lambda>_.
     try_bind (requireDraftedContract mission Refine) (\<lambda>_.
       if ''unknown'' \<in> set (ms_labels mission) then Inl Unknown_classification
       else Inr (mission\<lparr>ms_status := Refined\<rparr>)))"

fun decideMission :: "mission \<Rightarrow> mission_command \<Rightarrow> workflow_error + mission" where
  "decideMission mission Begin_review_preparation = beginReviewPreparation mission"
| "decideMission mission Refine = refineMission mission"
| "decideMission mission (Activate agent) =
     try_bind (requireStatus mission [Refined, Active] (Activate agent)) (\<lambda>_.
     try_bind (if ms_brief mission \<noteq> None then requireDraftedContract mission (Activate agent) else Inr ()) (\<lambda>_.
       Inr (mission\<lparr>ms_status := Active, ms_assignee := Some agent\<rparr>)))"
| "decideMission mission (Abort_activation assignee) =
     try_bind (requireStatus mission [Refined, Active] (Abort_activation assignee)) (\<lambda>_.
       if ms_status mission = Refined then Inr mission
       else Inr (mission\<lparr>ms_status := Refined, ms_assignee := assignee\<rparr>))"
| "decideMission mission (Record_implementer agent) = recordImplementer mission agent"
| "decideMission mission (Rebound_to_active agent cause occurredAt) = reboundMission mission agent cause occurredAt"
| "decideMission mission (Submit_for_review s) = submitForReview mission s"
| "decideMission mission (Request_mission_changes review) =
     try_bind (requireStatus mission [In_review] (Request_mission_changes review)) (\<lambda>_.
     try_bind (requireSameReviewedRevision mission review) (\<lambda>_.
       if reviewStatus review \<noteq> Awaiting_implementation then Inl Request_not_awaiting_implementation
       else Inr (mission\<lparr>ms_status := Active, ms_review := Some review\<rparr>)))"
| "decideMission mission (Approve_mission review) = approveMission mission review"
| "decideMission mission (Revoke_approval review) = revokeMissionApproval mission review"
| "decideMission mission Integrate =
     try_bind (requireStatus mission [Integration] Integrate) (\<lambda>_.
       Inr (mission\<lparr>ms_status := Done, ms_closedAt := None\<rparr>))"

section \<open>Lemmas\<close>

lemma status_Inr [outcome]: "requireStatus m allowed c = Inr u \<longleftrightarrow> \<not> isClosedMission m \<and> ms_status m \<in> set allowed"
  by (auto simp: requireStatus_def)

lemma contract_Inr [outcome]: "requireDraftedContract m c = Inr u \<longleftrightarrow> missing_parts m = []"
  by (auto simp: requireDraftedContract_def Let_def)

lemma same_revision_Inr [outcome]: "requireSameReviewedRevision m r = Inr u \<longleftrightarrow>
    (\<exists>recorded. ms_review m = Some recorded \<and>
      sameReviewedRevision (rd_subject (currentReviewRound recorded)) (rd_subject (currentReviewRound r)))"
  by (auto simp: requireSameReviewedRevision_def split: option.splits)

lemma missing_parts_Nil: "missing_parts m = [] \<longleftrightarrow>
    (\<exists>b. ms_brief m = Some b \<and> has_text (mb_scope b)) \<and> ms_successCriteria m \<noteq> [] \<and> ms_checkpoints m \<noteq> [] \<and>
    ms_declaredGates m \<noteq> [] \<and> ms_predictedNelBucket m \<noteq> None \<and>
    (''bug'' \<in> set (ms_labels m) \<longrightarrow> has_text (ms_reproductionTest m))"
  by (auto simp: missing_parts_def split: option.splits)

lemma same_change_refl [simp]: "sameReviewedChange c c"
  by (cases c) (simp_all add: sameReviewedChange_def)

lemma same_revision_refl [simp]: "sameReviewedRevision s s"
  by (simp add: sameReviewedRevision_def)

lemma pending_Some: "pendingIntegrationApproval m = Some rd \<longleftrightarrow> (\<exists>r a. ms_review m = Some r \<and>
    ms_status m \<in> {Active, In_review} \<and> reviewStatus r = Status_approved \<and> rd = currentReviewRound r \<and>
    rd_assessment rd = Some a \<and> ia_repair a \<noteq> None)"
  by (auto simp: pendingIntegrationApproval_def Let_def split: option.splits)

text \<open>What an accepted approval established.\<close>

lemma approve_Inr:
  assumes "approveMission m r = Inr m'"
  obtains recorded where "\<not> isClosedMission m" "ms_status m = In_review \<or> ms_status m = Active"
    "ms_review m = Some recorded" "reviewStatus r = Status_approved"
    "sameReviewedRevision (rd_subject (currentReviewRound recorded)) (rd_subject (currentReviewRound r))"
    "requireReviewIdentity m r = Inr ()"
    "\<forall>pending. pendingIntegrationApproval m = Some pending \<longrightarrow> requireRetainedJudgment m r pending = Inr ()"
    "ms_status m = Active \<Longrightarrow> pendingIntegrationApproval m = None \<Longrightarrow> approvableFromActiveLane m"
    "m' = m\<lparr>ms_status := Integration, ms_review := Some r\<rparr>"
  using assms
  by (auto simp: approveMission_def try_bind_Inr status_Inr same_revision_Inr split: if_splits option.splits intro: that)

lemma judgment_Inr:
  "requireRetainedJudgment m r pending = Inr u \<longleftrightarrow> (\<exists>a. rd_assessment (currentReviewRound r) = Some a \<and>
    ia_outcome a = Retained \<and> retentionEvidenceMatches a (Some (ms_id m)) None \<and>
    decidedRevisionOf (Some pending) = Some (ia_approvedRevision a) \<and>
    rd_decision pending = rd_decision (currentReviewRound r) \<and> rd_subject pending = rd_subject (currentReviewRound r) \<and>
    Option.bind (rd_assessment pending) ia_repair = ia_repair a \<and> length (rounds_of m) = length (rounds r))"
  by (auto simp: requireRetainedJudgment_def Let_def split: option.splits)

lemma identity_Inr: "requireReviewIdentity m r = Inr u \<longleftrightarrow>
    (\<forall>a. ms_assignee m = Some a \<longrightarrow> a = [] \<or> rd_implementer (currentReviewRound r) = a)"
  by (auto simp: requireReviewIdentity_def Let_def split: option.splits)

section \<open>The mission as a machine\<close>

text \<open>What holds of every mission the workflow reaches: only a done mission has a closing time, and a
  mission in integration or done holds a review whose approval is in force, of the implementer the
  mission was assigned to at that moment.\<close>

definition mission_ok :: "mission \<Rightarrow> bool" where
  "mission_ok m \<longleftrightarrow> (ms_closedAt m \<noteq> None \<longrightarrow> ms_status m = Done) \<and>
     (ms_status m \<in> {Integration, Done} \<longrightarrow>
       (\<exists>r. ms_review m = Some r \<and> reviewStatus r = Status_approved \<and> requireReviewIdentity m r = Inr ()))"

lemma decide_not_closed: "decideMission m c = Inr m' \<Longrightarrow> \<not> isClosedMission m \<and> ms_status m \<noteq> Done"
  by (cases c)
    (auto simp: try_bind_Inr status_Inr beginReviewPreparation_def refineMission_def recordImplementer_def
      reboundMission_def submitForReview_def approveMission_def revokeMissionApproval_def)

lemma complete_preparation_fields:
  "ms_status (completeReviewPreparation m r p) = In_review" "ms_review (completeReviewPreparation m r p) = r"
  "ms_closedAt (completeReviewPreparation m r p) = ms_closedAt m"
  "ms_checkpoints (completeReviewPreparation m r p) = ms_checkpoints m"
  by (simp_all add: completeReviewPreparation_def Let_def split: option.split)

lemma complete_preparation_twice:
  "completeReviewPreparation (completeReviewPreparation m r p) r p = completeReviewPreparation m r p"
  by (simp add: completeReviewPreparation_def Let_def split: option.split)

lemma complete_preparation_pending:
  "ms_reviewPreparationPending (completeReviewPreparation m r p) \<Longrightarrow> ms_reviewPreparationPending m"
  by (auto simp: completeReviewPreparation_def Let_def split: option.splits if_splits)

lemma submit_Inr:
  assumes "submitForReview m s = Inr m'"
  obtains (replayed) recorded where "ms_review m = Some recorded" "ms_status m = In_review"
      "repeats_recorded m recorded (sm_review s)"
      "ms_reviewPreparationPending m \<Longrightarrow> reviewStatus recorded \<noteq> Status_approved \<Longrightarrow> validateSubmission m s = Inr ()"
      "m' = completeReviewPreparation m (Some recorded) (sm_preparedRevision s)"
      "pendingIntegrationApproval m = None"
  | (approved) recorded where "ms_review m = Some recorded" "reviewStatus recorded = Status_approved" "ms_status m = Active"
      "m' = completeReviewPreparation m (Some recorded) (sm_preparedRevision s)" "pendingIntegrationApproval m = None"
  | (submitted) "validateSubmission m s = Inr ()" "ms_status m = Active \<or> ms_status m = In_review"
      "m' = completeReviewPreparation m (Some (sm_review s)) (sm_preparedRevision s)"
  using assms
  by (auto simp: submitForReview_def submit_new_def hasApprovedRecordedRound_def try_bind_Inr status_Inr
      split: option.splits if_splits)

lemma submit_replay:
  assumes "ms_status m = In_review" and "pendingIntegrationApproval m = None" and "ms_review m = Some recorded"
    and "repeats_recorded m recorded (sm_review s)"
    and "ms_reviewPreparationPending m \<Longrightarrow> reviewStatus recorded \<noteq> Status_approved \<Longrightarrow> validateSubmission m s = Inr ()"
  shows "submitForReview m s = Inr (completeReviewPreparation m (Some recorded) (sm_preparedRevision s))"
  using assms by (auto simp: submitForReview_def requireStatus_def isClosedMission_def)

lemma pending_lanes:
  "ms_review m = ms_review m' \<Longrightarrow> ms_status m \<in> {Active, In_review} \<Longrightarrow> ms_status m' \<in> {Active, In_review} \<Longrightarrow>
    pendingIntegrationApproval m = pendingIntegrationApproval m'"
  by (simp add: pendingIntegrationApproval_def split: option.split)

lemma validate_submission_cong:
  "ms_checkpoints m = ms_checkpoints m' \<Longrightarrow> ms_review m = ms_review m' \<Longrightarrow> validateSubmission m s = validateSubmission m' s"
  by (simp add: validateSubmission_def)

lemma validate_own_review:
  assumes "validateSubmission m s = Inr ()" and "rd_decision (currentReviewRound (sm_review s)) = None"
    and "ms_checkpoints m' = ms_checkpoints m" and "ms_review m' = Some (sm_review s)"
  shows "validateSubmission m' s = Inr ()"
  using assms by (auto simp: validateSubmission_def validateReviewRound_def Let_def try_bind_Inr split: if_splits)

lemma submit_status:
  assumes "submitForReview m s = Inr m'"
  shows "ms_status m' = In_review \<and> ms_closedAt m' = ms_closedAt m"
  using assms
  by (auto simp: submitForReview_def submit_new_def try_bind_Inr complete_preparation_fields split: option.splits if_splits)

lemma decide_status:
  assumes "decideMission m c = Inr m'"
  shows "ms_status m' = Integration \<Longrightarrow> \<exists>r. c = Approve_mission r"
    and "ms_status m' = Done \<Longrightarrow> c = Integrate \<and> ms_status m = Integration \<and> m' = m\<lparr>ms_status := Done, ms_closedAt := None\<rparr>"
    and "ms_closedAt m' = ms_closedAt m \<or> ms_closedAt m' = None"
proof -
  have "(ms_status m' = Integration \<longrightarrow> (\<exists>r. c = Approve_mission r)) \<and>
    (ms_status m' = Done \<longrightarrow> c = Integrate \<and> ms_status m = Integration \<and> m' = m\<lparr>ms_status := Done, ms_closedAt := None\<rparr>) \<and>
    (ms_closedAt m' = ms_closedAt m \<or> ms_closedAt m' = None)"
  proof (cases c)
    case (Submit_for_review s)
    with assms submit_status show ?thesis by force
  next
    case (Record_implementer a)
    with assms show ?thesis
      by (auto simp: recordImplementer_def try_bind_Inr status_Inr Let_def split: option.splits if_splits)
  next
    case (Approve_mission r)
    with assms show ?thesis by (auto elim: approve_Inr)
  qed (use assms in \<open>auto simp: try_bind_Inr status_Inr beginReviewPreparation_def refineMission_def
      reboundMission_def revokeMissionApproval_def Let_def split: option.splits if_splits\<close>)
  then show "ms_status m' = Integration \<Longrightarrow> \<exists>r. c = Approve_mission r"
    and "ms_status m' = Done \<Longrightarrow> c = Integrate \<and> ms_status m = Integration \<and> m' = m\<lparr>ms_status := Done, ms_closedAt := None\<rparr>"
    and "ms_closedAt m' = ms_closedAt m \<or> ms_closedAt m' = None" by simp_all
qed

lemma decide_mission_ok:
  assumes ok: "mission_ok m" and step: "decideMission m c = Inr m'"
  shows "mission_ok m'"
proof -
  have "ms_status m \<noteq> Done" using decide_not_closed[OF step] by simp
  then have open_m: "ms_closedAt m = None" using ok by (auto simp: mission_ok_def)
  then have "ms_closedAt m' = None" using decide_status(3)[OF step] by auto
  moreover have "\<exists>r. ms_review m' = Some r \<and> reviewStatus r = Status_approved \<and> requireReviewIdentity m' r = Inr ()"
    if "ms_status m' = Integration"
  proof -
    from decide_status(1)[OF step that] obtain r where "c = Approve_mission r" ..
    with step show ?thesis by (auto simp: identity_Inr elim!: approve_Inr)
  qed
  moreover have "\<exists>r. ms_review m' = Some r \<and> reviewStatus r = Status_approved \<and> requireReviewIdentity m' r = Inr ()"
    if "ms_status m' = Done"
    using decide_status(2)[OF step that] ok by (auto simp: mission_ok_def identity_Inr)
  ultimately show ?thesis by (auto simp: mission_ok_def)
qed

interpretation mission_machine: absorbing_machine decideMission mission_ok "\<lambda>m. ms_status m = Done"
proof
  show "mission_ok t" if "mission_ok s" "decideMission s c = Inr t" for s c t
    using that by (rule decide_mission_ok)
  show "\<exists>e. decideMission s c = Inl e" if "ms_status s = Done" for s c
    using decide_not_closed[of s c] that by (cases "decideMission s c") auto
qed

lemma intake_mission_ok: "intakeMission i = Inr m \<Longrightarrow> mission_ok m \<and> ms_status m = Backlog"
  by (auto simp: intakeMission_def mission_ok_def split: if_splits)

section \<open>Properties\<close>

definition sample_brief :: mission_brief where
  "sample_brief = \<lparr>mb_goal = ''ship it'', mb_why = ''users asked'', mb_scope = Some ''one file'', mb_outOfScope = []\<rparr>"

definition sample_mission :: mission where
  "sample_mission = \<lparr>ms_id = ''px-0001'', ms_repositoryId = ''repo'', ms_title = ''Title'', ms_description = None,
     ms_labels = [''user_value''], ms_assignee = None, ms_checkpoints = [sample_checkpoint ''CP-1''],
     ms_brief = Some sample_brief, ms_declaredGates = [''npm test''], ms_successCriteria = [''builds''],
     ms_successCriterionIds = None, ms_nextSuccessCriterionId = None, ms_completedSuccessCriteria = [],
     ms_dependencies = [], ms_predictedNelBucket = Some Small, ms_reproductionTest = None, ms_review = None,
     ms_reviewPreparationPending = False, ms_netEngineeringLines = None, ms_rawStatus = None,
     ms_externalTaskRef = None, ms_status = Backlog, ms_closedAt = None\<rparr>"

definition sample_approved :: review where
  "sample_approved = (case applyReviewerCommand sample_review (Approve sample_approve) of
     Inl _ \<Rightarrow> sample_review | Inr r \<Rightarrow> r)"

definition sample_submission :: submission where
  "sample_submission = \<lparr>sm_gatesPassed = True, sm_preparedRevision = Some ''aaa'', sm_review = sample_review,
     sm_reviewerEligibility = sample_eligibility\<rparr>"

definition sample_gate_failure :: gate_failure where
  "sample_gate_failure = \<lparr>gf_gate = Some ''e2e'', gf_command = Absent, gf_log = Absent\<rparr>"

definition sample_commands :: "mission_command list" where
  "sample_commands = [Refine, Activate ''codex'', Begin_review_preparation, Submit_for_review sample_submission,
     Approve_mission sample_approved, Integrate]"

definition run_mission :: "mission_command list \<Rightarrow> workflow_error + mission" where
  "run_mission = run_steps decideMission sample_mission"

section \<open>The life of a mission\<close>

text \<open>What changes a mission between its intake and its closing: the commands of the workflow, the services that write
  its contract, evidence and statistics (which keep identity, lane, assignee, review and closing time), an
  assignment, a review that is written back, the recovery that sets a refined or done mission to work again
  (\<open>recoverMissionLifecycle\<close>), and the closing. A review written to a mission in integration or done keeps the
  approval of its current round but for the record of a moved branch, as the writers that act there do: the loop's
  bookkeeping, which never erases a decision, the review events and \<open>recordBranchMove\<close>. The one writer left
  out is the recovery of a commit that was landed by hand (\<open>recoverLandedMission\<close>), which records a mission as
  done that never had a review.\<close>

datatype life_event =
    Moved mission_command
  | Content_written mission
  | Assigned "agent_family option"
  | Review_written review
  | Recovered
  | Closed string

definition same_approval :: "review option \<Rightarrow> review \<Rightarrow> bool" where
  "same_approval recorded r \<longleftrightarrow>
     (let approval = (\<lambda>r. map_option (\<lambda>a. a\<lparr>ap_supersession := None\<rparr>) (approval_of (rd_decision (currentReviewRound r)))) in
       map_option approval recorded = Some (approval r))"

definition with_content :: "mission \<Rightarrow> mission \<Rightarrow> mission" where
  "with_content m content = content\<lparr>ms_id := ms_id m, ms_status := ms_status m, ms_assignee := ms_assignee m,
     ms_review := ms_review m, ms_closedAt := ms_closedAt m\<rparr>"

fun mission_life :: "mission \<Rightarrow> life_event \<Rightarrow> unit + mission" where
  "mission_life m (Moved c) = map_error (\<lambda>_. ()) (decideMission m c)"
| "mission_life m (Content_written content) = Inr (with_content m content)"
| "mission_life m (Assigned agent) = Inr (m\<lparr>ms_assignee := agent\<rparr>)"
| "mission_life m (Review_written r) =
     (if ms_status m \<in> {Integration, Done} \<and> \<not> same_approval (ms_review m) r then Inl () else Inr (m\<lparr>ms_review := Some r\<rparr>))"
| "mission_life m Recovered =
     (if ms_status m = Refined then Inr (m\<lparr>ms_status := Active\<rparr>)
      else if ms_status m = Done then Inr (m\<lparr>ms_status := Active, ms_closedAt := None\<rparr>) else Inl ())"
| "mission_life m (Closed closedAt) = map_error (\<lambda>_. ()) (closeMission m closedAt)"

definition approved_landing :: "mission \<Rightarrow> bool" where
  "approved_landing m \<longleftrightarrow> (ms_closedAt m \<noteq> None \<longrightarrow> ms_status m = Done) \<and>
     (ms_status m \<in> {Integration, Done} \<longrightarrow> (\<exists>r. ms_review m = Some r \<and> reviewStatus r = Status_approved))"

lemma decide_approved_landing:
  assumes ok: "approved_landing m" and step: "decideMission m c = Inr m'"
  shows "approved_landing m'"
proof -
  have open_m: "ms_closedAt m' = None"
    using decide_not_closed[OF step] decide_status(3)[OF step] ok by (auto simp: approved_landing_def)
  have "\<exists>r. ms_review m' = Some r \<and> reviewStatus r = Status_approved" if "ms_status m' = Integration"
  proof -
    from decide_status(1)[OF step that] obtain r where "c = Approve_mission r" ..
    with step show ?thesis by (auto elim!: approve_Inr)
  qed
  moreover have "\<exists>r. ms_review m' = Some r \<and> reviewStatus r = Status_approved" if "ms_status m' = Done"
    using decide_status(2)[OF step that] ok by (auto simp: approved_landing_def)
  ultimately show ?thesis using open_m by (auto simp: approved_landing_def)
qed

lemma same_approval_approved:
  "same_approval (Some old) r \<Longrightarrow> reviewStatus old = Status_approved \<Longrightarrow> reviewStatus r = Status_approved"
  by (cases "rd_decision (currentReviewRound r)" rule: approval_of.cases)
    (auto simp: same_approval_def status_cases effective_approval_iff dest!: arg_cong[where f = ap_revocation])

interpretation lives: guarded_machine mission_life approved_landing
proof
  fix m e m'
  assume ok: "approved_landing m" and step: "mission_life m e = Inr m'"
  show "approved_landing m'"
  proof (cases e)
    case (Moved c)
    then show ?thesis using decide_approved_landing[OF ok] step by simp
  next
    case (Closed t)
    then show ?thesis using ok step
      by (auto simp: closeMission_def approved_landing_def split: if_splits sum.splits)
  next
    case (Review_written r)
    then show ?thesis using ok step same_approval_approved by (auto simp: approved_landing_def split: if_splits)
  qed (use ok step in \<open>auto simp: approved_landing_def with_content_def split: if_splits\<close>)
qed

definition sample_intake :: mission_intake where
  "sample_intake = \<lparr>mi_id = ''px-0001'', mi_repositoryId = ''repo'', mi_title = ''Title'', mi_labels = None,
     mi_assignee = None, mi_description = None, mi_rawStatus = None, mi_externalTaskRef = None\<rparr>"

definition sample_life :: "life_event list" where
  "sample_life = Content_written sample_mission # map Moved sample_commands @ [Closed ''2026-01-03T00:00:00Z'']"

text \<open>C1: Nothing lands without an approval in force. From intake on, whatever workflow commands are accepted and
  whatever is written in between (contract, evidence, assignments, reviews, the record of a moved branch, a recovery, the closing),
  a mission that is in integration or done holds a review whose current round carries an approval that is not
  revoked, and only done missions have a closing time. A review written outside the workflow commands is any review
  up to integration; from there on it keeps the current round's approval but for the record of a moved branch. Not
  covered is the recovery of a commit landed by hand (\<open>recoverLandedMission\<close>), which writes a done mission
  without a review.\<close>

theorem landing_needs_approval:
  assumes "intakeMission i = Inr m" and "reachable_by mission_life m m'"
  shows "(ms_status m' = Integration \<or> ms_status m' = Done \<longrightarrow>
      (\<exists>r a. ms_review m' = Some r \<and> rd_decision (currentReviewRound r) = Some (Approved a) \<and> ap_revocation a = None)) \<and>
    (ms_closedAt m' \<noteq> None \<longrightarrow> ms_status m' = Done)"
proof -
  have "approved_landing m" using intake_mission_ok[OF assms(1)] by (auto simp: approved_landing_def mission_ok_def)
  with assms(2) have "approved_landing m'" by (rule lives.reachable_inv)
  then show ?thesis by (auto simp: approved_landing_def status_cases effective_approval_iff)
qed

theorem landing_needs_approval_witness:
  "\<exists>m m' r a. intakeMission sample_intake = Inr m \<and> reachable_by mission_life m m' \<and> ms_status m' = Done \<and>
    ms_closedAt m' \<noteq> None \<and> ms_review m' = Some r \<and> rd_decision (currentReviewRound r) = Some (Approved a) \<and>
    ap_revocation a = None"
proof -
  have "case intakeMission sample_intake of Inl _ \<Rightarrow> False | Inr m \<Rightarrow>
      (case run_steps mission_life m sample_life of Inl _ \<Rightarrow> False
       | Inr m' \<Rightarrow> ms_status m' = Done \<and> ms_closedAt m' \<noteq> None)" by code_simp
  then obtain m m' where m: "intakeMission sample_intake = Inr m" "run_steps mission_life m sample_life = Inr m'"
    "ms_status m' = Done" "ms_closedAt m' \<noteq> None" by (auto split: sum.splits)
  from landing_needs_approval[OF m(1) run_steps_reachable[OF m(2)]] m run_steps_reachable[OF m(2)] show ?thesis by blast
qed

text \<open>Done is final for the workflow: on a done mission, closed or not, every command is refused,
  so no sequence of commands changes it; and done is entered by integrating from integration only,
  which changes nothing but the status and leaves the mission to be closed.\<close>

lemma done_is_final:
  "(ms_status m = Done \<longrightarrow> (\<forall>c. \<exists>e. decideMission m c = Inl e) \<and>
      (\<forall>cs. accept_steps decideMission m cs = m)) \<and>
   (ms_status m \<noteq> Done \<longrightarrow> (\<forall>c m'. decideMission m c = Inr m' \<and> ms_status m' = Done \<longrightarrow>
      c = Integrate \<and> ms_status m = Integration \<and> m' = m\<lparr>ms_status := Done, ms_closedAt := None\<rparr>))"
proof -
  have stuck: "\<exists>e. decideMission m c = Inl e" if "ms_status m = Done" for c
    using decide_not_closed[of m c] that by (cases "decideMission m c") auto
  have "accept_steps decideMission m cs = m" if "ms_status m = Done" for cs
  proof (induction cs)
    case Nil
    then show ?case by simp
  next
    case (Cons c cs)
    with stuck[OF that, of c] show ?case by auto
  qed
  with stuck show ?thesis using decide_status(2) by blast
qed

text \<open>C2: Approval is of the exact revision under review. An accepted command that puts a mission in
  integration is the approval of a review that is approved, whose current round reviews the change
  and revision the recorded round reviewed, by the implementer the mission is assigned to. From the
  active lane it is accepted only for a recorded round that awaits review with no gate repair owing
  a review, or for a repair that kept its judgment.\<close>

theorem approval_of_exact_revision:
  assumes step: "decideMission m c = Inr m'" and lane: "ms_status m' = Integration"
  shows "\<exists>r recorded. c = Approve_mission r \<and> ms_review m = Some recorded \<and> m' = m\<lparr>ms_status := Integration, ms_review := Some r\<rparr> \<and>
    reviewStatus r = Status_approved \<and>
    sameReviewedRevision (rd_subject (currentReviewRound recorded)) (rd_subject (currentReviewRound r)) \<and>
    (\<forall>agent. ms_assignee m = Some agent \<longrightarrow> agent = [] \<or> rd_implementer (currentReviewRound r) = agent) \<and>
    (ms_status m = In_review \<or> (ms_status m = Active \<and> (pendingIntegrationApproval m \<noteq> None \<or>
      (reviewStatus recorded = Awaiting_review \<and> \<not> integrationRepairNeedsReview m))))"
proof -
  from decide_status(1)[OF step lane] obtain r where c: "c = Approve_mission r" ..
  with step have "approveMission m r = Inr m'" by simp
  then show ?thesis
  proof (rule approve_Inr)
    fix recorded
    assume facts: "ms_status m = In_review \<or> ms_status m = Active" "ms_review m = Some recorded"
      "reviewStatus r = Status_approved"
      "sameReviewedRevision (rd_subject (currentReviewRound recorded)) (rd_subject (currentReviewRound r))"
      "requireReviewIdentity m r = Inr ()" "m' = m\<lparr>ms_status := Integration, ms_review := Some r\<rparr>"
    assume lanes: "ms_status m = Active \<Longrightarrow> pendingIntegrationApproval m = None \<Longrightarrow> approvableFromActiveLane m"
    have "ms_status m = In_review \<or> (ms_status m = Active \<and> (pendingIntegrationApproval m \<noteq> None \<or>
      (reviewStatus recorded = Awaiting_review \<and> \<not> integrationRepairNeedsReview m)))"
      using facts(1,2) lanes by (auto simp: approvableFromActiveLane_def)
    with c facts show ?thesis by (auto simp: identity_Inr)
  qed
qed

theorem approval_of_exact_revision_witness:
  "\<exists>m m'. run_mission (take 4 sample_commands) = Inr m \<and> decideMission m (Approve_mission sample_approved) = Inr m' \<and>
    reviewStatus sample_approved = Status_approved"
proof -
  have "case run_mission (take 4 sample_commands) of Inl _ \<Rightarrow> False | Inr m \<Rightarrow>
      (case decideMission m (Approve_mission sample_approved) of Inl _ \<Rightarrow> False | Inr m' \<Rightarrow> ms_status m' = Integration)"
    by code_simp
  then obtain m m' where m: "run_mission (take 4 sample_commands) = Inr m"
      "decideMission m (Approve_mission sample_approved) = Inr m'" "ms_status m' = Integration"
    by (cases "run_mission (take 4 sample_commands)") (auto split: sum.splits)
  from approval_of_exact_revision[OF m(2,3)] m show ?thesis by auto
qed

text \<open>A mission leaves draft with its whole contract. Refining succeeds exactly for a backlog or
  refined mission, not closed, that has a brief with a scope, success criteria, a checkpoint plan,
  declared gates, a predicted bucket, a reproduction test if it is a bug, and no unknown
  classification; activating demands the same contract of every mission with a brief.\<close>

lemma refine_needs_contract:
  "(decideMission m Refine = Inr m' \<longleftrightarrow>
      \<not> isClosedMission m \<and> ms_status m \<in> {Backlog, Refined} \<and>
      (\<exists>b. ms_brief m = Some b \<and> has_text (mb_scope b)) \<and> ms_successCriteria m \<noteq> [] \<and> ms_checkpoints m \<noteq> [] \<and>
      ms_declaredGates m \<noteq> [] \<and> ms_predictedNelBucket m \<noteq> None \<and>
      (''bug'' \<in> set (ms_labels m) \<longrightarrow> has_text (ms_reproductionTest m)) \<and> ''unknown'' \<notin> set (ms_labels m) \<and>
      m' = m\<lparr>ms_status := Refined\<rparr>) \<and>
   (decideMission m (Activate agent) = Inr m'' \<longleftrightarrow>
      \<not> isClosedMission m \<and> ms_status m \<in> {Refined, Active} \<and> (ms_brief m \<noteq> None \<longrightarrow> missing_parts m = []) \<and>
      m'' = m\<lparr>ms_status := Active, ms_assignee := Some agent\<rparr>)"
  by (auto simp: refineMission_def try_bind_Inr status_Inr contract_Inr missing_parts_Nil split: if_splits)

text \<open>A witness for the positive direction: the sample contract is complete.\<close>

text \<open>A red integration gate keeps the judgment but not the permission to land. Sending an
  approved mission in integration back for a gate failure, with a real failure time, makes it active
  with the same approval in force and a pending repair that started at that time for that gate;
  from then on submitting is refused, and approving is accepted only with an assessment that
  retained the original decision and subject of that very incident on evidence that proves it.\<close>

lemma gate_failure_owes_proof:
  assumes r: "ms_review m = Some r" and appr: "reviewStatus r = Status_approved" and ne: "rounds r \<noteq> []"
    and lane: "ms_status m = Integration" and time: "date_parse t \<noteq> None"
  shows "\<exists>m' r' pending. decideMission m (Rebound_to_active agent (Gate_rebound g) (Some t)) = Inr m' \<and>
    ms_status m' = Active \<and> ms_assignee m' = Some agent \<and> ms_review m' = Some r' \<and> reviewStatus r' = Status_approved \<and>
    rd_decision (currentReviewRound r') = rd_decision (currentReviewRound r) \<and> length (rounds r') = length (rounds r) \<and>
    pendingIntegrationApproval m' = Some pending \<and>
    Option.bind (rd_assessment pending) ia_repair = Some \<lparr>ri_startedAt = t, ri_cause = g\<rparr> \<and>
    (\<forall>s. decideMission m' (Submit_for_review s) = Inl Repair_owes_retention) \<and>
    (\<forall>q m''. decideMission m' (Approve_mission q) = Inr m'' \<longrightarrow>
      rd_decision (currentReviewRound q) = rd_decision (currentReviewRound r) \<and>
      rd_subject (currentReviewRound q) = rd_subject (currentReviewRound r) \<and>
      (\<exists>a v gate. rd_assessment (currentReviewRound q) = Some a \<and> ia_outcome a = Retained \<and>
        retention_proof a v \<lparr>ri_startedAt = t, ri_cause = g\<rparr> gate \<and> gf_gate g = Some gate \<and>
        (ms_id m = [] \<or> vm_missionId v = ms_id m)))"
proof -
  let ?cur = "currentReviewRound r"
  obtain r' where r': "retainRepairJudgment r (Gate_rebound g) t = Inr r'" by (simp add: retainRepairJudgment_def Let_def)
  then obtain a where a: "r' = r\<lparr>rounds := replaceCurrentRound r (?cur\<lparr>rd_assessment := Some a\<rparr>)\<rparr>"
      "ia_repair a = Some \<lparr>ri_startedAt = t, ri_cause = g\<rparr>"
    by (auto simp: retainRepairJudgment_def Let_def simp del: replace_current)
  have cur: "currentReviewRound r' = ?cur\<lparr>rd_assessment := Some a\<rparr>" unfolding a by simp
  have st: "reviewStatus r' = Status_approved" using appr by (simp add: status_cases cur)
  have len: "length (rounds r') = length (rounds r)" using ne unfolding a by simp
  let ?m' = "m\<lparr>ms_status := Active, ms_assignee := Some agent, ms_review := Some r'\<rparr>"
  have np: "pendingIntegrationApproval m = None" using lane by (simp add: pendingIntegrationApproval_def split: option.split)
  have step: "decideMission m (Rebound_to_active agent (Gate_rebound g) (Some t)) = Inr ?m'"
    using lane r appr time np r'
    by (simp add: reboundMission_def requireStatus_def isClosedMission_def rebound_review_def)
  have pend: "pendingIntegrationApproval ?m' = Some (?cur\<lparr>rd_assessment := Some a\<rparr>)"
    using st cur a(2) by (simp add: pending_Some)
  have sub: "decideMission ?m' (Submit_for_review s) = Inl Repair_owes_retention" for s
    using pend by (simp add: submitForReview_def requireStatus_def isClosedMission_def)
  have appr_q: "rd_decision (currentReviewRound q) = rd_decision ?cur \<and> rd_subject (currentReviewRound q) = rd_subject ?cur \<and>
      (\<exists>b v gate. rd_assessment (currentReviewRound q) = Some b \<and> ia_outcome b = Retained \<and>
        retention_proof b v \<lparr>ri_startedAt = t, ri_cause = g\<rparr> gate \<and> gf_gate g = Some gate \<and>
        (ms_id m = [] \<or> vm_missionId v = ms_id m))"
    if "decideMission ?m' (Approve_mission q) = Inr m''" for q m''
  proof -
    have "approveMission ?m' q = Inr m''" using that by simp
    then have "requireRetainedJudgment ?m' q (?cur\<lparr>rd_assessment := Some a\<rparr>) = Inr ()"
      using pend by (auto elim: approve_Inr)
    then obtain b where b: "rd_assessment (currentReviewRound q) = Some b" "ia_outcome b = Retained"
        "retentionEvidenceMatches b (Some (ms_id m)) None" "rd_decision ?cur = rd_decision (currentReviewRound q)"
        "rd_subject ?cur = rd_subject (currentReviewRound q)" "ia_repair b = Some \<lparr>ri_startedAt = t, ri_cause = g\<rparr>"
      using a(2) by (auto simp: judgment_Inr)
    then obtain v i gate where v: "retention_proof b v i gate" "ms_id m = [] \<or> vm_missionId v = ms_id m"
      by (auto simp: retention_iff)
    then have i: "i = \<lparr>ri_startedAt = t, ri_cause = g\<rparr>" using b(6) by (simp add: retention_proof_def)
    then have "gf_gate g = Some gate" using v(1) by (simp add: retention_proof_def)
    then show ?thesis using b v i by auto
  qed
  show ?thesis
    using step st cur len pend a(2) sub appr_q
    by (intro exI[of _ ?m'] exI[of _ r'] exI[of _ "?cur\<lparr>rd_assessment := Some a\<rparr>"]) simp
qed

text \<open>Submitting for review is idempotent. A submission that was accepted and is replayed
  unchanged, as a relaunched preparation does, is accepted again and changes nothing, provided the
  submitted review's current round is undecided.\<close>

lemma submit_is_idempotent:
  assumes first: "decideMission m (Submit_for_review s) = Inr m'"
    and undecided: "rd_decision (currentReviewRound (sm_review s)) = None"
  shows "decideMission m' (Submit_for_review s) = Inr m'"
proof -
  let ?p = "sm_preparedRevision s"
  have "submitForReview m s = Inr m'" using first by simp
  then have "submitForReview m' s = Inr m'"
  proof (cases rule: submit_Inr)
    case (replayed recorded)
    have "submitForReview m' s = Inr (completeReviewPreparation m' (Some recorded) ?p)"
    proof (rule submit_replay)
      show "pendingIntegrationApproval m' = None"
        using replayed pending_lanes[of m' m] by (simp add: complete_preparation_fields)
      show "repeats_recorded m' recorded (sm_review s)"
        using replayed complete_preparation_pending[of m "Some recorded" ?p]
        by (auto simp: repeats_recorded_def Let_def)
      show "validateSubmission m' s = Inr ()" if "ms_reviewPreparationPending m'" "reviewStatus recorded \<noteq> Status_approved"
        using that replayed complete_preparation_pending[of m "Some recorded" ?p] validate_submission_cong[of m' m s]
        by (simp add: complete_preparation_fields)
    qed (simp_all add: replayed complete_preparation_fields)
    then show ?thesis by (simp add: replayed(5) complete_preparation_twice)
  next
    case (approved recorded)
    have "submitForReview m' s = Inr (completeReviewPreparation m' (Some recorded) ?p)"
    proof (rule submit_replay)
      show "pendingIntegrationApproval m' = None"
        using approved pending_lanes[of m' m] by (simp add: complete_preparation_fields)
    qed (use approved in \<open>simp_all add: complete_preparation_fields repeats_recorded_def\<close>)
    then show ?thesis by (simp add: approved(4) complete_preparation_twice)
  next
    case submitted
    have st: "reviewStatus (sm_review s) = Awaiting_review"
      using submitted(1) by (auto simp: validateSubmission_def split: if_splits)
    have "submitForReview m' s = Inr (completeReviewPreparation m' (Some (sm_review s)) ?p)"
    proof (rule submit_replay)
      show "pendingIntegrationApproval m' = None"
        using st by (simp add: submitted(3) pendingIntegrationApproval_def complete_preparation_fields)
      show "repeats_recorded m' (sm_review s) (sm_review s)" by (simp add: repeats_recorded_def Let_def)
      show "validateSubmission m' s = Inr ()"
        by (rule validate_own_review[OF submitted(1) undecided]) (simp_all add: submitted(3) complete_preparation_fields)
    qed (simp_all add: submitted(3) complete_preparation_fields)
    then show ?thesis by (simp add: submitted(3) complete_preparation_twice)
  qed
  then show ?thesis by simp
qed

text \<open>Any other repair withdraws the approval. Sending an approved mission in integration back for
  a review or rebase repair, at a given time, revokes the approval with that cause and opens a fresh
  round that awaits review: the mission is active, and the old round keeps its approval with the
  recorded revocation.\<close>

lemma repair_withdraws_approval:
  assumes r: "ms_review m = Some r" and appr: "rd_decision (currentReviewRound r) = Some (Approved a)"
    and force: "ap_revocation a = None" and lane: "ms_status m = Integration" and conv: "conversation ck r"
    and safe: "safe_integer (rd_number (currentReviewRound r))"
    and cause: "cause = Review_rebound \<or> cause = Rebase_rebound" and time: "\<not> blank t"
  shows "\<exists>m' r' kept opened. decideMission m (Rebound_to_active agent cause (Some t)) = Inr m' \<and>
    ms_status m' = Active \<and> ms_assignee m' = Some agent \<and> ms_review m' = Some r' \<and> reviewStatus r' = Awaiting_review \<and>
    rounds r' = butlast (rounds r) @ [kept, opened] \<and>
    rd_decision kept = Some (Approved (a\<lparr>ap_revocation := Some \<lparr>rk_revokedAt = t, rk_revokedBy = ''workflow'',
      rk_reason = REBOUND_REASONS cause, rk_cause = Some (cause_of cause)\<rparr>\<rparr>))"
proof -
  let ?rk = "\<lparr>rk_revokedAt = t, rk_revokedBy = ''workflow'', rk_reason = REBOUND_REASONS cause,
    rk_cause = Some (cause_of cause)\<rparr>"
  have st: "reviewStatus r = Status_approved" using appr force by (simp add: status_cases effective_approval_iff)
  have reasons: "\<not> blank (rk_reason ?rk)" "\<not> blank (rk_revokedBy ?rk)" "\<not> blank (rk_revokedAt ?rk)"
    using cause time by (auto simp: blank_code js_space_def Let_def)
  obtain r' opened where
    rev: "revokeApprovedDecision r (rd_number (currentReviewRound r)) ?rk = Inr r'" "reviewStatus r' = Awaiting_review"
      "rounds r' = butlast (rounds r) @ [(currentReviewRound r)\<lparr>rd_decision := Some (Approved (a\<lparr>ap_revocation := Some ?rk\<rparr>))\<rparr>, opened]"
    by (rule revoke_effective[OF conv appr force safe reasons]) (rule that)
  have np: "pendingIntegrationApproval m = None" using lane by (simp add: pendingIntegrationApproval_def split: option.split)
  have "decideMission m (Rebound_to_active agent cause (Some t)) =
      Inr (m\<lparr>ms_status := Active, ms_assignee := Some agent, ms_review := Some r'\<rparr>)"
    using lane r st np rev(1) cause
    by (auto simp: reboundMission_def requireStatus_def isClosedMission_def rebound_review_def)
  with rev show ?thesis by fastforce
qed

end
