(* ===== verification/Operations.thy ===== *)
theory Operations
  imports MissionWorkflow
begin

text \<open>
  Admitted workflow commands and their ownership: \<open>src/src/domain/workflow-operation.ts\<close>, and the
  eligibility of a command (\<open>workflow-command-policy.ts\<close>).
\<close>

datatype workflow_command = Active_execute | Draft_create | Review_submit | Integrate_merge

fun command_text :: "workflow_command \<Rightarrow> string" where
  "command_text Active_execute = ''active:execute''"
| "command_text Draft_create = ''draft:create''"
| "command_text Review_submit = ''review:submit''"
| "command_text Integrate_merge = ''integrate:merge''"

definition isWorkflowCommand :: "string \<Rightarrow> bool" where
  "isWorkflowCommand kind \<longleftrightarrow>
     kind \<in> set [''active:execute'', ''draft:create'', ''review:submit'', ''integrate:merge'']"

datatype workflow_phase = Accepted | Executing | Stopping | Completed | Blocked | Interrupted | Stopped

record process_owner =
  ow_pid :: int
  ow_identity :: string

record workflow_operation =
  wo_activationVersion :: "int option"
  wo_id :: string
  wo_repositoryId :: string
  wo_missionId :: string
  wo_requestKey :: string
  wo_command :: workflow_command
  wo_generation :: int
  wo_phase :: workflow_phase
  wo_providerStarted :: bool
  wo_agent :: "string option"
  wo_reviewer :: "string option"
  wo_originalStatus :: mission_status
  wo_previousAssignee :: "string option"
  wo_owner :: "process_owner option"
  wo_launcher :: "process_owner option"
  wo_createdAt :: string
  wo_updatedAt :: string
  wo_reason :: "string option"

datatype operation_error =
    Ownership_fenced | Workflow_settled | Workflow_identity | Not_unclaimed_intent
  | Already_claimed | Owner_identity | Termination_not_requested

definition isOpenWorkflow :: "workflow_operation \<Rightarrow> bool" where
  "isOpenWorkflow operation \<longleftrightarrow> wo_phase operation \<in> {Accepted, Executing, Stopping}"

definition requireWorkflowOwner :: "workflow_operation \<Rightarrow> int \<Rightarrow> operation_error + unit" where
  "requireWorkflowOwner operation generation =
     (if wo_generation operation \<noteq> generation \<or> wo_phase operation \<noteq> Executing \<or> wo_owner operation = None
      then Inl Ownership_fenced else Inr ())"

definition finishWorkflow ::
  "workflow_operation \<Rightarrow> int \<Rightarrow> bool \<Rightarrow> string option \<Rightarrow> string \<Rightarrow> operation_error + workflow_operation" where
  "finishWorkflow operation generation success reason now =
     try_bind (requireWorkflowOwner operation generation) (\<lambda>_.
       Inr (operation\<lparr>wo_phase := (if success then Completed else Blocked), wo_reason := reason,
         wo_updatedAt := now\<rparr>))"

definition requestWorkflowStop :: "workflow_operation \<Rightarrow> string \<Rightarrow> operation_error + workflow_operation" where
  "requestWorkflowStop operation now =
     (if \<not> isOpenWorkflow operation then Inl Workflow_settled
      else Inr (operation\<lparr>wo_phase := Stopping, wo_updatedAt := now\<rparr>))"

text \<open>\<open>liveness\<close> is \<open>false | null\<close>: \<open>True\<close> here when the owner is known dead.\<close>

definition loseWorkflowOwner ::
  "workflow_operation \<Rightarrow> int \<Rightarrow> bool \<Rightarrow> string \<Rightarrow> operation_error + workflow_operation" where
  "loseWorkflowOwner operation generation known_dead now =
     try_bind (requireWorkflowOwner operation generation) (\<lambda>_.
       Inr (operation\<lparr>wo_phase := (if known_dead then Interrupted else Stopping), wo_updatedAt := now,
         wo_reason := Some (if known_dead
           then ''Workflow owner exited; reconcile external effects before explicitly resuming''
           else ''Workflow ownership is uncertain; replacement is refused until termination is confirmed'')\<rparr>))"

definition workflowOperation :: "workflow_operation \<Rightarrow> operation_error + workflow_operation" where
  "workflowOperation operation =
     (if blank (wo_id operation) \<or> 128 < length (wo_id operation) \<or> blank (wo_requestKey operation) \<or>
         128 < length (wo_requestKey operation)
      then Inl Workflow_identity
      else if wo_phase operation \<noteq> Accepted \<or> wo_owner operation \<noteq> None \<or> wo_generation operation \<noteq> 0 \<or>
         wo_providerStarted operation
      then Inl Not_unclaimed_intent
      else Inr operation)"

definition claimWorkflow ::
  "workflow_operation \<Rightarrow> process_owner \<Rightarrow> string \<Rightarrow> operation_error + workflow_operation" where
  "claimWorkflow operation owner now =
     (if wo_phase operation \<noteq> Accepted \<or> wo_owner operation \<noteq> None then Inl Already_claimed
      else if \<not> safe_integer (ow_pid owner) \<or> ow_pid owner < 1 \<or> blank (ow_identity owner) then Inl Owner_identity
      else Inr (operation\<lparr>wo_owner := Some owner, wo_generation := wo_generation operation + 1,
        wo_phase := Executing, wo_updatedAt := now\<rparr>))"

definition settleWorkflowStop :: "workflow_operation \<Rightarrow> string \<Rightarrow> operation_error + workflow_operation" where
  "settleWorkflowStop operation now =
     (if wo_phase operation \<noteq> Stopping then Inl Termination_not_requested
      else Inr (operation\<lparr>wo_generation := wo_generation operation + 1, wo_phase := Stopped,
        wo_reason := Some ''Stopped by operator'', wo_updatedAt := now\<rparr>))"

section \<open>Eligibility of a command\<close>

datatype review_operation =
    Op_status | Op_verify | Op_submit | Op_push | Op_readComments | Op_comment | Op_submitReview
  | Op_close | Op_reconcileReview | Op_enter

definition executionEligible :: "mission \<Rightarrow> bool" where
  "executionEligible mission \<longleftrightarrow>
     ms_status mission \<in> {Refined, Active} \<or>
     (ms_status mission = In_review \<and>
      (case ms_review mission of
         None \<Rightarrow> False
       | Some r \<Rightarrow> map_option rd_phase (at_last (rounds r)) = Some Fixing))"

text \<open>\<open>approval?: ReviewedRevision | null\<close>: absent means not asked, \<open>null\<close> that none was observed.\<close>

definition integrationEligible :: "mission \<Rightarrow> reviewed_revision field \<Rightarrow> bool" where
  "integrationEligible mission approval =
     (if ms_status mission = Integration then True
      else case ms_review mission of
          None \<Rightarrow> False
        | Some r \<Rightarrow>
            if ms_status mission \<notin> {Active, In_review} \<or> reviewStatus r \<noteq> Status_approved then False
            else (case approval of
                Absent \<Rightarrow> True
              | Null \<Rightarrow> False
              | Present a \<Rightarrow> sameReviewedRevision (rd_subject (currentReviewRound r)) a))"

definition has_blocker :: "checkpoint \<Rightarrow> bool" where
  "has_blocker cp = (case cp_repair cp of None \<Rightarrow> False | Some repair \<Rightarrow> rx_blocker repair \<noteq> None)"

definition workflowEligible ::
  "workflow_command \<Rightarrow> mission \<Rightarrow> review_operation \<Rightarrow> bool \<Rightarrow> reviewed_revision field \<Rightarrow> bool" where
  "workflowEligible command mission reviewMode operatorInvocation approval =
     (if isClosedMission mission then False
      else if \<not> operatorInvocation \<and> list_ex has_blocker (ms_checkpoints mission) \<and>
        command \<in> {Active_execute, Review_submit} then False
      else case command of
          Draft_create \<Rightarrow> ms_status mission = Backlog
        | Active_execute \<Rightarrow> executionEligible mission
        | Review_submit \<Rightarrow> ms_status mission \<in> {Active, In_review} \<or>
            (ms_status mission = Integration \<and> reviewMode = Op_enter)
        | Integrate_merge \<Rightarrow> integrationEligible mission approval)"

section \<open>The operation as a machine\<close>

datatype operation_event =
    Claim process_owner string
  | Finish int bool "string option" string
  | Request_stop string
  | Lose_owner int bool string
  | Settle_stop string

fun operation_step :: "workflow_operation \<Rightarrow> operation_event \<Rightarrow> operation_error + workflow_operation" where
  "operation_step w (Claim owner now) = claimWorkflow w owner now"
| "operation_step w (Finish g ok reason now) = finishWorkflow w g ok reason now"
| "operation_step w (Request_stop now) = requestWorkflowStop w now"
| "operation_step w (Lose_owner g dead now) = loseWorkflowOwner w g dead now"
| "operation_step w (Settle_stop now) = settleWorkflowStop w now"

text \<open>An operation runs exactly under a claimed generation.\<close>

definition operation_ok :: "workflow_operation \<Rightarrow> bool" where
  "operation_ok w \<longleftrightarrow> 0 \<le> wo_generation w \<and>
     (wo_phase w = Accepted \<longrightarrow> wo_owner w = None \<and> wo_generation w = 0) \<and>
     (wo_phase w = Executing \<longrightarrow> wo_owner w \<noteq> None \<and> wo_generation w = 1)"

definition settled :: "workflow_operation \<Rightarrow> bool" where
  "settled w \<longleftrightarrow> wo_phase w \<in> {Completed, Blocked, Interrupted, Stopped}"

lemma operation_step_cases:
  assumes "operation_step w c = Inr v"
  shows "(\<exists>owner now. c = Claim owner now \<and> wo_phase w = Accepted \<and> wo_owner w = None \<and> wo_phase v = Executing \<and>
      wo_owner v = Some owner \<and> wo_generation v = wo_generation w + 1) \<or>
    (\<exists>g. wo_phase w = Executing \<and> wo_owner w \<noteq> None \<and> wo_generation w = g \<and> wo_generation v = g \<and>
      wo_owner v = wo_owner w \<and> ((\<exists>ok reason now. c = Finish g ok reason now \<and> wo_phase v = (if ok then Completed else Blocked)) \<or>
        (\<exists>dead now. c = Lose_owner g dead now \<and> wo_phase v = (if dead then Interrupted else Stopping)))) \<or>
    (\<exists>now. c = Request_stop now \<and> isOpenWorkflow w \<and> wo_phase v = Stopping \<and> wo_generation v = wo_generation w \<and>
      wo_owner v = wo_owner w) \<or>
    (\<exists>now. c = Settle_stop now \<and> wo_phase w = Stopping \<and> wo_phase v = Stopped \<and> wo_generation v = wo_generation w + 1 \<and>
      wo_owner v = wo_owner w)"
  using assms
  by (cases c) (auto simp: claimWorkflow_def finishWorkflow_def requestWorkflowStop_def loseWorkflowOwner_def
      settleWorkflowStop_def requireWorkflowOwner_def split: if_splits)

interpretation operation_ranks: ranked_machine operation_step operation_ok wo_generation
proof
  show "operation_ok t" if "operation_ok s" "operation_step s c = Inr t" for s c t
    using that(1) operation_step_cases[OF that(2)] by (auto simp: operation_ok_def isOpenWorkflow_def split: if_splits)
  show "wo_generation s \<le> wo_generation t" if "operation_ok s" "operation_step s c = Inr t" for s c t
    using operation_step_cases[OF that(2)] by auto
qed

interpretation operation_settles: absorbing_machine operation_step operation_ok settled
proof
  show "\<exists>e. operation_step s c = Inl e" if "settled s" for s c
  proof (cases "operation_step s c")
    case (Inr t)
    from operation_step_cases[OF this] that show ?thesis by (auto simp: settled_def isOpenWorkflow_def)
  qed auto
qed

fun is_claim :: "operation_event \<Rightarrow> bool" where
  "is_claim (Claim owner now) = True"
| "is_claim _ = False"

lemma claims_after_start:
  "run_steps operation_step w cs = Inr v \<Longrightarrow> wo_phase w \<noteq> Accepted \<Longrightarrow> length (filter is_claim cs) = 0 \<and> wo_phase v \<noteq> Accepted"
proof (induction cs arbitrary: w)
  case Nil
  then show ?case by simp
next
  case (Cons c cs)
  then obtain u where u: "operation_step w c = Inr u" "run_steps operation_step u cs = Inr v"
    by (auto split: sum.splits)
  have "wo_phase u \<noteq> Accepted \<and> \<not> is_claim c"
    using operation_step_cases[OF u(1)] Cons.prems(2) by (auto split: if_splits)
  with Cons.IH[OF u(2)] show ?case by simp
qed

section \<open>Properties\<close>

definition sample_operation :: workflow_operation where
  "sample_operation = \<lparr>wo_activationVersion = None, wo_id = ''op1'', wo_repositoryId = ''repo'', wo_missionId = ''px-0001'',
     wo_requestKey = ''k1'', wo_command = Active_execute, wo_generation = 0, wo_phase = Accepted,
     wo_providerStarted = False, wo_agent = None, wo_reviewer = None, wo_originalStatus = Refined,
     wo_previousAssignee = None, wo_owner = None, wo_launcher = None, wo_createdAt = ''t0'', wo_updatedAt = ''t0'',
     wo_reason = None\<rparr>"

definition sample_owner :: process_owner where
  "sample_owner = \<lparr>ow_pid = 42, ow_identity = ''boot-1''\<rparr>"

text \<open>C5: One process wins an admitted command. In every accepted sequence of steps of a new
  operation there is at most one claim; the generation never falls; an operation that executes does
  so for its claimed owner; and once completed, blocked, interrupted or stopped it accepts nothing
  more.\<close>

theorem one_claim_wins:
  assumes new: "workflowOperation w = Inr w0" and run: "run_steps operation_step w0 cs = Inr v"
  shows "length (filter is_claim cs) \<le> 1 \<and> wo_generation w0 \<le> wo_generation v \<and>
    (wo_phase v = Executing \<longrightarrow> wo_owner v \<noteq> None \<and> wo_generation v = 1) \<and>
    (settled v \<longrightarrow> (\<forall>c. \<exists>e. operation_step v c = Inl e))"
proof -
  have ok: "operation_ok w0" and acc: "wo_phase w0 = Accepted"
    using new by (auto simp: workflowOperation_def operation_ok_def split: if_splits)
  have v: "operation_ok v" using ok run by (rule operation_ranks.run_inv)
  have "length (filter is_claim cs) \<le> 1"
  proof (cases cs)
    case Nil
    then show ?thesis by simp
  next
    case (Cons c ds)
    with run obtain u where u: "operation_step w0 c = Inr u" "run_steps operation_step u ds = Inr v"
      by (auto split: sum.splits)
    have "wo_phase u \<noteq> Accepted" using operation_step_cases[OF u(1)] by (auto split: if_splits)
    with claims_after_start[OF u(2)] Cons show ?thesis by simp
  qed
  moreover have "wo_generation w0 \<le> wo_generation v" using ok run by (rule operation_ranks.run_rank)
  ultimately show ?thesis
    using v operation_settles.settled_stuck[OF v] by (auto simp: operation_ok_def)
qed

theorem one_claim_wins_witness:
  "\<exists>v. run_steps operation_step sample_operation [Claim sample_owner ''t1'', Finish 1 True None ''t2''] = Inr v \<and>
    wo_generation sample_operation \<le> wo_generation v"
proof -
  have n: "workflowOperation sample_operation = Inr sample_operation" by code_simp
  have "is_ok (run_steps operation_step sample_operation [Claim sample_owner ''t1'', Finish 1 True None ''t2''])" by code_simp
  then obtain v where v: "run_steps operation_step sample_operation [Claim sample_owner ''t1'', Finish 1 True None ''t2''] = Inr v"
    by (auto simp: is_ok_iff)
  from one_claim_wins[OF n v] v show ?thesis by blast
qed

text \<open>A stop fences the old owner. Once a stop has been requested, finishing or losing the
  operation is refused whatever generation is named, until the stop is settled; settling raises the
  generation, so that no later step under the old generation is accepted either.\<close>

lemma stop_fences_owner:
  assumes ok: "operation_ok w" and stop: "requestWorkflowStop w now = Inr s"
  shows "(\<forall>g success reason t. finishWorkflow s g success reason t = Inl Ownership_fenced) \<and>
    (\<forall>g dead t. loseWorkflowOwner s g dead t = Inl Ownership_fenced) \<and>
    (\<exists>v. settleWorkflowStop s now = Inr v \<and> wo_generation w < wo_generation v \<and>
      (\<forall>g success reason t. finishWorkflow v g success reason t = Inl Ownership_fenced) \<and>
      (\<forall>c. \<exists>e. operation_step v c = Inl e))"
proof -
  have s: "s = w\<lparr>wo_phase := Stopping, wo_updatedAt := now\<rparr>"
    using stop by (auto simp: requestWorkflowStop_def split: if_splits)
  let ?v = "s\<lparr>wo_generation := wo_generation s + 1, wo_phase := Stopped, wo_reason := Some ''Stopped by operator'',
      wo_updatedAt := now\<rparr>"
  have settle: "settleWorkflowStop s now = Inr ?v" by (simp add: settleWorkflowStop_def s)
  have "operation_step s (Settle_stop now) = Inr ?v" "operation_step w (Request_stop now) = Inr s"
    using settle stop by simp_all
  then have "operation_ok ?v" using ok operation_ranks.step_inv by blast
  moreover have "settled ?v" by (simp add: settled_def)
  ultimately have stuck: "\<exists>e. operation_step ?v c = Inl e" for c using operation_settles.settled_stuck by blast
  show ?thesis
  proof (intro conjI exI[of _ ?v] allI)
    show "settleWorkflowStop s now = Inr ?v" by (rule settle)
    show "\<exists>e. operation_step ?v c = Inl e" for c by (rule stuck)
  qed (simp_all add: s finishWorkflow_def loseWorkflowOwner_def requireWorkflowOwner_def)
qed

end
