(* ===== verification/Activities.thy ===== *)
theory Activities
  imports Prelude Instants
begin

text \<open>
  What the board says a mission is doing: the activity transitions and the liveness projection of
  \<open>src/src/domain/execution-activity.ts\<close>. The process probe of the observer is a parameter.
\<close>

datatype activity_stage = St_draft | St_execute | St_waiting | St_review | St_review_response | St_integrate | St_recovery

datatype activity_state = Running | Ended | Activity_blocked

record activity =
  ea_missionId :: string
  ea_operationId :: string
  ea_phase :: activity_stage
  ea_state :: activity_state
  ea_summary :: string
  ea_agent :: "string option"
  ea_processId :: "int option"
  ea_processIdentity :: "string field"
  ea_blockedReason :: "string option"
  ea_occurredAt :: string
  ea_sequence :: "int option"

datatype freshness = Live | Unverified | Stale

record observed_activity =
  oa_operationId :: string
  oa_phase :: activity_stage
  oa_summary :: string
  oa_agent :: "string option"
  oa_updatedAt :: string
  oa_freshness :: freshness

record observed_facts =
  of_operationId :: string
  of_currentWork :: "observed_activity option"
  of_blockingReason :: "string option"

type_synonym liveness_probe = "int \<Rightarrow> string option \<Rightarrow> bool option"

record observation =
  ob_nowMs :: int
  ob_ttlMs :: int
  ob_isProcessAlive :: "liveness_probe option"

record activity_frame =
  fr_sourceId :: string
  fr_event :: activity

record activity_snapshot =
  as_missionId :: string
  as_operationId :: string
  as_frames :: "activity_frame list"
  as_closedSources :: "string list"
  as_supersededOperations :: "string list"
  as_retainedBlocker :: "activity option"
  as_terminal :: "activity option"

datatype activity_error = Source_missing | Foreign_mission

section \<open>Transitions\<close>

definition requireActivityIdentity ::
  "activity_snapshot option \<Rightarrow> activity \<Rightarrow> string \<Rightarrow> activity_error + unit" where
  "requireActivityIdentity previous event sourceId =
     (if blank sourceId then Inl Source_missing
      else case previous of
          None \<Rightarrow> Inr ()
        | Some p \<Rightarrow> if as_missionId p \<noteq> ea_missionId event then Inl Foreign_mission else Inr ())"

definition mayPublishActivity :: "activity_snapshot option \<Rightarrow> activity \<Rightarrow> string option \<Rightarrow> bool" where
  "mayPublishActivity previous event admitted =
     (if admitted \<noteq> None \<and> admitted \<noteq> Some (ea_operationId event) then False
      else case previous of
          None \<Rightarrow> True
        | Some p \<Rightarrow> ea_operationId event \<notin> set (as_supersededOperations p))"

definition suspendedBlocker :: "activity_snapshot option \<Rightarrow> activity option" where
  "suspendedBlocker previous =
     (case previous of
        None \<Rightarrow> None
      | Some p \<Rightarrow>
          (case at_last (as_frames p) of
             Some frame \<Rightarrow> if ea_state (fr_event frame) = Activity_blocked then Some (fr_event frame) else as_retainedBlocker p
           | None \<Rightarrow> as_retainedBlocker p))"

definition beginActivity :: "activity_snapshot option \<Rightarrow> activity \<Rightarrow> activity_snapshot" where
  "beginActivity previous event =
     \<lparr>as_missionId = ea_missionId event, as_operationId = ea_operationId event, as_frames = [], as_closedSources = [],
      as_supersededOperations = (case previous of None \<Rightarrow> [] | Some p \<Rightarrow> as_supersededOperations p @ [as_operationId p]),
      as_retainedBlocker = (if ea_phase event = St_recovery then suspendedBlocker previous else None),
      as_terminal = None\<rparr>"

definition closeActivityFrame ::
  "activity_snapshot \<Rightarrow> activity \<Rightarrow> string \<Rightarrow> nat option \<Rightarrow> activity_snapshot" where
  "closeActivityFrame state event sourceId index =
     (if (case index of None \<Rightarrow> False | Some i \<Rightarrow> ea_state (fr_event (as_frames state ! i)) = Activity_blocked)
      then state
      else state\<lparr>as_frames := filter (\<lambda>frame. fr_sourceId frame \<noteq> sourceId) (as_frames state),
        as_closedSources := dedupe (as_closedSources state @ [sourceId]),
        as_terminal := (if index = Some 0 \<or> as_frames state = [] then Some event else as_terminal state)\<rparr>)"

definition updateActivityFrame ::
  "activity_snapshot \<Rightarrow> activity \<Rightarrow> string \<Rightarrow> nat option \<Rightarrow> activity_snapshot" where
  "updateActivityFrame state event sourceId index =
     (let removed = (case index of Some i \<Rightarrow> drop (i + 1) (as_frames state) | None \<Rightarrow> []);
          kept = (case index of Some i \<Rightarrow> take i (as_frames state) | None \<Rightarrow> as_frames state) in
       state\<lparr>as_frames := kept @ [\<lparr>fr_sourceId = sourceId, fr_event = event\<rparr>],
         as_closedSources := dedupe (as_closedSources state @ map fr_sourceId removed),
         as_retainedBlocker := (if ea_phase event = St_recovery then as_retainedBlocker state else None),
         as_terminal := None\<rparr>)"

definition advanceExecutionActivity ::
  "activity_snapshot option \<Rightarrow> activity \<Rightarrow> string \<Rightarrow> string option \<Rightarrow> activity_error + activity_snapshot option" where
  "advanceExecutionActivity previous event sourceId admitted =
     try_bind (requireActivityIdentity previous event sourceId) (\<lambda>_.
       if \<not> mayPublishActivity previous event admitted then Inr previous
       else if previous \<noteq> None \<and> as_operationId (the previous) \<noteq> ea_operationId event \<and> ea_state event \<noteq> Running
       then Inr previous
       else let state = (if previous \<noteq> None \<and> as_operationId (the previous) = ea_operationId event then the previous
                         else beginActivity previous event) in
         if sourceId \<in> set (as_closedSources state) then Inr (Some state)
         else let index = find_index (\<lambda>frame. fr_sourceId frame = sourceId) (as_frames state) in
           if ea_state event = Activity_blocked \<and> index = None \<and> as_frames state \<noteq> [] then Inr (Some state)
           else if ea_state event = Ended then Inr (Some (closeActivityFrame state event sourceId index))
           else Inr (Some (updateActivityFrame state event sourceId index)))"

section \<open>Projection\<close>

definition activityFreshness :: "activity \<Rightarrow> observation \<Rightarrow> freshness option" where
  "activityFreshness event options =
     (let alive = (case (ea_processId event, ob_isProcessAlive options) of
          (Some pid, Some probe) \<Rightarrow> probe pid (given (ea_processIdentity event)) | _ \<Rightarrow> None) in
       case alive of
         Some False \<Rightarrow> None
       | Some True \<Rightarrow> Some Live
       | None \<Rightarrow> (case date_parse (ea_occurredAt event) of
           None \<Rightarrow> Some Stale
         | Some t \<Rightarrow> if ob_nowMs options - t > ob_ttlMs options then Some Stale else Some Unverified))"

definition observeActivity :: "activity_snapshot \<Rightarrow> observation \<Rightarrow> observed_facts" where
  "observeActivity snapshot options =
     (let event = (case at_last (as_frames snapshot) of Some frame \<Rightarrow> Some (fr_event frame) | None \<Rightarrow> as_terminal snapshot);
          blocker = as_retainedBlocker snapshot;
          idle = \<lparr>of_operationId = as_operationId snapshot, of_currentWork = None,
            of_blockingReason = Option.bind blocker ea_blockedReason\<rparr> in
       case event of
         None \<Rightarrow> idle
       | Some e \<Rightarrow>
           if ea_state e = Ended then idle
           else if ea_state e = Activity_blocked
           then \<lparr>of_operationId = as_operationId snapshot, of_currentWork = None,
             of_blockingReason = Some (default_to ''operation cannot continue autonomously'' (ea_blockedReason e))\<rparr>
           else (case activityFreshness e options of
               None \<Rightarrow> idle
             | Some f \<Rightarrow>
                 if f = Stale \<and> blocker \<noteq> None then idle
                 else \<lparr>of_operationId = as_operationId snapshot, of_currentWork = Some
                     \<lparr>oa_operationId = ea_operationId e, oa_phase = ea_phase e, oa_summary = ea_summary e,
                      oa_agent = ea_agent e, oa_updatedAt = ea_occurredAt e, oa_freshness = f\<rparr>,
                   of_blockingReason = None\<rparr>))"

text \<open>A \<open>Map\<close> built from pairs keeps the last entry of a key.\<close>

definition projectExecutionActivity ::
  "activity_snapshot list \<Rightarrow> observation \<Rightarrow> string \<Rightarrow> observed_facts option" where
  "projectExecutionActivity snapshots options =
     map_of (rev (map (\<lambda>snapshot. (as_missionId snapshot, observeActivity snapshot options)) snapshots))"

definition ACTIVITY_OBSERVATION_TTL_MS :: int where
  "ACTIVITY_OBSERVATION_TTL_MS = 5 * 60 * 1000"

definition isWorkInProgress :: "observed_activity option \<Rightarrow> bool" where
  "isWorkInProgress work = (case work of None \<Rightarrow> False | Some w \<Rightarrow> oa_freshness w \<noteq> Stale)"

section \<open>The snapshot as a machine\<close>

record publication =
  pb_event :: activity
  pb_sourceId :: string
  pb_admitted :: "string option"

definition publish :: "activity_snapshot option \<Rightarrow> publication \<Rightarrow> activity_error + activity_snapshot option" where
  "publish previous p = advanceExecutionActivity previous (pb_event p) (pb_sourceId p) (pb_admitted p)"

definition snapshot_ok :: "activity_snapshot \<Rightarrow> bool" where
  "snapshot_ok s \<longleftrightarrow> distinct (map fr_sourceId (as_frames s)) \<and> distinct (as_closedSources s) \<and>
     set (map fr_sourceId (as_frames s)) \<inter> set (as_closedSources s) = {} \<and>
     distinct (as_supersededOperations s) \<and> as_operationId s \<notin> set (as_supersededOperations s)"

fun activity_ok :: "activity_snapshot option \<Rightarrow> bool" where
  "activity_ok None = True"
| "activity_ok (Some s) = snapshot_ok s"

fun superseded :: "activity_snapshot option \<Rightarrow> string list" where
  "superseded None = []"
| "superseded (Some s) = as_supersededOperations s"

lemma close_frame_ok:
  assumes "snapshot_ok s" and "src \<notin> set (as_closedSources s)"
  shows "snapshot_ok (closeActivityFrame s e src i)"
  using assms by (auto simp: snapshot_ok_def closeActivityFrame_def distinct_map inj_on_def)

lemma update_frame_ok:
  assumes ok: "snapshot_ok s" and src: "src \<notin> set (as_closedSources s)"
    and i: "i = find_index (\<lambda>f. fr_sourceId f = src) (as_frames s)"
  shows "snapshot_ok (updateActivityFrame s e src i)"
proof (cases i)
  case None
  then have "\<forall>f\<in>set (as_frames s). fr_sourceId f \<noteq> src" using i by (simp add: find_index_None)
  with ok src None show ?thesis by (auto simp: snapshot_ok_def updateActivityFrame_def)
next
  case (Some n)
  then have n: "n < length (as_frames s)" "fr_sourceId (as_frames s ! n) = src"
    using i find_index_Some[of "\<lambda>f. fr_sourceId f = src" "as_frames s" n] by auto
  let ?ids = "map fr_sourceId (as_frames s)"
  have split: "?ids = take n ?ids @ src # drop (Suc n) ?ids"
    using n by (metis id_take_nth_drop length_map nth_map)
  have d: "distinct ?ids" "set ?ids \<inter> set (as_closedSources s) = {}" using ok by (simp_all add: snapshot_ok_def)
  have d': "distinct (take n ?ids @ src # drop (Suc n) ?ids)" using d(1) split by simp
  have t: "set (take n ?ids) \<subseteq> set ?ids" by (rule set_take_subset)
  have ids: "map fr_sourceId (take n (as_frames s)) = take n ?ids" "map fr_sourceId (drop (Suc n) (as_frames s)) = drop (Suc n) ?ids"
    by (simp_all add: take_map drop_map)
  have frames: "distinct (take n ?ids @ [src])" using d' by auto
  have apart: "set (take n ?ids @ [src]) \<inter> set (as_closedSources s @ drop (Suc n) ?ids) = {}"
    using d' d(2) t src by auto
  show ?thesis
    using ok Some frames apart
    by (simp add: snapshot_ok_def updateActivityFrame_def ids[unfolded map_map] ids Let_def)
qed

lemma begin_ok:
  assumes "activity_ok p" and "mayPublishActivity p e admitted"
    and "p = None \<or> as_operationId (the p) \<noteq> ea_operationId e"
  shows "snapshot_ok (beginActivity p e) \<and> as_supersededOperations (beginActivity p e) =
    (case p of None \<Rightarrow> [] | Some s \<Rightarrow> as_supersededOperations s @ [as_operationId s])"
  using assms by (cases p) (auto simp: snapshot_ok_def beginActivity_def mayPublishActivity_def split: if_splits)

lemma frames_keep_operation [simp]:
  "as_operationId (closeActivityFrame s e src i) = as_operationId s"
  "as_operationId (updateActivityFrame s e src i) = as_operationId s"
  "as_supersededOperations (closeActivityFrame s e src i) = as_supersededOperations s"
  "as_supersededOperations (updateActivityFrame s e src i) = as_supersededOperations s"
  by (simp_all add: closeActivityFrame_def updateActivityFrame_def Let_def)

text \<open>One publication: it is dropped, or it advances the current or a newly begun operation.\<close>

lemma publish_Inr:
  assumes "publish p c = Inr q"
  obtains (dropped) "q = p"
  | (advanced) state s where "q = Some s" "mayPublishActivity p (pb_event c) (pb_admitted c)"
      "state = (if p \<noteq> None \<and> as_operationId (the p) = ea_operationId (pb_event c) then the p else beginActivity p (pb_event c))"
      "s = state \<or> (pb_sourceId c \<notin> set (as_closedSources state) \<and>
        (\<exists>i. i = find_index (\<lambda>f. fr_sourceId f = pb_sourceId c) (as_frames state) \<and>
          (s = closeActivityFrame state (pb_event c) (pb_sourceId c) i \<or>
           s = updateActivityFrame state (pb_event c) (pb_sourceId c) i)))"
      "p = None \<or> as_operationId (the p) = ea_operationId (pb_event c) \<or> ea_state (pb_event c) = Running"
proof -
  let ?e = "pb_event c" and ?src = "pb_sourceId c"
  let ?state = "if p \<noteq> None \<and> as_operationId (the p) = ea_operationId ?e then the p else beginActivity p ?e"
  consider "q = p" | "mayPublishActivity p ?e (pb_admitted c)"
      "p = None \<or> as_operationId (the p) = ea_operationId ?e \<or> ea_state ?e = Running"
      "q = Some ?state \<or> (?src \<notin> set (as_closedSources ?state) \<and>
        (let i = find_index (\<lambda>f. fr_sourceId f = ?src) (as_frames ?state) in
          q = Some (closeActivityFrame ?state ?e ?src i) \<or> q = Some (updateActivityFrame ?state ?e ?src i)))"
    using assms unfolding publish_def advanceExecutionActivity_def try_bind_Inr Let_def
    by (simp split: if_split_asm)
  then show ?thesis
  proof cases
    case 1
    then show ?thesis by (rule dropped)
  next
    case 2
    then obtain s where "q = Some s" "s = ?state \<or> (?src \<notin> set (as_closedSources ?state) \<and>
        (let i = find_index (\<lambda>f. fr_sourceId f = ?src) (as_frames ?state) in
          s = closeActivityFrame ?state ?e ?src i \<or> s = updateActivityFrame ?state ?e ?src i))"
      unfolding Let_def by blast
    with 2 show ?thesis by (intro advanced[of s ?state]) (auto simp: Let_def)
  qed
qed


lemma publish_ok:
  assumes "activity_ok p" and "publish p c = Inr q"
  shows "activity_ok q"
  using assms(2)
proof (cases rule: publish_Inr)
  case dropped
  with assms(1) show ?thesis by simp
next
  case (advanced state s)
  have "snapshot_ok state"
  proof (cases "p \<noteq> None \<and> as_operationId (the p) = ea_operationId (pb_event c)")
    case True
    with assms(1) advanced(3) show ?thesis by (cases p) auto
  next
    case False
    with begin_ok[OF assms(1) advanced(2)] advanced(3) show ?thesis by auto
  qed
  then show ?thesis using advanced(1,4) close_frame_ok update_frame_ok by auto
qed

lemma publish_superseded:
  assumes "activity_ok p" and "publish p c = Inr q"
  shows "prefix (superseded p) (superseded q) \<and>
    (\<forall>s t. p = Some s \<and> q = Some t \<and> as_operationId s \<noteq> as_operationId t \<longrightarrow>
      as_operationId s \<in> set (as_supersededOperations t))"
  using assms(2)
proof (cases rule: publish_Inr)
  case dropped
  then show ?thesis by auto
next
  case (advanced state s)
  have s: "as_operationId s = as_operationId state" "as_supersededOperations s = as_supersededOperations state"
    using advanced(4) by auto
  show ?thesis
  proof (cases "p \<noteq> None \<and> as_operationId (the p) = ea_operationId (pb_event c)")
    case True
    with advanced(1,3) s show ?thesis by (cases p) auto
  next
    case False
    with begin_ok[OF assms(1) advanced(2)] advanced(1,3) s show ?thesis by (cases p) auto
  qed
qed

interpretation activity_machine: ranked_machine publish activity_ok "\<lambda>p. int (length (superseded p))"
proof
  show "activity_ok t" if "activity_ok s" "publish s c = Inr t" for s c t using that by (rule publish_ok)
  show "int (length (superseded s)) \<le> int (length (superseded t))" if "activity_ok s" "publish s c = Inr t" for s c t
    using publish_superseded[OF that] by (auto dest: prefix_length_le)
qed

lemma superseded_grows:
  "reachable_by publish p q \<Longrightarrow> activity_ok p \<Longrightarrow> prefix (superseded p) (superseded q)"
proof (induction rule: reachable_by.induct)
  case here
  then show ?case by simp
next
  case (further t c u)
  have "activity_ok t" using further.hyps(1) further.prems by (rule activity_machine.reachable_inv)
  then have "prefix (superseded t) (superseded u)" using publish_superseded further.hyps(2) by blast
  with further.IH[OF further.prems] show ?case by (rule prefix_order.trans)
qed

section \<open>Properties\<close>

definition sample_activity :: "string \<Rightarrow> activity_state \<Rightarrow> activity" where
  "sample_activity operation state = \<lparr>ea_missionId = ''px-0001'', ea_operationId = operation, ea_phase = St_execute,
     ea_state = state, ea_summary = ''working'', ea_agent = None, ea_processId = None, ea_processIdentity = Absent,
     ea_blockedReason = None, ea_occurredAt = ''2026-01-01T00:00:00Z'', ea_sequence = None\<rparr>"

definition sample_publication :: "string \<Rightarrow> string \<Rightarrow> activity_state \<Rightarrow> publication" where
  "sample_publication operation source state =
     \<lparr>pb_event = sample_activity operation state, pb_sourceId = source, pb_admitted = None\<rparr>"

text \<open>A replaced operation never comes back. From no activity, after any publications, the frames
  on the board are of distinct sources, none of them closed, and the current operation is not among
  the superseded ones; an operation once superseded stays so, so that it is never current again, and
  whenever the current operation changes the one before is superseded.\<close>

lemma superseded_never_returns:
  assumes start: "reachable_by publish None (Some s)" and more: "reachable_by publish (Some s) (Some t)"
  shows "distinct (map fr_sourceId (as_frames t)) \<and>
    set (map fr_sourceId (as_frames t)) \<inter> set (as_closedSources t) = {} \<and>
    set (as_supersededOperations s) \<subseteq> set (as_supersededOperations t) \<and>
    as_operationId t \<notin> set (as_supersededOperations s) \<and>
    (\<forall>c u. publish (Some t) c = Inr (Some u) \<and> as_operationId u \<noteq> as_operationId t \<longrightarrow>
      as_operationId t \<in> set (as_supersededOperations u))"
proof -
  have s: "activity_ok (Some s)" using activity_machine.reachable_inv[OF start] by simp
  have t: "activity_ok (Some t)" using more s by (rule activity_machine.reachable_inv)
  have sub: "set (as_supersededOperations s) \<subseteq> set (as_supersededOperations t)"
    using superseded_grows[OF more s] by (auto dest: set_mono_prefix)
  have "as_operationId t \<in> set (as_supersededOperations u)"
    if "publish (Some t) c = Inr (Some u)" "as_operationId u \<noteq> as_operationId t" for c u
    using publish_superseded[OF t that(1)] that(2) by auto
  then show ?thesis using t sub by (auto simp: snapshot_ok_def)
qed

text \<open>A closed source is never reopened within its operation, and no publication of another
  operation that is not running, or that was superseded, or that is not the admitted one, changes
  anything.\<close>

lemma publication_dropped:
  assumes "publish (Some s) c = Inr q"
    and "(as_operationId s = ea_operationId (pb_event c) \<and> pb_sourceId c \<in> set (as_closedSources s)) \<or>
      (as_operationId s \<noteq> ea_operationId (pb_event c) \<and> ea_state (pb_event c) \<noteq> Running) \<or>
      ea_operationId (pb_event c) \<in> set (as_supersededOperations s) \<or>
      (\<exists>admitted. pb_admitted c = Some admitted \<and> admitted \<noteq> ea_operationId (pb_event c))"
  shows "q = Some s"
  using assms(1)
proof (cases rule: publish_Inr)
  case dropped
  then show ?thesis by simp
next
  case (advanced state s')
  have "\<not> (ea_operationId (pb_event c) \<in> set (as_supersededOperations s))"
    "\<not> (\<exists>admitted. pb_admitted c = Some admitted \<and> admitted \<noteq> ea_operationId (pb_event c))"
    using advanced(2) by (auto simp: mayPublishActivity_def split: if_splits)
  with assms(2) advanced(5) have same: "as_operationId s = ea_operationId (pb_event c)"
    and closed: "pb_sourceId c \<in> set (as_closedSources s)" by auto
  from same advanced(3) have "state = s" by simp
  with advanced(1,4) closed show ?thesis by auto
qed

text \<open>The board never claims work a dead process left behind. Observed work comes from the last
  frame in a running state; it is shown live only if the probe confirmed the process, and never if
  the probe says the process is gone; an unverifiable report older than the bound is stale, which
  does not count as progress.\<close>

lemma observed_work_is_running:
  assumes "of_currentWork (observeActivity s options) = Some w"
  shows "\<exists>e. (case at_last (as_frames s) of Some frame \<Rightarrow> Some (fr_event frame) | None \<Rightarrow> as_terminal s) = Some e \<and>
    ea_state e = Running \<and> oa_operationId w = ea_operationId e \<and> oa_updatedAt w = ea_occurredAt e \<and>
    (\<forall>pid probe. ea_processId e = Some pid \<and> ob_isProcessAlive options = Some probe \<longrightarrow>
      probe pid (given (ea_processIdentity e)) \<noteq> Some False) \<and>
    (oa_freshness w = Live \<longrightarrow> (\<exists>pid probe. ea_processId e = Some pid \<and> ob_isProcessAlive options = Some probe \<and>
      probe pid (given (ea_processIdentity e)) = Some True)) \<and>
    (oa_freshness w = Unverified \<longrightarrow> (\<exists>t. date_parse (ea_occurredAt e) = Some t \<and> ob_nowMs options - t \<le> ob_ttlMs options))"
proof -
  let ?event = "case at_last (as_frames s) of Some frame \<Rightarrow> Some (fr_event frame) | None \<Rightarrow> as_terminal s"
  obtain e where e: "?event = Some e" using assms by (cases ?event) (auto simp: observeActivity_def Let_def)
  have run: "ea_state e = Running" using assms e by (cases "ea_state e") (auto simp: observeActivity_def Let_def)
  have f: "activityFreshness e options = Some (oa_freshness w) \<and> oa_operationId w = ea_operationId e \<and>
      oa_updatedAt w = ea_occurredAt e"
    using assms e run by (auto simp: observeActivity_def Let_def split: option.splits if_splits)
  then show ?thesis
    using e run by (auto simp: activityFreshness_def Let_def split: option.splits bool.splits if_splits)
qed

definition sample_observation :: observation where
  "sample_observation = \<lparr>ob_nowMs = 1767225600000, ob_ttlMs = ACTIVITY_OBSERVATION_TTL_MS, ob_isProcessAlive = None\<rparr>"

end
