(* ===== verification/Agents.thy ===== *)
theory Agents
  imports ReviewTypes
begin

text \<open>
  Choosing the agent family that runs a step: \<open>src/src/domain/agents.ts\<close>.

  A snapshot of the configured policies and of the launchers is taken first; the choice itself is
  pure. \<open>Record<string, T>\<close> is an association list of own properties, and the exclusion set a list.
  Times are integral milliseconds. \<open>Math.random\<close> is the argument \<open>random\<close>, and the rounding of one
  floating-point operation is the argument \<open>fl\<close>: every statement below that does not mention
  \<open>\<lambda>x. x\<close> holds for whatever rounding is used.
\<close>

section \<open>Snapshot and request\<close>

definition agentPolicyStep :: "string \<Rightarrow> string" where
  "agentPolicyStep step = (if step = ''act-on-review'' then ''active'' else step)"

datatype policy_fault =
    Review_not_explicit | Unknown_strategy string | Weight_invalid agent_family | No_positive_weight
  | Range_exceeds_precision

datatype selection_error =
    Family_invalid string | Policy_invalid string policy_fault | Pool_exhausted string

text \<open>\<open>/^[a-z][a-z0-9-]*$/\<close>.\<close>

definition family_char :: "char \<Rightarrow> bool" where
  "family_char c \<longleftrightarrow> is_lower c \<or> is_digit c \<or> c = CHR ''-''"

definition family_shape :: "string \<Rightarrow> bool" where
  "family_shape s = (case s of [] \<Rightarrow> False | c # cs \<Rightarrow> is_lower c \<and> list_all family_char cs)"

definition agentFamily :: "string \<Rightarrow> selection_error + agent_family" where
  "agentFamily value =
     (let normalized = trim value in
       if family_shape normalized then Inr normalized else Inl (Family_invalid value))"

datatype agent_block = Unblocked | Indefinite "string option" | Until int "string option"

record availability =
  av_family :: agent_family
  av_launcherAvailable :: bool
  av_block :: agent_block
  av_launcherDetail :: "string field"

record selection_snapshot =
  sn_capturedAtMs :: int
  sn_defaultPolicy :: step_policy
  sn_steps :: "(string \<times> step_policy) list"
  sn_agents :: "availability list"

record selection_request =
  sq_preferred :: "agent_family option"
  sq_override :: "agent_family option"
  sq_excluded :: "agent_family list"

section \<open>Policies\<close>

definition blockedForMs :: "agent_block \<Rightarrow> int \<Rightarrow> jsnum" where
  "blockedForMs block nowMs =
     (case block of
        Unblocked \<Rightarrow> Num 0
      | Indefinite _ \<Rightarrow> PosInf
      | Until untilMs _ \<Rightarrow> Num (of_int (max 0 (untilMs - nowMs))))"

definition weights_of :: "step_policy \<Rightarrow> (agent_family \<times> jsnum) list" where
  "weights_of policy = default_to [] (sp_weights policy)"

definition weight_valid :: "(agent_family \<times> jsnum) list \<Rightarrow> agent_family \<Rightarrow> bool" where
  "weight_valid weights family =
     (case map_of weights family of
        Some (Num q) \<Rightarrow> 0 \<le> q
      | _ \<Rightarrow> False)"

text \<open>The number behind a weight that passed the check.\<close>

definition weight_of :: "(agent_family \<times> jsnum) list \<Rightarrow> agent_family \<Rightarrow> rat" where
  "weight_of weights family = (case map_of weights family of Some (Num q) \<Rightarrow> q | _ \<Rightarrow> 0)"

definition selectionPolicy :: "selection_snapshot \<Rightarrow> string \<Rightarrow> selection_error + step_policy" where
  "selectionPolicy snapshot step =
     (let policyStep = agentPolicyStep step;
          configured = map_of (sn_steps snapshot) policyStep;
          policy = default_to (sn_defaultPolicy snapshot) configured;
          weights = weights_of policy in
      if policyStep = ''review'' \<and> (case configured of None \<Rightarrow> True | Some p \<Rightarrow> sp_eligible p = [])
      then Inl (Policy_invalid step Review_not_explicit)
      else if sp_strategy policy \<noteq> ''random'' \<and> sp_strategy policy \<noteq> ''weighted''
      then Inl (Policy_invalid step (Unknown_strategy (sp_strategy policy)))
      else if sp_strategy policy = ''weighted''
      then (case find_first (\<lambda>family. \<not> weight_valid weights family) (sp_eligible policy) of
              Some family \<Rightarrow> Inl (Policy_invalid step (Weight_invalid family))
            | None \<Rightarrow>
                if list_ex (\<lambda>family. 0 < weight_of weights family) (sp_eligible policy) then Inr policy
                else Inl (Policy_invalid step No_positive_weight))
      else Inr policy)"

text \<open>\<open>new Map(agents.map(...))\<close>: the last record of a family stands. Only a policy that is
  accepted has selectable agents.\<close>

definition candidate_of :: "selection_snapshot \<Rightarrow> agent_family \<Rightarrow> availability option" where
  "candidate_of snapshot family = find_first (\<lambda>a. av_family a = family) (rev (sn_agents snapshot))"

definition selectableAgents ::
  "selection_snapshot \<Rightarrow> string \<Rightarrow> agent_family list \<Rightarrow> selection_error + agent_family list" where
  "selectableAgents snapshot step excluded =
     try_bind (selectionPolicy snapshot step) (\<lambda>policy.
       Inr (filter (\<lambda>family.
              case candidate_of snapshot family of
                None \<Rightarrow> False
              | Some candidate \<Rightarrow>
                  family \<notin> set excluded \<and> av_launcherAvailable candidate \<and>
                  blockedForMs (av_block candidate) (sn_capturedAtMs snapshot) = Num 0)
            (dedupe (sp_eligible policy))))"

section \<open>Drawing\<close>

text \<open>The cursor loop: subtract each share until the cursor goes below zero.\<close>

fun draw :: "(rat \<Rightarrow> rat) \<Rightarrow> (agent_family \<Rightarrow> rat) \<Rightarrow> rat \<Rightarrow> agent_family list \<Rightarrow> agent_family option" where
  "draw fl share cursor [] = None"
| "draw fl share cursor (family # rest) =
     (let next_cursor = fl (cursor - share family) in
       if next_cursor < 0 then Some family else draw fl share next_cursor rest)"

definition weightedPick ::
  "(rat \<Rightarrow> rat) \<Rightarrow> agent_family list \<Rightarrow> (agent_family \<times> jsnum) list \<Rightarrow> rat \<Rightarrow> string \<Rightarrow>
    selection_error + agent_family" where
  "weightedPick fl pool weights random step =
     (let positive = filter (\<lambda>family. 0 < weight_of weights family) pool in
       if positive = [] then Inl (Pool_exhausted step)
       else let scale = foldr (\<lambda>family m. max (weight_of weights family) m) positive 0;
                share = (\<lambda>family. fl (weight_of weights family / scale)) in
         if list_ex (\<lambda>family. share family = 0) positive
         then Inl (Policy_invalid step Range_exceeds_precision)
         else let total = foldl (\<lambda>total family. fl (total + share family)) 0 positive in
           Inr (case draw fl share (fl (random * total)) positive of
                  Some family \<Rightarrow> family | None \<Rightarrow> last positive))"

text \<open>An operator's override skips the launcher probe, never the block or the exclusion.\<close>

definition overridden :: "selection_snapshot \<Rightarrow> step_policy \<Rightarrow> selection_request \<Rightarrow> agent_family option" where
  "overridden snapshot policy request =
     (case sq_override request of
        None \<Rightarrow> None
      | Some family \<Rightarrow>
          if family \<noteq> [] \<and> family \<in> set (sp_eligible policy) \<and> family \<notin> set (sq_excluded request)
          then (case find_first (\<lambda>a. av_family a = family) (sn_agents snapshot) of
                  None \<Rightarrow> None
                | Some candidate \<Rightarrow>
                    if blockedForMs (av_block candidate) (sn_capturedAtMs snapshot) = Num 0
                    then Some family else None)
          else None)"

text \<open>\<open>pool[Math.floor(random() * pool.length)]\<close>, undefined out of range.\<close>

definition uniform_pick :: "(rat \<Rightarrow> rat) \<Rightarrow> agent_family list \<Rightarrow> rat \<Rightarrow> agent_family option" where
  "uniform_pick fl pool random =
     (let index = \<lfloor>fl (random * of_nat (length pool))\<rfloor> in
       if 0 \<le> index then nth_opt pool (nat index) else None)"

definition draw_from ::
  "(rat \<Rightarrow> rat) \<Rightarrow> step_policy \<Rightarrow> agent_family list \<Rightarrow> rat \<Rightarrow> string \<Rightarrow>
    selection_error + agent_family option" where
  "draw_from fl policy pool random step =
     (if sp_strategy policy = ''weighted''
      then map_sum id Some (weightedPick fl pool (weights_of policy) random step)
      else if pool = [] then Inl (Pool_exhausted step)
      else Inr (uniform_pick fl pool random))"

definition selectAgent ::
  "(rat \<Rightarrow> rat) \<Rightarrow> selection_snapshot \<Rightarrow> string \<Rightarrow> selection_request \<Rightarrow> rat \<Rightarrow>
    selection_error + agent_family option" where
  "selectAgent fl snapshot step request random =
     try_bind (selectionPolicy snapshot step) (\<lambda>policy.
       case overridden snapshot policy request of
         Some family \<Rightarrow> Inr (Some family)
       | None \<Rightarrow>
           try_bind (selectableAgents snapshot step (sq_excluded request)) (\<lambda>pool.
             case sq_preferred request of
               Some family \<Rightarrow>
                 if family \<noteq> [] \<and> family \<in> set pool then Inr (Some family)
                 else draw_from fl policy pool random step
             | None \<Rightarrow> draw_from fl policy pool random step))"

section \<open>What may be chosen\<close>

lemma draw_member: "draw fl share cursor pool = Some family \<Longrightarrow> family \<in> set pool"
  by (induction pool arbitrary: cursor) (auto simp: Let_def split: if_splits)

lemma weightedPick_member:
  assumes "weightedPick fl pool weights random step = Inr family"
  shows "family \<in> set pool \<and> 0 < weight_of weights family"
proof -
  let ?positive = "filter (\<lambda>family. 0 < weight_of weights family) pool"
  have "family \<in> set ?positive"
    using assms last_in_set[of ?positive] draw_member[of _ _ _ ?positive]
    by (auto simp: weightedPick_def Let_def simp del: set_filter split: if_splits option.splits)
  then show ?thesis by simp
qed

lemma selectable_member:
  assumes "selectionPolicy snapshot step = Inr policy"
    and "selectableAgents snapshot step excluded = Inr pool" and "family \<in> set pool"
  obtains candidate where "family \<in> set (sp_eligible policy)" and "family \<notin> set excluded"
    and "candidate \<in> set (sn_agents snapshot)" and "av_family candidate = family"
    and "av_launcherAvailable candidate"
    and "blockedForMs (av_block candidate) (sn_capturedAtMs snapshot) = Num 0"
proof -
  from assms obtain candidate where c: "candidate_of snapshot family = Some candidate"
    and rest: "family \<in> set (sp_eligible policy)" "family \<notin> set excluded"
      "av_launcherAvailable candidate"
      "blockedForMs (av_block candidate) (sn_capturedAtMs snapshot) = Num 0"
    by (auto simp: selectableAgents_def split: option.splits)
  from c have "candidate \<in> set (sn_agents snapshot) \<and> av_family candidate = family"
    unfolding candidate_of_def by (auto dest: find_first_Some)
  with that rest show ?thesis by blast
qed

lemma overridden_member:
  assumes "overridden snapshot policy request = Some family"
  shows "sq_override request = Some family \<and> family \<in> set (sp_eligible policy) \<and>
    family \<notin> set (sq_excluded request) \<and>
    (\<exists>candidate\<in>set (sn_agents snapshot). av_family candidate = family \<and>
       blockedForMs (av_block candidate) (sn_capturedAtMs snapshot) = Num 0)"
  using assms by (auto simp: overridden_def split: option.splits if_splits dest!: find_first_Some)

lemma draw_from_member:
  assumes "draw_from fl policy pool random step = Inr (Some family)"
  shows "family \<in> set pool \<and>
    (sp_strategy policy = ''weighted'' \<longrightarrow> 0 < weight_of (weights_of policy) family)"
  using assms
  by (cases "weightedPick fl pool (weights_of policy) random step")
     (auto simp: draw_from_def uniform_pick_def nth_opt_def Let_def split: if_splits dest: weightedPick_member)

text \<open>The three ways a selection succeeds.\<close>

lemma selectAgent_cases:
  assumes "selectAgent fl snapshot step request random = Inr (Some family)"
  obtains (override) policy where "selectionPolicy snapshot step = Inr policy"
      and "overridden snapshot policy request = Some family"
  | (preferred) policy pool where "selectionPolicy snapshot step = Inr policy"
      and "selectableAgents snapshot step (sq_excluded request) = Inr pool"
      and "sq_preferred request = Some family" and "family \<in> set pool"
  | (drawn) policy pool where "selectionPolicy snapshot step = Inr policy"
      and "selectableAgents snapshot step (sq_excluded request) = Inr pool"
      and "draw_from fl policy pool random step = Inr (Some family)"
proof -
  from assms obtain policy where p: "selectionPolicy snapshot step = Inr policy"
    by (auto simp: selectAgent_def try_bind_Inr)
  show thesis
  proof (cases "overridden snapshot policy request")
    case (Some family')
    with assms p have "family' = family" by (simp add: selectAgent_def)
    with Some p show thesis by (blast intro: override)
  next
    case None
    with assms p obtain pool where pool: "selectableAgents snapshot step (sq_excluded request) = Inr pool"
      by (cases "selectableAgents snapshot step (sq_excluded request)") (simp_all add: selectAgent_def)
    show thesis
    proof (cases "\<exists>f. sq_preferred request = Some f \<and> f \<noteq> [] \<and> f \<in> set pool")
      case True
      then obtain f where f: "sq_preferred request = Some f" "f \<noteq> []" "f \<in> set pool" by blast
      with assms p pool None have "f = family" by (simp add: selectAgent_def)
      with f p pool show thesis by (blast intro: preferred)
    next
      case False
      with assms p pool None have "draw_from fl policy pool random step = Inr (Some family)"
        by (cases "sq_preferred request") (auto simp: selectAgent_def)
      with p pool show thesis by (blast intro: drawn)
    qed
  qed
qed

definition allowed_agent :: "selection_snapshot \<Rightarrow> string \<Rightarrow> selection_request \<Rightarrow> agent_family \<Rightarrow> bool" where
  "allowed_agent snapshot step request family =
     (case selectionPolicy snapshot step of
        Inl _ \<Rightarrow> False
      | Inr policy \<Rightarrow>
          family \<in> set (sp_eligible policy) \<and> family \<notin> set (sq_excluded request) \<and>
          list_ex (\<lambda>candidate. av_family candidate = family \<and>
              blockedForMs (av_block candidate) (sn_capturedAtMs snapshot) = Num 0 \<and>
              (av_launcherAvailable candidate \<or> sq_override request = Some family))
            (sn_agents snapshot) \<and>
          (sp_strategy policy = ''weighted'' \<and> sq_override request \<noteq> Some family \<and>
             sq_preferred request \<noteq> Some family \<longrightarrow> 0 < weight_of (weights_of policy) family))"

lemma allowed_agentI:
  assumes "selectionPolicy snapshot step = Inr policy"
    and "family \<in> set (sp_eligible policy)" and "family \<notin> set (sq_excluded request)"
    and "candidate \<in> set (sn_agents snapshot)" and "av_family candidate = family"
    and "blockedForMs (av_block candidate) (sn_capturedAtMs snapshot) = Num 0"
    and "av_launcherAvailable candidate \<or> sq_override request = Some family"
    and "sp_strategy policy = ''weighted'' \<Longrightarrow> sq_override request \<noteq> Some family \<Longrightarrow>
      sq_preferred request \<noteq> Some family \<Longrightarrow> 0 < weight_of (weights_of policy) family"
  shows "allowed_agent snapshot step request family"
  using assms by (auto simp: allowed_agent_def list_ex_iff)

text \<open>C37: Whatever the policy, the override, the preference, the random number and the rounding,
  \<open>selectAgent\<close> returns a family that the step's valid policy lists, that is not excluded, that has
  a launcher record which is not blocked at the capture time, whose launcher is available unless the
  operator overrode the choice, and, when it was drawn by weight, whose weight is positive.\<close>

theorem selected_agent_allowed:
  assumes "selectAgent fl snapshot step request random = Inr (Some family)"
  shows "allowed_agent snapshot step request family"
  using assms
proof (cases rule: selectAgent_cases)
  case (override policy)
  with overridden_member[OF override(2)] show ?thesis by (blast intro: allowed_agentI)
next
  case (preferred policy pool)
  from selectable_member[OF preferred(1,2,4)] preferred(1,3) show ?thesis by (metis allowed_agentI)
next
  case (drawn policy pool)
  note d = draw_from_member[OF drawn(3)]
  then have "family \<in> set pool" by blast
  from selectable_member[OF drawn(1,2) this] drawn(1) d show ?thesis by (metis allowed_agentI)
qed

definition sample_policy :: step_policy where
  "sample_policy = \<lparr> sp_eligible = [''alpha'', ''beta'', ''gamma''], sp_strategy = ''weighted'',
     sp_weights = Some [(''alpha'', Num 1), (''beta'', Num 0), (''gamma'', Num 3)] \<rparr>"

definition sample_agent :: "agent_family \<Rightarrow> availability" where
  "sample_agent family = \<lparr> av_family = family, av_launcherAvailable = True, av_block = Unblocked,
     av_launcherDetail = Absent \<rparr>"

definition sample_snapshot :: selection_snapshot where
  "sample_snapshot = \<lparr> sn_capturedAtMs = 1000, sn_defaultPolicy = sample_policy,
     sn_steps = [(''active'', sample_policy)],
     sn_agents = [sample_agent ''alpha'', sample_agent ''beta'', sample_agent ''gamma''] \<rparr>"

definition no_request :: selection_request where
  "no_request = \<lparr> sq_preferred = None, sq_override = None, sq_excluded = [] \<rparr>"

theorem selected_agent_allowed_witness:
  "allowed_agent sample_snapshot ''act-on-review'' no_request ''gamma''"
proof -
  have "selectAgent (\<lambda>x. x) sample_snapshot ''act-on-review'' no_request (1 / 2) = Inr (Some ''gamma'')"
    by code_simp
  then show ?thesis by (rule selected_agent_allowed)
qed

section \<open>How a weighted draw divides the range\<close>

lemma draw_exact:
  assumes "\<forall>family\<in>set pool. 0 \<le> share family"
    and "i < length pool"
    and "sum_list (map share (take i pool)) \<le> cursor"
    and "cursor < sum_list (map share (take (Suc i) pool))"
  shows "draw (\<lambda>x. x) share cursor pool = Some (pool ! i)"
  using assms
proof (induction pool arbitrary: cursor i)
  case Nil
  then show ?case by simp
next
  case (Cons family rest)
  show ?case
  proof (cases i)
    case 0
    with Cons.prems show ?thesis by simp
  next
    case (Suc k)
    have "0 \<le> sum_list (map share (take k rest))"
      using Cons.prems(1) by (intro sum_list_nonneg) (auto dest: in_set_takeD)
    then have stay: "\<not> cursor - share family < 0" using Cons.prems(3) Suc by simp
    have "draw (\<lambda>x. x) share (cursor - share family) rest = Some (rest ! k)"
      using Cons.prems Suc by (intro Cons.IH) auto
    with stay Suc show ?thesis by simp
  qed
qed

lemma foldl_shares: "foldl (\<lambda>total family. total + share family) (a :: rat) pool = a + sum_list (map share pool)"
  by (induction pool arbitrary: a) simp_all

lemma scale_bound:
  "family \<in> set pool \<Longrightarrow> w family \<le> foldr (\<lambda>family m. max (w family) m) pool (0 :: rat)"
  by (induction pool) (auto simp: le_max_iff_disj)

text \<open>With exact arithmetic, the weighted draw divides the unit interval in proportion to the
  positive weights, in the order of the pool: the family at position \<open>i\<close> is returned exactly when
  the random number, scaled by the total weight, falls between the weight before it and the weight up
  to and including it. The scaling that guards against overflow does not change the choice.\<close>

lemma weighted_draw_interval:
  assumes "positive = filter (\<lambda>family. 0 < weight_of weights family) pool"
    and "i < length positive"
    and "sum_list (map (weight_of weights) (take i positive)) \<le> random * sum_list (map (weight_of weights) positive)"
    and "random * sum_list (map (weight_of weights) positive)
      < sum_list (map (weight_of weights) (take (Suc i) positive))"
  shows "weightedPick (\<lambda>x. x) pool weights random step = Inr (positive ! i)"
proof -
  let ?w = "weight_of weights"
  let ?scale = "foldr (\<lambda>family m. max (?w family) m) positive 0"
  let ?share = "\<lambda>family. ?w family / ?scale"
  have first: "positive ! i \<in> set positive" using assms(2) by simp
  then have "0 < ?w (positive ! i)" using assms(1) by auto
  also have "\<dots> \<le> ?scale" using first by (rule scale_bound)
  finally have scale: "0 < ?scale" .
  have sums: "sum_list (map ?share xs) = sum_list (map ?w xs) / ?scale" for xs
    by (induction xs) (simp_all add: add_divide_distrib)
  have pos: "\<forall>family\<in>set positive. 0 < ?share family" using assms(1) scale by auto
  have "draw (\<lambda>x. x) ?share (random * sum_list (map ?share positive)) positive = Some (positive ! i)"
  proof (rule draw_exact)
    show "\<forall>family\<in>set positive. 0 \<le> ?share family" using pos by (auto intro: less_imp_le)
    show "i < length positive" by (rule assms(2))
    show "sum_list (map ?share (take i positive)) \<le> random * sum_list (map ?share positive)"
      using assms(3) scale by (simp only: sums) (simp add: divide_right_mono)
    show "random * sum_list (map ?share positive) < sum_list (map ?share (take (Suc i) positive))"
      using assms(4) scale by (simp only: sums) (simp add: divide_strict_right_mono)
  qed
  moreover have "\<not> list_ex (\<lambda>family. ?share family = 0) positive"
    using pos by (auto simp: list_ex_iff)
  moreover have "positive \<noteq> []" using assms(2) by auto
  ultimately show ?thesis
    by (simp add: weightedPick_def assms(1)[symmetric] Let_def foldl_shares)
qed

section \<open>Exhaustion is not misconfiguration\<close>

lemma weightedPick_exhausted:
  assumes "weightedPick fl pool weights random step = Inl (Pool_exhausted s)"
  shows "s = step \<and> (\<forall>family\<in>set pool. \<not> 0 < weight_of weights family)"
  using assms by (auto simp: weightedPick_def Let_def filter_empty_conv split: if_splits)

lemma selectionPolicy_error: "selectionPolicy snapshot step = Inl e \<Longrightarrow> \<exists>fault. e = Policy_invalid step fault"
  by (auto simp: selectionPolicy_def Let_def split: if_splits option.splits)

text \<open>The families a draw for this policy could still return.\<close>

definition drawable :: "selection_snapshot \<Rightarrow> string \<Rightarrow> agent_family list \<Rightarrow> agent_family list" where
  "drawable snapshot step excluded =
     (case (selectionPolicy snapshot step, selectableAgents snapshot step excluded) of
        (Inr policy, Inr pool) \<Rightarrow>
          filter (\<lambda>family. sp_strategy policy = ''weighted'' \<longrightarrow> 0 < weight_of (weights_of policy) family) pool
      | _ \<Rightarrow> [])"

lemma draw_from_exhausted:
  assumes "draw_from fl policy pool random step = Inl (Pool_exhausted s)"
  shows "s = step \<and> filter (\<lambda>family. sp_strategy policy = ''weighted'' \<longrightarrow>
      0 < weight_of (weights_of policy) family) pool = []"
  using assms
  by (cases "weightedPick fl pool (weights_of policy) random step")
     (auto simp: draw_from_def filter_empty_conv split: if_splits dest: weightedPick_exhausted)

text \<open>\<open>selectAgent\<close> reports an exhausted pool, which a caller may recover from, only for a valid
  policy with no family left to draw; an invalid policy is always reported as such.\<close>

lemma exhaustion_is_not_misconfiguration:
  assumes "selectAgent fl snapshot step request random = Inl e"
  shows "(\<forall>fault. selectionPolicy snapshot step = Inl (Policy_invalid step fault) \<longrightarrow> e = Policy_invalid step fault) \<and>
    (e = Pool_exhausted s \<longrightarrow> s = step \<and> is_ok (selectionPolicy snapshot step) \<and>
       drawable snapshot step (sq_excluded request) = [])"
proof (cases "selectionPolicy snapshot step")
  case (Inl e')
  with assms have "e = e'" by (simp add: selectAgent_def)
  with selectionPolicy_error[OF Inl] Inl show ?thesis by auto
next
  case (Inr policy)
  then obtain pool where pool: "selectableAgents snapshot step (sq_excluded request) = Inr pool"
    by (auto simp: selectableAgents_def)
  have "e = Pool_exhausted s \<longrightarrow> draw_from fl policy pool random step = Inl (Pool_exhausted s)"
    using assms Inr pool by (auto simp: selectAgent_def split: option.splits if_splits)
  with draw_from_exhausted Inr pool show ?thesis by (auto simp: drawable_def)
qed

end
