(* ===== verification/AgentRuns.thy ===== *)
theory AgentRuns
  imports Agents Missions
begin

text \<open>
  Sessions and runs of an agent family: \<open>src/src/domain/session.ts\<close> and \<open>agent-run.ts\<close>.

  An attempt and a launch instant arrive as JavaScript numbers and are natural numbers once the
  checks passed. A run id is \<open>role-family-aATTEMPT-START\<close>, with the hyphens of the family written as
  underscores and the launch instant in base 36; \<open>parseAgentRunId\<close> reads it back.
\<close>

section \<open>Session markers\<close>

datatype session_role = Execute_role | Draft_role | Review_role

fun role_text :: "session_role \<Rightarrow> string" where
  "role_text Execute_role = ''execute''"
| "role_text Draft_role = ''draft''"
| "role_text Review_role = ''review''"

datatype run_error =
    Role_invalid string | Token_invalid string string | Attempt_invalid jsnum | Start_invalid jsnum
  | Run_repository contract_error | Run_mission mission_error | Run_family selection_error

definition sessionRole :: "string \<Rightarrow> run_error + session_role" where
  "sessionRole value =
     (if value = ''execute'' then Inr Execute_role
      else if value = ''draft'' then Inr Draft_role
      else if value = ''review'' then Inr Review_role
      else Inl (Role_invalid value))"

record session_marker =
  sk_missionId :: string
  sk_role :: session_role
  sk_agent :: agent_family
  sk_lastLaunched :: string
  sk_sessionId :: "string option"

definition shouldResume :: "session_marker option \<Rightarrow> string \<Rightarrow> session_role \<Rightarrow> agent_family \<Rightarrow> bool" where
  "shouldResume marker mission role agent =
     (case marker of
        None \<Rightarrow> False
      | Some m \<Rightarrow> sk_missionId m = mission \<and> sk_role m = role \<and> sk_agent m = agent)"

section \<open>Tokens\<close>

definition token_char :: "char \<Rightarrow> bool" where
  "token_char c \<longleftrightarrow> is_lower c \<or> is_digit c \<or> c = CHR ''_'' \<or> c = CHR ''-''"

definition underscore :: "char \<Rightarrow> bool" where
  "underscore c \<longleftrightarrow> c = CHR ''_'' \<or> c = CHR ''-''"

text \<open>\<open>value.replace(/[^a-z0-9_-]+/g, '_')\<close>: each maximal run of other characters becomes one
  underscore. The flag says that the previous character was inside such a run.\<close>

fun squeeze :: "bool \<Rightarrow> string \<Rightarrow> string" where
  "squeeze inside [] = []"
| "squeeze inside (c # s) =
     (if token_char c then c # squeeze False s
      else if inside then squeeze True s
      else CHR ''_'' # squeeze True s)"

text \<open>\<open>/^[a-z0-9][a-z0-9_-]{0,63}$/\<close>.\<close>

definition token_shape :: "string \<Rightarrow> bool" where
  "token_shape s =
     (case s of [] \<Rightarrow> False
      | c # cs \<Rightarrow> slug_char c \<and> length cs \<le> 63 \<and> list_all token_char cs)"

definition runToken :: "string \<Rightarrow> string \<Rightarrow> run_error + string" where
  "runToken value label =
     (let normalized = dropWhile underscore (squeeze False (to_lower (trim value))) in
       if token_shape normalized then Inr normalized else Inl (Token_invalid label value))"

text \<open>\<open>s.replace(/-/g, '_')\<close> and \<open>s.replace(/_/g, '-')\<close>.\<close>

definition swap_char :: "char \<Rightarrow> char \<Rightarrow> string \<Rightarrow> string" where
  "swap_char old fresh s = map (\<lambda>c. if c = old then fresh else c) s"

section \<open>Identities\<close>

record run_identity =
  ag_repositoryId :: string
  ag_missionId :: string
  ag_role :: string
  ag_family :: agent_family
  ag_attempt :: nat
  ag_startedAtMs :: nat

text \<open>The unchecked input of \<open>agentRunIdentity\<close>.\<close>

record run_input =
  ru_repositoryId :: string
  ru_missionId :: string
  ru_role :: string
  ru_family :: string
  ru_attempt :: jsnum
  ru_startedAtMs :: jsnum

text \<open>\<open>Number.isInteger(n) && n >= 1\<close>.\<close>

fun counting_number :: "jsnum \<Rightarrow> nat option" where
  "counting_number (Num q) = (if is_integer_num (Num q) \<and> 1 \<le> q then Some (nat \<lfloor>q\<rfloor>) else None)"
| "counting_number _ = None"

definition agentRunIdentity :: "run_input \<Rightarrow> run_error + run_identity" where
  "agentRunIdentity input =
     (case counting_number (ru_attempt input) of
        None \<Rightarrow> Inl (Attempt_invalid (ru_attempt input))
      | Some attempt \<Rightarrow>
     (case counting_number (ru_startedAtMs input) of
        None \<Rightarrow> Inl (Start_invalid (ru_startedAtMs input))
      | Some startedAtMs \<Rightarrow>
          try_bind (map_error Run_repository (repositoryId (ru_repositoryId input))) (\<lambda>repository.
          try_bind (map_error Run_mission (missionId (ru_missionId input))) (\<lambda>mission.
          try_bind (runToken (ru_role input) ''role'') (\<lambda>role.
          try_bind (map_error Run_family (agentFamily (ru_family input))) (\<lambda>family.
            Inr \<lparr> ag_repositoryId = repository, ag_missionId = mission,
                  ag_role = swap_char (CHR ''-'') (CHR ''_'') role, ag_family = family,
                  ag_attempt = attempt, ag_startedAtMs = startedAtMs \<rparr>))))))"

text \<open>\<open>n.toString(36)\<close>.\<close>

definition base36_char :: "nat \<Rightarrow> char" where
  "base36_char d = (if d < 10 then char_of (48 + d) else char_of (87 + d))"

fun base36 :: "nat \<Rightarrow> string" where
  "base36 n = (if n < 36 then [base36_char n] else base36 (n div 36) @ [base36_char (n mod 36)])"

declare base36.simps [simp del]

definition agentRunId :: "run_identity \<Rightarrow> string" where
  "agentRunId identity =
     ag_role identity @ ''-'' @ swap_char (CHR ''-'') (CHR ''_'') (ag_family identity) @ ''-a'' @
     decimal (ag_attempt identity) @ ''-'' @ base36 (ag_startedAtMs identity)"

text \<open>\<open>[a-z0-9][a-z0-9_]*\<close> and \<open>[a-z0-9]+\<close>. No class of the pattern holds a hyphen, so the three
  hyphens of the pattern are the only ones of a matching text.\<close>

definition word_shape :: "string \<Rightarrow> bool" where
  "word_shape s =
     (case s of [] \<Rightarrow> False | c # cs \<Rightarrow> slug_char c \<and> list_all (\<lambda>c. slug_char c \<or> c = CHR ''_'') cs)"

record parsed_run =
  pn_role :: string
  pn_family :: agent_family
  pn_attempt :: nat

definition parseAgentRunId :: "string \<Rightarrow> parsed_run option" where
  "parseAgentRunId runId =
     (case split_on (CHR ''-'') runId of
        [role, family, attempt, start] \<Rightarrow>
          (case attempt of
             [] \<Rightarrow> None
           | a # digits \<Rightarrow>
               if word_shape role \<and> word_shape family \<and> a = CHR ''a'' \<and> all_digits digits \<and>
                  start \<noteq> [] \<and> list_all slug_char start
               then (case agentFamily (swap_char (CHR ''_'') (CHR ''-'') family) of
                       Inl _ \<Rightarrow> None
                     | Inr name \<Rightarrow> Some \<lparr> pn_role = role, pn_family = name, pn_attempt = digits_val digits \<rparr>)
               else None)
      | _ \<Rightarrow> None)"

definition isAgentRunId :: "string \<Rightarrow> bool" where
  "isAgentRunId runId \<longleftrightarrow> parseAgentRunId runId \<noteq> None"

section \<open>Characters of a run id\<close>

definition run_char :: "char \<Rightarrow> bool" where
  "run_char c \<longleftrightarrow> slug_char c \<or> c = CHR ''_''"

lemma is_lower_code: "is_lower c \<longleftrightarrow> of_char c \<in> {97..122::nat}"
  by (auto simp: is_lower_def Let_def)

lemma is_digit_code: "is_digit c \<longleftrightarrow> of_char c \<in> {48..57::nat}"
  by (auto simp: is_digit_def Let_def)

lemma separators_not_slug [simp]:
  "\<not> slug_char (CHR ''-'')" "\<not> slug_char (CHR ''_'')" "\<not> run_char (CHR ''-'')" "run_char (CHR ''_'')"
  by (simp_all add: run_char_def slug_char_def is_lower_code is_digit_code)

lemma slug_run_char: "slug_char c \<Longrightarrow> run_char c"
  by (simp add: run_char_def)

lemma hyphen_free: "list_all run_char s \<Longrightarrow> CHR ''-'' \<notin> set s"
  by (auto simp: list_all_iff)

lemma list_all_slug_run: "list_all slug_char s \<Longrightarrow> list_all run_char s"
  by (auto simp: list_all_iff run_char_def)

lemma word_shape_chars: "word_shape s \<Longrightarrow> s \<noteq> [] \<and> list_all run_char s"
  by (cases s) (auto simp: word_shape_def run_char_def list_all_iff)

lemma all_digits_run: "all_digits s \<Longrightarrow> list_all run_char s"
  by (auto simp: all_digits_def list_all_iff run_char_def slug_char_def)

lemma split_on_alone: "sep \<notin> set w \<Longrightarrow> split_on sep w = [w]"
  by (induction w) auto

lemma split_on_first: "sep \<notin> set w \<Longrightarrow> split_on sep (w @ sep # s) = w # split_on sep s"
  by (induction w) auto

lemma token_char_iff: "token_char c \<longleftrightarrow> slug_char c \<or> c = CHR ''_'' \<or> c = CHR ''-''"
  by (auto simp: token_char_def slug_char_def)

lemma family_char_iff: "family_char c \<longleftrightarrow> slug_char c \<or> c = CHR ''-''"
  by (auto simp: family_char_def slug_char_def)

lemma swap_back:
  "old \<noteq> fresh \<Longrightarrow> fresh \<notin> set s \<Longrightarrow> swap_char fresh old (swap_char old fresh s) = s"
  by (induction s) (auto simp: swap_char_def)

lemma token_word:
  assumes "token_shape s"
  shows "word_shape (swap_char (CHR ''-'') (CHR ''_'') s)"
  using assms
  by (cases s) (auto simp: token_shape_def word_shape_def swap_char_def list_all_iff token_char_iff)

lemma family_chars:
  assumes "family_shape s"
  shows "CHR ''_'' \<notin> set s" and "word_shape (swap_char (CHR ''-'') (CHR ''_'') s)" and "trim s = s"
proof -
  from assms obtain c cs where s: "s = c # cs" and c: "is_lower c" and cs: "list_all family_char cs"
    by (cases s) (auto simp: family_shape_def)
  have mem: "is_lower x \<or> is_digit x \<or> x = CHR ''-''" if "x \<in> set s" for x
    using that s c cs by (auto simp: list_all_iff family_char_def)
  then show "CHR ''_'' \<notin> set s" by (force simp: is_lower_code is_digit_code)
  show "word_shape (swap_char (CHR ''-'') (CHR ''_'') s)"
  proof -
    have "slug_char c" "c \<noteq> CHR ''-''" using c by (auto simp: slug_char_def is_lower_code)
    then show ?thesis using s cs by (auto simp: word_shape_def swap_char_def list_all_iff family_char_iff)
  qed
  have "\<not> js_space x" if "x \<in> set s" for x
    using mem[OF that] by (auto simp: js_space_def is_lower_code is_digit_code Let_def)
  then show "trim s = s" using s by (intro trim_fixed) auto
qed

lemma agentFamily_Inr: "agentFamily value = Inr f \<longleftrightarrow> f = trim value \<and> family_shape (trim value)"
  by (auto simp: agentFamily_def Let_def)

section \<open>Base 36\<close>

definition base36_val :: "char \<Rightarrow> nat" where
  "base36_val c = (if is_digit c then of_char c - 48 else of_char c - 87)"

lemma base36_char_code:
  "d < 36 \<Longrightarrow> (of_char (base36_char d) :: nat) = (if d < 10 then 48 + d else 87 + d)"
  by (simp add: base36_char_def)

lemma base36_char_props:
  assumes "d < 36"
  shows "slug_char (base36_char d)" and "base36_val (base36_char d) = d"
  using assms
  by (simp_all add: base36_val_def slug_char_def is_digit_code is_lower_code base36_char_code)

lemma base36_chars: "list_all slug_char (base36 n) \<and> base36 n \<noteq> []"
proof (induction n rule: base36.induct)
  case (1 n)
  then show ?case
    by (cases "n < 36") (simp_all add: base36.simps[of n] base36_char_props(1))
qed

lemma base36_read: "foldl (\<lambda>n c. 36 * n + base36_val c) 0 (base36 n) = n"
proof (induction n rule: base36.induct)
  case (1 n)
  then show ?case
    by (cases "n < 36") (simp_all add: base36.simps[of n] base36_char_props(2))
qed

lemma base36_inj: "base36 m = base36 n \<longleftrightarrow> m = n"
  by (metis base36_read)

section \<open>Run ids\<close>

definition identity_ok :: "run_identity \<Rightarrow> bool" where
  "identity_ok identity \<longleftrightarrow>
     word_shape (ag_role identity) \<and> family_shape (ag_family identity) \<and>
     0 < ag_attempt identity \<and> 0 < ag_startedAtMs identity"

lemma counting_number_Some: "counting_number n = Some k \<Longrightarrow> 0 < k"
  by (cases n) (auto split: if_splits)

lemma agentRunIdentity_ok: "agentRunIdentity input = Inr identity \<Longrightarrow> identity_ok identity"
  by (auto simp: agentRunIdentity_def identity_ok_def try_bind_Inr agentFamily_Inr runToken_def Let_def
      split: option.splits if_splits intro: token_word counting_number_Some)

lemma split_run_id:
  assumes "identity_ok identity"
  shows "split_on (CHR ''-'') (agentRunId identity) =
    [ag_role identity, swap_char (CHR ''-'') (CHR ''_'') (ag_family identity),
     CHR ''a'' # decimal (ag_attempt identity), base36 (ag_startedAtMs identity)]"
proof -
  have role: "CHR ''-'' \<notin> set (ag_role identity)"
    using assms word_shape_chars hyphen_free by (auto simp: identity_ok_def)
  have family: "CHR ''-'' \<notin> set (swap_char (CHR ''-'') (CHR ''_'') (ag_family identity))"
    by (auto simp: swap_char_def)
  have attempt: "CHR ''-'' \<notin> set (CHR ''a'' # decimal (ag_attempt identity))"
    using hyphen_free[OF all_digits_run] decimal_digits[of "ag_attempt identity"] by (auto simp: all_digits_def)
  have start: "CHR ''-'' \<notin> set (base36 (ag_startedAtMs identity))"
    using base36_chars list_all_slug_run hyphen_free by blast
  have "agentRunId identity =
      ag_role identity @ CHR ''-'' # (swap_char (CHR ''-'') (CHR ''_'') (ag_family identity) @
        CHR ''-'' # ((CHR ''a'' # decimal (ag_attempt identity)) @ CHR ''-'' # base36 (ag_startedAtMs identity)))"
    by (simp add: agentRunId_def)
  then show ?thesis
    by (simp only: split_on_first[OF role] split_on_first[OF family] split_on_first[OF attempt] split_on_alone[OF start])
qed

lemma parse_run_id:
  assumes "identity_ok identity"
  shows "parseAgentRunId (agentRunId identity) =
    Some \<lparr> pn_role = ag_role identity, pn_family = ag_family identity, pn_attempt = ag_attempt identity \<rparr>"
proof -
  note f = family_chars[of "ag_family identity"]
  have shape: "word_shape (ag_role identity)" "family_shape (ag_family identity)"
    using assms by (simp_all add: identity_ok_def)
  have "agentFamily (swap_char (CHR ''_'') (CHR ''-'') (swap_char (CHR ''-'') (CHR ''_'') (ag_family identity)))
      = Inr (ag_family identity)"
    using shape(2) f by (simp add: swap_back agentFamily_Inr)
  then show ?thesis
    using shape f(2) decimal_digits[of "ag_attempt identity"] base36_chars[of "ag_startedAtMs identity"]
    by (simp add: parseAgentRunId_def split_run_id[OF assms] all_digits_def)
qed

text \<open>A validated identity survives its run id: \<open>parseAgentRunId\<close> reads back the role, the family
  (hyphens included) and the attempt \<open>agentRunId\<close> wrote. The two numbers are safe integers, for which
  a decimal or base-36 numeral is exact.\<close>

lemma run_id_roundtrip:
  assumes "agentRunIdentity input = Inr identity"
    and "safe_integer (int (ag_attempt identity))" and "safe_integer (int (ag_startedAtMs identity))"
  shows "parseAgentRunId (agentRunId identity) =
    Some \<lparr> pn_role = ag_role identity, pn_family = ag_family identity, pn_attempt = ag_attempt identity \<rparr>"
  using agentRunIdentity_ok[OF assms(1)] by (rule parse_run_id)

definition sample_run :: run_input where
  "sample_run = \<lparr> ru_repositoryId = ''repo'', ru_missionId = ''task-12'', ru_role = ''  Act on-Review'',
     ru_family = ''big-model'', ru_attempt = Num 2, ru_startedAtMs = Num 40 \<rparr>"

definition sample_identity :: run_identity where
  "sample_identity = \<lparr> ag_repositoryId = ''repo'', ag_missionId = ''task-12'', ag_role = ''act_on_review'',
     ag_family = ''big-model'', ag_attempt = 2, ag_startedAtMs = 40 \<rparr>"

lemma sample_identity_built: "agentRunIdentity sample_run = Inr sample_identity"
  by code_simp

text \<open>Within one Mission of one repository a run id names one run: two validated identities with
  the same id agree on role, family, attempt and launch instant.\<close>

lemma run_id_injective:
  assumes "agentRunIdentity input = Inr one" and "agentRunIdentity input' = Inr other"
    and "ag_repositoryId one = ag_repositoryId other" and "ag_missionId one = ag_missionId other"
    and "agentRunId one = agentRunId other"
  shows "one = other"
proof -
  have ok: "identity_ok one" "identity_ok other" using assms(1,2) by (auto dest: agentRunIdentity_ok)
  have "split_on (CHR ''-'') (agentRunId one) = split_on (CHR ''-'') (agentRunId other)"
    using assms(5) by simp
  then have "ag_startedAtMs one = ag_startedAtMs other"
    by (simp add: split_run_id ok base36_inj)
  moreover have "ag_role one = ag_role other \<and> ag_family one = ag_family other \<and> ag_attempt one = ag_attempt other"
    using parse_run_id[OF ok(1)] parse_run_id[OF ok(2)] assms(5) by simp
  ultimately show ?thesis using assms(3,4) by (cases one, cases other) simp
qed

text \<open>A text accepted as a run id consists of lower-case letters, digits, underscores and
  hyphens only, so it holds no path separator and no dot.\<close>

lemma run_id_safe:
  assumes "isAgentRunId runId"
  shows "list_all (\<lambda>c. run_char c \<or> c = CHR ''-'') runId \<and> CHR ''/'' \<notin> set runId \<and> CHR ''.'' \<notin> set runId"
proof -
  obtain role family attempt start where parts: "split_on (CHR ''-'') runId = [role, family, attempt, start]"
    and shapes: "word_shape role" "word_shape family" "\<exists>digits. attempt = CHR ''a'' # digits \<and> all_digits digits"
      "list_all slug_char start"
    using assms by (auto simp: isAgentRunId_def parseAgentRunId_def split: list.splits if_splits)
  have "runId = join ''-'' [role, family, attempt, start]"
    using join_split_on[of "CHR ''-''" runId] parts by simp
  moreover have "list_all run_char role" "list_all run_char family" "list_all run_char start"
    using shapes word_shape_chars list_all_slug_run by blast+
  moreover have "list_all run_char attempt"
    using shapes(3) all_digits_run by (auto simp: run_char_def slug_char_def is_lower_code)
  ultimately have "list_all (\<lambda>c. run_char c \<or> c = CHR ''-'') runId"
    by (auto simp: list_all_iff)
  moreover have "\<not> run_char (CHR ''/'')" "\<not> run_char (CHR ''.'')"
    by (simp_all add: run_char_def slug_char_def is_lower_code is_digit_code)
  ultimately show ?thesis by (auto simp: list_all_iff)
qed

end
