(* ===== verification/ApprovalCoverage.thy ===== *)
theory ApprovalCoverage
  imports Reviews Contracts
begin

text \<open>
  What an approval still covers: \<open>src/src/domain/approval-coverage.ts\<close>.

  An approval is of one revision. \<open>assessApprovalCoverage\<close> compares it with what an adapter observed
  on the branch, and \<open>recordApprovalSuperseded\<close> records the first branch move away from it. A
  recorded move is authoritative whatever is observed later; only revoking the approval
  (\<open>revokeApprovedDecision\<close> of the theory \<open>Reviews\<close>) opens a round for the new revision.
\<close>

section \<open>Bookkeeping commits\<close>

definition BOOKKEEPING_TRAILER :: string where
  "BOOKKEEPING_TRAILER = ''Parallix-Bookkeeping''"

datatype bookkeeping_kind = Backlog_mirror | Pre_commit_hook

fun bookkeeping_text :: "bookkeeping_kind \<Rightarrow> string" where
  "bookkeeping_text Backlog_mirror = ''backlog-mirror''"
| "bookkeeping_text Pre_commit_hook = ''pre-commit-hook''"

definition BOOKKEEPING_KINDS :: "string list" where
  "BOOKKEEPING_KINDS = [''backlog-mirror'', ''pre-commit-hook'']"

definition bookkeepingCommitMessage :: "string \<Rightarrow> bookkeeping_kind \<Rightarrow> string" where
  "bookkeepingCommitMessage subject kind =
     subject @ newline @ newline @ BOOKKEEPING_TRAILER @ '': '' @ bookkeeping_text kind"

definition isBookkeepingKind :: "string \<Rightarrow> bool" where
  "isBookkeepingKind value \<longleftrightarrow> trim value \<in> set BOOKKEEPING_KINDS"

section \<open>Coverage\<close>

datatype unverifiable_reason = Revision_not_recorded | Branch_unreadable | Approved_unreadable revision

datatype approval_coverage =
    Covers int revision
  | Stale int revision revision "supersession option"
  | Unverifiable int "revision option" unverifiable_reason

record landed_change =
  lc_landedRevision :: "revision option"
  lc_sameChange :: "bool option"

definition effectiveApproval :: "review option \<Rightarrow> (review_round \<times> approval) option" where
  "effectiveApproval review =
     (case review of
        None \<Rightarrow> None
      | Some r \<Rightarrow>
          if reviewStatus r \<noteq> Status_approved then None
          else let rd = currentReviewRound r in
            map_option (\<lambda>decision. (rd, decision)) (approval_of (rd_decision rd)))"

text \<open>\<open>!value\<close> of a revision that may be absent: \<open>null\<close> and the empty string.\<close>

definition revision_text :: "revision option \<Rightarrow> revision option" where
  "revision_text r = (case r of None \<Rightarrow> None | Some t \<Rightarrow> if t = [] then None else Some t)"

definition assessApprovalCoverage :: "review option \<Rightarrow> landed_change option \<Rightarrow> approval_coverage option" where
  "assessApprovalCoverage review observation =
     (case effectiveApproval review of
        None \<Rightarrow> None
      | Some (rd, decision) \<Rightarrow>
          let n = rd_number rd in
          Some (case revision_text (given (ap_revision decision)) of
             None \<Rightarrow> Unverifiable n None Revision_not_recorded
           | Some approvedRevision \<Rightarrow>
          (case ap_supersession decision of
             Some recorded \<Rightarrow> Stale n approvedRevision (ss_supersedingRevision recorded) (Some recorded)
           | None \<Rightarrow>
          (case observation of
             None \<Rightarrow> Unverifiable n (Some approvedRevision) Branch_unreadable
           | Some ob \<Rightarrow>
          (case revision_text (lc_landedRevision ob) of
             None \<Rightarrow> Unverifiable n (Some approvedRevision) Branch_unreadable
           | Some landed \<Rightarrow>
               if landed = approvedRevision \<or> lc_sameChange ob = Some True then Covers n approvedRevision
               else if lc_sameChange ob = None
               then Unverifiable n (Some approvedRevision) (Approved_unreadable approvedRevision)
               else Stale n approvedRevision landed None)))))"

datatype coverage_error = No_effective_approval | Supersession_incomplete | Superseding_revision review_error

definition recordApprovalSuperseded :: "review \<Rightarrow> supersession \<Rightarrow> coverage_error + review" where
  "recordApprovalSuperseded review ss =
     (case effectiveApproval (Some review) of
        None \<Rightarrow> Inl No_effective_approval
      | Some (rd, decision) \<Rightarrow>
          if ap_supersession decision \<noteq> None then Inr review
          else if blank (ss_supersededAt ss) \<or> blank (ss_recordedBy ss) then Inl Supersession_incomplete
          else try_bind (map_error Superseding_revision (changeRevision (ss_supersedingRevision ss))) (\<lambda>superseding.
            Inr (review\<lparr>rounds := replaceCurrentRound review
              (rd\<lparr>rd_decision := Some (Approved (decision\<lparr>ap_supersession :=
                 Some \<lparr> ss_supersededAt = ss_supersededAt ss, ss_supersedingRevision = superseding,
                        ss_recordedBy = ss_recordedBy ss \<rparr>\<rparr>))\<rparr>)\<rparr>)))"

text \<open>The sentence for a stale approval; \<open>${n}\<close> of a round number.\<close>

definition int_text :: "int \<Rightarrow> string" where
  "int_text n = (if n < 0 then CHR ''-'' # decimal (nat (- n)) else decimal (nat n))"

definition staleApprovalSentence :: "int \<Rightarrow> revision \<Rightarrow> revision \<Rightarrow> supersession option \<Rightarrow> string" where
  "staleApprovalSentence n approved landed recorded =
     (let how = (case recorded of
         None \<Rightarrow> []
       | Some ss \<Rightarrow> '' (recorded by '' @ ss_recordedBy ss @ '' at '' @ ss_supersededAt ss @ '')'') in
      ''Approval from round '' @ int_text n @ '' covers revision '' @ approved @ '', '' @
      ''no longer what the branch would land ('' @ landed @ '')'' @ how @ ''. '' @
      ''No changes were requested; the new revision needs a fresh review.'')"

section \<open>Lemmas\<close>

lemma effectiveApproval_Some:
  "effectiveApproval (Some r) = Some (rd, a) \<longleftrightarrow>
     rd = currentReviewRound r \<and> rd_decision rd = Some (Approved a) \<and> ap_revocation a = None"
  by (auto simp: effectiveApproval_def status_cases effective_approval_iff Let_def)

lemma revision_text_Some [simp]: "revision_text r = Some t \<longleftrightarrow> r = Some t \<and> t \<noteq> []"
  by (auto simp: revision_text_def split: option.splits if_splits)

lemma revision_text_None: "revision_text r = None \<longleftrightarrow> r = None \<or> r = Some []"
  by (auto simp: revision_text_def split: option.splits)

lemma recorded_Inr:
  assumes "recordApprovalSuperseded r ss = Inr r'"
  obtains (again) a where "rd_decision (currentReviewRound r) = Some (Approved a)" "ap_revocation a = None"
      "ap_supersession a \<noteq> None" "r' = r"
  | (first) a where "rd_decision (currentReviewRound r) = Some (Approved a)" "ap_revocation a = None"
      "ap_supersession a = None" "\<not> blank (ss_supersededAt ss)" "\<not> blank (ss_recordedBy ss)"
      "\<not> blank (ss_supersedingRevision ss)"
      "r' = r\<lparr>rounds := butlast (rounds r) @
        [(currentReviewRound r)\<lparr>rd_decision := Some (Approved (a\<lparr>ap_supersession := Some ss\<rparr>))\<rparr>]\<rparr>"
  using assms
  by (auto simp: recordApprovalSuperseded_def effectiveApproval_Some try_bind_Inr change_revision_Inr
      split: option.splits if_splits)

lemma recorded_conversation:
  assumes ok: "conversation ck r" and rec: "recordApprovalSuperseded r ss = Inr r'"
  shows "conversation ck r'"
  using rec
proof (cases rule: recorded_Inr)
  case again
  with ok show ?thesis by simp
next
  case (first a)
  have "round_ok (currentReviewRound r)" using ok by (rule conversation_current)
  with first(1) have "round_ok ((currentReviewRound r)\<lparr>rd_decision := Some (Approved (a\<lparr>ap_supersession := Some ss\<rparr>))\<rparr>)"
    by (auto simp: round_ok_def)
  from conversation_replace[OF ok this] show ?thesis unfolding first(7) by simp
qed

section \<open>Properties\<close>

text \<open>Coverage is decided by recorded facts alone. \<open>assessApprovalCoverage\<close> answers that the
  approval covers the branch exactly when the current round carries an approval in force with a
  recorded revision, no branch move was recorded against it, and the branch revision could be read
  and is the approved one or carries the same change. It answers nothing exactly when the
  conversation is not approved.\<close>

lemma coverage_exact:
  "(assessApprovalCoverage (Some r) ob = Some (Covers n v) \<longleftrightarrow>
     (\<exists>a o'. rd_decision (currentReviewRound r) = Some (Approved a) \<and> ap_revocation a = None \<and>
        ap_revision a = Present v \<and> v \<noteq> [] \<and> ap_supersession a = None \<and> n = rd_number (currentReviewRound r) \<and>
        ob = Some o' \<and> (\<exists>l. lc_landedRevision o' = Some l \<and> l \<noteq> [] \<and> (l = v \<or> lc_sameChange o' = Some True)))) \<and>
   (assessApprovalCoverage (Some r) ob = None \<longleftrightarrow> reviewStatus r \<noteq> Status_approved)"
proof
  show "assessApprovalCoverage (Some r) ob = Some (Covers n v) \<longleftrightarrow>
     (\<exists>a o'. rd_decision (currentReviewRound r) = Some (Approved a) \<and> ap_revocation a = None \<and>
        ap_revision a = Present v \<and> v \<noteq> [] \<and> ap_supersession a = None \<and> n = rd_number (currentReviewRound r) \<and>
        ob = Some o' \<and> (\<exists>l. lc_landedRevision o' = Some l \<and> l \<noteq> [] \<and> (l = v \<or> lc_sameChange o' = Some True)))"
    (is "?l = ?r")
  proof
    assume ?l
    then show ?r
      by (auto simp: assessApprovalCoverage_def effectiveApproval_Some Let_def split: option.splits if_splits)
  next
    assume ?r
    then obtain a o' l where "effectiveApproval (Some r) = Some (currentReviewRound r, a)"
        "revision_text (given (ap_revision a)) = Some v" "ap_supersession a = None" "ob = Some o'"
        "revision_text (lc_landedRevision o') = Some l" "l = v \<or> lc_sameChange o' = Some True"
        "n = rd_number (currentReviewRound r)"
      by (auto simp: effectiveApproval_Some)
    then show ?l by (auto simp: assessApprovalCoverage_def Let_def revision_text_def)
  qed
next
  show "assessApprovalCoverage (Some r) ob = None \<longleftrightarrow> reviewStatus r \<noteq> Status_approved"
    by (auto simp: assessApprovalCoverage_def effectiveApproval_def status_cases effective_approval_iff Let_def
        split: option.splits)
qed

text \<open>C35: The first recorded branch move stands. After a move was recorded against an approval the
  conversation is still approved and its earlier rounds are untouched, and recording another move changes
  nothing. Every later observation of the branch, a return to the approved revision included, finds the
  approval stale with the move that was recorded first, or, when the approval never recorded a revision,
  finds it unverifiable for that reason: no observation finds it covered again.\<close>

theorem supersession_is_sticky:
  assumes ok: "conversation ck r" and rec: "recordApprovalSuperseded r ss = Inr r'"
  shows "conversation ck r' \<and> reviewStatus r' = Status_approved \<and> butlast (rounds r') = butlast (rounds r) \<and>
    recordApprovalSuperseded r' ss' = Inr r' \<and>
    (let n = rd_number (currentReviewRound r);
         kept = default_to ss (Option.bind (approval_of (rd_decision (currentReviewRound r))) ap_supersession) in
      assessApprovalCoverage (Some r') ob =
        Some (case revision_text (decidedRevisionOf (Some (currentReviewRound r))) of
            Some v \<Rightarrow> Stale n v (ss_supersedingRevision kept) (Some kept)
          | None \<Rightarrow> Unverifiable n None Revision_not_recorded))"
  using rec
proof (cases rule: recorded_Inr)
  case (again a)
  then obtain kept where "ap_supersession a = Some kept" by blast
  with again ok show ?thesis
    by (auto simp: decidedRevisionOf_def status_cases effective_approval_iff recordApprovalSuperseded_def
        assessApprovalCoverage_def effectiveApproval_def Let_def revision_text_None split: option.splits)
next
  case (first a)
  let ?a = "a\<lparr>ap_supersession := Some ss\<rparr>"
  have conv: "conversation ck r'" using ok rec by (rule recorded_conversation)
  have cur: "currentReviewRound r' = (currentReviewRound r)\<lparr>rd_decision := Some (Approved ?a)\<rparr>"
    and rs: "butlast (rounds r') = butlast (rounds r)"
    using first(7) by simp_all
  have eff: "effectiveApproval (Some r') = Some (currentReviewRound r', ?a)"
    using first(2) by (simp add: effectiveApproval_Some cur)
  have "reviewStatus r' = Status_approved"
    using first(2) by (simp add: status_cases cur effective_approval_iff)
  moreover have "recordApprovalSuperseded r' ss' = Inr r'"
    by (simp add: recordApprovalSuperseded_def eff)
  ultimately show ?thesis using conv rs first(1,3)
    by (simp add: assessApprovalCoverage_def eff cur Let_def decidedRevisionOf_def revision_text_None split: option.split)
qed

definition sample_move :: supersession where
  "sample_move = \<lparr> ss_supersededAt = ''2026-01-02T00:00:00Z'', ss_supersedingRevision = ''bbb'',
     ss_recordedBy = ''px rebase'' \<rparr>"

lemma approved_sample:
  obtains r a where "run_sample [Reviewer_acts (Approve sample_approve)] = Inr r"
    "conversation (\<lambda>s. s :: string) r" "rd_decision (currentReviewRound r) = Some (Approved a)"
    "ap_revocation a = None" "ap_supersession a = None" "ap_revision a = ac_revision sample_approve"
    "rd_number (currentReviewRound r) = 1"
proof -
  let ?cs = "[Reviewer_acts (Approve sample_approve)]"
  have "case run_sample ?cs of Inl _ \<Rightarrow> False | Inr r \<Rightarrow> rd_number (currentReviewRound r) = 1 \<and>
      (case rd_decision (currentReviewRound r) of Some (Approved a) \<Rightarrow>
         ap_revocation a = None \<and> ap_supersession a = None \<and> ap_revision a = ac_revision sample_approve
       | _ \<Rightarrow> False)" by code_simp
  then obtain r a where r: "run_sample ?cs = Inr r" "rd_number (currentReviewRound r) = 1"
      "rd_decision (currentReviewRound r) = Some (Approved a)"
      "ap_revocation a = None" "ap_supersession a = None" "ap_revision a = ac_revision sample_approve"
    by (cases "run_sample ?cs") (auto split: option.splits reviewer_decision.splits)
  have "conversation (\<lambda>s. s :: string) sample_review" by (rule sample_conversation)
  then have "conversation (\<lambda>s. s :: string) r"
    using r(1) unfolding run_sample_def by (rule review_machine.run_inv)
  with r that show ?thesis by blast
qed

lemma sample_move_recorded:
  assumes "rd_decision (currentReviewRound r) = Some (Approved a)" "ap_revocation a = None" "ap_supersession a = None"
  shows "\<exists>r'. recordApprovalSuperseded r sample_move = Inr r'"
proof -
  have "\<not> blank (ss_supersededAt sample_move)" "\<not> blank (ss_recordedBy sample_move)"
    "changeRevision (ss_supersedingRevision sample_move) = Inr (ss_supersedingRevision sample_move)"
    by code_simp+
  with assms show ?thesis
    by (simp add: recordApprovalSuperseded_def effectiveApproval_def status_cases effective_approval_iff Let_def
        map_error_def)
qed

theorem supersession_is_sticky_witness:
  "\<exists>r r' v. recordApprovalSuperseded r sample_move = Inr r' \<and> reviewStatus r' = Status_approved \<and>
    recordApprovalSuperseded r' sample_move = Inr r' \<and>
    assessApprovalCoverage (Some r') (Some \<lparr> lc_landedRevision = Some v, lc_sameChange = Some True \<rparr>) =
      Some (Stale 1 v ''bbb'' (Some sample_move))"
proof -
  obtain r a where r: "conversation (\<lambda>s. s :: string) r" "rd_decision (currentReviewRound r) = Some (Approved a)"
    "ap_revocation a = None" "ap_supersession a = None" "ap_revision a = ac_revision sample_approve"
    "rd_number (currentReviewRound r) = 1"
    by (rule approved_sample)
  then obtain r' where r': "recordApprovalSuperseded r sample_move = Inr r'" using sample_move_recorded by blast
  have "given (ac_revision sample_approve) \<noteq> None \<and> given (ac_revision sample_approve) \<noteq> Some []" by code_simp
  then obtain v where "given (ac_revision sample_approve) = Some v" "v \<noteq> []" by auto
  then have v: "revision_text (decidedRevisionOf (Some (currentReviewRound r))) = Some v"
    using r by (auto simp: decidedRevisionOf_def)
  have "ss_supersedingRevision sample_move = ''bbb''" by (simp add: sample_move_def)
  with supersession_is_sticky[OF r(1) r', of sample_move "Some \<lparr> lc_landedRevision = Some v, lc_sameChange = Some True \<rparr>"] v r r'
  show ?thesis by (intro exI[of _ r] exI[of _ r'] exI[of _ v]) (simp add: Let_def)
qed

text \<open>A recorded branch move and an operator's stand-down lead to a review of the branch as it is.
  Where a move was recorded against an approval in force, revoking the round's approval succeeds and
  opens a round that awaits review of the revision the move recorded, on the same change.\<close>

lemma stand_down_reviews_the_move:
  assumes ok: "conversation ck r" and rec: "recordApprovalSuperseded r ss = Inr r'"
    and first: "\<And>a. approval_of (rd_decision (currentReviewRound r)) = Some a \<Longrightarrow> ap_supersession a = None"
    and safe: "safe_integer (rd_number (currentReviewRound r))"
    and rk: "\<not> blank (rk_reason rk)" "\<not> blank (rk_revokedBy rk)" "\<not> blank (rk_revokedAt rk)"
  shows "\<exists>r''. revokeApprovedDecision r' (rd_number (currentReviewRound r)) rk = Inr r'' \<and>
    reviewStatus r'' = Awaiting_review \<and>
    rr_revision (rd_subject (currentReviewRound r'')) = ss_supersedingRevision ss \<and>
    rr_change (rd_subject (currentReviewRound r'')) = rr_change (rd_subject (currentReviewRound r)) \<and>
    assessApprovalCoverage (Some r'') ob = None"
  using rec
proof (cases rule: recorded_Inr)
  case (again a)
  with first show ?thesis by auto
next
  case (first a)
  let ?a = "a\<lparr>ap_supersession := Some ss\<rparr>"
  let ?cur = "(currentReviewRound r)\<lparr>rd_decision := Some (Approved ?a)\<rparr>"
  have cur: "currentReviewRound r' = ?cur" using first(7) by simp
  have conv: "conversation ck r'" using ok rec by (rule recorded_conversation)
  have ne: "ss_supersedingRevision ss \<noteq> []" using first(6) by (metis blank_Nil)
  have facts: "rd_decision (currentReviewRound r') = Some (Approved ?a)" "ap_revocation ?a = None"
      "safe_integer (rd_number (currentReviewRound r'))"
    using first(2) safe by (simp_all add: cur)
  obtain r'' opened where opened: "revokeApprovedDecision r' (rd_number (currentReviewRound r')) rk = Inr r''"
      "reviewStatus r'' = Awaiting_review"
      "rounds r'' = butlast (rounds r') @
        [(currentReviewRound r')\<lparr>rd_decision := Some (Approved (?a\<lparr>ap_revocation := Some rk\<rparr>))\<rparr>, opened]"
      "rd_subject opened = (if superseding_revision ?a = None \<or> superseding_revision ?a = Some []
         then rd_subject (currentReviewRound r')
         else (rd_subject (currentReviewRound r'))\<lparr>rr_revision := the (superseding_revision ?a)\<rparr>)"
    by (rule revoke_effective[OF conv facts rk])
  have "currentReviewRound r'' = opened" using opened(3) by (simp add: currentReviewRound_def nth_append)
  moreover have "rd_subject opened = (rd_subject (currentReviewRound r))\<lparr>rr_revision := ss_supersedingRevision ss\<rparr>"
    using opened(4) ne by (simp add: superseding_revision_def cur)
  moreover have "assessApprovalCoverage (Some r'') ob = None"
    using opened(2) by (simp add: assessApprovalCoverage_def effectiveApproval_def)
  ultimately show ?thesis using opened(1,2) by (auto simp: cur)
qed

end
