(* ===== verification/Obligations.thy ===== *)
theory Obligations
  imports Reviews ApprovalCoverage
begin

text \<open>
  The findings a later decision still has to answer: \<open>src/src/domain/review-obligations.ts\<close>.

  The regular expressions of the file are written as scanners. A heading is two to four hash signs,
  white space and a finding name \<open>F\<close>, digits, an optional letter, at a word boundary; the recorded
  findings text is cut before every heading that starts a line. The trailer pattern of \<open>clean\<close> takes
  the new lines before the rule with it, which the following \<open>trim\<close> removes in any case.
\<close>

section \<open>Scanning the recorded findings\<close>

definition letter :: "char \<Rightarrow> bool" where
  "letter c \<longleftrightarrow> is_lower c \<or> is_upper c"

definition word_char :: "char \<Rightarrow> bool" where
  "word_char c \<longleftrightarrow> letter c \<or> is_digit c \<or> c = CHR ''_''"

definition line_end :: "char \<Rightarrow> bool" where
  "line_end c \<longleftrightarrow> c = char_of (10 :: nat) \<or> c = char_of (13 :: nat)"

fun cut_before :: "string \<Rightarrow> string \<Rightarrow> string" where
  "cut_before part [] = []"
| "cut_before part (c # s) =
     (if strip_prefix part (c # s) \<noteq> None then [] else c # cut_before part s)"

definition round_trailer :: string where
  "round_trailer = ''---'' @ newline @ [CHR 0x60] @ ''[workflow-round:''"

definition clean :: "string \<Rightarrow> string" where
  "clean t = trim (cut_before round_trailer t)"

text \<open>\<open>F\d+[a-z]?\b\<close>, ignoring case: the name and the rest of the text.\<close>

definition finding_name :: "string \<Rightarrow> (string \<times> string) option" where
  "finding_name s =
     (case s of
        [] \<Rightarrow> None
      | f # rest \<Rightarrow>
          let digits = takeWhile is_digit rest;
              after = dropWhile is_digit rest;
              suffix = (case after of [] \<Rightarrow> [] | c # _ \<Rightarrow> if letter c then [c] else []);
              beyond = drop (length suffix) after in
          if (f = CHR ''F'' \<or> f = CHR ''f'') \<and> digits \<noteq> [] \<and>
             (case beyond of [] \<Rightarrow> True | c # _ \<Rightarrow> \<not> word_char c)
          then Some (f # digits @ suffix, beyond) else None)"

text \<open>\<open>^#{2,4}\s*(F\d+[a-z]?)\b\<close> at the front of the text.\<close>

definition heading :: "string \<Rightarrow> string option" where
  "heading s =
     (let hashes = takeWhile (\<lambda>c. c = CHR 0x23) s in
       if 2 \<le> length hashes \<and> length hashes \<le> 4
       then map_option fst (finding_name (dropWhile js_space (dropWhile (\<lambda>c. c = CHR 0x23) s)))
       else None)"

text \<open>\<open>raw.split(/(?=^...)/gim)\<close>: a cut before every heading at the start of a line, but none before
  the first character. The accumulator is the current section, reversed.\<close>

fun cut_sections :: "string \<Rightarrow> string \<Rightarrow> string list" where
  "cut_sections acc [] = [rev acc]"
| "cut_sections acc (c # s) =
     (case acc of
        [] \<Rightarrow> cut_sections [c] s
      | p # _ \<Rightarrow>
          if line_end p \<and> heading (c # s) \<noteq> None then rev acc # cut_sections [c] s
          else cut_sections (c # acc) s)"

text \<open>\<open>/^F\d+[A-Z]?$/i\<close>.\<close>

definition reviewer_id :: "finding_id \<Rightarrow> bool" where
  "reviewer_id i = (case finding_name i of None \<Rightarrow> False | Some (_, beyond) \<Rightarrow> beyond = [])"

section \<open>Rounds that count\<close>

fun decision_classifier :: "reviewer_decision \<Rightarrow> classifier_source option" where
  "decision_classifier (Approved a) = ap_classifier a"
| "decision_classifier (Changes_requested c) = cr_classifier c"

definition is_mechanical :: "reviewer_decision \<Rightarrow> bool" where
  "is_mechanical d = (case d of Approved a \<Rightarrow> (case ap_source a of Mechanical_restoration _ \<Rightarrow> True | _ \<Rightarrow> False) | _ \<Rightarrow> False)"

definition generalDecision :: "review_round \<Rightarrow> bool" where
  "generalDecision rd =
     (case rd_decision rd of
        None \<Rightarrow> False
      | Some d \<Rightarrow> decision_classifier d = None \<and> \<not> is_mechanical d)"

definition carriesFindings :: "review_round \<Rightarrow> bool" where
  "carriesFindings rd =
     (case request_of (rd_decision rd) of
        None \<Rightarrow> False
      | Some c \<Rightarrow>
          (case cr_classifier c of
             None \<Rightarrow> False
           | Some source \<Rightarrow> cs_baseRef source = None \<and> cs_integrationRepair source = None))"

definition decided_at :: "review_round \<Rightarrow> string" where
  "decided_at rd =
     (case rd_decision rd of
        Some (Approved a) \<Rightarrow> ap_decidedAt a
      | Some (Changes_requested c) \<Rightarrow> cr_decidedAt c
      | None \<Rightarrow> [])"

section \<open>Obligations\<close>

record obligation_scope =
  ob_general :: review_round
  ob_findings :: "review_finding list"

definition recorded_findings_text :: "review \<Rightarrow> review_round \<Rightarrow> string" where
  "recorded_findings_text review general =
     (case at_last (filter (\<lambda>e. re_roundNumber e = Some (rd_number general) \<and> re_eventType e = Reviewer_findings)
        (reviewEvents review)) of None \<Rightarrow> [] | Some e \<Rightarrow> re_content e)"

definition priorFindings :: "review \<Rightarrow> review_round \<Rightarrow> review_finding list" where
  "priorFindings review general =
     (let findings = (case request_of (rd_decision general) of
            None \<Rightarrow> [] | Some c \<Rightarrow> filter (\<lambda>f. reviewer_id (rf_id f)) (cr_findings c));
          sections = cut_sections [] (recorded_findings_text review general) in
      map (\<lambda>f.
        case find_first (\<lambda>t. map_option to_upper (heading t) = Some (to_upper (rf_id f))) sections of
          None \<Rightarrow> f
        | Some section \<Rightarrow> f\<lparr>rf_summary := clean section\<rparr>) findings)"

definition humanText :: "review_event \<Rightarrow> string \<Rightarrow> string option" where
  "humanText event since =
     (if re_eventType event \<noteq> Human_note \<or> default_to [] (re_actor event) \<in> {''system'', ''workflow''} \<or>
         date_parse (re_createdAt event) = None \<or>
         (case (date_parse (re_createdAt event), date_parse since) of
            (Some e, Some s) \<Rightarrow> e < s | _ \<Rightarrow> False)
      then None
      else let t = clean (re_content event) in
        if t = [] \<or> strip_prefix ''cleared a human-intervention stop'' t \<noteq> None \<or>
           strip_prefix ''invalidated a BLOCKED stop'' t \<noteq> None
        then None else Some t)"

fun human_notes :: "string \<Rightarrow> string list \<Rightarrow> review_event list \<Rightarrow> review_finding list" where
  "human_notes since seen [] = []"
| "human_notes since seen (event # events) =
     (case humanText event since of
        None \<Rightarrow> human_notes since seen events
      | Some t \<Rightarrow>
          if t \<in> set seen then human_notes since seen events
          else \<lparr> rf_id = ''H'' @ int_text (re_position event), rf_summary = t, rf_location = None \<rparr>
            # human_notes since (t # seen) events)"

definition humanFindings :: "review \<Rightarrow> review_round \<Rightarrow> review_finding list" where
  "humanFindings review general =
     (let notes = human_notes (decided_at general) [] (reviewEvents review) in
       notes @
       (case approval_of (rd_decision general) of
          None \<Rightarrow> []
        | Some a \<Rightarrow>
       (case ap_revocation a of
          None \<Rightarrow> []
        | Some rk \<Rightarrow>
            if rk_cause rk = Some Operator \<and> clean (rk_reason rk) \<noteq> [] \<and>
               clean (rk_reason rk) \<notin> set (map rf_summary notes)
            then [\<lparr> rf_id = ''H-revocation-'' @ int_text (rd_number general),
                    rf_summary = clean (rk_reason rk), rf_location = None \<rparr>]
            else [])))"

definition reviewObligations :: "review \<Rightarrow> obligation_scope option" where
  "reviewObligations review =
     (let earlier = filter (\<lambda>rd. rd_decision rd \<noteq> None) (butlast (rounds review)) in
      case at_last earlier of
        None \<Rightarrow> None
      | Some nearest \<Rightarrow>
          if \<not> generalDecision nearest \<and> \<not> carriesFindings nearest then None
          else (case find_first generalDecision (rev earlier) of
            None \<Rightarrow> None
          | Some general \<Rightarrow>
              let prior = priorFindings review general;
                  carried = (case request_of (rd_decision nearest) of None \<Rightarrow> [] | Some c \<Rightarrow> map rf_id (cr_findings c));
                  findings = prior @ humanFindings review general in
              if carriesFindings nearest \<and> \<not> list_all (\<lambda>f. rf_id f \<in> set carried) prior then None
              else if findings = [] then None
              else Some \<lparr> ob_general = general, ob_findings = findings \<rparr>))"

section \<open>Properties\<close>

lemma carries_not_general: "carriesFindings rd \<Longrightarrow> \<not> generalDecision rd"
  by (auto simp: carriesFindings_def generalDecision_def split: option.splits)

lemma priorFindings_ids:
  "map rf_id (priorFindings review general) =
     (case request_of (rd_decision general) of None \<Rightarrow> [] | Some c \<Rightarrow> filter reviewer_id (map rf_id (cr_findings c)))"
proof -
  have "rf_id (case find_first p sections of None \<Rightarrow> f | Some section \<Rightarrow> f\<lparr>rf_summary := clean section\<rparr>) = rf_id f"
    for p sections and f :: review_finding
    by (simp split: option.split)
  then show ?thesis
    by (simp add: priorFindings_def Let_def filter_map comp_def split: option.split)
qed

lemma human_notes_fresh:
  "f \<in> set (human_notes since seen events) \<Longrightarrow> rf_summary f \<notin> set seen \<and> rf_summary f \<noteq> []"
  by (induction since seen events rule: human_notes.induct)
     (auto simp: humanText_def Let_def split: option.splits if_splits)

lemma human_notes_distinct: "distinct (map rf_summary (human_notes since seen events))"
proof (induction since seen events rule: human_notes.induct)
  case (2 since seen event events)
  show ?case
  proof (cases "humanText event since")
    case None
    with 2(1) show ?thesis by simp
  next
    case (Some t)
    have "t \<notin> set (map rf_summary (human_notes since (t # seen) events))"
      using human_notes_fresh[of _ since "t # seen" events] by fastforce
    with Some 2(2,3)[OF Some] show ?thesis by simp
  qed
qed simp

lemma human_findings_distinct: "distinct (map rf_summary (humanFindings review general))"
  using human_notes_distinct by (auto simp: humanFindings_def Let_def split: option.splits)

text \<open>A classifier's decision never resets the ancestry of a review. The obligations come from
  the latest general decision before the current round: a round that has a decision no classifier and
  no mechanical restoration made, after which every decided round but the current one was decided by
  one of these. They are not empty, hold each reviewer finding of that decision in its order with its
  identity, and after these one entry for each distinct text of the humans.\<close>

lemma obligations_from_general_decision:
  assumes "reviewObligations review = Some scope"
  shows "ob_findings scope \<noteq> [] \<and> generalDecision (ob_general scope) \<and>
    (\<exists>before after. butlast (rounds review) = before @ ob_general scope # after \<and>
       (\<forall>rd\<in>set after. \<not> generalDecision rd)) \<and>
    (\<exists>prior human. ob_findings scope = prior @ human \<and> distinct (map rf_summary human) \<and>
       map rf_id prior = (case request_of (rd_decision (ob_general scope)) of
          None \<Rightarrow> [] | Some c \<Rightarrow> filter reviewer_id (map rf_id (cr_findings c))))"
proof -
  let ?earlier = "filter (\<lambda>rd. rd_decision rd \<noteq> None) (butlast (rounds review))"
  from assms obtain general where g: "find_first generalDecision (rev ?earlier) = Some general"
    and sc: "ob_general scope = general"
      "ob_findings scope = priorFindings review general @ humanFindings review general"
      "ob_findings scope \<noteq> []"
    by (auto simp: reviewObligations_def Let_def split: option.splits if_splits)
  have general: "generalDecision general" using g by (auto dest: find_first_Some)
  have "\<exists>before after. butlast (rounds review) = before @ general # after \<and> (\<forall>rd\<in>set after. \<not> generalDecision rd)"
  proof -
    have "general \<in> set (butlast (rounds review))" using find_first_Some[OF g] by auto
    then have "\<exists>rd\<in>set (butlast (rounds review)). generalDecision rd" using general by blast
    from split_list_last_prop[OF this] obtain before rd after where
      split: "butlast (rounds review) = before @ rd # after" "generalDecision rd"
        "\<forall>x\<in>set after. \<not> generalDecision x" by blast
    have "rd_decision rd \<noteq> None" using split(2) by (auto simp: generalDecision_def split: option.splits)
    moreover have "find_first generalDecision (rev (filter (\<lambda>rd. rd_decision rd \<noteq> None) after)) = None"
      unfolding find_first_None using split(3) by auto
    ultimately have "find_first generalDecision (rev ?earlier) = Some rd"
      using split(1,2) by (simp add: find_append del: not_None_eq)
    with g have "rd = general" by simp
    with split show ?thesis by blast
  qed
  then show ?thesis
    using sc general priorFindings_ids human_findings_distinct by blast
qed

definition sample_note :: review_event where
  "sample_note = \<lparr> re_position = 4, re_eventType = Human_note, re_roundNumber = Some 1, re_phase = None,
     re_actor = Some ''olle'', re_content = ''Keep the flag'', re_disposition = None, re_verdict = None,
     re_itemDispositions = None, re_blockedReason = None, re_followUpReference = None,
     re_createdAt = ''2026-03-01T00:00:00Z'' \<rparr>"

definition sample_findings_note :: review_event where
  "sample_findings_note = sample_note\<lparr>re_eventType := Reviewer_findings,
     re_content := ''## F1 Guard missing''\<rparr>"

definition sample_answered :: review where
  "sample_answered =
     (let first = (currentReviewRound sample_review)\<lparr>rd_decision := Some (Changes_requested
        \<lparr> cr_classifier = None, cr_revision = Present ''aaa'', cr_decidedAt = ''2026-01-01T01:00:00Z'', cr_comment = None,
          cr_findings = [sample_finding\<lparr>rf_id := ''f1''\<rparr>] \<rparr>)\<rparr> in
      sample_review\<lparr>rounds := [first, (currentReviewRound sample_review)\<lparr>rd_number := 2\<rparr>],
        reviewEvents := [sample_findings_note, sample_note]\<rparr>)"

lemma obligations_general:
  assumes "filter (\<lambda>rd. rd_decision rd \<noteq> None) (butlast (rounds review)) = [general]"
    and "generalDecision general" and "priorFindings review general \<noteq> []"
  shows "reviewObligations review =
    Some \<lparr> ob_general = general, ob_findings = priorFindings review general @ humanFindings review general \<rparr>"
proof -
  have "\<not> carriesFindings general" using assms(2) carries_not_general by blast
  then show ?thesis
    unfolding reviewObligations_def Let_def assms(1) using assms(2,3) by simp
qed

lemma obligations_of_sample:
  "map_option (\<lambda>scope. map rf_summary (ob_findings scope)) (reviewObligations sample_answered)
      = Some [''## F1 Guard missing'', ''Keep the flag'']"
proof -
  let ?g = "hd (rounds sample_answered)"
  have one: "filter (\<lambda>rd. rd_decision rd \<noteq> None) (butlast (rounds sample_answered)) = [?g]"
    by (simp add: sample_answered_def Let_def)
  have general: "generalDecision ?g" by code_simp
  have prior: "map rf_summary (priorFindings sample_answered ?g) = [''## F1 Guard missing'']" by code_simp
  have human: "map rf_summary (humanFindings sample_answered ?g) = [''Keep the flag'']" by code_simp
  have "priorFindings sample_answered ?g \<noteq> []" using prior by (metis list.map_disc_iff list.distinct(1))
  from obligations_general[OF one general this] show ?thesis
    by (simp only: option.map obligation_scope.simps map_append prior human append.simps)
qed

end
