(* ===== verification/Classifier.thy ===== *)
theory Classifier
  imports Obligations Instants
begin

text \<open>
  Decisions a classifier may take in place of a reviewer: \<open>src/src/domain/classifier-review.ts\<close>.

  A source is the typed record \<open>classifier_source\<close>; the tests that an untyped value has the shape of
  the record (\<open>typeof\<close>, \<open>Array.isArray\<close>, the constant \<open>kind\<close> and \<open>identity\<close>) hold of every value of
  it. A decimal literal is the double it denotes, as an exact fraction. \<open>localeCompare\<close> is the order
  of a collation key \<open>ck\<close>, and the text of a number in a comment is the argument \<open>nt\<close>.
\<close>

section \<open>Policies and thresholds\<close>

definition OBLIGATION_POLICY_VERSION :: string where
  "OBLIGATION_POLICY_VERSION = ''general-obligations-97-97-v1''"

definition OBLIGATION_THRESHOLD :: jsnum where
  "OBLIGATION_THRESHOLD = Num (4368491638549381 / 4503599627370496)" \<comment> \<open>0.97\<close>

definition PANEL_POLICY_VERSION :: string where
  "PANEL_POLICY_VERSION = ''jev-three-question-51-80-89-omissions-v2''"

definition CLASSIFIER_POLICY_VERSION :: string where
  "CLASSIFIER_POLICY_VERSION = ''repeat-findings-52-89-v2''"

definition INTEGRATION_REPAIR_POLICY_VERSION :: string where
  "INTEGRATION_REPAIR_POLICY_VERSION = ''integration-repair-52-67-v1''"

definition CONSECUTIVE_REPAIR_POLICY_VERSION :: string where
  "CONSECUTIVE_REPAIR_POLICY_VERSION = ''integration-repair-52-81-v1''"

definition LEGACY_CLASSIFIER_POLICY_VERSION :: string where
  "LEGACY_CLASSIFIER_POLICY_VERSION = ''repeat-findings-51-90-v1''"

definition WEAKENING_POLICY_VERSION :: string where
  "WEAKENING_POLICY_VERSION = ''integration-repair-weakening-v4-preserves-0.60-optional-fact-v3''"

definition weakening_policies :: "string list" where
  "weakening_policies = [WEAKENING_POLICY_VERSION,
     ''integration-repair-weakening-v4-preserves-0.60-omissions-v2'',
     ''integration-repair-weakening-v4-preserves-0.60'']"

definition WEAKENING_THRESHOLD :: jsnum where
  "WEAKENING_THRESHOLD = Num (5404319552844595 / 9007199254740992)" \<comment> \<open>0.60\<close>

definition WEAKENING_DECISION_SOURCE :: string where
  "WEAKENING_DECISION_SOURCE = ''integration-repair-weakening''"

record thresholds =
  th_clear :: jsnum
  th_unresolved :: jsnum

datatype classifier_error =
    Policy_unknown string | Provenance_invalid | General_reviewer_required | Policy_not_current
  | Scope_stale | Obligation_scope_stale | Failing_obligations_invalid | Repair_scope_stale
  | Findings_incomplete | Decision_invalid | Candidate_revision review_error

definition num_051 :: jsnum where "num_051 = Num (2296835809958953 / 4503599627370496)"
definition num_052 :: jsnum where "num_052 = Num (1170935903116329 / 2251799813685248)"
definition num_067 :: jsnum where "num_067 = Num (6034823500676465 / 9007199254740992)"
definition num_081 :: jsnum where "num_081 = Num (1823957849085051 / 2251799813685248)"
definition num_089 :: jsnum where "num_089 = Num (8016407336719483 / 9007199254740992)"
definition num_090 :: jsnum where "num_090 = Num (8106479329266893 / 9007199254740992)"

definition classifierPolicyThresholds :: "string \<Rightarrow> classifier_error + thresholds" where
  "classifierPolicyThresholds version =
     (if version = OBLIGATION_POLICY_VERSION
      then Inr \<lparr> th_clear = OBLIGATION_THRESHOLD, th_unresolved = OBLIGATION_THRESHOLD \<rparr>
      else if version = PANEL_POLICY_VERSION \<or> version = ''jev-three-question-51-80-89-v1''
      then Inr \<lparr> th_clear = num_051, th_unresolved = num_089 \<rparr>
      else if version = CLASSIFIER_POLICY_VERSION then Inr \<lparr> th_clear = num_052, th_unresolved = num_089 \<rparr>
      else if version = INTEGRATION_REPAIR_POLICY_VERSION then Inr \<lparr> th_clear = num_052, th_unresolved = num_067 \<rparr>
      else if version = CONSECUTIVE_REPAIR_POLICY_VERSION then Inr \<lparr> th_clear = num_052, th_unresolved = num_081 \<rparr>
      else if version = LEGACY_CLASSIFIER_POLICY_VERSION then Inr \<lparr> th_clear = num_051, th_unresolved = num_090 \<rparr>
      else if version \<in> set weakening_policies
      then Inr \<lparr> th_clear = WEAKENING_THRESHOLD, th_unresolved = PosInf \<rparr>
      else Inl (Policy_unknown version))"

definition classifierPolicyForReview :: "review \<Rightarrow> string" where
  "classifierPolicyForReview review = PANEL_POLICY_VERSION"

definition clearingLabel :: "classifier_source \<Rightarrow> bool" where
  "clearingLabel source \<longleftrightarrow> cs_label source = ''addresses'' \<or> cs_label source = ''preserves''"

section \<open>Provenance\<close>

text \<open>\<open>/^[a-f0-9]{n,m}$/\<close>.\<close>

definition hex_char :: "char \<Rightarrow> bool" where
  "hex_char c \<longleftrightarrow> is_digit c \<or> c \<in> set ''abcdef''"

definition hex_text :: "nat \<Rightarrow> nat \<Rightarrow> string \<Rightarrow> bool" where
  "hex_text least most s \<longleftrightarrow> least \<le> length s \<and> length s \<le> most \<and> list_all hex_char s"

definition validWeakeningQuestion :: "weakening_question option \<Rightarrow> jsnum \<Rightarrow> bool" where
  "validWeakeningQuestion question score =
     (case question of
        None \<Rightarrow> True
      | Some q \<Rightarrow>
          wq_versions q \<in> {[''weakening-v4'', ''weakening-v5''],
            [''weakening-v4-optional-fact-v1'', ''weakening-v5-optional-fact-v1'']} \<and>
          wq_clearedBy q \<in> set (wq_versions q) \<and> wq_preserves q = score \<and> score \<noteq> NaN)"

definition validWeakeningFact :: "weakening_provenance \<Rightarrow> string \<Rightarrow> bool" where
  "validWeakeningFact w policy =
     (if wp_factAdmitted w = Some False
      then policy = WEAKENING_POLICY_VERSION \<and> wp_validationSha w = None \<and>
           wp_validationRecordedAt w = None \<and> wp_relation w = None \<and> wp_question w \<noteq> None
      else hex_text 40 64 (default_to [] (wp_validationSha w)) \<and>
           date_parse (default_to [] (wp_validationRecordedAt w)) \<noteq> None \<and>
           default_to [] (wp_relation w) \<in> {''same'', ''backlog-only'', ''rebase-only''})"

definition validWeakening :: "classifier_source \<Rightarrow> bool" where
  "validWeakening source =
     (let isWeakeningPolicy = cs_policyVersion source \<in> set weakening_policies in
       if isWeakeningPolicy \<noteq> (cs_weakening source \<noteq> None) \<or>
          isWeakeningPolicy \<noteq> (cs_label source = ''preserves'') then False
       else case cs_weakening source of
           None \<Rightarrow> True
         | Some w \<Rightarrow>
             wp_decisionSource w = WEAKENING_DECISION_SOURCE \<and>
             (case cs_integrationRepair source of None \<Rightarrow> False | Some repair \<Rightarrow> rp_gate repair = Some (wp_gate w)) \<and>
             wp_approvedRevision w = cs_priorRevision source \<and> hex_text 40 64 (wp_approvedRevision w) \<and>
             validWeakeningQuestion (wp_question w) (cs_score source) \<and>
             validWeakeningFact w (cs_policyVersion source))"

definition invalidClassifierIdentity :: "classifier_source \<Rightarrow> bool" where
  "invalidClassifierIdentity source \<longleftrightarrow>
     \<not> list_all (\<lambda>v. \<not> blank v)
       [cs_decisionId source, cs_provider source, cs_model source, cs_policyVersion source]"

definition invalidClassifierRevisions :: "classifier_source \<Rightarrow> bool" where
  "invalidClassifierRevisions source \<longleftrightarrow>
     \<not> hex_text 64 64 (cs_packetHash source) \<or> \<not> hex_text 40 64 (cs_priorRevision source) \<or>
     \<not> hex_text 40 64 (cs_candidateRevision source) \<or>
     (case cs_responseRevision source of None \<Rightarrow> False | Some r \<Rightarrow> \<not> hex_text 40 64 r)"

definition invalidClassifierFindings :: "classifier_source \<Rightarrow> bool" where
  "invalidClassifierFindings source \<longleftrightarrow>
     cs_findingIds source = [] \<or> \<not> list_all (\<lambda>v. v \<noteq> []) (cs_findingIds source) \<or>
     length (dedupe (cs_findingIds source)) \<noteq> length (cs_findingIds source)"

definition invalidSuccessCriteriaScope :: "classifier_source \<Rightarrow> bool" where
  "invalidSuccessCriteriaScope source =
     (case cs_baseRef source of
        None \<Rightarrow> False
      | Some baseRef \<Rightarrow> cs_integrationRepair source \<noteq> None \<or> blank baseRef)"

definition invalidIntegrationRepairScope :: "classifier_source \<Rightarrow> bool" where
  "invalidIntegrationRepairScope source =
     (case cs_integrationRepair source of
        None \<Rightarrow> False
      | Some repair \<Rightarrow> date_parse (rp_revokedAt repair) = None)"

definition invalidObligationScope :: "classifier_source \<Rightarrow> bool" where
  "invalidObligationScope source =
     (case cs_obligations source of
        None \<Rightarrow> False
      | Some obligations \<Rightarrow>
          cs_policyVersion source \<noteq> OBLIGATION_POLICY_VERSION \<or>
          \<not> safe_integer (op_generalRound obligations) \<or> op_generalRound obligations < 1 \<or>
          cs_integrationRepair source \<noteq> None \<or> cs_baseRef source \<noteq> None \<or> cs_weakening source \<noteq> None)"

definition invalidClassifierScope :: "classifier_source \<Rightarrow> bool" where
  "invalidClassifierScope source \<longleftrightarrow>
     invalidSuccessCriteriaScope source \<or> invalidIntegrationRepairScope source \<or> invalidObligationScope source \<or>
     (cs_policyVersion source = OBLIGATION_POLICY_VERSION \<and> cs_obligations source = None)"

definition invalidClassifierScore :: "classifier_source \<Rightarrow> thresholds \<Rightarrow> bool" where
  "invalidClassifierScore source th \<longleftrightarrow>
     \<not> is_finite_num (cs_score source) \<or> num_less (Num 1) (cs_score source) \<or> \<not> validWeakening source \<or>
     (if clearingLabel source then num_less (cs_score source) (th_clear th)
      else cs_label source \<noteq> ''does_not_address'' \<or> num_less (cs_score source) (th_unresolved th))"

definition assertClassifierReviewSource :: "classifier_source \<Rightarrow> classifier_error + thresholds" where
  "assertClassifierReviewSource source =
     try_bind (classifierPolicyThresholds (cs_policyVersion source)) (\<lambda>th.
       if invalidClassifierIdentity source \<or> invalidClassifierRevisions source \<or>
          invalidClassifierFindings source \<or> invalidClassifierScope source \<or> invalidClassifierScore source th
       then Inl Provenance_invalid else Inr th)"

section \<open>Findings of a scope\<close>

text \<open>\<open>log.replace(/\bfile:\/\/(?=\/)/g, '')\<close>; the flag says that the previous character is a word
  character.\<close>

function drop_scheme :: "bool \<Rightarrow> string \<Rightarrow> string" where
  "drop_scheme inside [] = []"
| "drop_scheme inside (c # s) =
     (if \<not> inside \<and> strip_prefix ''file:///'' (c # s) \<noteq> None then drop_scheme False (drop 6 s)
      else c # drop_scheme (word_char c) s)"
  by pat_completeness auto
termination by (relation "measure (\<lambda>(_, s). length s)") auto

definition path_char :: "char \<Rightarrow> bool" where
  "path_char c \<longleftrightarrow> letter c \<or> is_digit c \<or> c \<in> set ''_./-''"

text \<open>\<open>(?<![A-Za-z0-9_./-])([A-Za-z0-9_./-]+):(\d+)\<close>: a maximal run of path characters followed by a
  colon and digits.\<close>

function find_location :: "string \<Rightarrow> string option" where
  "find_location [] = None"
| "find_location (c # s) =
     (if path_char c
      then let path = takeWhile path_char (c # s); rest = dropWhile path_char s in
        (case rest of
           [] \<Rightarrow> None
         | colon # after \<Rightarrow>
             if colon = CHR '':'' \<and> takeWhile is_digit after \<noteq> []
             then Some (path @ '':'' @ takeWhile is_digit after)
             else find_location rest)
      else find_location s)"
  by pat_completeness auto
termination
  by (relation "measure length") (auto simp: less_Suc_eq_le length_dropWhile_le)

definition integrationRepairFinding :: "gate_failure \<Rightarrow> review_finding" where
  "integrationRepairFinding cause =
     \<lparr> rf_id = ''integration-gate-repair'',
       rf_summary = default_to ''null'' (gf_gate cause) @ '': '' @
         default_to ''integration gate failure'' (given (gf_log cause)),
       rf_location = (case given (gf_log cause) of None \<Rightarrow> None | Some output \<Rightarrow> find_location (drop_scheme False output)) \<rparr>"

definition successCriteriaFindings :: "string list \<Rightarrow> review_finding list" where
  "successCriteriaFindings criteria =
     map (\<lambda>(index, criterion). \<lparr> rf_id = ''success-criterion-'' @ decimal (index + 1),
         rf_summary = ''Success criterion '' @ decimal (index + 1) @ '': '' @ criterion, rf_location = None \<rparr>)
       (zip [0..<length criteria] criteria)"

datatype classifier_route = Clear | To_implementer

definition expectedClassifierPolicy :: "review \<Rightarrow> classifier_source \<Rightarrow> string" where
  "expectedClassifierPolicy review source =
     (if cs_obligations source \<noteq> None then OBLIGATION_POLICY_VERSION
      else if cs_weakening source \<noteq> None then WEAKENING_POLICY_VERSION
      else classifierPolicyForReview review)"

definition decision_names :: "review_round \<Rightarrow> revision \<Rightarrow> bool" where
  "decision_names rd revision =
     (case rd_decision rd of None \<Rightarrow> False | Some d \<Rightarrow> decision_revision d = Present revision)"

definition assertClassifierRoundScope ::
  "review \<Rightarrow> review_round \<Rightarrow> review_round option \<Rightarrow> classifier_source \<Rightarrow> revision \<Rightarrow> classifier_error + review_round" where
  "assertClassifierRoundScope review current prior source verifiedRevision =
     (case (if rd_number current = 1 then None else prior) of
        None \<Rightarrow> Inl General_reviewer_required
      | Some before \<Rightarrow>
          let obligation = (if cs_obligations source = None then None else reviewObligations review);
              judged = (case obligation of None \<Rightarrow> before | Some scope \<Rightarrow> ob_general scope) in
          if cs_policyVersion source \<noteq> expectedClassifierPolicy review source then Inl Policy_not_current
          else if rd_decision current \<noteq> None \<or> rd_phase current \<noteq> Reviewing \<or>
              cs_candidateRevision source \<noteq> verifiedRevision \<or>
              (if cs_baseRef source \<noteq> None then cs_priorRevision source \<noteq> cs_candidateRevision source
               else \<not> decision_names judged (cs_priorRevision source))
          then Inl Scope_stale else Inr before)"

definition classifierObligationFindings ::
  "review \<Rightarrow> classifier_source \<Rightarrow> obligation_provenance \<Rightarrow> classifier_route \<Rightarrow> classifier_error + review_finding list" where
  "classifierObligationFindings review source scope route =
     (case reviewObligations review of
        None \<Rightarrow> Inl Obligation_scope_stale
      | Some obligation \<Rightarrow>
          if rd_number (ob_general obligation) \<noteq> op_generalRound scope \<or> cs_integrationRepair source \<noteq> None \<or>
             cs_baseRef source \<noteq> None \<or> cs_weakening source \<noteq> None
          then Inl Obligation_scope_stale
          else let findings = ob_findings obligation; failed = op_failingIds scope in
            if length (dedupe failed) \<noteq> length failed \<or>
               \<not> list_all (\<lambda>i. i \<in> set (map rf_id findings)) failed \<or>
               (if route = Clear then failed \<noteq> [] else failed = [])
            then Inl Failing_obligations_invalid else Inr findings)"

definition classifierIntegrationRepairFindings ::
  "review_round \<Rightarrow> classifier_source \<Rightarrow> repair_provenance \<Rightarrow> classifier_error + review_finding list" where
  "classifierIntegrationRepairFindings prior source repair =
     (case approval_of (rd_decision prior) of
        None \<Rightarrow> Inl Repair_scope_stale
      | Some a \<Rightarrow>
     (case ap_revocation a of
        None \<Rightarrow> Inl Repair_scope_stale
      | Some rk \<Rightarrow>
     (case rk_cause rk of
        Some (Integration_gate_failure cause) \<Rightarrow>
          if rk_revokedAt rk \<noteq> rp_revokedAt repair \<or> gf_gate cause \<noteq> rp_gate repair \<or>
             default_to [] (cs_responseRevision source) = []
          then Inl Repair_scope_stale else Inr [integrationRepairFinding cause]
      | _ \<Rightarrow> Inl Repair_scope_stale)))"

definition classifierFindings ::
  "review \<Rightarrow> review_round \<Rightarrow> classifier_source \<Rightarrow> review_finding list \<Rightarrow> classifier_route \<Rightarrow>
    classifier_error + review_finding list" where
  "classifierFindings review prior source criteria route =
     (case cs_obligations source of
        Some scope \<Rightarrow> classifierObligationFindings review source scope route
      | None \<Rightarrow>
     (if cs_baseRef source \<noteq> None then Inr criteria
      else (case cs_integrationRepair source of
        Some repair \<Rightarrow> classifierIntegrationRepairFindings prior source repair
      | None \<Rightarrow>
     (case (request_of (rd_decision prior), rd_response prior) of
        (Some request, Some response) \<Rightarrow>
          if ir_resultingRevision response \<noteq> default_to (cs_candidateRevision source) (cs_responseRevision source)
          then Inl Scope_stale else Inr (cr_findings request)
      | _ \<Rightarrow> Inl Scope_stale))))"

section \<open>Applying a decision\<close>

definition assertClassifierCoverage ::
  "(string \<Rightarrow> 'k::linorder) \<Rightarrow> finding_id list \<Rightarrow> review_round \<Rightarrow> classifier_source \<Rightarrow> classifier_error + unit" where
  "assertClassifierCoverage ck ids prior source =
     (if ids \<noteq> sort_key ck (dedupe (cs_findingIds source)) \<or>
         (cs_obligations source = None \<and> cs_integrationRepair source = None \<and> cs_baseRef source = None \<and>
          (case rd_response prior of
             None \<Rightarrow> True
           | Some response \<Rightarrow> ids \<noteq> sort_key ck (map fr_findingId (ir_resolutions response))))
      then Inl Findings_incomplete else Inr ())"

definition forgejo_change :: "reviewed_change \<Rightarrow> bool" where
  "forgejo_change change = (case change of Pull_request p \<Rightarrow> pr_provider p = ''forgejo'' | Local_branch _ \<Rightarrow> False)"

definition assertClassifierDecision ::
  "review_round \<Rightarrow> finding_id list \<Rightarrow> classifier_source \<Rightarrow> classifier_route \<Rightarrow> string \<Rightarrow> thresholds \<Rightarrow>
    classifier_error + unit" where
  "assertClassifierDecision current ids source route decidedAt th =
     (if \<not> forgejo_change (rr_change (rd_subject current)) \<or> ids = [] \<or> date_parse decidedAt = None \<or>
         (case route of
            Clear \<Rightarrow> \<not> clearingLabel source \<or> num_less (cs_score source) (th_clear th)
          | To_implementer \<Rightarrow> cs_weakening source \<noteq> None \<or> cs_label source \<noteq> ''does_not_address'' \<or>
              num_less (cs_score source) (th_unresolved th))
      then Inl Decision_invalid else Inr ())"

definition classifier_comment :: "(jsnum \<Rightarrow> string) \<Rightarrow> classifier_source \<Rightarrow> classifier_route \<Rightarrow> string" where
  "classifier_comment nt source route =
     (case cs_weakening source of
        Some w \<Rightarrow>
          ''Repair of approved revision '' @ wp_approvedRevision w @ '' reviewed: gate '' @ wp_gate w @ '' '' @
          (if wp_factAdmitted w = Some False
           then ''has no admitted re-run fact; mandatory integration gates still apply''
           else ''re-ran green at '' @ default_to ''undefined'' (wp_validationSha w) @ '' ('' @
             default_to ''undefined'' (wp_relation w) @ '')'') @
          '' and the repair preserves the checked obligation ('' @ nt (cs_score source) @ '')'' @
          (case wp_question w of
             None \<Rightarrow> []
           | Some q \<Rightarrow> ''; cleared by '' @ wq_clearedBy q @ '', preserves '' @ nt (wq_preserves q) @
               '', questions '' @ join '', '' (wq_versions q)) @ ''.''
      | None \<Rightarrow>
     (if route = Clear then ''Classifier cleared the complete prior finding set.''
      else case cs_obligations source of
          Some scope \<Rightarrow> ''Unresolved prior obligations: '' @ join '', '' (op_failingIds scope) @
            ''. Make changes or request general review.''
        | None \<Rightarrow> ''Classifier reports likely unresolved prior findings. '' @
            ''Make changes or request general review; no repair instructions supplied.''))"

definition classifier_decision ::
  "(jsnum \<Rightarrow> string) \<Rightarrow> classifier_source \<Rightarrow> classifier_route \<Rightarrow> string \<Rightarrow> review_finding list \<Rightarrow> revision \<Rightarrow>
    reviewer_decision" where
  "classifier_decision nt source route decidedAt findings revision =
     (case route of
        Clear \<Rightarrow> Approved \<lparr> ap_classifier = Some source, ap_revision = Present revision, ap_decidedAt = decidedAt,
          ap_comment = Some (classifier_comment nt source route), ap_source = Provider ''forgejo'',
          ap_revocation = None, ap_supersession = None \<rparr>
      | To_implementer \<Rightarrow> Changes_requested \<lparr> cr_classifier = Some source, cr_revision = Present revision,
          cr_decidedAt = decidedAt, cr_comment = Some (classifier_comment nt source route), cr_findings = findings \<rparr>)"

definition applyClassifierReview ::
  "(string \<Rightarrow> 'k::linorder) \<Rightarrow> (jsnum \<Rightarrow> string) \<Rightarrow> review \<Rightarrow> classifier_source \<Rightarrow> classifier_route \<Rightarrow> string \<Rightarrow>
    review_finding list \<Rightarrow> revision option \<Rightarrow> classifier_error + review" where
  "applyClassifierReview ck nt review source route decidedAt criteria verifiedRevision =
     try_bind (assertClassifierReviewSource source) (\<lambda>th.
       let current = currentReviewRound review;
           verified = default_to (rr_revision (rd_subject current)) verifiedRevision in
       try_bind (assertClassifierRoundScope review current (at_last2 (rounds review)) source verified) (\<lambda>prior.
       try_bind (classifierFindings review prior source criteria route) (\<lambda>findings.
       let ids = sort_key ck (map rf_id findings) in
       try_bind (assertClassifierCoverage ck ids prior source) (\<lambda>_.
       try_bind (assertClassifierDecision current ids source route decidedAt th) (\<lambda>_.
       try_bind (map_error Candidate_revision (changeRevision (cs_candidateRevision source))) (\<lambda>revision.
         Inr (review\<lparr>rounds := replaceCurrentRound review (current\<lparr>
           rd_decision := Some (classifier_decision nt source route decidedAt findings revision),
           rd_phase := (if route = Clear then Phase_approved else Fixing),
           rd_disposition := Some (if route = Clear then APPROVED else REQUEST_CHANGES)\<rparr>)\<rparr>)))))))"

section \<open>Properties\<close>

lemma roundScope_Inr:
  assumes "assertClassifierRoundScope review current prior source verified = Inr before"
  shows "prior = Some before \<and> rd_number current \<noteq> 1 \<and> rd_decision current = None \<and> rd_phase current = Reviewing \<and>
    cs_candidateRevision source = verified \<and> cs_policyVersion source = expectedClassifierPolicy review source"
  using assms by (auto simp: assertClassifierRoundScope_def Let_def split: if_splits option.splits)

lemma reviewSource_Inr:
  assumes "assertClassifierReviewSource source = Inr th"
  shows "classifierPolicyThresholds (cs_policyVersion source) = Inr th" and "validWeakening source"
    and "hex_text 40 64 (cs_candidateRevision source)" and "is_finite_num (cs_score source)"
    and "\<not> invalidObligationScope source"
  using assms
  by (auto simp: assertClassifierReviewSource_def try_bind_Inr invalidClassifierScore_def invalidClassifierRevisions_def
      invalidClassifierScope_def split: if_splits)

lemma classifierReview_Inr:
  assumes "applyClassifierReview ck nt review source route decidedAt criteria verified = Inr r'"
  obtains th prior findings where "assertClassifierReviewSource source = Inr th"
    "at_last2 (rounds review) = Some prior" "rd_number (currentReviewRound review) \<noteq> 1"
    "rd_decision (currentReviewRound review) = None" "rd_phase (currentReviewRound review) = Reviewing"
    "cs_candidateRevision source = default_to (rr_revision (rd_subject (currentReviewRound review))) verified"
    "cs_policyVersion source = expectedClassifierPolicy review source"
    "classifierFindings review prior source criteria route = Inr findings" "findings \<noteq> []"
    "distinct (map rf_id findings)" "set (map rf_id findings) = set (cs_findingIds source)"
    "assertClassifierCoverage ck (sort_key ck (map rf_id findings)) prior source = Inr ()"
    "assertClassifierDecision (currentReviewRound review) (sort_key ck (map rf_id findings)) source route decidedAt th = Inr ()"
    "r' = review\<lparr>rounds := butlast (rounds review) @ [(currentReviewRound review)\<lparr>
       rd_decision := Some (classifier_decision nt source route decidedAt findings (cs_candidateRevision source)),
       rd_phase := (if route = Clear then Phase_approved else Fixing),
       rd_disposition := Some (if route = Clear then APPROVED else REQUEST_CHANGES)\<rparr>]\<rparr>"
proof -
  from assms obtain th prior findings where
    1: "assertClassifierReviewSource source = Inr th"
      "assertClassifierRoundScope review (currentReviewRound review) (at_last2 (rounds review)) source
         (default_to (rr_revision (rd_subject (currentReviewRound review))) verified) = Inr prior"
      "classifierFindings review prior source criteria route = Inr findings"
      "assertClassifierCoverage ck (sort_key ck (map rf_id findings)) prior source = Inr ()"
      "assertClassifierDecision (currentReviewRound review) (sort_key ck (map rf_id findings)) source route decidedAt th = Inr ()"
      "r' = review\<lparr>rounds := butlast (rounds review) @ [(currentReviewRound review)\<lparr>
       rd_decision := Some (classifier_decision nt source route decidedAt findings (cs_candidateRevision source)),
       rd_phase := (if route = Clear then Phase_approved else Fixing),
       rd_disposition := Some (if route = Clear then APPROVED else REQUEST_CHANGES)\<rparr>]\<rparr>"
    by (auto simp: applyClassifierReview_def Let_def try_bind_Inr change_revision_Inr)
  have ids: "sort_key ck (map rf_id findings) = sort_key ck (dedupe (cs_findingIds source))"
    using 1(4) by (auto simp: assertClassifierCoverage_def split: if_splits)
  have "distinct (map rf_id findings)" by (metis ids distinct_dedupe distinct_sort)
  moreover have "set (map rf_id findings) = set (cs_findingIds source)" by (metis ids set_dedupe set_sort)
  moreover have "findings \<noteq> []" using 1(5) by (auto simp: assertClassifierDecision_def split: if_splits)
  ultimately show ?thesis using 1 roundScope_Inr[OF 1(2)] by (intro that) auto
qed

lemma classifier_conversation:
  assumes ok: "conversation k review" and step: "applyClassifierReview ck nt review source route decidedAt criteria verified = Inr r'"
  shows "conversation k r'"
  using step
proof (cases rule: classifierReview_Inr)
  case (1 th prior findings)
  let ?x = "(currentReviewRound review)\<lparr>
       rd_decision := Some (classifier_decision nt source route decidedAt findings (cs_candidateRevision source)),
       rd_phase := (if route = Clear then Phase_approved else Fixing),
       rd_disposition := Some (if route = Clear then APPROVED else REQUEST_CHANGES)\<rparr>"
  have "rd_response (currentReviewRound review) = None"
    using conversation_current[OF ok] 1(4) by (auto simp: round_ok_def)
  then have "round_ok ?x" using 1(9,10) by (cases route) (auto simp: round_ok_def classifier_decision_def)
  from conversation_replace[OF ok this] show ?thesis unfolding 1(14) by simp
qed

text \<open>C36: A classifier decides only what a reviewer could have been asked, and decides it like one.
  An accepted classifier review of a conversation is never of its first round; the current round was
  undecided and in phase reviewing, and the judged revision is the verified one. It changes nothing
  but the decision, phase and disposition of the current round, keeps the conversation well formed,
  and leaves it approved when it clears and, unless a human was asked for, awaiting the implementer
  when it does not.\<close>

theorem classifier_decides_current_round:
  assumes "conversation k review"
    and "applyClassifierReview ck nt review source route decidedAt criteria verified = Inr r'"
  shows "conversation k r' \<and> rd_number (currentReviewRound review) \<noteq> 1 \<and>
    rd_decision (currentReviewRound review) = None \<and> rd_phase (currentReviewRound review) = Reviewing \<and>
    cs_candidateRevision source = default_to (rr_revision (rd_subject (currentReviewRound review))) verified \<and>
    butlast (rounds r') = butlast (rounds review) \<and>
    (\<exists>d p i. currentReviewRound r' = (currentReviewRound review)\<lparr>rd_decision := Some d, rd_phase := p, rd_disposition := i\<rparr> \<and>
       decision_classifier d = Some source \<and> decision_revision d = Present (cs_candidateRevision source)) \<and>
    reviewStatus r' = (if route = Clear then Status_approved
      else if intervention_of review = None then Awaiting_implementation else Human_intervention)"
  using assms(2)
proof (cases rule: classifierReview_Inr)
  case (1 th prior findings)
  have "rd_response (currentReviewRound review) = None"
    using conversation_current[OF assms(1)] 1(4) by (auto simp: round_ok_def)
  then have "reviewStatus r' = (if route = Clear then Status_approved
      else if intervention_of review = None then Awaiting_implementation else Human_intervention)"
    unfolding 1(14) by (cases route) (auto simp: reviewStatus_def Let_def classifier_decision_def effective_approval_iff)
  moreover have "currentReviewRound r' = (currentReviewRound review)\<lparr>
       rd_decision := Some (classifier_decision nt source route decidedAt findings (cs_candidateRevision source)),
       rd_phase := (if route = Clear then Phase_approved else Fixing),
       rd_disposition := Some (if route = Clear then APPROVED else REQUEST_CHANGES)\<rparr>"
    unfolding 1(14) by simp
  moreover have "decision_classifier (classifier_decision nt source route decidedAt findings v) = Some source \<and>
      decision_revision (classifier_decision nt source route decidedAt findings v) = Present v" for v
    by (cases route) (simp_all add: classifier_decision_def)
  moreover have "butlast (rounds r') = butlast (rounds review)" unfolding 1(14) by simp
  ultimately show ?thesis
    using 1(3-6) classifier_conversation[OF assms] by blast
qed

text \<open>A classifier that judges answered findings judges all of them. Outside the scopes with their
  own question (obligations, a repaired gate, success criteria) an accepted review rests on a previous
  round that requested changes and was answered; the identities the classifier names are exactly those
  of that request and exactly those the implementer answered, and the answer produced the judged
  revision, or the response revision the source names.\<close>

lemma classifier_covers_every_finding:
  assumes "applyClassifierReview ck nt review source route decidedAt criteria verified = Inr r'"
    and "cs_obligations source = None" and "cs_integrationRepair source = None" and "cs_baseRef source = None"
  shows "\<exists>prior request response. at_last2 (rounds review) = Some prior \<and>
    rd_decision prior = Some (Changes_requested request) \<and> rd_response prior = Some response \<and>
    set (cs_findingIds source) = set (map rf_id (cr_findings request)) \<and>
    set (cs_findingIds source) = set (map fr_findingId (ir_resolutions response)) \<and>
    ir_resultingRevision response = default_to (cs_candidateRevision source) (cs_responseRevision source)"
  using assms(1)
proof (cases rule: classifierReview_Inr)
  case (1 th prior findings)
  obtain request response where r: "rd_decision prior = Some (Changes_requested request)"
    "rd_response prior = Some response" "findings = cr_findings request"
    "ir_resultingRevision response = default_to (cs_candidateRevision source) (cs_responseRevision source)"
    using 1(8) assms(2-4) by (auto simp: classifierFindings_def split: option.splits if_splits)
  have "sort_key ck (map rf_id findings) = sort_key ck (map fr_findingId (ir_resolutions response))"
    using 1(12) assms(2-4) r(2) by (auto simp: assertClassifierCoverage_def split: if_splits)
  then have "set (map rf_id findings) = set (map fr_findingId (ir_resolutions response))" by (metis set_sort)
  with 1(2,11) r show ?thesis by blast
qed

section \<open>Sample conversations\<close>

definition sha :: "char \<Rightarrow> string" where
  "sha c = replicate 40 c"

definition sample_pull :: reviewed_change where
  "sample_pull = Pull_request \<lparr> pr_provider = ''forgejo'', pr_id = ''7'', pr_url = None,
     pr_sourceBranch = ''mission/a'', pr_targetBranch = ''main'' \<rparr>"

definition open_round :: "int \<Rightarrow> review_round" where
  "open_round n = fresh_round n \<lparr> rr_change = sample_pull, rr_revision = sha (CHR ''b''), rr_baseline = None \<rparr>
     ''claude'' ''codex'' ''2026-01-01T03:00:00Z''"

definition answered_round :: review_round where
  "answered_round = (open_round 1)\<lparr>rd_decision := Some (Changes_requested
      \<lparr> cr_classifier = None, cr_revision = Present (sha (CHR ''a'')), cr_decidedAt = ''2026-01-01T01:00:00Z'',
        cr_comment = None, cr_findings = [sample_finding] \<rparr>),
    rd_response := Some \<lparr> ir_respondedAt = ''2026-01-01T02:00:00Z'',
      ir_resolutions = [\<lparr> fr_findingId = rf_id sample_finding, fr_kind = Fixed ''test'' \<rparr>],
      ir_resultingRevision = sha (CHR ''b'') \<rparr>\<rparr>"

definition withdrawn_round :: review_round where
  "withdrawn_round = (open_round 1)\<lparr>rd_decision := Some (Approved
      \<lparr> ap_classifier = None, ap_revision = Present (sha (CHR ''a'')), ap_decidedAt = ''2026-01-01T01:00:00Z'',
        ap_comment = None, ap_source = Local,
        ap_revocation = Some \<lparr> rk_revokedAt = ''2026-01-01T02:00:00Z'', rk_revokedBy = ''workflow'', rk_reason = ''gate'',
          rk_cause = Some (Integration_gate_failure \<lparr> gf_gate = Some ''unit'', gf_command = Absent,
            gf_log = Present ''at file:///srv/a.ts:12 failed'' \<rparr>) \<rparr>,
        ap_supersession = None \<rparr>)\<rparr>"

definition two_rounds :: "review_round \<Rightarrow> review" where
  "two_rounds first = \<lparr> rounds = [first, open_round 2], intervention_of = None, stageLaunches = [], reviewEvents = [] \<rparr>"

definition sample_source_of :: "string list \<Rightarrow> classifier_source" where
  "sample_source_of ids = \<lparr> cs_decisionId = ''d1'', cs_provider = ''local'', cs_model = ''m'',
     cs_packetHash = replicate 64 (CHR ''0''), cs_priorRevision = sha (CHR ''a''), cs_candidateRevision = sha (CHR ''b''),
     cs_responseRevision = None, cs_integrationRepair = None, cs_baseRef = None, cs_weakening = None,
     cs_obligations = None, cs_findingIds = ids, cs_policyVersion = PANEL_POLICY_VERSION,
     cs_label = ''addresses'', cs_score = Num (9 / 10) \<rparr>"

definition sample_weakening :: classifier_source where
  "sample_weakening = (sample_source_of [''integration-gate-repair''])\<lparr>
     cs_responseRevision := Some (sha (CHR ''c'')),
     cs_integrationRepair := Some \<lparr> rp_revokedAt = ''2026-01-01T02:00:00Z'', rp_gate = Some ''unit'' \<rparr>,
     cs_weakening := Some \<lparr> wp_decisionSource = WEAKENING_DECISION_SOURCE, wp_approvedRevision = sha (CHR ''a''),
       wp_gate = ''unit'', wp_factAdmitted = Some True, wp_validationSha = Some (sha (CHR ''b'')),
       wp_validationRecordedAt = Some ''2026-01-01T02:30:00Z'', wp_relation = Some ''same'', wp_question = None \<rparr>,
     cs_policyVersion := WEAKENING_POLICY_VERSION, cs_label := ''preserves''\<rparr>"

definition classify :: "review_round \<Rightarrow> classifier_source \<Rightarrow> classifier_error + review" where
  "classify first source =
     applyClassifierReview (\<lambda>s. s :: string) (\<lambda>_. ''0.9'') (two_rounds first) source Clear ''2026-01-01T04:00:00Z'' [] None"

lemma repair_location: "rf_location (integrationRepairFinding \<lparr> gf_gate = Some ''unit'', gf_command = Absent,
    gf_log = Present ''at file:///srv/a.ts:12 failed'' \<rparr>) = Some ''/srv/a.ts:12''"
  by code_simp

lemma classify_answered: "is_ok (classify answered_round (sample_source_of [rf_id sample_finding]))"
  by code_simp

lemma classify_withdrawn: "is_ok (classify withdrawn_round sample_weakening)"
  by code_simp

lemma two_rounds_conversation: "conversation (\<lambda>s. s :: string) (two_rounds answered_round)"
proof -
  have "answers [sample_finding] [\<lparr> fr_findingId = rf_id sample_finding, fr_kind = Fixed ''test'' \<rparr>]" by code_simp
  then show ?thesis
    by (simp add: conversation_def rounds_ok_def two_rounds_def answered_round_def open_round_def round_ok_def
        round_settled_def effective_approval_iff windows_ok_def upto.simps)
qed

theorem classifier_decides_current_round_witness:
  "\<exists>r'. classify answered_round (sample_source_of [rf_id sample_finding]) = Inr r' \<and> reviewStatus r' = Status_approved"
proof -
  obtain r' where r': "classify answered_round (sample_source_of [rf_id sample_finding]) = Inr r'"
    using classify_answered by (auto simp: is_ok_iff)
  from classifier_decides_current_round[OF two_rounds_conversation r'[unfolded classify_def]]
  have "reviewStatus r' = (if Clear = Clear then Status_approved
      else if intervention_of (two_rounds answered_round) = None then Awaiting_implementation else Human_intervention)"
    by blast
  with r' show ?thesis by simp
qed

section \<open>Where approvals come from\<close>

text \<open>What decides or changes a conversation: its own commands and the classifier's review.\<close>

datatype deciding_command =
    By_conversation review_command
  | By_classifier classifier_source classifier_route string "review_finding list" "revision option"

fun deciding_step ::
  "(string \<Rightarrow> 'k::linorder) \<Rightarrow> (string \<Rightarrow> 'l::linorder) \<Rightarrow> (jsnum \<Rightarrow> string) \<Rightarrow> review \<Rightarrow> deciding_command \<Rightarrow> unit + review" where
  "deciding_step k ck nt review (By_conversation c) = map_error (\<lambda>_. ()) (review_step k review c)"
| "deciding_step k ck nt review (By_classifier source route decidedAt criteria verified) =
     map_error (\<lambda>_. ()) (applyClassifierReview ck nt review source route decidedAt criteria verified)"

text \<open>C4: An approval enters force in two ways only and leaves it in one way only. What makes an unapproved
  conversation approved is a reviewer's approve command, of a local or provider source, on a round that awaits
  review in phase reviewing, or a classifier's review that clears, on an undecided round in phase reviewing that
  is not the first, for the verified revision. What makes an approved conversation unapproved is a revocation of
  the current round.\<close>

theorem approval_boundary:
  assumes ok: "conversation k r" and step: "deciding_step k ck nt r c = Inr r'"
    and changed: "(reviewStatus r = Status_approved) \<noteq> (reviewStatus r' = Status_approved)"
  shows "if reviewStatus r' = Status_approved
    then (\<exists>a. c = By_conversation (Reviewer_acts (Approve a)) \<and> reviewStatus r = Awaiting_review \<and>
        rd_phase (currentReviewRound r) = Reviewing \<and> (\<forall>h. ac_source a \<noteq> Mechanical_restoration h)) \<or>
      (\<exists>source decidedAt criteria verified. c = By_classifier source Clear decidedAt criteria verified \<and>
        rd_number (currentReviewRound r) \<noteq> 1 \<and> rd_decision (currentReviewRound r) = None \<and>
        rd_phase (currentReviewRound r) = Reviewing \<and>
        cs_candidateRevision source = default_to (rr_revision (rd_subject (currentReviewRound r))) verified)
    else (\<exists>rk. c = By_conversation (Approval_revoked (rd_number (currentReviewRound r)) rk))"
proof (cases c)
  case (By_conversation d)
  then have "review_step k r d = Inr r'" using step by simp
  from review_step_boundary[OF ok this changed] By_conversation show ?thesis by (simp split: if_splits)
next
  case (By_classifier source route decidedAt criteria verified)
  then have s: "applyClassifierReview ck nt r source route decidedAt criteria verified = Inr r'" using step by simp
  then have open_round: "rd_decision (currentReviewRound r) = None" and
    fields: "rd_number (currentReviewRound r) \<noteq> 1" "rd_phase (currentReviewRound r) = Reviewing"
      "cs_candidateRevision source = default_to (rr_revision (rd_subject (currentReviewRound r))) verified"
    by (auto elim: classifierReview_Inr)
  then have "reviewStatus r \<noteq> Status_approved" by (simp add: status_cases effective_approval_iff)
  with changed have approved: "reviewStatus r' = Status_approved" by simp
  have "route = Clear"
    using s approved by (cases route) (auto simp: status_cases effective_approval_iff classifier_decision_def elim!: classifierReview_Inr)
  with approved open_round fields By_classifier show ?thesis by simp
qed

theorem approval_boundary_witness:
  "\<exists>r' source decidedAt criteria verified.
    deciding_step (\<lambda>s. s :: string) (\<lambda>s. s :: string) (\<lambda>_. ''0.9'') (two_rounds answered_round)
      (By_classifier (sample_source_of [rf_id sample_finding]) Clear ''2026-01-01T04:00:00Z'' [] None) = Inr r' \<and>
    reviewStatus r' = Status_approved \<and> rd_number (currentReviewRound (two_rounds answered_round)) \<noteq> 1 \<and>
    By_classifier (sample_source_of [rf_id sample_finding]) Clear ''2026-01-01T04:00:00Z'' [] None =
      By_classifier source Clear decidedAt criteria verified"
proof -
  have "case classify answered_round (sample_source_of [rf_id sample_finding]) of
      Inl _ \<Rightarrow> False | Inr r \<Rightarrow> reviewStatus r = Status_approved" by code_simp
  then obtain r' where r': "classify answered_round (sample_source_of [rf_id sample_finding]) = Inr r'"
    and approved: "reviewStatus r' = Status_approved" by (auto split: sum.splits)
  let ?c = "By_classifier (sample_source_of [rf_id sample_finding]) Clear ''2026-01-01T04:00:00Z'' [] None"
  have step: "deciding_step (\<lambda>s. s :: string) (\<lambda>s. s :: string) (\<lambda>_. ''0.9'') (two_rounds answered_round) ?c = Inr r'"
    using r' by (simp add: classify_def)
  have before: "reviewStatus (two_rounds answered_round) \<noteq> Status_approved" by code_simp
  from approval_boundary[OF two_rounds_conversation step] approved before step show ?thesis by auto
qed

section \<open>The weakening question\<close>

lemma policy_thresholds_weakening:
  "version \<in> set weakening_policies \<Longrightarrow>
     classifierPolicyThresholds version = Inr \<lparr> th_clear = WEAKENING_THRESHOLD, th_unresolved = PosInf \<rparr>"
  by (auto simp: weakening_policies_def classifierPolicyThresholds_def OBLIGATION_POLICY_VERSION_def
      PANEL_POLICY_VERSION_def CLASSIFIER_POLICY_VERSION_def INTEGRATION_REPAIR_POLICY_VERSION_def
      CONSECUTIVE_REPAIR_POLICY_VERSION_def LEGACY_CLASSIFIER_POLICY_VERSION_def WEAKENING_POLICY_VERSION_def)

lemma not_less_finite: "is_finite_num a \<Longrightarrow> is_finite_num b \<Longrightarrow> \<not> num_less a b \<Longrightarrow> num_le b a"
  by (cases a; cases b) (auto simp: num_less_def)

text \<open>The weakening question can only approve. A review accepted on a weakening provenance clears,
  under a weakening policy and with a score at its threshold at least, and the previous round is an
  approval of exactly the revision named, withdrawn because the named gate failed.\<close>

lemma weakening_only_approves:
  assumes "applyClassifierReview ck nt review source route decidedAt criteria verified = Inr r'"
    and "cs_weakening source = Some w"
  shows "route = Clear \<and> cs_policyVersion source = WEAKENING_POLICY_VERSION \<and>
    num_le WEAKENING_THRESHOLD (cs_score source) \<and>
    (\<exists>prior a rk cause. at_last2 (rounds review) = Some prior \<and> rd_decision prior = Some (Approved a) \<and>
       ap_revocation a = Some rk \<and> rk_cause rk = Some (Integration_gate_failure cause) \<and>
       gf_gate cause = Some (wp_gate w))"
  using assms(1)
proof (cases rule: classifierReview_Inr)
  case (1 th prior findings)
  note src = reviewSource_Inr[OF 1(1)]
  from src(2) assms(2) have weak: "cs_policyVersion source \<in> set weakening_policies"
    by (auto simp: validWeakening_def Let_def split: if_splits)
  from src(2) assms(2) obtain repair where repair: "cs_integrationRepair source = Some repair" "rp_gate repair = Some (wp_gate w)"
    by (auto simp: validWeakening_def Let_def split: if_splits option.splits)
  have th: "th = \<lparr> th_clear = WEAKENING_THRESHOLD, th_unresolved = PosInf \<rparr>"
    using src(1) policy_thresholds_weakening[OF weak] by simp
  have route: "route = Clear" and score: "\<not> num_less (cs_score source) WEAKENING_THRESHOLD"
    using 1(13) assms(2) th by (cases route; auto simp: assertClassifierDecision_def split: if_splits)+
  have none: "cs_obligations source = None" using src(5) assms(2) by (auto simp: invalidObligationScope_def split: option.splits)
  have base: "cs_baseRef source = None"
    using 1(1) repair by (auto simp: assertClassifierReviewSource_def try_bind_Inr invalidClassifierScope_def
        invalidSuccessCriteriaScope_def split: if_splits option.splits)
  have "\<exists>a rk cause. rd_decision prior = Some (Approved a) \<and> ap_revocation a = Some rk \<and>
      rk_cause rk = Some (Integration_gate_failure cause) \<and> gf_gate cause = Some (wp_gate w)"
    using 1(8) none base repair
    by (auto simp: classifierFindings_def classifierIntegrationRepairFindings_def
        split: option.splits revocation_cause.splits if_splits)
  moreover have "cs_policyVersion source = WEAKENING_POLICY_VERSION"
    using 1(7) none assms(2) by (simp add: expectedClassifierPolicy_def)
  moreover have "num_le WEAKENING_THRESHOLD (cs_score source)"
    using not_less_finite[OF src(4) _ score] by (simp add: WEAKENING_THRESHOLD_def)
  ultimately show ?thesis using 1(2) route by blast
qed

end
