(* ===== verification/Patterns.thy ===== *)
theory Patterns
  imports Prelude
begin

text \<open>
  The regular expressions the code tests texts with (\<open>/.../i.test(text)\<close>). An expression denotes a
  relation between positions of a text, \<open>matches\<close>; \<open>ends\<close> lists the positions a match can end at,
  and \<open>test\<close> tries every start. Only whether there is a match is observed, so greediness and the
  order of alternatives do not matter. Letters are compared without case, as the flag \<open>i\<close> asks.
\<close>

text \<open>A position: the character before it and the text after it.\<close>

type_synonym place = "char option \<times> string"

datatype rx =
    Lit char
  | Class "char \<Rightarrow> bool"
  | Edge \<comment> \<open>a word boundary\<close>
  | Front \<comment> \<open>the start of the text\<close>
  | Seq rx rx
  | Alt rx rx
  | Many rx \<comment> \<open>any number of times\<close>
  | Nothing \<comment> \<open>the empty text\<close>

definition same_letter :: "char \<Rightarrow> char \<Rightarrow> bool" where
  "same_letter a b \<longleftrightarrow> lower_char a = lower_char b"

text \<open>Lower case on the bits of a code unit, for evaluation.\<close>

lemma lower_char_code [code]:
  "lower_char (Char b0 b1 b2 b3 b4 b5 b6 b7) =
     (if b6 \<and> \<not> b5 \<and> (if b7 then \<not> (b0 \<and> b1 \<and> b2 \<and> b3 \<and> b4) \<and> \<not> (b0 \<and> b1 \<and> b2 \<and> \<not> b3 \<and> b4)
        else (b0 \<or> b1 \<or> b2 \<or> b3 \<or> b4) \<and> \<not> (b3 \<and> b4 \<and> (b2 \<or> b0 \<and> b1)))
      then Char b0 b1 b2 b3 b4 True b6 b7 else Char b0 b1 b2 b3 b4 b5 b6 b7)"
  by (cases b0; cases b1; cases b2; cases b3; cases b4; cases b5; cases b6; cases b7)
     (simp_all add: lower_char_def Let_def of_char_def char_of_def bit_Suc_0_iff)

definition ascii_word :: "char \<Rightarrow> bool" where
  "ascii_word c \<longleftrightarrow> is_lower c \<or> is_upper c \<or> is_digit c \<or> c = CHR ''_''"

definition at_edge :: "place \<Rightarrow> bool" where
  "at_edge p =
     ((case fst p of None \<Rightarrow> False | Some c \<Rightarrow> ascii_word c) \<noteq>
      (case snd p of [] \<Rightarrow> False | c # _ \<Rightarrow> ascii_word c))"

inductive matches :: "rx \<Rightarrow> place \<Rightarrow> place \<Rightarrow> bool" where
  lit: "same_letter a c \<Longrightarrow> matches (Lit a) (q, c # s) (Some c, s)"
| cls: "P c \<Longrightarrow> matches (Class P) (q, c # s) (Some c, s)"
| edge: "at_edge p \<Longrightarrow> matches Edge p p"
| front: "matches Front (None, s) (None, s)"
| seq: "matches r p q \<Longrightarrow> matches t q u \<Longrightarrow> matches (Seq r t) p u"
| alt1: "matches r p q \<Longrightarrow> matches (Alt r t) p q"
| alt2: "matches t p q \<Longrightarrow> matches (Alt r t) p q"
| none: "matches (Many r) p p"
| more: "matches r p q \<Longrightarrow> matches (Many r) q u \<Longrightarrow> matches (Many r) p u"
| empty: "matches Nothing p p"

inductive_cases lit_cases [elim!]: "matches (Lit a) p q"
inductive_cases class_cases [elim!]: "matches (Class P) p q"
inductive_cases edge_cases [elim!]: "matches Edge p q"
inductive_cases front_cases [elim!]: "matches Front p q"
inductive_cases seq_cases [elim!]: "matches (Seq r t) p q"
inductive_cases alt_cases [elim!]: "matches (Alt r t) p q"
inductive_cases nothing_cases [elim!]: "matches Nothing p q"

text \<open>The iteration of a repeated expression. A pass that consumes nothing reaches no new position,
  so as many passes as there are characters left are enough.\<close>

fun ends_many :: "(place \<Rightarrow> place list) \<Rightarrow> nat \<Rightarrow> place \<Rightarrow> place list" where
  "ends_many f 0 p = [p]"
| "ends_many f (Suc n) p =
     p # concat (map (\<lambda>q. if length (snd q) < length (snd p) then ends_many f n q else []) (f p))"

fun ends :: "rx \<Rightarrow> place \<Rightarrow> place list" where
  "ends (Lit a) p = (case snd p of [] \<Rightarrow> [] | c # s \<Rightarrow> if same_letter a c then [(Some c, s)] else [])"
| "ends (Class P) p = (case snd p of [] \<Rightarrow> [] | c # s \<Rightarrow> if P c then [(Some c, s)] else [])"
| "ends Edge p = (if at_edge p then [p] else [])"
| "ends Front p = (if fst p = None then [p] else [])"
| "ends (Seq r t) p = concat (map (ends t) (ends r p))"
| "ends (Alt r t) p = ends r p @ ends t p"
| "ends (Many r) p = ends_many (ends r) (length (snd p)) p"
| "ends Nothing p = [p]"

fun test_from :: "rx \<Rightarrow> char option \<Rightarrow> string \<Rightarrow> bool" where
  "test_from r q [] = (ends r (q, []) \<noteq> [])"
| "test_from r q (c # s) = (ends r (q, c # s) \<noteq> [] \<or> test_from r (Some c) s)"

definition test :: "rx \<Rightarrow> string \<Rightarrow> bool" where
  "test r s = test_from r None s"

text \<open>The positions of a text.\<close>

inductive place_in :: "string \<Rightarrow> place \<Rightarrow> bool" for whole :: string where
  first: "place_in whole (None, whole)"
| later: "place_in whole (q, c # s) \<Longrightarrow> place_in whole (Some c, s)"

section \<open>Building expressions\<close>

fun word :: "string \<Rightarrow> rx" where
  "word [] = Nothing"
| "word [c] = Lit c"
| "word (c # d # s) = Seq (Lit c) (word (d # s))"

fun seq_of :: "rx list \<Rightarrow> rx" where
  "seq_of [] = Nothing"
| "seq_of [r] = r"
| "seq_of (r # t # rs) = Seq r (seq_of (t # rs))"

fun any_of :: "rx list \<Rightarrow> rx" where
  "any_of [] = Class (\<lambda>_. False)"
| "any_of [r] = r"
| "any_of (r # t # rs) = Alt r (any_of (t # rs))"

definition maybe :: "rx \<Rightarrow> rx" where
  "maybe r = Alt r Nothing"

definition some_of :: "rx \<Rightarrow> rx" where
  "some_of r = Seq r (Many r)"

definition gap :: rx where \<comment> \<open>\<open>\s+\<close>\<close>
  "gap = some_of (Class js_space)"

definition anything :: rx where \<comment> \<open>\<open>.*\<close>: no line terminator\<close>
  "anything = Many (Class (\<lambda>c. c \<noteq> char_of (10 :: nat) \<and> c \<noteq> char_of (13 :: nat)))"

text \<open>Words separated by white space: \<open>a\s+b\s+c\<close>.\<close>

fun spaced :: "string list \<Rightarrow> rx" where
  "spaced [] = Nothing"
| "spaced [w] = word w"
| "spaced (w # v # ws) = Seq (word w) (Seq gap (spaced (v # ws)))"

section \<open>The matcher is exact\<close>

lemma matches_shorter: "matches r p q \<Longrightarrow> length (snd q) \<le> length (snd p)"
  by (induction rule: matches.induct) auto

lemma matches_same: "matches r p q \<Longrightarrow> length (snd q) = length (snd p) \<Longrightarrow> q = p"
proof (induction rule: matches.induct)
  case (seq r p q t u)
  then show ?case using matches_shorter[OF seq(1)] matches_shorter[OF seq(2)] by (metis le_antisym)
next
  case (more r p q u)
  then show ?case using matches_shorter[OF more(1)] matches_shorter[OF more(2)] by (metis le_antisym)
qed auto

text \<open>Repetition in steps that consume something.\<close>

inductive strict_many :: "rx \<Rightarrow> place \<Rightarrow> place \<Rightarrow> bool" for r :: rx where
  stop: "strict_many r p p"
| step: "matches r p q \<Longrightarrow> length (snd q) < length (snd p) \<Longrightarrow> strict_many r q u \<Longrightarrow> strict_many r p u"

lemma many_strict: "matches (Many r) p u \<longleftrightarrow> strict_many r p u"
proof
  assume "matches (Many r) p u"
  then show "strict_many r p u"
  proof (induction "Many r" p u rule: matches.induct)
    case (none p)
    then show ?case by (rule strict_many.stop)
  next
    case (more p q u)
    show ?case
    proof (cases "length (snd q) < length (snd p)")
      case True
      with more show ?thesis by (blast intro: strict_many.step)
    next
      case False
      with matches_shorter[OF more(1)] have "length (snd q) = length (snd p)" by simp
      with matches_same[OF more(1)] more show ?thesis by simp
    qed
  qed
next
  assume "strict_many r p u"
  then show "matches (Many r) p u"
    by (induction rule: strict_many.induct) (auto intro: matches.none matches.more)
qed

lemma ends_many_iff:
  assumes "\<And>p q. q \<in> set (f p) \<longleftrightarrow> matches r p q"
  shows "length (snd p) \<le> n \<Longrightarrow> u \<in> set (ends_many f n p) \<longleftrightarrow> strict_many r p u"
proof (induction n arbitrary: p)
  case 0
  then show ?case by (auto intro: strict_many.stop elim: strict_many.cases)
next
  case (Suc n)
  have "u \<in> set (ends_many f (Suc n) p) \<longleftrightarrow>
      u = p \<or> (\<exists>q. matches r p q \<and> length (snd q) < length (snd p) \<and> u \<in> set (ends_many f n q))"
    by (auto simp: assms[symmetric] split: if_splits)
  also have "\<dots> \<longleftrightarrow> u = p \<or> (\<exists>q. matches r p q \<and> length (snd q) < length (snd p) \<and> strict_many r q u)"
    using Suc by auto
  also have "\<dots> \<longleftrightarrow> strict_many r p u"
    by (subst strict_many.simps[of r p u]) auto
  finally show ?case .
qed

lemma ends_iff: "q \<in> set (ends r p) \<longleftrightarrow> matches r p q"
proof (induction r arbitrary: p q)
  case (Lit a)
  then show ?case by (cases p) (auto split: list.splits if_splits intro: matches.lit)
next
  case (Class P)
  then show ?case by (cases p) (auto split: list.splits if_splits intro: matches.cls)
next
  case Edge
  then show ?case by (auto intro: matches.edge)
next
  case Front
  then show ?case by (cases p) (auto intro: matches.front)
next
  case (Seq r t)
  have "q \<in> set (ends (Seq r t) p) \<longleftrightarrow> (\<exists>x. x \<in> set (ends r p) \<and> q \<in> set (ends t x))" by auto
  also have "\<dots> \<longleftrightarrow> (\<exists>x. matches r p x \<and> matches t x q)" by (simp only: Seq.IH)
  also have "\<dots> \<longleftrightarrow> matches (Seq r t) p q" by (blast intro: matches.seq)
  finally show ?case .
next
  case (Alt r t)
  then show ?case by (auto intro: matches.alt1 matches.alt2)
next
  case (Many r)
  have "q \<in> set (ends_many (ends r) (length (snd p)) p) \<longleftrightarrow> strict_many r p q"
    by (rule ends_many_iff) (simp_all add: Many)
  then show ?case by (simp add: many_strict)
next
  case Nothing
  then show ?case by (auto intro: matches.empty)
qed

lemma ends_nonempty: "ends r p \<noteq> [] \<longleftrightarrow> (\<exists>q. matches r p q)"
proof -
  have "ends r p \<noteq> [] \<longleftrightarrow> (\<exists>q. q \<in> set (ends r p))" by (cases "ends r p") auto
  then show ?thesis by (simp add: ends_iff)
qed

lemma place_in_suffix: "place_in whole p \<longleftrightarrow>
    (p = (None, whole) \<or> (\<exists>before c. whole = before @ c # snd p \<and> fst p = Some c))"
proof
  assume "place_in whole p"
  then show "p = (None, whole) \<or> (\<exists>before c. whole = before @ c # snd p \<and> fst p = Some c)"
  proof induction
    case (later q c s)
    from later.IH show ?case
    proof
      assume "(q, c # s) = (None, whole)"
      then have "whole = [] @ c # s" by simp
      then show ?thesis by auto
    next
      assume "\<exists>before d. whole = before @ d # snd (q, c # s) \<and> fst (q, c # s) = Some d"
      then obtain before d where "whole = (before @ [d]) @ c # s" by auto
      then show ?thesis by (metis fst_conv snd_conv)
    qed
  qed simp
next
  assume "p = (None, whole) \<or> (\<exists>before c. whole = before @ c # snd p \<and> fst p = Some c)"
  then show "place_in whole p"
  proof
    assume "\<exists>before c. whole = before @ c # snd p \<and> fst p = Some c"
    then obtain before c where p: "whole = before @ c # snd p" "fst p = Some c" by blast
    have "\<exists>q. place_in whole (q, after)" if "whole = front @ after" for front after
      using that
    proof (induction front arbitrary: after rule: rev_induct)
      case Nil
      then show ?case by (auto intro: place_in.first)
    next
      case (snoc d front)
      then have "whole = front @ d # after" by simp
      from snoc.IH[OF this] show ?case by (blast intro: place_in.later)
    qed
    from this[OF p(1)] obtain q where "place_in whole (q, c # snd p)" by blast
    then have "place_in whole (Some c, snd p)" by (rule place_in.later)
    with p(2) show ?thesis by (metis prod.collapse)
  qed (simp add: place_in.first)
qed

lemma test_from_iff:
  "test_from r q s \<longleftrightarrow> (\<exists>u. matches r (q, s) u) \<or> (\<exists>before c after u. s = before @ c # after \<and> matches r (Some c, after) u)"
proof (induction s arbitrary: q)
  case Nil
  then show ?case by (simp add: ends_nonempty)
next
  case (Cons d s)
  have "(\<exists>before c after u. d # s = before @ c # after \<and> matches r (Some c, after) u) \<longleftrightarrow>
      (\<exists>u. matches r (Some d, s) u) \<or> (\<exists>before c after u. s = before @ c # after \<and> matches r (Some c, after) u)"
    by (auto simp: Cons_eq_append_conv) (metis append_Cons)+
  then show ?case using Cons.IH by (auto simp: ends_nonempty)
qed

lemma test_iff: "test r s \<longleftrightarrow> (\<exists>p q. place_in s p \<and> matches r p q)"
proof -
  have "test r s \<longleftrightarrow> (\<exists>u. matches r (None, s) u) \<or>
      (\<exists>before c after u. s = before @ c # after \<and> matches r (Some c, after) u)"
    unfolding test_def by (rule test_from_iff)
  also have "\<dots> \<longleftrightarrow> (\<exists>p q. place_in s p \<and> matches r p q)"
  proof
    assume "(\<exists>u. matches r (None, s) u) \<or>
      (\<exists>before c after u. s = before @ c # after \<and> matches r (Some c, after) u)"
    then show "\<exists>p q. place_in s p \<and> matches r p q"
    proof
      assume "\<exists>u. matches r (None, s) u"
      then show ?thesis using place_in.first[of s] by blast
    next
      assume "\<exists>before c after u. s = before @ c # after \<and> matches r (Some c, after) u"
      then obtain before c after u where "s = before @ c # after" and m: "matches r (Some c, after) u" by blast
      then have "place_in s (Some c, after)" by (simp add: place_in_suffix)
      with m show ?thesis by blast
    qed
  next
    assume "\<exists>p q. place_in s p \<and> matches r p q"
    then obtain p q where "place_in s p" and m: "matches r p q" by blast
    then have "p = (None, s) \<or> (\<exists>before c. s = before @ c # snd p \<and> fst p = Some c)"
      by (simp add: place_in_suffix)
    with m show "(\<exists>u. matches r (None, s) u) \<or>
      (\<exists>before c after u. s = before @ c # after \<and> matches r (Some c, after) u)"
      by (metis prod.collapse)
  qed
  finally show ?thesis .
qed

text \<open>A pattern that is a word tests for the word, without case.\<close>

lemma matches_word: "matches (word w) (q, s) u \<Longrightarrow> to_lower (take (length w) s) = to_lower w \<and> snd u = drop (length w) s"
  by (induction w arbitrary: q s u rule: word.induct) (auto simp: same_letter_def to_lower_def)

end
