(* ===== verification/Failures.thy ===== *)
theory Failures
  imports Patterns Checkpoints
begin

text \<open>
  Failures and what is done about them: \<open>src/src/domain/failure-reason.ts\<close>,
  \<open>failure-classification.ts\<close>, \<open>rebound-policy.ts\<close>, \<open>launch-failure.ts\<close> and the evidence policy of
  \<open>mission-review-preparation-policy.ts\<close>.

  A pattern with the flag \<open>i\<close> is an expression of the theory \<open>Patterns\<close>; a pattern without it is built
  from \<open>Class\<close>. The check marks a passing test line may start with are not Latin-1, so in the text of
  the model only the TAP form of such a line occurs.
\<close>

section \<open>Typed reasons\<close>

datatype reason_code =
    Gate_failed_code | Cpu_budget_exceeded | Process_terminated | Agent_quota | Infrastructure | State_machine

fun code_text :: "reason_code \<Rightarrow> string" where
  "code_text Gate_failed_code = ''gate-failed''"
| "code_text Cpu_budget_exceeded = ''cpu-budget-exceeded''"
| "code_text Process_terminated = ''process-terminated''"
| "code_text Agent_quota = ''agent-quota''"
| "code_text Infrastructure = ''infrastructure''"
| "code_text State_machine = ''state-machine''"

definition FAILURE_REASON_CODES :: "reason_code list" where
  "FAILURE_REASON_CODES =
     [Gate_failed_code, Cpu_budget_exceeded, Process_terminated, Agent_quota, Infrastructure, State_machine]"

text \<open>A recorded value of unknown shape: nothing, something that is no object, or an object with the
  two properties the reader looks at.\<close>

datatype version_value = Version_absent | Version_number jsnum | Version_other

datatype reason_value = Nothing_recorded | No_object | Reason_object version_value "string option"

definition recognizedFailureReason :: "reason_value \<Rightarrow> reason_code option" where
  "recognizedFailureReason v =
     (case v of
        Reason_object version code \<Rightarrow>
          if version = Version_number (Num 1)
          then find_first (\<lambda>c. Some (code_text c) = code) FAILURE_REASON_CODES else None
      | _ \<Rightarrow> None)"

datatype legacy_reason = Reason_missing | Unknown_code | Unsupported_version

definition legacyFailureReason :: "reason_value \<Rightarrow> legacy_reason option" where
  "legacyFailureReason v =
     (if recognizedFailureReason v \<noteq> None then None
      else Some (case v of
          Nothing_recorded \<Rightarrow> Reason_missing
        | Reason_object version _ \<Rightarrow>
            if version \<noteq> Version_absent \<and> version \<noteq> Version_number (Num 1) then Unsupported_version
            else Unknown_code
        | No_object \<Rightarrow> Unknown_code))"

definition reason_of_code :: "reason_code \<Rightarrow> reason_value" where
  "reason_of_code code = Reason_object (Version_number (Num 1)) (Some (code_text code))"

section \<open>Review preparation evidence\<close>

text \<open>\<open>/Success criteria [\d, ]+ are incomplete before review preparation\./i\<close>.\<close>

definition incomplete_criteria_rx :: rx where
  "incomplete_criteria_rx = seq_of [word ''Success criteria '',
     some_of (Class (\<lambda>c. is_digit c \<or> c = CHR '','' \<or> c = CHR '' '')),
     word '' are incomplete before review preparation.'']"

definition isIncompleteSuccessCriteriaFailure :: "string \<Rightarrow> bool" where
  "isIncompleteSuccessCriteriaFailure errorMsg = test incomplete_criteria_rx errorMsg"

datatype evidence_origin = Recorded | Missing_evidence | Historical

record evidence_report =
  er_source :: evidence_origin
  er_incomplete :: "nat list"
  er_insufficientRows :: bool

definition reviewPreparationEvidencePolicy ::
  "goal_row list list \<Rightarrow> string list \<Rightarrow> string list option \<Rightarrow> nat list \<Rightarrow> bool \<Rightarrow> evidence_report" where
  "reviewPreparationEvidencePolicy checkpoints criteria criterionIds completed draftedInDb =
     \<lparr> er_source = (if checkpoints \<noteq> [] then Recorded else if draftedInDb then Missing_evidence else Historical),
       er_incomplete = map Suc (filter (\<lambda>index. index \<notin> set completed) [0..<length criteria]),
       er_insufficientRows = (checkpoints \<noteq> [] \<and>
         uncoveredCompletedCriteria checkpoints criteria completed criterionIds \<noteq> []) \<rparr>"

definition reviewPreparationBudgetExceeded :: "int \<Rightarrow> bool" where
  "reviewPreparationBudgetExceeded attempt \<longleftrightarrow> attempt > 3"

section \<open>Classes and actions\<close>

datatype failure_class =
    UnverifiableClaims | MalformedGates | MissingArtifacts | IncompleteEvidence | GitBlockers
  | GateFailure | AgentCapacity | InfraBlocker | StateMachineViolation

datatype dispatch_action = AutoRepair | AutoSendBack | HumanOnly

fun DISPATCH_TABLE :: "failure_class \<Rightarrow> dispatch_action" where
  "DISPATCH_TABLE UnverifiableClaims = AutoSendBack"
| "DISPATCH_TABLE MalformedGates = AutoRepair"
| "DISPATCH_TABLE MissingArtifacts = AutoSendBack"
| "DISPATCH_TABLE IncompleteEvidence = AutoSendBack"
| "DISPATCH_TABLE GitBlockers = AutoRepair"
| "DISPATCH_TABLE GateFailure = AutoSendBack"
| "DISPATCH_TABLE AgentCapacity = AutoRepair"
| "DISPATCH_TABLE InfraBlocker = HumanOnly"
| "DISPATCH_TABLE StateMachineViolation = HumanOnly"

definition getDispatchAction :: "failure_class \<Rightarrow> dispatch_action option" where
  "getDispatchAction failureClass = Some (DISPATCH_TABLE failureClass)"

datatype blocker_reason = Dirty | Behind | Other_blocker

record error_class =
  ec_failureClass :: failure_class
  ec_dispatchAction :: dispatch_action
  ec_reason :: "blocker_reason option"

definition as_class :: "failure_class \<Rightarrow> dispatch_action \<Rightarrow> error_class" where
  "as_class failureClass action = \<lparr> ec_failureClass = failureClass, ec_dispatchAction = action, ec_reason = None \<rparr>"

section \<open>The patterns\<close>

definition state_rx :: rx where
  "state_rx = any_of [spaced [''state'', ''violation''], spaced [''invalid'', ''state''],
     spaced [''transition'', ''not'', ''allowed''],
     seq_of [word ''cannot'', gap, any_of [word ''move'', word ''transition''], gap,
       any_of [word ''from'', word ''to''], gap, some_of (Class ascii_word), gap,
       any_of [word ''to'', word ''from'']]]"

definition launch_refused_rx :: rx where
  "launch_refused_rx = seq_of [spaced [''no'', ''recorded'', ''implementer''], anything,
     spaced [''cannot'', ''launch'', ''conflict'', ''resolution'']]"

definition infra_rx :: rx where
  "infra_rx = any_of [word ''forgejo'', word ''infrastructure'', spaced [''authentication'', ''failed''],
     seq_of [word ''token'', gap, any_of [word ''expired'', word ''invalid'', word ''missing'']],
     word ''forbidden'', seq_of [word ''unauthorized'', gap, any_of [word ''access'', word ''request'']],
     seq_of [word ''connection'', gap, any_of [word ''refused'',
       seq_of [word ''time'', maybe (Lit (CHR ''d'')), Many (Class js_space), word ''out'']]],
     spaced [''network'', ''error'']]"

definition explicitHumanOnlyClass :: "string \<Rightarrow> failure_class option" where
  "explicitHumanOnlyClass errorMsg =
     (if test state_rx errorMsg \<or>
         test (spaced [''task'', ''state'']) errorMsg \<and>
         test (any_of [word ''invalid'', word ''violation'', word ''incorrect'']) errorMsg \<or>
         test launch_refused_rx errorMsg
      then Some StateMachineViolation
      else if test infra_rx errorMsg then Some InfraBlocker
      else None)"

definition exactly :: "char \<Rightarrow> rx" where
  "exactly c = Class (\<lambda>d. d = c)"

text \<open>\<open>/\bCP-\d+/\<close>, where case counts.\<close>

definition checkpoint_name_rx :: rx where
  "checkpoint_name_rx = seq_of [Edge, exactly (CHR ''C''), exactly (CHR ''P''), exactly (CHR ''-''),
     some_of (Class is_digit)]"

definition quoted :: "string \<Rightarrow> string" where
  "quoted s = CHR 0x22 # s @ [CHR 0x22]"

definition classifyIncompleteEvidence :: "string \<Rightarrow> error_class option" where
  "classifyIncompleteEvidence errorMsg =
     (if isIncompleteSuccessCriteriaFailure errorMsg \<or>
         str_includes errorMsg (quoted ''## Goal Check'') \<and> str_includes errorMsg ''required before review preparation'' \<or>
         str_includes errorMsg ''missing a'' \<and> str_includes errorMsg (quoted ''## Goal Check'' @ '' section'') \<or>
         str_includes errorMsg ''No checkpoint documents found'' \<and> str_includes errorMsg ''Goal Check table'' \<or>
         test (seq_of [spaced [''declared'', ''checkpoint'', ''document''], maybe (Lit (CHR ''s'')), gap,
           any_of [word ''are'', word ''is''], gap, word ''missing'']) errorMsg \<or>
         test checkpoint_name_rx errorMsg \<and>
         test (any_of [spaced [''missing'', ''before'', ''review'', ''preparation''],
           spaced [''create'', ''and'', ''commit'']]) errorMsg \<or>
         str_includes errorMsg (CHR 0x60 # ''px checkpoint record'')
      then Some (as_class IncompleteEvidence AutoSendBack) else None)"

definition classifyGitBlocker :: "string \<Rightarrow> error_class option" where
  "classifyGitBlocker errorMsg =
     (if str_includes errorMsg ''is modified but uncommitted'' \<or>
         str_includes errorMsg ''Commit the mission contract before review preparation'' \<or>
         str_includes errorMsg ''Commit the implementation evidence before review preparation''
      then Some ((as_class GitBlockers AutoRepair)\<lparr>ec_reason := Some Dirty\<rparr>)
      else if str_includes errorMsg ''Updates were rejected'' \<or> str_includes errorMsg ''fetch first'' \<or>
         str_includes errorMsg ''non-fast-forward'' \<or> str_includes errorMsg ''behind its remote'' \<or>
         str_includes errorMsg ''git push failed'' \<and>
         (str_includes errorMsg ''rejected'' \<or> str_includes errorMsg ''remote contains work'')
      then Some ((as_class GitBlockers AutoRepair)\<lparr>ec_reason := Some Behind\<rparr>)
      else None)"

definition malformed_gate_rx :: rx where
  "malformed_gate_rx = any_of [spaced [''malformed'', ''gate''], spaced [''invalid'', ''gate'', ''config''],
     seq_of [spaced [''gate'', ''command''], gap, any_of [spaced [''not'', ''found''],
       spaced [''syntax'', ''error''], spaced [''not'', ''runnable'']]]]"

definition artifact_rx :: rx where
  "artifact_rx = (let kind = any_of [word ''artifact'', word ''file'', word ''document''] in
     any_of [seq_of [word ''mandatory'', gap, kind],
       seq_of [word ''missing'', gap, maybe (seq_of [word ''mission'', gap]), kind],
       seq_of [word ''required'', gap, kind, gap, maybe (seq_of [word ''not'', gap]), word ''found'']])"

definition classifyGateOrArtifactFailure :: "string \<Rightarrow> error_class option" where
  "classifyGateOrArtifactFailure errorMsg =
     (if test (any_of [word ''verification gate failed'', word ''rebase failed before review preparation'']) errorMsg \<or>
         test (seq_of [Edge, word ''declared gate'', Edge]) errorMsg \<and>
         test (seq_of [Edge, word ''failed'', Edge]) errorMsg
      then Some (as_class GateFailure AutoSendBack)
      else if test (seq_of [word ''test'', maybe (seq_of [maybe (Lit (CHR ''s'')), gap]), word ''passed'']) errorMsg \<and>
         test (any_of [spaced [''cannot'', ''verify''], word ''unverifiable'',
           seq_of [word ''proof'', gap, maybe (seq_of [word ''not'', gap]), word ''found''],
           spaced [''stale'', ''proof'']]) errorMsg
      then Some (as_class UnverifiableClaims AutoSendBack)
      else if test malformed_gate_rx errorMsg \<or>
         test (word ''gate'') errorMsg \<and>
         test (any_of [spaced [''syntax'', ''error''], spaced [''not'', ''found''],
           seq_of [word ''missing'', gap, any_of [word ''file'', word ''command'']]]) errorMsg
      then Some (as_class MalformedGates AutoRepair)
      else if str_includes errorMsg ''even after auto-remediation'' \<or>
         str_includes errorMsg ''No checkpoint documents found in '' \<or>
         test artifact_rx errorMsg \<or>
         test (word ''gatekeeper'') errorMsg \<and>
         test (seq_of [word ''missing'', gap, any_of [word ''artifact'', word ''file'', word ''document'']]) errorMsg
      then Some (as_class MissingArtifacts AutoSendBack)
      else None)"

definition capacity_rx :: rx where
  "capacity_rx = (let sep = Class (\<lambda>c. c = CHR ''_'' \<or> js_space c) in
     any_of [spaced [''usage'', ''limit''],
       seq_of [spaced [''hit'', ''your''], gap,
         any_of [word ''weekly'', word ''daily'', word ''monthly'', word ''usage''], gap, word ''limit''],
       seq_of [word ''rate'', maybe sep, word ''limit'', gap, any_of [word ''reached'', word ''exceeded'']],
       seq_of [Edge, word ''quota'', Edge],
       seq_of [Edge, word ''429'', Edge, Many (Class (\<lambda>c. c \<noteq> char_of (10 :: nat))), Edge,
         any_of [word ''rate'', word ''usage'', word ''quota''], Edge],
       seq_of [word ''resource'', maybe sep, maybe (seq_of [word ''has'', gap]), word ''been'', some_of sep,
         word ''exhausted''],
       word ''resource_exhausted''])"

definition no_submission_rx :: rx where
  "no_submission_rx = seq_of [word ''did not '', any_of [word ''submit'', word ''leave''], anything,
     any_of [seq_of [word ''review '', any_of [word ''outcome'', word ''preparation'']], word ''formal review'']]"

definition classifyOperationalFailure :: "string \<Rightarrow> error_class option" where
  "classifyOperationalFailure errorMsg =
     (let explicitClass = explicitHumanOnlyClass errorMsg;
          infra = (explicitClass = Some InfraBlocker) in
      if explicitClass = Some StateMachineViolation then Some (as_class StateMachineViolation HumanOnly)
      else if \<not> infra \<and> test capacity_rx errorMsg then Some (as_class AgentCapacity AutoRepair)
      else if infra \<or> test no_submission_rx errorMsg then Some (as_class InfraBlocker HumanOnly)
      else None)"

definition class_of_code :: "reason_code \<Rightarrow> failure_class" where
  "class_of_code code =
     (case code of
        Infrastructure \<Rightarrow> InfraBlocker
      | State_machine \<Rightarrow> StateMachineViolation
      | Agent_quota \<Rightarrow> AgentCapacity
      | _ \<Rightarrow> GateFailure)"

definition classifyError :: "string \<Rightarrow> reason_value \<Rightarrow> error_class" where
  "classifyError errorMsg failureReason =
     (case recognizedFailureReason failureReason of
        Some code \<Rightarrow> as_class (class_of_code code) (DISPATCH_TABLE (class_of_code code))
      | None \<Rightarrow>
     (if errorMsg = [] then as_class InfraBlocker HumanOnly
      else (case classifyIncompleteEvidence errorMsg of Some c \<Rightarrow> c | None \<Rightarrow>
           (case classifyGitBlocker errorMsg of Some c \<Rightarrow> c | None \<Rightarrow>
           (case classifyGateOrArtifactFailure errorMsg of Some c \<Rightarrow> c | None \<Rightarrow>
           (case classifyOperationalFailure errorMsg of Some c \<Rightarrow> c | None \<Rightarrow>
              as_class InfraBlocker HumanOnly))))))"

section \<open>Evidence of failure\<close>

text \<open>\<open>/^\s*(?:[..]\s|ok\s+\d+\b)/\<close> for one line, where case counts.\<close>

definition passing_line :: "string \<Rightarrow> bool" where
  "passing_line line =
     (case strip_prefix ''ok'' (dropWhile js_space line) of
        None \<Rightarrow> False
      | Some rest \<Rightarrow>
          let number = dropWhile js_space rest; after = dropWhile is_digit number in
          number \<noteq> rest \<and> takeWhile is_digit number \<noteq> [] \<and>
          (case after of [] \<Rightarrow> True | c # _ \<Rightarrow> \<not> ascii_word c))"

definition failure_evidence :: "string \<Rightarrow> string" where
  "failure_evidence diagnostic =
     join newline (filter (\<lambda>line. \<not> passing_line line) (split_on (char_of (10 :: nat)) diagnostic))"

definition hasExplicitHumanOnlyDiagnostic :: "string \<Rightarrow> bool" where
  "hasExplicitHumanOnlyDiagnostic diagnostic =
     (if diagnostic = [] then False
      else let evidence = failure_evidence diagnostic in
        ec_dispatchAction (classifyError evidence Nothing_recorded) = HumanOnly \<and>
        explicitHumanOnlyClass evidence \<noteq> None)"

definition budget_rx :: rx where
  "budget_rx = any_of [
     seq_of [word ''[unit-test-'', any_of [word ''budget'', word ''cpu''], word '':exceeded]''],
     word ''integration-test-cpu:exceeded'',
     seq_of [word ''[unit-test-'', any_of [word ''budget'', word ''cpu''], word '']'', gap, word ''SUITE '',
       maybe (word ''CPU ''), word ''BUDGET EXCEEDED''],
     seq_of [word ''CPU '', any_of [word ''budget'', word ''limit''], word '' exceeded'']]"

record process_result =
  pc_status :: "int option"
  pc_signal :: "string option"
  pc_stdout :: "string option"
  pc_stderr :: "string option"

definition gateFailureReasonFromProcess :: "process_result \<Rightarrow> reason_code option" where
  "gateFailureReasonFromProcess input =
     (let signalled = (default_to [] (pc_signal input) \<noteq> []) in
      if pc_status input = Some 0 \<and> \<not> signalled then None
      else let diagnostic = failure_evidence (default_to [] (pc_stdout input) @ newline @ default_to [] (pc_stderr input));
               failureClass = ec_failureClass (classifyError diagnostic Nothing_recorded) in
        Some (if hasExplicitHumanOnlyDiagnostic diagnostic
              then if failureClass = StateMachineViolation then State_machine else Infrastructure
              else if test budget_rx diagnostic then Cpu_budget_exceeded
              else if failureClass = AgentCapacity then Agent_quota
              else if signalled then Process_terminated else Gate_failed_code))"

section \<open>Rebounds\<close>

datatype blocker_key = Key_command | Key_diagnostic | Key_authorityReason | Key_proposedCorrection

fun blocker_value :: "contract_blocker \<Rightarrow> blocker_key \<Rightarrow> string" where
  "blocker_value b Key_command = ib_command b"
| "blocker_value b Key_diagnostic = ib_diagnostic b"
| "blocker_value b Key_authorityReason = ib_authorityReason b"
| "blocker_value b Key_proposedCorrection = ib_proposedCorrection b"

definition assertInvalidContractBlocker :: "contract_blocker \<Rightarrow> blocker_key + unit" where
  "assertInvalidContractBlocker value =
     (case find_first (\<lambda>key. blank (blocker_value value key))
        [Key_command, Key_diagnostic, Key_authorityReason, Key_proposedCorrection] of
        Some key \<Rightarrow> Inl key | None \<Rightarrow> Inr ())"

record gate_failure_reason =
  gr_failureReason :: reason_value
  gr_signal :: "string field"
  gr_invalidContract :: "contract_blocker option"
  gr_area :: string
  gr_command :: string
  gr_exitCode :: "int option"
  gr_stdout :: string
  gr_stderr :: string
  gr_error :: "string option"
  gr_transient :: "bool option"
  gr_environment :: "bool option"
  gr_coverageNote :: "string option"
  gr_approvedRevision :: "string field"

datatype rebound_reason =
    Rebase_conflict "string list" string
  | Gate_failure gate_failure_reason
  | Hook_failure "string option" "string option" string
  | Artifact_incomplete string string
  | Agent_timeout string "string option" "string option"
  | Preparation_verification string "string option"
  | Declared_gate_validation string string

record rebound_classification =
  rb_failureClass :: failure_class
  rb_dispatchAction :: dispatch_action
  rb_isRelaunchable :: bool
  rb_label :: string

text \<open>\<open>[...].filter(Boolean).join('\n')\<close>.\<close>

definition lines_of :: "string option list \<Rightarrow> string" where
  "lines_of parts = join newline (filter (\<lambda>t. t \<noteq> []) (map (default_to []) parts))"

fun reboundDiagnostic :: "rebound_reason \<Rightarrow> string" where
  "reboundDiagnostic (Rebase_conflict _ diagnostic) = diagnostic"
| "reboundDiagnostic (Gate_failure g) =
     lines_of ([Some (gr_stdout g), Some (gr_stderr g), gr_error g] @
       (case gr_invalidContract g of None \<Rightarrow> []
        | Some b \<Rightarrow> map Some [ib_command b, ib_diagnostic b, ib_authorityReason b, ib_proposedCorrection b]))"
| "reboundDiagnostic (Hook_failure _ _ output) = output"
| "reboundDiagnostic (Artifact_incomplete _ diagnostic) = diagnostic"
| "reboundDiagnostic (Agent_timeout role diagnostic _) =
     (if default_to [] diagnostic = [] then role @ '' did not respond before its stage timeout''
      else default_to [] diagnostic)"
| "reboundDiagnostic (Preparation_verification message gateOutput) = lines_of [Some message, gateOutput]"
| "reboundDiagnostic (Declared_gate_validation _ diagnostic) = diagnostic"

fun reasonLabel :: "rebound_reason \<Rightarrow> string" where
  "reasonLabel (Rebase_conflict _ _) = ''REBASE CONFLICT''"
| "reasonLabel (Gate_failure _) = ''PRE-REVIEW GATE FAILURE''"
| "reasonLabel (Hook_failure _ _ _) = ''GIT HOOK FAILURE''"
| "reasonLabel (Artifact_incomplete _ _) = ''INCOMPLETE ARTIFACTS''"
| "reasonLabel (Agent_timeout _ _ _) = ''AGENT TIMEOUT''"
| "reasonLabel (Preparation_verification _ _) = ''REVIEW PREPARATION VERIFICATION FAILURE''"
| "reasonLabel (Declared_gate_validation _ _) = ''DECLARED GATE VALIDATION FAILURE''"

definition classified :: "rebound_reason \<Rightarrow> failure_class \<Rightarrow> dispatch_action \<Rightarrow> rebound_classification" where
  "classified reason failureClass action =
     \<lparr> rb_failureClass = failureClass, rb_dispatchAction = action,
       rb_isRelaunchable = (action \<noteq> HumanOnly), rb_label = reasonLabel reason \<rparr>"

text \<open>A structured default, unless the diagnostic is explicitly one for a human.\<close>

definition unless_human :: "rebound_reason \<Rightarrow> failure_class \<Rightarrow> dispatch_action \<Rightarrow> rebound_classification" where
  "unless_human reason failureClass action =
     (let diagnostic = reboundDiagnostic reason in
      if hasExplicitHumanOnlyDiagnostic diagnostic
      then let c = classifyError diagnostic Nothing_recorded in
        classified reason (ec_failureClass c) (ec_dispatchAction c)
      else classified reason failureClass action)"

definition classifyReboundReason :: "rebound_reason \<Rightarrow> rebound_classification" where
  "classifyReboundReason reason =
     (case reason of
        Rebase_conflict _ _ \<Rightarrow> classified reason GitBlockers AutoRepair
      | Gate_failure g \<Rightarrow>
          if gr_invalidContract g \<noteq> None then classified reason MalformedGates HumanOnly
          else if recognizedFailureReason (gr_failureReason g) \<noteq> None
          then let c = classifyError (reboundDiagnostic reason) (gr_failureReason g) in
            classified reason (ec_failureClass c) (ec_dispatchAction c)
          else unless_human reason GateFailure AutoSendBack
      | Hook_failure _ _ _ \<Rightarrow> unless_human reason GitBlockers AutoRepair
      | Artifact_incomplete _ _ \<Rightarrow> unless_human reason IncompleteEvidence AutoSendBack
      | Agent_timeout _ _ _ \<Rightarrow> unless_human reason IncompleteEvidence AutoSendBack
      | Declared_gate_validation _ _ \<Rightarrow> classified reason MalformedGates HumanOnly
      | Preparation_verification _ _ \<Rightarrow>
          let c = classifyError (reboundDiagnostic reason) Nothing_recorded in
            classified reason (ec_failureClass c) (ec_dispatchAction c))"

definition isTransientVerifierFailure :: "rebound_reason \<Rightarrow> bool" where
  "isTransientVerifierFailure reason =
     (case reason of Gate_failure g \<Rightarrow> gr_transient g = Some True | _ \<Rightarrow> False)"

definition DEFAULT_REBOUND_ATTEMPTS :: int where
  "DEFAULT_REBOUND_ATTEMPTS = 2"

definition transientRetryAllowed :: "rebound_reason \<Rightarrow> int \<Rightarrow> int \<Rightarrow> bool" where
  "transientRetryAllowed reason attempt retries \<longleftrightarrow> isTransientVerifierFailure reason \<and> attempt \<le> retries"

definition reboundRequiresHuman :: "rebound_reason \<Rightarrow> rebound_classification \<Rightarrow> bool \<Rightarrow> bool" where
  "reboundRequiresHuman reason classification afterTransientRetry =
     (if afterTransientRetry
      then isTransientVerifierFailure reason \<and>
        (case reason of Gate_failure g \<Rightarrow> gr_environment g = Some True | _ \<Rightarrow> False)
      else \<not> rb_isRelaunchable classification)"

datatype launch_action = Verify | Skip | Stop | Retry

definition launchRecoveryAction :: "bool \<Rightarrow> bool \<Rightarrow> int \<Rightarrow> int \<Rightarrow> int \<Rightarrow> bool \<Rightarrow> launch_action" where
  "launchRecoveryAction ok repairAttempted attempts launchFailures maxRetries deterministic =
     (if ok then Verify
      else if repairAttempted then Skip
      else if deterministic then Stop
      else if attempts > 0 \<or> launchFailures + 1 > maxRetries then Stop else Retry)"

definition repairBudgetAllows :: "int \<Rightarrow> int \<Rightarrow> bool" where
  "repairBudgetAllows attempt maximum \<longleftrightarrow> attempt \<le> maximum"

datatype exhaustion = Human | Repair_budget | Launcher_budget

definition reboundExhaustion :: "rebound_classification \<Rightarrow> int \<Rightarrow> int \<Rightarrow> exhaustion" where
  "reboundExhaustion classification attempts maximum =
     (if \<not> rb_isRelaunchable classification then Human
      else if attempts \<ge> maximum then Repair_budget else Launcher_budget)"

text \<open>The result is the command that still has to be verified.\<close>

definition differentGateVerification :: "rebound_reason \<Rightarrow> bool \<Rightarrow> string option \<Rightarrow> bool \<Rightarrow> string option" where
  "differentGateVerification original verified_ok verified_command hasRepairCheckpoint =
     (case original of
        Gate_failure g \<Rightarrow>
          if verified_ok \<and> (hasRepairCheckpoint \<or> default_to [] verified_command \<noteq> []) \<and>
             verified_command \<noteq> Some (gr_command g)
          then Some (gr_command g) else None
      | _ \<Rightarrow> None)"

definition repairVerificationRequiresHuman :: "rebound_reason option \<Rightarrow> bool" where
  "repairVerificationRequiresHuman reason =
     (case reason of
        Some (Declared_gate_validation _ _) \<Rightarrow> True
      | Some (Gate_failure g) \<Rightarrow> gr_invalidContract g \<noteq> None
      | _ \<Rightarrow> False)"

section \<open>Launch failures\<close>

record launch_failure =
  lf_code :: "string option"
  lf_message :: "string option"
  lf_signal :: "string option"

definition DETERMINISTIC_LAUNCH_ERRORS :: "string list" where
  "DETERMINISTIC_LAUNCH_ERRORS = [''E2BIG'', ''ENAMETOOLONG'', ''ENOENT'', ''EACCES'', ''ENOEXEC'']"

text \<open>What a spawn reports: a status that may be missing, a signal and an error object with a code
  and a message, each a string or nothing.\<close>

record spawn_error =
  se_code :: "string option"
  se_message :: "string option"

record spawn_result =
  sr_status :: "int option"
  sr_signal :: "string option"
  sr_error :: "spawn_error option"

definition text_or_null :: "string option \<Rightarrow> string option" where
  "text_or_null value = (if value = Some [] then None else value)"

definition launchFailureOf :: "spawn_result option \<Rightarrow> launch_failure option" where
  "launchFailureOf r =
     (case r of
        None \<Rightarrow> None
      | Some result \<Rightarrow>
          let spawn = sr_error result; sig = text_or_null (sr_signal result) in
          if sr_status result \<noteq> None \<and> spawn = None then None
          else if spawn = None \<and> sig = None then None
          else Some \<lparr> lf_code = Option.bind spawn (\<lambda>e. text_or_null (se_code e)),
                      lf_message = Option.bind spawn (\<lambda>e. text_or_null (se_message e)), lf_signal = sig \<rparr>)"

definition isDeterministicLaunchFailure :: "launch_failure \<Rightarrow> bool" where
  "isDeterministicLaunchFailure failure =
     (case lf_code failure of None \<Rightarrow> False | Some code \<Rightarrow> code \<in> set DETERMINISTIC_LAUNCH_ERRORS)"

section \<open>Properties\<close>

lemma class_simps [simp]:
  "ec_failureClass (as_class c a) = c" "ec_dispatchAction (as_class c a) = a"
  by (simp_all add: as_class_def)

lemma classified_simps [simp]:
  "rb_failureClass (classified reason c a) = c" "rb_dispatchAction (classified reason c a) = a"
  "rb_isRelaunchable (classified reason c a) = (a \<noteq> HumanOnly)"
  by (simp_all add: classified_def)

lemma classifyIncompleteEvidence_Some:
  "classifyIncompleteEvidence errorMsg = Some c \<Longrightarrow> c = as_class IncompleteEvidence AutoSendBack"
  by (simp add: classifyIncompleteEvidence_def split: if_splits)

lemma classifyGitBlocker_Some:
  "classifyGitBlocker errorMsg = Some c \<Longrightarrow> ec_failureClass c = GitBlockers \<and> ec_dispatchAction c = AutoRepair"
  by (auto simp: classifyGitBlocker_def as_class_def split: if_splits)

lemma classifyGateOrArtifactFailure_Some:
  "classifyGateOrArtifactFailure errorMsg = Some c \<Longrightarrow>
     ec_failureClass c \<in> {GateFailure, UnverifiableClaims, MalformedGates, MissingArtifacts} \<and>
     ec_dispatchAction c = DISPATCH_TABLE (ec_failureClass c)"
  by (auto simp: classifyGateOrArtifactFailure_def split: if_splits)

lemma classifyOperationalFailure_Some:
  "classifyOperationalFailure errorMsg = Some c \<Longrightarrow>
     ec_failureClass c \<in> {StateMachineViolation, AgentCapacity, InfraBlocker} \<and>
     ec_dispatchAction c = DISPATCH_TABLE (ec_failureClass c) \<and>
     (ec_failureClass c = AgentCapacity \<longrightarrow> explicitHumanOnlyClass errorMsg = None)"
  by (auto simp: classifyOperationalFailure_def Let_def explicitHumanOnlyClass_def split: if_splits)

lemma classifyError_table:
  "ec_dispatchAction (classifyError errorMsg v) = DISPATCH_TABLE (ec_failureClass (classifyError errorMsg v))"
  by (auto simp: classifyError_def split: option.splits
      dest: classifyIncompleteEvidence_Some classifyGitBlocker_Some classifyGateOrArtifactFailure_Some
        classifyOperationalFailure_Some)

text \<open>One table decides what is done about an error. Whatever the text and the recorded reason, the
  action \<open>classifyError\<close> returns is the table's action for the class it returns; a recognised reason
  decides the class whatever the text says; and a text with an explicit state-machine or
  infrastructure diagnostic is never taken for a usage limit of an agent.\<close>

lemma errors_follow_the_table:
  "ec_dispatchAction (classifyError errorMsg v) = DISPATCH_TABLE (ec_failureClass (classifyError errorMsg v)) \<and>
   (recognizedFailureReason v = Some code \<longrightarrow> ec_failureClass (classifyError errorMsg v) = class_of_code code) \<and>
   (recognizedFailureReason v = None \<and> explicitHumanOnlyClass errorMsg \<noteq> None \<longrightarrow>
      ec_failureClass (classifyError errorMsg v) \<noteq> AgentCapacity)"
proof (intro conjI impI)
  show "ec_dispatchAction (classifyError errorMsg v) = DISPATCH_TABLE (ec_failureClass (classifyError errorMsg v))"
    by (rule classifyError_table)
  show "ec_failureClass (classifyError errorMsg v) = class_of_code code" if "recognizedFailureReason v = Some code"
    using that by (simp add: classifyError_def)
  show "ec_failureClass (classifyError errorMsg v) \<noteq> AgentCapacity"
    if "recognizedFailureReason v = None \<and> explicitHumanOnlyClass errorMsg \<noteq> None"
    using that
    by (auto simp: classifyError_def split: option.splits
        dest: classifyIncompleteEvidence_Some classifyGitBlocker_Some classifyGateOrArtifactFailure_Some
          classifyOperationalFailure_Some)
qed

lemma usage_limit_sample: "ec_failureClass (classifyError ''quota'' Nothing_recorded) = AgentCapacity"
  by code_simp

definition quota_text :: string where
  "quota_text = ''forgejo quota''"

text \<open>A rebound stops for a human only for a cause that is there. If the classification of a reason
  is not relaunchable, the reason is an invalid locked contract, a declared gate that was rejected, a
  gate whose typed reason is infrastructure or the state machine, or its diagnostic text names such a
  blocker outside its passing test lines, or the failed check is the preparation's own. The action is
  the table's, except that a malformed gate is never repaired automatically.\<close>

lemma human_stops_have_a_cause:
  "(\<not> rb_isRelaunchable (classifyReboundReason reason) \<longrightarrow>
     (\<exists>g. reason = Gate_failure g \<and> (gr_invalidContract g \<noteq> None \<or>
        recognizedFailureReason (gr_failureReason g) \<in> {Some Infrastructure, Some State_machine})) \<or>
     (\<exists>command diagnostic. reason = Declared_gate_validation command diagnostic) \<or>
     hasExplicitHumanOnlyDiagnostic (reboundDiagnostic reason) \<or>
     (\<exists>message gateOutput. reason = Preparation_verification message gateOutput)) \<and>
   (rb_isRelaunchable (classifyReboundReason reason) \<longleftrightarrow> rb_dispatchAction (classifyReboundReason reason) \<noteq> HumanOnly) \<and>
   (rb_dispatchAction (classifyReboundReason reason) = DISPATCH_TABLE (rb_failureClass (classifyReboundReason reason)) \<or>
    rb_failureClass (classifyReboundReason reason) = MalformedGates \<and>
    rb_dispatchAction (classifyReboundReason reason) = HumanOnly)"
proof -
  have code: "class_of_code code \<in> {InfraBlocker, StateMachineViolation} \<Longrightarrow> code = Infrastructure \<or> code = State_machine"
    for code by (cases code) (simp_all add: class_of_code_def)
  have human: "DISPATCH_TABLE c = HumanOnly \<Longrightarrow> c \<in> {InfraBlocker, StateMachineViolation}" for c by (cases c) simp_all
  show ?thesis
  proof (cases reason)
    case (Gate_failure g)
    show ?thesis
    proof (cases "gr_invalidContract g = None")
      case True
      show ?thesis
      proof (cases "recognizedFailureReason (gr_failureReason g)")
        case None
        with Gate_failure True show ?thesis
          by (simp add: classifyReboundReason_def unless_human_def Let_def classifyError_table)
      next
        case (Some c)
        with Gate_failure True code[of c] human[of "class_of_code c"] show ?thesis
          by (auto simp: classifyReboundReason_def Let_def classifyError_def)
      qed
    qed (use Gate_failure in \<open>simp add: classifyReboundReason_def\<close>)
  qed (simp_all add: classifyReboundReason_def unless_human_def Let_def classifyError_table)
qed

definition sample_gate :: gate_failure_reason where
  "sample_gate = \<lparr> gr_failureReason = Nothing_recorded, gr_signal = Absent, gr_invalidContract = None,
     gr_area = ''unit'', gr_command = ''npm test'', gr_exitCode = Some 1,
     gr_stdout = ''ok 1 forbidden requests are refused'' @ newline @ ''not ok 2 sums'', gr_stderr = [], gr_error = None,
     gr_transient = None, gr_environment = None, gr_coverageNote = None, gr_approvedRevision = Absent \<rparr>"

lemma sample_gate_goes_back:
  "classifyReboundReason (Gate_failure sample_gate) = classified (Gate_failure sample_gate) GateFailure AutoSendBack"
  by code_simp


text \<open>Passing test lines are not evidence: the tests a gate ran may name what they check.\<close>

lemma split_on_line: "sep \<notin> set line \<Longrightarrow> split_on sep (line @ sep # s) = line # split_on sep s"
  by (induction line) auto

lemma split_on_whole: "sep \<notin> set line \<Longrightarrow> split_on sep line = [line]"
  by (induction line) auto

lemma split_on_lines:
  "ls \<noteq> [] \<Longrightarrow> \<forall>l\<in>set ls. sep \<notin> set l \<Longrightarrow> split_on sep (join [sep] ls) = ls"
proof (induction ls)
  case Nil
  then show ?case by simp
next
  case (Cons l ls)
  then show ?case by (cases ls) (auto simp: split_on_whole split_on_line)
qed

definition newline_free :: "string \<Rightarrow> bool" where
  "newline_free l \<longleftrightarrow> char_of (10 :: nat) \<notin> set l"

lemma failure_evidence_lines:
  assumes "ls \<noteq> []" and "\<forall>l\<in>set ls. newline_free l"
  shows "failure_evidence (join newline ls) = join newline (filter (\<lambda>line. \<not> passing_line line) ls)"
  using split_on_lines[of ls "char_of (10 :: nat)"] assms
  by (simp add: failure_evidence_def newline_def newline_free_def)

lemma no_evidence: "\<not> hasExplicitHumanOnlyDiagnostic diagnostic" if "failure_evidence diagnostic = []"
proof -
  have "explicitHumanOnlyClass [] = None" by code_simp
  with that show ?thesis by (simp add: hasExplicitHumanOnlyDiagnostic_def)
qed

lemma evidence_Nil [simp]: "failure_evidence [] = []"
  by (simp add: failure_evidence_def)

lemma same_evidence:
  assumes "failure_evidence a = failure_evidence b"
  shows "hasExplicitHumanOnlyDiagnostic a = hasExplicitHumanOnlyDiagnostic b"
proof (cases "failure_evidence a = []")
  case True
  with assms no_evidence show ?thesis by metis
next
  case False
  with assms have "a \<noteq> []" "b \<noteq> []" by auto
  with assms show ?thesis by (simp add: hasExplicitHumanOnlyDiagnostic_def)
qed

text \<open>Output of passing tests never stops a repair. Adding lines that report passing tests to a
  diagnostic, wherever they stand and whatever their titles mention, does not change whether it names
  a blocker only a human can remove.\<close>

lemma passing_tests_are_no_evidence:
  assumes "\<forall>l\<in>set before \<union> set passing \<union> set after. newline_free l" and "\<forall>l\<in>set passing. passing_line l"
    and "before @ after \<noteq> []"
  shows "hasExplicitHumanOnlyDiagnostic (join newline (before @ passing @ after)) =
    hasExplicitHumanOnlyDiagnostic (join newline (before @ after))"
proof (rule same_evidence)
  have none: "filter (\<lambda>line. \<not> passing_line line) passing = []"
    using assms(2) by (simp add: filter_empty_conv)
  have free: "\<forall>l\<in>set (before @ passing @ after). newline_free l" "\<forall>l\<in>set (before @ after). newline_free l"
    using assms(1) by auto
  have "before @ passing @ after \<noteq> []" using assms(3) by auto
  from failure_evidence_lines[OF this free(1)] failure_evidence_lines[OF assms(3) free(2)]
  show "failure_evidence (join newline (before @ passing @ after)) = failure_evidence (join newline (before @ after))"
    by (simp add: none)
qed

definition passing_title :: string where
  "passing_title = ''ok 1 forbidden''"

definition failing_title :: string where
  "failing_title = ''not ok 2''"

text \<open>What a failed process is recorded as is what is later read. A process that exited with status
  zero and no signal records nothing; any other records a reason, that reason is recognised when read
  back, is not reported as a legacy value, and decides the class by itself: infrastructure and state
  machine are for a human, a quota is for another agent, everything else goes back to the
  implementer.\<close>

lemma recorded_reasons_are_read:
  "(gateFailureReasonFromProcess input = None \<longleftrightarrow> pc_status input = Some 0 \<and> default_to [] (pc_signal input) = []) \<and>
   recognizedFailureReason (reason_of_code code) = Some code \<and> legacyFailureReason (reason_of_code code) = None \<and>
   ec_dispatchAction (classifyError errorMsg (reason_of_code code)) =
     (if code = Infrastructure \<or> code = State_machine then HumanOnly
      else if code = Agent_quota then AutoRepair else AutoSendBack)"
proof -
  have r: "recognizedFailureReason (reason_of_code code) = Some code"
    by (cases code) (simp_all add: recognizedFailureReason_def reason_of_code_def FAILURE_REASON_CODES_def)
  then have "legacyFailureReason (reason_of_code code) = None" by (simp add: legacyFailureReason_def)
  moreover have "ec_dispatchAction (classifyError errorMsg (reason_of_code code)) =
     (if code = Infrastructure \<or> code = State_machine then HumanOnly
      else if code = Agent_quota then AutoRepair else AutoSendBack)"
    using r by (cases code) (simp_all add: classifyError_def class_of_code_def)
  moreover have "gateFailureReasonFromProcess input = None \<longleftrightarrow>
      pc_status input = Some 0 \<and> default_to [] (pc_signal input) = []"
    by (auto simp: gateFailureReasonFromProcess_def Let_def)
  ultimately show ?thesis using r by blast
qed

end
