(* ===== verification/ReboundLoop.thy ===== *)
theory ReboundLoop
  imports Failures ApprovalCoverage
begin

text \<open>
  Sending a failed check back to the implementer: the repair loop of \<open>src/src/application/rebound-kernel.ts\<close> with
  the launch results of \<open>rebound-launch-result.ts\<close> and the checkpoints of \<open>rebound-checkpoints.ts\<close>, over the
  policy of \<open>Failures\<close>.

  What the ports answer during one launch is one \<open>repair_round\<close>, and the loop takes the rounds in order; an answer
  that may throw is \<open>Inl\<close> with the error. Reading the head, the fallback port and the telemetry are taken to
  answer. A diagnostic carries what it is made of and not its English text; prompts, dossiers, evidence files and log lines are
  not modelled.
\<close>

section \<open>Launch results\<close>

datatype stop_text =
    Observed string
  | Blocker contract_blocker
  | Launch_error string string
  | Launch_failed string launch_failure bool
  | Exit_unknown string
  | Exit_status string int
  | Persistence_failed string
  | Blocker_unreadable string
  | Unrelated_check "string option" string
  | Check_blocked string
  | Raised string

record fix_launch =
  lx_ok :: bool
  lx_implementer :: string
  lx_diagnostic :: stop_text
  lx_repairAttempted :: bool
  lx_provider :: "string option"
  lx_model :: "string option"
  lx_invalidContract :: "contract_blocker option"
  lx_launchFailure :: "launch_failure option"
  lx_deterministic :: bool

record launch_report = spawn_result +
  lq_invalidContract :: "contract_blocker option"
  lq_provider :: "string option"
  lq_model :: "string option"

definition failed_launch :: "string \<Rightarrow> stop_text \<Rightarrow> fix_launch" where
  "failed_launch implementer diagnostic =
     \<lparr> lx_ok = False, lx_implementer = implementer, lx_diagnostic = diagnostic, lx_repairAttempted = False,
       lx_provider = None, lx_model = None, lx_invalidContract = None, lx_launchFailure = None, lx_deterministic = False \<rparr>"

definition launchStatus :: "launch_report option \<Rightarrow> string \<Rightarrow> fix_launch" where
  "launchStatus report implementer =
     (case Option.bind report lq_invalidContract of
        Some blocker \<Rightarrow> (failed_launch implementer (Blocker blocker))
          \<lparr>lx_repairAttempted := True, lx_invalidContract := Some blocker\<rparr>
      | None \<Rightarrow>
          (case Option.bind report sr_status of
             None \<Rightarrow>
               (case launchFailureOf (map_option spawn_result.truncate report) of
                  Some f \<Rightarrow> (failed_launch implementer (Launch_failed implementer f (isDeterministicLaunchFailure f)))
                    \<lparr>lx_launchFailure := Some f, lx_deterministic := isDeterministicLaunchFailure f\<rparr>
                | None \<Rightarrow> failed_launch implementer (Exit_unknown implementer))
           | Some status \<Rightarrow>
               (failed_launch implementer (if status = 0 then Observed [] else Exit_status implementer status))
                 \<lparr>lx_ok := (status = 0), lx_repairAttempted := True,
                  lx_provider := Option.bind report lq_provider, lx_model := Option.bind report lq_model\<rparr>))"

text \<open>\<open>Inl\<close> is what \<open>startAgent\<close> threw; the fallback port names another implementer, or none.\<close>

definition launchFixAttempt :: "string + launch_report option \<Rightarrow> string \<Rightarrow> string \<Rightarrow> fix_launch" where
  "launchFixAttempt started fallback implementer =
     (case started of
        Inl message \<Rightarrow> failed_launch implementer (Launch_error implementer message)
      | Inr report \<Rightarrow> launchStatus report (if fallback = [] then implementer else fallback))"

section \<open>Failures between attempts\<close>

record verify_result =
  vy_ok :: bool
  vy_workflowBlock :: "string option"
  vy_command :: "string option"
  vy_diagnostic :: "string option"
  vy_reason :: "rebound_reason option"

text \<open>\<open>result.diagnostic || previous\<close>.\<close>

definition fresh_text :: "verify_result \<Rightarrow> string \<Rightarrow> string" where
  "fresh_text result previous = (if default_to [] (vy_diagnostic result) = [] then previous else the (vy_diagnostic result))"

definition fresh_option :: "verify_result \<Rightarrow> string option \<Rightarrow> string option" where
  "fresh_option result previous = (if default_to [] (vy_diagnostic result) = [] then previous else vy_diagnostic result)"

definition refreshedReason :: "rebound_reason \<Rightarrow> verify_result \<Rightarrow> rebound_reason" where
  "refreshedReason previous result =
     (case vy_reason result of
        Some reason \<Rightarrow> reason
      | None \<Rightarrow>
          (case previous of
             Gate_failure g \<Rightarrow> Gate_failure (g\<lparr>gr_failureReason := Nothing_recorded, gr_signal := Absent,
               gr_stdout := fresh_text result (gr_stdout g), gr_stderr := [], gr_error := None\<rparr>)
           | Preparation_verification message output \<Rightarrow> Preparation_verification message (fresh_option result output)
           | Declared_gate_validation command diagnostic \<Rightarrow> Declared_gate_validation command (fresh_text result diagnostic)
           | Artifact_incomplete role diagnostic \<Rightarrow> Artifact_incomplete role (fresh_text result diagnostic)
           | Rebase_conflict files diagnostic \<Rightarrow> Rebase_conflict files (fresh_text result diagnostic)
           | Agent_timeout role diagnostic expected \<Rightarrow> Agent_timeout role (fresh_option result diagnostic) expected
           | Hook_failure hook operation output \<Rightarrow> Hook_failure hook operation (fresh_text result output)))"

definition failureFingerprint :: "rebound_reason \<Rightarrow> string" where
  "failureFingerprint reason =
     (case reason of
        Gate_failure g \<Rightarrow> ''gate-failure:'' @ gr_area g @ '':'' @ gr_command g @ '':'' @
          (case gr_exitCode g of None \<Rightarrow> ''null'' | Some n \<Rightarrow> int_text n) @ '':'' @ reboundDiagnostic reason
      | Declared_gate_validation command _ \<Rightarrow> ''declared-gate-validation:'' @ command @ '':'' @ reboundDiagnostic reason
      | Hook_failure hook operation output \<Rightarrow>
          ''hook-failure:'' @ default_to ''null'' hook @ '':'' @ default_to [] operation @ '':'' @ output
      | Rebase_conflict _ _ \<Rightarrow> ''rebase-conflict:'' @ reboundDiagnostic reason
      | Artifact_incomplete _ _ \<Rightarrow> ''artifact-incomplete:'' @ reboundDiagnostic reason
      | Agent_timeout _ _ _ \<Rightarrow> ''agent-timeout:'' @ reboundDiagnostic reason
      | Preparation_verification _ _ \<Rightarrow> ''review-preparation-verification:'' @ reboundDiagnostic reason)"

datatype repair_strategy = Targeted | Fresh_diagnostic

definition repairStrategy :: "int \<Rightarrow> repair_strategy" where
  "repairStrategy _ = Fresh_diagnostic"

datatype repair_result = Result_pass | Result_rescue | Result_advance | Result_escalate

definition attemptOutcome :: "bool \<Rightarrow> repair_strategy \<Rightarrow> bool \<Rightarrow> repair_result" where
  "attemptOutcome ok strategy canRetry =
     (if ok then (if strategy = Targeted then Result_pass else Result_rescue)
      else if canRetry then Result_advance else Result_escalate)"

fun reasonArea :: "rebound_reason \<Rightarrow> string option" where
  "reasonArea (Gate_failure g) = Some (gr_area g)"
| "reasonArea (Hook_failure hook _ _) = hook"
| "reasonArea (Artifact_incomplete role _) = Some role"
| "reasonArea (Agent_timeout role _ _) = Some role"
| "reasonArea _ = None"

section \<open>The state of an occurrence\<close>

record repair_evidence =
  rq_strategy :: repair_strategy
  rq_agent :: string
  rq_fresh :: bool
  rq_headBefore :: "string option"
  rq_headAfter :: "string option"
  rq_fingerprintBefore :: string
  rq_fingerprintAfter :: string

record attempt_report =
  rt_attempt :: int
  rt_maxAttempts :: int
  rt_area :: "string option"
  rt_detail :: repair_evidence
  rt_provider :: "string option"
  rt_model :: "string option"
  rt_outcome :: repair_result

text \<open>The reports and events are what the telemetry ports were told, in order.\<close>

record rebound_state =
  rl_implementer :: string
  rl_reason :: rebound_reason
  rl_classification :: rebound_classification
  rl_diagnostic :: stop_text
  rl_history :: "string list"
  rl_launchFailures :: int
  rl_attempts :: int
  rl_attemptsDetail :: "repair_evidence list"
  rl_launchFailure :: "launch_failure option"
  rl_reports :: "attempt_report list"
  rl_events :: "(repair_strategy \<times> repair_result) list"

datatype rebound_kind = Kind_fixed | Kind_exhausted | Kind_human

record rebound_outcome =
  rn_outcome :: rebound_kind
  rn_attempts :: int
  rn_diagnostic :: stop_text
  rn_classification :: rebound_classification
  rn_implementer :: string
  rn_attemptsDetail :: "repair_evidence list option"
  rn_launchFailure :: "launch_failure option"

record rebound_options =
  xo_maxAttempts :: int
  xo_maxTransientRetries :: int
  xo_maxLaunchRetries :: int
  xo_inspectFailedRepair :: bool
  xo_ownPrompt :: bool

record repair_round =
  xr_opened :: "string + string option"
  xr_transition :: "string option"
  xr_headBefore :: "string option"
  xr_started :: "string + launch_report option"
  xr_fallback :: string
  xr_blocker :: "string + contract_blocker option"
  xr_verified :: "string + verify_result"
  xr_certified :: "string option"
  xr_inspected :: "string + verify_result"
  xr_headAfter :: "string option"

definition initial_rebound :: "rebound_reason \<Rightarrow> string \<Rightarrow> rebound_state" where
  "initial_rebound reason implementer =
     \<lparr> rl_implementer = implementer, rl_reason = reason, rl_classification = classifyReboundReason reason,
       rl_diagnostic = Observed (reboundDiagnostic reason), rl_history = [failureFingerprint reason], rl_launchFailures = 0,
       rl_attempts = 0, rl_attemptsDetail = [], rl_launchFailure = None, rl_reports = [], rl_events = [] \<rparr>"

definition refreshReboundState :: "rebound_state \<Rightarrow> verify_result \<Rightarrow> rebound_state" where
  "refreshReboundState state result =
     (let reason = refreshedReason (rl_reason state) result in
      state\<lparr>rl_reason := reason, rl_diagnostic := Observed (reboundDiagnostic reason),
        rl_classification := classifyReboundReason reason, rl_history := rl_history state @ [failureFingerprint reason]\<rparr>)"

definition stopped_outcome :: "rebound_kind \<Rightarrow> rebound_state \<Rightarrow> rebound_outcome" where
  "stopped_outcome kind state =
     \<lparr> rn_outcome = kind, rn_attempts = rl_attempts state, rn_diagnostic = rl_diagnostic state,
       rn_classification = rl_classification state, rn_implementer = rl_implementer state,
       rn_attemptsDetail = Some (rl_attemptsDetail state), rn_launchFailure = rl_launchFailure state \<rparr>"

definition humanOnlyOutcome :: "rebound_state \<Rightarrow> rebound_outcome" where
  "humanOnlyOutcome state = stopped_outcome Kind_human state"

definition stop_state :: "rebound_state \<Rightarrow> stop_text \<Rightarrow> rebound_state" where
  "stop_state state diagnostic = state\<lparr>rl_diagnostic := diagnostic, rl_classification := (rl_classification state)
     \<lparr>rb_dispatchAction := HumanOnly, rb_isRelaunchable := False\<rparr>\<rparr>"

definition stopRepair :: "rebound_state \<Rightarrow> stop_text \<Rightarrow> rebound_outcome" where
  "stopRepair state diagnostic = humanOnlyOutcome (stop_state state diagnostic)"

definition recordAttemptTelemetry ::
  "rebound_options \<Rightarrow> int \<Rightarrow> repair_evidence \<Rightarrow> fix_launch \<Rightarrow> verify_result option \<Rightarrow> rebound_state \<Rightarrow> rebound_state" where
  "recordAttemptTelemetry options attempt detail launch verified state =
     (let reason = (case verified of None \<Rightarrow> rl_reason state | Some v \<Rightarrow> refreshedReason (rl_reason state) v);
          canRetry = (attempt < xo_maxAttempts options \<and> rb_isRelaunchable (classifyReboundReason reason)) in
      state\<lparr>rl_reports := rl_reports state @ [\<lparr> rt_attempt = attempt, rt_maxAttempts = xo_maxAttempts options,
        rt_area = reasonArea (rl_reason state), rt_detail = detail, rt_provider = lx_provider launch, rt_model = lx_model launch,
        rt_outcome = attemptOutcome (case verified of None \<Rightarrow> False | Some v \<Rightarrow> vy_ok v) (rq_strategy detail) canRetry \<rparr>]\<rparr>)"

definition recordRepairTelemetry :: "repair_strategy \<Rightarrow> repair_result \<Rightarrow> rebound_state \<Rightarrow> rebound_state" where
  "recordRepairTelemetry strategy result state = state\<lparr>rl_events := rl_events state @ [(strategy, result)]\<rparr>"

section \<open>One attempt\<close>

text \<open>Which launches work under a repair checkpoint; \<open>Inl\<close> when opening it or rendering the prompt throws.\<close>

definition reviewer_output :: "rebound_reason \<Rightarrow> bool" where
  "reviewer_output reason =
     (case reason of Agent_timeout role _ _ \<Rightarrow> role = ''reviewer'' | Artifact_incomplete role _ \<Rightarrow> role = ''reviewer'' | _ \<Rightarrow> False)"

definition prepareRepairPrompt :: "rebound_options \<Rightarrow> rebound_reason \<Rightarrow> string + string option \<Rightarrow> string + string option" where
  "prepareRepairPrompt options reason opened =
     map_sum id (\<lambda>name. if xo_ownPrompt options \<or> reviewer_output reason then None else name) opened"

definition handleLaunchResult :: "rebound_state \<Rightarrow> fix_launch \<Rightarrow> int \<Rightarrow> launch_action \<times> rebound_state" where
  "handleLaunchResult state launch maxRetries =
     (let state = (if lx_launchFailure launch \<noteq> None then state\<lparr>rl_launchFailure := lx_launchFailure launch\<rparr> else state);
          action = launchRecoveryAction (lx_ok launch) (lx_repairAttempted launch) (rl_attempts state) (rl_launchFailures state)
            maxRetries (lx_deterministic launch) in
      (action, case action of
         Verify \<Rightarrow> state\<lparr>rl_attempts := rl_attempts state + 1\<rparr>
       | Skip \<Rightarrow> state\<lparr>rl_diagnostic := lx_diagnostic launch, rl_attempts := rl_attempts state + 1\<rparr>
       | _ \<Rightarrow> state\<lparr>rl_diagnostic := lx_diagnostic launch, rl_launchFailures := rl_launchFailures state + 1\<rparr>))"

definition repairBlockerOutcome ::
  "rebound_state \<Rightarrow> string option \<Rightarrow> string + contract_blocker option \<Rightarrow> fix_launch \<Rightarrow> (rebound_state \<times> stop_text) option" where
  "repairBlockerOutcome state checkpoint answer launch =
     (case (case lx_invalidContract launch of Some b \<Rightarrow> Inr (Some b) | None \<Rightarrow> if checkpoint = None then Inr None else answer) of
        Inl cause \<Rightarrow> Some (state, Blocker_unreadable cause)
      | Inr None \<Rightarrow> None
      | Inr (Some blocker) \<Rightarrow>
          Some ((if lx_repairAttempted launch then state\<lparr>rl_attempts := rl_attempts state + 1\<rparr> else state), Blocker blocker))"

text \<open>How a round of the loop ends: with the next attempt, with the same attempt again, by leaving the loop, with
  an outcome, or with an error that leaves the kernel.\<close>

datatype round_end =
    Next rebound_state
  | Again rebound_state
  | Break_off rebound_state
  | Ended rebound_state rebound_outcome
  | Threw string

definition evidence_of :: "rebound_state \<Rightarrow> repair_round \<Rightarrow> int \<Rightarrow> string \<Rightarrow> string \<Rightarrow> repair_evidence" where
  "evidence_of state rnd attempt before after =
     \<lparr> rq_strategy = repairStrategy attempt, rq_agent = rl_implementer state, rq_fresh = True, rq_headBefore = xr_headBefore rnd,
       rq_headAfter = xr_headAfter rnd, rq_fingerprintBefore = before, rq_fingerprintAfter = after \<rparr>"

definition recordSpentLaunch ::
  "rebound_options \<Rightarrow> repair_round \<Rightarrow> int \<Rightarrow> string \<Rightarrow> fix_launch \<Rightarrow> rebound_state \<Rightarrow> round_end" where
  "recordSpentLaunch options rnd attempt before launch state =
     (case (if xo_inspectFailedRepair options then map_sum id (refreshReboundState state) (xr_inspected rnd) else Inr state) of
        Inl cause \<Rightarrow> Threw cause
      | Inr state \<Rightarrow> Next (recordAttemptTelemetry options attempt (evidence_of state rnd attempt before before) launch None state))"

definition finishVerifiedRepair ::
  "rebound_options \<Rightarrow> repair_round \<Rightarrow> int \<Rightarrow> string \<Rightarrow> fix_launch \<Rightarrow> verify_result \<Rightarrow> rebound_state \<Rightarrow> round_end" where
  "finishVerifiedRepair options rnd attempt before launch verified state =
     (let detail = evidence_of state rnd attempt before
            (if vy_ok verified then before else failureFingerprint (refreshedReason (rl_reason state) verified));
          recorded = recordAttemptTelemetry options attempt detail launch (Some verified)
            (state\<lparr>rl_attemptsDetail := rl_attemptsDetail state @ [detail]\<rparr>) in
      if vy_ok verified
      then let final = recordRepairTelemetry (repairStrategy attempt) Result_rescue recorded in
        Ended final ((stopped_outcome Kind_fixed final)\<lparr>rn_diagnostic := Observed (default_to [] (vy_diagnostic verified)),
          rn_launchFailure := None\<rparr>)
      else let refreshed = refreshReboundState recorded verified;
               told = (if attempt < xo_maxAttempts options \<and> rb_isRelaunchable (rl_classification refreshed)
                 then recordRepairTelemetry (repairStrategy attempt) Result_advance refreshed else refreshed) in
        if reboundRequiresHuman (rl_reason told) (rl_classification told) False then Break_off told else Next told)"

definition verified_round ::
  "rebound_options \<Rightarrow> repair_round \<Rightarrow> int \<Rightarrow> string \<Rightarrow> string option \<Rightarrow> fix_launch \<Rightarrow> rebound_state \<Rightarrow> round_end" where
  "verified_round options rnd attempt before checkpoint launch state =
     (let stop = (\<lambda>text. Ended (stop_state state text) (stopRepair state text)) in
      case xr_verified rnd of
        Inl cause \<Rightarrow> stop (Raised cause)
      | Inr verified \<Rightarrow>
          (case vy_workflowBlock verified of
             Some block \<Rightarrow> stop (Check_blocked block)
           | None \<Rightarrow>
               (case differentGateVerification (rl_reason state) (vy_ok verified) (vy_command verified) (checkpoint \<noteq> None) of
                  Some original \<Rightarrow> stop (Unrelated_check (vy_command verified) original)
                | None \<Rightarrow>
                    if repairVerificationRequiresHuman (vy_reason verified)
                    then let detail = evidence_of state rnd attempt before
                               (failureFingerprint (refreshedReason (rl_reason state) verified));
                             final = refreshReboundState (recordAttemptTelemetry options attempt detail launch (Some verified)
                               (state\<lparr>rl_attemptsDetail := rl_attemptsDetail state @ [detail]\<rparr>)) verified in
                      Ended final (humanOnlyOutcome final)
                    else (case (if vy_ok verified \<and> checkpoint \<noteq> None then xr_certified rnd else None) of
                        Some cause \<Rightarrow> stop (Raised cause)
                      | None \<Rightarrow> finishVerifiedRepair options rnd attempt before launch verified state))))"

definition repair_step :: "rebound_options \<Rightarrow> repair_round \<Rightarrow> int \<Rightarrow> rebound_state \<Rightarrow> round_end" where
  "repair_step options rnd attempt state =
     (case prepareRepairPrompt options (rl_reason state) (xr_opened rnd) of
        Inl cause \<Rightarrow> Ended (stop_state state (Persistence_failed cause)) (stopRepair state (Persistence_failed cause))
      | Inr checkpoint \<Rightarrow>
          (case xr_transition rnd of
             Some cause \<Rightarrow> Threw cause
           | None \<Rightarrow>
               let before = failureFingerprint (rl_reason state);
                   launch = launchFixAttempt (xr_started rnd) (xr_fallback rnd) (rl_implementer state);
                   launched = state\<lparr>rl_implementer := lx_implementer launch\<rparr> in
               case repairBlockerOutcome launched checkpoint (xr_blocker rnd) launch of
                 Some (stopped, text) \<Rightarrow> Ended (stop_state stopped text) (stopRepair stopped text)
               | None \<Rightarrow>
                   (case handleLaunchResult launched launch (xo_maxLaunchRetries options) of
                      (Retry, handled) \<Rightarrow> Again handled
                    | (Skip, handled) \<Rightarrow> recordSpentLaunch options rnd attempt before launch handled
                    | (Stop, handled) \<Rightarrow> Break_off handled
                    | (Verify, handled) \<Rightarrow> verified_round options rnd attempt before checkpoint launch handled)))"

section \<open>The loop\<close>

lemma handle_retry:
  assumes "handleLaunchResult state launch maxRetries = (Retry, handled)"
  shows "rl_launchFailures handled = rl_launchFailures state + 1 \<and> rl_launchFailures handled \<le> maxRetries \<and>
    rl_attempts handled = rl_attempts state"
  using assms by (auto simp: handleLaunchResult_def launchRecoveryAction_def Let_def split: if_splits)

lemma handle_proceeds:
  assumes "handleLaunchResult state launch maxRetries = (action, handled)"
  shows "action \<in> {Verify, Skip} \<Longrightarrow> rl_launchFailures handled = rl_launchFailures state \<and> rl_attempts handled = rl_attempts state + 1"
    and "action = Stop \<Longrightarrow> rl_attempts handled = rl_attempts state"
    and "action = Verify \<Longrightarrow> lx_ok launch \<and> rl_reason handled = rl_reason state"
  using assms by (auto simp: handleLaunchResult_def launchRecoveryAction_def Let_def split: if_splits launch_action.splits)

lemma telemetry_keeps [simp]:
  "rl_launchFailures (recordAttemptTelemetry options attempt detail launch verified s) = rl_launchFailures s"
  "rl_attempts (recordAttemptTelemetry options attempt detail launch verified s) = rl_attempts s"
  "rl_reason (recordAttemptTelemetry options attempt detail launch verified s) = rl_reason s"
  "rl_launchFailures (recordRepairTelemetry strategy result s) = rl_launchFailures s"
  "rl_attempts (recordRepairTelemetry strategy result s) = rl_attempts s"
  "rl_reason (recordRepairTelemetry strategy result s) = rl_reason s"
  "rl_launchFailures (refreshReboundState s v) = rl_launchFailures s"
  "rl_attempts (refreshReboundState s v) = rl_attempts s"
  by (simp_all add: recordAttemptTelemetry_def recordRepairTelemetry_def refreshReboundState_def Let_def)

text \<open>Every way a round ends, with what it leaves of the two budgets.\<close>

lemma spent_budget:
  assumes "recordSpentLaunch options rnd attempt before launch s = e"
  shows "(\<exists>t. e = Next t \<and> rl_launchFailures t = rl_launchFailures s \<and> rl_attempts t = rl_attempts s) \<or> (\<exists>c. e = Threw c)"
  using assms by (cases "xr_inspected rnd") (auto simp: recordSpentLaunch_def split: if_splits)

lemma finish_budget:
  assumes "finishVerifiedRepair options rnd attempt before launch v s = e"
  shows "(\<exists>t. (e = Next t \<or> e = Break_off t) \<and> \<not> vy_ok v \<and> rl_launchFailures t = rl_launchFailures s \<and> rl_attempts t = rl_attempts s) \<or>
    (\<exists>t out. e = Ended t out \<and> vy_ok v \<and> rn_outcome out = Kind_fixed \<and> rn_attempts out = rl_attempts s \<and> rl_reason t = rl_reason s)"
  using assms by (auto simp: finishVerifiedRepair_def stopped_outcome_def Let_def split: if_splits)

lemma stop_outcome [simp]: "rn_outcome (stopRepair s text) = Kind_human" "rn_attempts (stopRepair s text) = rl_attempts s"
  by (simp_all add: stopRepair_def humanOnlyOutcome_def stopped_outcome_def stop_state_def)


lemma step_budget:
  assumes "repair_step options rnd attempt s = e"
  shows "case e of
      Next t \<Rightarrow> rl_launchFailures t = rl_launchFailures s \<and> rl_attempts t = rl_attempts s + 1
    | Again t \<Rightarrow> rl_launchFailures t = rl_launchFailures s + 1 \<and> rl_launchFailures t \<le> xo_maxLaunchRetries options \<and>
        rl_attempts t = rl_attempts s
    | Break_off t \<Rightarrow> rl_attempts t \<le> rl_attempts s + 1
    | Ended t out \<Rightarrow> rn_attempts out \<le> rl_attempts s + 1 \<and> (rn_outcome out = Kind_fixed \<longrightarrow>
        rn_attempts out = rl_attempts s + 1 \<and> (\<exists>v. xr_verified rnd = Inr v \<and> vy_ok v \<and> vy_workflowBlock v = None \<and>
          (\<forall>g. rl_reason t = Gate_failure g \<longrightarrow> default_to [] (vy_command v) \<noteq> [] \<longrightarrow> vy_command v = Some (gr_command g))) \<and>
          lx_ok (launchFixAttempt (xr_started rnd) (xr_fallback rnd) (rl_implementer s)))
    | Threw cause \<Rightarrow> True"
proof -
  let ?launch = "launchFixAttempt (xr_started rnd) (xr_fallback rnd) (rl_implementer s)"
  let ?s = "s\<lparr>rl_implementer := lx_implementer ?launch\<rparr>"
  let ?before = "failureFingerprint (rl_reason s)"
  show ?thesis
  proof (cases "prepareRepairPrompt options (rl_reason s) (xr_opened rnd)")
    case (Inl cause)
    then show ?thesis using assms by (auto simp: repair_step_def)
  next
    case prepared: (Inr checkpoint)
    show ?thesis
    proof (cases "xr_transition rnd")
      case (Some cause)
      then show ?thesis using assms prepared by (auto simp: repair_step_def)
    next
      case None
      note step = assms[unfolded repair_step_def prepared None, simplified, unfolded Let_def]
      show ?thesis
      proof (cases "repairBlockerOutcome ?s checkpoint (xr_blocker rnd) ?launch")
        case (Some stopped)
        then show ?thesis using step
          by (auto simp: repairBlockerOutcome_def split: option.splits sum.splits if_splits)
      next
        case unblocked: None
        obtain action handled where h: "handleLaunchResult ?s ?launch (xo_maxLaunchRetries options) = (action, handled)" by fastforce
        note proceeds = handle_proceeds[OF h]
        show ?thesis
        proof (cases action)
          case Retry
          then show ?thesis using step unblocked h handle_retry[of ?s ?launch "xo_maxLaunchRetries options" handled] by auto
        next
          case Stop
          then show ?thesis using step unblocked h proceeds(2) by auto
        next
          case Skip
          then have "recordSpentLaunch options rnd attempt ?before ?launch handled = e" using step unblocked h by simp
          from spent_budget[OF this] show ?thesis using proceeds(1) Skip by auto
        next
          case Verify
          then have v: "verified_round options rnd attempt ?before checkpoint ?launch handled = e" using step unblocked h by simp
          have kept: "rl_launchFailures handled = rl_launchFailures s" "rl_attempts handled = rl_attempts s + 1"
            "lx_ok ?launch" "rl_reason handled = rl_reason s" using proceeds Verify by simp_all
          show ?thesis
          proof (cases "xr_verified rnd")
            case (Inl cause)
            then show ?thesis using v kept by (auto simp: verified_round_def)
          next
            case verified: (Inr verified)
            show ?thesis
            proof (cases "vy_workflowBlock verified")
              case (Some block)
              then show ?thesis using v kept verified by (auto simp: verified_round_def)
            next
              case open_block: None
              show ?thesis
              proof (cases "differentGateVerification (rl_reason handled) (vy_ok verified) (vy_command verified) (checkpoint \<noteq> None)")
                case (Some original)
                then show ?thesis using v kept verified open_block by (auto simp: verified_round_def)
              next
                case same: None
                show ?thesis
                proof (cases "repairVerificationRequiresHuman (vy_reason verified)")
                  case True
                  then show ?thesis using v kept verified open_block same
                    by (auto simp: verified_round_def humanOnlyOutcome_def stopped_outcome_def Let_def)
                next
                  case False
                  show ?thesis
                  proof (cases "if vy_ok verified \<and> checkpoint \<noteq> None then xr_certified rnd else None")
                    case (Some cause)
                    then show ?thesis using v kept verified open_block same False by (auto simp: verified_round_def)
                  next
                    case None
                    then have "finishVerifiedRepair options rnd attempt ?before ?launch verified handled = e"
                      using v verified open_block same False by (simp add: verified_round_def Let_def)
                    from finish_budget[OF this] show ?thesis using kept verified open_block same
                      by (auto simp: differentGateVerification_def split: if_splits)
                  qed
                qed
              qed
            qed
          qed
        qed
      qed
    qed
  qed
qed

text \<open>A round is the launch of one agent. A retry of a launch keeps the attempt, and there are only as many as the
  budget of launch retries.\<close>

function repair_attempts ::
  "rebound_options \<Rightarrow> (nat \<Rightarrow> repair_round) \<Rightarrow> nat \<Rightarrow> int \<Rightarrow> rebound_state \<Rightarrow>
    string + rebound_outcome option \<times> rebound_state \<times> nat" where
  "repair_attempts options world made attempt state =
     (if \<not> repairBudgetAllows attempt (xo_maxAttempts options) then Inr (None, state, made)
      else (case repair_step options (world made) attempt state of
          Next after \<Rightarrow> repair_attempts options world (Suc made) (attempt + 1) after
        | Again after \<Rightarrow> repair_attempts options world (Suc made) attempt after
        | Break_off after \<Rightarrow> Inr (None, after, Suc made)
        | Ended after outcome \<Rightarrow> Inr (Some outcome, after, Suc made)
        | Threw cause \<Rightarrow> Inl cause))"
  by pat_completeness auto
termination
proof (relation "measure (\<lambda>(options, _, _, attempt, state).
    nat (xo_maxAttempts options + 1 - attempt) + nat (xo_maxLaunchRetries options - rl_launchFailures state))", goal_cases)
  case (2 options world made attempt state after)
  then show ?case using step_budget[OF 2(2)] by (simp add: repairBudgetAllows_def)
next
  case (3 options world made attempt state after)
  then show ?case using step_budget[OF 3(2)] by simp
qed simp

declare repair_attempts.simps [simp del]

text \<open>The reruns of a transient check before any launch.\<close>

function retryTransientVerification ::
  "(nat \<Rightarrow> string + verify_result) \<Rightarrow> int \<Rightarrow> nat \<Rightarrow> int \<Rightarrow> rebound_state \<Rightarrow> string + rebound_outcome option \<times> rebound_state" where
  "retryTransientVerification reruns retries made attempt state =
     (if \<not> transientRetryAllowed (rl_reason state) attempt retries then Inr (None, state)
      else (case reruns made of
          Inl cause \<Rightarrow> Inl cause
        | Inr result \<Rightarrow>
            if vy_ok result
            then Inr (Some \<lparr> rn_outcome = Kind_fixed, rn_attempts = 0, rn_diagnostic = Observed (default_to [] (vy_diagnostic result)),
              rn_classification = rl_classification state, rn_implementer = rl_implementer state, rn_attemptsDetail = None,
              rn_launchFailure = None \<rparr>, state)
            else retryTransientVerification reruns retries (Suc made) (attempt + 1) (refreshReboundState state result)))"
  by pat_completeness auto
termination
  by (relation "measure (\<lambda>(_, retries, _, attempt, _). nat (retries + 1 - attempt))") (auto simp: transientRetryAllowed_def)

declare retryTransientVerification.simps [simp del]

text \<open>The kernel; the number is how many agents it launched.\<close>

definition reboundImpl ::
  "rebound_options \<Rightarrow> (nat \<Rightarrow> string + verify_result) \<Rightarrow> (nat \<Rightarrow> repair_round) \<Rightarrow> rebound_reason \<Rightarrow> string \<Rightarrow>
    string + rebound_outcome \<times> rebound_state \<times> nat" where
  "reboundImpl options reruns world reason implementer =
     (let state = initial_rebound reason implementer in
      if reboundRequiresHuman (rl_reason state) (rl_classification state) False then Inr (humanOnlyOutcome state, state, 0)
      else try_bind (retryTransientVerification reruns (xo_maxTransientRetries options) 0 1 state) (\<lambda>(fixed_outcome, state).
        case fixed_outcome of
          Some outcome \<Rightarrow> Inr (outcome, state, 0)
        | None \<Rightarrow>
            if reboundRequiresHuman (rl_reason state) (rl_classification state) True then Inr (humanOnlyOutcome state, state, 0)
            else try_bind (repair_attempts options world 0 1 state) (\<lambda>(repaired, state, made).
              case repaired of
                Some outcome \<Rightarrow> Inr (outcome, state, made)
              | None \<Rightarrow>
                  let state = recordRepairTelemetry
                        (if rl_attemptsDetail state = [] then Fresh_diagnostic else rq_strategy (last (rl_attemptsDetail state)))
                        Result_escalate state in
                  Inr (stopped_outcome Kind_exhausted state, state, made))))"

section \<open>Bounds of the loop\<close>

lemma attempts_made:
  "repair_attempts options world made attempt s = Inr (out, t, n) \<Longrightarrow>
    n \<le> made + nat (xo_maxAttempts options + 1 - attempt) + nat (xo_maxLaunchRetries options - rl_launchFailures s)"
proof (induction options world made attempt s rule: repair_attempts.induct)
  case (1 options world made attempt s)
  show ?case
  proof (cases "repairBudgetAllows attempt (xo_maxAttempts options)")
    case False
    then show ?thesis using 1(3) by (simp add: repair_attempts.simps)
  next
    case True
    note run = 1(3)[unfolded repair_attempts.simps[of options world made attempt s]] and budget = step_budget[of options "world made" attempt s, OF refl]
    show ?thesis
    proof (cases "repair_step options (world made) attempt s")
      case (Next after)
      then show ?thesis using 1(1)[OF _ Next] True run budget by (auto simp: repairBudgetAllows_def)
    next
      case (Again after)
      then show ?thesis using 1(2)[OF _ Again] True run budget by auto
    qed (use True run in \<open>auto simp: repairBudgetAllows_def\<close>)
  qed
qed

lemma attempts_counted:
  "repair_attempts options world made attempt s = Inr (out, t, n) \<Longrightarrow> rl_attempts s = attempt - 1 \<Longrightarrow> 1 \<le> attempt \<Longrightarrow>
    (case out of
       None \<Rightarrow> rl_attempts t \<le> max (attempt - 1) (xo_maxAttempts options)
     | Some outcome \<Rightarrow> rn_attempts outcome \<le> xo_maxAttempts options \<and> (rn_outcome outcome = Kind_fixed \<longrightarrow>
         1 \<le> rn_attempts outcome \<and> (\<exists>k v. n = Suc k \<and> xr_verified (world k) = Inr v \<and> vy_ok v \<and> vy_workflowBlock v = None \<and>
           (\<forall>g. rl_reason t = Gate_failure g \<longrightarrow> default_to [] (vy_command v) \<noteq> [] \<longrightarrow> vy_command v = Some (gr_command g)) \<and>
           (\<exists>agent. lx_ok (launchFixAttempt (xr_started (world k)) (xr_fallback (world k)) agent)))))"
proof (induction options world made attempt s rule: repair_attempts.induct)
  case (1 options world made attempt s)
  show ?case
  proof (cases "repairBudgetAllows attempt (xo_maxAttempts options)")
    case False
    then show ?thesis using 1(3,4) by (auto simp: repair_attempts.simps)
  next
    case True
    note run = 1(3)[unfolded repair_attempts.simps[of options world made attempt s]] and budget = step_budget[of options "world made" attempt s, OF refl]
    have le: "attempt \<le> xo_maxAttempts options" using True by (simp add: repairBudgetAllows_def)
    show ?thesis
    proof (cases "repair_step options (world made) attempt s")
      case (Next after)
      have "max attempt (xo_maxAttempts options) = max (attempt - 1) (xo_maxAttempts options)" using le by simp
      then show ?thesis using 1(1)[OF _ Next] True run budget Next 1(4,5) by (cases out) simp_all
    next
      case (Again after)
      then show ?thesis using 1(2)[OF _ Again] True run budget 1(4,5) by simp
    next
      case (Ended after outcome)
      then show ?thesis using True run budget 1(4,5) le by auto
    qed (use True run budget 1(4,5) le in auto)
  qed
qed

lemma attempts_look_ahead:
  "(\<And>k. made \<le> k \<Longrightarrow> k < made + nat (xo_maxAttempts options + 1 - attempt) + nat (xo_maxLaunchRetries options - rl_launchFailures s) \<Longrightarrow>
      world k = world' k) \<Longrightarrow>
    repair_attempts options world made attempt s = repair_attempts options world' made attempt s"
proof (induction options world made attempt s rule: repair_attempts.induct)
  case (1 options world made attempt s)
  show ?case
  proof (cases "repairBudgetAllows attempt (xo_maxAttempts options)")
    case False
    then show ?thesis by (simp add: repair_attempts.simps)
  next
    case True
    then have now: "world made = world' made" using 1(3)[of made] by (simp add: repairBudgetAllows_def)
    note budget = step_budget[of options "world made" attempt s, OF refl]
    note unfold = repair_attempts.simps[of options _ made attempt s]
    show ?thesis
    proof (cases "repair_step options (world made) attempt s")
      case (Next after)
      have "repair_attempts options world (Suc made) (attempt + 1) after = repair_attempts options world' (Suc made) (attempt + 1) after"
        using True Next budget by (intro 1(1)[OF _ Next] 1(3)) (auto simp: repairBudgetAllows_def)
      then show ?thesis using True Next now by (simp add: unfold)
    next
      case (Again after)
      have "repair_attempts options world (Suc made) attempt after = repair_attempts options world' (Suc made) attempt after"
        using True Again budget by (intro 1(2)[OF _ Again] 1(3)) auto
      then show ?thesis using True Again now by (simp add: unfold)
    qed (use True now in \<open>simp_all add: unfold\<close>)
  qed
qed

lemma reruns_look_ahead:
  "(\<And>k. made \<le> k \<Longrightarrow> k < made + nat (retries + 1 - attempt) \<Longrightarrow> reruns k = reruns' k) \<Longrightarrow>
    retryTransientVerification reruns retries made attempt s = retryTransientVerification reruns' retries made attempt s"
proof (induction reruns retries made attempt s rule: retryTransientVerification.induct)
  case (1 reruns retries made attempt s)
  note unfold = retryTransientVerification.simps[of _ retries made attempt s]
  show ?case
  proof (cases "transientRetryAllowed (rl_reason s) attempt retries")
    case False
    then show ?thesis by (simp add: unfold)
  next
    case True
    then have now: "reruns made = reruns' made" using 1(2)[of made] by (simp add: transientRetryAllowed_def)
    show ?thesis
    proof (cases "reruns made")
      case (Inr result)
      have "retryTransientVerification reruns retries (Suc made) (attempt + 1) (refreshReboundState s result) =
          retryTransientVerification reruns' retries (Suc made) (attempt + 1) (refreshReboundState s result)" if "\<not> vy_ok result"
        using True that by (intro 1(1)[OF _ Inr that] 1(2)) (auto simp: transientRetryAllowed_def)
      then show ?thesis using True Inr now by (auto simp: unfold)
    qed (use True now in \<open>simp add: unfold\<close>)
  qed
qed

lemma reruns_end:
  "retryTransientVerification reruns retries made attempt s = Inr (out, t) \<Longrightarrow>
    rl_attempts t = rl_attempts s \<and> rl_launchFailures t = rl_launchFailures s \<and>
    (case out of None \<Rightarrow> True | Some outcome \<Rightarrow> rn_attempts outcome = 0 \<and> (\<exists>k v. reruns k = Inr v \<and> vy_ok v))"
proof (induction reruns retries made attempt s rule: retryTransientVerification.induct)
  case (1 reruns retries made attempt s)
  note run = 1(2)[unfolded retryTransientVerification.simps[of reruns retries made attempt s]]
  show ?case
  proof (cases "transientRetryAllowed (rl_reason s) attempt retries")
    case True
    show ?thesis
    proof (cases "reruns made")
      case (Inl cause)
      then show ?thesis using run True by simp
    next
      case (Inr result)
      show ?thesis
      proof (cases "vy_ok result")
        case ok: True
        then have "\<exists>k v. reruns k = Inr v \<and> vy_ok v" using Inr by blast
        moreover have "out = Some \<lparr> rn_outcome = Kind_fixed, rn_attempts = 0,
            rn_diagnostic = Observed (default_to [] (vy_diagnostic result)), rn_classification = rl_classification s,
            rn_implementer = rl_implementer s, rn_attemptsDetail = None, rn_launchFailure = None \<rparr>" "t = s"
          using run True Inr ok by auto
        ultimately show ?thesis by simp
      next
        case False
        then show ?thesis using run True Inr 1(1)[OF _ Inr False] by simp
      qed
    qed
  qed (use run in simp)
qed

lemma initial_counts [simp]: "rl_attempts (initial_rebound reason agent) = 0" "rl_launchFailures (initial_rebound reason agent) = 0"
  by (simp_all add: initial_rebound_def)

text \<open>How an occurrence ends.\<close>

lemma rebound_cases:
  assumes "reboundImpl options reruns world reason agent = Inr (outcome, t, n)"
  obtains (human) "rn_outcome outcome = Kind_human" "rn_attempts outcome = 0" "n = 0"
    | (rerun) k v where "rn_attempts outcome = 0" "n = 0" "reruns k = Inr v" "vy_ok v"
    | (repaired) s where "repair_attempts options world 0 1 s = Inr (Some outcome, t, n)" "rl_attempts s = 0" "rl_launchFailures s = 0"
    | (exhausted) s u where "repair_attempts options world 0 1 s = Inr (None, u, n)" "rl_attempts s = 0" "rl_launchFailures s = 0"
        "rn_outcome outcome = Kind_exhausted" "rn_attempts outcome = rl_attempts u"
proof -
  let ?s = "initial_rebound reason agent"
  show thesis
  proof (cases "reboundRequiresHuman (rl_reason ?s) (rl_classification ?s) False")
    case True
    then show thesis using assms human by (auto simp: reboundImpl_def humanOnlyOutcome_def stopped_outcome_def Let_def)
  next
    case False
    then obtain first s where r: "retryTransientVerification reruns (xo_maxTransientRetries options) 0 1 ?s = Inr (first, s)"
      and rest: "(case first of Some outcome \<Rightarrow> Inr (outcome, s, 0)
        | None \<Rightarrow> if reboundRequiresHuman (rl_reason s) (rl_classification s) True then Inr (humanOnlyOutcome s, s, 0)
          else try_bind (repair_attempts options world 0 1 s) (\<lambda>(repaired, state, made). case repaired of
              Some outcome \<Rightarrow> Inr (outcome, state, made)
            | None \<Rightarrow> let state = recordRepairTelemetry
                  (if rl_attemptsDetail state = [] then Fresh_diagnostic else rq_strategy (last (rl_attemptsDetail state))) Result_escalate state in
                Inr (stopped_outcome Kind_exhausted state, state, made))) = Inr (outcome, t, n)"
      using assms by (auto simp: reboundImpl_def try_bind_Inr)
    note s = reruns_end[OF r]
    show thesis
    proof (cases first)
      case (Some fixed_outcome)
      then show thesis using s rest rerun by auto
    next
      case None
      show thesis
      proof (cases "reboundRequiresHuman (rl_reason s) (rl_classification s) True")
        case True
        then show thesis using None rest s human by (auto simp: humanOnlyOutcome_def stopped_outcome_def)
      next
        case go: False
        then obtain found u m where a: "repair_attempts options world 0 1 s = Inr (found, u, m)"
          using None rest by (auto simp: try_bind_Inr)
        show thesis
        proof (cases found)
          case None
          then show thesis using a go rest s \<open>first = None\<close> by (intro exhausted[of s u]) (auto simp: stopped_outcome_def Let_def)
        next
          case (Some out)
          then show thesis using a go None rest s by (intro repaired[of s]) auto
        qed
      qed
    qed
  qed
qed

definition sample_options :: rebound_options where
  "sample_options = \<lparr> xo_maxAttempts = DEFAULT_REBOUND_ATTEMPTS, xo_maxTransientRetries = 1, xo_maxLaunchRetries = 1,
     xo_inspectFailedRepair = False, xo_ownPrompt = False \<rparr>"

definition passed_check :: verify_result where
  "passed_check = \<lparr> vy_ok = True, vy_workflowBlock = None, vy_command = Some ''npm test'', vy_diagnostic = None, vy_reason = None \<rparr>"

definition sample_round :: repair_round where
  "sample_round = \<lparr> xr_opened = Inr (Some ''CP-9''), xr_transition = None, xr_headBefore = Some ''aaa'',
     xr_started = Inr (Some \<lparr> sr_status = Some 0, sr_signal = None, sr_error = None, lq_invalidContract = None,
       lq_provider = None, lq_model = None \<rparr>),
     xr_fallback = [], xr_blocker = Inr None, xr_verified = Inr passed_check, xr_certified = None, xr_inspected = Inl [],
     xr_headAfter = Some ''bbb'' \<rparr>"

text \<open>The first launch does not start, the second one repairs the gate.\<close>

definition sample_world :: "nat \<Rightarrow> repair_round" where
  "sample_world k = (if k = 0 then sample_round\<lparr>xr_started := Inr None\<rparr> else sample_round)"

lemma sample_repaired:
  "\<exists>outcome t. reboundImpl sample_options (\<lambda>_. Inl []) sample_world (Gate_failure sample_gate) ''codex'' = Inr (outcome, t, 2) \<and>
    rn_outcome outcome = Kind_fixed \<and> rn_attempts outcome = 1"
proof -
  have "case reboundImpl sample_options (\<lambda>_. Inl []) sample_world (Gate_failure sample_gate) ''codex'' of
      Inl _ \<Rightarrow> False | Inr (outcome, t, n) \<Rightarrow> rn_outcome outcome = Kind_fixed \<and> rn_attempts outcome = 1 \<and> n = 2"
    by code_simp
  then show ?thesis by (auto split: sum.splits)
qed

section \<open>Properties\<close>

text \<open>C20: A failure counts as fixed only when its check has passed again. An occurrence ends as fixed without a launch
  when a rerun of the unchanged transient check passed; otherwise the last agent launched ended with status 0
  and the check that was run after it passed, had no workflow block, and, if it names a command, is the
  command of the failing gate.\<close>

theorem fixed_means_verified:
  assumes "reboundImpl options reruns world reason agent = Inr (outcome, t, n)" and "rn_outcome outcome = Kind_fixed"
  shows "(rn_attempts outcome = 0 \<and> n = 0 \<and> (\<exists>k v. reruns k = Inr v \<and> vy_ok v)) \<or>
    (1 \<le> rn_attempts outcome \<and> (\<exists>k v. n = Suc k \<and> xr_verified (world k) = Inr v \<and> vy_ok v \<and> vy_workflowBlock v = None \<and>
      (\<forall>g. rl_reason t = Gate_failure g \<longrightarrow> default_to [] (vy_command v) \<noteq> [] \<longrightarrow> vy_command v = Some (gr_command g)) \<and>
      (\<exists>launched. lx_ok (launchFixAttempt (xr_started (world k)) (xr_fallback (world k)) launched))))"
  using assms(1)
proof (cases rule: rebound_cases)
  case (repaired s)
  then show ?thesis using attempts_counted[OF repaired(1)] assms(2) by simp
qed (use assms(2) in auto)

theorem fixed_means_verified_witness:
  "\<exists>outcome t. reboundImpl sample_options (\<lambda>_. Inl []) sample_world (Gate_failure sample_gate) ''codex'' = Inr (outcome, t, 2) \<and>
    (\<exists>k v. 2 = Suc k \<and> xr_verified (sample_world k) = Inr v \<and> vy_ok v)"
proof -
  obtain outcome t where r: "reboundImpl sample_options (\<lambda>_. Inl []) sample_world (Gate_failure sample_gate) ''codex'' = Inr (outcome, t, 2)"
    "rn_outcome outcome = Kind_fixed" using sample_repaired by blast
  from fixed_means_verified[OF r] r(1) show ?thesis by auto
qed

text \<open>C21: The effort spent on one failure is bounded: no more agents are launched than the budget of attempts and the
  budget of launch retries together, and no more attempts are counted than the budget has.\<close>

theorem rebound_is_bounded:
  "case reboundImpl options reruns world reason agent of
     Inl _ \<Rightarrow> True
   | Inr (outcome, t, n) \<Rightarrow> n \<le> nat (xo_maxAttempts options) + nat (xo_maxLaunchRetries options) \<and>
       rn_attempts outcome \<le> max 0 (xo_maxAttempts options)"
proof -
  have "n \<le> nat (xo_maxAttempts options) + nat (xo_maxLaunchRetries options) \<and> rn_attempts outcome \<le> max 0 (xo_maxAttempts options)"
    if "reboundImpl options reruns world reason agent = Inr (outcome, t, n)" for outcome t n
    using that
  proof (cases rule: rebound_cases)
    case (repaired s)
    then show ?thesis using attempts_made[OF repaired(1)] attempts_counted[OF repaired(1)] by auto
  next
    case (exhausted s u)
    then show ?thesis using attempts_made[OF exhausted(1)] attempts_counted[OF exhausted(1)] by simp
  qed simp_all
  then show ?thesis by (auto split: sum.split)
qed

text \<open>C22: The loop ends whatever the world does. What an occurrence comes to is decided by as many reruns as the
  budget of transient retries allows and by as many launches as the two other budgets allow: two worlds that
  agree on these give the same result, and what would come after them is never asked for.\<close>

theorem rebound_ends:
  assumes "\<forall>k < nat (xo_maxTransientRetries options). reruns k = reruns' k"
    and "\<forall>k < nat (xo_maxAttempts options) + nat (xo_maxLaunchRetries options). world k = world' k"
  shows "reboundImpl options reruns world reason agent = reboundImpl options reruns' world' reason agent"
proof -
  let ?s = "initial_rebound reason agent"
  have transient: "retryTransientVerification reruns (xo_maxTransientRetries options) 0 1 ?s =
      retryTransientVerification reruns' (xo_maxTransientRetries options) 0 1 ?s"
    using assms(1) by (intro reruns_look_ahead) simp
  have "repair_attempts options world 0 1 s = repair_attempts options world' 0 1 s" if "rl_launchFailures s = 0" for s
    using assms(2) that by (intro attempts_look_ahead) simp
  then have rest: "repair_attempts options world 0 1 s = repair_attempts options world' 0 1 s"
    if "retryTransientVerification reruns' (xo_maxTransientRetries options) 0 1 ?s = Inr (out, s)" for out s
    using reruns_end[OF that] by simp
  show ?thesis
    using rest by (cases "retryTransientVerification reruns' (xo_maxTransientRetries options) 0 1 ?s")
      (auto simp: reboundImpl_def transient Let_def split: option.split)
qed

theorem rebound_ends_witness:
  "reboundImpl sample_options (\<lambda>_. Inl []) sample_world (Gate_failure sample_gate) ''codex'' =
    reboundImpl sample_options (\<lambda>_. Inl []) (\<lambda>k. if k < 3 then sample_world k else sample_round\<lparr>xr_started := Inr None\<rparr>)
      (Gate_failure sample_gate) ''codex''"
  by (rule rebound_ends) (simp_all add: sample_options_def DEFAULT_REBOUND_ATTEMPTS_def)

end
