(* ===== verification/RepairRecords.thy ===== *)
theory RepairRecords
  imports Retention
begin

text \<open>
  \<open>src/src/domain/integration-repair-record.ts\<close>: the persisted assessments of integration repairs.
  A persisted text is JSON; \<open>JSON.parse\<close> and \<open>JSON.stringify\<close> are the language's, so a text stands
  for the value it denotes, of type \<open>json\<close>. An object is the list of its entries in their order; of
  two entries with one key the later counts, as in \<open>JSON.parse\<close>, and an \<open>undefined\<close> property is no
  entry, as in \<open>JSON.stringify\<close>.
\<close>

section \<open>JSON values\<close>

datatype json =
    J_null | J_bool bool | J_num jsnum | J_str string | J_arr "json list" | J_obj "(string \<times> json) list"

type_synonym json_row = "(string \<times> json) list"

definition json_prop :: "json_row \<Rightarrow> string \<Rightarrow> json option" where
  "json_prop row key = map_of (rev row) key"

fun truthy :: "json \<Rightarrow> bool" where
  "truthy J_null = False"
| "truthy (J_bool b) = b"
| "truthy (J_num n) = (n \<noteq> Num 0 \<and> n \<noteq> NaN)"
| "truthy (J_str s) = (s \<noteq> [])"
| "truthy (J_arr _) = True"
| "truthy (J_obj _) = True"

definition truthy_prop :: "json_row \<Rightarrow> string \<Rightarrow> json option" where
  "truthy_prop row key = (case json_prop row key of Some v \<Rightarrow> if truthy v then Some v else None | None \<Rightarrow> None)"

text \<open>A property of type \<open>string | null\<close>; \<open>None\<close> if it is neither.\<close>

definition nullable_prop :: "json_row \<Rightarrow> string \<Rightarrow> string option option" where
  "nullable_prop row key =
     (case json_prop row key of Some (J_str s) \<Rightarrow> Some (Some s) | Some J_null \<Rightarrow> Some None | _ \<Rightarrow> None)"

text \<open>A property of type \<open>string | null | undefined\<close>; \<open>None\<close> if it is none of them.\<close>

definition field_prop :: "json_row \<Rightarrow> string \<Rightarrow> string field option" where
  "field_prop row key =
     (case json_prop row key of
        Some (J_str s) \<Rightarrow> Some (Present s) | Some J_null \<Rightarrow> Some Null | None \<Rightarrow> Some Absent | _ \<Rightarrow> None)"

text \<open>Entries of \<open>JSON.stringify\<close>: a nullable value, an optional value, a field.\<close>

fun nullable_json :: "string option \<Rightarrow> json" where
  "nullable_json None = J_null"
| "nullable_json (Some s) = J_str s"

definition optional_entry :: "string \<Rightarrow> ('a \<Rightarrow> json) \<Rightarrow> 'a option \<Rightarrow> json_row" where
  "optional_entry key enc x = (case x of None \<Rightarrow> [] | Some v \<Rightarrow> [(key, enc v)])"

fun field_entry :: "string \<Rightarrow> string field \<Rightarrow> json_row" where
  "field_entry key Absent = []"
| "field_entry key Null = [(key, J_null)]"
| "field_entry key (Present s) = [(key, J_str s)]"

section \<open>Reading fields\<close>

datatype restoration_error =
    Record_invalid | Field_invalid string | Mechanical_source_invalid | Mechanical_provenance_invalid
  | Assessment_invalid | Incident_missing | Incident_invalid | Validation_invalid
  | Retained_evidence_invalid | Historical_invalid

fun json_record :: "json \<Rightarrow> restoration_error + json_row" where
  "json_record (J_obj row) = Inr row"
| "json_record _ = Inl Record_invalid"

definition json_text :: "json_row \<Rightarrow> string \<Rightarrow> restoration_error + string" where
  "json_text row key =
     (case json_prop row key of
        Some (J_str s) \<Rightarrow> if s = [] then Inl (Field_invalid key) else Inr s
      | _ \<Rightarrow> Inl (Field_invalid key))"

fun nonnegative :: "jsnum \<Rightarrow> bool" where
  "nonnegative (Num q) = (0 \<le> q)"
| "nonnegative _ = False"

definition measured :: "json_row \<Rightarrow> string \<Rightarrow> restoration_error + jsnum option" where
  "measured row key =
     (case json_prop row key of
        None \<Rightarrow> Inr None
      | Some (J_num n) \<Rightarrow> if nonnegative n then Inr (Some n) else Inl (Field_invalid key)
      | Some _ \<Rightarrow> Inl (Field_invalid key))"

section \<open>Historical approval sources\<close>

definition SOURCE_FIELDS :: "string list" where
  "SOURCE_FIELDS = [''approvedRevision'', ''candidateRevision'', ''failedGate'', ''validationRevision'',
     ''validationReference'', ''validatedAt'']"

definition source_of :: "json_row \<Rightarrow> restoration_error + historical_source" where
  "source_of row =
     try_bind (json_text row ''approvedRevision'') (\<lambda>approved.
     try_bind (json_text row ''candidateRevision'') (\<lambda>candidate.
     try_bind (json_text row ''failedGate'') (\<lambda>gate.
     try_bind (json_text row ''validationRevision'') (\<lambda>validation.
     try_bind (json_text row ''validationReference'') (\<lambda>reference.
     try_bind (json_text row ''validatedAt'') (\<lambda>validatedAt.
       Inr \<lparr> hs_approvedRevision = approved, hs_candidateRevision = candidate, hs_failedGate = gate,
             hs_validationRevision = validation, hs_validationReference = reference,
             hs_validatedAt = validatedAt \<rparr>))))))"

text \<open>The provenance checks against the assessment that recorded the restoration.\<close>

definition restores :: "historical_source \<Rightarrow> 'a assessment_core_scheme \<Rightarrow> string option \<Rightarrow> bool" where
  "restores source assessment revision \<longleftrightarrow>
     ia_outcome assessment = Restored \<and> ia_source assessment = Some source \<and>
     hs_candidateRevision source = default_to (hs_candidateRevision source) revision \<and>
     hs_candidateRevision source = ia_candidateRevision assessment \<and>
     hs_approvedRevision source = ia_approvedRevision assessment \<and>
     Some (hs_failedGate source) = ia_failedGate assessment \<and>
     (case (date_parse (ia_assessedAt assessment), date_parse (hs_validatedAt source)) of
        (Some assessed, Some validated) \<Rightarrow> validated < assessed | _ \<Rightarrow> False)"

definition parseHistoricalApprovalSource ::
  "json \<Rightarrow> 'a assessment_core_scheme option \<Rightarrow> string option \<Rightarrow> restoration_error + historical_source" where
  "parseHistoricalApprovalSource raw assessment revision =
     try_bind (json_record raw) (\<lambda>row.
       if json_prop row ''kind'' \<noteq> Some (J_str ''mechanical-restoration'') \<or>
          \<not> list_all (\<lambda>key. is_ok (json_text row key)) SOURCE_FIELDS
       then Inl Mechanical_source_invalid
       else try_bind (source_of row) (\<lambda>source.
         case assessment of
           None \<Rightarrow> Inr source
         | Some a \<Rightarrow> if restores source a revision then Inr source else Inl Mechanical_provenance_invalid))"

definition source_json :: "historical_source \<Rightarrow> json" where
  "source_json source = J_obj [(''kind'', J_str ''mechanical-restoration''),
     (''approvedRevision'', J_str (hs_approvedRevision source)),
     (''candidateRevision'', J_str (hs_candidateRevision source)), (''failedGate'', J_str (hs_failedGate source)),
     (''validationRevision'', J_str (hs_validationRevision source)),
     (''validationReference'', J_str (hs_validationReference source)),
     (''validatedAt'', J_str (hs_validatedAt source))]"

section \<open>Incidents and validations\<close>

text \<open>A value that has passed its type test, or the error of the test.\<close>

definition require :: "'e \<Rightarrow> 'a option \<Rightarrow> 'e + 'a" where
  "require e x = (case x of None \<Rightarrow> Inl e | Some v \<Rightarrow> Inr v)"

lemma require_Inr [simp, outcome]: "require e x = Inr v \<longleftrightarrow> x = Some v"
  by (simp add: require_def split: option.splits)

lemma require_Some [simp]: "require e (Some v) = Inr v"
  by (simp add: require_def)

definition parseRepair :: "json \<Rightarrow> restoration_error + repair_incident" where
  "parseRepair raw =
     try_bind (json_record raw) (\<lambda>incident.
     try_bind (require Record_invalid (json_prop incident ''cause'')) (\<lambda>raw_cause.
     try_bind (json_record raw_cause) (\<lambda>cause.
       if json_prop cause ''kind'' \<noteq> Some (J_str ''integration-gate-failure'') then Inl Incident_invalid
       else try_bind (require Incident_invalid (nullable_prop cause ''gate'')) (\<lambda>gate.
         try_bind (json_text incident ''startedAt'') (\<lambda>startedAt.
         try_bind (require Incident_invalid (date_parse startedAt)) (\<lambda>_.
         try_bind (require Incident_invalid (field_prop cause ''command'')) (\<lambda>command.
         try_bind (require Incident_invalid (field_prop cause ''log'')) (\<lambda>output.
           Inr \<lparr> ri_startedAt = startedAt,
                 ri_cause = \<lparr> gf_gate = gate, gf_command = command, gf_log = output \<rparr> \<rparr>))))))))"

fun hook_name :: "json \<Rightarrow> string option" where
  "hook_name (J_str s) = (if s = [] then None else Some s)"
| "hook_name _ = None"

definition hooks_of :: "json option \<Rightarrow> string list option" where
  "hooks_of raw =
     (case raw of
        Some (J_arr hs) \<Rightarrow>
          if hs = [] \<or> list_ex (\<lambda>h. hook_name h = None) hs then None else Some (List.map_filter hook_name hs)
      | _ \<Rightarrow> None)"

definition failed_of :: "json option \<Rightarrow> bool option option" where
  "failed_of raw = (case raw of None \<Rightarrow> Some None | Some (J_bool b) \<Rightarrow> Some (Some b) | Some _ \<Rightarrow> None)"

definition parseValidation :: "json \<Rightarrow> restoration_error + retention_validation" where
  "parseValidation raw =
     try_bind (json_record raw) (\<lambda>row.
     try_bind (require Validation_invalid (hooks_of (json_prop row ''hooks''))) (\<lambda>hooks.
     try_bind (require Validation_invalid (nullable_prop row ''baseline'')) (\<lambda>baseline.
     try_bind (require Validation_invalid (failed_of (json_prop row ''failed''))) (\<lambda>failed.
     try_bind (json_text row ''createdAt'') (\<lambda>createdAt.
     try_bind (require Validation_invalid (date_parse createdAt)) (\<lambda>_.
     try_bind (json_text row ''missionId'') (\<lambda>mission.
     try_bind (json_text row ''sha'') (\<lambda>sha.
     try_bind (json_text row ''reference'') (\<lambda>reference.
       Inr \<lparr> vm_missionId = mission, vm_sha = sha, vm_hooks = hooks, rv_createdAt = createdAt,
             rv_reference = reference, rv_baseline = baseline, rv_failed = failed \<rparr>)))))))))"

definition repair_json :: "repair_incident \<Rightarrow> json" where
  "repair_json repair = J_obj [(''startedAt'', J_str (ri_startedAt repair)),
     (''cause'', J_obj ([(''kind'', J_str ''integration-gate-failure''), (''gate'', nullable_json (gf_gate (ri_cause repair)))] @
        field_entry ''command'' (gf_command (ri_cause repair)) @ field_entry ''log'' (gf_log (ri_cause repair))))]"

definition validation_json :: "retention_validation \<Rightarrow> json" where
  "validation_json v = J_obj ([(''missionId'', J_str (vm_missionId v)), (''sha'', J_str (vm_sha v)),
     (''hooks'', J_arr (map J_str (vm_hooks v))), (''baseline'', nullable_json (rv_baseline v)),
     (''createdAt'', J_str (rv_createdAt v)), (''reference'', J_str (rv_reference v))] @
     optional_entry ''failed'' J_bool (rv_failed v))"

section \<open>Assessments\<close>

fun outcome_text :: "assessment_outcome \<Rightarrow> string" where
  "outcome_text Pending = ''pending''"
| "outcome_text Retained = ''retained''"
| "outcome_text Restored = ''restored''"
| "outcome_text Mission_change_differs = ''mission-change-differs''"
| "outcome_text Gate_evidence_missing = ''gate-evidence-missing''"
| "outcome_text Gate_failed = ''gate-failed''"
| "outcome_text Comparison_error = ''comparison-error''"

definition OUTCOMES :: "assessment_outcome list" where
  "OUTCOMES = [Pending, Retained, Restored, Mission_change_differs, Gate_evidence_missing, Gate_failed, Comparison_error]"

text \<open>Parsing a value that may be absent.\<close>

definition parse_given :: "(json \<Rightarrow> restoration_error + 'a) \<Rightarrow> json option \<Rightarrow> restoration_error + 'a option" where
  "parse_given parse x = (case x of None \<Rightarrow> Inr None | Some j \<Rightarrow> map_sum id Some (parse j))"

definition restorationMeasurements :: "json_row \<Rightarrow> restoration_error + jsnum option \<times> jsnum option" where
  "restorationMeasurements row =
     try_bind (measured row ''normalReviewMs'') (\<lambda>ms.
     try_bind (measured row ''normalReviewCostUsd'') (\<lambda>cost. Inr (ms, cost)))"

text \<open>Everything of an assessment but its archive. An archived assessment has no archive of its own, so
  reading one never recurses further.\<close>

definition assessment_body :: "json_row \<Rightarrow> restoration_error + assessment_core" where
  "assessment_body row =
     try_bind (json_text row ''outcome'') (\<lambda>outcome.
     try_bind (require Assessment_invalid (find_first (\<lambda>known. outcome_text known = outcome) OUTCOMES)) (\<lambda>known.
     try_bind (require Assessment_invalid (nullable_prop row ''failedGate'')) (\<lambda>failedGate.
     try_bind (parse_given parseRepair (json_prop row ''repair'')) (\<lambda>repair.
       if known \<in> {Pending, Retained} \<and> repair = None then Inl Incident_missing
       else try_bind (parse_given parseValidation (truthy_prop row ''validation'')) (\<lambda>validation.
         try_bind (json_text row ''assessedAt'') (\<lambda>assessedAt.
         try_bind (json_text row ''approvedRevision'') (\<lambda>approved.
         try_bind (json_text row ''candidateRevision'') (\<lambda>candidate.
         try_bind (parse_given (\<lambda>j. parseHistoricalApprovalSource j (None :: assessment_core option) None)
           (truthy_prop row ''source'')) (\<lambda>source.
         try_bind (restorationMeasurements row) (\<lambda>(ms, cost).
           Inr \<lparr> ia_assessedAt = assessedAt, ia_approvedRevision = approved,
             ia_candidateRevision = candidate, ia_failedGate = failedGate, ia_outcome = known,
             ia_repair = repair, ia_validation = validation, ia_source = source,
             ia_normalReviewMs = ms, ia_normalReviewCostUsd = cost \<rparr>))))))))))"

definition retained_evidence :: "assessment_core \<Rightarrow> restoration_error + assessment_core" where
  "retained_evidence a =
     (if ia_outcome a = Retained \<and> \<not> retentionEvidenceMatches a None None
      then Inl Retained_evidence_invalid else Inr a)"

definition restorationArchive :: "json_row \<Rightarrow> restoration_error + assessment_core option" where
  "restorationArchive row =
     (case json_prop row ''priorRestoration'' of
        None \<Rightarrow> Inr None
      | Some j \<Rightarrow>
          try_bind (json_record j) (\<lambda>historical.
            if json_prop historical ''outcome'' \<noteq> Some (J_str ''restored'') \<or>
               json_prop historical ''priorRestoration'' \<noteq> None \<or> truthy_prop historical ''source'' = None
            then Inl Historical_invalid
            else map_sum id Some (try_bind (assessment_body historical) retained_evidence)))"

definition parseIntegrationRepairAssessment :: "json \<Rightarrow> restoration_error + repair_assessment" where
  "parseIntegrationRepairAssessment raw =
     try_bind (json_record raw) (\<lambda>row.
     try_bind (assessment_body row) (\<lambda>core.
     try_bind (restorationArchive row) (\<lambda>archive.
     try_bind (retained_evidence core) (\<lambda>_.
       Inr (assessment_core.extend core \<lparr> ia_priorRestoration = archive \<rparr>)))))"

definition core_entries :: "'a assessment_core_scheme \<Rightarrow> json_row" where
  "core_entries a = [(''assessedAt'', J_str (ia_assessedAt a)), (''approvedRevision'', J_str (ia_approvedRevision a)),
     (''candidateRevision'', J_str (ia_candidateRevision a)), (''failedGate'', nullable_json (ia_failedGate a)),
     (''outcome'', J_str (outcome_text (ia_outcome a)))] @
     optional_entry ''repair'' repair_json (ia_repair a) @
     optional_entry ''validation'' validation_json (ia_validation a) @
     optional_entry ''source'' source_json (ia_source a) @
     optional_entry ''normalReviewMs'' J_num (ia_normalReviewMs a) @
     optional_entry ''normalReviewCostUsd'' J_num (ia_normalReviewCostUsd a)"

definition assessment_json :: "repair_assessment \<Rightarrow> json" where
  "assessment_json a = J_obj (core_entries a @
     optional_entry ''priorRestoration'' (\<lambda>prior. J_obj (core_entries prior)) (ia_priorRestoration a))"

section \<open>Well-formed assessments\<close>

definition source_ok :: "historical_source \<Rightarrow> bool" where
  "source_ok s \<longleftrightarrow> hs_approvedRevision s \<noteq> [] \<and> hs_candidateRevision s \<noteq> [] \<and> hs_failedGate s \<noteq> [] \<and>
     hs_validationRevision s \<noteq> [] \<and> hs_validationReference s \<noteq> [] \<and> hs_validatedAt s \<noteq> []"

definition incident_ok :: "repair_incident \<Rightarrow> bool" where
  "incident_ok r \<longleftrightarrow> ri_startedAt r \<noteq> [] \<and> date_parse (ri_startedAt r) \<noteq> None"

definition validation_ok :: "retention_validation \<Rightarrow> bool" where
  "validation_ok v \<longleftrightarrow> vm_missionId v \<noteq> [] \<and> vm_sha v \<noteq> [] \<and> vm_hooks v \<noteq> [] \<and> list_all (\<lambda>h. h \<noteq> []) (vm_hooks v) \<and>
     rv_createdAt v \<noteq> [] \<and> date_parse (rv_createdAt v) \<noteq> None \<and> rv_reference v \<noteq> []"

definition core_ok :: "'a assessment_core_scheme \<Rightarrow> bool" where
  "core_ok a \<longleftrightarrow> ia_assessedAt a \<noteq> [] \<and> ia_approvedRevision a \<noteq> [] \<and> ia_candidateRevision a \<noteq> [] \<and>
     (ia_outcome a \<in> {Pending, Retained} \<longrightarrow> ia_repair a \<noteq> None) \<and>
     pred_option incident_ok (ia_repair a) \<and> pred_option validation_ok (ia_validation a) \<and>
     pred_option source_ok (ia_source a) \<and> pred_option nonnegative (ia_normalReviewMs a) \<and>
     pred_option nonnegative (ia_normalReviewCostUsd a) \<and>
     (ia_outcome a = Retained \<longrightarrow> retentionEvidenceMatches a None None)"

definition assessment_ok :: "repair_assessment \<Rightarrow> bool" where
  "assessment_ok a \<longleftrightarrow> core_ok a \<and>
     pred_option (\<lambda>prior. core_ok prior \<and> ia_outcome prior = Restored \<and> ia_source prior \<noteq> None) (ia_priorRestoration a)"

lemma option_same [simp]: "(case x of None \<Rightarrow> None | Some v \<Rightarrow> Some v) = x"
  by (cases x) simp_all

lemma json_prop_simps [simp]:
  "json_prop [] k = None"
  "json_prop ((a, b) # row) k = (case json_prop row k of None \<Rightarrow> if a = k then Some b else None | Some v \<Rightarrow> Some v)"
  "json_prop (row @ row') k = (case json_prop row' k of None \<Rightarrow> json_prop row k | Some v \<Rightarrow> Some v)"
  by (simp_all add: json_prop_def map_add_def split: option.splits)

lemma json_prop_entries [simp]:
  "json_prop (optional_entry key enc x) k = (if key = k then map_option enc x else None)"
  "json_prop (field_entry key f) k = (if key = k then (case f of Absent \<Rightarrow> None | Null \<Rightarrow> Some J_null | Present s \<Rightarrow> Some (J_str s)) else None)"
  by (auto simp: optional_entry_def split: option.splits) (cases f; auto)+

lemma json_text_Inr: "json_text row key = Inr s \<longleftrightarrow> json_prop row key = Some (J_str s) \<and> s \<noteq> []"
  by (auto simp: json_text_def split: option.splits json.splits)

lemma json_record_Inr: "json_record j = Inr row \<longleftrightarrow> j = J_obj row"
  by (cases j) auto

lemma measured_Inr: "measured row key = Inr n \<longleftrightarrow>
    (json_prop row key = None \<and> n = None) \<or> (\<exists>v. json_prop row key = Some (J_num v) \<and> nonnegative v \<and> n = Some v)"
  by (auto simp: measured_def split: option.splits json.splits)

lemma nullable_json_read: "(case Some (nullable_json g) of Some (J_str s) \<Rightarrow> Some (Some s) | Some J_null \<Rightarrow> Some None | _ \<Rightarrow> None) = Some g"
  by (cases g) auto

lemma truthy_json [simp]: "truthy (source_json s)" "truthy (validation_json v)" "truthy (repair_json r)"
  by (simp_all add: source_json_def validation_json_def repair_json_def)

lemma parse_source_Inr:
  assumes "parseHistoricalApprovalSource j (None :: assessment_core option) r = Inr s"
  shows "source_ok s"
  using assms
  by (auto simp: parseHistoricalApprovalSource_def source_of_def source_ok_def try_bind_Inr json_text_Inr split: if_splits)

lemma parse_source_json:
  assumes "source_ok s"
  shows "parseHistoricalApprovalSource (source_json s) a r =
    (case a of None \<Rightarrow> Inr s | Some b \<Rightarrow> if restores s b r then Inr s else Inl Mechanical_provenance_invalid)"
  using assms
  by (cases s; cases a) (simp_all add: parseHistoricalApprovalSource_def source_json_def source_of_def source_ok_def SOURCE_FIELDS_def json_text_def)

lemma parse_repair_Inr: "parseRepair j = Inr r \<Longrightarrow> incident_ok r"
  by (auto simp: parseRepair_def incident_ok_def try_bind_Inr json_text_Inr split: if_splits option.split_asm)

lemma parse_repair_json: "incident_ok r \<Longrightarrow> parseRepair (repair_json r) = Inr r"
  by (cases r; cases "ri_cause r"; cases "gf_gate (ri_cause r)"; cases "gf_command (ri_cause r)"; cases "gf_log (ri_cause r)")
    (auto simp: parseRepair_def repair_json_def incident_ok_def json_text_def nullable_prop_def field_prop_def)

lemma hook_name_Some: "hook_name j = Some s \<longleftrightarrow> j = J_str s \<and> s \<noteq> []"
  by (cases j) auto

lemma hooks_of_Some: "hooks_of j = Some hs \<Longrightarrow> hs \<noteq> [] \<and> list_all (\<lambda>h. h \<noteq> []) hs"
  by (fastforce simp: hooks_of_def list_ex_iff list_all_iff map_filter_def filter_empty_conv hook_name_Some
      split: option.split_asm json.split_asm if_splits)

lemma hooks_of_json: "hs \<noteq> [] \<Longrightarrow> list_all (\<lambda>h. h \<noteq> []) hs \<Longrightarrow> hooks_of (Some (J_arr (map J_str hs))) = Some hs"
proof -
  assume "hs \<noteq> []" and *: "list_all (\<lambda>h. h \<noteq> []) hs"
  moreover have "List.map_filter hook_name (map J_str hs) = hs"
    using * by (induction hs) auto
  ultimately show ?thesis by (auto simp: hooks_of_def list_ex_iff list_all_iff)
qed

lemma parse_validation_Inr: "parseValidation j = Inr v \<Longrightarrow> validation_ok v"
  by (auto simp: parseValidation_def validation_ok_def try_bind_Inr json_text_Inr dest: hooks_of_Some)

lemma parse_validation_json:
  assumes "validation_ok v"
  shows "parseValidation (validation_json v) = Inr v"
proof -
  obtain ms where ms: "date_parse (rv_createdAt v) = Some ms" using assms by (auto simp: validation_ok_def)
  have "hooks_of (Some (J_arr (map J_str (vm_hooks v)))) = Some (vm_hooks v)"
    using assms by (intro hooks_of_json) (auto simp: validation_ok_def)
  then show ?thesis
    using assms ms
    by (cases v; cases "rv_baseline v"; cases "rv_failed v")
      (auto simp: parseValidation_def validation_json_def validation_ok_def json_text_def nullable_prop_def
        failed_of_def)
qed

lemma find_outcome: "find_first (\<lambda>known. outcome_text known = outcome_text o') OUTCOMES = Some o'"
  by (cases o') (simp_all add: OUTCOMES_def)

lemma parse_given_Inr: "parse_given p x = Inr y \<longleftrightarrow>
    (x = None \<and> y = None) \<or> (\<exists>j v. x = Some j \<and> p j = Inr v \<and> y = Some v)"
  by (cases x; cases "p (the x)") (auto simp: parse_given_def)

lemma measurements_Inr: "restorationMeasurements row = Inr (ms, cost) \<longleftrightarrow>
    measured row ''normalReviewMs'' = Inr ms \<and> measured row ''normalReviewCostUsd'' = Inr cost"
  by (auto simp: restorationMeasurements_def try_bind_Inr)

lemma retained_Inr: "retained_evidence a = Inr b \<longleftrightarrow>
    b = a \<and> (ia_outcome a = Retained \<longrightarrow> retentionEvidenceMatches a None None)"
  by (auto simp: retained_evidence_def)

lemma assessment_body_Inr:
  assumes "assessment_body row = Inr a"
  shows "json_text row ''outcome'' = Inr (outcome_text (ia_outcome a))"
    and "json_text row ''assessedAt'' = Inr (ia_assessedAt a)"
    and "json_text row ''approvedRevision'' = Inr (ia_approvedRevision a)"
    and "json_text row ''candidateRevision'' = Inr (ia_candidateRevision a)"
    and "ia_outcome a \<in> {Pending, Retained} \<Longrightarrow> ia_repair a \<noteq> None"
    and "parse_given parseRepair (json_prop row ''repair'') = Inr (ia_repair a)"
    and "parse_given parseValidation (truthy_prop row ''validation'') = Inr (ia_validation a)"
    and "parse_given (\<lambda>j. parseHistoricalApprovalSource j (None :: assessment_core option) None)
      (truthy_prop row ''source'') = Inr (ia_source a)"
    and "restorationMeasurements row = Inr (ia_normalReviewMs a, ia_normalReviewCostUsd a)"
  using assms by (auto simp: assessment_body_def try_bind_Inr find_Some_iff split: if_splits)

lemma parse_given_ok:
  assumes "parse_given p x = Inr y" and "\<And>j v. p j = Inr v \<Longrightarrow> P v"
  shows "pred_option P y"
  using assms by (cases x; cases "p (the x)") (auto simp: parse_given_def)

lemma assessment_body_ok:
  assumes body: "assessment_body row = Inr a" and evidence: "retained_evidence a = Inr b"
  shows "core_ok a"
  unfolding core_ok_def
  using assessment_body_Inr(1-5)[OF body] parse_given_ok[OF assessment_body_Inr(6)[OF body] parse_repair_Inr]
    parse_given_ok[OF assessment_body_Inr(7)[OF body] parse_validation_Inr]
    parse_given_ok[OF assessment_body_Inr(8)[OF body] parse_source_Inr] evidence assessment_body_Inr(9)[OF body]
  by (auto simp: json_text_Inr measurements_Inr measured_Inr retained_Inr)

lemma truncate_fields [simp]:
  "ia_outcome (assessment_core.truncate a) = ia_outcome a" "ia_source (assessment_core.truncate a) = ia_source a"
  "ia_assessedAt (assessment_core.truncate a) = ia_assessedAt a"
  "ia_approvedRevision (assessment_core.truncate a) = ia_approvedRevision a"
  "ia_candidateRevision (assessment_core.truncate a) = ia_candidateRevision a"
  "ia_failedGate (assessment_core.truncate a) = ia_failedGate a" "ia_repair (assessment_core.truncate a) = ia_repair a"
  "ia_validation (assessment_core.truncate a) = ia_validation a"
  "retentionEvidenceMatches (assessment_core.truncate a) m c = retentionEvidenceMatches a m c"
  by (simp_all add: assessment_core.truncate_def retentionEvidenceMatches_def cong: option.case_cong)

lemma truncate_core: "assessment_core.truncate a = (a :: assessment_core)"
  by (cases a) (simp add: assessment_core.truncate_def)

lemma core_json:
  assumes "core_ok a"
  shows "assessment_body (core_entries a @ optional_entry ''priorRestoration'' enc archive) = Inr (assessment_core.truncate a)"
    and "retained_evidence (assessment_core.truncate a) = Inr (assessment_core.truncate a)"
proof -
  define row where "row = core_entries a @ optional_entry ''priorRestoration'' enc archive"
  have texts: "json_text row ''outcome'' = Inr (outcome_text (ia_outcome a))"
    "json_text row ''assessedAt'' = Inr (ia_assessedAt a)"
    "json_text row ''approvedRevision'' = Inr (ia_approvedRevision a)"
    "json_text row ''candidateRevision'' = Inr (ia_candidateRevision a)"
    using assms by (simp_all add: json_text_def row_def core_entries_def core_ok_def) (cases "ia_outcome a"; simp)
  have gate: "nullable_prop row ''failedGate'' = Some (ia_failedGate a)"
    by (cases "ia_failedGate a") (simp_all add: nullable_prop_def row_def core_entries_def)
  have repair: "parse_given parseRepair (json_prop row ''repair'') = Inr (ia_repair a)"
    using assms by (cases "ia_repair a") (auto simp: parse_given_def row_def core_entries_def core_ok_def parse_repair_json)
  have validation: "parse_given parseValidation (truthy_prop row ''validation'') = Inr (ia_validation a)"
    using assms by (cases "ia_validation a")
      (auto simp: parse_given_def truthy_prop_def row_def core_entries_def core_ok_def parse_validation_json)
  have source: "parse_given (\<lambda>j. parseHistoricalApprovalSource j (None :: assessment_core option) None)
      (truthy_prop row ''source'') = Inr (ia_source a)"
    using assms by (cases "ia_source a")
      (auto simp: parse_given_def truthy_prop_def row_def core_entries_def core_ok_def parse_source_json)
  have measures: "restorationMeasurements row = Inr (ia_normalReviewMs a, ia_normalReviewCostUsd a)"
    using assms unfolding measurements_Inr
    by (cases "ia_normalReviewMs a"; cases "ia_normalReviewCostUsd a")
      (auto simp: measured_def row_def core_entries_def core_ok_def)
  have "assessment_body row = Inr (assessment_core.truncate a)"
    using assms by (auto simp: assessment_body_def texts gate repair validation source measures find_outcome
        core_ok_def assessment_core.truncate_def)
  then show "assessment_body (core_entries a @ optional_entry ''priorRestoration'' enc archive) =
    Inr (assessment_core.truncate a)" by (simp add: row_def)
  show "retained_evidence (assessment_core.truncate a) = Inr (assessment_core.truncate a)"
    using assms by (simp add: retained_Inr core_ok_def)
qed

lemma archive_ok:
  assumes "restorationArchive row = Inr archive"
  shows "pred_option (\<lambda>prior. core_ok prior \<and> ia_outcome prior = Restored \<and> ia_source prior \<noteq> None) archive"
proof (cases "json_prop row ''priorRestoration''")
  case None
  then show ?thesis using assms by (simp add: restorationArchive_def)
next
  case (Some j)
  then obtain historical prior where row: "json_record j = Inr historical"
      "json_prop historical ''outcome'' = Some (J_str ''restored'')" "truthy_prop historical ''source'' \<noteq> None"
    and prior: "assessment_body historical = Inr prior" "retained_evidence prior = Inr prior" "archive = Some prior"
    using assms by (auto simp: restorationArchive_def try_bind_Inr retained_Inr split: if_splits sum.split_asm)
      (auto simp: try_bind_def retained_evidence_def split: sum.split_asm if_splits)
  have "ia_outcome prior = Restored \<and> ia_source prior \<noteq> None"
    using assessment_body_Inr(1,8)[OF prior(1)] row(2,3)
    by (cases "ia_outcome prior") (auto simp: json_text_Inr parse_given_Inr)
  then show ?thesis using assessment_body_ok[OF prior(1,2)] prior(3) by simp
qed

lemma assessment_json_read:
  assumes ok: "assessment_ok a"
  shows "parseIntegrationRepairAssessment (assessment_json a) = Inr a"
proof -
  let ?row = "core_entries a @ optional_entry ''priorRestoration'' (\<lambda>prior. J_obj (core_entries prior)) (ia_priorRestoration a)"
  have "core_ok a" using ok by (simp add: assessment_ok_def)
  note core = core_json(1)[OF this, of "\<lambda>prior. J_obj (core_entries prior)" "ia_priorRestoration a"] core_json(2)[OF this]
  have "restorationArchive ?row = Inr (ia_priorRestoration a)"
  proof (cases "ia_priorRestoration a")
    case None
    then show ?thesis by (simp add: restorationArchive_def core_entries_def)
  next
    case (Some prior)
    then have prior: "core_ok prior" "ia_outcome prior = Restored" "ia_source prior \<noteq> None"
      using ok by (simp_all add: assessment_ok_def)
    have "assessment_body (core_entries prior) = Inr prior" "retained_evidence prior = Inr prior"
      using core_json(1)[OF prior(1), of "\<lambda>_. J_null" None] core_json(2)[OF prior(1)]
      by (simp_all add: optional_entry_def truncate_core)
    then show ?thesis using Some prior(2,3)
      by (auto simp: restorationArchive_def truthy_prop_def core_entries_def)
  qed
  moreover have "assessment_core.extend (assessment_core.truncate a) \<lparr> ia_priorRestoration = ia_priorRestoration a \<rparr> = a"
    by (cases a) (simp add: assessment_core.extend_def assessment_core.truncate_def)
  ultimately show ?thesis using core by (simp add: parseIntegrationRepairAssessment_def assessment_json_def)
qed

text \<open>An assessment of an integration repair is readable exactly when it is whole. Whatever JSON was
  persisted, an assessment that \<open>parseIntegrationRepairAssessment\<close> returns has every required text, an
  incident if it is pending or retained, sound retention evidence if it is retained, and an archive that
  is a restoration with its source; and every assessment of this shape is read back unchanged from the
  JSON it is stored as.\<close>

lemma assessment_persists:
  "(assessment_ok a \<longleftrightarrow> parseIntegrationRepairAssessment (assessment_json a) = Inr a) \<and>
   (assessment_ok a \<longleftrightarrow> (\<exists>j. parseIntegrationRepairAssessment j = Inr a))"
proof -
  have read: "assessment_ok a" if parsed: "parseIntegrationRepairAssessment j = Inr a" for j
  proof -
    obtain row core archive where parts: "assessment_body row = Inr core" "restorationArchive row = Inr archive"
      "retained_evidence core = Inr core" "a = assessment_core.extend core \<lparr> ia_priorRestoration = archive \<rparr>"
      using parsed by (auto simp: parseIntegrationRepairAssessment_def try_bind_Inr retained_Inr)
    have "core_ok a"
      using assessment_body_ok[OF parts(1,3)] parts(4)
      by (simp add: core_ok_def assessment_core.extend_def retentionEvidenceMatches_def cong: option.case_cong)
    then show ?thesis using archive_ok[OF parts(2)] parts(4)
      by (simp add: assessment_ok_def assessment_core.extend_def)
  qed
  then show ?thesis using assessment_json_read by blast
qed

end
