(* ===== verification/ReviewRows.thy ===== *)
theory ReviewRows
  imports RepairRecords Reviews Agents Classifier "HOL-Library.List_Lexorder" "HOL-Library.Product_Lexorder"
    "HOL-Library.Char_ord"
begin

text \<open>
  How a review conversation is stored in the operator database:
  \<open>src/src/adapters/sqlite/mission-value-writer.ts\<close> (the rows a save inserts),
  \<open>mission-load-reader.ts\<close> (the order a load reads them in) and \<open>mission-serialization.ts\<close> (what a
  load rebuilds from them, with every check).

  The rows are those of one mission. A text column holding JSON stands for the value it denotes: a
  \<open>json\<close> where the code inspects it, and a classifier source where the code only casts it. The schema
  restricts an event's type to the eight known ones (\<open>migrations/0010\<close>), so other texts are refused
  here. SQLite orders text by its bytes, which on Latin-1 text is the order of the characters.
\<close>

section \<open>Rows\<close>

record review_row =
  iw_requested_at :: "string option"
  iw_requested_by :: "string option"
  iw_reason :: "string option"

record identity_columns =
  ic_round_number :: int
  ic_change_kind :: string
  ic_provider :: "string option"
  ic_provider_change_id :: "string option"
  ic_provider_url :: "string option"
  ic_source_branch :: string
  ic_target_branch :: string
  ic_revision :: string
  ic_review_baseline :: "string option"
  ic_reviewer :: string
  ic_implementer :: string
  ic_started_at :: string

record decision_columns =
  dc_decision_kind :: "string option"
  dc_decided_at :: "string option"
  dc_decided_revision :: "string option"
  dc_decision_comment :: "string option"
  dc_classifier_source :: "classifier_source option"
  dc_integration_repair_assessment :: "json option"

record approval_columns =
  vc_mechanical_source :: "json option"
  vc_approval_source_kind :: "string option"
  vc_approval_source_provider :: "string option"

record withdrawal_columns =
  wc_revoked_at :: "string option"
  wc_revoked_by :: "string option"
  wc_revoked_reason :: "string option"
  wc_revoked_cause :: "string option"
  wc_revoked_gate :: "string option"
  wc_revoked_gate_command :: "string option"
  wc_revoked_gate_log :: "string option"

record supersession_columns =
  uc_superseded_at :: "string option"
  uc_superseding_revision :: "string option"
  uc_superseded_by :: "string option"

record response_columns =
  nc_responded_at :: "string option"
  nc_resulting_revision :: "string option"
  nc_phase :: string
  nc_disposition :: "string option"
  nc_reviewer_retry_count :: int
  nc_implementer_retry_count :: int
  nc_implementer_response_content :: "string option"
  nc_item_dispositions :: "json option"
  nc_blocked_reason :: "string option"

record round_row =
  rw_position :: nat
  rw_identity :: identity_columns
  rw_decision :: decision_columns
  rw_approval :: approval_columns
  rw_withdrawal :: withdrawal_columns
  rw_supersession :: supersession_columns
  rw_response :: response_columns

record finding_row =
  fw_round_position :: nat
  fw_position :: nat
  fw_finding_id :: string
  fw_summary :: string
  fw_location :: "string option"

record resolution_row =
  qw_round_position :: nat
  qw_position :: nat
  qw_finding_id :: string
  qw_kind :: string
  qw_explanation :: string

record launch_row =
  yw_stage_key :: string
  yw_position :: nat
  yw_fingerprint :: string

record event_row =
  ew_position :: nat
  ew_event_type :: string
  ew_round_number :: "int option"
  ew_phase :: "string option"
  ew_actor :: "string option"
  ew_content :: string
  ew_disposition :: "string option"
  ew_verdict :: "string option"
  ew_item_dispositions :: "json option"
  ew_blocked_reason :: "string option"
  ew_followup_reference :: "string option"
  ew_created_at :: string

record review_rows =
  vr_review :: "review_row option"
  vr_rounds :: "round_row list"
  vr_findings :: "finding_row list"
  vr_resolutions :: "resolution_row list"
  vr_launches :: "launch_row list"
  vr_events :: "event_row list"

section \<open>Writing\<close>

fun item_kind_text :: "item_kind \<Rightarrow> string" where
  "item_kind_text Item_fixed = ''fixed''"
| "item_kind_text Item_pushed_back = ''pushed_back''"
| "item_kind_text Item_parked = ''parked''"

definition items_json :: "item_disposition list \<Rightarrow> json" where
  "items_json items = J_arr (map (\<lambda>i. J_obj [(''kind'', J_str (item_kind_text (id_kind i))),
     (''findingId'', J_str (id_findingId i))]) items)"

definition reviewIdentityColumns :: "review_round \<Rightarrow> identity_columns" where
  "reviewIdentityColumns rd =
     (let change = rr_change (rd_subject rd) in
      \<lparr> ic_round_number = rd_number rd,
        ic_change_kind = (case change of Pull_request _ \<Rightarrow> ''pull-request'' | Local_branch _ \<Rightarrow> ''local-branch''),
        ic_provider = (case change of Pull_request p \<Rightarrow> Some (pr_provider p) | Local_branch _ \<Rightarrow> None),
        ic_provider_change_id = (case change of Pull_request p \<Rightarrow> Some (pr_id p) | Local_branch _ \<Rightarrow> None),
        ic_provider_url = (case change of Pull_request p \<Rightarrow> pr_url p | Local_branch _ \<Rightarrow> None),
        ic_source_branch = sourceBranch change, ic_target_branch = targetBranch change,
        ic_revision = rr_revision (rd_subject rd), ic_review_baseline = rr_baseline (rd_subject rd),
        ic_reviewer = rd_reviewer rd, ic_implementer = rd_implementer rd, ic_started_at = rd_startedAt rd \<rparr>)"

fun decision_kind :: "reviewer_decision \<Rightarrow> string" where
  "decision_kind (Approved _) = ''approved''"
| "decision_kind (Changes_requested _) = ''changes-requested''"

fun decision_time :: "reviewer_decision \<Rightarrow> string" where
  "decision_time (Approved a) = ap_decidedAt a"
| "decision_time (Changes_requested c) = cr_decidedAt c"

fun decision_comment :: "reviewer_decision \<Rightarrow> string option" where
  "decision_comment (Approved a) = ap_comment a"
| "decision_comment (Changes_requested c) = cr_comment c"

definition reviewDecisionColumns :: "review_round \<Rightarrow> decision_columns" where
  "reviewDecisionColumns rd =
     (let decision = rd_decision rd in
      \<lparr> dc_decision_kind = map_option decision_kind decision,
        dc_decided_at = map_option decision_time decision,
        dc_decided_revision = Option.bind decision (\<lambda>d. given (decision_revision d)),
        dc_decision_comment = Option.bind decision decision_comment,
        dc_classifier_source = Option.bind decision decision_classifier,
        dc_integration_repair_assessment = map_option assessment_json (rd_assessment rd) \<rparr>)"

definition reviewApprovalColumns :: "review_round \<Rightarrow> approval_columns" where
  "reviewApprovalColumns rd =
     (case approval_of (rd_decision rd) of
        None \<Rightarrow> \<lparr> vc_mechanical_source = None, vc_approval_source_kind = None, vc_approval_source_provider = None \<rparr>
      | Some a \<Rightarrow>
          (case ap_source a of
             Mechanical_restoration source \<Rightarrow> \<lparr> vc_mechanical_source = Some (source_json source),
               vc_approval_source_kind = Some ''local'', vc_approval_source_provider = None \<rparr>
           | Local \<Rightarrow> \<lparr> vc_mechanical_source = None, vc_approval_source_kind = Some ''local'',
               vc_approval_source_provider = None \<rparr>
           | Provider provider \<Rightarrow> \<lparr> vc_mechanical_source = None, vc_approval_source_kind = Some ''provider'',
               vc_approval_source_provider = Some provider \<rparr>))"

fun cause_kind :: "revocation_cause \<Rightarrow> string" where
  "cause_kind Operator = ''operator''"
| "cause_kind (Integration_gate_failure _) = ''integration-gate-failure''"
| "cause_kind Review_repair = ''review-repair''"
| "cause_kind Rebase_repair = ''rebase-repair''"

definition revocation_of :: "review_round \<Rightarrow> revocation option" where
  "revocation_of rd = Option.bind (approval_of (rd_decision rd)) ap_revocation"

definition gateFailureColumns :: "review_round \<Rightarrow> string option \<times> string option \<times> string option" where
  "gateFailureColumns rd =
     (case Option.bind (revocation_of rd) rk_cause of
        Some (Integration_gate_failure g) \<Rightarrow> (gf_gate g, given (gf_command g), given (gf_log g))
      | _ \<Rightarrow> (None, None, None))"

definition reviewWithdrawalColumns :: "review_round \<Rightarrow> withdrawal_columns" where
  "reviewWithdrawalColumns rd =
     (let revocation = revocation_of rd; (gate, command, output) = gateFailureColumns rd in
      \<lparr> wc_revoked_at = map_option rk_revokedAt revocation, wc_revoked_by = map_option rk_revokedBy revocation,
        wc_revoked_reason = map_option rk_reason revocation,
        wc_revoked_cause = map_option cause_kind (Option.bind revocation rk_cause),
        wc_revoked_gate = gate, wc_revoked_gate_command = command, wc_revoked_gate_log = output \<rparr>)"

definition reviewSupersessionColumns :: "review_round \<Rightarrow> supersession_columns" where
  "reviewSupersessionColumns rd =
     (let supersession = Option.bind (approval_of (rd_decision rd)) ap_supersession in
      \<lparr> uc_superseded_at = map_option ss_supersededAt supersession,
        uc_superseding_revision = map_option ss_supersedingRevision supersession,
        uc_superseded_by = map_option ss_recordedBy supersession \<rparr>)"

definition reviewResponseColumns :: "review_round \<Rightarrow> response_columns" where
  "reviewResponseColumns rd =
     \<lparr> nc_responded_at = map_option ir_respondedAt (rd_response rd),
       nc_resulting_revision = map_option ir_resultingRevision (rd_response rd),
       nc_phase = phase_text (rd_phase rd), nc_disposition = map_option disposition_text (rd_disposition rd),
       nc_reviewer_retry_count = rd_reviewerRetryCount rd,
       nc_implementer_retry_count = rd_implementerRetryCount rd,
       nc_implementer_response_content = rd_implementerResponseContent rd,
       nc_item_dispositions = map_option items_json (rd_itemDispositions rd),
       nc_blocked_reason = rd_blockedReason rd \<rparr>"

definition round_row_of :: "nat \<Rightarrow> review_round \<Rightarrow> round_row" where
  "round_row_of position rd =
     \<lparr> rw_position = position, rw_identity = reviewIdentityColumns rd, rw_decision = reviewDecisionColumns rd,
       rw_approval = reviewApprovalColumns rd, rw_withdrawal = reviewWithdrawalColumns rd,
       rw_supersession = reviewSupersessionColumns rd, rw_response = reviewResponseColumns rd \<rparr>"

definition finding_rows :: "nat \<Rightarrow> review_round \<Rightarrow> finding_row list" where
  "finding_rows roundPosition rd =
     (case request_of (rd_decision rd) of
        None \<Rightarrow> []
      | Some c \<Rightarrow> map (\<lambda>(position, finding). \<lparr> fw_round_position = roundPosition, fw_position = position,
          fw_finding_id = rf_id finding, fw_summary = rf_summary finding, fw_location = rf_location finding \<rparr>)
          (enumerate 0 (cr_findings c)))"

fun resolution_kind_text :: "resolution_kind \<Rightarrow> string" where
  "resolution_kind_text (Fixed _) = ''fixed''"
| "resolution_kind_text (Disputed _) = ''disputed''"

definition resolution_rows :: "nat \<Rightarrow> review_round \<Rightarrow> resolution_row list" where
  "resolution_rows roundPosition rd =
     (case rd_response rd of
        None \<Rightarrow> []
      | Some response \<Rightarrow> map (\<lambda>(position, resolution). \<lparr> qw_round_position = roundPosition,
          qw_position = position, qw_finding_id = fr_findingId resolution,
          qw_kind = resolution_kind_text (fr_kind resolution), qw_explanation = explanation (fr_kind resolution) \<rparr>)
          (enumerate 0 (ir_resolutions response)))"

fun event_type_text :: "event_type \<Rightarrow> string" where
  "event_type_text Reviewer_findings = ''reviewer_findings''"
| "event_type_text Reviewer_outcome = ''reviewer_outcome''"
| "event_type_text Implementer_round_summary = ''implementer_round_summary''"
| "event_type_text Implementer_disposition = ''implementer_disposition''"
| "event_type_text Neutral_discussion = ''neutral_discussion''"
| "event_type_text Human_note = ''human_note''"
| "event_type_text Blocked_publication = ''blocked_publication''"
| "event_type_text Parked_followup = ''parked_followup''"

definition EVENT_TYPES :: "event_type list" where
  "EVENT_TYPES = [Reviewer_findings, Reviewer_outcome, Implementer_round_summary, Implementer_disposition,
     Neutral_discussion, Human_note, Blocked_publication, Parked_followup]"

definition event_row_of :: "nat \<Rightarrow> review_event \<Rightarrow> event_row" where
  "event_row_of position event =
     \<lparr> ew_position = position, ew_event_type = event_type_text (re_eventType event),
       ew_round_number = re_roundNumber event, ew_phase = re_phase event, ew_actor = re_actor event,
       ew_content = re_content event, ew_disposition = re_disposition event, ew_verdict = re_verdict event,
       ew_item_dispositions = map_option items_json (re_itemDispositions event),
       ew_blocked_reason = re_blockedReason event, ew_followup_reference = re_followUpReference event,
       ew_created_at = re_createdAt event \<rparr>"

fun requester_text :: "requester \<Rightarrow> string" where
  "requester_text By_reviewer = ''reviewer''"
| "requester_text By_implementer = ''implementer''"
| "requester_text By_workflow = ''workflow''"

definition launch_rows :: "launch_window \<Rightarrow> launch_row list" where
  "launch_rows w = map (\<lambda>(position, fingerprint). \<lparr> yw_stage_key = lw_stageKey w, yw_position = position,
     yw_fingerprint = fingerprint \<rparr>) (enumerate 0 (lw_fingerprints w))"

definition insertReview :: "review \<Rightarrow> review_rows" where
  "insertReview review =
     \<lparr> vr_review = Some \<lparr> iw_requested_at = map_option iv_requestedAt (intervention_of review),
         iw_requested_by = map_option (\<lambda>i. requester_text (iv_requestedBy i)) (intervention_of review),
         iw_reason = map_option iv_reason (intervention_of review) \<rparr>,
       vr_rounds = map (\<lambda>(position, rd). round_row_of position rd) (enumerate 0 (rounds review)),
       vr_findings = concat (map (\<lambda>(position, rd). finding_rows position rd) (enumerate 0 (rounds review))),
       vr_resolutions = concat (map (\<lambda>(position, rd). resolution_rows position rd) (enumerate 0 (rounds review))),
       vr_launches = concat (map launch_rows (stageLaunches review)),
       vr_events = map (\<lambda>(position, event). event_row_of position event) (enumerate 0 (reviewEvents review)) \<rparr>"

section \<open>Reading the tables\<close>

definition readReviewRows :: "review_rows \<Rightarrow> review_rows" where
  "readReviewRows stored =
     \<lparr> vr_review = vr_review stored, vr_rounds = sort_key rw_position (vr_rounds stored),
       vr_findings = sort_key (\<lambda>f. (fw_round_position f, fw_position f)) (vr_findings stored),
       vr_resolutions = sort_key (\<lambda>r. (qw_round_position r, qw_position r)) (vr_resolutions stored),
       vr_launches = sort_key (\<lambda>l. (yw_stage_key l, yw_position l)) (vr_launches stored),
       vr_events = sort_key ew_position (vr_events stored) \<rparr>"

section \<open>Rebuilding values\<close>

datatype row_error =
    Field_empty string | Integer_invalid string int | Change_kind_invalid string | Decision_kind_invalid string
  | Approval_source_invalid "string option" | Resolution_kind_invalid string | Cause_invalid string
  | Mechanical_row_invalid | Classifier_row_invalid | Intervention_actor_invalid string
  | Rounds_without_review | Review_without_rounds | Row_disposition_invalid string | Event_type_invalid string
  | Row_review review_error | Row_family selection_error | Row_restoration restoration_error
  | Row_classifier classifier_error

definition requiredText :: "string \<Rightarrow> string \<Rightarrow> row_error + string" where
  "requiredText value field = (if blank value then Inl (Field_empty field) else Inr value)"

definition requiredInteger :: "int \<Rightarrow> string \<Rightarrow> int \<Rightarrow> row_error + int" where
  "requiredInteger value field minimum =
     (if \<not> safe_integer value \<or> value < minimum then Inl (Integer_invalid field value) else Inr value)"

text \<open>\<open>typeof row.decided_revision === 'string' ? changeRevision(row.decided_revision) : null\<close>.\<close>

definition stored_revision :: "string option \<Rightarrow> row_error + revision field" where
  "stored_revision value =
     (case value of
        None \<Rightarrow> Inr Null
      | Some v \<Rightarrow> try_bind (map_error Row_review (changeRevision v)) (\<lambda>r. Inr (Present r)))"

definition revocationCause :: "withdrawal_columns \<Rightarrow> row_error + revocation_cause option" where
  "revocationCause row =
     (case wc_revoked_cause row of
        None \<Rightarrow> Inr None
      | Some kind \<Rightarrow>
          if kind = ''integration-gate-failure''
          then Inr (Some (Integration_gate_failure \<lparr> gf_gate = wc_revoked_gate row,
            gf_command = (case wc_revoked_gate_command row of None \<Rightarrow> Null | Some c \<Rightarrow> Present c),
            gf_log = (case wc_revoked_gate_log row of None \<Rightarrow> Null | Some l \<Rightarrow> Present l) \<rparr>))
          else if kind = ''operator'' then Inr (Some Operator)
          else if kind = ''review-repair'' then Inr (Some Review_repair)
          else if kind = ''rebase-repair'' then Inr (Some Rebase_repair)
          else Inl (Cause_invalid kind))"

text \<open>\<open>if (!row.revoked_at) { return {}; }\<close>: no withdrawal for \<open>NULL\<close> and for an empty text.\<close>

definition approvalRevocation :: "withdrawal_columns \<Rightarrow> row_error + revocation option" where
  "approvalRevocation row =
     (if default_to [] (wc_revoked_at row) = [] then Inr None
      else try_bind (revocationCause row) (\<lambda>cause.
        try_bind (requiredText (default_to [] (wc_revoked_at row)) ''revocation time'') (\<lambda>revokedAt.
        try_bind (requiredText (default_to [] (wc_revoked_by row)) ''revoker'') (\<lambda>revokedBy.
        try_bind (requiredText (default_to [] (wc_revoked_reason row)) ''revocation reason'') (\<lambda>reason.
          Inr (Some \<lparr> rk_revokedAt = revokedAt, rk_revokedBy = revokedBy, rk_reason = reason,
            rk_cause = cause \<rparr>))))))"

definition approvalSupersession :: "supersession_columns \<Rightarrow> row_error + supersession option" where
  "approvalSupersession row =
     (if default_to [] (uc_superseded_at row) = [] then Inr None
      else try_bind (requiredText (default_to [] (uc_superseded_at row)) ''supersession time'') (\<lambda>supersededAt.
        try_bind (requiredText (default_to [] (uc_superseding_revision row)) ''superseding revision'') (\<lambda>revision.
        try_bind (map_error Row_review (changeRevision revision)) (\<lambda>superseding.
        try_bind (requiredText (default_to [] (uc_superseded_by row)) ''superseding operation'') (\<lambda>recordedBy.
          Inr (Some \<lparr> ss_supersededAt = supersededAt, ss_supersedingRevision = superseding,
            ss_recordedBy = recordedBy \<rparr>))))))"

definition findingsFor :: "finding_row list \<Rightarrow> nat \<Rightarrow> row_error + review_finding list" where
  "findingsFor rows roundPosition =
     try_map (\<lambda>row.
       try_bind (map_error Row_review (reviewFindingId (fw_finding_id row))) (\<lambda>identity.
       try_bind (requiredText (fw_summary row) ''review finding summary'') (\<lambda>summary.
         Inr \<lparr> rf_id = identity, rf_summary = summary, rf_location = fw_location row \<rparr>)))
       (filter (\<lambda>row. fw_round_position row = roundPosition) rows)"

text \<open>A request whose findings were never stored reads as no decision.\<close>

definition decisionFor :: "round_row \<Rightarrow> finding_row list \<Rightarrow> row_error + reviewer_decision option" where
  "decisionFor row findings =
     (let d = rw_decision row; v = rw_approval row in
      case dc_decision_kind d of
        None \<Rightarrow> Inr None
      | Some kind \<Rightarrow>
          try_bind (requiredText (default_to [] (dc_decided_at d)) ''review decision time'') (\<lambda>decidedAt.
          if kind = ''changes-requested''
          then try_bind (findingsFor findings (rw_position row)) (\<lambda>fs.
            if fs = [] then Inr None
            else try_bind (stored_revision (dc_decided_revision d)) (\<lambda>revision.
              Inr (Some (Changes_requested \<lparr> cr_classifier = None, cr_revision = revision,
                cr_decidedAt = decidedAt, cr_comment = dc_decision_comment d, cr_findings = fs \<rparr>))))
          else if kind \<noteq> ''approved'' then Inl (Decision_kind_invalid kind)
          else if vc_approval_source_kind v \<notin> {Some ''local'', Some ''provider''}
          then Inl (Approval_source_invalid (vc_approval_source_kind v))
          else try_bind (stored_revision (dc_decided_revision d)) (\<lambda>revision.
            try_bind (if vc_approval_source_kind v = Some ''local'' then Inr Local
              else try_bind (requiredText (default_to [] (vc_approval_source_provider v)) ''approval provider'')
                (\<lambda>p. Inr (Provider p))) (\<lambda>source.
            try_bind (approvalRevocation (rw_withdrawal row)) (\<lambda>revocation.
            try_bind (approvalSupersession (rw_supersession row)) (\<lambda>supersession.
              Inr (Some (Approved \<lparr> ap_classifier = None, ap_revision = revision, ap_decidedAt = decidedAt,
                ap_comment = dc_decision_comment d, ap_source = source, ap_revocation = revocation,
                ap_supersession = supersession \<rparr>))))))))"

definition resolutionsFor :: "resolution_row list \<Rightarrow> nat \<Rightarrow> row_error + finding_resolution list" where
  "resolutionsFor rows roundPosition =
     try_map (\<lambda>row.
       try_bind (map_error Row_review (reviewFindingId (qw_finding_id row))) (\<lambda>identity.
       try_bind (requiredText (qw_explanation row) ''finding resolution'') (\<lambda>explained.
         if qw_kind row = ''fixed'' then Inr \<lparr> fr_findingId = identity, fr_kind = Fixed explained \<rparr>
         else if qw_kind row = ''disputed'' then Inr \<lparr> fr_findingId = identity, fr_kind = Disputed explained \<rparr>
         else Inl (Resolution_kind_invalid (qw_kind row)))))
       (filter (\<lambda>row. qw_round_position row = roundPosition) rows)"

definition mechanicalDecisionFor :: "round_row \<Rightarrow> reviewer_decision option \<Rightarrow> row_error + reviewer_decision option" where
  "mechanicalDecisionFor row stored =
     (case vc_mechanical_source (rw_approval row) of
        None \<Rightarrow> Inr stored
      | Some raw \<Rightarrow>
          (case (dc_integration_repair_assessment (rw_decision row), approval_of stored,
                 dc_classifier_source (rw_decision row)) of
             (Some raw_assessment, Some a, None) \<Rightarrow>
               try_bind (map_error Row_restoration (parseIntegrationRepairAssessment raw_assessment)) (\<lambda>assessment.
               try_bind (map_error Row_restoration (parseHistoricalApprovalSource raw
                 (Some (default_to (assessment_core_of assessment) (ia_priorRestoration assessment)))
                 (dc_decided_revision (rw_decision row)))) (\<lambda>source.
                 Inr (Some (Approved (a\<lparr>ap_source := Mechanical_restoration source\<rparr>)))))
           | _ \<Rightarrow> Inl Mechanical_row_invalid))"

fun with_classifier :: "classifier_source \<Rightarrow> reviewer_decision \<Rightarrow> reviewer_decision" where
  "with_classifier source (Approved a) = Approved (a\<lparr>ap_classifier := Some source\<rparr>)"
| "with_classifier source (Changes_requested c) = Changes_requested (c\<lparr>cr_classifier := Some source\<rparr>)"

definition classifierDecisionFor :: "round_row \<Rightarrow> finding_row list \<Rightarrow> row_error + reviewer_decision option" where
  "classifierDecisionFor row findings =
     try_bind (decisionFor row findings) (\<lambda>stored.
     try_bind (mechanicalDecisionFor row stored) (\<lambda>decision.
       case (decision, dc_classifier_source (rw_decision row)) of
         (Some d, Some source) \<Rightarrow>
           try_bind (map_error Row_classifier (assertClassifierReviewSource source)) (\<lambda>_.
             if cs_candidateRevision source \<noteq>
                  default_to (cs_candidateRevision source) (dc_decided_revision (rw_decision row)) \<or>
                clearingLabel source \<noteq> is_approval decision
             then Inl Classifier_row_invalid else Inr (Some (with_classifier source d)))
       | _ \<Rightarrow> Inr decision))"

text \<open>\<open>String(value)\<close>; \<open>nt\<close> is the language's number to text conversion.\<close>

fun json_string :: "(jsnum \<Rightarrow> string) \<Rightarrow> json \<Rightarrow> string" where
  "json_string nt J_null = ''null''"
| "json_string nt (J_bool b) = (if b then ''true'' else ''false'')"
| "json_string nt (J_num n) = nt n"
| "json_string nt (J_str s) = s"
| "json_string nt (J_arr js) = join '','' (map (\<lambda>j. if j = J_null then [] else json_string nt j) js)"
| "json_string nt (J_obj row) = ''[object Object]''"

text \<open>An entry that is not of a known shape is skipped (\<open>Some None\<close>); a blank finding identity makes
  \<open>reviewFindingId\<close> throw, which gives up the whole list (\<open>None\<close>).\<close>

definition item_of :: "(jsnum \<Rightarrow> string) \<Rightarrow> json \<Rightarrow> item_disposition option option" where
  "item_of nt j =
     (case j of
        J_obj row \<Rightarrow>
          (case (json_prop row ''kind'', json_prop row ''findingId'') of
             (Some kind, Some identity) \<Rightarrow>
               (case find_first (\<lambda>k. kind = J_str (item_kind_text k)) [Item_fixed, Item_pushed_back, Item_parked] of
                  None \<Rightarrow> Some None
                | Some k \<Rightarrow>
                    if is_ok (reviewFindingId (json_string nt identity))
                    then Some (Some \<lparr> id_kind = k, id_findingId = json_string nt identity \<rparr>) else None)
           | _ \<Rightarrow> Some None)
      | _ \<Rightarrow> Some None)"

definition parseItemDispositions :: "(jsnum \<Rightarrow> string) \<Rightarrow> json option \<Rightarrow> item_disposition list option" where
  "parseItemDispositions nt value =
     (case value of
        Some (J_arr js) \<Rightarrow>
          if list_ex (\<lambda>j. item_of nt j = None) js then None
          else let items = List.map_filter (\<lambda>j. case item_of nt j of Some (Some i) \<Rightarrow> Some i | _ \<Rightarrow> None) js in
            if items = [] then None else Some items
      | _ \<Rightarrow> None)"

definition reviewDispositionFrom :: "string option \<Rightarrow> row_error + disposition option" where
  "reviewDispositionFrom value =
     (case value of
        None \<Rightarrow> Inr None
      | Some v \<Rightarrow> (case find_first (\<lambda>d. disposition_text d = v) REVIEW_DISPOSITIONS of
            None \<Rightarrow> Inl (Row_disposition_invalid v) | Some d \<Rightarrow> Inr (Some d)))"

definition change_from :: "identity_columns \<Rightarrow> row_error + reviewed_change" where
  "change_from row =
     (if ic_change_kind row = ''pull-request''
      then try_bind (requiredText (default_to [] (ic_provider row)) ''review provider'') (\<lambda>provider.
        try_bind (requiredText (default_to [] (ic_provider_change_id row)) ''review provider id'') (\<lambda>identity.
        try_bind (requiredText (ic_source_branch row) ''review source branch'') (\<lambda>source.
        try_bind (requiredText (ic_target_branch row) ''review target branch'') (\<lambda>target.
          Inr (Pull_request \<lparr> pr_provider = provider, pr_id = identity, pr_url = ic_provider_url row,
            pr_sourceBranch = source, pr_targetBranch = target \<rparr>)))))
      else if ic_change_kind row = ''local-branch''
      then try_bind (requiredText (ic_source_branch row) ''review source branch'') (\<lambda>source.
        try_bind (requiredText (ic_target_branch row) ''review target branch'') (\<lambda>target.
          Inr (Local_branch \<lparr> lb_sourceBranch = source, lb_targetBranch = target \<rparr>)))
      else Inl (Change_kind_invalid (ic_change_kind row)))"

definition response_from :: "response_columns \<Rightarrow> resolution_row list \<Rightarrow> nat \<Rightarrow> row_error + implementer_resolution option" where
  "response_from row resolutions roundPosition =
     (case nc_responded_at row of
        None \<Rightarrow> Inr None
      | Some at_time \<Rightarrow>
          try_bind (requiredText at_time ''review response time'') (\<lambda>respondedAt.
          try_bind (resolutionsFor resolutions roundPosition) (\<lambda>answers.
          try_bind (requiredText (default_to [] (nc_resulting_revision row)) ''resulting revision'') (\<lambda>text_revision.
          try_bind (map_error Row_review (changeRevision text_revision)) (\<lambda>revision.
            Inr (Some \<lparr> ir_respondedAt = respondedAt, ir_resolutions = answers,
              ir_resultingRevision = revision \<rparr>))))))"

definition optional_parse :: "('a \<Rightarrow> 'e + 'b) \<Rightarrow> 'a option \<Rightarrow> 'e + 'b option" where
  "optional_parse p x = (case x of None \<Rightarrow> Inr None | Some v \<Rightarrow> map_sum id Some (p v))"

definition reviewRoundFrom ::
  "(jsnum \<Rightarrow> string) \<Rightarrow> review_rows \<Rightarrow> round_row \<Rightarrow> row_error + review_round" where
  "reviewRoundFrom nt records row =
     (let i = rw_identity row; n = rw_response row in
      try_bind (change_from i) (\<lambda>change.
      try_bind (response_from n (vr_resolutions records) (rw_position row)) (\<lambda>response.
      try_bind (optional_parse (\<lambda>j. map_error Row_restoration (parseIntegrationRepairAssessment j))
        (dc_integration_repair_assessment (rw_decision row))) (\<lambda>assessment.
      try_bind (requiredInteger (ic_round_number i) ''review round number'' 1) (\<lambda>number.
      try_bind (map_error Row_review (changeRevision (ic_revision i))) (\<lambda>revision.
      try_bind (if default_to [] (ic_review_baseline i) = [] then Inr None
        else optional_parse (\<lambda>b. map_error Row_review (changeRevision b)) (ic_review_baseline i)) (\<lambda>baseline.
      try_bind (map_error Row_family (agentFamily (ic_reviewer i))) (\<lambda>reviewer.
      try_bind (map_error Row_family (agentFamily (ic_implementer i))) (\<lambda>implementer.
      try_bind (requiredText (ic_started_at i) ''review start time'') (\<lambda>startedAt.
      try_bind (classifierDecisionFor row (vr_findings records)) (\<lambda>decision.
      try_bind (map_error Row_review (requireReviewPhase (nc_phase n))) (\<lambda>phase.
      try_bind (reviewDispositionFrom (nc_disposition n)) (\<lambda>disposition.
      try_bind (requiredInteger (nc_reviewer_retry_count n) ''reviewer retry count'' 0) (\<lambda>reviewer_retries.
      try_bind (requiredInteger (nc_implementer_retry_count n) ''implementer retry count'' 0) (\<lambda>implementer_retries.
        Inr \<lparr> rd_assessment = assessment, rd_number = number,
          rd_subject = \<lparr> rr_change = change, rr_revision = revision, rr_baseline = baseline \<rparr>,
          rd_reviewer = reviewer, rd_implementer = implementer, rd_startedAt = startedAt,
          rd_decision = decision, rd_response = response, rd_phase = phase, rd_disposition = disposition,
          rd_reviewerRetryCount = reviewer_retries, rd_implementerRetryCount = implementer_retries,
          rd_implementerResponseContent = nc_implementer_response_content n,
          rd_itemDispositions = parseItemDispositions nt (nc_item_dispositions n),
          rd_blockedReason = nc_blocked_reason n \<rparr>)))))))))))))))"

definition event_from :: "(jsnum \<Rightarrow> string) \<Rightarrow> event_row \<Rightarrow> row_error + review_event" where
  "event_from nt row =
     try_bind (requiredInteger (int (ew_position row)) ''review event position'' 0) (\<lambda>position.
     try_bind (requiredText (ew_event_type row) ''review event type'') (\<lambda>type_text.
     try_bind (require (Event_type_invalid type_text)
       (find_first (\<lambda>e. event_type_text e = type_text) EVENT_TYPES)) (\<lambda>event_type.
     try_bind (requiredText (ew_created_at row) ''review event created_at'') (\<lambda>createdAt.
       Inr \<lparr> re_position = position, re_eventType = event_type, re_roundNumber = ew_round_number row,
         re_phase = ew_phase row, re_actor = ew_actor row, re_content = ew_content row,
         re_disposition = ew_disposition row, re_verdict = ew_verdict row,
         re_itemDispositions = parseItemDispositions nt (ew_item_dispositions row),
         re_blockedReason = ew_blocked_reason row, re_followUpReference = ew_followup_reference row,
         re_createdAt = createdAt \<rparr>))))"

definition reviewEventsFrom :: "(jsnum \<Rightarrow> string) \<Rightarrow> review_rows \<Rightarrow> row_error + review_event list" where
  "reviewEventsFrom nt records = try_map (event_from nt) (vr_events records)"

definition add_launch :: "launch_window list \<Rightarrow> launch_row \<Rightarrow> launch_window list" where
  "add_launch windows row =
     (if yw_stage_key row \<in> set (map lw_stageKey windows)
      then map (\<lambda>w. if lw_stageKey w = yw_stage_key row
        then w\<lparr>lw_fingerprints := lw_fingerprints w @ [yw_fingerprint row]\<rparr> else w) windows
      else windows @ [\<lparr> lw_stageKey = yw_stage_key row, lw_fingerprints = [yw_fingerprint row] \<rparr>])"

definition stageLaunchesFrom :: "review_rows \<Rightarrow> row_error + launch_window list" where
  "stageLaunchesFrom records =
     try_bind (try_map (\<lambda>row. try_bind (requiredText (yw_fingerprint row) ''stage launch fingerprint'') (\<lambda>_. Inr row))
       (sort_key yw_position (vr_launches records))) (\<lambda>rows.
       Inr (foldl add_launch [] rows))"

definition intervention_from :: "review_row \<Rightarrow> row_error + intervention option" where
  "intervention_from row =
     (case iw_requested_at row of
        None \<Rightarrow> Inr None
      | Some requested \<Rightarrow>
          try_bind (requiredText requested ''intervention time'') (\<lambda>requestedAt.
          try_bind (requiredText (default_to [] (iw_reason row)) ''intervention reason'') (\<lambda>reason.
          try_bind (require (Intervention_actor_invalid (default_to [] (iw_requested_by row)))
            (find_first (\<lambda>b. Some (requester_text b) = iw_requested_by row) [By_reviewer, By_implementer, By_workflow]))
            (\<lambda>requestedBy.
            Inr (Some \<lparr> iv_requestedAt = requestedAt, iv_requestedBy = requestedBy, iv_reason = reason \<rparr>)))))"

definition reviewFrom :: "(jsnum \<Rightarrow> string) \<Rightarrow> review_rows \<Rightarrow> row_error + review option" where
  "reviewFrom nt records =
     (case vr_review records of
        None \<Rightarrow> if vr_rounds records \<noteq> [] then Inl Rounds_without_review else Inr None
      | Some row \<Rightarrow>
          try_bind (try_map (reviewRoundFrom nt records) (vr_rounds records)) (\<lambda>rs.
            if rs = [] then Inl Review_without_rounds
            else try_bind (intervention_from row) (\<lambda>intervention.
              try_bind (stageLaunchesFrom records) (\<lambda>windows.
              try_bind (reviewEventsFrom nt records) (\<lambda>events.
                Inr (Some \<lparr> rounds = rs, intervention_of = intervention, stageLaunches = windows,
                  reviewEvents = events \<rparr>))))))"

text \<open>The board reads the rounds, findings, resolutions and events only.\<close>

definition hydrateReviewProjection :: "(jsnum \<Rightarrow> string) \<Rightarrow> review_rows \<Rightarrow> row_error + review option" where
  "hydrateReviewProjection nt records =
     (if vr_rounds records = [] then Inr None
      else reviewFrom nt (records\<lparr>vr_review := Some \<lparr> iw_requested_at = None, iw_requested_by = None, iw_reason = None \<rparr>,
        vr_launches := []\<rparr>))"

section \<open>What a save keeps\<close>

text \<open>The value a load gives back: an absent decided revision, gate command or gate log becomes \<open>null\<close>,
  an empty baseline and an empty list of dispositions disappear, the launch windows come in the order of
  their keys, without windows that have no launch, and events are numbered by their place.\<close>

fun as_null :: "'a field \<Rightarrow> 'a field" where
  "as_null (Present x) = Present x"
| "as_null _ = Null"

definition kept_items :: "item_disposition list option \<Rightarrow> item_disposition list option" where
  "kept_items items = (if items = Some [] then None else items)"

fun kept_cause :: "revocation_cause \<Rightarrow> revocation_cause" where
  "kept_cause (Integration_gate_failure g) =
     Integration_gate_failure (g\<lparr>gf_command := as_null (gf_command g), gf_log := as_null (gf_log g)\<rparr>)"
| "kept_cause cause = cause"

fun kept_decision :: "reviewer_decision \<Rightarrow> reviewer_decision" where
  "kept_decision (Approved a) = Approved (a\<lparr>ap_revision := as_null (ap_revision a),
     ap_revocation := map_option (\<lambda>r. r\<lparr>rk_cause := map_option kept_cause (rk_cause r)\<rparr>) (ap_revocation a)\<rparr>)"
| "kept_decision (Changes_requested c) = Changes_requested (c\<lparr>cr_revision := as_null (cr_revision c)\<rparr>)"

definition kept_round :: "review_round \<Rightarrow> review_round" where
  "kept_round rd = rd\<lparr>
     rd_subject := (rd_subject rd)\<lparr>rr_baseline :=
       (if default_to [] (rr_baseline (rd_subject rd)) = [] then None else rr_baseline (rd_subject rd))\<rparr>,
     rd_decision := map_option kept_decision (rd_decision rd),
     rd_itemDispositions := kept_items (rd_itemDispositions rd)\<rparr>"

definition kept_windows :: "launch_window list \<Rightarrow> launch_window list" where
  "kept_windows windows = sort_key lw_stageKey (filter (\<lambda>w. lw_fingerprints w \<noteq> []) windows)"

definition kept_events :: "review_event list \<Rightarrow> review_event list" where
  "kept_events events = map (\<lambda>(position, event). event\<lparr>re_position := int position,
     re_itemDispositions := kept_items (re_itemDispositions event)\<rparr>) (enumerate 0 events)"

definition kept_review :: "review \<Rightarrow> review" where
  "kept_review r = r\<lparr>rounds := map kept_round (rounds r), stageLaunches := kept_windows (stageLaunches r),
     reviewEvents := kept_events (reviewEvents r)\<rparr>"

definition local_source :: "approval_source \<Rightarrow> approval_source" where
  "local_source source = (case source of Mechanical_restoration _ \<Rightarrow> Local | s \<Rightarrow> s)"

section \<open>What can be stored\<close>

definition stated :: "string option \<Rightarrow> bool" where
  "stated x = pred_option (\<lambda>s. \<not> blank s) x"

definition family_ok :: "agent_family \<Rightarrow> bool" where
  "family_ok f \<longleftrightarrow> agentFamily f = Inr f"

definition items_ok :: "item_disposition list option \<Rightarrow> bool" where
  "items_ok items = pred_option (list_all (\<lambda>i. \<not> blank (id_findingId i))) items"

definition classifier_ok :: "classifier_source option \<Rightarrow> revision field \<Rightarrow> bool \<Rightarrow> bool" where
  "classifier_ok source revision cleared =
     pred_option (\<lambda>s. is_ok (assertClassifierReviewSource s) \<and> clearingLabel s = cleared \<and>
       cs_candidateRevision s = default_to (cs_candidateRevision s) (given revision)) source"

fun source_storable :: "review_round \<Rightarrow> approval \<Rightarrow> bool" where
  "source_storable rd a =
     (case ap_source a of
        Local \<Rightarrow> True
      | Provider p \<Rightarrow> \<not> blank p
      | Mechanical_restoration source \<Rightarrow>
          source_ok source \<and> ap_classifier a = None \<and>
          pred_option (\<lambda>assessment. restores source
            (default_to (assessment_core_of assessment) (ia_priorRestoration assessment)) (given (ap_revision a)))
            (rd_assessment rd) \<and> rd_assessment rd \<noteq> None)"

fun decision_storable :: "review_round \<Rightarrow> reviewer_decision \<Rightarrow> bool" where
  "decision_storable rd (Approved a) \<longleftrightarrow>
     \<not> blank (ap_decidedAt a) \<and> stated (given (ap_revision a)) \<and> source_storable rd a \<and>
     pred_option (\<lambda>r. \<not> blank (rk_revokedAt r) \<and> \<not> blank (rk_revokedBy r) \<and> \<not> blank (rk_reason r)) (ap_revocation a) \<and>
     pred_option (\<lambda>s. \<not> blank (ss_supersededAt s) \<and> \<not> blank (ss_supersedingRevision s) \<and> \<not> blank (ss_recordedBy s))
       (ap_supersession a) \<and>
     classifier_ok (ap_classifier a) (ap_revision a) True"
| "decision_storable rd (Changes_requested c) \<longleftrightarrow>
     \<not> blank (cr_decidedAt c) \<and> stated (given (cr_revision c)) \<and> cr_findings c \<noteq> [] \<and>
     list_all (\<lambda>f. \<not> blank (rf_id f) \<and> \<not> blank (rf_summary f)) (cr_findings c) \<and>
     classifier_ok (cr_classifier c) (cr_revision c) False"

definition response_storable :: "implementer_resolution \<Rightarrow> bool" where
  "response_storable a \<longleftrightarrow> \<not> blank (ir_respondedAt a) \<and> \<not> blank (ir_resultingRevision a) \<and>
     list_all (\<lambda>r. \<not> blank (fr_findingId r) \<and> \<not> blank (explanation (fr_kind r))) (ir_resolutions a)"

definition round_storable :: "review_round \<Rightarrow> bool" where
  "round_storable rd \<longleftrightarrow>
     pred_option assessment_ok (rd_assessment rd) \<and> safe_integer (rd_number rd) \<and> 1 \<le> rd_number rd \<and>
     assertReviewedChange (rr_change (rd_subject rd)) = Inr () \<and> \<not> blank (rr_revision (rd_subject rd)) \<and>
     (default_to [] (rr_baseline (rd_subject rd)) = [] \<or> stated (rr_baseline (rd_subject rd))) \<and>
     family_ok (rd_reviewer rd) \<and> family_ok (rd_implementer rd) \<and> \<not> blank (rd_startedAt rd) \<and>
     pred_option (decision_storable rd) (rd_decision rd) \<and> pred_option response_storable (rd_response rd) \<and>
     safe_integer (rd_reviewerRetryCount rd) \<and> 0 \<le> rd_reviewerRetryCount rd \<and>
     safe_integer (rd_implementerRetryCount rd) \<and> 0 \<le> rd_implementerRetryCount rd \<and>
     items_ok (rd_itemDispositions rd)"

definition review_storable :: "review \<Rightarrow> bool" where
  "review_storable r \<longleftrightarrow> rounds r \<noteq> [] \<and> list_all round_storable (rounds r) \<and>
     pred_option (\<lambda>i. \<not> blank (iv_requestedAt i) \<and> \<not> blank (iv_reason i)) (intervention_of r) \<and>
     distinct (map lw_stageKey (stageLaunches r)) \<and>
     list_all (\<lambda>w. list_all (\<lambda>f. \<not> blank f) (lw_fingerprints w)) (stageLaunches r) \<and>
     safe_integer (int (length (reviewEvents r))) \<and>
     list_all (\<lambda>e. \<not> blank (re_createdAt e) \<and> items_ok (re_itemDispositions e)) (reviewEvents r)"

section \<open>Lemmas on rows\<close>

lemma text_Inr [simp]: "requiredText v f = Inr w \<longleftrightarrow> w = v \<and> \<not> blank v"
  by (auto simp: requiredText_def)

lemma text_ok [simp]: "\<not> blank v \<Longrightarrow> requiredText v f = Inr v"
  by simp

lemma integer_ok [simp]: "safe_integer v \<Longrightarrow> m \<le> v \<Longrightarrow> requiredInteger v f m = Inr v"
  by (simp add: requiredInteger_def)

lemma blank_nonempty: "\<not> blank v \<Longrightarrow> v \<noteq> []"
  by auto

lemma change_revision_ok [simp]: "\<not> blank v \<Longrightarrow> changeRevision v = Inr v"
  by (simp add: changeRevision_def)

lemma finding_id_ok [simp]: "\<not> blank v \<Longrightarrow> reviewFindingId v = Inr v"
  by (simp add: reviewFindingId_def)

lemma map_error_ok [simp]: "map_error g (Inr x) = Inr x"
  by (simp add: map_error_def)

lemma try_map_map:
  assumes "\<And>x. x \<in> set xs \<Longrightarrow> f (g x) = Inr (h x)"
  shows "try_map f (map g xs) = Inr (map h xs)"
  using assms by (simp add: try_map_Inr list.rel_map list_all2_same)

lemma filter_block:
  assumes "\<And>q x y. y \<in> set (f q x) \<Longrightarrow> key y = q"
  shows "filter (\<lambda>y. key y = p) (concat (map (\<lambda>(q, x). f q x) (enumerate n xs))) =
    (if n \<le> p \<and> p < n + length xs then f p (xs ! (p - n)) else [])"
proof (induction xs arbitrary: n)
  case Nil
  then show ?case by auto
next
  case (Cons x xs)
  have "filter (\<lambda>y. key y = p) (f n x) = (if p = n then f n x else [])"
    using assms[of _ n x] by (auto simp: filter_id_conv filter_empty_conv)
  then show ?case using Cons[of "Suc n"] by (auto simp: nth_Cons' Suc_diff_le)
qed

lemma sorted_blocks:
  fixes key :: "'b \<Rightarrow> nat \<times> nat"
  assumes "\<And>q x. sorted (map key (f q x))" and "\<And>q x y. y \<in> set (f q x) \<Longrightarrow> fst (key y) = q"
  shows "sorted (map key (concat (map (\<lambda>(q, x). f q x) (enumerate n xs)))) \<and>
    (\<forall>y\<in>set (concat (map (\<lambda>(q, x). f q x) (enumerate n xs))). n \<le> fst (key y))"
proof (induction xs arbitrary: n)
  case Nil
  then show ?case by simp
next
  case (Cons x xs)
  let ?rest = "concat (map (\<lambda>(q, x). f q x) (enumerate (Suc n) xs))"
  have here: "\<forall>y\<in>set (f n x). fst (key y) = n" using assms(2) by blast
  have rest: "sorted (map key ?rest)" "\<forall>y\<in>set ?rest. Suc n \<le> fst (key y)" using Cons[of "Suc n"] by blast+
  have "key y \<le> key z" if "y \<in> set (f n x)" "z \<in> set ?rest" for y z
    using here rest(2) that by (fastforce simp: less_eq_prod_def)
  then have "sorted (map key (f n x @ ?rest))"
    using assms(1)[of n x] rest(1) by (simp add: sorted_append del: set_concat)
  moreover have "\<forall>y\<in>set (f n x @ ?rest). n \<le> fst (key y)"
    using here rest(2) by (auto simp del: set_concat)
  ultimately show ?case by simp
qed

lemma sorted_enumerate_rows: "sorted (map (\<lambda>r. (q :: nat, pos r)) (map (\<lambda>(i, x). g i x) (enumerate n xs)))"
  if "\<And>i x. pos (g i x) = (i :: nat)"
  using that by (induction xs arbitrary: n) (auto simp: less_eq_prod_def in_set_enumerate_eq)

section \<open>Reading back one round\<close>

lemma stored_revision_ok: "stated (given f) \<Longrightarrow> stored_revision (given f) = Inr (as_null f)"
  by (cases f) (simp_all add: stored_revision_def stated_def)

lemma revocation_columns_ok:
  assumes "rd_decision rd = Some (Approved a)" and "decision_storable rd (Approved a)"
  shows "approvalRevocation (reviewWithdrawalColumns rd) =
    Inr (map_option (\<lambda>r. r\<lparr>rk_cause := map_option kept_cause (rk_cause r)\<rparr>) (ap_revocation a))"
proof (cases "ap_revocation a")
  case None
  then show ?thesis using assms(1)
    by (simp add: approvalRevocation_def reviewWithdrawalColumns_def revocation_of_def gateFailureColumns_def)
next
  case (Some r)
  have nb: "\<not> blank (rk_revokedAt r)" "\<not> blank (rk_revokedBy r)" "\<not> blank (rk_reason r)"
    using assms Some by simp_all
  have "revocationCause (reviewWithdrawalColumns rd) = Inr (map_option kept_cause (rk_cause r))"
  proof (cases "rk_cause r")
    case None
    then show ?thesis using assms(1) Some
      by (simp add: revocationCause_def reviewWithdrawalColumns_def revocation_of_def gateFailureColumns_def)
  next
    case (Some c)
    then show ?thesis using assms(1) \<open>ap_revocation a = Some r\<close>
    proof (cases c)
      case (Integration_gate_failure g)
      then show ?thesis using Some assms(1) \<open>ap_revocation a = Some r\<close>
        by (cases g; cases "gf_command g"; cases "gf_log g")
          (simp_all add: revocationCause_def reviewWithdrawalColumns_def revocation_of_def gateFailureColumns_def)
    qed (simp_all add: revocationCause_def reviewWithdrawalColumns_def revocation_of_def gateFailureColumns_def)
  qed
  then show ?thesis using assms(1) Some nb blank_nonempty[OF nb(1)]
    by (cases r) (simp add: approvalRevocation_def reviewWithdrawalColumns_def revocation_of_def split: prod.split)
qed

lemma supersession_columns_ok:
  assumes "rd_decision rd = Some (Approved a)" and "decision_storable rd (Approved a)"
  shows "approvalSupersession (reviewSupersessionColumns rd) = Inr (ap_supersession a)"
  using assms
  by (cases "ap_supersession a")
    (auto simp: approvalSupersession_def reviewSupersessionColumns_def)

lemma try_map_enumerate:
  assumes "\<And>i x. n \<le> i \<Longrightarrow> i < n + length xs \<Longrightarrow> x \<in> set xs \<Longrightarrow> f (g i x) = Inr (h i x)"
  shows "try_map f (map (\<lambda>(i, x). g i x) (enumerate n xs)) = Inr (map (\<lambda>(i, x). h i x) (enumerate n xs))"
  by (rule try_map_map) (auto simp: in_set_enumerate_eq intro!: assms)

lemma map_value_enumerate [simp]: "map (\<lambda>(i, x). x) (enumerate n xs) = xs"
  using map_snd_enumerate[of n xs] by (simp add: case_prod_beta')

lemma findings_ok:
  assumes "filter (\<lambda>r. fw_round_position r = p) rows = finding_rows p rd"
    and "rd_decision rd = Some (Changes_requested c)" and "decision_storable rd (Changes_requested c)"
  shows "findingsFor rows p = Inr (cr_findings c)"
proof -
  have ok: "\<not> blank (rf_id f) \<and> \<not> blank (rf_summary f)" if "f \<in> set (cr_findings c)" for f
    using assms(3) that by (auto simp: list_all_iff)
  show ?thesis
    unfolding findingsFor_def assms(1) finding_rows_def assms(2)
    by (simp, subst try_map_enumerate[where h = "\<lambda>_ f. f"]) (auto simp: ok)
qed

lemma resolutions_ok:
  assumes "filter (\<lambda>r. qw_round_position r = p) rows = resolution_rows p rd"
    and "rd_response rd = Some a" and "response_storable a"
  shows "resolutionsFor rows p = Inr (ir_resolutions a)"
proof -
  have ok: "\<not> blank (fr_findingId r) \<and> \<not> blank (explanation (fr_kind r))" if "r \<in> set (ir_resolutions a)" for r
    using assms(3) that by (auto simp: list_all_iff response_storable_def)
  have kind: "resolution_kind_text (fr_kind r) = ''fixed'' \<Longrightarrow> \<lparr> fr_findingId = fr_findingId r, fr_kind = Fixed (explanation (fr_kind r)) \<rparr> = r"
    "resolution_kind_text (fr_kind r) = ''disputed'' \<Longrightarrow> \<lparr> fr_findingId = fr_findingId r, fr_kind = Disputed (explanation (fr_kind r)) \<rparr> = r"
    "resolution_kind_text (fr_kind r) \<noteq> ''disputed'' \<Longrightarrow> resolution_kind_text (fr_kind r) = ''fixed''" for r
    by (cases r; cases "fr_kind r"; simp)+
  show ?thesis
    unfolding resolutionsFor_def assms(1) resolution_rows_def assms(2)
    by (simp, subst try_map_enumerate[where h = "\<lambda>_ r. r"]) (auto simp: ok kind)
qed

lemma response_ok:
  assumes "filter (\<lambda>r. qw_round_position r = p) rows = resolution_rows p rd" and "pred_option response_storable (rd_response rd)"
  shows "response_from (reviewResponseColumns rd) rows p = Inr (rd_response rd)"
proof (cases "rd_response rd")
  case None
  then show ?thesis by (simp add: response_from_def reviewResponseColumns_def)
next
  case (Some a)
  then show ?thesis using assms resolutions_ok[OF assms(1) Some]
    by (cases a) (auto simp: response_from_def reviewResponseColumns_def response_storable_def)
qed

lemma change_ok:
  assumes "assertReviewedChange (rr_change (rd_subject rd)) = Inr ()"
  shows "change_from (reviewIdentityColumns rd) = Inr (rr_change (rd_subject rd))"
  using assms
  by (cases "rr_change (rd_subject rd)")
    (auto simp: change_from_def reviewIdentityColumns_def Let_def split: if_splits)

lemma items_ok_parse:
  assumes "items_ok items"
  shows "parseItemDispositions nt (map_option items_json items) = kept_items items"
proof (cases items)
  case None
  then show ?thesis by (simp add: parseItemDispositions_def kept_items_def)
next
  case (Some xs)
  have one: "item_of nt (J_obj [(''kind'', J_str (item_kind_text (id_kind i))), (''findingId'', J_str (id_findingId i))]) = Some (Some i)"
    if "i \<in> set xs" for i
    using assms that Some by (cases i; cases "id_kind i") (auto simp: item_of_def items_ok_def list_all_iff)
  have "List.map_filter (\<lambda>j. case item_of nt j of Some (Some i) \<Rightarrow> Some i | _ \<Rightarrow> None)
      (map (\<lambda>i. J_obj [(''kind'', J_str (item_kind_text (id_kind i))), (''findingId'', J_str (id_findingId i))]) ys) = ys"
    if "set ys \<subseteq> set xs" for ys
    using that one by (induction ys) auto
  from this[of xs] show ?thesis using Some one
    by (auto simp: parseItemDispositions_def items_json_def kept_items_def list_ex_iff)
qed

lemma request_decision_ok:
  assumes "filter (\<lambda>r. fw_round_position r = p) rows = finding_rows p rd"
    and d: "rd_decision rd = Some (Changes_requested c)" and ok: "decision_storable rd (Changes_requested c)"
  shows "decisionFor (round_row_of p rd) rows =
    Inr (Some (Changes_requested (c\<lparr>cr_classifier := None, cr_revision := as_null (cr_revision c)\<rparr>)))"
  using findings_ok[OF assms] ok d
  by (simp add: decisionFor_def round_row_of_def reviewDecisionColumns_def stored_revision_ok)

lemma approved_decision_ok:
  assumes d: "rd_decision rd = Some (Approved a)" and ok: "decision_storable rd (Approved a)"
  shows "decisionFor (round_row_of p rd) rows =
    Inr (Some (Approved (a\<lparr>ap_classifier := None, ap_revision := as_null (ap_revision a),
      ap_source := local_source (ap_source a),
      ap_revocation := map_option (\<lambda>r. r\<lparr>rk_cause := map_option kept_cause (rk_cause r)\<rparr>) (ap_revocation a)\<rparr>)))"
  using revocation_columns_ok[OF assms] supersession_columns_ok[OF assms] ok d
  by (cases "ap_source a")
    (simp_all add: decisionFor_def round_row_of_def reviewDecisionColumns_def reviewApprovalColumns_def
      stored_revision_ok local_source_def)

lemma mechanical_ok:
  assumes d: "rd_decision rd = Some (Approved a)" and ok: "decision_storable rd (Approved a)"
    and assessment: "pred_option assessment_ok (rd_assessment rd)"
    and b: "ap_source b = local_source (ap_source a)"
  shows "mechanicalDecisionFor (round_row_of p rd) (Some (Approved b)) = Inr (Some (Approved (b\<lparr>ap_source := ap_source a\<rparr>)))"
proof (cases "ap_source a")
  case (Mechanical_restoration source)
  obtain x where x: "rd_assessment rd = Some x" "assessment_ok x" "source_ok source" "ap_classifier a = None"
    "restores source (default_to (assessment_core_of x) (ia_priorRestoration x)) (given (ap_revision a))"
    using ok assessment Mechanical_restoration by auto
  have "parseIntegrationRepairAssessment (assessment_json x) = Inr x"
    using assessment_json_read x(2) by simp
  then show ?thesis using Mechanical_restoration d x
    by (simp add: mechanicalDecisionFor_def round_row_of_def reviewDecisionColumns_def reviewApprovalColumns_def parse_source_json)
qed (use d b in \<open>simp_all add: mechanicalDecisionFor_def round_row_of_def reviewApprovalColumns_def local_source_def\<close>)

lemma decision_ok:
  assumes rows: "filter (\<lambda>r. fw_round_position r = p) rows = finding_rows p rd"
    and ok: "pred_option (decision_storable rd) (rd_decision rd)" and assessment: "pred_option assessment_ok (rd_assessment rd)"
  shows "classifierDecisionFor (round_row_of p rd) rows = Inr (map_option kept_decision (rd_decision rd))"
proof (cases "rd_decision rd")
  case None
  then show ?thesis
    by (simp add: classifierDecisionFor_def decisionFor_def mechanicalDecisionFor_def round_row_of_def
        reviewDecisionColumns_def reviewApprovalColumns_def)
next
  case (Some d)
  note here = Some
  show ?thesis
  proof (cases d)
    case (Approved a)
    have d: "rd_decision rd = Some (Approved a)" and s: "decision_storable rd (Approved a)" using here Approved ok by simp_all
    let ?b = "a\<lparr>ap_classifier := None, ap_revision := as_null (ap_revision a), ap_source := local_source (ap_source a),
      ap_revocation := map_option (\<lambda>r. r\<lparr>rk_cause := map_option kept_cause (rk_cause r)\<rparr>) (ap_revocation a)\<rparr>"
    have m: "mechanicalDecisionFor (round_row_of p rd) (Some (Approved ?b)) = Inr (Some (Approved (?b\<lparr>ap_source := ap_source a\<rparr>)))"
      by (rule mechanical_ok[OF d s assessment]) simp
    show ?thesis
      using approved_decision_ok[OF d s, of p rows] m d s
      by (cases a; cases "ap_classifier a")
        (auto simp: classifierDecisionFor_def round_row_of_def reviewDecisionColumns_def classifier_ok_def is_ok_iff)
  next
    case (Changes_requested c)
    have d: "rd_decision rd = Some (Changes_requested c)" and s: "decision_storable rd (Changes_requested c)"
      using here Changes_requested ok by simp_all
    show ?thesis
      using request_decision_ok[OF rows d s] d s
      by (cases c; cases "cr_classifier c")
        (auto simp: classifierDecisionFor_def mechanicalDecisionFor_def round_row_of_def reviewDecisionColumns_def
          reviewApprovalColumns_def classifier_ok_def is_ok_iff)
  qed
qed

lemma phase_ok: "requireReviewPhase (phase_text phase) = Inr phase"
  by (cases phase) (simp_all add: requireReviewPhase_def parseReviewPhase_def REVIEW_PHASES_def)

lemma disposition_ok: "reviewDispositionFrom (map_option disposition_text d) = Inr d"
proof (cases d)
  case (Some x)
  then show ?thesis by (cases x) (simp_all add: reviewDispositionFrom_def REVIEW_DISPOSITIONS_def)
qed (simp add: reviewDispositionFrom_def)

lemma assessment_column_ok:
  "pred_option assessment_ok a \<Longrightarrow>
    optional_parse (\<lambda>j. map_error Row_restoration (parseIntegrationRepairAssessment j)) (map_option assessment_json a) = Inr a"
  by (cases a) (simp_all add: optional_parse_def assessment_json_read)

lemma round_row_simps [simp]:
  "rw_position (round_row_of p rd) = p" "rw_identity (round_row_of p rd) = reviewIdentityColumns rd"
  "rw_decision (round_row_of p rd) = reviewDecisionColumns rd" "rw_response (round_row_of p rd) = reviewResponseColumns rd"
  by (simp_all add: round_row_of_def)

lemma identity_columns_simps [simp]:
  "ic_round_number (reviewIdentityColumns rd) = rd_number rd" "ic_revision (reviewIdentityColumns rd) = rr_revision (rd_subject rd)"
  "ic_review_baseline (reviewIdentityColumns rd) = rr_baseline (rd_subject rd)"
  "ic_reviewer (reviewIdentityColumns rd) = rd_reviewer rd" "ic_implementer (reviewIdentityColumns rd) = rd_implementer rd"
  "ic_started_at (reviewIdentityColumns rd) = rd_startedAt rd"
  by (simp_all add: reviewIdentityColumns_def Let_def)

lemma baseline_ok:
  assumes "default_to [] b = [] \<or> stated b"
  shows "(if default_to [] b = [] then Inr None else optional_parse (\<lambda>b. map_error Row_review (changeRevision b)) b) =
    Inr (if default_to [] b = [] then None else b)"
  using assms by (cases b) (auto simp: optional_parse_def stated_def)

lemma round_read:
  assumes "round_storable rd" and "filter (\<lambda>r. fw_round_position r = p) (vr_findings records) = finding_rows p rd"
    and "filter (\<lambda>r. qw_round_position r = p) (vr_resolutions records) = resolution_rows p rd"
  shows "reviewRoundFrom nt records (round_row_of p rd) = Inr (kept_round rd)"
proof -
  note r = assms(1)[unfolded round_storable_def]
  have dec: "classifierDecisionFor (round_row_of p rd) (vr_findings records) = Inr (map_option kept_decision (rd_decision rd))"
    using decision_ok[OF assms(2)] r by blast
  have resp: "response_from (reviewResponseColumns rd) (vr_resolutions records) p = Inr (rd_response rd)"
    using response_ok[OF assms(3)] r by blast
  have ass: "optional_parse (\<lambda>j. map_error Row_restoration (parseIntegrationRepairAssessment j))
      (dc_integration_repair_assessment (reviewDecisionColumns rd)) = Inr (rd_assessment rd)"
    using assessment_column_ok r by (simp add: reviewDecisionColumns_def Let_def)
  have cols: "nc_phase (reviewResponseColumns rd) = phase_text (rd_phase rd)"
    "nc_disposition (reviewResponseColumns rd) = map_option disposition_text (rd_disposition rd)"
    "nc_reviewer_retry_count (reviewResponseColumns rd) = rd_reviewerRetryCount rd"
    "nc_implementer_retry_count (reviewResponseColumns rd) = rd_implementerRetryCount rd"
    "nc_implementer_response_content (reviewResponseColumns rd) = rd_implementerResponseContent rd"
    "nc_item_dispositions (reviewResponseColumns rd) = map_option items_json (rd_itemDispositions rd)"
    "nc_blocked_reason (reviewResponseColumns rd) = rd_blockedReason rd"
    by (simp_all add: reviewResponseColumns_def)
  have fam: "agentFamily (rd_reviewer rd) = Inr (rd_reviewer rd)" "agentFamily (rd_implementer rd) = Inr (rd_implementer rd)"
    using r by (simp_all add: family_ok_def)
  have base: "default_to [] (rr_baseline (rd_subject rd)) = [] \<or> stated (rr_baseline (rd_subject rd))" using r by blast
  show ?thesis
    using r unfolding reviewRoundFrom_def Let_def round_row_simps identity_columns_simps dec resp ass cols fam
      baseline_ok[OF base]
    by (cases rd; cases "rd_subject rd")
      (simp add: change_ok phase_ok disposition_ok items_ok_parse kept_round_def)
qed


lemma event_type_ok: "find_first (\<lambda>e. event_type_text e = event_type_text t) EVENT_TYPES = Some t" "\<not> blank (event_type_text t)"
  by (cases t; simp add: EVENT_TYPES_def blank_code js_space_def)+

lemma events_ok:
  assumes "safe_integer (int (length es))" and "list_all (\<lambda>e. \<not> blank (re_createdAt e) \<and> items_ok (re_itemDispositions e)) es"
    and "vr_events records = map (\<lambda>(position, event). event_row_of position event) (enumerate 0 es)"
  shows "reviewEventsFrom nt records = Inr (kept_events es)"
  unfolding reviewEventsFrom_def assms(3) kept_events_def
proof (rule try_map_enumerate)
  fix i e assume i: "0 \<le> i" "i < 0 + length es" and e: "e \<in> set es"
  have "\<not> blank (re_createdAt e)" "items_ok (re_itemDispositions e)" using assms(2) e by (auto simp: list_all_iff)
  moreover have "safe_integer (int i)" using assms(1) i by (simp add: safe_integer_def)
  ultimately show "event_from nt (event_row_of i e) = Inr (e\<lparr>re_position := int i, re_itemDispositions := kept_items (re_itemDispositions e)\<rparr>)"
    by (cases e) (simp add: event_from_def event_row_of_def event_type_ok items_ok_parse)
qed

section \<open>Reading back the launch windows\<close>

lemma dedupe_append: "dedupe (xs @ ys) = dedupe xs @ filter (\<lambda>y. y \<notin> set xs) (dedupe ys)"
  by (induction xs) (auto intro: filter_cong)

lemma dedupe_subset: "set ys \<subseteq> set xs \<Longrightarrow> dedupe (xs @ ys) = dedupe xs"
  by (auto simp: dedupe_append filter_empty_conv)

lemma add_launches:
  "foldl add_launch [] rows = map (\<lambda>k. \<lparr> lw_stageKey = k,
     lw_fingerprints = map yw_fingerprint (filter (\<lambda>r. yw_stage_key r = k) rows) \<rparr>) (dedupe (map yw_stage_key rows))"
proof (induction rows rule: rev_induct)
  case Nil
  then show ?case by simp
next
  case (snoc r rows)
  let ?win = "\<lambda>rows k. \<lparr> lw_stageKey = k, lw_fingerprints = map yw_fingerprint (filter (\<lambda>r. yw_stage_key r = k) rows) \<rparr>"
  have keys: "set (map lw_stageKey (map (?win rows) ks)) = set ks" for ks by (simp add: image_image)
  show ?case
  proof (cases "yw_stage_key r \<in> set (map yw_stage_key rows)")
    case True
    then have "yw_stage_key r \<in> set (map lw_stageKey (foldl add_launch [] rows))"
      using snoc keys[of "dedupe (map yw_stage_key rows)"] by simp
    then have "foldl add_launch [] (rows @ [r]) = map (\<lambda>w. if lw_stageKey w = yw_stage_key r
        then w\<lparr>lw_fingerprints := lw_fingerprints w @ [yw_fingerprint r]\<rparr> else w) (foldl add_launch [] rows)"
      by (simp add: add_launch_def)
    then show ?thesis using True by (auto simp: snoc dedupe_append)
  next
    case False
    then have none: "filter (\<lambda>x. yw_stage_key x = yw_stage_key r) rows = []"
      by (metis (mono_tags, lifting) filter_False image_eqI set_map)
    have same: "map (?win (rows @ [r])) (dedupe (map yw_stage_key rows)) = map (?win rows) (dedupe (map yw_stage_key rows))"
      using False by (auto simp: image_iff)
    have "foldl add_launch [] (rows @ [r]) = map (?win rows) (dedupe (map yw_stage_key rows)) @ [?win [r] (yw_stage_key r)]"
    proof -
      have "yw_stage_key r \<notin> set (map lw_stageKey (foldl add_launch [] rows))"
        using False snoc keys[of "dedupe (map yw_stage_key rows)"] by simp
      then have "foldl add_launch [] (rows @ [r]) =
          foldl add_launch [] rows @ [\<lparr> lw_stageKey = yw_stage_key r, lw_fingerprints = [yw_fingerprint r] \<rparr>]"
        by (simp add: add_launch_def)
      then show ?thesis by (simp add: snoc)
    qed
    also have "\<dots> = map (?win (rows @ [r])) (dedupe (map yw_stage_key (rows @ [r])))"
      using False none same by (simp add: dedupe_append)
    finally show ?thesis .
  qed
qed

lemma insort_key_map: "insort_key f (g x) (map g ys) = map g (insort_key (\<lambda>x. f (g x)) x ys)"
  by (induction ys) auto

lemma sort_key_map: "sort_key f (map g xs) = map g (sort_key (\<lambda>x. f (g x)) xs)"
  by (induction xs) (auto simp: insort_key_map)

lemma insort_key_pair: "insort_key (\<lambda>x. (f x, c :: nat)) x ys = insort_key f x ys"
  by (induction ys) (auto simp: less_eq_prod_def)

lemma sort_key_pair: "sort_key (\<lambda>x. (f x, c :: nat)) xs = sort_key f xs"
  by (induction xs) (auto simp: insort_key_pair)

lemma sort_key_const: "(\<And>x. x \<in> set xs \<Longrightarrow> f x = c) \<Longrightarrow> sort_key f xs = xs"
  by (rule sort_key_id_if_sorted) (induction xs, auto)

lemma sorted_zero_first:
  fixes f :: "'a \<Rightarrow> nat"
  shows "sorted (map f xs) \<Longrightarrow> xs = filter (\<lambda>x. f x = 0) xs @ filter (\<lambda>x. f x \<noteq> 0) xs"
proof (induction xs)
  case Nil
  then show ?case by simp
next
  case (Cons x xs)
  show ?case
  proof (cases "f x = 0")
    case False
    then have "\<forall>y\<in>set xs. f y \<noteq> 0" using Cons.prems by fastforce
    then show ?thesis using False by simp
  qed (use Cons in simp)
qed

lemma launch_rows_key: "r \<in> set (launch_rows w) \<Longrightarrow> yw_stage_key r = lw_stageKey w"
  by (auto simp: launch_rows_def)

lemma launch_rows_of:
  assumes "distinct (map lw_stageKey ws)" and "w \<in> set ws"
  shows "filter (\<lambda>r. yw_stage_key r = lw_stageKey w) (concat (map launch_rows ws)) = launch_rows w"
  using assms
proof (induction ws)
  case (Cons v ws)
  have other: "filter (\<lambda>r. yw_stage_key r = lw_stageKey w) (launch_rows v) = (if lw_stageKey v = lw_stageKey w then launch_rows v else [])" for v
    by (auto simp: filter_id_conv filter_empty_conv launch_rows_key)
  show ?case
  proof (cases "w = v")
    case True
    then have "filter (\<lambda>r. yw_stage_key r = lw_stageKey w) (concat (map launch_rows ws)) = []"
      using Cons.prems(1) by (auto simp: filter_empty_conv dest!: launch_rows_key)
    then show ?thesis using True other[of v] by simp
  next
    case False
    then have "w \<in> set ws" "lw_stageKey v \<noteq> lw_stageKey w" using Cons.prems by auto
    then show ?thesis using Cons other[of v] by simp
  qed
qed simp

lemma launch_rows_first:
  "filter (\<lambda>r. yw_position r = 0) (launch_rows w) =
    (if lw_fingerprints w = [] then [] else [\<lparr> yw_stage_key = lw_stageKey w, yw_position = 0, yw_fingerprint = hd (lw_fingerprints w) \<rparr>])"
proof (cases "lw_fingerprints w")
  case (Cons f fs)
  have "filter (\<lambda>r. yw_position r = 0) (map (\<lambda>(position, fingerprint). \<lparr> yw_stage_key = k, yw_position = position,
     yw_fingerprint = fingerprint \<rparr>) (enumerate (Suc 0) fs)) = []" for k
    by (auto simp: filter_empty_conv in_set_enumerate_eq)
  then show ?thesis using Cons by (simp add: launch_rows_def)
qed (simp add: launch_rows_def)

lemma launch_rows_firsts:
  "filter (\<lambda>r. yw_position r = 0) (concat (map launch_rows ws)) =
    map (\<lambda>w. \<lparr> yw_stage_key = lw_stageKey w, yw_position = 0, yw_fingerprint = hd (lw_fingerprints w) \<rparr>)
      (filter (\<lambda>w. lw_fingerprints w \<noteq> []) ws)"
  by (induction ws) (simp_all add: launch_rows_first)

lemma launch_rows_sorted:
  "sorted (map yw_position (launch_rows w))" "sorted (map (\<lambda>r. (yw_stage_key r, yw_position r)) (launch_rows w))"
proof -
  have "map yw_position (launch_rows w) = map fst (enumerate 0 (lw_fingerprints w))"
    by (simp add: launch_rows_def comp_def case_prod_beta')
  then show pos: "sorted (map yw_position (launch_rows w))" by simp
  then show "sorted (map (\<lambda>r. (yw_stage_key r, yw_position r)) (launch_rows w))"
    unfolding sorted_map by (rule sorted_wrt_mono_rel[rotated]) (simp add: less_eq_prod_def launch_rows_key)
qed

lemma launch_window_read: "\<lparr> lw_stageKey = lw_stageKey w, lw_fingerprints = map yw_fingerprint (launch_rows w) \<rparr> = w"
  by (cases w) (simp add: launch_rows_def comp_def case_prod_beta')

lemma launches_first:
  fixes rows :: "launch_row list"
  assumes "sorted (map yw_position rows)"
    and "yw_stage_key ` set rows \<subseteq> yw_stage_key ` set (filter (\<lambda>r. yw_position r = 0) rows)"
    and "distinct (map yw_stage_key (filter (\<lambda>r. yw_position r = 0) rows))"
  shows "dedupe (map yw_stage_key rows) = map yw_stage_key (filter (\<lambda>r. yw_position r = 0) rows)"
proof -
  let ?first = "filter (\<lambda>r. yw_position r = 0) rows" and ?rest = "filter (\<lambda>r. yw_position r \<noteq> 0) rows"
  have "rows = ?first @ ?rest" by (rule sorted_zero_first[OF assms(1)])
  then have "map yw_stage_key rows = map yw_stage_key ?first @ map yw_stage_key ?rest" by (metis map_append)
  moreover have "set (map yw_stage_key ?rest) \<subseteq> set (map yw_stage_key ?first)" using assms(2) by fastforce
  ultimately show ?thesis using assms(3) by (simp add: dedupe_subset dedupe_distinct del: set_map)
qed

lemma windows_read:
  fixes ws :: "launch_window list"
  assumes distinct: "distinct (map lw_stageKey ws)"
    and ok: "list_all (\<lambda>w. list_all (\<lambda>f. \<not> blank f) (lw_fingerprints w)) ws"
    and rows: "vr_launches records = sort_key (\<lambda>r. (yw_stage_key r, yw_position r)) (concat (map launch_rows ws))"
  shows "stageLaunchesFrom records = Inr (kept_windows ws)"
proof -
  let ?kp = "\<lambda>r. (yw_stage_key r, yw_position r)"
  let ?all = "concat (map launch_rows ws)" and ?V = "filter (\<lambda>w. lw_fingerprints w \<noteq> []) ws"
  let ?read = "sort_key yw_position (sort_key ?kp ?all)"
  have texts: "\<forall>r\<in>set ?all. \<not> blank (yw_fingerprint r)"
    using ok by (fastforce simp: list_all_iff launch_rows_def in_set_enumerate_eq)
  have parsed: "try_map (\<lambda>row. try_bind (requiredText (yw_fingerprint row) f) (\<lambda>_. Inr row)) ?read = Inr ?read" for f
    using texts by (simp add: try_map_Inr list_all2_same)
  have window: "filter (\<lambda>r. yw_stage_key r = lw_stageKey w) ?read = launch_rows w" if "w \<in> set ws" for w
    by (simp only: filter_sort launch_rows_of[OF distinct that] sort_key_id_if_sorted launch_rows_sorted)
  have "sort_key yw_position (filter (\<lambda>r. yw_position r = 0) (sort_key ?kp ?all)) = filter (\<lambda>r. yw_position r = 0) (sort_key ?kp ?all)"
    by (rule sort_key_const) simp
  then have "filter (\<lambda>r. yw_position r = 0) ?read = sort_key ?kp (filter (\<lambda>r. yw_position r = 0) ?all)"
    by (simp only: filter_sort)
  then have firsts: "map yw_stage_key (filter (\<lambda>r. yw_position r = 0) ?read) = map lw_stageKey (sort_key lw_stageKey ?V)"
    by (simp add: launch_rows_firsts sort_key_map sort_key_pair comp_def)
  have "yw_stage_key ` set ?read \<subseteq> set (map lw_stageKey (sort_key lw_stageKey ?V))"
    by (auto simp: launch_rows_def in_set_enumerate_eq)
  then have "yw_stage_key ` set ?read \<subseteq> yw_stage_key ` set (filter (\<lambda>r. yw_position r = 0) ?read)"
    by (metis firsts set_map)
  moreover have "distinct (map lw_stageKey (sort_key lw_stageKey ?V))"
    using distinct by (simp add: distinct_map inj_on_def)
  ultimately have "dedupe (map yw_stage_key ?read) = map lw_stageKey (sort_key lw_stageKey ?V)"
    using launches_first[of ?read] by (simp only: firsts sorted_sort_key)
  then have "foldl add_launch [] ?read = map (\<lambda>w. \<lparr> lw_stageKey = lw_stageKey w, lw_fingerprints = map yw_fingerprint (launch_rows w) \<rparr>)
      (sort_key lw_stageKey ?V)"
    using window by (simp add: add_launches)
  also have "\<dots> = kept_windows ws"
    by (simp add: kept_windows_def launch_window_read)
  finally show ?thesis using rows parsed by (simp add: stageLaunchesFrom_def)
qed

section \<open>Reading back a review\<close>

lemma block_sorted:
  assumes "\<And>i x. rp (g i x) = (q :: nat)" and "\<And>i x. pos (g i x) = (i :: nat)"
  shows "sorted (map (\<lambda>r. (rp r, pos r)) (map (\<lambda>(i, x). g i x) (enumerate n xs)))"
  using assms by (induction xs arbitrary: n) (auto simp: less_eq_prod_def in_set_enumerate_eq)

lemma round_blocks_read:
  "i < length rs \<Longrightarrow> filter (\<lambda>r. fw_round_position r = i)
     (sort_key (\<lambda>f. (fw_round_position f, fw_position f)) (concat (map (\<lambda>(p, rd). finding_rows p rd) (enumerate 0 rs)))) =
   finding_rows i (rs ! i)"
  "i < length rs \<Longrightarrow> filter (\<lambda>r. qw_round_position r = i)
     (sort_key (\<lambda>f. (qw_round_position f, qw_position f)) (concat (map (\<lambda>(p, rd). resolution_rows p rd) (enumerate 0 rs)))) =
   resolution_rows i (rs ! i)"
proof -
  have f: "\<And>q x y. y \<in> set (finding_rows q x) \<Longrightarrow> fw_round_position y = q"
    and s: "\<And>q x y. y \<in> set (resolution_rows q x) \<Longrightarrow> qw_round_position y = q"
    by (auto simp: finding_rows_def resolution_rows_def split: option.splits)
  have fs: "sorted (map (\<lambda>f. (fw_round_position f, fw_position f)) (finding_rows q x))"
    and ss: "sorted (map (\<lambda>f. (qw_round_position f, qw_position f)) (resolution_rows q x))" for q x
    by (auto simp: finding_rows_def resolution_rows_def simp del: map_map split: option.split intro!: block_sorted)
  show "i < length rs \<Longrightarrow> filter (\<lambda>r. fw_round_position r = i)
     (sort_key (\<lambda>f. (fw_round_position f, fw_position f)) (concat (map (\<lambda>(p, rd). finding_rows p rd) (enumerate 0 rs)))) =
   finding_rows i (rs ! i)"
    using filter_block[of finding_rows fw_round_position i 0 rs, OF f]
      sorted_blocks[of "\<lambda>f. (fw_round_position f, fw_position f)" finding_rows 0 rs, OF fs] f
    by (simp add: sort_key_id_if_sorted)
  show "i < length rs \<Longrightarrow> filter (\<lambda>r. qw_round_position r = i)
     (sort_key (\<lambda>f. (qw_round_position f, qw_position f)) (concat (map (\<lambda>(p, rd). resolution_rows p rd) (enumerate 0 rs)))) =
   resolution_rows i (rs ! i)"
    using filter_block[of resolution_rows qw_round_position i 0 rs, OF s]
      sorted_blocks[of "\<lambda>f. (qw_round_position f, qw_position f)" resolution_rows 0 rs, OF ss] s
    by (simp add: sort_key_id_if_sorted)
qed

lemma positions_sorted:
  assumes "\<And>i x. pos (g i x) = (i :: nat)"
  shows "sort_key pos (map (\<lambda>(i, x). g i x) (enumerate n xs)) = map (\<lambda>(i, x). g i x) (enumerate n xs)"
proof (rule sort_key_id_if_sorted)
  have "map pos (map (\<lambda>(i, x). g i x) (enumerate n xs)) = map fst (enumerate n xs)"
    using assms by (simp add: comp_def case_prod_beta')
  then show "sorted (map pos (map (\<lambda>(i, x). g i x) (enumerate n xs)))" by simp
qed

lemma rounds_read:
  assumes "list_all round_storable (rounds r)"
  shows "try_map (reviewRoundFrom nt (readReviewRows (insertReview r))) (vr_rounds (readReviewRows (insertReview r))) =
    Inr (map kept_round (rounds r))"
proof -
  have "vr_rounds (readReviewRows (insertReview r)) = map (\<lambda>(i, rd). round_row_of i rd) (enumerate 0 (rounds r))"
    by (simp add: readReviewRows_def insertReview_def positions_sorted)
  moreover have "try_map (reviewRoundFrom nt (readReviewRows (insertReview r))) (map (\<lambda>(i, rd). round_row_of i rd) (enumerate 0 (rounds r))) =
    Inr (map (\<lambda>(i, rd). kept_round rd) (enumerate 0 (rounds r)))"
  proof (rule try_map_map, clarify)
    fix i rd assume "(i, rd) \<in> set (enumerate 0 (rounds r))"
    then have i: "i < length (rounds r)" "rounds r ! i = rd" by (auto simp: in_set_enumerate_eq)
    then have "round_storable rd" using assms by (auto simp: list_all_length)
    then show "reviewRoundFrom nt (readReviewRows (insertReview r)) (round_row_of i rd) = Inr (kept_round rd)"
      using round_blocks_read[OF i(1)] i
      by (intro round_read) (simp_all add: readReviewRows_def insertReview_def)
  qed
  moreover have "map (\<lambda>(i, rd). kept_round rd) (enumerate 0 (rounds r)) = map kept_round (rounds r)"
    by (simp add: case_prod_beta' flip: map_map[of kept_round snd, unfolded comp_def])
  ultimately show ?thesis by simp
qed

lemma intervention_read:
  assumes "pred_option (\<lambda>i. \<not> blank (iv_requestedAt i) \<and> \<not> blank (iv_reason i)) (intervention_of r)"
    and "vr_review (insertReview r) = Some row"
  shows "intervention_from row = Inr (intervention_of r)"
proof (cases "intervention_of r")
  case (Some i)
  then show ?thesis using assms by (cases i; cases "iv_requestedBy i") (auto simp: insertReview_def intervention_from_def)
qed (use assms in \<open>auto simp: insertReview_def intervention_from_def\<close>)

lemma kept_items_twice [simp]: "kept_items (kept_items i) = kept_items i"
  by (simp add: kept_items_def)

lemma as_null_twice [simp]: "as_null (as_null x) = as_null x"
  by (cases x) simp_all

lemma kept_cause_twice [simp]: "kept_cause (kept_cause x) = kept_cause x"
  by (cases x) simp_all

lemma kept_decision_twice [simp]: "kept_decision (kept_decision d) = kept_decision d"
proof (cases d)
  case (Approved a)
  then show ?thesis by (cases a; cases "ap_revocation a") (simp_all add: option.map_comp comp_def)
qed simp

lemma kept_round_twice [simp]: "kept_round (kept_round rd) = kept_round rd"
  by (cases rd; cases "rd_subject rd") (simp add: kept_round_def option.map_comp comp_def)

lemma kept_windows_twice [simp]: "kept_windows (kept_windows ws) = kept_windows ws"
  by (simp add: kept_windows_def filter_sort sort_key_id_if_sorted)

lemma kept_events_twice [simp]: "kept_events (kept_events es) = kept_events es"
  by (rule nth_equalityI) (simp_all add: kept_events_def nth_enumerate_eq)

lemma kept_review_twice [simp]: "kept_review (kept_review r) = kept_review r"
  by (simp add: kept_review_def comp_def)

lemma kept_effective [simp]: "effective_approval (map_option kept_decision d) = effective_approval d"
  and kept_request [simp]: "is_request (map_option kept_decision d) = is_request d"
  by (cases d; cases "the d"; simp add: effective_approval_iff is_request_iff)+

lemma kept_status: "rounds r \<noteq> [] \<Longrightarrow> reviewStatus (kept_review r) = reviewStatus r"
  by (simp add: reviewStatus_def kept_review_def currentReviewRound_def at_last_def last_map kept_round_def Let_def)

lemma projection_read:
  assumes "vr_rounds records \<noteq> []" and "try_map (reviewRoundFrom nt records) (vr_rounds records) = Inr rs"
    and "reviewEventsFrom nt records = Inr es"
  shows "hydrateReviewProjection nt records = Inr (Some \<lparr> rounds = rs, intervention_of = None, stageLaunches = [], reviewEvents = es \<rparr>)"
proof -
  let ?board = "records\<lparr>vr_review := Some \<lparr> iw_requested_at = None, iw_requested_by = None, iw_reason = None \<rparr>, vr_launches := []\<rparr>"
  have "reviewRoundFrom nt ?board = reviewRoundFrom nt records"
    by (rule ext) (simp add: reviewRoundFrom_def)
  moreover have "reviewEventsFrom nt ?board = reviewEventsFrom nt records" by (simp add: reviewEventsFrom_def)
  moreover have "rs \<noteq> []" using assms(1,2) by (auto simp: try_map_Inr)
  ultimately show ?thesis using assms
    by (simp add: hydrateReviewProjection_def reviewFrom_def intervention_from_def stageLaunchesFrom_def)
qed

lemma review_read:
  assumes "review_storable r"
  shows "reviewFrom nt (readReviewRows (insertReview r)) = Inr (Some (kept_review r))"
    and "try_map (reviewRoundFrom nt (readReviewRows (insertReview r))) (vr_rounds (readReviewRows (insertReview r))) =
      Inr (map kept_round (rounds r))"
    and "reviewEventsFrom nt (readReviewRows (insertReview r)) = Inr (kept_events (reviewEvents r))"
proof -
  note ok = assms[unfolded review_storable_def]
  let ?read = "readReviewRows (insertReview r)"
  show rds: "try_map (reviewRoundFrom nt ?read) (vr_rounds ?read) = Inr (map kept_round (rounds r))"
    using ok by (intro rounds_read) blast
  obtain row where row: "vr_review (insertReview r) = Some row" "vr_review ?read = Some row"
    by (simp add: insertReview_def readReviewRows_def)
  have iv: "intervention_from row = Inr (intervention_of r)"
    using ok row(1) by (intro intervention_read) blast+
  have win: "stageLaunchesFrom ?read = Inr (kept_windows (stageLaunches r))"
    using ok by (intro windows_read) (simp_all add: insertReview_def readReviewRows_def)
  show ev: "reviewEventsFrom nt ?read = Inr (kept_events (reviewEvents r))"
    using ok by (intro events_ok) (simp_all add: insertReview_def readReviewRows_def positions_sorted event_row_of_def)
  show "reviewFrom nt ?read = Inr (Some (kept_review r))"
    using rds row(2) iv win ev ok by (cases r) (simp add: reviewFrom_def kept_review_def)
qed

text \<open>C39: A saved review is read back as it was. The rows inserted for a storable review, read in the order
  the load reads them and rebuilt with all their checks, give the review up to the normal form
  \<open>kept_review\<close>, which changes no status of the conversation and is reached after one save; the board's
  projection of the same rows shows those rounds and events.\<close>

theorem review_persists:
  assumes "review_storable r"
  shows "reviewFrom nt (readReviewRows (insertReview r)) = Inr (Some (kept_review r)) \<and>
    kept_review (kept_review r) = kept_review r \<and> reviewStatus (kept_review r) = reviewStatus r \<and>
    hydrateReviewProjection nt (readReviewRows (insertReview r)) =
      Inr (Some ((kept_review r)\<lparr>intervention_of := None, stageLaunches := []\<rparr>))"
proof -
  have ne: "rounds r \<noteq> []" using assms by (simp add: review_storable_def)
  then have "vr_rounds (readReviewRows (insertReview r)) \<noteq> []" using review_read(2)[OF assms] by (auto simp: try_map_Inr)
  then have "hydrateReviewProjection nt (readReviewRows (insertReview r)) =
      Inr (Some ((kept_review r)\<lparr>intervention_of := None, stageLaunches := []\<rparr>))"
    using projection_read[OF _ review_read(2)[OF assms] review_read(3)[OF assms]] by (cases r) (simp add: kept_review_def)
  then show ?thesis using review_read(1)[OF assms] ne by (simp add: kept_status)
qed

definition stored_sample :: review where
  "stored_sample = \<lparr> rounds = [(fresh_round 1 sample_subject ''claude'' ''codex'' ''2026-01-01T00:00:00Z'')
      \<lparr>rd_decision := Some (Changes_requested \<lparr> cr_classifier = None, cr_revision = Absent, cr_decidedAt = ''2026-01-01T01:00:00Z'',
          cr_comment = None, cr_findings = [sample_finding] \<rparr>),
        rd_itemDispositions := Some [\<lparr> id_kind = Item_parked, id_findingId = ''f1'' \<rparr>]\<rparr>],
    intervention_of = None, stageLaunches = [\<lparr> lw_stageKey = ''review:1'', lw_fingerprints = [''b'', ''a''] \<rparr>,
      \<lparr> lw_stageKey = ''implement:1'', lw_fingerprints = [''c''] \<rparr>], reviewEvents = [] \<rparr>"

theorem review_persists_witness:
  "reviewFrom (\<lambda>_. []) (readReviewRows (insertReview stored_sample)) = Inr (Some (kept_review stored_sample)) \<and>
   map lw_stageKey (stageLaunches (kept_review stored_sample)) = [''implement:1'', ''review:1'']"
proof -
  have "review_storable stored_sample"
    by (simp add: review_storable_def stored_sample_def round_storable_def fresh_round_def family_ok_def agentFamily_def sample_subject_def
        sample_change_def sample_finding_def stated_def classifier_ok_def items_ok_def safe_integer_def) code_simp
  then have "reviewFrom (\<lambda>_. []) (readReviewRows (insertReview stored_sample)) = Inr (Some (kept_review stored_sample))"
    by (rule review_persists[THEN conjunct1])
  moreover have "map lw_stageKey (stageLaunches (kept_review stored_sample)) = [''implement:1'', ''review:1'']" by code_simp
  ultimately show ?thesis by simp
qed

end
