(* ===== verification/Lanes.thy ===== *)
theory Lanes
  imports MissionWorkflow "HOL-Library.List_Lexorder" "HOL-Library.Product_Lexorder" "HOL-Library.Char_ord"
begin

text \<open>
  Lane-transition events: \<open>src/src/domain/board-event.ts\<close>, the events of steps outside the state machine
  (\<open>application/lifecycle-lane-event.ts\<close>) and the table that keeps them
  (\<open>adapters/sqlite/board-lane-event-repository.ts\<close>, with the constraints of \<open>migrations/0011\<close>).

  The key of a table row comes from a counter, as \<open>AUTOINCREMENT\<close> never reuses one.
\<close>

section \<open>Events\<close>

fun command_type :: "mission_command \<Rightarrow> string" where
  "command_type Refine = ''refine''"
| "command_type (Activate _) = ''activate''"
| "command_type Begin_review_preparation = ''begin-review-preparation''"
| "command_type (Record_implementer _) = ''record-implementer''"
| "command_type (Abort_activation _) = ''abort-activation''"
| "command_type (Rebound_to_active _ _ _) = ''rebound-to-active''"
| "command_type (Submit_for_review _) = ''submit-for-review''"
| "command_type (Request_mission_changes _) = ''request-changes''"
| "command_type (Approve_mission _) = ''approve''"
| "command_type (Revoke_approval _) = ''revoke-approval''"
| "command_type Integrate = ''integrate''"

record lane_event =
  le_missionId :: string
  le_repositoryId :: string
  le_from :: "mission_status option"
  le_to :: mission_status
  le_trigger :: string
  le_agent :: string
  le_occurredAt :: string
  le_idempotencyKey :: string

definition TRANSITION_TRIGGERS :: "(string \<times> string) list" where
  "TRANSITION_TRIGGERS =
     [(''backlog:refined'', ''refine''), (''refined:active'', ''activate''), (''active:active'', ''activate''),
      (''null:active'', ''activate''), (''active:refined'', ''abort-activation''),
      (''active:review'', ''submit-for-review''), (''review:active'', ''request-changes''),
      (''review:integration'', ''approve''), (''active:integration'', ''approve''),
      (''integration:active'', ''rebound-to-active''), (''integration:review'', ''revoke-approval''),
      (''integration:done'', ''integrate'')]"

definition lane_text :: "mission_status option \<Rightarrow> string" where
  "lane_text lane = (case lane of None \<Rightarrow> ''null'' | Some s \<Rightarrow> status_text s)"

definition triggerFromTransition :: "mission_status option \<Rightarrow> mission_status \<Rightarrow> string option" where
  "triggerFromTransition from to = map_of TRANSITION_TRIGGERS (lane_text from @ '':'' @ status_text to)"

definition parseMissionStatus :: "string \<Rightarrow> mission_status option" where
  "parseMissionStatus value = find_first (\<lambda>s. status_text s = to_lower (trim value)) MISSION_STATUSES"

section \<open>Steps outside the state machine\<close>

definition laneEventIdempotencyKey :: "string \<Rightarrow> string \<Rightarrow> string \<Rightarrow> string" where
  "laneEventIdempotencyKey mission trigger occurredAt = mission @ '':'' @ trigger @ '':'' @ occurredAt"

record lane_event_input =
  li_mission :: mission
  li_from :: "mission_status option"
  li_trigger :: string
  li_agent :: string
  li_occurredAt :: string
  li_idempotencyKey :: "string option"

definition lifecycleLaneEvent :: "lane_event_input \<Rightarrow> lane_event" where
  "lifecycleLaneEvent i =
     \<lparr> le_missionId = ms_id (li_mission i), le_repositoryId = ms_repositoryId (li_mission i), le_from = li_from i,
       le_to = ms_status (li_mission i), le_trigger = li_trigger i, le_agent = li_agent i,
       le_occurredAt = li_occurredAt i,
       le_idempotencyKey = default_to (laneEventIdempotencyKey (ms_id (li_mission i)) (li_trigger i) (li_occurredAt i))
         (li_idempotencyKey i) \<rparr>"

section \<open>The table of events\<close>

record lane_entry =
  bl_repositoryId :: string
  bl_missionId :: string
  bl_fromStatus :: "string option"
  bl_toStatus :: string
  bl_trigger :: string
  bl_agent :: string
  bl_occurredAt :: string
  bl_idempotencyKey :: string

record lane_row = lane_entry +
  bl_id :: nat

record lane_table =
  lt_rows :: "lane_row list"
  lt_next :: nat

datatype lane_error = Instant_invalid string | Repository_blank

text \<open>\<open>CHECK(length(trim(repository_id)) > 0)\<close>: SQLite trims spaces.\<close>

definition repository_scoped :: "string \<Rightarrow> bool" where
  "repository_scoped repository \<longleftrightarrow> list_ex (\<lambda>c. c \<noteq> CHR '' '') repository"

definition append_event :: "lane_table \<Rightarrow> lane_entry \<Rightarrow> lane_error + bool \<times> lane_table" where
  "append_event events entry =
     (case to_canonical_utc_instant (bl_occurredAt entry) of
        Inl _ \<Rightarrow> Inl (Instant_invalid (bl_occurredAt entry))
      | Inr occurredAt \<Rightarrow>
          if \<not> repository_scoped (bl_repositoryId entry) then Inl Repository_blank
          else if list_ex (\<lambda>row. bl_repositoryId row = bl_repositoryId entry \<and>
            bl_idempotencyKey row = bl_idempotencyKey entry) (lt_rows events) then Inr (False, events)
          else Inr (True, \<lparr> lt_rows = lt_rows events @
              [lane_entry.extend (entry\<lparr>bl_occurredAt := occurredAt\<rparr>) \<lparr> bl_id = lt_next events \<rparr>],
            lt_next = lt_next events + 1 \<rparr>))"

definition findMissionIdByIdempotencyKey :: "lane_table \<Rightarrow> string \<Rightarrow> string \<Rightarrow> string option" where
  "findMissionIdByIdempotencyKey events repository key =
     map_option bl_missionId (find_first (\<lambda>row. bl_repositoryId row = repository \<and> bl_idempotencyKey row = key)
       (lt_rows events))"

text \<open>\<open>compareEntries\<close> orders by the parsed time, unreadable times last, then by the key.\<close>

definition entry_time :: "lane_row \<Rightarrow> nat \<times> int" where
  "entry_time e = (case parse_instant_ms (bl_occurredAt e) of Some ms \<Rightarrow> (0, ms) | None \<Rightarrow> (1, 0))"

definition compareEntries :: "lane_row \<Rightarrow> (nat \<times> int) \<times> nat" where
  "compareEntries e = (entry_time e, bl_id e)"

definition in_order :: "lane_row list \<Rightarrow> lane_row list" where
  "in_order rows = sort_key compareEntries (sort_key bl_occurredAt rows)"

definition findByMissionId :: "lane_table \<Rightarrow> string \<Rightarrow> lane_row list" where
  "findByMissionId events mission = in_order (filter (\<lambda>row. bl_missionId row = mission) (lt_rows events))"

definition findAll :: "lane_table \<Rightarrow> lane_row list" where
  "findAll events = in_order (lt_rows events)"

definition findByRepositoryId :: "lane_table \<Rightarrow> string \<Rightarrow> lane_row list" where
  "findByRepositoryId events repository = in_order (filter (\<lambda>row. bl_repositoryId row = repository) (lt_rows events))"

definition clear_events :: "lane_table \<Rightarrow> lane_table" where
  "clear_events events = events\<lparr>lt_rows := []\<rparr>"

definition isReplayedLaneEvent :: "lane_table \<Rightarrow> lane_event \<Rightarrow> bool" where
  "isReplayedLaneEvent events event =
     list_ex (\<lambda>entry. bl_idempotencyKey entry = le_idempotencyKey event \<and> bl_trigger entry = le_trigger event \<and>
       bl_fromStatus entry = map_option status_text (le_from event) \<and> bl_toStatus entry = status_text (le_to event))
       (findByMissionId events (le_missionId event))"

section \<open>Lemmas\<close>

lemma status_text_inj [simp]: "status_text a = status_text b \<longleftrightarrow> a = b"
  by (cases a; cases b) simp_all

lemma status_all [simp]: "s \<in> set MISSION_STATUSES"
  by (cases s) (simp_all add: MISSION_STATUSES_def)

lemma parse_status_text [simp]: "parseMissionStatus (status_text s) = Some s"
proof -
  have "list_all (\<lambda>s. parseMissionStatus (status_text s) = Some s) MISSION_STATUSES" by code_simp
  then show ?thesis by (simp add: list_all_iff)
qed

text \<open>Every lane has a trigger for each lane a command can move it to.\<close>

definition lane_moves :: "(mission_status \<times> mission_status) list" where
  "lane_moves = [(Backlog, Refined), (Refined, Active), (Active, Refined), (Active, In_review), (In_review, Active),
     (In_review, Integration), (Active, Integration), (Integration, Active), (Integration, In_review), (Integration, Done)]"

lemma move_has_trigger: "(a, b) \<in> set lane_moves \<Longrightarrow> triggerFromTransition (Some a) b \<noteq> None"
  by (auto simp: lane_moves_def triggerFromTransition_def TRANSITION_TRIGGERS_def lane_text_def)

text \<open>The table holds each key of a repository once, and its row keys are below the counter.\<close>

definition lane_table_ok :: "lane_table \<Rightarrow> bool" where
  "lane_table_ok events \<longleftrightarrow> distinct (map (\<lambda>row. (bl_repositoryId row, bl_idempotencyKey row)) (lt_rows events)) \<and>
     distinct (map bl_id (lt_rows events)) \<and> (\<forall>row\<in>set (lt_rows events). bl_id row < lt_next events)"

lemma append_Inr:
  assumes "append_event events entry = Inr (added, events')"
  obtains (duplicate) "\<not> added" "events' = events"
      "\<exists>row\<in>set (lt_rows events). bl_repositoryId row = bl_repositoryId entry \<and> bl_idempotencyKey row = bl_idempotencyKey entry"
    | (recorded) occurredAt where "added" "to_canonical_utc_instant (bl_occurredAt entry) = Inr occurredAt"
      "events' = \<lparr> lt_rows = lt_rows events @ [lane_entry.extend (entry\<lparr>bl_occurredAt := occurredAt\<rparr>) \<lparr> bl_id = lt_next events \<rparr>],
         lt_next = lt_next events + 1 \<rparr>"
      "\<forall>row\<in>set (lt_rows events). \<not> (bl_repositoryId row = bl_repositoryId entry \<and> bl_idempotencyKey row = bl_idempotencyKey entry)"
  using assms by (auto simp: append_event_def list_ex_iff split: sum.splits if_splits)

lemma append_lane_table_ok:
  assumes "lane_table_ok events" and "append_event events entry = Inr (added, events')"
  shows "lane_table_ok events'"
  using assms(2)
proof (cases rule: append_Inr)
  case duplicate
  then show ?thesis using assms(1) by simp
next
  case (recorded occurredAt)
  then show ?thesis using assms(1)
    by (force simp: lane_table_ok_def lane_entry.defs)
qed

lemma in_order_set [simp]: "set (in_order rows) = set rows"
  by (simp add: in_order_def)

end
