(* ===== verification/MissionRows.thy ===== *)
theory MissionRows
  imports ReviewRows Lanes
begin

text \<open>
  How a Mission is stored beside its review: the relational rows of
  \<open>src/src/adapters/sqlite/mission-serialization.ts\<close>, what a save writes in them
  (\<open>mission-value-writer.ts\<close>), the constraints the schema puts on them (\<open>migrations/\<close>) and what a load
  rebuilds (\<open>hydrateMission\<close>).

  The rows are those of one mission, so the columns that repeat its id are left out. Columns that hold
  JSON the code only casts (the repair and the recording of a checkpoint, repaired gates) stand for the
  value they denote.
\<close>

section \<open>Rows\<close>

record mission_row =
  mr_id :: string
  mr_repository_id :: string
  mr_title :: string
  mr_status :: string
  mr_raw_status :: "string option"
  mr_reproduction_test :: "string option"
  mr_predicted_nel_bucket :: "string option"
  mr_description :: "string option"
  mr_assignee :: "string option"
  mr_net_engineering_lines :: "jsnum option"
  mr_review_preparation_pending :: nat
  mr_closed_at :: "string option"
  mr_version :: nat
  mr_next_success_criterion_id :: nat

text \<open>A row of the four tables of texts in order: labels, out-of-scope entries, gates, dependencies.\<close>

record text_row =
  tx_position :: nat
  tx_text :: string

record brief_row =
  bw_goal :: string
  bw_why_text :: string
  bw_scope_text :: "string option"

record criterion_row =
  kw_position :: nat
  kw_criterion :: string
  kw_criterion_id :: "string option"
  kw_completed :: nat

record task_ref_row =
  tw_source :: string
  tw_external_id :: string
  tw_url :: "string option"

record checkpoint_row =
  pw_position :: nat
  pw_checkpoint_mission_id :: string
  pw_recording_json :: "recording option"
  pw_name :: string
  pw_raw_filename :: "string option"
  pw_first_line :: "string option"
  pw_next_action_text :: string
  pw_repair_json :: "checkpoint_repair option"

record goal_check_row =
  gw_checkpoint_position :: nat
  gw_position :: nat
  gw_criterion :: string
  gw_criterion_id :: "string option"
  gw_evidence :: string
  gw_recorded_round :: "int option"
  gw_repaired_gate :: "string option"
  gw_repaired_gates :: "string list option"
  gw_carried_from :: "string option"

text \<open>The collections that belong to a mission row.\<close>

record value_rows =
  ag_externalTaskRef :: "task_ref_row option"
  ag_labels :: "text_row list"
  ag_brief :: "brief_row option"
  ag_briefOutOfScope :: "text_row list"
  ag_declaredGates :: "text_row list"
  ag_successCriteria :: "criterion_row list"
  ag_dependencies :: "text_row list"
  ag_checkpoints :: "checkpoint_row list"
  ag_goalChecks :: "goal_check_row list"
  ag_review :: review_rows

definition no_review_rows :: review_rows where
  "no_review_rows = \<lparr> vr_review = None, vr_rounds = [], vr_findings = [], vr_resolutions = [], vr_launches = [],
     vr_events = [] \<rparr>"

definition no_values :: value_rows where
  "no_values = \<lparr> ag_externalTaskRef = None, ag_labels = [], ag_brief = None, ag_briefOutOfScope = [],
     ag_declaredGates = [], ag_successCriteria = [], ag_dependencies = [], ag_checkpoints = [], ag_goalChecks = [],
     ag_review = no_review_rows \<rparr>"

section \<open>Writing\<close>

definition text_rows :: "string list \<Rightarrow> text_row list" where
  "text_rows texts = map (\<lambda>(position, t). \<lparr> tx_position = position, tx_text = t \<rparr>) (enumerate 0 texts)"

definition criterion_rows :: "mission \<Rightarrow> criterion_row list" where
  "criterion_rows mission = map (\<lambda>(position, criterion).
     \<lparr> kw_position = position, kw_criterion = criterion,
       kw_criterion_id = Option.bind (ms_successCriterionIds mission) (\<lambda>ids. nth_opt ids position),
       kw_completed = (if position \<in> set (ms_completedSuccessCriteria mission) then 1 else 0) \<rparr>)
     (enumerate 0 (ms_successCriteria mission))"

definition insertAuthoring :: "mission \<Rightarrow> value_rows \<Rightarrow> value_rows" where
  "insertAuthoring mission rows = rows\<lparr>
     ag_brief := (case ms_brief mission of None \<Rightarrow> ag_brief rows
       | Some b \<Rightarrow> Some \<lparr> bw_goal = mb_goal b, bw_why_text = mb_why b, bw_scope_text = mb_scope b \<rparr>),
     ag_briefOutOfScope := ag_briefOutOfScope rows @
       (case ms_brief mission of None \<Rightarrow> [] | Some b \<Rightarrow> text_rows (mb_outOfScope b)),
     ag_declaredGates := ag_declaredGates rows @ text_rows (ms_declaredGates mission),
     ag_dependencies := ag_dependencies rows @ text_rows (ms_dependencies mission),
     ag_successCriteria := ag_successCriteria rows @ criterion_rows mission\<rparr>"

definition insertMirrors :: "mission \<Rightarrow> value_rows \<Rightarrow> value_rows" where
  "insertMirrors mission rows = rows\<lparr>
     ag_externalTaskRef := (case ms_externalTaskRef mission of None \<Rightarrow> ag_externalTaskRef rows
       | Some e \<Rightarrow> Some \<lparr> tw_source = et_source e, tw_external_id = et_id e, tw_url = et_url e \<rparr>),
     ag_labels := ag_labels rows @ text_rows (ms_labels mission)\<rparr>"

definition checkpoint_row_of :: "nat \<Rightarrow> checkpoint \<Rightarrow> checkpoint_row" where
  "checkpoint_row_of position cp =
     \<lparr> pw_position = position, pw_checkpoint_mission_id = cp_missionId cp, pw_recording_json = cp_recording cp,
       pw_name = cp_name cp, pw_raw_filename = cp_rawFilename cp, pw_first_line = cp_firstLine cp,
       pw_next_action_text = cp_nextActionText cp, pw_repair_json = cp_repair cp \<rparr>"

definition goal_check_rows :: "nat \<Rightarrow> checkpoint \<Rightarrow> goal_check_row list" where
  "goal_check_rows checkpointPosition cp = map (\<lambda>(position, row).
     \<lparr> gw_checkpoint_position = checkpointPosition, gw_position = position, gw_criterion = gr_criterion row,
       gw_criterion_id = given (gr_criterionId row), gw_evidence = gr_evidence row,
       gw_recorded_round = gr_recordedRound row, gw_repaired_gate = gr_repairedGate row,
       gw_repaired_gates = gr_repairedGates row, gw_carried_from = gr_carriedFrom row \<rparr>)
     (enumerate 0 (cp_goalCheck cp))"

definition insertCheckpoints :: "mission \<Rightarrow> value_rows \<Rightarrow> value_rows" where
  "insertCheckpoints mission rows = rows\<lparr>
     ag_checkpoints := ag_checkpoints rows @
       map (\<lambda>(position, cp). checkpoint_row_of position cp) (enumerate 0 (ms_checkpoints mission)),
     ag_goalChecks := ag_goalChecks rows @
       concat (map (\<lambda>(position, cp). goal_check_rows position cp) (enumerate 0 (ms_checkpoints mission)))\<rparr>"

definition append_review :: "review_rows \<Rightarrow> review_rows \<Rightarrow> review_rows" where
  "append_review before new =
     \<lparr> vr_review = vr_review new, vr_rounds = vr_rounds before @ vr_rounds new,
       vr_findings = vr_findings before @ vr_findings new, vr_resolutions = vr_resolutions before @ vr_resolutions new,
       vr_launches = vr_launches before @ vr_launches new, vr_events = vr_events before @ vr_events new \<rparr>"

definition insert_values :: "mission \<Rightarrow> value_rows \<Rightarrow> value_rows" where
  "insert_values mission rows =
     (let written = insertCheckpoints mission (insertMirrors mission (insertAuthoring mission rows)) in
      case ms_review mission of
        None \<Rightarrow> written
      | Some review \<Rightarrow> written\<lparr>ag_review := append_review (ag_review written) (insertReview review)\<rparr>)"

text \<open>What a save deletes first. The review row stays while the mission has a review; its children go.\<close>

definition clearAggregateValues :: "mission \<Rightarrow> value_rows \<Rightarrow> value_rows" where
  "clearAggregateValues mission rows = no_values\<lparr>ag_review :=
     (case ms_review mission of
        None \<Rightarrow> no_review_rows
      | Some _ \<Rightarrow> no_review_rows\<lparr>vr_review := vr_review (ag_review rows)\<rparr>)\<rparr>"

section \<open>The constraints of the schema\<close>

definition distinct_on :: "('a \<Rightarrow> 'b) \<Rightarrow> 'a list \<Rightarrow> bool" where
  "distinct_on key rows = distinct (map key rows)"

definition text_rows_valid :: "(string \<Rightarrow> bool) \<Rightarrow> text_row list \<Rightarrow> bool" where
  "text_rows_valid valid rows \<longleftrightarrow> list_all (\<lambda>r. valid (tx_text r)) rows \<and> distinct_on tx_position rows \<and> distinct_on tx_text rows"

definition between :: "nat \<Rightarrow> string \<Rightarrow> bool" where
  "between most t \<longleftrightarrow> 1 \<le> length t \<and> length t \<le> most"

definition round_row_valid :: "round_row \<Rightarrow> bool" where
  "round_row_valid r \<longleftrightarrow>
     (let i = rw_identity r; d = rw_decision r; a = rw_approval r; n = rw_response r in
      1 \<le> ic_round_number i \<and> 0 \<le> nc_reviewer_retry_count n \<and> 0 \<le> nc_implementer_retry_count n \<and>
      (ic_change_kind i = ''pull-request'' \<and> ic_provider i \<noteq> None \<and> ic_provider_change_id i \<noteq> None \<or>
       ic_change_kind i = ''local-branch'' \<and> ic_provider i = None \<and> ic_provider_change_id i = None \<and> ic_provider_url i = None) \<and>
      (dc_decision_kind d = None \<and> dc_decided_at d = None \<and> vc_approval_source_kind a = None \<or>
       dc_decision_kind d = Some ''approved'' \<and> dc_decided_at d \<noteq> None \<and> vc_approval_source_kind a \<noteq> None \<or>
       dc_decision_kind d = Some ''changes-requested'' \<and> dc_decided_at d \<noteq> None \<and> vc_approval_source_kind a = None \<and>
         vc_approval_source_provider a = None) \<and>
      (nc_responded_at n = None \<longleftrightarrow> nc_resulting_revision n = None))"

definition review_rows_valid :: "review_rows \<Rightarrow> bool" where
  "review_rows_valid r \<longleftrightarrow>
     (case vr_review r of
        None \<Rightarrow> vr_rounds r = [] \<and> vr_launches r = [] \<and> vr_events r = []
      | Some i \<Rightarrow> (iw_requested_at i = None \<longleftrightarrow> iw_requested_by i = None) \<and> (iw_requested_at i = None \<longleftrightarrow> iw_reason i = None)) \<and>
     list_all round_row_valid (vr_rounds r) \<and> distinct_on rw_position (vr_rounds r) \<and>
     distinct_on (\<lambda>r. ic_round_number (rw_identity r)) (vr_rounds r) \<and>
     list_all (\<lambda>f. fw_round_position f \<in> set (map rw_position (vr_rounds r))) (vr_findings r) \<and>
     distinct_on (\<lambda>f. (fw_round_position f, fw_position f)) (vr_findings r) \<and>
     distinct_on (\<lambda>f. (fw_round_position f, fw_finding_id f)) (vr_findings r) \<and>
     list_all (\<lambda>q. qw_kind q \<in> {''fixed'', ''disputed''} \<and>
       (qw_round_position q, qw_finding_id q) \<in> set (map (\<lambda>f. (fw_round_position f, fw_finding_id f)) (vr_findings r)))
       (vr_resolutions r) \<and>
     distinct_on (\<lambda>q. (qw_round_position q, qw_position q)) (vr_resolutions r) \<and>
     distinct_on (\<lambda>q. (qw_round_position q, qw_finding_id q)) (vr_resolutions r) \<and>
     distinct_on (\<lambda>l. (yw_stage_key l, yw_position l)) (vr_launches r) \<and>
     list_all (\<lambda>e. ew_event_type e \<in> set (map event_type_text EVENT_TYPES) \<and>
       (case ew_round_number e of None \<Rightarrow> True | Some n \<Rightarrow> 1 \<le> n)) (vr_events r) \<and>
     distinct_on ew_position (vr_events r)"

definition values_valid :: "string \<Rightarrow> value_rows \<Rightarrow> bool" where
  "values_valid mission rows \<longleftrightarrow>
     (case ag_externalTaskRef rows of
        None \<Rightarrow> True
      | Some e \<Rightarrow> between 512 (tw_source e) \<and> between 512 (tw_external_id e) \<and> pred_option (between 512) (tw_url e)) \<and>
     text_rows_valid (\<lambda>t. t \<noteq> []) (ag_labels rows) \<and>
     (case ag_brief rows of
        None \<Rightarrow> ag_briefOutOfScope rows = []
      | Some b \<Rightarrow> between 4000 (bw_goal b) \<and> between 4000 (bw_why_text b) \<and> pred_option (between 4000) (bw_scope_text b)) \<and>
     list_all (\<lambda>r. between 512 (tx_text r)) (ag_briefOutOfScope rows) \<and> distinct_on tx_position (ag_briefOutOfScope rows) \<and>
     text_rows_valid (between 512) (ag_declaredGates rows) \<and>
     list_all (\<lambda>r. between 512 (kw_criterion r)) (ag_successCriteria rows) \<and>
     distinct_on kw_position (ag_successCriteria rows) \<and> distinct_on kw_criterion (ag_successCriteria rows) \<and>
     text_rows_valid (\<lambda>t. between 128 t \<and> t \<noteq> mission) (ag_dependencies rows) \<and>
     distinct_on pw_position (ag_checkpoints rows) \<and>
     list_all (\<lambda>g. gw_checkpoint_position g \<in> set (map pw_position (ag_checkpoints rows)) \<and>
       (case gw_recorded_round g of None \<Rightarrow> True | Some n \<Rightarrow> 1 \<le> n)) (ag_goalChecks rows) \<and>
     distinct_on (\<lambda>g. (gw_checkpoint_position g, gw_position g)) (ag_goalChecks rows) \<and>
     review_rows_valid (ag_review rows)"

text \<open>A count is stored as it is; \<open>NaN\<close> would be \<open>NULL\<close> in the database, and no count is one.\<close>

definition mission_row_valid :: "mission_row \<Rightarrow> bool" where
  "mission_row_valid row \<longleftrightarrow>
     mr_status row \<in> set (map status_text MISSION_STATUSES) \<and>
     (case mr_net_engineering_lines row of None \<Rightarrow> True | Some n \<Rightarrow> \<not> num_less n (Num 0)) \<and>
     (mr_closed_at row = None \<or> mr_status row = ''done'') \<and> 1 \<le> mr_version row"

section \<open>Reading the tables\<close>

definition readAuthoringRows :: "value_rows \<Rightarrow> value_rows" where
  "readAuthoringRows stored = stored\<lparr>
     ag_labels := sort_key tx_position (ag_labels stored),
     ag_briefOutOfScope := sort_key tx_position (ag_briefOutOfScope stored),
     ag_declaredGates := sort_key tx_position (ag_declaredGates stored),
     ag_successCriteria := sort_key kw_position (ag_successCriteria stored),
     ag_dependencies := sort_key tx_position (ag_dependencies stored),
     ag_checkpoints := sort_key pw_position (ag_checkpoints stored),
     ag_goalChecks := sort_key (\<lambda>g. (gw_checkpoint_position g, gw_position g)) (ag_goalChecks stored)\<rparr>"

definition read_values :: "value_rows \<Rightarrow> value_rows" where
  "read_values stored = (readAuthoringRows stored)\<lparr>ag_review := readReviewRows (ag_review stored)\<rparr>"

section \<open>Rebuilding the aggregate\<close>

datatype load_error =
    Row_fault row_error | Mission_fault mission_error | Contract_fault contract_error
  | Status_invalid string | Foreign_checkpoint | Checkpoint_name_invalid string | Bucket_invalid string
  | Closed_before_done | Nel_count_invalid jsnum | Version_invalid nat

definition status_from :: "string \<Rightarrow> load_error + mission_status" where
  "status_from value = require (Status_invalid value) (parseMissionStatus value)"

definition goal_row_from :: "goal_check_row \<Rightarrow> goal_row" where
  "goal_row_from row =
     \<lparr> gr_criterion = gw_criterion row,
       gr_criterionId = (case gw_criterion_id row of None \<Rightarrow> Null | Some i \<Rightarrow> Present i),
       gr_evidence = gw_evidence row, gr_recordedRound = gw_recorded_round row,
       gr_repairedGate = gw_repaired_gate row, gr_repairedGates = gw_repaired_gates row,
       gr_carriedFrom = gw_carried_from row \<rparr>"

definition checkpoint_from :: "string \<Rightarrow> goal_check_row list \<Rightarrow> checkpoint_row \<Rightarrow> load_error + checkpoint" where
  "checkpoint_from mission goalChecks cp =
     try_bind (map_error Row_fault (requiredInteger (int (pw_position cp)) ''checkpoint position'' 0)) (\<lambda>_.
       if pw_checkpoint_mission_id cp \<noteq> mission then Inl Foreign_checkpoint
       else if \<not> isCheckpointName (pw_name cp) then Inl (Checkpoint_name_invalid (pw_name cp))
       else try_bind (map_error Mission_fault (missionId (pw_checkpoint_mission_id cp))) (\<lambda>owner.
         Inr \<lparr> cp_missionId = owner, cp_recording = pw_recording_json cp, cp_name = pw_name cp,
           cp_rawFilename = pw_raw_filename cp, cp_firstLine = pw_first_line cp, cp_repair = pw_repair_json cp,
           cp_goalCheck = map goal_row_from (filter (\<lambda>row. \<not> blank (gw_criterion row) \<and> \<not> blank (gw_evidence row))
             (filter (\<lambda>row. gw_checkpoint_position row = pw_position cp) goalChecks)),
           cp_nextActionText = pw_next_action_text cp \<rparr>))"

definition checkpointsFrom :: "string \<Rightarrow> value_rows \<Rightarrow> load_error + checkpoint list" where
  "checkpointsFrom mission records = try_map (checkpoint_from mission (ag_goalChecks records)) (ag_checkpoints records)"

definition briefFrom :: "value_rows \<Rightarrow> load_error + mission_brief option" where
  "briefFrom records =
     (case ag_brief records of
        None \<Rightarrow> Inr None
      | Some b \<Rightarrow> map_sum Contract_fault Some (missionBrief \<lparr> mb_goal = bw_goal b, mb_why = bw_why_text b,
          mb_scope = bw_scope_text b, mb_outOfScope = map tx_text (ag_briefOutOfScope records) \<rparr>))"

definition declaredGatesFrom :: "value_rows \<Rightarrow> load_error + string list" where
  "declaredGatesFrom records = map_error Contract_fault (declaredGates (map tx_text (ag_declaredGates records)))"

fun nel_label_text :: "nel_label \<Rightarrow> string" where
  "nel_label_text Small = ''Small''"
| "nel_label_text Medium = ''Medium''"
| "nel_label_text Large = ''Large''"

definition predictedNelBucketFrom :: "string option \<Rightarrow> load_error + nel_label option" where
  "predictedNelBucketFrom value =
     (case value of
        None \<Rightarrow> Inr None
      | Some v \<Rightarrow> map_sum id Some (require (Bucket_invalid v)
          (find_first (\<lambda>l. nel_label_text l = v) [Small, Medium, Large])))"

definition externalTaskRefFrom :: "value_rows \<Rightarrow> load_error + external_task_ref option" where
  "externalTaskRefFrom records =
     (case ag_externalTaskRef records of
        None \<Rightarrow> Inr None
      | Some row \<Rightarrow> map_sum Contract_fault Some (externalTaskRef (tw_source row) (tw_external_id row) (tw_url row)))"

definition criterionIdentityFrom :: "mission_row \<Rightarrow> value_rows \<Rightarrow> string list option \<times> nat" where
  "criterionIdentityFrom row records =
     (if list_all (\<lambda>r. has_text (kw_criterion_id r)) (ag_successCriteria records)
      then Some (map (\<lambda>r. the (kw_criterion_id r)) (ag_successCriteria records)) else None,
      mr_next_success_criterion_id row)"

definition safe_count :: "jsnum \<Rightarrow> bool" where
  "safe_count n = (case n of Num q \<Rightarrow> is_integer_num n \<and> 0 \<le> q \<and> q \<le> 9007199254740991 | _ \<Rightarrow> False)"

definition missionVersion :: "nat \<Rightarrow> load_error + nat" where
  "missionVersion value = (if \<not> safe_integer (int value) \<or> value < 1 then Inl (Version_invalid value) else Inr value)"

definition optional_family :: "string option \<Rightarrow> load_error + agent_family option" where
  "optional_family assignee = map_error Row_fault (optional_parse (\<lambda>a. map_error Row_family (agentFamily a)) assignee)"

definition hydrateMission :: "(jsnum \<Rightarrow> string) \<Rightarrow> mission_row \<Rightarrow> value_rows \<Rightarrow> load_error + mission \<times> nat" where
  "hydrateMission nt row records =
     try_bind (status_from (mr_status row)) (\<lambda>missionStatus.
     if mr_closed_at row \<noteq> None \<and> missionStatus \<noteq> Done then Inl Closed_before_done
     else if (case mr_net_engineering_lines row of None \<Rightarrow> False | Some n \<Rightarrow> \<not> safe_count n)
     then Inl (Nel_count_invalid (the (mr_net_engineering_lines row)))
     else
       try_bind (map_error Mission_fault (missionId (mr_id row))) (\<lambda>ident.
       try_bind (map_error Contract_fault (repositoryId (mr_repository_id row))) (\<lambda>repository.
       try_bind (map_error Row_fault (requiredText (mr_title row) ''title'')) (\<lambda>title.
       try_bind (map_error Mission_fault (missionLabels (map tx_text (ag_labels records)))) (\<lambda>labels.
       try_bind (optional_family (mr_assignee row)) (\<lambda>assignee.
       try_bind (checkpointsFrom (mr_id row) records) (\<lambda>checkpoints.
       try_bind (briefFrom records) (\<lambda>brief.
       try_bind (declaredGatesFrom records) (\<lambda>gates.
       try_bind (map_error Contract_fault (successCriteria (map kw_criterion (ag_successCriteria records)))) (\<lambda>criteria.
       let (ids, nxt) = criterionIdentityFrom row records in
       try_bind (map_error Contract_fault (completedCriteria
         (map (\<lambda>(index, _). Num (of_nat index)) (filter (\<lambda>(_, r). kw_completed r = 1) (enumerate 0 (ag_successCriteria records))))
         (length (ag_successCriteria records)))) (\<lambda>completed.
       try_bind (map_error Mission_fault (missionDependencies (map tx_text (ag_dependencies records)) ident)) (\<lambda>dependencies.
       try_bind (predictedNelBucketFrom (mr_predicted_nel_bucket row)) (\<lambda>bucket.
       try_bind (map_error Row_fault (reviewFrom nt (ag_review records))) (\<lambda>review.
       try_bind (externalTaskRefFrom records) (\<lambda>taskRef.
       try_bind (missionVersion (mr_version row)) (\<lambda>version.
         Inr (\<lparr> ms_id = ident, ms_repositoryId = repository, ms_title = title,
           ms_description = (if has_text (mr_description row) then mr_description row else None),
           ms_labels = labels, ms_assignee = assignee, ms_checkpoints = checkpoints, ms_brief = brief,
           ms_declaredGates = gates, ms_successCriteria = criteria, ms_successCriterionIds = ids,
           ms_nextSuccessCriterionId = Some nxt, ms_completedSuccessCriteria = completed,
           ms_dependencies = dependencies, ms_predictedNelBucket = bucket,
           ms_reproductionTest = mr_reproduction_test row, ms_review = review,
           ms_reviewPreparationPending = (mr_review_preparation_pending row = 1),
           ms_netEngineeringLines = mr_net_engineering_lines row, ms_rawStatus = mr_raw_status row,
           ms_externalTaskRef = taskRef, ms_status = (if mr_closed_at row = None then missionStatus else Done),
           ms_closedAt = mr_closed_at row \<rparr>, version)))))))))))))))))"

section \<open>The row of a mission\<close>

definition mission_row_of :: "mission \<Rightarrow> string option \<Rightarrow> nat \<Rightarrow> nat \<Rightarrow> mission_row" where
  "mission_row_of mission closedAt version nextCriterion =
     \<lparr> mr_id = ms_id mission, mr_repository_id = ms_repositoryId mission, mr_title = ms_title mission,
       mr_status = status_text (ms_status mission), mr_raw_status = ms_rawStatus mission,
       mr_reproduction_test = ms_reproductionTest mission,
       mr_predicted_nel_bucket = map_option nel_label_text (ms_predictedNelBucket mission),
       mr_description = ms_description mission, mr_assignee = ms_assignee mission,
       mr_net_engineering_lines = ms_netEngineeringLines mission,
       mr_review_preparation_pending = (if ms_reviewPreparationPending mission then 1 else 0),
       mr_closed_at = closedAt, mr_version = version, mr_next_success_criterion_id = nextCriterion \<rparr>"

section \<open>What a save keeps of a mission\<close>

definition kept_checkpoint :: "checkpoint \<Rightarrow> checkpoint" where
  "kept_checkpoint cp = cp\<lparr>cp_goalCheck := map (\<lambda>row. row\<lparr>gr_criterionId := as_null (gr_criterionId row)\<rparr>)
     (filter (\<lambda>row. \<not> blank (gr_criterion row) \<and> \<not> blank (gr_evidence row)) (cp_goalCheck cp))\<rparr>"

definition kept_mission :: "mission \<Rightarrow> mission" where
  "kept_mission m = m\<lparr>ms_description := (if has_text (ms_description m) then ms_description m else None),
     ms_checkpoints := map kept_checkpoint (ms_checkpoints m), ms_review := map_option kept_review (ms_review m)\<rparr>"

text \<open>The identity, labels, people, counts and evidence of a mission are what their constructors build.\<close>

definition mission_parts_ok :: "mission \<Rightarrow> bool" where
  "mission_parts_ok m \<longleftrightarrow> missionId (ms_id m) = Inr (ms_id m) \<and> repositoryId (ms_repositoryId m) = Inr (ms_repositoryId m) \<and>
     missionLabels (ms_labels m) = Inr (ms_labels m) \<and> pred_option family_ok (ms_assignee m) \<and>
     pred_option safe_count (ms_netEngineeringLines m) \<and>
     list_all (\<lambda>cp. cp_missionId cp = ms_id m \<and> isCheckpointName (cp_name cp)) (ms_checkpoints m) \<and>
     safe_integer (int (length (ms_checkpoints m))) \<and>
     pred_option (\<lambda>e. externalTaskRef (et_source e) (et_id e) (et_url e) = Inr e) (ms_externalTaskRef m) \<and>
     pred_option (\<lambda>ids. [] \<notin> set ids) (ms_successCriterionIds m) \<and>
     pred_option review_storable (ms_review m)"

text \<open>What the store establishes before it writes the rows.\<close>

definition mission_contract_ok :: "mission \<Rightarrow> bool" where
  "mission_contract_ok m \<longleftrightarrow> \<not> blank (ms_title m) \<and> pred_option (\<lambda>b. missionBrief b = Inr b) (ms_brief m) \<and>
     declaredGates (ms_declaredGates m) = Inr (ms_declaredGates m) \<and>
     successCriteria (ms_successCriteria m) = Inr (ms_successCriteria m) \<and>
     pred_option (\<lambda>ids. length ids = length (ms_successCriteria m) \<and> [] \<notin> set ids) (ms_successCriterionIds m) \<and>
     ms_successCriterionIds m \<noteq> None \<and> ms_nextSuccessCriterionId m \<noteq> None \<and>
     sorted (ms_completedSuccessCriteria m) \<and> distinct (ms_completedSuccessCriteria m) \<and>
     list_all (\<lambda>i. i < length (ms_successCriteria m)) (ms_completedSuccessCriteria m) \<and>
     missionDependencies (ms_dependencies m) (ms_id m) = Inr (ms_dependencies m) \<and>
     (ms_closedAt m \<noteq> None \<longrightarrow> ms_status m = Done)"

section \<open>Reading back a mission\<close>

lemma text_rows_read [simp]:
  "sort_key tx_position (text_rows ts) = text_rows ts" "map tx_text (text_rows ts) = ts"
proof -
  show "sort_key tx_position (text_rows ts) = text_rows ts" by (simp add: text_rows_def positions_sorted)
  show "map tx_text (text_rows ts) = ts" by (simp add: text_rows_def comp_def case_prod_beta')
qed

lemma insert_cleared:
  "insert_values m (clearAggregateValues m rows) =
     \<lparr> ag_externalTaskRef = map_option (\<lambda>e. \<lparr> tw_source = et_source e, tw_external_id = et_id e, tw_url = et_url e \<rparr>) (ms_externalTaskRef m),
       ag_labels = text_rows (ms_labels m),
       ag_brief = map_option (\<lambda>b. \<lparr> bw_goal = mb_goal b, bw_why_text = mb_why b, bw_scope_text = mb_scope b \<rparr>) (ms_brief m),
       ag_briefOutOfScope = (case ms_brief m of None \<Rightarrow> [] | Some b \<Rightarrow> text_rows (mb_outOfScope b)),
       ag_declaredGates = text_rows (ms_declaredGates m), ag_successCriteria = criterion_rows m,
       ag_dependencies = text_rows (ms_dependencies m),
       ag_checkpoints = map (\<lambda>(position, cp). checkpoint_row_of position cp) (enumerate 0 (ms_checkpoints m)),
       ag_goalChecks = concat (map (\<lambda>(position, cp). goal_check_rows position cp) (enumerate 0 (ms_checkpoints m))),
       ag_review = (case ms_review m of None \<Rightarrow> no_review_rows | Some r \<Rightarrow> insertReview r) \<rparr>"
  by (simp add: insert_values_def clearAggregateValues_def insertAuthoring_def insertMirrors_def insertCheckpoints_def
      append_review_def no_values_def no_review_rows_def Let_def insertReview_def split: option.split)

lemma criterion_rows_read [simp]: "sort_key kw_position (criterion_rows m) = criterion_rows m"
  by (simp add: criterion_rows_def positions_sorted)

lemma criterion_texts_read [simp]: "map kw_criterion (criterion_rows m) = ms_successCriteria m"
  "length (criterion_rows m) = length (ms_successCriteria m)"
  by (simp_all add: criterion_rows_def comp_def case_prod_beta')

lemma nth_criterion_rows:
  "i < length (ms_successCriteria m) \<Longrightarrow> criterion_rows m ! i = \<lparr> kw_position = i, kw_criterion = ms_successCriteria m ! i,
     kw_criterion_id = Option.bind (ms_successCriterionIds m) (\<lambda>ids. nth_opt ids i),
     kw_completed = (if i \<in> set (ms_completedSuccessCriteria m) then 1 else 0) \<rparr>"
  by (simp add: criterion_rows_def nth_enumerate_eq)

lemma criterion_ids_read:
  assumes "ms_successCriterionIds m = Some ids" and "length ids = length (ms_successCriteria m)" and "[] \<notin> set ids"
    and "ag_successCriteria records = criterion_rows m"
  shows "criterionIdentityFrom row records = (Some ids, mr_next_success_criterion_id row)"
proof -
  have id: "kw_criterion_id (criterion_rows m ! i) = Some (ids ! i)" "ids ! i \<noteq> []" if "i < length (ms_successCriteria m)" for i
  proof -
    show "kw_criterion_id (criterion_rows m ! i) = Some (ids ! i)" using assms that by (simp add: nth_criterion_rows nth_opt_def)
    show "ids ! i \<noteq> []" using assms(2,3) that by (metis nth_mem)
  qed
  have "list_all (\<lambda>r. has_text (kw_criterion_id r)) (criterion_rows m)"
    using id by (simp add: list_all_length has_text_def)
  moreover have "map (\<lambda>r. the (kw_criterion_id r)) (criterion_rows m) = ids"
    using id assms(2) by (intro nth_equalityI) simp_all
  ultimately show ?thesis by (simp add: criterionIdentityFrom_def assms(4))
qed

lemma completed_read:
  assumes "sorted (ms_completedSuccessCriteria m)" and "distinct (ms_completedSuccessCriteria m)"
    and "list_all (\<lambda>i. i < length (ms_successCriteria m)) (ms_completedSuccessCriteria m)"
  shows "completedCriteria (map (\<lambda>(index, _). Num (of_nat index)) (filter (\<lambda>(_, r). kw_completed r = Suc 0) (enumerate 0 (criterion_rows m))))
    (length (ms_successCriteria m)) = Inr (ms_completedSuccessCriteria m)"
proof -
  let ?marked = "filter (\<lambda>(_, r). kw_completed r = Suc 0) (enumerate 0 (criterion_rows m))"
  have set: "set (map fst ?marked) = set (ms_completedSuccessCriteria m)"
    using assms(3) by (auto simp: in_set_enumerate_eq nth_criterion_rows list_all_iff image_iff split: if_splits)
  have "map (\<lambda>(index, _). Num (of_nat index)) ?marked = map (\<lambda>i. Num (of_nat i)) (map fst ?marked)"
    by (simp add: comp_def case_prod_beta')
  moreover have "completedCriteria (map (\<lambda>i. Num (of_nat i)) (map fst ?marked)) (length (ms_successCriteria m)) =
      Inr (sort (dedupe (map fst ?marked)))"
    using set assms(3) unfolding completed_Inr
    by (simp add: comp_def list_all_iff del: set_map) (auto simp: in_set_enumerate_eq)
  moreover have "sort (dedupe (map fst ?marked)) = ms_completedSuccessCriteria m"
    using assms set by (intro sorted_distinct_set_unique) (simp_all del: set_map)
  ultimately show ?thesis by metis
qed

lemma goal_row_read: "goal_row_from \<lparr> gw_checkpoint_position = p, gw_position = i, gw_criterion = gr_criterion row,
     gw_criterion_id = given (gr_criterionId row), gw_evidence = gr_evidence row,
     gw_recorded_round = gr_recordedRound row, gw_repaired_gate = gr_repairedGate row,
     gw_repaired_gates = gr_repairedGates row, gw_carried_from = gr_carriedFrom row \<rparr> = row\<lparr>gr_criterionId := as_null (gr_criterionId row)\<rparr>"
  by (cases row; cases "gr_criterionId row") (simp_all add: goal_row_from_def)

lemma goal_rows_read:
  "map goal_row_from (filter (\<lambda>row. \<not> blank (gw_criterion row) \<and> \<not> blank (gw_evidence row)) (goal_check_rows p cp)) =
    cp_goalCheck (kept_checkpoint cp)"
proof -
  have "map goal_row_from (filter (\<lambda>row. \<not> blank (gw_criterion row) \<and> \<not> blank (gw_evidence row)) (map (\<lambda>(position, row).
     \<lparr> gw_checkpoint_position = p, gw_position = position, gw_criterion = gr_criterion row,
       gw_criterion_id = given (gr_criterionId row), gw_evidence = gr_evidence row,
       gw_recorded_round = gr_recordedRound row, gw_repaired_gate = gr_repairedGate row,
       gw_repaired_gates = gr_repairedGates row, gw_carried_from = gr_carriedFrom row \<rparr>) (enumerate n rows))) =
    map (\<lambda>row. row\<lparr>gr_criterionId := as_null (gr_criterionId row)\<rparr>)
      (filter (\<lambda>row. \<not> blank (gr_criterion row) \<and> \<not> blank (gr_evidence row)) rows)" for n rows
    by (induction rows arbitrary: n) (simp_all add: goal_row_read)
  then show ?thesis by (simp add: goal_check_rows_def kept_checkpoint_def)
qed

lemma checkpoints_read:
  assumes "list_all (\<lambda>cp. cp_missionId cp = mission \<and> isCheckpointName (cp_name cp)) cps"
    and "safe_integer (int (length cps))" and "missionId mission = Inr mission"
    and "ag_checkpoints records = sort_key pw_position (map (\<lambda>(p, cp). checkpoint_row_of p cp) (enumerate 0 cps))"
    and "ag_goalChecks records = sort_key (\<lambda>g. (gw_checkpoint_position g, gw_position g))
      (concat (map (\<lambda>(p, cp). goal_check_rows p cp) (enumerate 0 cps)))"
  shows "checkpointsFrom mission records = Inr (map kept_checkpoint cps)"
proof -
  let ?goals = "concat (map (\<lambda>(p, cp). goal_check_rows p cp) (enumerate 0 cps))"
  have pos: "\<And>q x y. y \<in> set (goal_check_rows q x) \<Longrightarrow> gw_checkpoint_position y = q"
    by (auto simp: goal_check_rows_def)
  have sorted: "sorted (map (\<lambda>g. (gw_checkpoint_position g, gw_position g)) (goal_check_rows q x))" for q x
    by (simp add: goal_check_rows_def del: map_map) (rule block_sorted, simp_all)
  have goals: "ag_goalChecks records = ?goals"
    using sorted_blocks[of "\<lambda>g. (gw_checkpoint_position g, gw_position g)" goal_check_rows 0 cps, OF sorted] pos assms(5)
    by (simp add: sort_key_id_if_sorted)
  have rows: "ag_checkpoints records = map (\<lambda>(p, cp). checkpoint_row_of p cp) (enumerate 0 cps)"
    using assms(4) by (simp add: positions_sorted checkpoint_row_of_def)
  have "try_map (checkpoint_from mission ?goals) (map (\<lambda>(p, cp). checkpoint_row_of p cp) (enumerate 0 cps)) =
    Inr (map (\<lambda>(p, cp). kept_checkpoint cp) (enumerate 0 cps))"
  proof (rule try_map_map, clarify)
    fix p cp assume "(p, cp) \<in> set (enumerate 0 cps)"
    then have i: "p < length cps" "cps ! p = cp" by (auto simp: in_set_enumerate_eq)
    then have cp: "cp_missionId cp = mission" "isCheckpointName (cp_name cp)" using assms(1) by (auto simp: list_all_length)
    have "safe_integer (int p)" using i(1) assms(2) by (simp add: safe_integer_def)
    moreover have "filter (\<lambda>row. gw_checkpoint_position row = p) ?goals = goal_check_rows p cp"
      using filter_block[of goal_check_rows gw_checkpoint_position p 0 cps, OF pos] i by simp
    ultimately show "checkpoint_from mission ?goals (checkpoint_row_of p cp) = Inr (kept_checkpoint cp)"
      using cp assms(3) goal_rows_read[of p cp]
      by (cases cp) (simp add: checkpoint_from_def checkpoint_row_of_def kept_checkpoint_def)
  qed
  moreover have "map (\<lambda>(p, cp). kept_checkpoint cp) (enumerate 0 cps) = map kept_checkpoint cps"
    by (simp add: case_prod_beta' flip: map_map[of kept_checkpoint snd, unfolded comp_def])
  ultimately show ?thesis by (simp add: checkpointsFrom_def goals rows)
qed

lemma nel_label_read: "predictedNelBucketFrom (map_option nel_label_text b) = Inr b"
proof (cases b)
  case (Some l)
  then show ?thesis by (cases l) (simp_all add: predictedNelBucketFrom_def)
qed (simp add: predictedNelBucketFrom_def)

lemma task_ref_read:
  assumes "pred_option (\<lambda>e. externalTaskRef (et_source e) (et_id e) (et_url e) = Inr e) r"
    and "ag_externalTaskRef records = map_option (\<lambda>e. \<lparr> tw_source = et_source e, tw_external_id = et_id e, tw_url = et_url e \<rparr>) r"
  shows "externalTaskRefFrom records = Inr r"
  using assms by (cases r) (simp_all add: externalTaskRefFrom_def)

lemma brief_read:
  assumes "pred_option (\<lambda>b. missionBrief b = Inr b) brief"
    and "ag_brief records = map_option (\<lambda>b. \<lparr> bw_goal = mb_goal b, bw_why_text = mb_why b, bw_scope_text = mb_scope b \<rparr>) brief"
    and "ag_briefOutOfScope records = sort_key tx_position (case brief of None \<Rightarrow> [] | Some b \<Rightarrow> text_rows (mb_outOfScope b))"
  shows "briefFrom records = Inr brief"
proof (cases brief)
  case (Some b)
  then show ?thesis using assms by (cases b) (simp add: briefFrom_def)
qed (use assms in \<open>simp add: briefFrom_def\<close>)

lemma family_read: "pred_option family_ok a \<Longrightarrow> optional_family a = Inr a"
  by (cases a) (simp_all add: optional_family_def optional_parse_def family_ok_def)

lemma stored_review_read:
  assumes "pred_option review_storable r"
  shows "reviewFrom nt (readReviewRows (case r of None \<Rightarrow> no_review_rows | Some x \<Rightarrow> insertReview x)) = Inr (map_option kept_review r)"
proof (cases r)
  case None
  then show ?thesis by (simp add: reviewFrom_def readReviewRows_def no_review_rows_def)
next
  case (Some x)
  then show ?thesis using assms review_read by simp
qed

lemma mission_read:
  assumes parts: "mission_parts_ok m" and contract: "mission_contract_ok m"
    and version: "1 \<le> v" "safe_integer (int v)"
  shows "hydrateMission nt (mission_row_of m (ms_closedAt m) v (the (ms_nextSuccessCriterionId m)))
    (read_values (insert_values m (clearAggregateValues m rows))) = Inr (kept_mission m, v)"
proof -
  note p = parts[unfolded mission_parts_ok_def] and c = contract[unfolded mission_contract_ok_def]
  let ?row = "mission_row_of m (ms_closedAt m) v (the (ms_nextSuccessCriterionId m))"
  let ?stored = "read_values (insert_values m (clearAggregateValues m rows))"
  note written = insert_cleared read_values_def readAuthoringRows_def
  have cps: "checkpointsFrom (ms_id m) ?stored = Inr (map kept_checkpoint (ms_checkpoints m))"
    using p by (intro checkpoints_read) (simp_all add: written)
  have brief: "briefFrom ?stored = Inr (ms_brief m)"
    using c by (intro brief_read) (simp_all add: written)
  have gates: "declaredGatesFrom ?stored = Inr (ms_declaredGates m)"
    using c by (simp add: declaredGatesFrom_def written)
  obtain ids where ids: "ms_successCriterionIds m = Some ids" "length ids = length (ms_successCriteria m)" "[] \<notin> set ids"
    using c by auto
  have ident: "criterionIdentityFrom ?row ?stored = (Some ids, the (ms_nextSuccessCriterionId m))"
    using ids by (subst criterion_ids_read) (simp_all add: written mission_row_of_def)
  have criteria: "ag_successCriteria ?stored = criterion_rows m" by (simp add: written)
  have completed: "completedCriteria (map (\<lambda>(index, _). Num (of_nat index))
      (filter (\<lambda>(_, r). kw_completed r = Suc 0) (enumerate 0 (criterion_rows m)))) (length (ms_successCriteria m)) =
      Inr (ms_completedSuccessCriteria m)"
    using c by (intro completed_read) blast+
  have ref: "externalTaskRefFrom ?stored = Inr (ms_externalTaskRef m)"
    using p by (intro task_ref_read) (simp_all add: written)
  have review: "reviewFrom nt (ag_review ?stored) = Inr (map_option kept_review (ms_review m))"
    using p stored_review_read by (simp add: written)
  have family: "optional_family (ms_assignee m) = Inr (ms_assignee m)" using p family_read by blast
  have texts: "map tx_text (ag_labels ?stored) = ms_labels m" "map tx_text (ag_dependencies ?stored) = ms_dependencies m"
    by (simp_all add: written)
  have count: "\<not> (case ms_netEngineeringLines m of None \<Rightarrow> False | Some n \<Rightarrow> \<not> safe_count n)"
    using p by (cases "ms_netEngineeringLines m") simp_all
  have closed: "\<not> (ms_closedAt m \<noteq> None \<and> ms_status m \<noteq> Done)" using c by blast
  have row: "mr_id ?row = ms_id m" "mr_repository_id ?row = ms_repositoryId m" "mr_title ?row = ms_title m"
    "mr_status ?row = status_text (ms_status m)" "mr_closed_at ?row = ms_closedAt m" "mr_version ?row = v"
    "mr_net_engineering_lines ?row = ms_netEngineeringLines m" "mr_assignee ?row = ms_assignee m"
    "mr_predicted_nel_bucket ?row = map_option nel_label_text (ms_predictedNelBucket m)" "mr_raw_status ?row = ms_rawStatus m"
    "mr_reproduction_test ?row = ms_reproductionTest m" "mr_description ?row = ms_description m"
    "mr_review_preparation_pending ?row = (if ms_reviewPreparationPending m then 1 else 0)"
    by (simp_all add: mission_row_of_def)
  have "hydrateMission nt ?row ?stored = Inr (\<lparr> ms_id = ms_id m, ms_repositoryId = ms_repositoryId m, ms_title = ms_title m,
       ms_description = (if has_text (ms_description m) then ms_description m else None),
       ms_labels = ms_labels m, ms_assignee = ms_assignee m, ms_checkpoints = map kept_checkpoint (ms_checkpoints m),
       ms_brief = ms_brief m, ms_declaredGates = ms_declaredGates m, ms_successCriteria = ms_successCriteria m,
       ms_successCriterionIds = Some ids, ms_nextSuccessCriterionId = Some (the (ms_nextSuccessCriterionId m)),
       ms_completedSuccessCriteria = ms_completedSuccessCriteria m, ms_dependencies = ms_dependencies m,
       ms_predictedNelBucket = ms_predictedNelBucket m, ms_reproductionTest = ms_reproductionTest m,
       ms_review = map_option kept_review (ms_review m), ms_reviewPreparationPending = ms_reviewPreparationPending m,
       ms_netEngineeringLines = ms_netEngineeringLines m, ms_rawStatus = ms_rawStatus m,
       ms_externalTaskRef = ms_externalTaskRef m, ms_status = ms_status m, ms_closedAt = ms_closedAt m \<rparr>, v)"
    using p c version count closed unfolding hydrateMission_def row criteria texts
    by (simp add: status_from_def family cps brief gates ident completed nel_label_read review ref missionVersion_def)
  then show ?thesis using ids(1) c by (cases m) (auto simp: kept_mission_def)
qed

end
