(* ===== verification/MissionStore.thy ===== *)
theory MissionStore
  imports MissionRows "HOL-Library.Sublist"
begin

text \<open>
  The store of missions in the operator database: \<open>src/src/adapters/sqlite/mission-store.ts\<close> with the
  evidence history of \<open>checkpoint-history.ts\<close>, over the rows of \<open>MissionRows\<close> and the events of \<open>Lanes\<close>.

  The database is one state value. A write runs in a transaction, so an error leaves the state as it was
  and is the only result. Whether the process that writes still owns the mission's workflow
  (\<open>workflow-write-guard.ts\<close>) is decided outside and a parameter of the write; whether foreign keys are
  enabled on the connection is a parameter of a cancellation. Operations are serialized by the store's
  queue, so they run one after the other.
\<close>

section \<open>The database\<close>

record stored_mission =
  st_row :: mission_row
  st_values :: value_rows
  st_history :: "checkpoint_version list"
  st_rounds :: "(int \<times> review_checkpoint_state option) list"

record database =
  db_missions :: "stored_mission list"
  db_events :: lane_table

datatype store_error =
    Write_refused string
  | Stale_write string "nat option" "nat option" \<comment> \<open>mission, expected and actual version\<close>
  | Constraint_failed string
  | Mission_refused mission_error | Contract_refused contract_error | Closure_invalid string
  | Event_foreign | Event_refused lane_error | Duplicate_event string
  | Foreign_keys_off string | Cancel_done string | Foreign_keys_broken string nat

definition stored_named :: "string \<Rightarrow> stored_mission \<Rightarrow> bool" where
  "stored_named ident s \<longleftrightarrow> mr_id (st_row s) = ident"

definition find_stored :: "database \<Rightarrow> string \<Rightarrow> stored_mission option" where
  "find_stored db ident = find_first (stored_named ident) (db_missions db)"

definition put_stored :: "database \<Rightarrow> string \<Rightarrow> stored_mission \<Rightarrow> database" where
  "put_stored db ident s = db\<lparr>db_missions :=
     (if list_ex (stored_named ident) (db_missions db)
      then map (\<lambda>t. if stored_named ident t then s else t) (db_missions db)
      else db_missions db @ [s])\<rparr>"

definition currentVersion :: "database \<Rightarrow> string \<Rightarrow> nat option" where
  "currentVersion db ident = map_option (\<lambda>s. mr_version (st_row s)) (find_stored db ident)"

section \<open>Loading\<close>

definition load_stored :: "(jsnum \<Rightarrow> string) \<Rightarrow> stored_mission \<Rightarrow> load_error + mission \<times> nat" where
  "load_stored nt s = hydrateMission nt (st_row s) (read_values (st_values s))"

definition loadAggregate :: "(jsnum \<Rightarrow> string) \<Rightarrow> database \<Rightarrow> string \<Rightarrow> load_error + (mission \<times> nat) option" where
  "loadAggregate nt db ident =
     (case find_stored db ident of
        None \<Rightarrow> Inr None
      | Some s \<Rightarrow> map_sum id Some (load_stored nt s))"

section \<open>The evidence history\<close>

text \<open>\<open>recorded_at\<close>, \<open>recorded_round\<close> and \<open>mission_revision\<close> come from the recording of the checkpoint.\<close>

definition version_of :: "int \<Rightarrow> checkpoint \<Rightarrow> checkpoint_version" where
  "version_of version cp =
     \<lparr> cv_version = version, cv_checkpoint = cp, cv_recordedAt = map_option rg_recordedAt (cp_recording cp),
       cv_recordedRound = Option.bind (cp_recording cp) rg_recordedRound,
       cv_missionRevision = map_option rg_missionRevision (cp_recording cp) \<rparr>"

definition findLast_version :: "checkpoint_version list \<Rightarrow> string \<Rightarrow> checkpoint_version option" where
  "findLast_version history name = find_first (\<lambda>item. cp_name (cv_checkpoint item) = name) (rev history)"

definition history_skips :: "checkpoint_version list \<Rightarrow> checkpoint \<Rightarrow> bool" where
  "history_skips history cp \<longleftrightarrow> isPlannedCheckpoint cp \<or>
     (case findLast_version history (cp_name cp) of
        None \<Rightarrow> False
      | Some prior \<Rightarrow> (case cp_recording cp of
            None \<Rightarrow> True | Some recording \<Rightarrow> cv_missionRevision prior = Some (rg_missionRevision recording)))"

definition last_version :: "checkpoint_version list \<Rightarrow> int" where
  "last_version history = (case at_last history of None \<Rightarrow> 0 | Some item \<Rightarrow> cv_version item)"

definition append_history :: "mission \<Rightarrow> checkpoint_version list \<Rightarrow> checkpoint_version list" where
  "append_history mission history = history @
     map (\<lambda>(i, cp). version_of (last_version history + int i) cp)
       (enumerate 1 (filter (\<lambda>cp. \<not> history_skips history cp) (ms_checkpoints mission)))"

text \<open>\<open>ON CONFLICT(mission_id, round_number) DO NOTHING\<close>.\<close>

definition capture_round ::
  "mission \<Rightarrow> checkpoint_version list \<Rightarrow> (int \<times> review_checkpoint_state option) list \<Rightarrow> review_round \<Rightarrow>
    (int \<times> review_checkpoint_state option) list" where
  "capture_round mission history states rd =
     (if map_of states (rd_number rd) = None
      then states @ [(rd_number rd, Some (captureReviewCheckpointState (rd_number rd) (ms_checkpoints mission) history
        (criterionContract mission)))]
      else states)"

definition captureRounds ::
  "mission \<Rightarrow> checkpoint_version list \<Rightarrow> (int \<times> review_checkpoint_state option) list \<Rightarrow>
    (int \<times> review_checkpoint_state option) list" where
  "captureRounds mission history states =
     foldl (capture_round mission history) states (case ms_review mission of None \<Rightarrow> [] | Some r \<Rightarrow> rounds r)"

section \<open>Saving\<close>

definition normalizeStoredMission :: "mission \<Rightarrow> store_error + mission" where
  "normalizeStoredMission mission =
     (let m = mission\<lparr>ms_title := missionTitle (ms_title mission) (ms_id mission)\<rparr> in
      try_bind (case ms_brief m of
          None \<Rightarrow> Inr None
        | Some b \<Rightarrow> map_sum Contract_refused Some (missionBrief b)) (\<lambda>brief.
      try_bind (map_error Contract_refused (declaredGates (ms_declaredGates m))) (\<lambda>gates.
      try_bind (map_error Contract_refused (successCriteria (ms_successCriteria m))) (\<lambda>criteria.
      try_bind (map_error Contract_refused (completedCriteria
        (map (\<lambda>i. Num (of_nat i)) (ms_completedSuccessCriteria m)) (length criteria))) (\<lambda>completed.
      try_bind (map_error Mission_refused (missionDependencies (ms_dependencies m) (ms_id m))) (\<lambda>dependencies.
        Inr (m\<lparr>ms_brief := brief, ms_declaredGates := gates, ms_successCriteria := criteria,
          ms_completedSuccessCriteria := completed, ms_dependencies := dependencies\<rparr>)))))))"

definition alignStoredCriteria :: "mission \<Rightarrow> store_error + mission" where
  "alignStoredCriteria mission =
     try_bind (map_error Contract_refused (replaceSuccessCriteria mission (ms_successCriteria mission)
       (map_option (map Some) (ms_successCriterionIds mission)))) (\<lambda>m.
       Inr (m\<lparr>ms_checkpoints := map (\<lambda>cp. cp\<lparr>cp_goalCheck := identifyGoalCheckRows (cp_goalCheck cp) (criterionContract m)\<rparr>)
         (ms_checkpoints m)\<rparr>))"

text \<open>A closing time that is not canonical survives only unchanged.\<close>

definition stored_closure :: "database \<Rightarrow> mission \<Rightarrow> nat option \<Rightarrow> store_error + string option" where
  "stored_closure db mission expected =
     (case ms_closedAt mission of
        None \<Rightarrow> Inr None
      | Some closedAt \<Rightarrow>
          (case to_canonical_utc_instant closedAt of
             Inr canonical \<Rightarrow> Inr (Some canonical)
           | Inl _ \<Rightarrow>
               (case find_stored db (ms_id mission) of
                  Some s \<Rightarrow> if Some (mr_version (st_row s)) = expected \<and> mr_closed_at (st_row s) = Some closedAt
                            then Inr (Some closedAt) else Inl (Closure_invalid closedAt)
                | None \<Rightarrow> Inl (Closure_invalid closedAt))))"

text \<open>The row and the collections a save starts from: a new mission, or the cleared old one.\<close>

definition begin_save ::
  "database \<Rightarrow> mission \<Rightarrow> nat option \<Rightarrow> string option \<Rightarrow> store_error + stored_mission" where
  "begin_save db mission expected closedAt =
     (case (expected, find_stored db (ms_id mission)) of
        (None, Some s) \<Rightarrow> Inl (Stale_write (ms_id mission) None (Some (mr_version (st_row s))))
      | (None, None) \<Rightarrow>
          (let row = mission_row_of mission closedAt 1 1 in
           if mission_row_valid row
           then Inr \<lparr> st_row = row, st_values = no_values, st_history = [], st_rounds = [] \<rparr>
           else Inl (Constraint_failed (ms_id mission)))
      | (Some v, None) \<Rightarrow> Inl (Stale_write (ms_id mission) (Some v) None)
      | (Some v, Some s) \<Rightarrow>
          (let row = mission_row_of mission closedAt (mr_version (st_row s) + 1) (mr_next_success_criterion_id (st_row s)) in
           if mr_version (st_row s) \<noteq> v then Inl (Stale_write (ms_id mission) (Some v) (Some (mr_version (st_row s))))
           else if mission_row_valid row
           then Inr (s\<lparr>st_row := row, st_values := clearAggregateValues mission (st_values s)\<rparr>)
           else Inl (Constraint_failed (ms_id mission))))"

definition persistAggregate ::
  "(string \<Rightarrow> bool) \<Rightarrow> database \<Rightarrow> mission \<Rightarrow> nat option \<Rightarrow> store_error + nat \<times> database" where
  "persistAggregate owns db mission expected =
     (if \<not> owns (ms_id mission) then Inl (Write_refused (ms_id mission))
      else try_bind (normalizeStoredMission mission) (\<lambda>normal.
        try_bind (stored_closure db normal expected) (\<lambda>closedAt.
        try_bind (begin_save db normal expected closedAt) (\<lambda>s.
        try_bind (alignStoredCriteria normal) (\<lambda>aligned.
          let history = append_history aligned (st_history s);
              written = insert_values aligned (st_values s) in
          if \<not> values_valid (ms_id mission) written then Inl (Constraint_failed (ms_id mission))
          else Inr (mr_version (st_row s), put_stored db (ms_id mission)
            (s\<lparr>st_row := (st_row s)\<lparr>mr_next_success_criterion_id := the (ms_nextSuccessCriterionId aligned)\<rparr>,
               st_values := written, st_history := history,
               st_rounds := captureRounds aligned history (st_rounds s)\<rparr>)))))))"

definition saveAggregate ::
  "(string \<Rightarrow> bool) \<Rightarrow> database \<Rightarrow> mission \<Rightarrow> nat option \<Rightarrow> store_error + nat \<times> database" where
  "saveAggregate owns db mission expected = persistAggregate owns db mission expected"

definition entry_of_event :: "lane_event \<Rightarrow> lane_entry" where
  "entry_of_event event =
     \<lparr> bl_repositoryId = le_repositoryId event, bl_missionId = le_missionId event,
       bl_fromStatus = map_option status_text (le_from event), bl_toStatus = status_text (le_to event),
       bl_trigger = le_trigger event, bl_agent = le_agent event, bl_occurredAt = le_occurredAt event,
       bl_idempotencyKey = le_idempotencyKey event \<rparr>"

definition saveAggregateWithTransition ::
  "(string \<Rightarrow> bool) \<Rightarrow> database \<Rightarrow> mission \<Rightarrow> nat option \<Rightarrow> lane_event \<Rightarrow> store_error + nat \<times> database" where
  "saveAggregateWithTransition owns db mission expected event =
     (if le_missionId event \<noteq> ms_id mission \<or> le_repositoryId event \<noteq> ms_repositoryId mission then Inl Event_foreign
      else try_bind (persistAggregate owns db mission expected) (\<lambda>(version, saved).
        try_bind (map_error Event_refused (append_event (db_events saved) (entry_of_event event))) (\<lambda>(appended, events).
          if \<not> appended then Inl (Duplicate_event (le_idempotencyKey event))
          else Inr (version, saved\<lparr>db_events := events\<rparr>))))"

text \<open>Rows of other tables of a cancelled mission (its activity and session markers) are not part of the
  modelled state; deleting the mission row takes every collection of the mission with it. \<open>violations\<close>
  is what \<open>PRAGMA foreign_key_check\<close> counts over all tables once the rows are deleted; when it counts any,
  the deletions are rolled back.\<close>

definition cancelAggregate :: "bool \<Rightarrow> nat \<Rightarrow> database \<Rightarrow> string \<Rightarrow> store_error + database" where
  "cancelAggregate foreign_keys violations db ident =
     (if \<not> foreign_keys then Inl (Foreign_keys_off ident)
      else if (case find_stored db ident of None \<Rightarrow> False | Some s \<Rightarrow> mr_status (st_row s) = ''done'')
      then Inl (Cancel_done ident)
      else if violations > 0 then Inl (Foreign_keys_broken ident violations)
      else Inr (db\<lparr>db_missions := filter (\<lambda>s. \<not> stored_named ident s) (db_missions db),
        db_events := (db_events db)\<lparr>lt_rows := filter (\<lambda>e. bl_missionId e \<noteq> ident) (lt_rows (db_events db))\<rparr>\<rparr>))"

section \<open>Rows by mission\<close>

lemma hydrate_fields:
  "hydrateMission nt row records = Inr (m, v) \<Longrightarrow> ms_id m = mr_id row \<and> v = mr_version row"
  by (cases "criterionIdentityFrom row records")
    (auto simp: hydrateMission_def try_bind_Inr map_error_Inr missionId_def missionVersion_def split: if_splits prod.splits)

lemma load_stored_fields: "load_stored nt s = Inr (m, v) \<Longrightarrow> ms_id m = mr_id (st_row s) \<and> v = mr_version (st_row s)"
  unfolding load_stored_def by (rule hydrate_fields)

definition missions_distinct :: "database \<Rightarrow> bool" where
  "missions_distinct db = distinct (map (\<lambda>s. mr_id (st_row s)) (db_missions db))"

definition database_ok :: "database \<Rightarrow> bool" where
  "database_ok db \<longleftrightarrow> missions_distinct db \<and> lane_table_ok (db_events db)"

lemma stored_named_find: "find_stored db i = Some s \<Longrightarrow> mr_id (st_row s) = i \<and> s \<in> set (db_missions db)"
  by (auto simp: find_stored_def stored_named_def dest: find_first_Some)

lemma find_stored_None: "find_stored db i = None \<longleftrightarrow> i \<notin> set (map (\<lambda>s. mr_id (st_row s)) (db_missions db))"
  by (auto simp: find_stored_def find_first_None stored_named_def)

lemma find_stored_member:
  assumes "missions_distinct db" and "s \<in> set (db_missions db)"
  shows "find_stored db (mr_id (st_row s)) = Some s"
proof -
  obtain t where t: "find_stored db (mr_id (st_row s)) = Some t"
    using assms(2) find_stored_None[of db "mr_id (st_row s)"] by (cases "find_stored db (mr_id (st_row s))") auto
  then have "t = s" using stored_named_find[OF t] assms by (auto simp: missions_distinct_def distinct_map dest: inj_onD)
  then show ?thesis using t by simp
qed

lemma find_replaced:
  "mr_id (st_row s) = i \<Longrightarrow>
    find_first (stored_named j) (map (\<lambda>t. if stored_named i t then s else t) xs) =
      (if j = i then (if list_ex (stored_named i) xs then Some s else None) else find_first (stored_named j) xs)"
  by (induction xs) (auto simp: stored_named_def)

lemma find_added:
  "\<not> list_ex (stored_named i) xs \<Longrightarrow> mr_id (st_row s) = i \<Longrightarrow>
    find_first (stored_named j) (xs @ [s]) = (if j = i then Some s else find_first (stored_named j) xs)"
  by (induction xs) (auto simp: stored_named_def)

lemma find_put [simp]:
  "mr_id (st_row s) = i \<Longrightarrow> find_stored (put_stored db i s) j = (if j = i then Some s else find_stored db j)"
  by (simp add: find_stored_def put_stored_def find_replaced find_added)

lemma put_distinct:
  "missions_distinct db \<Longrightarrow> mr_id (st_row s) = i \<Longrightarrow> missions_distinct (put_stored db i s)"
proof -
  assume d: "missions_distinct db" and i: "mr_id (st_row s) = i"
  have same: "(\<lambda>t. mr_id (st_row (if stored_named i t then s else t))) = (\<lambda>t. mr_id (st_row t))"
    using i by (auto simp: stored_named_def)
  show "missions_distinct (put_stored db i s)"
  proof (cases "list_ex (stored_named i) (db_missions db)")
    case True
    then show ?thesis using d by (simp add: missions_distinct_def put_stored_def comp_def same)
  next
    case False
    then show ?thesis using d i by (auto simp: missions_distinct_def put_stored_def list_ex_iff stored_named_def)
  qed
qed

interpretation mission_rows: keyed_store find_stored put_stored missions_distinct "\<lambda>i s. mr_id (st_row s) = i"
  by unfold_locales (auto intro: put_distinct)

section \<open>What a save does\<close>

lemma try_map_keeps:
  "(\<And>x y. f x = Inr y \<Longrightarrow> y = x) \<Longrightarrow> try_map f xs = Inr ys \<Longrightarrow> ys = xs"
  by (induction xs arbitrary: ys) (auto split: sum.splits)

lemma normalize_Inr:
  assumes "normalizeStoredMission m = Inr n"
  obtains completed where "n = m\<lparr>ms_title := missionTitle (ms_title m) (ms_id m), ms_completedSuccessCriteria := completed\<rparr>"
    "pred_option (\<lambda>b. missionBrief b = Inr b) (ms_brief m)" "declaredGates (ms_declaredGates m) = Inr (ms_declaredGates m)"
    "successCriteria (ms_successCriteria m) = Inr (ms_successCriteria m)"
    "completedCriteria (map (\<lambda>i. Num (of_nat i)) (ms_completedSuccessCriteria m)) (length (ms_successCriteria m)) = Inr completed"
    "missionDependencies (ms_dependencies m) (ms_id m) = Inr (ms_dependencies m)"
proof -
  have brief: "(case b of None \<Rightarrow> Inr None | Some x \<Rightarrow> map_sum Contract_refused Some (missionBrief x)) = Inr b' \<longleftrightarrow>
      b' = b \<and> pred_option (\<lambda>b. missionBrief b = Inr b) b" for b b'
  proof (cases b)
    case (Some x)
    have "missionBrief x = Inr y \<Longrightarrow> y = x" for y by (simp add: mission_brief_Inr)
    then show ?thesis using Some by (cases "missionBrief x") auto
  qed auto
  have texts: "distinctEntries vs len k = Inr ws \<Longrightarrow> ws = vs" for vs ws len k
    by (simp add: distinct_entries_Inr)
  have deps: "ws = vs" if "missionDependencies vs i = Inr ws" for vs ws i
  proof -
    obtain entries where e: "distinctEntries vs 128 32 = Inr entries" "try_map (\<lambda>entry.
        if entry = i then Inl (Contract (Depends_on_itself i))
        else map_error (\<lambda>_. Contract (Dependency_not_slug entry)) (missionId entry)) entries = Inr ws"
      using \<open>missionDependencies vs i = Inr ws\<close> by (auto simp: missionDependencies_def split: sum.splits)
    have "ws = entries"
      by (rule try_map_keeps[OF _ e(2)]) (auto simp: missionId_def map_error_Inr split: if_splits)
    then show ?thesis using texts[OF e(1)] by simp
  qed
  show ?thesis
    using assms unfolding normalizeStoredMission_def Let_def try_bind_Inr map_error_Inr brief
    apply clarsimp
    subgoal for gates criteria completed dependencies
      using texts[of "ms_declaredGates m" 512 16 gates] texts[of "ms_successCriteria m" 512 32 criteria]
        deps[of "ms_dependencies m" "ms_id m" dependencies]
      by (intro that[of completed]) (simp_all add: declaredGates_def successCriteria_def)
    done
qed

lemma align_Inr:
  assumes "alignStoredCriteria m = Inr a"
  obtains assigned nxt completed criteria where
    "a = m\<lparr>ms_successCriterionIds := Some assigned, ms_nextSuccessCriterionId := Some nxt,
       ms_completedSuccessCriteria := completed, ms_checkpoints :=
         map (\<lambda>cp. cp\<lparr>cp_goalCheck := identifyGoalCheckRows (cp_goalCheck cp) criteria\<rparr>) (ms_checkpoints m)\<rparr>"
    "length assigned = length (ms_successCriteria m)"
    "pred_option (\<lambda>ids. [] \<notin> set ids) (ms_successCriterionIds m) \<longrightarrow> [] \<notin> set assigned"
    "sorted completed" "distinct completed" "list_all (\<lambda>i. i < length (ms_successCriteria m)) completed"
proof -
  obtain r where r: "replaceSuccessCriteria m (ms_successCriteria m) (map_option (map Some) (ms_successCriterionIds m)) = Inr r"
    "a = r\<lparr>ms_checkpoints := map (\<lambda>cp. cp\<lparr>cp_goalCheck := identifyGoalCheckRows (cp_goalCheck cp) (criterionContract r)\<rparr>) (ms_checkpoints r)\<rparr>"
    using assms by (auto simp: alignStoredCriteria_def try_bind_Inr map_error_Inr)
  from r(1) show ?thesis
  proof (rule replace_criteria_Inr)
    fix prev assigned :: "string list" and nxt next' :: nat
    let ?entries = "zip (ms_successCriteria m) (case map_option (map Some) (ms_successCriterionIds m) of
        None \<Rightarrow> replicate (length (ms_successCriteria m)) None | Some is \<Rightarrow> is)"
    let ?done = "\<lambda>(index, i). Some i \<in> set (map (nth_opt prev) (ms_completedSuccessCriteria m))"
    let ?completed = "map fst (filter ?done (enumerate 0 assigned))"
    assume prev: "previous_ids m = (prev, nxt)"
      and ids: "assign_ids (ms_successCriteria m) prev (map_option (map Some) (ms_successCriterionIds m) \<noteq> None) ?entries nxt =
        Inr (assigned, next')"
      and len: "map_option (map Some) (ms_successCriterionIds m) \<noteq> None \<Longrightarrow>
        length (the (map_option (map Some) (ms_successCriterionIds m))) = length (ms_successCriteria m)"
      and m': "r = m\<lparr>ms_successCriteria := ms_successCriteria m, ms_successCriterionIds := Some assigned,
        ms_nextSuccessCriterionId := Some next', ms_completedSuccessCriteria := ?completed\<rparr>"
    have length: "length assigned = length (ms_successCriteria m)"
      using assign_ids_fresh[OF ids] len by (auto split: option.splits)
    have "[] \<notin> set prev" if "pred_option (\<lambda>ids. [] \<notin> set ids) (ms_successCriterionIds m)"
      using prev that by (cases "ms_successCriterionIds m") (auto simp: previous_ids_def Let_def criterion_id_def)
    then have named: "pred_option (\<lambda>ids. [] \<notin> set ids) (ms_successCriterionIds m) \<longrightarrow> [] \<notin> set assigned"
      using assign_ids_fresh[OF ids] by (fastforce simp: criterion_id_def)
    have positions: "sorted ?completed" "distinct ?completed"
      by (rule sorted_filter, simp) (rule distinct_map_filter, simp)
    have below: "list_all (\<lambda>i. i < length (ms_successCriteria m)) ?completed"
      using length by (auto simp: list_all_iff in_set_enumerate_eq)
    show ?thesis
      by (rule that[where assigned = assigned and nxt = next' and completed = ?completed and criteria = "criterionContract r",
            OF _ length named positions below]) (simp add: r(2) m')
  qed
qed

lemma begin_save_Inr:
  assumes "begin_save db m e c = Inr s"
  obtains (create) "e = None" "find_stored db (ms_id m) = None" "mission_row_valid (mission_row_of m c 1 1)"
      "s = \<lparr> st_row = mission_row_of m c 1 1, st_values = no_values, st_history = [], st_rounds = [] \<rparr>"
    | (update) t where "e = Some (mr_version (st_row t))" "find_stored db (ms_id m) = Some t"
      "mission_row_valid (mission_row_of m c (Suc (mr_version (st_row t))) (mr_next_success_criterion_id (st_row t)))"
      "s = t\<lparr>st_row := mission_row_of m c (Suc (mr_version (st_row t))) (mr_next_success_criterion_id (st_row t)),
        st_values := clearAggregateValues m (st_values t)\<rparr>"
  using assms by (auto simp: begin_save_def Let_def split: option.splits if_splits)

lemma persist_Inr:
  assumes "persistAggregate owns db m e = Inr (v, db')"
  obtains n c s a where "owns (ms_id m)" "normalizeStoredMission m = Inr n" "stored_closure db n e = Inr c"
    "begin_save db n e c = Inr s" "alignStoredCriteria n = Inr a" "v = mr_version (st_row s)"
    "values_valid (ms_id m) (insert_values a (st_values s))"
    "db' = put_stored db (ms_id m) (s\<lparr>st_row := (st_row s)\<lparr>mr_next_success_criterion_id := the (ms_nextSuccessCriterionId a)\<rparr>,
       st_values := insert_values a (st_values s), st_history := append_history a (st_history s),
       st_rounds := captureRounds a (append_history a (st_history s)) (st_rounds s)\<rparr>)"
  using assms by (auto simp: persistAggregate_def try_bind_Inr Let_def split: if_splits)

text \<open>The one row a save touches, and the version it leaves there.\<close>

lemma persist_stored:
  assumes "persistAggregate owns db m e = Inr (v, db')"
  obtains s where "find_stored db' (ms_id m) = Some s" "mr_version (st_row s) = v" "currentVersion db (ms_id m) = e"
    "v = (case e of None \<Rightarrow> 1 | Some n \<Rightarrow> Suc n)" "db' = put_stored db (ms_id m) s" "mr_id (st_row s) = ms_id m"
proof -
  obtain n c s a where n: "normalizeStoredMission m = Inr n" and s: "begin_save db n e c = Inr s" and v: "v = mr_version (st_row s)"
    and db': "db' = put_stored db (ms_id m) (s\<lparr>st_row := (st_row s)\<lparr>mr_next_success_criterion_id := the (ms_nextSuccessCriterionId a)\<rparr>,
       st_values := insert_values a (st_values s), st_history := append_history a (st_history s),
       st_rounds := captureRounds a (append_history a (st_history s)) (st_rounds s)\<rparr>)"
    using assms by (rule persist_Inr)
  have id: "ms_id n = ms_id m" using n by (auto elim: normalize_Inr)
  have row: "mr_id (st_row s) = ms_id m \<and> currentVersion db (ms_id m) = e \<and> v = (case e of None \<Rightarrow> 1 | Some n \<Rightarrow> Suc n)"
    using s v id by (cases rule: begin_save_Inr) (auto simp: mission_row_of_def currentVersion_def)
  then show ?thesis using that db' v by simp
qed

lemma closure_Inr:
  "stored_closure db m e = Inr c \<Longrightarrow> (c = None \<longleftrightarrow> ms_closedAt m = None)"
  by (auto simp: stored_closure_def split: option.splits sum.splits if_splits) metis

lemma row_of_fields:
  "mission_row_of m c v k = mission_row_of n c v k \<longleftrightarrow>
    ms_id m = ms_id n \<and> ms_repositoryId m = ms_repositoryId n \<and> ms_title m = ms_title n \<and> ms_status m = ms_status n \<and>
    ms_rawStatus m = ms_rawStatus n \<and> ms_reproductionTest m = ms_reproductionTest n \<and>
    map_option nel_label_text (ms_predictedNelBucket m) = map_option nel_label_text (ms_predictedNelBucket n) \<and>
    ms_description m = ms_description n \<and> ms_assignee m = ms_assignee n \<and>
    ms_netEngineeringLines m = ms_netEngineeringLines n \<and> ms_reviewPreparationPending m = ms_reviewPreparationPending n"
  by (auto simp: mission_row_of_def)

lemma cleared_values: "clearAggregateValues m no_values = no_values"
  by (simp add: clearAggregateValues_def no_values_def no_review_rows_def split: option.split)

lemma begin_values:
  assumes "begin_save db m e c = Inr s"
  obtains rows v k where "st_values s = clearAggregateValues m rows" "st_row s = mission_row_of m c v k"
    "mr_version (st_row s) = v" "mission_row_valid (mission_row_of m c v k)"
  using assms
proof (cases rule: begin_save_Inr)
  case create
  then show ?thesis using that[of no_values 1 1] cleared_values[of m] by (simp add: mission_row_of_def)
next
  case (update t)
  then show ?thesis
    using that[of "st_values t" "Suc (mr_version (st_row t))" "mr_next_success_criterion_id (st_row t)"]
    by (simp add: mission_row_of_def)
qed

text \<open>The mission a save records: normalised, its criteria identified, its closing time canonical.\<close>

definition recorded_mission :: "database \<Rightarrow> mission \<Rightarrow> nat option \<Rightarrow> store_error + mission" where
  "recorded_mission db mission expected =
     try_bind (normalizeStoredMission mission) (\<lambda>normal.
     try_bind (stored_closure db normal expected) (\<lambda>closedAt.
     try_bind (alignStoredCriteria normal) (\<lambda>aligned. Inr (aligned\<lparr>ms_closedAt := closedAt\<rparr>))))"

lemma slug_not_blank: "missionId i = Inr i \<Longrightarrow> \<not> blank i"
proof
  assume slug: "missionId i = Inr i" and "blank i"
  then have spaces: "\<forall>c\<in>set i. js_space c" and shape: "slug_shape i"
    by (auto simp: blank_def trim_eq_Nil_iff missionId_def list_all_iff split: if_splits)
  have head: "hd (segments (\<lambda>c. c = CHR ''-'' \<or> c = CHR ''.'') i) \<noteq> [] \<Longrightarrow>
      hd (hd (segments (\<lambda>c. c = CHR ''-'' \<or> c = CHR ''.'') i)) \<in> set i" for i
    by (cases i) (auto split: list.splits)
  have "hd (hd (segments (\<lambda>c. c = CHR ''-'' \<or> c = CHR ''.'') i)) \<in> set i"
  proof (rule head)
    have "hd (segments (\<lambda>c. c = CHR ''-'' \<or> c = CHR ''.'') i) \<in> set (segments (\<lambda>c. c = CHR ''-'' \<or> c = CHR ''.'') i)"
      using shape by (intro hd_in_set) (auto simp: slug_shape_def Let_def)
    then show "hd (segments (\<lambda>c. c = CHR ''-'' \<or> c = CHR ''.'') i) \<noteq> []"
      using shape by (auto simp: slug_shape_def Let_def list_all_iff)
  qed
  moreover have "is_lower (hd (hd (segments (\<lambda>c. c = CHR ''-'' \<or> c = CHR ''.'') i)))"
    using shape by (simp add: slug_shape_def Let_def)
  ultimately show False using spaces by (auto simp: js_space_def is_lower_def Let_def)
qed

lemma title_not_blank: "missionId i = Inr i \<Longrightarrow> \<not> blank (missionTitle t i)"
  using slug_not_blank by (simp add: missionTitle_def Let_def blank_def)

lemma recorded_ok:
  assumes parts: "mission_parts_ok m" and n: "normalizeStoredMission m = Inr n" and c: "stored_closure db n e = Inr c"
    and s: "begin_save db n e c = Inr s" and a: "alignStoredCriteria n = Inr a"
  shows "mission_parts_ok (a\<lparr>ms_closedAt := c\<rparr>)" and "mission_contract_ok (a\<lparr>ms_closedAt := c\<rparr>)"
proof -
  obtain completed where n': "n = m\<lparr>ms_title := missionTitle (ms_title m) (ms_id m), ms_completedSuccessCriteria := completed\<rparr>"
    "pred_option (\<lambda>b. missionBrief b = Inr b) (ms_brief m)" "declaredGates (ms_declaredGates m) = Inr (ms_declaredGates m)"
    "successCriteria (ms_successCriteria m) = Inr (ms_successCriteria m)"
    "missionDependencies (ms_dependencies m) (ms_id m) = Inr (ms_dependencies m)"
    using n by (rule normalize_Inr)
  note p = parts[unfolded mission_parts_ok_def]
  obtain assigned nxt done_ids criteria where a': "a = n\<lparr>ms_successCriterionIds := Some assigned, ms_nextSuccessCriterionId := Some nxt,
       ms_completedSuccessCriteria := done_ids, ms_checkpoints :=
         map (\<lambda>cp. cp\<lparr>cp_goalCheck := identifyGoalCheckRows (cp_goalCheck cp) criteria\<rparr>) (ms_checkpoints n)\<rparr>"
    "length assigned = length (ms_successCriteria n)"
    "pred_option (\<lambda>ids. [] \<notin> set ids) (ms_successCriterionIds n) \<longrightarrow> [] \<notin> set assigned"
    "sorted done_ids" "distinct done_ids" "list_all (\<lambda>i. i < length (ms_successCriteria n)) done_ids"
    using a by (rule align_Inr)
  have ids: "[] \<notin> set assigned" using a'(3) p n'(1) by simp
  show "mission_parts_ok (a\<lparr>ms_closedAt := c\<rparr>)"
    using p ids by (simp add: mission_parts_ok_def a'(1) n'(1) list.pred_map comp_def)
  obtain rows v k where "mission_row_valid (mission_row_of n c v k)" using s by (rule begin_values)
  then have "c = None \<or> status_text (ms_status n) = status_text Done"
    by (auto simp: mission_row_valid_def mission_row_of_def)
  then have "c = None \<or> ms_status n = Done" unfolding status_text_inj .
  moreover have "\<not> blank (missionTitle (ms_title m) (ms_id m))" using p title_not_blank by blast
  ultimately show "mission_contract_ok (a\<lparr>ms_closedAt := c\<rparr>)"
    using n'(2-5) a'(2,4-6) ids unfolding mission_contract_ok_def a'(1) n'(1) by auto
qed

lemma saved_mission_loads:
  assumes saved: "persistAggregate owns db m e = Inr (v, db')" and parts: "mission_parts_ok m" and version: "safe_integer (int v)"
  shows "\<exists>r. recorded_mission db m e = Inr r \<and> loadAggregate nt db' (ms_id m) = Inr (Some (kept_mission r, v))"
proof -
  obtain n c s a where n: "normalizeStoredMission m = Inr n" and c: "stored_closure db n e = Inr c"
    and s: "begin_save db n e c = Inr s" and a: "alignStoredCriteria n = Inr a" and v: "v = mr_version (st_row s)"
    and db': "db' = put_stored db (ms_id m) (s\<lparr>st_row := (st_row s)\<lparr>mr_next_success_criterion_id := the (ms_nextSuccessCriterionId a)\<rparr>,
       st_values := insert_values a (st_values s), st_history := append_history a (st_history s),
       st_rounds := captureRounds a (append_history a (st_history s)) (st_rounds s)\<rparr>)"
    using saved by (rule persist_Inr)
  let ?r = "a\<lparr>ms_closedAt := c\<rparr>"
  have id: "ms_id n = ms_id m" using n by (auto elim: normalize_Inr)
  obtain rows k where start: "st_values s = clearAggregateValues n rows" and row: "st_row s = mission_row_of n c v k"
    and valid: "mission_row_valid (mission_row_of n c v k)" using s v by (auto elim: begin_values)
  have same: "ms_id a = ms_id n" "ms_review a = ms_review n" "(mission_row_of n c v k)\<lparr>mr_next_success_criterion_id := j\<rparr> = mission_row_of ?r c v j" for j
    using a by (auto elim!: align_Inr simp: mission_row_of_def)
  have vals: "insert_values a (st_values s) = insert_values ?r (clearAggregateValues ?r rows)"
    using same(2) unfolding start
    by (simp add: insert_values_def insertAuthoring_def insertMirrors_def insertCheckpoints_def clearAggregateValues_def
        criterion_rows_def Let_def)
  have "1 \<le> v" using valid by (simp add: mission_row_valid_def mission_row_of_def)
  then have "hydrateMission nt (mission_row_of ?r c v (the (ms_nextSuccessCriterionId a)))
      (read_values (insert_values ?r (clearAggregateValues ?r rows))) = Inr (kept_mission ?r, v)"
    using mission_read[OF recorded_ok[OF parts n c s a] _ version, where rows = rows] by simp
  moreover have "find_stored db' (ms_id m) = Some (s\<lparr>st_row := mission_row_of ?r c v (the (ms_nextSuccessCriterionId a)),
      st_values := insert_values a (st_values s), st_history := append_history a (st_history s),
      st_rounds := captureRounds a (append_history a (st_history s)) (st_rounds s)\<rparr>)"
    using row id same by (simp add: db') (simp add: mission_row_of_def)
  ultimately have "loadAggregate nt db' (ms_id m) = Inr (Some (kept_mission ?r, v))"
    by (simp add: loadAggregate_def load_stored_def vals)
  then show ?thesis using n c a by (simp add: recorded_mission_def)
qed

section \<open>Stores with versions\<close>

text \<open>A machine whose accepted commands each replace one entry, name the version they replace, and
  leave the next one.\<close>

locale versioned_store = guarded_machine step inv
  for step :: "'s \<Rightarrow> 'c \<Rightarrow> 'e + 's" and inv :: "'s \<Rightarrow> bool" +
  fixes version :: "'s \<Rightarrow> 'k \<Rightarrow> nat option" and key :: "'c \<Rightarrow> 'k" and expected :: "'c \<Rightarrow> nat option"
  assumes step_expected: "inv s \<Longrightarrow> step s c = Inr t \<Longrightarrow> version s (key c) = expected c"
    and step_version: "inv s \<Longrightarrow> step s c = Inr t \<Longrightarrow> version t (key c) = Some (case expected c of None \<Rightarrow> 1 | Some n \<Rightarrow> Suc n)"
    and step_other: "inv s \<Longrightarrow> step s c = Inr t \<Longrightarrow> k \<noteq> key c \<Longrightarrow> version t k = version s k"
begin

lemma step_grows: "inv s \<Longrightarrow> step s c = Inr t \<Longrightarrow> version s k = Some n \<Longrightarrow> \<exists>m\<ge>n. version t k = Some m"
  using step_expected[of s c t] step_version[of s c t] step_other[of s c t k] by (cases "k = key c") auto

lemma versions_grow: "reachable_by step s t \<Longrightarrow> inv s \<Longrightarrow> version s k = Some n \<Longrightarrow> \<exists>m\<ge>n. version t k = Some m"
proof (induction rule: reachable_by.induct)
  case here
  then show ?case by auto
next
  case (further t c u)
  then obtain m where m: "n \<le> m" "version t k = Some m" by blast
  have "inv t" using further by (blast intro: reachable_inv)
  from step_grows[OF this further.hyps(2) m(2)] m(1) show ?case by (meson order_trans)
qed

lemma no_lost_update:
  assumes "inv s" and "step s c = Inr t" and "reachable_by step t u" and "key d = key c" and "expected d = expected c"
  shows "\<exists>e. step u d = Inl e"
proof (cases "step u d")
  case (Inr w)
  have inv: "inv t" "inv u" using assms step_inv reachable_inv by blast+
  have "version u (key d) = expected c" using step_expected[OF inv(2) Inr] assms(5) by simp
  moreover obtain n where "(case expected c of None \<Rightarrow> 1 | Some n \<Rightarrow> Suc n) \<le> n" "version u (key d) = Some n"
    using versions_grow[OF assms(3) inv(1) step_version[OF assms(1,2)]] assms(4) by auto
  ultimately show ?thesis by (cases "expected c") auto
qed simp

end

text \<open>A write of any process: whether it owns the mission, what it saves, the version it read, its event.\<close>

definition store_write ::
  "database \<Rightarrow> bool \<times> mission \<times> nat option \<times> lane_event option \<Rightarrow> store_error + database" where
  "store_write db write =
     (let (owned, mission, expected, event) = write in
      map_sum id snd (case event of
        None \<Rightarrow> saveAggregate (\<lambda>_. owned) db mission expected
      | Some e \<Rightarrow> saveAggregateWithTransition (\<lambda>_. owned) db mission expected e))"

lemma map_sum_Inr: "map_sum f g x = Inr y \<longleftrightarrow> (\<exists>z. x = Inr z \<and> y = g z)"
  by (cases x) auto

lemma store_write_Inr:
  assumes "store_write db (owned, m, e, event) = Inr db'"
  obtains v saved where "persistAggregate (\<lambda>_. owned) db m e = Inr (v, saved)"
    "case event of None \<Rightarrow> db' = saved
      | Some ev \<Rightarrow> le_missionId ev = ms_id m \<and> le_repositoryId ev = ms_repositoryId m \<and>
          (\<exists>events. append_event (db_events db) (entry_of_event ev) = Inr (True, events) \<and> db' = saved\<lparr>db_events := events\<rparr>)"
proof -
  have events: "db_events saved = db_events db" if "persistAggregate (\<lambda>_. owned) db m e = Inr (v, saved)" for v saved
    using that by (auto elim!: persist_stored simp: put_stored_def)
  show ?thesis
  proof (cases event)
    case None
    then show ?thesis using assms that by (auto simp: store_write_def saveAggregate_def map_sum_Inr)
  next
    case (Some ev)
    then obtain v where "saveAggregateWithTransition (\<lambda>_. owned) db m e ev = Inr (v, db')"
      using assms by (auto simp: store_write_def map_sum_Inr)
    then obtain saved appended rows where "persistAggregate (\<lambda>_. owned) db m e = Inr (v, saved)" "le_missionId ev = ms_id m"
      "le_repositoryId ev = ms_repositoryId m" "append_event (db_events saved) (entry_of_event ev) = Inr (appended, rows)"
      "appended" "db' = saved\<lparr>db_events := rows\<rparr>"
      by (auto simp: saveAggregateWithTransition_def try_bind_Inr map_error_Inr split: if_splits)
    then show ?thesis using that Some events by auto
  qed
qed

lemma put_events [simp]: "db_events (put_stored db i s) = db_events db"
  by (simp add: put_stored_def)

lemma write_version:
  assumes "store_write db (owned, m, e, event) = Inr db'"
  shows "currentVersion db (ms_id m) = e" "currentVersion db' (ms_id m) = Some (case e of None \<Rightarrow> 1 | Some n \<Rightarrow> Suc n)"
    "i \<noteq> ms_id m \<Longrightarrow> find_stored db' i = find_stored db i"
    "missions_distinct db \<Longrightarrow> missions_distinct db'"
    "lane_table_ok (db_events db) \<Longrightarrow> lane_table_ok (db_events db')"
proof -
  obtain v saved where saved: "persistAggregate (\<lambda>_. owned) db m e = Inr (v, saved)"
    and ev: "case event of None \<Rightarrow> db' = saved
      | Some ev \<Rightarrow> le_missionId ev = ms_id m \<and> le_repositoryId ev = ms_repositoryId m \<and>
          (\<exists>events. append_event (db_events db) (entry_of_event ev) = Inr (True, events) \<and> db' = saved\<lparr>db_events := events\<rparr>)"
    using assms by (rule store_write_Inr)
  obtain s where s: "mr_version (st_row s) = v" "currentVersion db (ms_id m) = e"
    "v = (case e of None \<Rightarrow> 1 | Some n \<Rightarrow> Suc n)" "saved = put_stored db (ms_id m) s" "mr_id (st_row s) = ms_id m"
    using saved by (rule persist_stored)
  have same: "find_stored db' j = find_stored saved j" "missions_distinct db' = missions_distinct saved" for j
    using ev by (cases event; force simp: find_stored_def missions_distinct_def)+
  show "currentVersion db (ms_id m) = e" by (rule s(2))
  show "currentVersion db' (ms_id m) = Some (case e of None \<Rightarrow> 1 | Some n \<Rightarrow> Suc n)"
    using s same by (simp add: currentVersion_def)
  show "i \<noteq> ms_id m \<Longrightarrow> find_stored db' i = find_stored db i" using s same by simp
  show "missions_distinct db \<Longrightarrow> missions_distinct db'" using s same put_distinct by simp
  show "lane_table_ok (db_events db) \<Longrightarrow> lane_table_ok (db_events db')"
    using ev s(4) append_lane_table_ok by (cases event) auto
qed

interpretation store_writes: versioned_store store_write database_ok currentVersion "\<lambda>(_, m, _, _). ms_id m" "\<lambda>(_, _, e, _). e"
proof
  fix s t :: database and c :: "bool \<times> mission \<times> nat option \<times> lane_event option" and k :: string
  obtain owned m e event where c: "c = (owned, m, e, event)" by (cases c)
  assume ok: "database_ok s" and step: "store_write s c = Inr t"
  note w = step[unfolded c]
  show "database_ok t" using ok write_version(4,5)[OF w] by (simp add: database_ok_def)
  show "currentVersion s ((\<lambda>(_, m, _, _). ms_id m) c) = (\<lambda>(_, _, e, _). e) c" using write_version(1)[OF w] c by simp
  show "currentVersion t ((\<lambda>(_, m, _, _). ms_id m) c) = Some (case (\<lambda>(_, _, e, _). e) c of None \<Rightarrow> 1 | Some n \<Rightarrow> Suc n)"
    using write_version(2)[OF w] c by simp
  show "k \<noteq> (\<lambda>(_, m, _, _). ms_id m) c \<Longrightarrow> currentVersion t k = currentVersion s k"
    using write_version(3)[OF w] c by (simp add: currentVersion_def)
qed

section \<open>Evidence is kept\<close>

definition keeps_evidence :: "stored_mission \<Rightarrow> stored_mission \<Rightarrow> bool" where
  "keeps_evidence s t \<longleftrightarrow> mr_version (st_row s) \<le> mr_version (st_row t) \<and> prefix (st_history s) (st_history t) \<and>
     map_of (st_rounds s) \<subseteq>\<^sub>m map_of (st_rounds t)"

lemma keeps_refl [simp]: "keeps_evidence s s"
  by (simp add: keeps_evidence_def)

lemma keeps_trans: "keeps_evidence s t \<Longrightarrow> keeps_evidence t u \<Longrightarrow> keeps_evidence s u"
  by (auto simp: keeps_evidence_def intro: prefix_order.trans map_le_trans)

lemma capture_round_keeps: "map_of states \<subseteq>\<^sub>m map_of (capture_round m h states rd)"
  by (auto simp: capture_round_def map_le_def map_add_def dom_def split: option.split)

lemma capture_round_has: "map_of (capture_round m h states rd) (rd_number rd) \<noteq> None"
  by (auto simp: capture_round_def map_add_def split: option.split)

lemma capture_rounds_keeps: "map_of states \<subseteq>\<^sub>m map_of (foldl (capture_round m h) states rds)"
proof (induction rds arbitrary: states)
  case (Cons rd rds)
  then show ?case using capture_round_keeps[of states m h rd] by (auto intro: map_le_trans)
qed simp

lemma capture_rounds_has: "rd \<in> set rds \<Longrightarrow> map_of (foldl (capture_round m h) states rds) (rd_number rd) \<noteq> None"
proof (induction rds arbitrary: states)
  case (Cons r rds)
  show ?case
  proof (cases "rd \<in> set rds")
    case True
    then show ?thesis using Cons.IH by simp
  next
    case False
    then have "map_of (capture_round m h states r) (rd_number rd) \<noteq> None" using Cons.prems capture_round_has by auto
    then show ?thesis using capture_rounds_keeps[of "capture_round m h states r" m h rds] by (auto simp: map_le_def dom_def)
  qed
qed simp

lemma append_history_prefix: "prefix h (append_history m h)"
  by (simp add: append_history_def)

lemma append_history_has:
  assumes "cp \<in> set (ms_checkpoints m)" and "\<not> isPlannedCheckpoint cp"
  obtains item where "item \<in> set (append_history m h)" "cp_name (cv_checkpoint item) = cp_name cp"
    "case cp_recording cp of None \<Rightarrow> True | Some rec \<Rightarrow> cv_missionRevision item = Some (rg_missionRevision rec)"
proof (cases "history_skips h cp")
  case True
  then obtain item where item: "findLast_version h (cp_name cp) = Some item"
    "case cp_recording cp of None \<Rightarrow> True | Some rec \<Rightarrow> cv_missionRevision item = Some (rg_missionRevision rec)"
    using assms(2) by (auto simp: history_skips_def split: option.splits)
  have "item \<in> set h" "cp_name (cv_checkpoint item) = cp_name cp"
    using find_first_Some[OF item(1)[unfolded findLast_version_def]] by auto
  then show ?thesis using that[of item] item(2) by (simp add: append_history_def)
next
  case False
  let ?new = "filter (\<lambda>cp. \<not> history_skips h cp) (ms_checkpoints m)"
  have "cp \<in> set ?new" using assms(1) False by simp
  then obtain i where i: "i < length ?new" "?new ! i = cp" unfolding in_set_conv_nth by blast
  then have "(Suc i, cp) \<in> set (enumerate 1 ?new)" by (auto simp: in_set_enumerate_eq)
  then have "version_of (last_version h + int (Suc i)) cp \<in> set (append_history m h)"
    by (force simp: append_history_def)
  then show ?thesis by (rule that) (auto simp: version_of_def split: option.split)
qed

lemma history_numbered:
  assumes "map cv_version h = map int [1..<Suc (length h)]"
  shows "map cv_version (append_history m h) = map int [1..<Suc (length (append_history m h))]"
proof -
  have "last_version h = int (length h)"
    using assms by (cases h rule: rev_cases) (simp_all add: last_version_def at_last_def)
  moreover have "map (\<lambda>(i, cp). cv_version (version_of (int k + int i) cp)) (enumerate n xs) = map int [k + n ..< k + n + length xs]" for k n xs
    by (rule nth_equalityI) (simp_all add: nth_enumerate_eq version_of_def)
  ultimately have "map cv_version (append_history m h) = map int ([1..<Suc (length h)] @
      [Suc (length h) ..< Suc (length h) + length (filter (\<lambda>cp. \<not> history_skips h cp) (ms_checkpoints m))])"
    using assms by (simp add: append_history_def comp_def case_prod_beta' del: upt_Suc)
  also have "[1..<Suc (length h)] @ [Suc (length h) ..< Suc (length h) + length (filter (\<lambda>cp. \<not> history_skips h cp) (ms_checkpoints m))] =
      [1..<Suc (length (append_history m h))]"
    using upt_add_eq_append[of 1 "Suc (length h)" "length (filter (\<lambda>cp. \<not> history_skips h cp) (ms_checkpoints m))"]
    by (simp add: append_history_def)
  finally show ?thesis .
qed

lemma persist_keeps:
  assumes "persistAggregate owns db m e = Inr (v, db')" and "find_stored db i = Some s"
  shows "\<exists>t. find_stored db' i = Some t \<and> keeps_evidence s t"
proof -
  obtain n c r a where n: "normalizeStoredMission m = Inr n" and r: "begin_save db n e c = Inr r"
    and db': "db' = put_stored db (ms_id m) (r\<lparr>st_row := (st_row r)\<lparr>mr_next_success_criterion_id := the (ms_nextSuccessCriterionId a)\<rparr>,
       st_values := insert_values a (st_values r), st_history := append_history a (st_history r),
       st_rounds := captureRounds a (append_history a (st_history r)) (st_rounds r)\<rparr>)"
    using assms(1) by (rule persist_Inr)
  have id: "ms_id n = ms_id m" using n by (auto elim: normalize_Inr)
  show ?thesis
  proof (cases "i = ms_id m")
    case True
    then have "r = s\<lparr>st_row := mission_row_of n c (Suc (mr_version (st_row s))) (mr_next_success_criterion_id (st_row s)),
        st_values := clearAggregateValues n (st_values s)\<rparr>"
      using assms(2) id by (auto intro: begin_save_Inr[OF r])
    then show ?thesis using True id db'
      by (simp add: keeps_evidence_def captureRounds_def append_history_prefix capture_rounds_keeps mission_row_of_def)
  next
    case False
    have "mr_id (st_row r) = ms_id m" using r id by (auto elim!: begin_save_Inr simp: mission_row_of_def)
    then show ?thesis using False assms(2) by (simp add: db')
  qed
qed

lemma writes_keep:
  assumes "reachable_by store_write db db'" and "find_stored db i = Some s"
  shows "\<exists>t. find_stored db' i = Some t \<and> keeps_evidence s t"
  using assms
proof (induction rule: reachable_by.induct)
  case here
  then show ?case by auto
next
  case (further t c u)
  then obtain x where x: "find_stored t i = Some x" "keeps_evidence s x" by blast
  obtain owned m e event where c: "c = (owned, m, e, event)" by (cases c)
  obtain v saved where saved: "persistAggregate (\<lambda>_. owned) t m e = Inr (v, saved)"
    "case event of None \<Rightarrow> u = saved
      | Some ev \<Rightarrow> le_missionId ev = ms_id m \<and> le_repositoryId ev = ms_repositoryId m \<and>
          (\<exists>events. append_event (db_events t) (entry_of_event ev) = Inr (True, events) \<and> u = saved\<lparr>db_events := events\<rparr>)"
    using further.hyps(2) unfolding c by (rule store_write_Inr)
  have same: "find_stored u i = find_stored saved i" using saved(2) by (cases event) (auto simp: find_stored_def)
  obtain y where "find_stored saved i = Some y" "keeps_evidence x y" using persist_keeps[OF saved(1) x(1)] by blast
  then show ?case using x(2) same keeps_trans by metis
qed

section \<open>Events are kept\<close>

lemma write_appends_events:
  assumes "store_write db (owned, m, e, event) = Inr db'"
  shows "\<exists>rows. lt_rows (db_events db') = lt_rows (db_events db) @ rows"
proof -
  obtain v saved where saved: "persistAggregate (\<lambda>_. owned) db m e = Inr (v, saved)"
    and ev: "case event of None \<Rightarrow> db' = saved
      | Some ev \<Rightarrow> le_missionId ev = ms_id m \<and> le_repositoryId ev = ms_repositoryId m \<and>
          (\<exists>events. append_event (db_events db) (entry_of_event ev) = Inr (True, events) \<and> db' = saved\<lparr>db_events := events\<rparr>)"
    using assms by (rule store_write_Inr)
  have "db_events saved = db_events db" using saved by (auto elim: persist_stored)
  then show ?thesis using ev by (cases event) (auto elim!: append_Inr)
qed

lemma writes_append_events:
  "reachable_by store_write db db' \<Longrightarrow> \<exists>rows. lt_rows (db_events db') = lt_rows (db_events db) @ rows"
proof (induction rule: reachable_by.induct)
  case (further t c u)
  obtain owned m e event where "c = (owned, m, e, event)" by (cases c)
  then obtain rows where "lt_rows (db_events u) = lt_rows (db_events t) @ rows"
    using write_appends_events further.hyps(2) by blast
  then show ?case using further.IH by auto
qed auto

lemma find_first_after: "\<forall>x\<in>set xs. \<not> P x \<Longrightarrow> P y \<Longrightarrow> find_first P (xs @ y # ys) = Some y"
  by (induction xs) auto

lemma persist_owns: "persistAggregate owns db m e = persistAggregate (\<lambda>_. owns (ms_id m)) db m e"
  by (simp add: persistAggregate_def)

lemma transition_write:
  "saveAggregateWithTransition owns db m e ev = Inr (v, db') \<Longrightarrow> store_write db (owns (ms_id m), m, e, Some ev) = Inr db'"
  by (simp add: store_write_def saveAggregateWithTransition_def flip: persist_owns[of owns db m e] split: if_splits)

lemma duplicate_refused:
  assumes "row \<in> set (lt_rows (db_events db))" and "bl_repositoryId row = le_repositoryId ev"
    and "bl_idempotencyKey row = le_idempotencyKey ev"
  shows "\<exists>x. saveAggregateWithTransition owns db m e ev = Inl x"
proof (cases "saveAggregateWithTransition owns db m e ev")
  case (Inr result)
  then have "store_write db (owns (ms_id m), m, e, Some ev) = Inr (snd result)"
    by (intro transition_write[of _ _ _ _ _ "fst result"]) simp
  then obtain events where "append_event (db_events db) (entry_of_event ev) = Inr (True, events)"
    by (rule store_write_Inr) auto
  then show ?thesis using assms by (auto elim!: append_Inr simp: entry_of_event_def)
qed simp

section \<open>A stored mission\<close>

definition sample_saved :: mission where
  "sample_saved = \<lparr>ms_id = ''px-0001'', ms_repositoryId = ''repo'', ms_title = ''Title'', ms_description = None,
     ms_labels = [''bug''], ms_assignee = Some ''claude'', ms_checkpoints = [\<lparr> cp_missionId = ''px-0001'',
       cp_recording = Some \<lparr> rg_recordedAt = ''2026-01-01T00:00:00.000Z'', rg_recordedRound = None, rg_missionRevision = 1 \<rparr>,
       cp_name = ''CP-1'', cp_rawFilename = None, cp_firstLine = Some ''done'', cp_repair = None,
       cp_goalCheck = [\<lparr> gr_criterion = ''works'', gr_criterionId = Absent, gr_evidence = ''test'', gr_recordedRound = None,
         gr_repairedGate = None, gr_repairedGates = None, gr_carriedFrom = None \<rparr>], cp_nextActionText = ''next'' \<rparr>],
     ms_brief = None, ms_declaredGates = [''make test''],
     ms_successCriteria = [''works''], ms_successCriterionIds = None, ms_nextSuccessCriterionId = None,
     ms_completedSuccessCriteria = [], ms_dependencies = [], ms_predictedNelBucket = Some Small,
     ms_reproductionTest = None, ms_review = Some sample_review, ms_reviewPreparationPending = False,
     ms_netEngineeringLines = None, ms_rawStatus = None, ms_externalTaskRef = None, ms_status = Active, ms_closedAt = None\<rparr>"

definition empty_database :: database where
  "empty_database = \<lparr> db_missions = [], db_events = \<lparr> lt_rows = [], lt_next = 1 \<rparr> \<rparr>"

definition sample_event :: lane_event where
  "sample_event = lifecycleLaneEvent \<lparr> li_mission = sample_saved, li_from = None, li_trigger = ''intake'',
     li_agent = ''operator'', li_occurredAt = ''2026-01-01T00:00:00.000Z'', li_idempotencyKey = None \<rparr>"

lemma sample_event_fields:
  "le_missionId sample_event = ''px-0001''" "le_repositoryId sample_event = ''repo''"
  "le_idempotencyKey sample_event = ''px-0001:intake:2026-01-01T00:00:00.000Z''"
  "ms_id sample_saved = ''px-0001''" "ms_repositoryId sample_saved = ''repo''"
  by (simp_all add: sample_event_def sample_saved_def lifecycleLaneEvent_def laneEventIdempotencyKey_def)

lemma sample_saved_ok:
  "\<exists>v db'. saveAggregate (\<lambda>_. True) empty_database sample_saved None = Inr (v, db')"
  "\<exists>v db'. saveAggregateWithTransition (\<lambda>_. True) empty_database sample_saved None sample_event = Inr (v, db')"
  "database_ok empty_database"
proof -
  have "is_ok (saveAggregate (\<lambda>_. True) empty_database sample_saved None)" by code_simp
  then show saved: "\<exists>v db'. saveAggregate (\<lambda>_. True) empty_database sample_saved None = Inr (v, db')"
    by (auto simp: is_ok_iff)
  then obtain v saved where s: "persistAggregate (\<lambda>_. True) empty_database sample_saved None = Inr (v, saved)"
    by (auto simp: saveAggregate_def)
  have "db_events saved = db_events empty_database" using s by (auto elim: persist_stored)
  moreover have "is_ok (to_canonical_utc_instant ''2026-01-01T00:00:00.000Z'')" by code_simp
  then obtain at_time where "to_canonical_utc_instant (le_occurredAt sample_event) = Inr at_time"
    by (auto simp: is_ok_iff sample_event_def lifecycleLaneEvent_def)
  ultimately have "\<exists>rows. append_event (db_events saved) (entry_of_event sample_event) = Inr (True, rows)"
    by (simp add: append_event_def entry_of_event_def sample_event_fields empty_database_def repository_scoped_def)
  then show "\<exists>v db'. saveAggregateWithTransition (\<lambda>_. True) empty_database sample_saved None sample_event = Inr (v, db')"
    using s by (auto simp: saveAggregateWithTransition_def sample_event_fields)
  show "database_ok empty_database"
    by (simp add: database_ok_def missions_distinct_def empty_database_def lane_table_ok_def)
qed

lemma sample_parts_ok: "mission_parts_ok sample_saved"
  by (simp add: mission_parts_ok_def sample_saved_def review_storable_def sample_review_def round_storable_def fresh_round_def
      family_ok_def sample_subject_def sample_change_def stated_def items_ok_def safe_integer_def) code_simp

lemma sample_written:
  "\<exists>db'. store_write empty_database (True, sample_saved, None, None) = Inr db'"
  using sample_saved_ok(1) by (auto simp: store_write_def)

section \<open>Properties\<close>

text \<open>C10: What a save accepts, a load gives back. If \<open>saveAggregate\<close> accepts a mission whose parts are
  well formed, loading it returns the mission the save recorded (normalised, its criteria identified, its
  closing time canonical) in the stored normal form, with the version the save announced; every other
  mission loads as before.\<close>

theorem mission_persists:
  assumes "saveAggregate owns db m e = Inr (v, db')" and "mission_parts_ok m" and "safe_integer (int v)"
  shows "(\<exists>r. recorded_mission db m e = Inr r \<and> loadAggregate nt db' (ms_id m) = Inr (Some (kept_mission r, v))) \<and>
    (\<forall>i. i \<noteq> ms_id m \<longrightarrow> loadAggregate nt db' i = loadAggregate nt db i) \<and>
    v = (case e of None \<Rightarrow> 1 | Some n \<Rightarrow> Suc n)"
proof -
  have saved: "persistAggregate owns db m e = Inr (v, db')" using assms(1) by (simp add: saveAggregate_def)
  obtain s where s: "db' = put_stored db (ms_id m) s" "mr_id (st_row s) = ms_id m" "v = (case e of None \<Rightarrow> 1 | Some n \<Rightarrow> Suc n)"
    using saved by (rule persist_stored)
  have "i \<noteq> ms_id m \<Longrightarrow> loadAggregate nt db' i = loadAggregate nt db i" for i using s by (simp add: loadAggregate_def)
  then show ?thesis using saved_mission_loads[OF saved assms(2,3)] s(3) by blast
qed

theorem mission_persists_witness:
  "\<exists>db' r. saveAggregate (\<lambda>_. True) empty_database sample_saved None = Inr (1, db') \<and>
    recorded_mission empty_database sample_saved None = Inr r \<and>
    loadAggregate (\<lambda>_. []) db' ''px-0001'' = Inr (Some (kept_mission r, 1))"
proof -
  obtain v db' where s: "saveAggregate (\<lambda>_. True) empty_database sample_saved None = Inr (v, db')"
    using sample_saved_ok(1) by blast
  have v: "v = 1" using s by (auto simp: saveAggregate_def elim!: persist_stored)
  have "safe_integer (int v)" by (simp add: v safe_integer_def)
  from mission_persists[OF s sample_parts_ok this, of "\<lambda>_. []"] s v show ?thesis
    by (auto simp: sample_saved_def)
qed

text \<open>C11: No save is lost. Once a write of a mission was accepted, whatever writes follow by any process,
  another write that was based on the same version is refused: the version it read is gone for good. The writes
  are saves of missions, with or without an event; the deletion of a cancelled mission is not among them.\<close>

theorem stale_writers_refused:
  assumes "database_ok db" and "store_write db (owned, m, e, event) = Inr db1"
    and "reachable_by store_write db1 db2" and "ms_id m' = ms_id m"
  shows "(\<exists>x. store_write db2 (owned', m', e, event') = Inl x) \<and>
    (\<exists>v. currentVersion db2 (ms_id m) = Some v \<and> (case e of None \<Rightarrow> 1 | Some n \<Rightarrow> Suc n) \<le> v)"
proof -
  have "currentVersion db1 (ms_id m) = Some (case e of None \<Rightarrow> 1 | Some n \<Rightarrow> Suc n)"
    using write_version(2)[OF assms(2)] .
  moreover have "database_ok db1" using assms(1,2) store_writes.step_inv by blast
  ultimately show ?thesis
    using store_writes.versions_grow[OF assms(3)] store_writes.no_lost_update[OF assms(1-3), of "(owned', m', e, event')"] assms(4)
    by auto
qed

theorem stale_writers_refused_witness:
  "\<exists>db'. store_write empty_database (True, sample_saved, None, None) = Inr db' \<and>
    (\<exists>x. store_write db' (True, sample_saved, None, None) = Inl x)"
proof -
  obtain db' where s: "store_write empty_database (True, sample_saved, None, None) = Inr db'"
    using sample_written by blast
  from stale_writers_refused[OF sample_saved_ok(3) s here refl, of True None] s show ?thesis by blast
qed

text \<open>C12: Recorded evidence is never rewritten. After an accepted save every checkpoint with evidence has a
  version in the history that carries its recording, and every round of the review has its checkpoint
  state; and whatever writes follow, each recorded version keeps its place and each recorded round state
  its value. Cancelling a mission, which deletes it with its history, is not among the writes.\<close>

theorem evidence_is_kept:
  assumes "store_write db (owned, m, e, event) = Inr db1" and "reachable_by store_write db1 db2"
  shows "\<exists>s t. find_stored db1 (ms_id m) = Some s \<and> find_stored db2 (ms_id m) = Some t \<and> keeps_evidence s t \<and>
    (\<forall>old. find_stored db (ms_id m) = Some old \<longrightarrow> keeps_evidence old s) \<and>
    (\<forall>cp\<in>set (ms_checkpoints m). \<not> isPlannedCheckpoint cp \<longrightarrow> (\<exists>item\<in>set (st_history s).
      cp_name (cv_checkpoint item) = cp_name cp \<and>
      (\<forall>rec. cp_recording cp = Some rec \<longrightarrow> cv_missionRevision item = Some (rg_missionRevision rec)))) \<and>
    (\<forall>r. ms_review m = Some r \<longrightarrow> (\<forall>rd\<in>set (rounds r). map_of (st_rounds s) (rd_number rd) \<noteq> None))"
proof -
  obtain v saved where saved: "persistAggregate (\<lambda>_. owned) db m e = Inr (v, saved)"
    and ev: "case event of None \<Rightarrow> db1 = saved
      | Some ev \<Rightarrow> le_missionId ev = ms_id m \<and> le_repositoryId ev = ms_repositoryId m \<and>
          (\<exists>events. append_event (db_events db) (entry_of_event ev) = Inr (True, events) \<and> db1 = saved\<lparr>db_events := events\<rparr>)"
    using assms(1) by (rule store_write_Inr)
  have same: "find_stored db1 i = find_stored saved i" for i using ev by (cases event) (auto simp: find_stored_def)
  obtain n c r a where n: "normalizeStoredMission m = Inr n" and b: "begin_save db n e c = Inr r" and a: "alignStoredCriteria n = Inr a"
    and db': "saved = put_stored db (ms_id m) (r\<lparr>st_row := (st_row r)\<lparr>mr_next_success_criterion_id := the (ms_nextSuccessCriterionId a)\<rparr>,
       st_values := insert_values a (st_values r), st_history := append_history a (st_history r),
       st_rounds := captureRounds a (append_history a (st_history r)) (st_rounds r)\<rparr>)"
    using saved by (rule persist_Inr)
  let ?s = "r\<lparr>st_row := (st_row r)\<lparr>mr_next_success_criterion_id := the (ms_nextSuccessCriterionId a)\<rparr>,
       st_values := insert_values a (st_values r), st_history := append_history a (st_history r),
       st_rounds := captureRounds a (append_history a (st_history r)) (st_rounds r)\<rparr>"
  have id: "ms_id n = ms_id m" "ms_review n = ms_review m" "ms_checkpoints n = ms_checkpoints m"
    using n by (auto elim: normalize_Inr)
  have "mr_id (st_row r) = ms_id m" using b id by (auto elim!: begin_save_Inr simp: mission_row_of_def)
  then have s: "find_stored db1 (ms_id m) = Some ?s" by (simp add: same db')
  obtain criteria where cps: "ms_review a = ms_review m"
    "ms_checkpoints a = map (\<lambda>cp. cp\<lparr>cp_goalCheck := identifyGoalCheckRows (cp_goalCheck cp) criteria\<rparr>) (ms_checkpoints m)"
  proof -
    obtain assigned nxt completed criteria where "a = n\<lparr>ms_successCriterionIds := Some assigned, ms_nextSuccessCriterionId := Some nxt,
       ms_completedSuccessCriteria := completed, ms_checkpoints :=
         map (\<lambda>cp. cp\<lparr>cp_goalCheck := identifyGoalCheckRows (cp_goalCheck cp) criteria\<rparr>) (ms_checkpoints n)\<rparr>"
      using a by (rule align_Inr)
    then show ?thesis using id by (intro that[of criteria]) simp_all
  qed
  have items: "\<exists>item\<in>set (st_history ?s). cp_name (cv_checkpoint item) = cp_name cp \<and>
      (\<forall>rec. cp_recording cp = Some rec \<longrightarrow> cv_missionRevision item = Some (rg_missionRevision rec))"
    if cp: "cp \<in> set (ms_checkpoints m)" "\<not> isPlannedCheckpoint cp" for cp
  proof -
    let ?cp = "cp\<lparr>cp_goalCheck := identifyGoalCheckRows (cp_goalCheck cp) criteria\<rparr>"
    have "?cp \<in> set (ms_checkpoints a)" "\<not> isPlannedCheckpoint ?cp"
      using cp by (auto simp: cps isPlannedCheckpoint_def identifyGoalCheckRows_def)
    then obtain item where "item \<in> set (append_history a (st_history r))" "cp_name (cv_checkpoint item) = cp_name ?cp"
      "case cp_recording ?cp of None \<Rightarrow> True | Some rec \<Rightarrow> cv_missionRevision item = Some (rg_missionRevision rec)"
      by (rule append_history_has)
    then show ?thesis by (auto split: option.splits)
  qed
  have states: "map_of (st_rounds ?s) (rd_number rd) \<noteq> None" if "ms_review m = Some x" "rd \<in> set (rounds x)" for x rd
    using that cps(1) capture_rounds_has[of rd "rounds x"] by (simp add: captureRounds_def)
  obtain t where "find_stored db2 (ms_id m) = Some t" "keeps_evidence ?s t" using writes_keep[OF assms(2) s] by blast
  moreover have "keeps_evidence old ?s" if "find_stored db (ms_id m) = Some old" for old
    using persist_keeps[OF saved that] s same by auto
  ultimately show ?thesis using s items states by blast
qed

theorem evidence_is_kept_witness:
  "\<exists>db' s. store_write empty_database (True, sample_saved, None, None) = Inr db' \<and> find_stored db' ''px-0001'' = Some s \<and>
    (\<exists>item\<in>set (st_history s). cp_name (cv_checkpoint item) = ''CP-1'' \<and> cv_missionRevision item = Some 1)"
proof -
  obtain db' where s: "store_write empty_database (True, sample_saved, None, None) = Inr db'"
    using sample_written by blast
  note sample_event_fields(4)
  moreover have "hd (ms_checkpoints sample_saved) \<in> set (ms_checkpoints sample_saved)"
    "\<not> isPlannedCheckpoint (hd (ms_checkpoints sample_saved))" "cp_name (hd (ms_checkpoints sample_saved)) = ''CP-1''"
    "\<exists>rec. cp_recording (hd (ms_checkpoints sample_saved)) = Some rec \<and> rg_missionRevision rec = 1"
    by (simp_all add: sample_saved_def isPlannedCheckpoint_def)
  ultimately show ?thesis using evidence_is_kept[OF s here] s by metis
qed

text \<open>C13: A lane event is recorded once. A save with a transition appends exactly its event, under a key the
  repository did not have; from then on the event is found by its key and recognised as recorded, and
  whatever writes follow, a save that brings a second event under that key is refused as a whole. Cancelling the
  mission, which deletes its events, is not among the writes.\<close>

theorem event_recorded_once:
  assumes "saveAggregateWithTransition owns db m e ev = Inr (v, db1)" and "reachable_by store_write db1 db2"
    and "le_repositoryId ev' = le_repositoryId ev" and "le_idempotencyKey ev' = le_idempotencyKey ev"
  shows "(\<exists>row. lt_rows (db_events db1) = lt_rows (db_events db) @ [row] \<and> bl_missionId row = ms_id m \<and>
      bl_fromStatus row = map_option status_text (le_from ev) \<and> bl_toStatus row = status_text (le_to ev) \<and>
      bl_trigger row = le_trigger ev) \<and>
    findMissionIdByIdempotencyKey (db_events db) (le_repositoryId ev) (le_idempotencyKey ev) = None \<and>
    findMissionIdByIdempotencyKey (db_events db2) (le_repositoryId ev) (le_idempotencyKey ev) = Some (ms_id m) \<and>
    isReplayedLaneEvent (db_events db2) ev \<and>
    (\<exists>x. saveAggregateWithTransition owns' db2 m' e' ev' = Inl x)"
proof -
  have w: "store_write db (owns (ms_id m), m, e, Some ev) = Inr db1"
    by (rule transition_write[OF assms(1)])
  obtain v' saved events where ev: "le_missionId ev = ms_id m"
    "append_event (db_events db) (entry_of_event ev) = Inr (True, events)" "db_events db1 = events"
    using w by (rule store_write_Inr) auto
  from ev(2) show ?thesis
  proof (cases rule: append_Inr)
    case duplicate
    then show ?thesis by simp
  next
    case (recorded occurredAt)
    let ?row = "lane_entry.extend ((entry_of_event ev)\<lparr>bl_occurredAt := occurredAt\<rparr>) \<lparr> bl_id = lt_next (db_events db) \<rparr>"
    have row: "bl_missionId ?row = ms_id m" "bl_repositoryId ?row = le_repositoryId ev" "bl_idempotencyKey ?row = le_idempotencyKey ev"
      "bl_fromStatus ?row = map_option status_text (le_from ev)" "bl_toStatus ?row = status_text (le_to ev)" "bl_trigger ?row = le_trigger ev"
      by (simp_all add: lane_entry.defs entry_of_event_def ev(1))
    have rows: "lt_rows (db_events db1) = lt_rows (db_events db) @ [?row]" using recorded ev(3) by simp
    obtain added where later: "lt_rows (db_events db2) = lt_rows (db_events db) @ ?row # added"
      using writes_append_events[OF assms(2)] rows by auto
    have fresh: "\<forall>r\<in>set (lt_rows (db_events db)). \<not> (bl_repositoryId r = le_repositoryId ev \<and> bl_idempotencyKey r = le_idempotencyKey ev)"
      using recorded(4) by (simp add: entry_of_event_def)
    then have none: "find_first (\<lambda>r. bl_repositoryId r = le_repositoryId ev \<and> bl_idempotencyKey r = le_idempotencyKey ev)
        (lt_rows (db_events db)) = None" by (simp add: find_first_None)
    have "find_first (\<lambda>r. bl_repositoryId r = le_repositoryId ev \<and> bl_idempotencyKey r = le_idempotencyKey ev)
        (lt_rows (db_events db2)) = Some ?row"
      unfolding later by (rule find_first_after) (use fresh row in auto)
    moreover have "isReplayedLaneEvent (db_events db2) ev"
      using row ev(1) unfolding isReplayedLaneEvent_def findByMissionId_def list_ex_iff in_order_set later
      by (intro bexI[of _ ?row]) simp_all
    moreover have "\<exists>x. saveAggregateWithTransition owns' db2 m' e' ev' = Inl x"
      using row assms(3,4) later by (intro duplicate_refused[of ?row]) simp_all
    ultimately show ?thesis using rows row none by (simp add: findMissionIdByIdempotencyKey_def)
  qed
qed

theorem event_recorded_once_witness:
  "\<exists>v db'. saveAggregateWithTransition (\<lambda>_. True) empty_database sample_saved None sample_event = Inr (v, db') \<and>
    findMissionIdByIdempotencyKey (db_events db') ''repo'' ''px-0001:intake:2026-01-01T00:00:00.000Z'' = Some ''px-0001'' \<and>
    (\<exists>x. saveAggregateWithTransition (\<lambda>_. True) db' sample_saved (Some v) sample_event = Inl x)"
proof -
  obtain v db' where s: "saveAggregateWithTransition (\<lambda>_. True) empty_database sample_saved None sample_event = Inr (v, db')"
    using sample_saved_ok(2) by blast
  from event_recorded_once[OF s here refl refl, of "\<lambda>_. True" sample_saved "Some v"] s show ?thesis
    by (auto simp: sample_event_fields)
qed

end
