(* ===== verification/MissionCache.thy ===== *)
theory MissionCache
  imports MissionStore
begin

text \<open>
  The missions of a repository as the board reads them: \<open>loadByRepository\<close> of
  \<open>src/src/adapters/sqlite/mission-store.ts\<close>, which rebuilds only the missions whose version moved since
  the last read. The cache outlives the read and is a parameter and a result of it, also when it fails.
\<close>

section \<open>The missions of a repository\<close>

text \<open>The cache of one repository: by mission, the version it was read at and the mission.\<close>

type_synonym mission_cache = "(string \<times> nat \<times> mission) list"

definition LOAD_CHUNK :: nat where
  "LOAD_CHUNK = 400"

definition cache_set :: "mission_cache \<Rightarrow> mission \<times> nat \<Rightarrow> mission_cache" where
  "cache_set cache loaded = (ms_id (fst loaded), snd loaded, fst loaded) # filter (\<lambda>e. fst e \<noteq> ms_id (fst loaded)) cache"

definition load_chunk :: "(jsnum \<Rightarrow> string) \<Rightarrow> database \<Rightarrow> string list \<Rightarrow> load_error + (mission \<times> nat) list" where
  "load_chunk nt db ids = try_map (load_stored nt)
     (sort_key (\<lambda>s. mr_id (st_row s)) (filter (\<lambda>s. mr_id (st_row s) \<in> set ids) (db_missions db)))"

function load_chunks ::
  "(jsnum \<Rightarrow> string) \<Rightarrow> database \<Rightarrow> string list \<Rightarrow> mission_cache \<Rightarrow> (load_error + unit) \<times> mission_cache" where
  "load_chunks nt db stale cache =
     (if stale = [] then (Inr (), cache)
      else (case load_chunk nt db (take LOAD_CHUNK stale) of
          Inl e \<Rightarrow> (Inl e, cache)
        | Inr loaded \<Rightarrow> load_chunks nt db (drop LOAD_CHUNK stale) (foldl cache_set cache loaded)))"
  by pat_completeness auto

termination load_chunks
  by (relation "measure (\<lambda>(nt, db, stale, cache). length stale)") (auto simp: LOAD_CHUNK_def)

declare load_chunks.simps [simp del]

definition repository_rows :: "database \<Rightarrow> string \<Rightarrow> (string \<times> nat) list" where
  "repository_rows db repository = map (\<lambda>s. (mr_id (st_row s), mr_version (st_row s)))
     (sort_key (\<lambda>s. mr_id (st_row s)) (filter (\<lambda>s. mr_repository_id (st_row s) = repository) (db_missions db)))"

definition moved :: "mission_cache \<Rightarrow> string \<times> nat \<Rightarrow> bool" where
  "moved cache current \<longleftrightarrow> map_option fst (map_of cache (fst current)) \<noteq> Some (snd current)"

definition loadByRepository ::
  "(jsnum \<Rightarrow> string) \<Rightarrow> database \<Rightarrow> string \<Rightarrow> mission_cache \<Rightarrow> (load_error + mission list) \<times> mission_cache" where
  "loadByRepository nt db repository cache =
     (let current = repository_rows db repository;
          stale = map fst (filter (moved cache) current);
          kept = filter (\<lambda>e. fst e \<in> set (map fst current)) cache;
          (result, filled) = load_chunks nt db stale kept in
      (map_sum id (\<lambda>_. List.map_filter (\<lambda>(i, _). map_option snd (map_of filled i)) current) result, filled))"

section \<open>The read without a cache\<close>

definition repository_missions :: "database \<Rightarrow> string \<Rightarrow> stored_mission list" where
  "repository_missions db repository =
     sort_key (\<lambda>s. mr_id (st_row s)) (filter (\<lambda>s. mr_repository_id (st_row s) = repository) (db_missions db))"

definition load_all :: "(jsnum \<Rightarrow> string) \<Rightarrow> database \<Rightarrow> string \<Rightarrow> load_error + mission list" where
  "load_all nt db repository = map_sum id (map fst) (try_map (load_stored nt) (repository_missions db repository))"

text \<open>An entry whose mission is stored is not newer than the mission, and at the same version it is what the
  rows denote. The entry of a mission that was deleted since says nothing.\<close>

definition entry_ok :: "(jsnum \<Rightarrow> string) \<Rightarrow> database \<Rightarrow> string \<Rightarrow> nat \<times> mission \<Rightarrow> bool" where
  "entry_ok nt db ident entry \<longleftrightarrow> (case find_stored db ident of
      None \<Rightarrow> True
    | Some s \<Rightarrow> fst entry \<le> mr_version (st_row s) \<and>
        (fst entry = mr_version (st_row s) \<longrightarrow> load_stored nt s = Inr (snd entry, fst entry)))"

definition cache_ok :: "(jsnum \<Rightarrow> string) \<Rightarrow> database \<Rightarrow> mission_cache \<Rightarrow> bool" where
  "cache_ok nt db cache \<longleftrightarrow> (\<forall>i entry. map_of cache i = Some entry \<longrightarrow> entry_ok nt db i entry)"

section \<open>Lemmas\<close>

lemma cache_ok_empty [simp]: "cache_ok nt db []"
  by (simp add: cache_ok_def)

lemma map_of_filter_key: "map_of (filter (\<lambda>e. P (fst e)) xs) i = (if P i then map_of xs i else None)"
  by (induction xs) auto

lemma cache_set_of [simp]: "map_of (cache_set cache (m, v)) i = (if i = ms_id m then Some (v, m) else map_of cache i)"
  by (simp add: cache_set_def map_of_filter_key[of "\<lambda>i. i \<noteq> ms_id m"])

lemma cache_ok_filter: "cache_ok nt db cache \<Longrightarrow> cache_ok nt db (filter (\<lambda>e. P (fst e)) cache)"
  by (simp add: cache_ok_def map_of_filter_key)

definition stored_at :: "database \<Rightarrow> string \<Rightarrow> stored_mission" where
  "stored_at db i = the (find_stored db i)"

definition all_stored :: "database \<Rightarrow> string list \<Rightarrow> bool" where
  "all_stored db ids \<longleftrightarrow> (\<forall>i\<in>set ids. find_stored db i \<noteq> None)"

lemma stored_at_row:
  "find_stored db i \<noteq> None \<Longrightarrow> mr_id (st_row (stored_at db i)) = i \<and> find_stored db i = Some (stored_at db i)"
  by (auto simp: stored_at_def dest: stored_named_find)

lemma cache_ok_set:
  "cache_ok nt db cache \<Longrightarrow> find_stored db i = Some s \<Longrightarrow> load_stored nt s = Inr loaded \<Longrightarrow>
    cache_ok nt db (cache_set cache loaded)"
proof (cases loaded)
  case (Pair m v)
  assume old: "cache_ok nt db cache" and s: "find_stored db i = Some s" "load_stored nt s = Inr loaded"
  have "ms_id m = i" "v = mr_version (st_row s)"
    using s stored_named_find[OF s(1)] load_stored_fields[of nt s m v] Pair by auto
  then have "entry_ok nt db (ms_id m) (v, m)" using s Pair by (simp add: entry_ok_def)
  then show ?thesis using old Pair by (auto simp: cache_ok_def)
qed

lemma cache_sets:
  assumes "try_map (\<lambda>i. load_stored nt (stored_at db i)) ids = Inr loaded" and "all_stored db ids"
  shows "(cache_ok nt db cache \<longrightarrow> cache_ok nt db (foldl cache_set cache loaded)) \<and>
    (\<forall>i. if i \<in> set ids then \<exists>m v. load_stored nt (stored_at db i) = Inr (m, v) \<and>
             map_of (foldl cache_set cache loaded) i = Some (v, m)
         else map_of (foldl cache_set cache loaded) i = map_of cache i)"
  using assms
proof (induction ids arbitrary: loaded cache)
  case (Cons k ids)
  obtain m v ls where l: "load_stored nt (stored_at db k) = Inr (m, v)" "loaded = (m, v) # ls"
    "try_map (\<lambda>i. load_stored nt (stored_at db i)) ids = Inr ls"
    using Cons.prems(1) by (auto split: sum.splits)
  have k: "find_stored db k = Some (stored_at db k)" "ms_id m = k"
    using Cons.prems(2) stored_at_row[of db k] load_stored_fields[OF l(1)] by (auto simp: all_stored_def)
  have rest: "all_stored db ids" using Cons.prems(2) by (simp add: all_stored_def)
  note IH = Cons.IH[OF l(3) rest, of "cache_set cache (m, v)"]
  show ?case using IH cache_ok_set[OF _ k(1) l(1)] l(1,2) k(2) by (auto split: if_splits)
qed simp

lemma stored_sorted:
  assumes "missions_distinct db" and "sorted_wrt (<) ids" and "all_stored db ids"
  shows "sort_key (\<lambda>s. mr_id (st_row s)) (filter (\<lambda>s. mr_id (st_row s) \<in> set ids) (db_missions db)) =
    map (stored_at db) ids"
proof (rule map_sorted_distinct_set_unique[of "\<lambda>s. mr_id (st_row s)"])
  let ?l = "sort_key (\<lambda>s. mr_id (st_row s)) (filter (\<lambda>s. mr_id (st_row s) \<in> set ids) (db_missions db))"
  let ?r = "map (stored_at db) ids"
  have id: "mr_id (st_row (stored_at db i)) = i \<and> stored_at db i \<in> set (db_missions db)" if "i \<in> set ids" for i
    using assms(3) that stored_at_row[of db i] stored_named_find[of db i] by (auto simp: all_stored_def)
  then have ids: "map (\<lambda>s. mr_id (st_row s)) ?r = ids" by (simp add: map_idI)
  have "s = stored_at db (mr_id (st_row s))" if "s \<in> set (db_missions db)" for s
    using find_stored_member[OF assms(1) that] by (simp add: stored_at_def)
  then show "set ?l = set ?r" using id by (force simp: image_iff)
  show "inj_on (\<lambda>s. mr_id (st_row s)) (set ?l \<union> set ?r)"
    using assms(1) id by (auto simp: missions_distinct_def distinct_map inj_on_def)
  show "sorted (map (\<lambda>s. mr_id (st_row s)) ?l)" by simp
  show "distinct (map (\<lambda>s. mr_id (st_row s)) ?l)"
    using assms(1) by (auto simp: missions_distinct_def distinct_map inj_on_def)
  show "sorted (map (\<lambda>s. mr_id (st_row s)) ?r)" "distinct (map (\<lambda>s. mr_id (st_row s)) ?r)"
    unfolding ids using assms(2) by (simp_all add: strict_sorted_iff)
qed

lemma try_map_comp: "try_map f (map g xs) = try_map (\<lambda>x. f (g x)) xs"
  by (induction xs) (auto split: sum.splits)

lemma try_map_cong: "(\<And>x. x \<in> set xs \<Longrightarrow> f x = g x) \<Longrightarrow> try_map f xs = try_map g xs"
  by (induction xs) (auto split: sum.splits)

lemma try_map_append:
  "try_map f (xs @ ys) = try_bind (try_map f xs) (\<lambda>us. map_sum id (\<lambda>vs. us @ vs) (try_map f ys))"
proof (induction xs)
  case Nil
  then show ?case by (cases "try_map f ys") simp_all
next
  case (Cons x xs)
  then show ?case by (cases "f x"; cases "try_map f xs"; cases "try_map f ys") simp_all
qed

lemma try_map_filter_Inl:
  "\<forall>x\<in>set xs. \<not> P x \<longrightarrow> is_ok (f x) \<Longrightarrow> try_map f (filter P xs) = Inl e \<longleftrightarrow> try_map f xs = Inl e"
  by (induction xs) (auto simp: is_ok_iff split: sum.splits)

lemma load_chunk_is:
  "missions_distinct db \<Longrightarrow> sorted_wrt (<) ids \<Longrightarrow> all_stored db ids \<Longrightarrow>
    load_chunk nt db ids = try_map (\<lambda>i. load_stored nt (stored_at db i)) ids"
  unfolding load_chunk_def by (subst stored_sorted) (simp_all add: try_map_comp)

text \<open>Reading in chunks is reading all at once, and a chunk that was read stays in the cache.\<close>

lemma load_chunks_is:
  assumes "missions_distinct db" and "sorted_wrt (<) ids" and "all_stored db ids"
  shows "(cache_ok nt db cache \<longrightarrow> cache_ok nt db (snd (load_chunks nt db ids cache))) \<and>
    (case try_map (\<lambda>i. load_stored nt (stored_at db i)) ids of
       Inl e \<Rightarrow> fst (load_chunks nt db ids cache) = Inl e
     | Inr loaded \<Rightarrow> load_chunks nt db ids cache = (Inr (), foldl cache_set cache loaded))"
  using assms(2,3)
proof (induction "length ids" arbitrary: ids cache rule: less_induct)
  case less
  show ?case
  proof (cases "ids = []")
    case True
    then show ?thesis using less.prems by (simp add: load_chunks.simps)
  next
    case False
    let ?load = "\<lambda>i. load_stored nt (stored_at db i)"
    let ?now = "take LOAD_CHUNK ids" and ?rest = "drop LOAD_CHUNK ids"
    have now: "sorted_wrt (<) ?now" "all_stored db ?now"
      using less.prems(1,2) by (auto simp: all_stored_def sorted_wrt_take dest: in_set_takeD)
    have rest: "sorted_wrt (<) ?rest" "all_stored db ?rest" "length ?rest < length ids"
      using less.prems(1,2) False by (auto simp: all_stored_def sorted_wrt_drop LOAD_CHUNK_def dest: in_set_dropD)
    have split: "try_map ?load ids = try_bind (try_map ?load ?now) (\<lambda>us. map_sum id (\<lambda>vs. us @ vs) (try_map ?load ?rest))"
      using try_map_append[of ?load ?now ?rest] by simp
    show ?thesis
    proof (cases "try_map ?load ?now")
      case (Inl e)
      then show ?thesis using False split load_chunk_is[OF assms(1) now, of nt]
        by (simp add: load_chunks.simps[of nt db ids])
    next
      case (Inr us)
      have step: "load_chunks nt db ids cache = load_chunks nt db ?rest (foldl cache_set cache us)"
        using False load_chunk_is[OF assms(1) now, of nt] Inr by (simp add: load_chunks.simps[of nt db ids])
      have kept: "cache_ok nt db cache \<longrightarrow> cache_ok nt db (foldl cache_set cache us)" using cache_sets[OF Inr now(2)] by blast
      note IH = less.hyps[OF rest(3,1,2), of "foldl cache_set cache us"]
      show ?thesis
      proof (cases "try_map ?load ?rest")
        case (Inl e)
        then show ?thesis using IH kept by (simp add: step split Inr)
      next
        case (Inr vs)
        then show ?thesis using IH kept by (auto simp: step split \<open>try_map ?load ?now = Inr us\<close>)
      qed
    qed
  qed
qed

lemma repository_rows_of: "repository_rows db r = map (\<lambda>s. (mr_id (st_row s), mr_version (st_row s))) (repository_missions db r)"
  by (simp add: repository_rows_def repository_missions_def)

lemma repository_sorted:
  assumes "missions_distinct db"
  shows "sorted_wrt (<) (map (\<lambda>s. mr_id (st_row s)) (repository_missions db r))"
    and "s \<in> set (repository_missions db r) \<Longrightarrow> find_stored db (mr_id (st_row s)) = Some s"
  using assms by (auto simp: repository_missions_def missions_distinct_def strict_sorted_iff distinct_map
      intro: find_stored_member[OF assms] inj_on_subset)

lemma members_of_cache:
  "\<forall>s\<in>set xs. \<exists>m. load s = Inr (m, w s) \<and> map_of filled (k s) = Some (w s, m) \<Longrightarrow>
    map_sum id (map fst) (try_map load xs) =
      Inr (List.map_filter (\<lambda>(i, _). map_option snd (map_of filled i)) (map (\<lambda>s. (k s, w s)) xs))"
proof (induction xs)
  case (Cons x xs)
  obtain m where "load x = Inr (m, w x)" "map_of filled (k x) = Some (w x, m)" using Cons.prems by auto
  then show ?case using Cons by (cases "try_map load xs") (auto simp: List.map_filter_simps)
qed (simp add: List.map_filter_simps)

text \<open>What a read of the board does, with the cache taken apart: the moved missions are read, the others
  keep their entry.\<close>

definition moved_missions :: "database \<Rightarrow> string \<Rightarrow> mission_cache \<Rightarrow> stored_mission list" where
  "moved_missions db r cache = filter (\<lambda>s. moved cache (mr_id (st_row s), mr_version (st_row s))) (repository_missions db r)"

definition kept_entries :: "database \<Rightarrow> string \<Rightarrow> mission_cache \<Rightarrow> mission_cache" where
  "kept_entries db r cache = filter (\<lambda>e. fst e \<in> set (map fst (repository_rows db r))) cache"

definition moved_ids :: "database \<Rightarrow> string \<Rightarrow> mission_cache \<Rightarrow> string list" where
  "moved_ids db r cache = map (\<lambda>s. mr_id (st_row s)) (moved_missions db r cache)"

lemma loadByRepository_split:
  "loadByRepository nt db r cache = (let (result, filled) = load_chunks nt db (moved_ids db r cache) (kept_entries db r cache) in
    (map_sum id (\<lambda>_. List.map_filter (\<lambda>(i, _). map_option snd (map_of filled i)) (repository_rows db r)) result, filled))"
proof -
  have "map fst (filter (moved cache) (repository_rows db r)) = moved_ids db r cache"
    by (simp add: repository_rows_of filter_map comp_def moved_ids_def moved_missions_def)
  then show ?thesis unfolding loadByRepository_def Let_def kept_entries_def by (simp only:)
qed

lemma kept_entry: "s \<in> set (repository_missions db r) \<Longrightarrow>
    map_of (kept_entries db r cache) (mr_id (st_row s)) = map_of cache (mr_id (st_row s))"
  unfolding kept_entries_def map_of_filter_key[of "\<lambda>i. i \<in> set (map fst (repository_rows db r))"]
  by (rule if_P) (force simp: repository_rows_of)

lemma moved_ids_ok:
  assumes "missions_distinct db"
  shows "sorted_wrt (<) (moved_ids db r cache)" and "all_stored db (moved_ids db r cache)"
    and "s \<in> set (repository_missions db r) \<Longrightarrow> stored_at db (mr_id (st_row s)) = s"
    and "s \<in> set (repository_missions db r) \<Longrightarrow> mr_id (st_row s) \<in> set (moved_ids db r cache) \<longleftrightarrow> s \<in> set (moved_missions db r cache)"
proof -
  let ?id = "\<lambda>s. mr_id (st_row s)"
  show "sorted_wrt (<) (moved_ids db r cache)"
    using repository_sorted(1)[OF assms, of r] by (simp add: moved_ids_def moved_missions_def sorted_wrt_map sorted_wrt_filter)
  show "all_stored db (moved_ids db r cache)"
    using repository_sorted(2)[OF assms] by (auto simp: all_stored_def moved_ids_def moved_missions_def)
  have found: "stored_at db (?id s) = s" if "s \<in> set (repository_missions db r)" for s
    using repository_sorted(2)[OF assms that] by (simp add: stored_at_def)
  then show "s \<in> set (repository_missions db r) \<Longrightarrow> stored_at db (?id s) = s" .
  show "?id s \<in> set (moved_ids db r cache) \<longleftrightarrow> s \<in> set (moved_missions db r cache)" if s: "s \<in> set (repository_missions db r)"
  proof
    assume "?id s \<in> set (moved_ids db r cache)"
    then obtain t where t: "t \<in> set (moved_missions db r cache)" "?id t = ?id s" by (auto simp: moved_ids_def)
    then have "t \<in> set (repository_missions db r)" by (simp add: moved_missions_def)
    from box_equals[OF arg_cong[OF t(2), of "stored_at db"] found[OF this] found[OF s]]
    show "s \<in> set (moved_missions db r cache)" using t(1) by simp
  qed (simp add: moved_ids_def)
qed

lemma moved_loads:
  assumes "missions_distinct db"
  shows "try_map (\<lambda>i. load_stored nt (stored_at db i)) (moved_ids db r cache) = try_map (load_stored nt) (moved_missions db r cache)"
  unfolding moved_ids_def try_map_comp
  using moved_ids_ok(3)[OF assms] by (intro try_map_cong) (auto simp: moved_missions_def)

lemma filled_entry:
  assumes "missions_distinct db" and "try_map (load_stored nt) (moved_missions db r cache) = Inr ls"
    and s: "s \<in> set (repository_missions db r)"
  shows "if s \<in> set (moved_missions db r cache)
    then \<exists>m. load_stored nt s = Inr (m, mr_version (st_row s)) \<and>
      map_of (foldl cache_set (kept_entries db r cache) ls) (mr_id (st_row s)) = Some (mr_version (st_row s), m)
    else map_of (foldl cache_set (kept_entries db r cache) ls) (mr_id (st_row s)) = map_of cache (mr_id (st_row s))"
proof -
  have "try_map (\<lambda>i. load_stored nt (stored_at db i)) (moved_ids db r cache) = Inr ls"
    using assms(2) moved_loads[OF assms(1)] by simp
  note at = cache_sets[OF this moved_ids_ok(2)[OF assms(1)], of "kept_entries db r cache", THEN conjunct2, THEN spec, of "mr_id (st_row s)"]
  show ?thesis
  proof (cases "s \<in> set (moved_missions db r cache)")
    case True
    then obtain m v where m: "load_stored nt s = Inr (m, v)"
      "map_of (foldl cache_set (kept_entries db r cache) ls) (mr_id (st_row s)) = Some (v, m)"
      using at unfolding moved_ids_ok(4)[OF assms(1) s] moved_ids_ok(3)[OF assms(1) s] by auto
    then show ?thesis using True load_stored_fields[OF m(1)] by simp
  next
    case False
    then show ?thesis using at unfolding moved_ids_ok(4)[OF assms(1) s] kept_entry[OF s] by simp
  qed
qed

lemma loadByRepository_Inr:
  assumes "missions_distinct db" and "try_map (load_stored nt) (moved_missions db r cache) = Inr ls"
  shows "loadByRepository nt db r cache =
    (Inr (List.map_filter (\<lambda>(i, _). map_option snd (map_of (foldl cache_set (kept_entries db r cache) ls) i)) (repository_rows db r)),
      foldl cache_set (kept_entries db r cache) ls)"
proof -
  have "load_chunks nt db (moved_ids db r cache) (kept_entries db r cache) = (Inr (), foldl cache_set (kept_entries db r cache) ls)"
    using load_chunks_is[OF assms(1) moved_ids_ok(1,2)[OF assms(1)], where nt = nt and cache = "kept_entries db r cache" and r1 = r and cache1 = cache]
      moved_loads[OF assms(1)] assms(2) by simp
  then show ?thesis by (simp add: loadByRepository_split)
qed

lemma loadByRepository_is:
  assumes "missions_distinct db" and "cache_ok nt db cache"
  shows "fst (loadByRepository nt db r cache) = load_all nt db r \<and> cache_ok nt db (snd (loadByRepository nt db r cache))"
proof -
  let ?id = "\<lambda>s. mr_id (st_row s)" and ?v = "\<lambda>s. mr_version (st_row s)" and ?R = "repository_missions db r"
  have ok: "cache_ok nt db (kept_entries db r cache)" unfolding kept_entries_def by (rule cache_ok_filter[OF assms(2)])
  have fresh: "\<exists>m. load_stored nt s = Inr (m, ?v s) \<and> map_of cache (?id s) = Some (?v s, m)"
    if s: "s \<in> set ?R" "s \<notin> set (moved_missions db r cache)" for s
  proof -
    obtain m where m: "map_of cache (?id s) = Some (?v s, m)" using s by (auto simp: moved_missions_def moved_def)
    then have "entry_ok nt db (?id s) (?v s, m)" using assms(2) unfolding cache_ok_def by blast
    then show ?thesis using m repository_sorted(2)[OF assms(1) s(1)] by (simp add: entry_ok_def)
  qed
  note filled = load_chunks_is[OF assms(1) moved_ids_ok(1,2)[OF assms(1)], where nt = nt and cache = "kept_entries db r cache" and r1 = r and cache1 = cache]
  show ?thesis
  proof (cases "try_map (load_stored nt) (moved_missions db r cache)")
    case (Inl e)
    have "is_ok (load_stored nt s)" if "s \<in> set ?R" "\<not> moved cache (?id s, ?v s)" for s
      using fresh[of s] that by (auto simp: is_ok_iff moved_missions_def)
    then have "\<forall>s\<in>set ?R. \<not> moved cache (?id s, ?v s) \<longrightarrow> is_ok (load_stored nt s)" by blast
    then have "try_map (load_stored nt) ?R = Inl e"
      using Inl try_map_filter_Inl[of ?R "\<lambda>s. moved cache (?id s, ?v s)" "load_stored nt" e] by (simp add: moved_missions_def)
    then show ?thesis using filled Inl ok
      by (cases "load_chunks nt db (moved_ids db r cache) (kept_entries db r cache)")
        (simp add: loadByRepository_split moved_loads[OF assms(1)] load_all_def)
  next
    case (Inr ls)
    let ?filled = "foldl cache_set (kept_entries db r cache) ls"
    have "\<forall>s\<in>set ?R. \<exists>m. load_stored nt s = Inr (m, ?v s) \<and> map_of ?filled (?id s) = Some (?v s, m)"
      using filled_entry[OF assms(1) Inr] fresh by (metis (no_types, lifting))
    then have "load_all nt db r = Inr (List.map_filter (\<lambda>(i, _). map_option snd (map_of ?filled i)) (repository_rows db r))"
      unfolding load_all_def repository_rows_of by (rule members_of_cache)
    moreover have "cache_ok nt db ?filled"
      using cache_sets[of nt db "moved_ids db r cache" ls "kept_entries db r cache"] ok Inr moved_loads[OF assms(1)]
        moved_ids_ok(2)[OF assms(1)] by simp
    ultimately show ?thesis by (simp add: loadByRepository_Inr[OF assms(1) Inr])
  qed
qed

section \<open>The cache across writes\<close>

lemma find_cancelled:
  "cancelAggregate foreign_keys violations db i = Inr db' \<Longrightarrow> find_stored db' j = (if j = i then None else find_stored db j)"
proof -
  have "find_first (stored_named j) (filter (\<lambda>s. \<not> stored_named i s) xs) =
      (if j = i then None else find_first (stored_named j) xs)" for xs
    by (induction xs) (auto simp: stored_named_def[abs_def])
  then show "cancelAggregate foreign_keys violations db i = Inr db' \<Longrightarrow> ?thesis"
    by (auto simp: cancelAggregate_def find_stored_def split: if_splits)
qed

lemma entry_ok_same: "find_stored db' i = find_stored db i \<Longrightarrow> entry_ok nt db' i entry = entry_ok nt db i entry"
  by (simp add: entry_ok_def)

lemma cancel_keeps_cache:
  assumes "cancelAggregate foreign_keys violations db i = Inr db'" and "cache_ok nt db cache"
  shows "cache_ok nt db' cache"
  unfolding cache_ok_def
proof (intro allI impI)
  fix j entry
  assume "map_of cache j = Some entry"
  then have "entry_ok nt db j entry" using assms(2) unfolding cache_ok_def by blast
  then show "entry_ok nt db' j entry"
    using find_cancelled[OF assms(1), of j] by (cases "j = i") (simp_all add: entry_ok_def)
qed

lemma write_keeps_cache:
  assumes "store_write db (owned, m, e, event) = Inr db'" and "cache_ok nt db cache"
    and "e = None \<Longrightarrow> map_of cache (ms_id m) = None"
  shows "cache_ok nt db' cache"
  unfolding cache_ok_def
proof (intro allI impI)
  fix j entry
  assume entry: "map_of cache j = Some entry"
  then have old: "entry_ok nt db j entry" using assms(2) unfolding cache_ok_def by blast
  show "entry_ok nt db' j entry"
  proof (cases "j = ms_id m")
    case False
    then show ?thesis using old entry_ok_same[OF write_version(3)[OF assms(1)]] by simp
  next
    case True
    then obtain n where e: "e = Some n" using entry assms(3) by (cases e) auto
    have "currentVersion db j = Some n" "currentVersion db' j = Some (Suc n)"
      using write_version(1,2)[OF assms(1)] e True by simp_all
    then show ?thesis using old by (auto simp: entry_ok_def currentVersion_def)
  qed
qed

section \<open>A reader's cache across its life\<close>

lemma cancel_distinct:
  "cancelAggregate foreign_keys violations db i = Inr db' \<Longrightarrow> missions_distinct db \<Longrightarrow> missions_distinct db'"
  by (auto simp: cancelAggregate_def missions_distinct_def distinct_map_filter split: if_splits)

text \<open>The life of one reader's cache: it reads repositories, while any process saves and cancels missions. One
  order of events is set aside: a mission that is created while the cache still holds one of its identity,
  so one that was cancelled since the reader last read its repository.\<close>

datatype reader_event =
    Reads string
  | Saves bool mission "nat option" "lane_event option"
  | Cancels bool nat string

datatype reader_refusal = Store_refused store_error | Created_over_cached

fun reader_step ::
  "(jsnum \<Rightarrow> string) \<Rightarrow> database \<times> mission_cache \<Rightarrow> reader_event \<Rightarrow> reader_refusal + database \<times> mission_cache" where
  "reader_step nt (db, cache) (Reads repository) = Inr (db, snd (loadByRepository nt db repository cache))"
| "reader_step nt (db, cache) (Saves owned mission expected event) =
     (if expected = None \<and> map_of cache (ms_id mission) \<noteq> None then Inl Created_over_cached
      else map_sum Store_refused (\<lambda>db'. (db', cache)) (store_write db (owned, mission, expected, event)))"
| "reader_step nt (db, cache) (Cancels foreign_keys violations ident) =
     map_sum Store_refused (\<lambda>db'. (db', cache)) (cancelAggregate foreign_keys violations db ident)"

definition reader_ok :: "(jsnum \<Rightarrow> string) \<Rightarrow> database \<times> mission_cache \<Rightarrow> bool" where
  "reader_ok nt s \<longleftrightarrow> missions_distinct (fst s) \<and> cache_ok nt (fst s) (snd s)"

lemma reader_step_ok:
  assumes "reader_ok nt s" and "reader_step nt s event = Inr t"
  shows "reader_ok nt t"
proof -
  obtain db cache where s: "s = (db, cache)" by (cases s)
  have ok: "missions_distinct db" "cache_ok nt db cache" using assms(1) by (simp_all add: reader_ok_def s)
  show ?thesis
  proof (cases event)
    case (Reads repository)
    then show ?thesis using assms(2) ok loadByRepository_is[OF ok] by (auto simp: reader_ok_def s)
  next
    case (Saves owned m e ev)
    then obtain db' where d: "store_write db (owned, m, e, ev) = Inr db'" "t = (db', cache)"
      "e = None \<longrightarrow> map_of cache (ms_id m) = None"
      using assms(2) by (cases e; cases "map_of cache (ms_id m)") (auto simp: s map_sum_Inr)
    then show ?thesis using write_keeps_cache[OF d(1) ok(2)] write_version(4)[OF d(1) ok(1)] by (simp add: reader_ok_def)
  next
    case (Cancels fk broken i)
    then obtain db' where d: "cancelAggregate fk broken db i = Inr db'" "t = (db', cache)"
      using assms(2) by (auto simp: s map_sum_Inr)
    then show ?thesis using cancel_keeps_cache[OF d(1) ok(2)] cancel_distinct[OF d(1) ok(1)] by (simp add: reader_ok_def)
  qed
qed

interpretation reader: guarded_machine "reader_step nt" "reader_ok nt" for nt
  by unfold_locales (rule reader_step_ok)

section \<open>Properties\<close>


lemma sample_saved_twice:
  "\<exists>db1 db2. saveAggregate (\<lambda>_. True) empty_database sample_saved None = Inr (1, db1) \<and>
    saveAggregate (\<lambda>_. True) db1 sample_saved (Some 1) = Inr (2, db2)"
proof -
  let ?first = "saveAggregate (\<lambda>_. True) empty_database sample_saved None"
  have both: "case saveAggregate (\<lambda>_. True) empty_database sample_saved None of Inl _ \<Rightarrow> False
    | Inr (v, db) \<Rightarrow> v = 1 \<and> (case saveAggregate (\<lambda>_. True) db sample_saved (Some 1) of Inl _ \<Rightarrow> False | Inr (w, _) \<Rightarrow> w = 2)"
    by code_simp
  obtain v db1 where first: "?first = Inr (v, db1)" using both by (cases ?first) (auto simp del: One_nat_def)
  note second = both[unfolded first sum.case prod.case]
  obtain w db2 where "saveAggregate (\<lambda>_. True) db1 sample_saved (Some 1) = Inr (w, db2)" "w = 2"
    using second[THEN conjunct2] by (cases "saveAggregate (\<lambda>_. True) db1 sample_saved (Some 1)") (auto simp del: One_nat_def)
  then show ?thesis using first second[THEN conjunct1] by blast
qed


text \<open>A mission that is cancelled and created again before the next read starts at version 1 again: a
  reader that cached the first one at version 1 keeps showing it.\<close>

lemma new_mission_row:
  assumes "persistAggregate owns db m None = Inr (v, db')"
  obtains s where "find_stored db' (ms_id m) = Some s" "mr_version (st_row s) = 1"
    "mr_repository_id (st_row s) = ms_repositoryId m"
proof -
  obtain n c s a where n: "normalizeStoredMission m = Inr n" and s: "begin_save db n None c = Inr s"
    and db': "db' = put_stored db (ms_id m) (s\<lparr>st_row := (st_row s)\<lparr>mr_next_success_criterion_id := the (ms_nextSuccessCriterionId a)\<rparr>,
       st_values := insert_values a (st_values s), st_history := append_history a (st_history s),
       st_rounds := captureRounds a (append_history a (st_history s)) (st_rounds s)\<rparr>)"
    using assms by (rule persist_Inr)
  have "ms_id n = ms_id m" "ms_repositoryId n = ms_repositoryId m" using n by (auto elim: normalize_Inr)
  moreover from s have "st_row s = mission_row_of n c 1 1" by (cases rule: begin_save_Inr) simp_all
  ultimately show ?thesis using that db' by (simp add: mission_row_of_def)
qed

lemma recreated_mission_shows_old:
  assumes "cancelAggregate foreign_keys violations db (ms_id m) = Inr db1" and "saveAggregate owns db1 m None = Inr (v, db2)"
    and "map_of cache (ms_id m) = Some (1, old)" and "missions_distinct db"
    and "fst (loadByRepository nt db2 (ms_repositoryId m) cache) = Inr missions"
  shows "old \<in> set missions"
proof -
  have saved: "persistAggregate owns db1 m None = Inr (v, db2)" using assms(2) by (simp add: saveAggregate_def)
  obtain s where s: "find_stored db2 (ms_id m) = Some s" "mr_version (st_row s) = 1" "mr_repository_id (st_row s) = ms_repositoryId m"
    using saved by (rule new_mission_row)
  have "missions_distinct db1" by (rule cancel_distinct[OF assms(1,4)])
  then have distinct: "missions_distinct db2"
    using write_version(4)[of db1 "owns (ms_id m)" m None None db2] assms(2) persist_owns[of owns db1 m None]
    by (simp add: store_write_def saveAggregate_def)
  have member: "s \<in> set (repository_missions db2 (ms_repositoryId m))" "mr_id (st_row s) = ms_id m"
    using s stored_named_find[OF s(1)] by (auto simp: repository_missions_def)
  have kept: "s \<notin> set (moved_missions db2 (ms_repositoryId m) cache)"
    using assms(3) s member by (simp add: moved_missions_def moved_def)
  show ?thesis
  proof (cases "try_map (load_stored nt) (moved_missions db2 (ms_repositoryId m) cache)")
    case (Inl e)
    then show ?thesis
      using load_chunks_is[OF distinct moved_ids_ok(1,2)[OF distinct], where nt = nt and r1 = "ms_repositoryId m"
          and cache1 = cache and cache = "kept_entries db2 (ms_repositoryId m) cache"] assms(5)
      by (simp add: loadByRepository_split moved_loads[OF distinct] Let_def case_prod_beta)
  next
    case (Inr ls)
    let ?filled = "foldl cache_set (kept_entries db2 (ms_repositoryId m) cache) ls"
    have "map_of ?filled (ms_id m) = Some (1, old)"
      using filled_entry[OF distinct Inr member(1)] kept member(2) assms(3) by simp
    moreover have "(ms_id m, 1) \<in> set (repository_rows db2 (ms_repositoryId m))"
      using member s(2) by (force simp: repository_rows_of)
    ultimately have "old \<in> set (List.map_filter (\<lambda>(i, _). map_option snd (map_of ?filled i)) (repository_rows db2 (ms_repositoryId m)))"
      by (force simp: List.map_filter_def)
    then show ?thesis using assms(5) by (simp add: loadByRepository_Inr[OF distinct Inr])
  qed
qed

end
