(* ===== verification/Commands.thy ===== *)
theory Commands
  imports MissionCache Operations
begin

text \<open>
  The use cases that move a mission: \<open>src/src/application/contracts.ts\<close>, \<open>mission-command-support.ts\<close>,
  \<open>mission-lifecycle-service.ts\<close>, \<open>mission-intake-service.ts\<close>, \<open>mission-integration-service.ts\<close>,
  \<open>mission-assignment-service.ts\<close>, \<open>mission-lifecycle-recovery.ts\<close> and \<open>execution-start-service.ts\<close>.

  Every one of them reads the mission, lets the domain decide and writes against the version it read.
  Another process may write in between, so the state a command reads (\<open>seen\<close>) and the state it writes to
  (\<open>db\<close>) are two arguments. An error carries its kind; its message and the evidence text of an outcome
  are not modelled. Times of \<open>new Date()\<close> are arguments.
\<close>

section \<open>Outcomes\<close>

datatype terminal_status = Ended_completed | Ended_rejected | Ended_failed | Ended_cancelled

datatype error_kind =
  Validation_error | Capability_error | Conflict_error | Unavailable_error | Execution_error | Cancelled_error

datatype 'a outcome = Success 'a | Failure terminal_status error_kind

fun outcome_status :: "'a outcome \<Rightarrow> terminal_status" where
  "outcome_status (Success _) = Ended_completed"
| "outcome_status (Failure status _) = status"

definition failure :: "error_kind \<Rightarrow> 'a outcome" where
  "failure kind = Failure (if kind = Cancelled_error then Ended_cancelled else Ended_failed) kind"

definition rejected :: "error_kind \<Rightarrow> 'a outcome" where
  "rejected kind = Failure Ended_rejected kind"

section \<open>What every command does\<close>

record command_request =
  cq_operationId :: string
  cq_missionId :: string
  cq_capabilities :: "string list"
  cq_expectedVersion :: "nat option"

definition missingCapability :: "command_request \<Rightarrow> string \<Rightarrow> 'a outcome option" where
  "missingCapability request capability =
     (if blank (cq_operationId request) then Some (rejected Validation_error)
      else if blank (cq_missionId request) then Some (rejected Validation_error)
      else if capability \<notin> set (cq_capabilities request) then Some (rejected Capability_error)
      else None)"

definition loadForCommand ::
  "(jsnum \<Rightarrow> string) \<Rightarrow> database \<Rightarrow> command_request \<Rightarrow> 'a outcome + mission \<times> nat" where
  "loadForCommand nt seen request =
     (case loadAggregate nt seen (cq_missionId request) of
        Inl _ \<Rightarrow> Inl (failure Unavailable_error)
      | Inr None \<Rightarrow> Inl (failure Unavailable_error)
      | Inr (Some (mission, version)) \<Rightarrow>
          if cq_expectedVersion request \<noteq> None \<and> cq_expectedVersion request \<noteq> Some version
          then Inl (failure Conflict_error)
          else Inr (mission, version))"

text \<open>The guard and the read every command starts with; a refusal leaves the state as it is.\<close>

definition permitted ::
  "command_request \<Rightarrow> string \<Rightarrow> database \<Rightarrow> 'a outcome \<times> database \<Rightarrow> 'a outcome \<times> database" where
  "permitted request capability db continue_with =
     (case missingCapability request capability of Some refusal \<Rightarrow> (refusal, db) | None \<Rightarrow> continue_with)"

definition with_loaded ::
  "(jsnum \<Rightarrow> string) \<Rightarrow> database \<Rightarrow> database \<Rightarrow> command_request \<Rightarrow>
    (mission \<Rightarrow> nat \<Rightarrow> 'a outcome \<times> database) \<Rightarrow> 'a outcome \<times> database" where
  "with_loaded nt seen db request continue_with =
     (case loadForCommand nt seen request of
        Inl refusal \<Rightarrow> (refusal, db)
      | Inr (mission, version) \<Rightarrow> continue_with mission version)"

text \<open>No error of a write is a \<open>MissionRuleViolation\<close>: the store raises stale writes and plain errors.\<close>

fun write_kind :: "store_error \<Rightarrow> error_kind" where
  "write_kind (Stale_write _ _ _) = Conflict_error"
| "write_kind _ = Execution_error"

definition writeFailure :: "store_error \<Rightarrow> 'a outcome" where
  "writeFailure error = failure (write_kind error)"

definition decisionFailure :: "'a outcome" where
  "decisionFailure = failure Validation_error"

fun isDuplicateLaneEvent :: "store_error \<Rightarrow> bool" where
  "isDuplicateLaneEvent (Duplicate_event _) = True"
| "isDuplicateLaneEvent _ = False"

text \<open>A save with a transition whose event is already recorded is saved without it when the recorded event
  is the same move; \<open>True\<close> in the result when the event was appended.\<close>

definition save_or_replay ::
  "(string \<Rightarrow> bool) \<Rightarrow> database \<Rightarrow> mission \<Rightarrow> nat \<Rightarrow> lane_event \<Rightarrow> error_kind + (nat \<times> bool) \<times> database" where
  "save_or_replay owns db mission version event =
     (case saveAggregateWithTransition owns db mission (Some version) event of
        Inr (next_version, db') \<Rightarrow> Inr ((next_version, True), db')
      | Inl error \<Rightarrow>
          if \<not> isDuplicateLaneEvent error then Inl (write_kind error)
          else if \<not> isReplayedLaneEvent (db_events db) event then Inl Conflict_error
          else (case saveAggregate owns db mission (Some version) of
              Inl e \<Rightarrow> Inl (write_kind e)
            | Inr (next_version, db') \<Rightarrow> Inr ((next_version, False), db')))"

section \<open>Transitions\<close>

record transition_request =
  tq_request :: command_request
  tq_command :: mission_command
  tq_actor :: string
  tq_occurredAt :: string
  tq_idempotencyKey :: "string option"

record transition_result =
  tn_mission :: mission
  tn_previousAssignee :: "agent_family option"
  tn_version :: nat
  tn_from :: mission_status
  tn_to :: mission_status
  tn_laneChanged :: bool

definition laneEvent :: "mission \<Rightarrow> mission_status \<Rightarrow> transition_request \<Rightarrow> lane_event option" where
  "laneEvent decided from request =
     (if ms_status decided = from then None
      else case triggerFromTransition (Some from) (ms_status decided) of
          None \<Rightarrow> None
        | Some trigger \<Rightarrow> Some \<lparr> le_missionId = ms_id decided, le_repositoryId = ms_repositoryId decided,
            le_from = Some from, le_to = ms_status decided, le_trigger = command_type (tq_command request),
            le_agent = tq_actor request, le_occurredAt = tq_occurredAt request,
            le_idempotencyKey = default_to (ms_id decided @ '':'' @ trigger @ '':'' @ tq_occurredAt request)
              (tq_idempotencyKey request) \<rparr>)"

definition transition_of :: "mission \<Rightarrow> mission \<Rightarrow> nat \<Rightarrow> bool \<Rightarrow> transition_result" where
  "transition_of mission decided version laneChanged =
     \<lparr> tn_mission = decided, tn_previousAssignee = ms_assignee mission, tn_version = version,
       tn_from = ms_status mission, tn_to = ms_status decided, tn_laneChanged = laneChanged \<rparr>"

definition write_transition ::
  "(string \<Rightarrow> bool) \<Rightarrow> database \<Rightarrow> transition_request \<Rightarrow> mission \<Rightarrow> nat \<Rightarrow> mission \<Rightarrow>
    transition_result outcome \<times> database" where
  "write_transition owns db request mission version decided =
     (case laneEvent decided (ms_status mission) request of
        None \<Rightarrow>
          (case saveAggregate owns db decided (Some version) of
             Inl e \<Rightarrow> (writeFailure e, db)
           | Inr (v, db') \<Rightarrow> (Success (transition_of mission decided v False), db'))
      | Some event \<Rightarrow>
          (case save_or_replay owns db decided version event of
             Inl kind \<Rightarrow> (failure kind, db)
           | Inr ((v, changed), db') \<Rightarrow> (Success (transition_of mission decided v changed), db')))"

definition transition ::
  "(jsnum \<Rightarrow> string) \<Rightarrow> (string \<Rightarrow> bool) \<Rightarrow> database \<Rightarrow> database \<Rightarrow> transition_request \<Rightarrow>
    transition_result outcome \<times> database" where
  "transition nt owns seen db request =
     permitted (tq_request request) ''mission:transition'' db
       (if blank (tq_occurredAt request) then (failure Validation_error, db)
        else with_loaded nt seen db (tq_request request) (\<lambda>mission version.
          case decideMission mission (tq_command request) of
            Inl _ \<Rightarrow> (decisionFailure, db)
          | Inr decided \<Rightarrow> write_transition owns db request mission version decided))"

record activation_request =
  aq_request :: command_request
  aq_agent :: agent_family
  aq_occurredAt :: string
  aq_idempotencyKey :: "string option"

definition activate ::
  "(jsnum \<Rightarrow> string) \<Rightarrow> (string \<Rightarrow> bool) \<Rightarrow> database \<Rightarrow> database \<Rightarrow> activation_request \<Rightarrow>
    transition_result outcome \<times> database" where
  "activate nt owns seen db request = transition nt owns seen db
     \<lparr> tq_request = aq_request request, tq_command = Activate (aq_agent request), tq_actor = aq_agent request,
       tq_occurredAt = aq_occurredAt request, tq_idempotencyKey = aq_idempotencyKey request \<rparr>"

record abort_request =
  xq_request :: command_request
  xq_assignee :: "agent_family option"
  xq_actor :: string
  xq_occurredAt :: string

definition abortActivation ::
  "(jsnum \<Rightarrow> string) \<Rightarrow> (string \<Rightarrow> bool) \<Rightarrow> database \<Rightarrow> database \<Rightarrow> abort_request \<Rightarrow>
    transition_result outcome \<times> database" where
  "abortActivation nt owns seen db request = transition nt owns seen db
     \<lparr> tq_request = xq_request request, tq_command = Abort_activation (xq_assignee request),
       tq_actor = xq_actor request, tq_occurredAt = xq_occurredAt request, tq_idempotencyKey = None \<rparr>"

section \<open>Intake\<close>

record intake_request =
  iq_operationId :: string
  iq_mission :: mission_intake
  iq_brief :: "mission_brief option"
  iq_successCriteria :: "string list option"
  iq_dependencies :: "string list option"
  iq_occurredAt :: "string option"
  iq_idempotencyKey :: "string option"
  iq_capabilities :: "string list"

definition withPlanning :: "intake_request \<Rightarrow> mission \<Rightarrow> mission_error + mission" where
  "withPlanning request mission =
     try_bind (case iq_brief request of
         None \<Rightarrow> Inr (ms_brief mission)
       | Some b \<Rightarrow> map_sum Contract Some (missionBrief b)) (\<lambda>brief.
     try_bind (case iq_successCriteria request of
         None \<Rightarrow> Inr (ms_successCriteria mission)
       | Some criteria \<Rightarrow> map_error Contract (successCriteria criteria)) (\<lambda>criteria.
     try_bind (case iq_dependencies request of
         None \<Rightarrow> Inr (ms_dependencies mission)
       | Some dependencies \<Rightarrow> missionDependencies dependencies (mi_id (iq_mission request))) (\<lambda>dependencies.
       Inr (mission\<lparr>ms_brief := brief, ms_successCriteria := criteria, ms_dependencies := dependencies\<rparr>))))"

definition readExisting :: "(jsnum \<Rightarrow> string) \<Rightarrow> database \<Rightarrow> string \<Rightarrow> 'a outcome option" where
  "readExisting nt seen ident =
     (case loadAggregate nt seen ident of
        Inl _ \<Rightarrow> Some (failure Unavailable_error)
      | Inr (Some _) \<Rightarrow> Some (failure Conflict_error)
      | Inr None \<Rightarrow> None)"

definition intake ::
  "(jsnum \<Rightarrow> string) \<Rightarrow> (string \<Rightarrow> bool) \<Rightarrow> string \<Rightarrow> database \<Rightarrow> database \<Rightarrow> intake_request \<Rightarrow>
    (mission \<times> nat) outcome \<times> database" where
  "intake nt owns now seen db request =
     (if blank (iq_operationId request) \<or> blank (mi_id (iq_mission request)) then (rejected Validation_error, db)
      else if ''mission:intake'' \<notin> set (iq_capabilities request) then (rejected Capability_error, db)
      else (case try_bind (intakeMission (iq_mission request)) (withPlanning request) of
          Inl _ \<Rightarrow> (decisionFailure, db)
        | Inr mission \<Rightarrow>
            if mi_externalTaskRef (iq_mission request) \<noteq> None \<and> ms_externalTaskRef mission = None
            then (decisionFailure, db)
            else (case readExisting nt seen (mi_id (iq_mission request)) of
                Some refusal \<Rightarrow> (refusal, db)
              | None \<Rightarrow>
                  let event = lifecycleLaneEvent \<lparr> li_mission = mission, li_from = None, li_trigger = ''intake'',
                    li_agent = default_to ''unknown'' (ms_assignee mission),
                    li_occurredAt = default_to now (iq_occurredAt request),
                    li_idempotencyKey = iq_idempotencyKey request \<rparr> in
                  (case saveAggregateWithTransition owns db mission None event of
                     Inl e \<Rightarrow> ((if isDuplicateLaneEvent e then failure Conflict_error else writeFailure e), db)
                   | Inr (version, db') \<Rightarrow> (Success (mission, version), db')))))"

section \<open>Integration and closure\<close>

datatype fact_status = Fresh | Stale | Fact_unavailable

record fact =
  fc_status :: fact_status
  fc_value :: "bool option"

text \<open>\<open>requireFresh\<close>: true when the observation is fresh and has a value.\<close>

definition fresh_fact :: "fact \<Rightarrow> bool" where
  "fresh_fact f \<longleftrightarrow> fc_status f = Fresh \<and> fc_value f \<noteq> None"

record integrate_request =
  gq_request :: command_request
  gq_git :: fact
  gq_verification :: fact
  gq_occurredAt :: "string option"
  gq_idempotencyKey :: "string option"
  gq_actor :: "string option"

definition integration_event :: "string \<Rightarrow> integrate_request \<Rightarrow> mission \<Rightarrow> mission \<Rightarrow> lane_event" where
  "integration_event now request loaded mission = lifecycleLaneEvent
     \<lparr> li_mission = mission, li_from = Some (ms_status loaded), li_trigger = ''integrate'',
       li_agent = default_to (default_to ''unknown'' (ms_assignee mission)) (gq_actor request),
       li_occurredAt = default_to now (gq_occurredAt request), li_idempotencyKey = gq_idempotencyKey request \<rparr>"

definition decideIntegration ::
  "(jsnum \<Rightarrow> string) \<Rightarrow> (string \<Rightarrow> bool) \<Rightarrow> string \<Rightarrow> database \<Rightarrow> database \<Rightarrow> integrate_request \<Rightarrow>
    (mission \<times> nat) outcome \<times> database" where
  "decideIntegration nt owns now seen db request =
     permitted (gq_request request) ''integration:decide'' db
       (if \<not> fresh_fact (gq_git request) \<or> \<not> fresh_fact (gq_verification request) then (failure Validation_error, db)
        else if fc_value (gq_git request) \<noteq> Some True \<or> fc_value (gq_verification request) \<noteq> Some True
        then (failure Validation_error, db)
        else with_loaded nt seen db (gq_request request) (\<lambda>loaded version.
          case decideMission loaded Integrate of
            Inl _ \<Rightarrow> (decisionFailure, db)
          | Inr mission \<Rightarrow>
              (case save_or_replay owns db mission version (integration_event now request loaded mission) of
                 Inl kind \<Rightarrow> (failure kind, db)
               | Inr ((v, _), db') \<Rightarrow> (Success (mission, v), db'))))"

record close_request =
  kq_request :: command_request
  kq_integration :: fact
  kq_closedAt :: string

definition close_mission ::
  "(jsnum \<Rightarrow> string) \<Rightarrow> (string \<Rightarrow> bool) \<Rightarrow> database \<Rightarrow> database \<Rightarrow> close_request \<Rightarrow>
    (mission \<times> nat) outcome \<times> database" where
  "close_mission nt owns seen db request =
     permitted (kq_request request) ''closure:record'' db
       (if \<not> fresh_fact (kq_integration request) then (failure Validation_error, db)
        else if fc_value (kq_integration request) \<noteq> Some True then (failure Validation_error, db)
        else with_loaded nt seen db (kq_request request) (\<lambda>loaded version.
          case closeMission loaded (kq_closedAt request) of
            Inl _ \<Rightarrow> (decisionFailure, db)
          | Inr mission \<Rightarrow>
              (case saveAggregate owns db mission (Some version) of
                 Inl e \<Rightarrow> (writeFailure e, db)
               | Inr (v, db') \<Rightarrow> (Success (mission, v), db'))))"

section \<open>Assignment\<close>

definition set_assignment ::
  "(jsnum \<Rightarrow> string) \<Rightarrow> (string \<Rightarrow> bool) \<Rightarrow> database \<Rightarrow> database \<Rightarrow> command_request \<Rightarrow> agent_family option \<Rightarrow>
    (agent_family option \<times> nat) outcome \<times> database" where
  "set_assignment nt owns seen db request assignee =
     permitted request ''mission:context'' db
       (with_loaded nt seen db request (\<lambda>loaded version.
          case saveAggregate owns db (loaded\<lparr>ms_assignee := assignee\<rparr>) (Some version) of
            Inl e \<Rightarrow> (writeFailure e, db)
          | Inr (v, db') \<Rightarrow> (Success (assignee, v), db')))"

section \<open>Recovery of a lane\<close>

datatype recovery_action = No_action | Recover_to_active | Refused_integrated | Recovered_landed

record recovery_result =
  ry_taskStatus :: string
  ry_aggregateStatus :: "mission_status option" \<comment> \<open>\<open>missing\<close> when there is none\<close>
  ry_action :: recovery_action
  ry_recovered :: "mission option"

record recovery_input =
  rc_missionId :: string
  rc_taskStatus :: "string option"
  rc_actor :: string
  rc_occurredAt :: string
  rc_alreadyMerged :: "bool option" \<comment> \<open>what the probe says, when there is one\<close>
  rc_landedIntake :: "mission_intake option option"

datatype recovery_fault = Recovery_unreadable load_error | Recovery_refused mission_error

definition recovery_event :: "recovery_input \<Rightarrow> mission \<Rightarrow> mission_status option \<Rightarrow> string \<Rightarrow> lane_event" where
  "recovery_event input mission from trigger = lifecycleLaneEvent
     \<lparr> li_mission = mission, li_from = from, li_trigger = trigger, li_agent = rc_actor input,
       li_occurredAt = rc_occurredAt input, li_idempotencyKey = None \<rparr>"

definition landed_mission :: "recovery_input \<Rightarrow> mission_intake \<Rightarrow> mission_error + mission" where
  "landed_mission input landed =
     try_bind (intakeMission landed) (\<lambda>taken. closeMission (taken\<lparr>ms_status := Done\<rparr>) (rc_occurredAt input))"

definition recoverLandedMission ::
  "(jsnum \<Rightarrow> string) \<Rightarrow> (string \<Rightarrow> bool) \<Rightarrow> database \<Rightarrow> recovery_input \<Rightarrow> string \<Rightarrow>
    (recovery_fault + recovery_result outcome) \<times> database" where
  "recoverLandedMission nt owns db input taskStatus =
     (if taskStatus \<noteq> ''done'' \<and> taskStatus \<noteq> ''completed'' then (Inr (failure Conflict_error), db)
      else case rc_landedIntake input of
          None \<Rightarrow> (Inr (failure Unavailable_error), db)
        | Some None \<Rightarrow> (Inr (failure Conflict_error), db)
        | Some (Some landed) \<Rightarrow>
            (case landed_mission input landed of
               Inl e \<Rightarrow> (Inl (Recovery_refused e), db)
             | Inr mission \<Rightarrow>
                 (case saveAggregateWithTransition owns db mission None (recovery_event input mission None ''close'') of
                    Inl e \<Rightarrow> (Inr (writeFailure e), db)
                  | Inr (_, db') \<Rightarrow>
                      ((case loadAggregate nt db' (rc_missionId input) of
                          Inl e \<Rightarrow> Inl (Recovery_unreadable e)
                        | Inr None \<Rightarrow> Inr (failure Unavailable_error)
                        | Inr (Some (m, _)) \<Rightarrow> Inr (
                            if ms_status m \<noteq> Done \<or> \<not> has_text (ms_closedAt m) then failure Unavailable_error
                            else Success \<lparr> ry_taskStatus = taskStatus, ry_aggregateStatus = None,
                              ry_action = Recovered_landed, ry_recovered = Some m \<rparr>)), db'))))"

definition recover_active ::
  "(string \<Rightarrow> bool) \<Rightarrow> database \<Rightarrow> recovery_input \<Rightarrow> string \<Rightarrow> mission \<Rightarrow> nat \<Rightarrow> mission \<Rightarrow>
    recovery_result outcome \<times> database" where
  "recover_active owns db input taskStatus loaded version recovered =
     (case saveAggregateWithTransition owns db recovered (Some version)
         (recovery_event input recovered (Some (ms_status loaded)) ''recover-active'') of
        Inl e \<Rightarrow> (writeFailure e, db)
      | Inr (_, db') \<Rightarrow> (Success \<lparr> ry_taskStatus = taskStatus, ry_aggregateStatus = Some (ms_status loaded),
          ry_action = Recover_to_active, ry_recovered = Some recovered \<rparr>, db'))"

text \<open>What is done with a mission that is stored: \<open>Inl\<close> an action without a write, \<open>Inr\<close> the active mission.\<close>

definition recovery_plan :: "database \<Rightarrow> recovery_input \<Rightarrow> mission \<Rightarrow> recovery_action + mission" where
  "recovery_plan seen input loaded =
     (if rc_taskStatus input = Some ''active'' \<and> ms_status loaded = Active \<and> rc_alreadyMerged input = Some True
      then Inl Refused_integrated
      else if rc_taskStatus input = Some ''active'' \<and> ms_status loaded = Refined
      then Inr (loaded\<lparr>ms_status := Active\<rparr>)
      else if rc_taskStatus input \<noteq> Some ''active'' \<or> ms_status loaded \<noteq> Done then Inl No_action
      else if list_ex (\<lambda>entry. bl_trigger entry = ''integrate'') (findByMissionId (db_events seen) (rc_missionId input))
      then Inl Refused_integrated
      else Inr (loaded\<lparr>ms_status := Active, ms_closedAt := None\<rparr>))"

definition recoverMissionLifecycle ::
  "(jsnum \<Rightarrow> string) \<Rightarrow> (string \<Rightarrow> bool) \<Rightarrow> database \<Rightarrow> database \<Rightarrow> recovery_input \<Rightarrow>
    (recovery_fault + recovery_result outcome) \<times> database" where
  "recoverMissionLifecycle nt owns seen db input =
     (let taskStatus = default_to ''unavailable'' (rc_taskStatus input) in
      case loadAggregate nt seen (rc_missionId input) of
        Inl e \<Rightarrow> (Inl (Recovery_unreadable e), db)
      | Inr None \<Rightarrow> recoverLandedMission nt owns db input taskStatus
      | Inr (Some (loaded, version)) \<Rightarrow>
          (case recovery_plan seen input loaded of
             Inl action \<Rightarrow> (Inr (Success \<lparr> ry_taskStatus = taskStatus,
               ry_aggregateStatus = Some (ms_status loaded), ry_action = action, ry_recovered = None \<rparr>), db)
           | Inr recovered \<Rightarrow>
               map_prod Inr id (recover_active owns db input taskStatus loaded version recovered)))"

section \<open>Lemmas\<close>

lemma revoke_moves:
  "revokeMissionApproval m r = Inr m' \<Longrightarrow> ms_id m' = ms_id m \<and> ms_repositoryId m' = ms_repositoryId m \<and>
    (ms_status m' = In_review \<and> ms_status m \<in> {Integration, Active, In_review} \<or> ms_status m' = Active \<and> ms_status m = Active)"
  by (auto simp: revokeMissionApproval_def try_bind_Inr status_Inr Let_def split: option.splits if_splits)

lemma submit_moves:
  assumes "submitForReview m s = Inr m'"
  shows "ms_id m' = ms_id m \<and> ms_repositoryId m' = ms_repositoryId m \<and> ms_status m' = In_review \<and> ms_status m \<in> {Active, In_review}"
proof -
  have kept: "ms_id (completeReviewPreparation m r p) = ms_id m" "ms_repositoryId (completeReviewPreparation m r p) = ms_repositoryId m" for r p
    by (simp_all add: completeReviewPreparation_def Let_def split: option.split)
  show ?thesis using assms by (cases rule: submit_Inr) (auto simp: kept complete_preparation_fields)
qed

definition moves_lane :: "mission \<Rightarrow> mission \<Rightarrow> bool" where
  "moves_lane m m' \<longleftrightarrow> ms_id m' = ms_id m \<and> ms_repositoryId m' = ms_repositoryId m \<and>
    (ms_status m' = ms_status m \<or> (ms_status m, ms_status m') \<in> set lane_moves)"

lemma rebound_moves:
  assumes "reboundMission m a cause t = Inr m'"
  shows "moves_lane m m'"
proof -
  have "ms_status m \<in> {Integration, In_review, Active}"
    using assms by (simp add: reboundMission_def try_bind_Inr status_Inr)
  moreover have "ms_id m' = ms_id m \<and> ms_repositoryId m' = ms_repositoryId m \<and> ms_status m' = Active"
    using assms by (cases "rebound_review (ms_review m) cause t")
      (auto simp: reboundMission_def try_bind_Inr split: if_split_asm)
  ultimately show ?thesis by (auto simp: moves_lane_def lane_moves_def)
qed

lemma implementer_moves:
  assumes "recordImplementer m a = Inr m'"
  shows "moves_lane m m'"
proof -
  have "ms_id m' = ms_id m \<and> ms_repositoryId m' = ms_repositoryId m \<and> ms_status m' = ms_status m"
    using assms by (auto simp: recordImplementer_def try_bind_Inr Let_def split: option.splits if_splits)
  then show ?thesis by (simp add: moves_lane_def)
qed

lemma decide_moves:
  assumes "decideMission m c = Inr m'"
  shows "moves_lane m m'"
proof (cases c)
  case (Submit_for_review s)
  then show ?thesis using assms submit_moves[of m s m'] by (auto simp: moves_lane_def lane_moves_def)
next
  case (Revoke_approval r)
  then show ?thesis using assms revoke_moves[of m r m'] by (auto simp: moves_lane_def lane_moves_def)
next
  case (Approve_mission r)
  with assms have "approveMission m r = Inr m'" by simp
  then show ?thesis by (rule approve_Inr) (auto simp: moves_lane_def lane_moves_def)
next
  case Refine
  with assms have "ms_status m \<in> {Backlog, Refined}" "m' = m\<lparr>ms_status := Refined\<rparr>"
    by (auto simp: refineMission_def try_bind_Inr status_Inr split: if_splits)
  then show ?thesis by (auto simp: moves_lane_def lane_moves_def)
next
  case (Activate a)
  with assms have "ms_status m \<in> {Refined, Active}" "m' = m\<lparr>ms_status := Active, ms_assignee := Some a\<rparr>"
    by (auto simp: try_bind_Inr status_Inr)
  then show ?thesis by (auto simp: moves_lane_def lane_moves_def)
next
  case Begin_review_preparation
  with assms have "ms_status m \<in> {Active, In_review, Integration}" "ms_status m' = In_review \<and> ms_id m' = ms_id m \<and> ms_repositoryId m' = ms_repositoryId m"
    by (auto simp: beginReviewPreparation_def try_bind_Inr status_Inr)
  then show ?thesis by (auto simp: moves_lane_def lane_moves_def)
next
  case (Abort_activation a)
  with assms have "ms_status m \<in> {Refined, Active}" "ms_status m' = Refined \<and> ms_id m' = ms_id m \<and> ms_repositoryId m' = ms_repositoryId m"
    by (auto simp: try_bind_Inr status_Inr split: if_splits)
  then show ?thesis by (auto simp: moves_lane_def lane_moves_def)
next
  case (Request_mission_changes r)
  with assms have "ms_status m = In_review" "m' = m\<lparr>ms_status := Active, ms_review := Some r\<rparr>"
    by (auto simp: try_bind_Inr status_Inr split: if_splits)
  then show ?thesis by (simp add: moves_lane_def lane_moves_def)
next
  case Integrate
  with assms have "ms_status m = Integration" "m' = m\<lparr>ms_status := Done, ms_closedAt := None\<rparr>"
    by (auto simp: try_bind_Inr status_Inr)
  then show ?thesis by (simp add: moves_lane_def lane_moves_def)
qed (use assms rebound_moves implementer_moves in auto)

text \<open>Between a read and a write the mission is the same when its version is.\<close>

lemma write_other:
  assumes "store_write db c = Inr db'"
  shows "i \<noteq> ms_id (fst (snd c)) \<Longrightarrow> find_stored db' i = find_stored db i"
    and "currentVersion db (ms_id (fst (snd c))) = fst (snd (snd c))"
    and "currentVersion db' (ms_id (fst (snd c))) = Some (case fst (snd (snd c)) of None \<Rightarrow> 1 | Some n \<Rightarrow> Suc n)"
proof -
  obtain owned m e ev where c: "c = (owned, m, e, ev)" by (cases c)
  note w = assms[unfolded c]
  show "i \<noteq> ms_id (fst (snd c)) \<Longrightarrow> find_stored db' i = find_stored db i" using write_version(3)[OF w] c by simp
  show "currentVersion db (ms_id (fst (snd c))) = fst (snd (snd c))"
    and "currentVersion db' (ms_id (fst (snd c))) = Some (case fst (snd (snd c)) of None \<Rightarrow> 1 | Some n \<Rightarrow> Suc n)"
    using write_version(1,2)[OF w] c by simp_all
qed

lemma unmoved_row:
  assumes "reachable_by store_write seen db" and "find_stored seen i = Some s"
  shows "\<exists>t. find_stored db i = Some t \<and> (t = s \<or> mr_version (st_row s) < mr_version (st_row t))"
  using assms
proof (induction rule: reachable_by.induct)
  case here
  then show ?case by auto
next
  case (further db c db')
  then obtain t where t: "find_stored db i = Some t" "t = s \<or> mr_version (st_row s) < mr_version (st_row t)" by blast
  show ?case
  proof (cases "i = ms_id (fst (snd c))")
    case False
    then show ?thesis using t write_other(1)[OF further.hyps(2) False] by simp
  next
    case True
    then have "fst (snd (snd c)) = Some (mr_version (st_row t))"
      using write_other(2)[OF further.hyps(2)] t(1) by (simp add: currentVersion_def)
    then have "currentVersion db' i = Some (Suc (mr_version (st_row t)))"
      using write_other(3)[OF further.hyps(2)] True by simp
    then show ?thesis using t(2) by (auto simp: currentVersion_def)
  qed
qed

section \<open>The history of a lane\<close>

definition mission_events :: "database \<Rightarrow> string \<Rightarrow> lane_row list" where
  "mission_events db ident = filter (\<lambda>row. bl_missionId row = ident) (lt_rows (db_events db))"

fun lane_after :: "string option \<Rightarrow> lane_row list \<Rightarrow> string option" where
  "lane_after lane [] = lane"
| "lane_after lane (e # es) = lane_after (Some (bl_toStatus e)) es"

fun lane_chain :: "string option \<Rightarrow> lane_row list \<Rightarrow> bool" where
  "lane_chain lane [] = True"
| "lane_chain lane (e # es) \<longleftrightarrow> bl_fromStatus e = lane \<and> lane_chain (Some (bl_toStatus e)) es"

definition lane_of :: "database \<Rightarrow> string \<Rightarrow> string option" where
  "lane_of db ident = map_option (\<lambda>s. mr_status (st_row s)) (find_stored db ident)"

text \<open>The events of a mission lead from nowhere to the lane it is in, each from where the one before
  ended; a mission that is not stored has none.\<close>

definition lanes_recorded :: "database \<Rightarrow> bool" where
  "lanes_recorded db \<longleftrightarrow> (\<forall>i. lane_chain None (mission_events db i) \<and> lane_after None (mission_events db i) = lane_of db i) \<and>
    (\<forall>row\<in>set (lt_rows (db_events db)). \<exists>lane. bl_toStatus row = status_text lane)"

lemma lane_after_append [simp]: "lane_after lane (es @ [e]) = Some (bl_toStatus e)"
  by (induction es arbitrary: lane) auto

lemma lane_chain_append [simp]:
  "lane_chain lane (es @ [e]) \<longleftrightarrow> lane_chain lane es \<and> bl_fromStatus e = lane_after lane es"
  by (induction es arbitrary: lane) auto

lemma lane_after_cases: "lane_after lane es = lane \<or> (\<exists>e\<in>set es. lane_after lane es = Some (bl_toStatus e))"
  by (induction es arbitrary: lane) auto

lemma recorded_lane:
  assumes "lanes_recorded db" and "find_stored db i = Some s"
  shows "\<exists>lane. mr_status (st_row s) = status_text lane"
proof -
  have "lane_after None (mission_events db i) = Some (mr_status (st_row s))"
    using assms by (simp add: lanes_recorded_def lane_of_def)
  then obtain e where "e \<in> set (mission_events db i)" "bl_toStatus e = mr_status (st_row s)"
    using lane_after_cases[of None "mission_events db i"] by auto
  then have "e \<in> set (lt_rows (db_events db))" by (simp add: mission_events_def)
  then obtain lane where "bl_toStatus e = status_text lane" using assms(1) unfolding lanes_recorded_def by blast
  then show ?thesis using \<open>bl_toStatus e = mr_status (st_row s)\<close> by auto
qed

lemma loaded_lane:
  assumes "lanes_recorded db" and "find_stored db i = Some s" and "load_stored nt s = Inr (m, v)"
  shows "mr_status (st_row s) = status_text (ms_status m)"
proof -
  obtain lane where lane: "mr_status (st_row s) = status_text lane" using recorded_lane[OF assms(1,2)] by blast
  have "ms_status m = lane"
    using assms(3) lane unfolding load_stored_def
    by (cases "criterionIdentityFrom (st_row s) (read_values (st_values s))")
      (auto simp: hydrateMission_def status_from_def require_def try_bind_Inr split: if_splits)
  then show ?thesis using lane by simp
qed

lemma persist_lane:
  assumes "persistAggregate owns db m e = Inr (v, db')"
  shows "lane_of db' i = (if i = ms_id m then Some (status_text (ms_status m)) else lane_of db i)"
    and "db_events db' = db_events db"
proof -
  obtain n c s a where n: "normalizeStoredMission m = Inr n" and s: "begin_save db n e c = Inr s"
    and db': "db' = put_stored db (ms_id m) (s\<lparr>st_row := (st_row s)\<lparr>mr_next_success_criterion_id := the (ms_nextSuccessCriterionId a)\<rparr>,
       st_values := insert_values a (st_values s), st_history := append_history a (st_history s),
       st_rounds := captureRounds a (append_history a (st_history s)) (st_rounds s)\<rparr>)"
    using assms by (rule persist_Inr)
  have fields: "ms_id n = ms_id m" "ms_status n = ms_status m" using n by (auto elim: normalize_Inr)
  have "mr_id (st_row s) = ms_id m" "mr_status (st_row s) = status_text (ms_status m)"
    using s fields by (auto elim!: begin_save_Inr simp: mission_row_of_def)
  then show "lane_of db' i = (if i = ms_id m then Some (status_text (ms_status m)) else lane_of db i)"
    by (simp add: lane_of_def db')
  show "db_events db' = db_events db" by (simp add: db')
qed

lemma save_keeps_lanes:
  assumes "lanes_recorded db" and "saveAggregate owns db m e = Inr (v, db')"
    and "lane_of db (ms_id m) = Some (status_text (ms_status m))"
  shows "lanes_recorded db'"
proof -
  note p = persist_lane[OF assms(2)[unfolded saveAggregate_def]]
  have "lane_of db' i = lane_of db i" for i using p(1)[of i] assms(3) by simp
  then show ?thesis using assms(1) by (simp add: lanes_recorded_def mission_events_def p(2))
qed

lemma event_keeps_lanes:
  assumes "lanes_recorded db" and "saveAggregateWithTransition owns db m e ev = Inr (v, db')"
    and "lane_of db (ms_id m) = map_option status_text (le_from ev)" and "le_to ev = ms_status m"
  shows "lanes_recorded db'"
proof -
  obtain saved events where saved: "persistAggregate owns db m e = Inr (v, saved)" "le_missionId ev = ms_id m"
    "append_event (db_events saved) (entry_of_event ev) = Inr (True, events)" "db' = saved\<lparr>db_events := events\<rparr>"
    using assms(2) by (auto simp: saveAggregateWithTransition_def try_bind_Inr map_error_Inr split: if_splits)
  note p = persist_lane[OF saved(1)]
  obtain row where row: "lt_rows events = lt_rows (db_events db) @ [row]" "bl_missionId row = ms_id m"
    "bl_fromStatus row = map_option status_text (le_from ev)" "bl_toStatus row = status_text (ms_status m)"
    using saved(2,3) assms(4)
    by (auto elim!: append_Inr simp: p(2) entry_of_event_def lane_entry.defs)
  have events: "mission_events db' i = mission_events db i @ (if i = ms_id m then [row] else [])" for i
    using row by (auto simp: mission_events_def saved(4))
  have lane: "lane_of db' i = (if i = ms_id m then Some (status_text (ms_status m)) else lane_of db i)" for i
    using p(1)[of i] by (simp add: lane_of_def saved(4) find_stored_def)
  show ?thesis
    unfolding lanes_recorded_def
  proof (intro conjI allI ballI)
    fix i
    show "lane_chain None (mission_events db' i)"
      using assms(1,3) row events by (auto simp: lanes_recorded_def)
    show "lane_after None (mission_events db' i) = lane_of db' i"
      using assms(1) row events lane by (auto simp: lanes_recorded_def)
  next
    fix r
    assume "r \<in> set (lt_rows (db_events db'))"
    then show "\<exists>lane. bl_toStatus r = status_text lane" using assms(1) row saved(4) by (auto simp: lanes_recorded_def)
  qed
qed

section \<open>A command against the state it reads\<close>

lemma load_command_Inr:
  assumes "loadForCommand nt seen request = Inr (m, v)"
  obtains s where "find_stored seen (cq_missionId request) = Some s" "load_stored nt s = Inr (m, v)"
    "ms_id m = cq_missionId request" "v = mr_version (st_row s)"
    "\<And>n. cq_expectedVersion request = Some n \<Longrightarrow> n = v"
proof -
  obtain s where s: "find_stored seen (cq_missionId request) = Some s" "load_stored nt s = Inr (m, v)"
    using assms by (auto simp: loadForCommand_def loadAggregate_def map_sum_Inr split: sum.splits option.splits if_splits)
  have "ms_id m = mr_id (st_row s) \<and> v = mr_version (st_row s)" using s(2) by (rule load_stored_fields)
  moreover have "mr_id (st_row s) = cq_missionId request" using stored_named_find[OF s(1)] by simp
  moreover have "n = v" if "cq_expectedVersion request = Some n" for n
    using assms that by (auto simp: loadForCommand_def split: sum.splits option.splits if_splits)
  ultimately show ?thesis using that s by simp
qed

text \<open>The lane a write finds is the lane the command read.\<close>

lemma written_lane:
  assumes "lanes_recorded db" and "reachable_by store_write seen db"
    and "find_stored seen (ms_id m) = Some s" and "load_stored nt s = Inr (loaded, v)" and "v = mr_version (st_row s)"
    and "persistAggregate owns db m (Some v) = Inr (v', saved)"
  shows "lane_of db (ms_id m) = Some (status_text (ms_status loaded))"
proof -
  have "currentVersion db (ms_id m) = Some v" using assms(6) by (rule persist_stored)
  then obtain t where t: "find_stored db (ms_id m) = Some t" "mr_version (st_row t) = v" by (auto simp: currentVersion_def)
  have "t = s" using unmoved_row[OF assms(2,3)] t assms(5) by auto
  then show ?thesis using loaded_lane[OF assms(1) t(1)] assms(4) t(1) by (simp add: lane_of_def)
qed

text \<open>A move that is already recorded under its key and is saved again without an event.\<close>

definition replayed_move :: "database \<Rightarrow> database \<Rightarrow> lane_event \<Rightarrow> bool" where
  "replayed_move db db' event \<longleftrightarrow> isReplayedLaneEvent (db_events db) event \<and> db_events db' = db_events db \<and>
     lane_of db (le_missionId event) = map_option status_text (le_from event) \<and>
     lane_of db' (le_missionId event) = Some (status_text (le_to event))"

lemma save_or_replay_Inr:
  assumes "save_or_replay owns db m v ev = Inr ((v', changed), db')"
  obtains (appended) "changed" "saveAggregateWithTransition owns db m (Some v) ev = Inr (v', db')"
    | (replayed) "\<not> changed" "saveAggregate owns db m (Some v) = Inr (v', db')" "isReplayedLaneEvent (db_events db) ev"
  using assms by (auto simp: save_or_replay_def split: sum.splits if_splits)

lemma transition_persists:
  "saveAggregateWithTransition owns db m e ev = Inr (v, db') \<Longrightarrow> \<exists>saved. persistAggregate owns db m e = Inr (v, saved)"
  by (auto simp: saveAggregateWithTransition_def try_bind_Inr split: if_splits)

lemma move_keeps_lanes:
  assumes "lanes_recorded db" and "reachable_by store_write seen db"
    and "find_stored seen (ms_id m) = Some s" and "load_stored nt s = Inr (loaded, v)" and "v = mr_version (st_row s)"
    and "save_or_replay owns db m v ev = Inr ((v', changed), db')"
    and "le_missionId ev = ms_id m" and "le_from ev = Some (ms_status loaded)" and "le_to ev = ms_status m"
  shows "if changed then lanes_recorded db' else replayed_move db db' ev"
  using assms(6)
proof (cases rule: save_or_replay_Inr)
  case appended
  obtain saved where "persistAggregate owns db m (Some v) = Inr (v', saved)" using transition_persists appended(2) by blast
  from written_lane[OF assms(1-5) this] have "lane_of db (ms_id m) = map_option status_text (le_from ev)"
    using assms(8) by simp
  then show ?thesis using event_keeps_lanes[OF assms(1) appended(2) _ assms(9)] appended(1) by simp
next
  case replayed
  note saved = replayed(2)[unfolded saveAggregate_def]
  show ?thesis using replayed written_lane[OF assms(1-5) saved] persist_lane[OF saved] assms(7-9)
    by (simp add: replayed_move_def)
qed

lemma quiet_save_keeps_lanes:
  assumes "lanes_recorded db" and "reachable_by store_write seen db"
    and "find_stored seen (ms_id m) = Some s" and "load_stored nt s = Inr (loaded, v)" and "v = mr_version (st_row s)"
    and "saveAggregate owns db m (Some v) = Inr (v', db')" and "ms_status m = ms_status loaded"
  shows "lanes_recorded db'"
  using save_keeps_lanes[OF assms(1,6)] written_lane[OF assms(1-5) assms(6)[unfolded saveAggregate_def]] assms(7) by simp

lemma first_event_keeps_lanes:
  assumes "lanes_recorded db" and "saveAggregateWithTransition owns db m None ev = Inr (v, db')"
    and "le_from ev = None" and "le_to ev = ms_status m"
  shows "lanes_recorded db'"
proof -
  obtain saved where "persistAggregate owns db m None = Inr (v, saved)" using transition_persists assms(2) by blast
  then have "currentVersion db (ms_id m) = None" by (rule persist_stored)
  then have "lane_of db (ms_id m) = map_option status_text (le_from ev)"
    using assms(3) by (auto simp: currentVersion_def lane_of_def)
  then show ?thesis using event_keeps_lanes[OF assms(1,2) _ assms(4)] by simp
qed

section \<open>The commands of every caller\<close>

datatype service_call =
    Call_intake string intake_request
  | Call_transition transition_request
  | Call_integrate string integrate_request
  | Call_close close_request
  | Call_assign command_request "agent_family option"
  | Call_recover recovery_input
  | Call_cancel bool nat string

fun run_service :: "(jsnum \<Rightarrow> string) \<Rightarrow> (string \<Rightarrow> bool) \<Rightarrow> database \<Rightarrow> database \<Rightarrow> service_call \<Rightarrow> database" where
  "run_service nt owns seen db (Call_intake now request) = snd (intake nt owns now seen db request)"
| "run_service nt owns seen db (Call_transition request) = snd (transition nt owns seen db request)"
| "run_service nt owns seen db (Call_integrate now request) = snd (decideIntegration nt owns now seen db request)"
| "run_service nt owns seen db (Call_close request) = snd (close_mission nt owns seen db request)"
| "run_service nt owns seen db (Call_assign request assignee) = snd (set_assignment nt owns seen db request assignee)"
| "run_service nt owns seen db (Call_recover input) = snd (recoverMissionLifecycle nt owns seen db input)"
| "run_service nt owns seen db (Call_cancel foreign_keys violations ident) =
     (case cancelAggregate foreign_keys violations db ident of Inl _ \<Rightarrow> db | Inr db' \<Rightarrow> db')"

text \<open>What a command wrote it wrote for the mission it loaded.\<close>

lemma never_success [simp]:
  "failure kind \<noteq> Success x" "rejected kind \<noteq> Success x" "decisionFailure \<noteq> Success x" "writeFailure e \<noteq> Success x"
  by (simp_all add: failure_def rejected_def decisionFailure_def writeFailure_def)

lemma loading_never_success [simp]: "loadForCommand nt seen request \<noteq> Inl (Success x)"
  by (auto simp: loadForCommand_def split: sum.splits option.splits)

lemma guarding_never_success [simp]: "missingCapability request capability \<noteq> Some (Success x)"
  by (simp add: missingCapability_def)

lemma permitted_Success: "permitted request capability db k = (Success x, db') \<Longrightarrow>
    k = (Success x, db') \<and> missingCapability request capability = (None :: 'b outcome option)"
  by (auto simp: permitted_def missingCapability_def split: option.splits if_splits)

lemma with_loaded_Success: "with_loaded nt seen db request k = (Success x, db') \<Longrightarrow>
    \<exists>m v. loadForCommand nt seen request = (Inr (m, v) :: 'b outcome + mission \<times> nat) \<and> k m v = (Success x, db')"
  by (auto simp: with_loaded_def loadForCommand_def split: sum.splits option.splits if_splits)

text \<open>What a transition that wrote did.\<close>

lemma transition_Success:
  assumes "transition nt owns seen db request = (Success r, db')"
  obtains s m v decided v' where "find_stored seen (ms_id decided) = Some s" "load_stored nt s = Inr (m, v)" "v = mr_version (st_row s)"
    "ms_id decided = cq_missionId (tq_request request)" "\<And>n. cq_expectedVersion (tq_request request) = Some n \<Longrightarrow> n = v"
    "decideMission m (tq_command request) = Inr decided" "r = transition_of m decided v' (tn_laneChanged r)"
    "(ms_status decided = ms_status m \<and> \<not> tn_laneChanged r \<and> saveAggregate owns db decided (Some v) = Inr (v', db')) \<or>
     (ms_status decided \<noteq> ms_status m \<and> (\<exists>ev. laneEvent decided (ms_status m) request = Some ev \<and>
       save_or_replay owns db decided v ev = Inr ((v', tn_laneChanged r), db')))"
proof -
  obtain m v decided where l: "loadForCommand nt seen (tq_request request) = (Inr (m, v) :: unit outcome + mission \<times> nat)"
    and d: "decideMission m (tq_command request) = Inr decided"
    and w: "write_transition owns db request m v decided = (Success r, db')"
    using assms by (auto simp: transition_def split: if_splits sum.splits dest!: permitted_Success with_loaded_Success)
  obtain s where s: "find_stored seen (cq_missionId (tq_request request)) = Some s" "load_stored nt s = Inr (m, v)"
    "ms_id m = cq_missionId (tq_request request)" "v = mr_version (st_row s)" "\<And>n. cq_expectedVersion (tq_request request) = Some n \<Longrightarrow> n = v"
    using l by (rule load_command_Inr) blast
  have id: "ms_id decided = cq_missionId (tq_request request)" using decide_moves[OF d] s(3) by (simp add: moves_lane_def)
  have event: "laneEvent decided (ms_status m) request = None \<longleftrightarrow> ms_status decided = ms_status m"
    using decide_moves[OF d] move_has_trigger[of "ms_status m" "ms_status decided"]
    by (auto simp: laneEvent_def moves_lane_def split: option.splits)
  show ?thesis
  proof (cases "laneEvent decided (ms_status m) request")
    case None
    then obtain v' where "saveAggregate owns db decided (Some v) = Inr (v', db')" "r = transition_of m decided v' False"
      using w by (auto simp: write_transition_def split: sum.splits)
    then show ?thesis using that[OF s(1)[folded id] s(2,4) id s(5) d, of v'] None event by (simp add: transition_of_def)
  next
    case (Some ev)
    then obtain v' changed where "save_or_replay owns db decided v ev = Inr ((v', changed), db')" "r = transition_of m decided v' changed"
      using w by (auto simp: write_transition_def split: sum.splits)
    then show ?thesis using that[OF s(1)[folded id] s(2,4) id s(5) d, of v'] Some event by (simp add: transition_of_def)
  qed
qed

text \<open>What ends in an error wrote nothing.\<close>

lemma permitted_Failure: "permitted request capability db k = (Failure status kind, db') \<Longrightarrow> db' = db \<or> k = (Failure status kind, db')"
  by (auto simp: permitted_def split: option.splits)

lemma with_loaded_Failure: "with_loaded nt seen db request k = (Failure status kind, db') \<Longrightarrow>
    db' = db \<or> (\<exists>m v. k m v = (Failure status kind, db'))"
  by (auto simp: with_loaded_def split: sum.splits)

lemma write_transition_Failure: "write_transition owns db request m v decided = (Failure status kind, db') \<Longrightarrow> db' = db"
  by (auto simp: write_transition_def split: sum.splits option.splits)

lemma transition_failure: "transition nt owns seen db request = (Failure status kind, db') \<Longrightarrow> db' = db"
  by (auto simp: transition_def split: if_splits sum.splits dest!: permitted_Failure with_loaded_Failure write_transition_Failure)

lemma intake_Success:
  assumes "intake nt owns now seen db request = (out, db')"
  obtains (refused) "db' = db" "\<And>x. out \<noteq> Success x"
    | (taken) m ev v where "saveAggregateWithTransition owns db m None ev = Inr (v, db')" "out = Success (m, v)"
      "le_from ev = None" "le_to ev = ms_status m" "ms_status m = Backlog"
proof (cases "try_bind (intakeMission (iq_mission request)) (withPlanning request)")
  case (Inr m)
  then obtain taken where "intakeMission (iq_mission request) = Inr taken" "withPlanning request taken = Inr m"
    by (auto simp: try_bind_Inr)
  then have "ms_status m = Backlog"
    using intake_mission_ok[of "iq_mission request" taken] by (auto simp: withPlanning_def try_bind_Inr)
  then show ?thesis using assms Inr refused taken
    by (auto simp: intake_def Let_def lifecycleLaneEvent_def rejected_def failure_def decisionFailure_def writeFailure_def readExisting_def
        split: if_splits option.splits sum.splits)
qed (use assms refused in \<open>auto simp: intake_def rejected_def decisionFailure_def failure_def split: if_splits\<close>)

lemma close_status: "closeMission m t = Inr m' \<Longrightarrow> ms_status m' = ms_status m \<and> ms_id m' = ms_id m"
  by (auto simp: closeMission_def split: if_splits sum.splits)

lemma recovery_plan_Inr: "recovery_plan seen input m = Inr m' \<Longrightarrow> ms_id m' = ms_id m \<and> ms_status m' = Active"
  by (auto simp: recovery_plan_def split: if_splits)

lemma cancel_keeps_lanes:
  assumes "lanes_recorded db" and "cancelAggregate fk broken db i = Inr db'"
  shows "lanes_recorded db'"
proof -
  have kept: "db' = db\<lparr>db_missions := filter (\<lambda>s. \<not> stored_named i s) (db_missions db),
        db_events := (db_events db)\<lparr>lt_rows := filter (\<lambda>e. bl_missionId e \<noteq> i) (lt_rows (db_events db))\<rparr>\<rparr>"
    using assms(2) by (auto simp: cancelAggregate_def split: if_splits)
  have "mission_events db' j = (if j = i then [] else mission_events db j)" for j
    by (auto simp: mission_events_def kept intro: filter_cong)
  moreover have "lane_of db' j = (if j = i then None else lane_of db j)" for j
    using find_cancelled[OF assms(2), of j] by (simp add: lane_of_def)
  ultimately show ?thesis using assms(1) by (auto simp: lanes_recorded_def kept)
qed

lemma transition_keeps_lanes:
  assumes "lanes_recorded db" and "reachable_by store_write seen db" and "transition nt owns seen db request = (out, db')"
  shows "lanes_recorded db' \<or> (\<exists>ev. replayed_move db db' ev)"
proof (cases out)
  case (Failure status kind)
  then show ?thesis using transition_failure assms(1,3) by blast
next
  case (Success r)
  with assms(3) have "transition nt owns seen db request = (Success r, db')" by simp
  then show ?thesis
  proof (cases rule: transition_Success)
    case (1 s m v decided v')
    note move = move_keeps_lanes[OF assms(1,2) 1(1-3)] and quiet = quiet_save_keeps_lanes[OF assms(1,2) 1(1-3)]
    from 1(8) show ?thesis
    proof
      assume "ms_status decided = ms_status m \<and> \<not> tn_laneChanged r \<and> saveAggregate owns db decided (Some v) = Inr (v', db')"
      then show ?thesis using quiet by blast
    next
      assume "ms_status decided \<noteq> ms_status m \<and> (\<exists>ev. laneEvent decided (ms_status m) request = Some ev \<and>
         save_or_replay owns db decided v ev = Inr ((v', tn_laneChanged r), db'))"
      then obtain ev where ev: "laneEvent decided (ms_status m) request = Some ev"
        "save_or_replay owns db decided v ev = Inr ((v', tn_laneChanged r), db')" by blast
      have "le_missionId ev = ms_id decided" "le_from ev = Some (ms_status m)" "le_to ev = ms_status decided"
        using ev(1) by (auto simp: laneEvent_def split: if_splits option.splits)
      from move[OF ev(2) this] show ?thesis by (auto split: if_splits)
    qed
  qed
qed

text \<open>The other commands keep the history of lanes, or repeat a recorded move.\<close>

lemma call_result: "\<exists>out. f = (out, snd f)"
  by (cases f) simp

lemma intake_keeps_lanes:
  assumes "lanes_recorded db"
  shows "lanes_recorded (snd (intake nt owns now seen db request))"
proof -
  obtain out db' where i: "intake nt owns now seen db request = (out, db')" by (cases "intake nt owns now seen db request")
  then show ?thesis
  proof (cases rule: intake_Success)
    case (taken m ev v)
    then show ?thesis using first_event_keeps_lanes[OF assms taken(1,3,4)] i by simp
  qed (use assms i in simp)
qed

lemma integrate_keeps_lanes:
  assumes "lanes_recorded db" and "reachable_by store_write seen db" and "decideIntegration nt owns now seen db request = (out, db')"
  shows "lanes_recorded db' \<or> (\<exists>ev. replayed_move db db' ev)"
proof (cases out)
  case (Failure status kind)
  then have "db' = db" using assms(3)
    by (auto simp: decideIntegration_def split: if_splits sum.splits dest!: permitted_Failure with_loaded_Failure)
  then show ?thesis using assms(1) by simp
next
  case (Success r)
  then obtain m v decided v' changed where
    l: "loadForCommand nt seen (gq_request request) = (Inr (m, v) :: unit outcome + mission \<times> nat)"
    and d: "decideMission m Integrate = Inr decided"
    and w: "save_or_replay owns db decided v (integration_event now request m decided) = Inr ((v', changed), db')"
    using assms(3) by (auto simp: decideIntegration_def split: if_splits sum.splits dest!: permitted_Success with_loaded_Success)
  obtain s where s: "find_stored seen (cq_missionId (gq_request request)) = Some s" "load_stored nt s = Inr (m, v)"
    "ms_id m = cq_missionId (gq_request request)" "v = mr_version (st_row s)"
    using l by (rule load_command_Inr) blast
  have "ms_id decided = ms_id m" using decide_moves[OF d] by (simp add: moves_lane_def)
  then have s1: "find_stored seen (ms_id decided) = Some s" using s by simp
  have "if changed then lanes_recorded db' else replayed_move db db' (integration_event now request m decided)"
    by (rule move_keeps_lanes[OF assms(1,2) s1 s(2,4) w]) (simp_all add: integration_event_def lifecycleLaneEvent_def)
  then show ?thesis by (auto split: if_splits)
qed

lemma close_keeps_lanes:
  assumes "lanes_recorded db" and "reachable_by store_write seen db" and "close_mission nt owns seen db request = (out, db')"
  shows "lanes_recorded db'"
proof (cases out)
  case (Failure status kind)
  then have "db' = db" using assms(3)
    by (auto simp: close_mission_def split: if_splits sum.splits dest!: permitted_Failure with_loaded_Failure)
  then show ?thesis using assms(1) by simp
next
  case (Success r)
  then obtain m v closed v' where
    l: "loadForCommand nt seen (kq_request request) = (Inr (m, v) :: unit outcome + mission \<times> nat)"
    and d: "closeMission m (kq_closedAt request) = Inr closed" and w: "saveAggregate owns db closed (Some v) = Inr (v', db')"
    using assms(3) by (auto simp: close_mission_def split: if_splits sum.splits dest!: permitted_Success with_loaded_Success)
  obtain s where s: "find_stored seen (cq_missionId (kq_request request)) = Some s" "load_stored nt s = Inr (m, v)"
    "ms_id m = cq_missionId (kq_request request)" "v = mr_version (st_row s)"
    using l by (rule load_command_Inr) blast
  have "find_stored seen (ms_id closed) = Some s" "ms_status closed = ms_status m" using s close_status[OF d] by simp_all
  then show ?thesis using quiet_save_keeps_lanes[OF assms(1,2) _ s(2,4) w] by simp
qed

lemma assign_keeps_lanes:
  assumes "lanes_recorded db" and "reachable_by store_write seen db" and "set_assignment nt owns seen db request a = (out, db')"
  shows "lanes_recorded db'"
proof (cases out)
  case (Failure status kind)
  then have "db' = db" using assms(3)
    by (auto simp: set_assignment_def split: sum.splits dest!: permitted_Failure with_loaded_Failure)
  then show ?thesis using assms(1) by simp
next
  case (Success r)
  then obtain m v v' where
    l: "loadForCommand nt seen request = (Inr (m, v) :: unit outcome + mission \<times> nat)"
    and w: "saveAggregate owns db (m\<lparr>ms_assignee := a\<rparr>) (Some v) = Inr (v', db')"
    using assms(3) by (auto simp: set_assignment_def split: sum.splits dest!: permitted_Success with_loaded_Success)
  obtain s where s: "find_stored seen (cq_missionId request) = Some s" "load_stored nt s = Inr (m, v)"
    "ms_id m = cq_missionId request" "v = mr_version (st_row s)"
    using l by (rule load_command_Inr) blast
  then show ?thesis using quiet_save_keeps_lanes[OF assms(1,2) _ s(2,4) w] by simp
qed

lemma recover_landed_keeps_lanes:
  assumes "lanes_recorded db"
  shows "lanes_recorded (snd (recoverLandedMission nt owns db input status))"
proof -
  have "lanes_recorded db'" if "saveAggregateWithTransition owns db m None (recovery_event input m None t) = Inr (v, db')" for m t v db'
    using that by (rule first_event_keeps_lanes[OF assms]) (simp_all add: recovery_event_def lifecycleLaneEvent_def)
  then show ?thesis using assms by (auto simp: recoverLandedMission_def split: option.split sum.split)
qed

lemma recover_keeps_lanes:
  assumes "lanes_recorded db" and "reachable_by store_write seen db"
  shows "lanes_recorded (snd (recoverMissionLifecycle nt owns seen db input))"
proof (cases "loadAggregate nt seen (rc_missionId input)")
  case (Inl e)
  then show ?thesis using assms(1) by (simp add: recoverMissionLifecycle_def)
next
  case (Inr found)
  show ?thesis
  proof (cases found)
    case None
    then show ?thesis using Inr recover_landed_keeps_lanes[OF assms(1)] by (simp add: recoverMissionLifecycle_def)
  next
    case (Some loaded)
    obtain m v where m: "loaded = (m, v)" by (cases loaded)
    obtain s where s: "find_stored seen (rc_missionId input) = Some s" "load_stored nt s = Inr (m, v)"
      using Inr Some m by (auto simp: loadAggregate_def map_sum_Inr split: option.splits)
    have f: "ms_id m = rc_missionId input" "v = mr_version (st_row s)"
      using load_stored_fields[OF s(2)] stored_named_find[OF s(1)] by simp_all
    show ?thesis
    proof (cases "recovery_plan seen input m")
      case (Inl action)
      then show ?thesis using Inr Some m assms(1) by (simp add: recoverMissionLifecycle_def)
    next
      case (Inr recovered)
      note plan = recovery_plan_Inr[OF Inr]
      let ?ev = "recovery_event input recovered (Some (ms_status m)) ''recover-active''"
      have "lanes_recorded db'" if "saveAggregateWithTransition owns db recovered (Some v) ?ev = Inr (v', db')" for v' db'
      proof -
        have "save_or_replay owns db recovered v ?ev = Inr ((v', True), db')" using that by (simp add: save_or_replay_def)
        from move_keeps_lanes[OF assms _ s(2) f(2) this] show ?thesis
          using s(1) f(1) plan by (simp add: recovery_event_def lifecycleLaneEvent_def)
      qed
      then have "lanes_recorded (snd (recover_active owns db input t m v recovered))" for t
        using assms(1) by (auto simp: recover_active_def split: sum.split)
      then show ?thesis using Inr Some m \<open>loadAggregate nt seen (rc_missionId input) = Inr found\<close>
        by (simp add: recoverMissionLifecycle_def Let_def)
    qed
  qed
qed

section \<open>What a write leaves\<close>

lemma saved_versions:
  assumes "persistAggregate owns db m (Some v) = Inr (v', db')"
  shows "currentVersion db (ms_id m) = Some v \<and> currentVersion db' (ms_id m) = Some (Suc v) \<and> v' = Suc v \<and> db_events db' = db_events db"
  using assms by (elim persist_stored) (simp add: currentVersion_def)

lemma appended_event:
  assumes "saveAggregateWithTransition owns db m (Some v) ev = Inr (v', db')"
  shows "currentVersion db (ms_id m) = Some v \<and> currentVersion db' (ms_id m) = Some (Suc v) \<and> v' = Suc v \<and>
    (\<exists>row. lt_rows (db_events db') = lt_rows (db_events db) @ [row] \<and> bl_missionId row = ms_id m \<and>
      bl_fromStatus row = map_option status_text (le_from ev) \<and> bl_toStatus row = status_text (le_to ev) \<and>
      bl_trigger row = le_trigger ev \<and> bl_agent row = le_agent ev)"
proof -
  obtain saved events where saved: "persistAggregate owns db m (Some v) = Inr (v', saved)" "le_missionId ev = ms_id m"
    "append_event (db_events saved) (entry_of_event ev) = Inr (True, events)" "db' = saved\<lparr>db_events := events\<rparr>"
    using assms by (auto simp: saveAggregateWithTransition_def try_bind_Inr map_error_Inr split: if_splits)
  note versions = saved_versions[OF saved(1)]
  have "\<exists>row. lt_rows events = lt_rows (db_events db) @ [row] \<and> bl_missionId row = ms_id m \<and>
      bl_fromStatus row = map_option status_text (le_from ev) \<and> bl_toStatus row = status_text (le_to ev) \<and>
      bl_trigger row = le_trigger ev \<and> bl_agent row = le_agent ev"
    using saved(2,3) versions by (auto elim!: append_Inr simp: entry_of_event_def lane_entry.defs)
  then show ?thesis using versions saved(4) by (simp add: currentVersion_def find_stored_def)
qed

text \<open>What the database holds after the decided mission was written, with or without an event.\<close>

lemma stored_decision:
  assumes saved: "persistAggregate owns db decided (Some v) = Inr (v', saved)" and rows: "db_missions db' = db_missions saved"
  shows "lane_of db' (ms_id decided) = Some (status_text (ms_status decided)) \<and>
    (mission_parts_ok decided \<and> safe_integer (int (Suc v)) \<longrightarrow> (\<exists>rec. recorded_mission db decided (Some v) = Inr rec \<and>
      loadAggregate nt db' (ms_id decided) = Inr (Some (kept_mission rec, Suc v))))"
proof -
  have same: "find_stored db' i = find_stored saved i" for i using rows by (simp add: find_stored_def)
  have "v' = Suc v" using saved_versions[OF saved] by simp
  then show ?thesis
    using persist_lane(1)[OF saved, of "ms_id decided"] saved_mission_loads[OF saved, of nt]
    by (auto simp: lane_of_def loadAggregate_def same)
qed

lemma transition_rows:
  assumes "saveAggregateWithTransition owns db m e ev = Inr (v, db')"
  obtains saved where "persistAggregate owns db m e = Inr (v, saved)" "db_missions db' = db_missions saved"
  using assms by (auto simp: saveAggregateWithTransition_def try_bind_Inr split: if_splits)

lemma replayed_iff: "isReplayedLaneEvent events ev \<longleftrightarrow> (\<exists>row\<in>set (lt_rows events). bl_missionId row = le_missionId ev \<and>
    bl_idempotencyKey row = le_idempotencyKey ev \<and> bl_trigger row = le_trigger ev \<and>
    bl_fromStatus row = map_option status_text (le_from ev) \<and> bl_toStatus row = status_text (le_to ev))"
  by (auto simp: isReplayedLaneEvent_def findByMissionId_def list_ex_iff)

lemma laneEvent_fields: "laneEvent decided from request = Some ev \<Longrightarrow>
    le_missionId ev = ms_id decided \<and> le_from ev = Some from \<and> le_to ev = ms_status decided \<and>
    le_trigger ev = command_type (tq_command request) \<and> le_agent ev = tq_actor request"
  by (auto simp: laneEvent_def split: if_splits option.splits)

definition sample_transition :: transition_request where
  "sample_transition = \<lparr> tq_request = \<lparr> cq_operationId = ''op1'', cq_missionId = ''px-0001'',
       cq_capabilities = [''mission:transition''], cq_expectedVersion = Some 1 \<rparr>,
     tq_command = Begin_review_preparation, tq_actor = ''codex'', tq_occurredAt = ''2026-01-02T00:00:00.000Z'',
     tq_idempotencyKey = None \<rparr>"

section \<open>Properties\<close>

text \<open>C14: The lane history of a mission is complete. If the events of every mission lead, each from where the
  one before ended, to the lane the mission is in, they do so after any command of any caller, whatever
  other processes wrote between its read and its write; the one exception is the repetition of a move that
  is already recorded under its key, which is saved without a second event.\<close>

theorem lane_history_is_complete:
  assumes "lanes_recorded db" and "reachable_by store_write seen db" and "db' = run_service nt owns seen db call"
  shows "lanes_recorded db' \<or> (\<exists>ev. replayed_move db db' ev)"
proof (cases call)
  case (Call_intake now request)
  then show ?thesis using assms intake_keeps_lanes by auto
next
  case (Call_transition request)
  obtain out where "transition nt owns seen db request = (out, db')"
    using Call_transition assms(3) by (cases "transition nt owns seen db request") simp
  then show ?thesis by (rule transition_keeps_lanes[OF assms(1,2)])
next
  case (Call_integrate now request)
  obtain out where "decideIntegration nt owns now seen db request = (out, db')"
    using Call_integrate assms(3) by (cases "decideIntegration nt owns now seen db request") simp
  then show ?thesis by (rule integrate_keeps_lanes[OF assms(1,2)])
next
  case (Call_close request)
  obtain out where "close_mission nt owns seen db request = (out, db')"
    using Call_close assms(3) by (cases "close_mission nt owns seen db request") simp
  then show ?thesis using close_keeps_lanes[OF assms(1,2)] by blast
next
  case (Call_assign request a)
  obtain out where "set_assignment nt owns seen db request a = (out, db')"
    using Call_assign assms(3) by (cases "set_assignment nt owns seen db request a") simp
  then show ?thesis using assign_keeps_lanes[OF assms(1,2)] by blast
next
  case (Call_recover input)
  then show ?thesis using assms recover_keeps_lanes by simp
next
  case (Call_cancel fk broken i)
  then show ?thesis using assms cancel_keeps_lanes by (auto split: sum.splits)
qed

theorem lane_history_is_complete_witness:
  "\<exists>v db. saveAggregateWithTransition (\<lambda>_. True) empty_database sample_saved None sample_event = Inr (v, db) \<and>
    (lanes_recorded (run_service (\<lambda>_. []) (\<lambda>_. True) db db (Call_transition sample_transition)) \<or>
     (\<exists>ev. replayed_move db (run_service (\<lambda>_. []) (\<lambda>_. True) db db (Call_transition sample_transition)) ev))"
proof -
  obtain v db where s: "saveAggregateWithTransition (\<lambda>_. True) empty_database sample_saved None sample_event = Inr (v, db)"
    using sample_saved_ok(2) by blast
  have "lanes_recorded empty_database"
    by (simp add: lanes_recorded_def empty_database_def mission_events_def lane_of_def find_stored_def)
  then have "lanes_recorded db"
    using s by (rule first_event_keeps_lanes) (simp_all add: sample_event_def lifecycleLaneEvent_def)
  from lane_history_is_complete[OF this here refl] s show ?thesis by blast
qed

text \<open>C15: A transition either fails and writes nothing, or it has decided on the mission at the version the
  caller named and stored the decision as the next version: the mission is stored in the lane decided on, and, its
  parts being well formed, a load returns the mission the save of the decision recorded, at that version. The move of
  the lane is recorded as one event with the command and the actor when the lane moved; there is none when it
  stayed, and none when the move is already recorded under its key.\<close>

theorem transition_is_recorded:
  assumes "transition nt owns seen db request = (out, db')"
  shows "case out of
      Failure status kind \<Rightarrow> db' = db
    | Success r \<Rightarrow> \<exists>m v. loadAggregate nt seen (cq_missionId (tq_request request)) = Inr (Some (m, v)) \<and>
        decideMission m (tq_command request) = Inr (tn_mission r) \<and> ms_id (tn_mission r) = ms_id m \<and>
        tn_from r = ms_status m \<and> tn_to r = ms_status (tn_mission r) \<and>
        (\<forall>n. cq_expectedVersion (tq_request request) = Some n \<longrightarrow> n = v) \<and>
        currentVersion db (ms_id m) = Some v \<and> currentVersion db' (ms_id m) = Some (Suc v) \<and> tn_version r = Suc v \<and>
        lane_of db' (ms_id m) = Some (status_text (tn_to r)) \<and>
        (mission_parts_ok (tn_mission r) \<and> safe_integer (int (Suc v)) \<longrightarrow>
          (\<exists>rec. recorded_mission db (tn_mission r) (Some v) = Inr rec \<and>
            loadAggregate nt db' (ms_id m) = Inr (Some (kept_mission rec, Suc v)))) \<and>
        (if tn_laneChanged r
         then tn_from r \<noteq> tn_to r \<and> (\<exists>row. lt_rows (db_events db') = lt_rows (db_events db) @ [row] \<and> bl_missionId row = ms_id m \<and>
           bl_fromStatus row = Some (status_text (tn_from r)) \<and> bl_toStatus row = status_text (tn_to r) \<and>
           bl_trigger row = command_type (tq_command request) \<and> bl_agent row = tq_actor request)
         else db_events db' = db_events db \<and> (tn_from r = tn_to r \<or>
           (\<exists>row\<in>set (lt_rows (db_events db)). bl_missionId row = ms_id m \<and> bl_fromStatus row = Some (status_text (tn_from r)) \<and>
             bl_toStatus row = status_text (tn_to r) \<and> bl_trigger row = command_type (tq_command request))))"
proof (cases out)
  case (Failure status kind)
  then show ?thesis using assms transition_failure by auto
next
  case (Success r)
  with assms have "transition nt owns seen db request = (Success r, db')" by simp
  then show ?thesis
  proof (cases rule: transition_Success)
    case (1 s m v decided v')
    have id: "ms_id decided = ms_id m" using decide_moves[OF 1(6)] by (simp add: moves_lane_def)
    have load: "loadAggregate nt seen (cq_missionId (tq_request request)) = Inr (Some (m, v))"
      using 1(1,2,4) by (simp add: loadAggregate_def)
    have r: "tn_mission r = decided" "tn_from r = ms_status m" "tn_to r = ms_status decided" "tn_version r = v'"
      using arg_cong[OF 1(7), of tn_mission] arg_cong[OF 1(7), of tn_from] arg_cong[OF 1(7), of tn_to]
        arg_cong[OF 1(7), of tn_version] by (simp_all add: transition_of_def)
    have version: "\<forall>n. cq_expectedVersion (tq_request request) = Some n \<longrightarrow> n = v" using 1(5) by blast
    from 1(8) show ?thesis
    proof
      assume "ms_status decided = ms_status m \<and> \<not> tn_laneChanged r \<and> saveAggregate owns db decided (Some v) = Inr (v', db')"
      then show ?thesis
        using Success load 1(6) r id version saved_versions[of owns db decided v v' db'] stored_decision[of owns db decided v v' db' db' nt]
        by (simp add: saveAggregate_def)
    next
      assume "ms_status decided \<noteq> ms_status m \<and> (\<exists>ev. laneEvent decided (ms_status m) request = Some ev \<and>
         save_or_replay owns db decided v ev = Inr ((v', tn_laneChanged r), db'))"
      then obtain ev where moved: "ms_status decided \<noteq> ms_status m" and ev: "laneEvent decided (ms_status m) request = Some ev"
        "save_or_replay owns db decided v ev = Inr ((v', tn_laneChanged r), db')" by blast
      note fields = laneEvent_fields[OF ev(1)]
      from ev(2) show ?thesis
      proof (cases rule: save_or_replay_Inr)
        case appended
        obtain saved where "persistAggregate owns db decided (Some v) = Inr (v', saved)" "db_missions db' = db_missions saved"
          using appended(2) by (rule transition_rows)
        note stored = stored_decision[OF this, of nt]
        from appended show ?thesis
          using Success load 1(6) r id version moved fields appended_event[OF appended(2)] stored by auto
      next
        case replayed
        then show ?thesis
          using Success load 1(6) r id version moved fields saved_versions[of owns db decided v v' db']
            stored_decision[of owns db decided v v' db' db' nt]
          by (auto simp: saveAggregate_def replayed_iff)
      qed
    qed
  qed
qed

definition sample_moved :: "transition_result outcome \<times> database \<Rightarrow> bool" where
  "sample_moved answer = (case answer of
     (Success r, db') \<Rightarrow> tn_laneChanged r \<and> tn_to r = In_review \<and> ms_assignee (tn_mission r) = Some ''claude''
   | _ \<Rightarrow> False)"

theorem transition_is_recorded_witness:
  "\<exists>db r db'. transition (\<lambda>_. []) (\<lambda>_. True) db db sample_transition = (Success r, db') \<and> tn_laneChanged r \<and> tn_version r = 2 \<and>
    lane_of db' ''px-0001'' = Some ''review'' \<and> length (lt_rows (db_events db')) = Suc (length (lt_rows (db_events db)))"
proof -
  have "case saveAggregate (\<lambda>_. True) empty_database (sample_saved\<lparr>ms_review := None, ms_checkpoints := []\<rparr>) None of
      Inl _ \<Rightarrow> False | Inr (w, db) \<Rightarrow> sample_moved (transition (\<lambda>_. []) (\<lambda>_. True) db db sample_transition)" by code_simp
  then obtain db where "sample_moved (transition (\<lambda>_. []) (\<lambda>_. True) db db sample_transition)"
    by (auto split: sum.splits)
  then obtain r db' where t: "transition (\<lambda>_. []) (\<lambda>_. True) db db sample_transition = (Success r, db')"
    and r: "tn_laneChanged r" "tn_to r = In_review"
    by (auto simp: sample_moved_def split: prod.splits outcome.splits)
  from transition_is_recorded[OF t] obtain m v where m: "loadAggregate (\<lambda>_. []) db ''px-0001'' = Inr (Some (m, v))"
    and v: "v = 1" "tn_version r = Suc v" "lane_of db' (ms_id m) = Some (status_text (tn_to r))"
    "length (lt_rows (db_events db')) = Suc (length (lt_rows (db_events db)))"
    using r by (clarsimp simp: sample_transition_def)
  have "ms_id m = ''px-0001''" using m
    by (auto simp: loadAggregate_def map_sum_Inr split: option.splits dest!: load_stored_fields stored_named_find)
  then have "tn_version r = 2" "lane_of db' ''px-0001'' = Some ''review''" using r v by simp_all
  with t r(1) v(4) show ?thesis by blast
qed

end
