(* ===== verification/MissionWrites.thy ===== *)
theory MissionWrites
  imports Commands
begin

text \<open>
  The commands that change what a mission says and not the lane it is in: \<open>mission-brief-service.ts\<close>,
  \<open>mission-authoring-service.ts\<close>, \<open>mission-edit-service.ts\<close>, \<open>mission-nel-service.ts\<close>, the planning and reading of
  checkpoints (\<open>mission-checkpoint-service.ts\<close>), \<open>mission-cancel-service.ts\<close> and \<open>mission-creation-service.ts\<close>.

  All of them read the mission, change fields of it and save it against the version they read;
  \<open>rewrite_mission\<close> is that shape. The launch context rendered for an agent is not modelled.
\<close>

section \<open>Reading, changing and saving a mission\<close>

text \<open>\<open>decide\<close> is what a command does with the mission it loaded: a refusal, or the changed mission and what it
  answers with the version the save announces.\<close>

type_synonym 'a decision = "'a outcome + mission \<times> (nat \<Rightarrow> 'a)"

definition save_rewritten ::
  "(string \<Rightarrow> bool) \<Rightarrow> database \<Rightarrow> mission \<Rightarrow> nat \<Rightarrow> (nat \<Rightarrow> 'a) \<Rightarrow> 'a outcome \<times> database" where
  "save_rewritten owns db changed version answer =
     (case saveAggregate owns db changed (Some version) of
        Inl e \<Rightarrow> (writeFailure e, db)
      | Inr (v, db') \<Rightarrow> (Success (answer v), db'))"

definition rewrite_mission ::
  "(jsnum \<Rightarrow> string) \<Rightarrow> (string \<Rightarrow> bool) \<Rightarrow> database \<Rightarrow> database \<Rightarrow> command_request \<Rightarrow>
    (mission \<Rightarrow> nat \<Rightarrow> 'a decision) \<Rightarrow> 'a outcome \<times> database" where
  "rewrite_mission nt owns seen db request decide =
     with_loaded nt seen db request (\<lambda>mission version.
       case decide mission version of
         Inl refusal \<Rightarrow> (refusal, db)
       | Inr (changed, answer) \<Rightarrow> save_rewritten owns db changed version answer)"

text \<open>A command that only reads.\<close>

definition read_mission ::
  "(jsnum \<Rightarrow> string) \<Rightarrow> database \<Rightarrow> command_request \<Rightarrow> string \<Rightarrow> (mission \<Rightarrow> nat \<Rightarrow> 'a outcome) \<Rightarrow> 'a outcome" where
  "read_mission nt seen request capability answer =
     (case missingCapability request capability of
        Some refusal \<Rightarrow> refusal
      | None \<Rightarrow> (case loadForCommand nt seen request of
            Inl refusal \<Rightarrow> refusal | Inr (mission, version) \<Rightarrow> answer mission version))"

section \<open>Brief and gates\<close>

text \<open>\<open>None\<close> is a field the patch leaves out.\<close>

record brief_patch =
  bp_goal :: "string option"
  bp_why :: "string option"
  bp_scope :: "string option option"
  bp_outOfScope :: "string list option"

definition merged_brief :: "mission_brief option \<Rightarrow> brief_patch \<Rightarrow> mission_brief" where
  "merged_brief current patch =
     (let base = default_to \<lparr> mb_goal = [], mb_why = [], mb_scope = None, mb_outOfScope = [] \<rparr> current in
      \<lparr> mb_goal = default_to (mb_goal base) (bp_goal patch), mb_why = default_to (mb_why base) (bp_why patch),
        mb_scope = default_to (mb_scope base) (bp_scope patch),
        mb_outOfScope = default_to (mb_outOfScope base) (bp_outOfScope patch) \<rparr>)"

definition decide_brief :: "brief_patch \<Rightarrow> mission \<Rightarrow> nat \<Rightarrow> (mission_brief \<times> nat) decision" where
  "decide_brief patch m v =
    (if ms_brief m = None \<and> (bp_goal patch = None \<or> bp_why patch = None) then Inl (failure Validation_error)
     else case missionBrief (merged_brief (ms_brief m) patch) of
         Inl _ \<Rightarrow> Inl (failure Validation_error)
       | Inr brief \<Rightarrow> Inr (m\<lparr>ms_brief := Some brief\<rparr>, \<lambda>v. (brief, v)))"

definition update_brief ::
  "(jsnum \<Rightarrow> string) \<Rightarrow> (string \<Rightarrow> bool) \<Rightarrow> database \<Rightarrow> database \<Rightarrow> command_request \<Rightarrow> brief_patch \<Rightarrow>
    (mission_brief \<times> nat) outcome \<times> database" where
  "update_brief nt owns seen db request patch =
     permitted request ''mission:context'' db
       (rewrite_mission nt owns seen db request (decide_brief patch))"

definition read_brief :: "(jsnum \<Rightarrow> string) \<Rightarrow> database \<Rightarrow> command_request \<Rightarrow> (mission_brief \<times> nat) outcome" where
  "read_brief nt seen request = read_mission nt seen request ''mission:context'' (\<lambda>m v.
     case ms_brief m of None \<Rightarrow> failure Unavailable_error | Some brief \<Rightarrow> Success (brief, v))"

definition decide_gates :: "string list \<Rightarrow> mission \<Rightarrow> nat \<Rightarrow> (string list \<times> nat) decision" where
  "decide_gates gates m v =
    (case declaredGates gates of
       Inl _ \<Rightarrow> Inl (failure Validation_error)
     | Inr declared \<Rightarrow> Inr (m\<lparr>ms_declaredGates := declared\<rparr>, \<lambda>v. (declared, v)))"

definition setGates ::
  "(jsnum \<Rightarrow> string) \<Rightarrow> (string \<Rightarrow> bool) \<Rightarrow> database \<Rightarrow> database \<Rightarrow> command_request \<Rightarrow> string list \<Rightarrow>
    (string list \<times> nat) outcome \<times> database" where
  "setGates nt owns seen db request gates =
     permitted request ''mission:context'' db
       (rewrite_mission nt owns seen db request (decide_gates gates))"

definition readGates :: "(jsnum \<Rightarrow> string) \<Rightarrow> database \<Rightarrow> command_request \<Rightarrow> (string list \<times> nat) outcome" where
  "readGates nt seen request = read_mission nt seen request ''mission:context'' (\<lambda>m v. Success (ms_declaredGates m, v))"

section \<open>Success criteria\<close>

text \<open>The identities are checked inside the \<open>try\<close> of the save: a refused identity is no
  \<open>MissionRuleViolation\<close> and is reported as a failed execution.\<close>

definition decide_criteria :: "string list \<Rightarrow> string option list option \<Rightarrow> mission \<Rightarrow> nat \<Rightarrow> (string list \<times> nat) decision" where
  "decide_criteria texts ids m v =
    (case successCriteria texts of
       Inl _ \<Rightarrow> Inl (failure Validation_error)
     | Inr criteria \<Rightarrow>
         (case replaceSuccessCriteria m criteria ids of
            Inl _ \<Rightarrow> Inl (failure Execution_error)
          | Inr changed \<Rightarrow> Inr (changed, \<lambda>v. (criteria, v))))"

definition setSuccessCriteria ::
  "(jsnum \<Rightarrow> string) \<Rightarrow> (string \<Rightarrow> bool) \<Rightarrow> database \<Rightarrow> database \<Rightarrow> command_request \<Rightarrow> string list \<Rightarrow>
    string option list option \<Rightarrow> (string list \<times> nat) outcome \<times> database" where
  "setSuccessCriteria nt owns seen db request texts ids =
     permitted request ''mission:context'' db
       (rewrite_mission nt owns seen db request (decide_criteria texts ids))"

definition readSuccessCriteria :: "(jsnum \<Rightarrow> string) \<Rightarrow> database \<Rightarrow> command_request \<Rightarrow> (string list \<times> nat) outcome" where
  "readSuccessCriteria nt seen request =
     read_mission nt seen request ''mission:context'' (\<lambda>m v. Success (ms_successCriteria m, v))"

text \<open>One criterion by its one-based number, or all (\<open>None\<close>).\<close>

definition marked_criteria :: "mission \<Rightarrow> jsnum option \<Rightarrow> nat list option" where
  "marked_criteria m criterion =
     (let criteria = ms_successCriteria m in
      if criteria = [] then None
      else if criterion \<noteq> None \<and> \<not> is_integer_num (the criterion) then None
      else let target = (case criterion of
            None \<Rightarrow> map (\<lambda>i. Num (of_nat i)) [0..<length criteria] | Some (Num q) \<Rightarrow> [Num (q - 1)] | Some _ \<Rightarrow> []) in
        (case completedCriteria (map (\<lambda>i. Num (of_nat i)) (ms_completedSuccessCriteria m) @ target) (length criteria) of
           Inl _ \<Rightarrow> None | Inr marked \<Rightarrow> Some marked))"

text \<open>The mark is saved and then appended to the operational history; \<open>appended\<close> tells whether that worked.\<close>

definition decide_marks :: "jsnum option \<Rightarrow> mission \<Rightarrow> nat \<Rightarrow> (nat list \<times> nat) decision" where
  "decide_marks criterion m v =
    (case marked_criteria m criterion of
       None \<Rightarrow> Inl (failure Validation_error)
     | Some marked \<Rightarrow> Inr (m\<lparr>ms_completedSuccessCriteria := marked\<rparr>, \<lambda>v. (marked, v)))"

definition markSuccessCriteriaComplete ::
  "(jsnum \<Rightarrow> string) \<Rightarrow> (string \<Rightarrow> bool) \<Rightarrow> database \<Rightarrow> database \<Rightarrow> command_request \<Rightarrow> jsnum option \<Rightarrow> bool \<Rightarrow>
    (nat list \<times> nat) outcome \<times> database" where
  "markSuccessCriteriaComplete nt owns seen db request criterion appended =
     (let (result, db') = permitted request ''mission:context'' db
        (rewrite_mission nt owns seen db request (decide_marks criterion)) in
      (case result of Success _ \<Rightarrow> if appended then result else failure Execution_error | _ \<Rightarrow> result, db'))"

section \<open>Dependencies\<close>

text \<open>The first dependency that is refused, read from the store: \<open>Inl\<close> when the read throws, else why it is refused.\<close>

fun refused_dependency ::
  "(jsnum \<Rightarrow> string) \<Rightarrow> database \<Rightarrow> (mission \<Rightarrow> bool) \<Rightarrow> string list \<Rightarrow> load_error + error_kind option" where
  "refused_dependency nt seen fits [] = Inr None"
| "refused_dependency nt seen fits (i # is) =
     (case loadAggregate nt seen i of
        Inl e \<Rightarrow> Inl e
      | Inr None \<Rightarrow> Inr (Some Validation_error)
      | Inr (Some (m, _)) \<Rightarrow> if fits m then refused_dependency nt seen fits is else Inr (Some Validation_error))"

text \<open>A read that throws is not caught here and leaves the command as an error (\<open>Inl\<close>).\<close>

definition setDependencies ::
  "(jsnum \<Rightarrow> string) \<Rightarrow> (string \<Rightarrow> bool) \<Rightarrow> database \<Rightarrow> database \<Rightarrow> command_request \<Rightarrow> string list \<Rightarrow>
    (load_error + (string list \<times> nat) outcome) \<times> database" where
  "setDependencies nt owns seen db request names =
     (case missingCapability request ''mission:context'' of
        Some refusal \<Rightarrow> (Inr refusal, db)
      | None \<Rightarrow>
          (case loadForCommand nt seen request of
             Inl refusal \<Rightarrow> (Inr refusal, db)
           | Inr (m, version) \<Rightarrow>
               (case missionDependencies names (cq_missionId request) of
                  Inl _ \<Rightarrow> (Inr (failure Validation_error), db)
                | Inr dependencies \<Rightarrow>
                    (case refused_dependency nt seen (\<lambda>_. True) dependencies of
                       Inl e \<Rightarrow> (Inl e, db)
                     | Inr (Some kind) \<Rightarrow> (Inr (failure kind), db)
                     | Inr None \<Rightarrow> map_prod Inr id
                         (save_rewritten owns db (m\<lparr>ms_dependencies := dependencies\<rparr>) version (\<lambda>v. (dependencies, v)))))))"

definition readDependencies :: "(jsnum \<Rightarrow> string) \<Rightarrow> database \<Rightarrow> command_request \<Rightarrow> (string list \<times> nat) outcome" where
  "readDependencies nt seen request =
     read_mission nt seen request ''mission:context'' (\<lambda>m v. Success (ms_dependencies m, v))"

section \<open>The other fields\<close>

text \<open>The request names a bucket as text.\<close>

definition bucket_of :: "string \<Rightarrow> nel_label option" where
  "bucket_of text = (if text = ''Small'' then Some Small else if text = ''Medium'' then Some Medium
     else if text = ''Large'' then Some Large else None)"

definition decide_bucket :: "string \<Rightarrow> mission \<Rightarrow> nat \<Rightarrow> (nel_label \<times> nat) decision" where
  "decide_bucket bucket m v =
    (case bucket_of bucket of
       None \<Rightarrow> Inl (failure Validation_error)
     | Some label \<Rightarrow> Inr (m\<lparr>ms_predictedNelBucket := Some label\<rparr>, \<lambda>v. (label, v)))"

definition setPredictedNelBucket ::
  "(jsnum \<Rightarrow> string) \<Rightarrow> (string \<Rightarrow> bool) \<Rightarrow> database \<Rightarrow> database \<Rightarrow> command_request \<Rightarrow> string \<Rightarrow>
    (nel_label \<times> nat) outcome \<times> database" where
  "setPredictedNelBucket nt owns seen db request bucket =
     permitted request ''mission:context'' db
       (rewrite_mission nt owns seen db request (decide_bucket bucket))"

definition decide_test :: "string option \<Rightarrow> mission \<Rightarrow> nat \<Rightarrow> (string option \<times> nat) decision" where
  "decide_test testPath m v =
    (let path = map_option trim testPath in
     if (case path of None \<Rightarrow> False | Some p \<Rightarrow> p = [] \<or> has_line_break p \<or> 512 < length p)
     then Inl (failure Validation_error)
     else Inr (m\<lparr>ms_reproductionTest := path\<rparr>, \<lambda>v. (path, v)))"

definition setReproductionTest ::
  "(jsnum \<Rightarrow> string) \<Rightarrow> (string \<Rightarrow> bool) \<Rightarrow> database \<Rightarrow> database \<Rightarrow> command_request \<Rightarrow> string option \<Rightarrow>
    (string option \<times> nat) outcome \<times> database" where
  "setReproductionTest nt owns seen db request testPath =
     permitted request ''mission:context'' db
       (rewrite_mission nt owns seen db request (decide_test testPath))"

text \<open>\<open>classificationLabels\<close> only refuses what is refused before.\<close>

definition decide_classification :: "string \<Rightarrow> mission \<Rightarrow> nat \<Rightarrow> (string \<times> nat) decision" where
  "decide_classification classification m v =
    (let value = to_lower (trim classification) in
     if value \<notin> set MISSION_CLASSIFICATIONS then Inl (failure Validation_error)
     else case classificationLabels m value of
         Inl _ \<Rightarrow> Inl (failure Execution_error)
       | Inr labels \<Rightarrow> Inr (m\<lparr>ms_labels := labels\<rparr>, \<lambda>v. (value, v)))"

definition setClassification ::
  "(jsnum \<Rightarrow> string) \<Rightarrow> (string \<Rightarrow> bool) \<Rightarrow> database \<Rightarrow> database \<Rightarrow> command_request \<Rightarrow> string \<Rightarrow>
    (string \<times> nat) outcome \<times> database" where
  "setClassification nt owns seen db request classification =
     permitted request ''mission:context'' db
       (rewrite_mission nt owns seen db request (decide_classification classification))"

definition decide_authoring :: "authoring_fields \<Rightarrow> mission \<Rightarrow> nat \<Rightarrow> (mission \<times> nat) decision" where
  "decide_authoring written m v =
    (case authorMission m written of
       Inl _ \<Rightarrow> Inl (failure Validation_error)
     | Inr changed \<Rightarrow> Inr (changed, \<lambda>v. (changed, v)))"

definition author ::
  "(jsnum \<Rightarrow> string) \<Rightarrow> (string \<Rightarrow> bool) \<Rightarrow> database \<Rightarrow> database \<Rightarrow> command_request \<Rightarrow> authoring_fields \<Rightarrow>
    (mission \<times> nat) outcome \<times> database" where
  "author nt owns seen db request written =
     permitted request ''mission:context'' db
       (rewrite_mission nt owns seen db request (decide_authoring written))"

definition decide_nel :: "jsnum \<Rightarrow> nel_record_input \<Rightarrow> mission \<Rightarrow> nat \<Rightarrow> (mission \<times> nat \<times> nel_record) decision" where
  "decide_nel lines measurement m v =
    (case try_bind (recordNetEngineeringLines m lines) (\<lambda>changed.
         map_sum id (Pair changed) (missionNelRecord changed measurement)) of
       Inl _ \<Rightarrow> Inl (failure Validation_error)
     | Inr (changed, row) \<Rightarrow> Inr (changed, \<lambda>v. (changed, v, row)))"

definition recordNel ::
  "(jsnum \<Rightarrow> string) \<Rightarrow> (string \<Rightarrow> bool) \<Rightarrow> database \<Rightarrow> database \<Rightarrow> command_request \<Rightarrow> jsnum \<Rightarrow> nel_record_input \<Rightarrow>
    (mission \<times> nat \<times> nel_record) outcome \<times> database" where
  "recordNel nt owns seen db request lines measurement =
     permitted request ''nel:record'' db
       (rewrite_mission nt owns seen db request (decide_nel lines measurement))"

section \<open>Planned checkpoints\<close>

definition decide_plan :: "(checkpoint list \<Rightarrow> string \<Rightarrow> checkpoint list option) \<Rightarrow> mission \<Rightarrow> nat \<Rightarrow> (checkpoint list \<times> nat) decision" where
  "decide_plan change m v =
    (case change (ms_checkpoints m) (ms_id m) of
       None \<Rightarrow> Inl (failure Validation_error)
     | Some checkpoints \<Rightarrow> Inr (m\<lparr>ms_checkpoints := checkpoints\<rparr>, \<lambda>v. (checkpoints, v)))"

definition replan ::
  "(jsnum \<Rightarrow> string) \<Rightarrow> (string \<Rightarrow> bool) \<Rightarrow> database \<Rightarrow> database \<Rightarrow> command_request \<Rightarrow>
    (checkpoint list \<Rightarrow> string \<Rightarrow> checkpoint list option) \<Rightarrow> (checkpoint list \<times> nat) outcome \<times> database" where
  "replan nt owns seen db request change =
     permitted request ''mission:context'' db
       (rewrite_mission nt owns seen db request (decide_plan change))"

definition plan ::
  "(jsnum \<Rightarrow> string) \<Rightarrow> (string \<Rightarrow> bool) \<Rightarrow> database \<Rightarrow> database \<Rightarrow> command_request \<Rightarrow> string \<Rightarrow> string option \<Rightarrow>
    (checkpoint list \<times> nat) outcome \<times> database" where
  "plan nt owns seen db request name description =
     replan nt owns seen db request (\<lambda>checkpoints ident.
       case planCheckpoint checkpoints ident name (default_to [] description) of Inl _ \<Rightarrow> None | Inr planned \<Rightarrow> Some planned)"

text \<open>The filter drops the object that was found: of equal names, the first.\<close>

definition dropped_plan :: "string \<Rightarrow> checkpoint list \<Rightarrow> checkpoint list option" where
  "dropped_plan name checkpoints =
     (case find_first (\<lambda>cp. cp_name cp = name) checkpoints of
        None \<Rightarrow> None
      | Some target \<Rightarrow>
          if cp_repair target \<noteq> None \<or> cp_goalCheck target \<noteq> [] then None
          else Some (takeWhile (\<lambda>cp. cp_name cp \<noteq> name) checkpoints @ tl (dropWhile (\<lambda>cp. cp_name cp \<noteq> name) checkpoints)))"

definition unplan ::
  "(jsnum \<Rightarrow> string) \<Rightarrow> (string \<Rightarrow> bool) \<Rightarrow> database \<Rightarrow> database \<Rightarrow> command_request \<Rightarrow> string \<Rightarrow>
    (checkpoint list \<times> nat) outcome \<times> database" where
  "unplan nt owns seen db request name =
     replan nt owns seen db request (\<lambda>checkpoints _. dropped_plan name checkpoints)"

definition read_checkpoints ::
  "(jsnum \<Rightarrow> string) \<Rightarrow> database \<Rightarrow> command_request \<Rightarrow> string option \<Rightarrow> (nat \<times> checkpoint list \<times> goal_row list) outcome" where
  "read_checkpoints nt seen request name =
     read_mission nt seen request ''checkpoint:record'' (\<lambda>m v.
       let checkpoints = (case name of
           None \<Rightarrow> ms_checkpoints m | Some n \<Rightarrow> filter (\<lambda>cp. cp_name cp = n) (ms_checkpoints m)) in
       if name \<noteq> None \<and> checkpoints = [] then failure Unavailable_error
       else Success (v, checkpoints, concat (map cp_goalCheck checkpoints)))"

section \<open>Editing the plan of a mission\<close>

record planning_fields =
  pf_title :: string
  pf_description :: string
  pf_context :: string
  pf_labels :: "string list"
  pf_successCriteria :: "string list"
  pf_successCriterionIds :: "string option list option"
  pf_dependencies :: "string list"

definition read_planning ::
  "(jsnum \<Rightarrow> string) \<Rightarrow> database \<Rightarrow> command_request \<Rightarrow> (string \<times> nat \<times> planning_fields) outcome" where
  "read_planning nt seen request =
     read_mission nt seen request ''mission:context'' (\<lambda>m v. Success (ms_id m, v,
       \<lparr> pf_title = ms_title m,
         pf_description = default_to (default_to [] (ms_description m)) (map_option mb_goal (ms_brief m)),
         pf_context = default_to [] (map_option mb_why (ms_brief m)), pf_labels = ms_labels m,
         pf_successCriteria = ms_successCriteria m,
         pf_successCriterionIds = map_option (map Some) (ms_successCriterionIds m),
         pf_dependencies = ms_dependencies m \<rparr>))"

definition replacePlanning :: "planning_fields \<Rightarrow> mission \<Rightarrow> mission option" where
  "replacePlanning written m =
     (let title = trim (pf_title written); description = trim (pf_description written); why = trim (pf_context written) in
      if title = [] \<or> 200 < length title then None
      else if why \<noteq> [] \<and> description = [] then None
      else case missionLabels (pf_labels written) of
          Inl _ \<Rightarrow> None
        | Inr labels \<Rightarrow>
            if 16 < length labels \<or> list_ex (\<lambda>label. 64 < length label) labels then None
            else (case (successCriteria (pf_successCriteria written), missionDependencies (pf_dependencies written) (ms_id m)) of
                (Inr criteria, Inr dependencies) \<Rightarrow>
                  (case (if description \<noteq> [] \<and> why \<noteq> []
                      then map_sum id Some (missionBrief \<lparr> mb_goal = description, mb_why = why,
                        mb_scope = Option.bind (ms_brief m) mb_scope,
                        mb_outOfScope = default_to [] (map_option mb_outOfScope (ms_brief m)) \<rparr>)
                      else Inr None) of
                     Inl _ \<Rightarrow> None
                   | Inr brief \<Rightarrow>
                       (case replaceSuccessCriteria m criteria (pf_successCriterionIds written) of
                          Inl _ \<Rightarrow> None
                        | Inr changed \<Rightarrow> Some (changed\<lparr>ms_title := title, ms_labels := labels, ms_brief := brief,
                            ms_description := (if brief \<noteq> None \<or> description = [] then None else Some description),
                            ms_dependencies := dependencies\<rparr>)))
              | _ \<Rightarrow> None))"

definition decide_edit :: "(jsnum \<Rightarrow> string) \<Rightarrow> database \<Rightarrow> planning_fields \<Rightarrow> mission \<Rightarrow> nat \<Rightarrow> (string \<times> nat) decision" where
  "decide_edit nt seen written m v =
    (if ms_status m = Done \<or> ms_closedAt m \<noteq> None then Inl (failure Validation_error)
     else case replacePlanning written m of
         None \<Rightarrow> Inl (failure Validation_error)
       | Some changed \<Rightarrow>
           (case refused_dependency nt seen (\<lambda>d. ms_repositoryId d = ms_repositoryId changed \<and>
               ms_status d \<noteq> Done \<and> ms_closedAt d = None) (ms_dependencies changed) of
              Inl _ \<Rightarrow> Inl (failure Unavailable_error)
            | Inr (Some kind) \<Rightarrow> Inl (failure kind)
            | Inr None \<Rightarrow> Inr (changed, \<lambda>v. (ms_id m, v))))"

definition edit_mission ::
  "(jsnum \<Rightarrow> string) \<Rightarrow> (string \<Rightarrow> bool) \<Rightarrow> database \<Rightarrow> database \<Rightarrow> command_request \<Rightarrow> planning_fields \<Rightarrow>
    (string \<times> nat) outcome \<times> database" where
  "edit_mission nt owns seen db request written =
     permitted request ''mission:context'' db
       (if cq_expectedVersion request = None \<or> cq_expectedVersion request = Some 0 then (failure Validation_error, db)
        else rewrite_mission nt owns seen db request (decide_edit nt seen written))"

section \<open>Cancelling\<close>

text \<open>The rows go before the task file; \<open>archive\<close> tells whether the file was archived.\<close>

definition executeForSlug ::
  "bool \<Rightarrow> nat \<Rightarrow> (string \<Rightarrow> string) \<Rightarrow> (string \<Rightarrow> bool) \<Rightarrow> database \<Rightarrow> string \<Rightarrow>
    store_error + (string \<times> bool \<times> string) \<times> database" where
  "executeForSlug foreign_keys violations cleanup archive db slug =
     map_sum id (\<lambda>db'. ((slug, archive slug, cleanup slug), db')) (cancelAggregate foreign_keys violations db slug)"

section \<open>Creating a mission\<close>

record creation_request =
  cr_operationId :: string
  cr_requestKey :: string
  cr_title :: string
  cr_description :: "string option"
  cr_context :: "string option"
  cr_labels :: "string list option"
  cr_successCriteria :: "string list option"
  cr_dependencies :: "string list option"
  cr_capabilities :: "string list"

record valid_fields =
  vf_title :: string
  vf_labels :: "string list"
  vf_brief :: "mission_brief option"
  vf_description :: "string option"
  vf_successCriteria :: "string list"
  vf_dependencies :: "string list"

definition creationKey :: "string \<Rightarrow> string" where
  "creationKey requestKey = ''mission-create-'' @ requestKey"

definition UNALLOCATED_OWNER :: string where
  "UNALLOCATED_OWNER = ''unallocated-mission.0''"

definition describe_mission :: "string \<Rightarrow> string \<Rightarrow> contract_error + mission_brief option \<times> string option" where
  "describe_mission description why =
     (if description = [] then Inr (None, None)
      else if why = [] then Inr (None, Some description)
      else map_sum id (\<lambda>brief. (Some brief, None))
        (missionBrief \<lparr> mb_goal = description, mb_why = why, mb_scope = None, mb_outOfScope = [] \<rparr>))"

definition validate_creation :: "creation_request \<Rightarrow> valid_fields option" where
  "validate_creation request =
     (let title = trim (cr_title request) in
      if title = [] \<or> 200 < length title then None
      else case missionLabels (default_to [] (cr_labels request)) of
          Inl _ \<Rightarrow> None
        | Inr labels \<Rightarrow>
            let description = trim (default_to [] (cr_description request)); why = trim (default_to [] (cr_context request)) in
            if 16 < length labels \<or> list_ex (\<lambda>label. 64 < length label) labels then None
            else if why \<noteq> [] \<and> description = [] then None
            else (case (describe_mission description why,
                successCriteria (filter (\<lambda>c. c \<noteq> []) (map trim (default_to [] (cr_successCriteria request)))),
                missionDependencies (default_to [] (cr_dependencies request)) UNALLOCATED_OWNER) of
                (Inr (brief, text), Inr criteria, Inr dependencies) \<Rightarrow>
                  Some \<lparr> vf_title = title, vf_labels = labels, vf_brief = brief, vf_description = text,
                    vf_successCriteria = criteria, vf_dependencies = dependencies \<rparr>
              | _ \<Rightarrow> None))"

text \<open>\<open>known\<close> is what the board's catalog returns, when it can be read.\<close>

definition refuseIneligibleDependencies :: "string \<Rightarrow> mission list option \<Rightarrow> string list \<Rightarrow> 'a outcome option" where
  "refuseIneligibleDependencies repository known dependencies =
     (if dependencies = [] then None
      else case known of
          None \<Rightarrow> Some (failure Unavailable_error)
        | Some missions \<Rightarrow>
            let byId = (\<lambda>i. at_last (filter (\<lambda>m. ms_repositoryId m = repository \<and> ms_id m = i) missions)) in
            if list_all (\<lambda>i. case byId i of None \<Rightarrow> False | Some m \<Rightarrow> ms_status m \<noteq> Done \<and> ms_closedAt m = None) dependencies
            then None else Some (rejected Validation_error))"

definition recoverPersisted ::
  "(jsnum \<Rightarrow> string) \<Rightarrow> database \<Rightarrow> string \<Rightarrow> string \<Rightarrow> (mission \<times> nat) outcome option" where
  "recoverPersisted nt seen repository requestKey =
     (case findMissionIdByIdempotencyKey (db_events seen) repository (creationKey requestKey) of
        None \<Rightarrow> None
      | Some i \<Rightarrow>
          (case loadAggregate nt seen i of
             Inl _ \<Rightarrow> Some (failure Unavailable_error)
           | Inr None \<Rightarrow> None
           | Inr (Some (m, v)) \<Rightarrow> if ms_repositoryId m = repository then Some (Success (m, v)) else None))"

text \<open>\<open>allocated\<close> is the identity the allocator mints, when it can.\<close>

definition creation_intake :: "string \<Rightarrow> string \<Rightarrow> creation_request \<Rightarrow> valid_fields \<Rightarrow> intake_request" where
  "creation_intake repository ident request valid =
     \<lparr> iq_operationId = cr_operationId request,
       iq_mission = \<lparr> mi_id = ident, mi_repositoryId = repository, mi_title = vf_title valid, mi_labels = Some (vf_labels valid),
         mi_assignee = None, mi_description = vf_description valid, mi_rawStatus = None, mi_externalTaskRef = None \<rparr>,
       iq_brief = vf_brief valid, iq_successCriteria = Some (vf_successCriteria valid),
       iq_dependencies = Some (vf_dependencies valid), iq_occurredAt = None,
       iq_idempotencyKey = Some (creationKey (cr_requestKey request)), iq_capabilities = cr_capabilities request \<rparr>"

definition create_mission ::
  "(jsnum \<Rightarrow> string) \<Rightarrow> (string \<Rightarrow> bool) \<Rightarrow> string \<Rightarrow> database \<Rightarrow> database \<Rightarrow> string \<Rightarrow> mission list option \<Rightarrow>
    string option \<Rightarrow> creation_request \<Rightarrow> (mission \<times> nat) outcome \<times> database" where
  "create_mission nt owns now seen db repository known allocated request =
     (case recoverPersisted nt seen repository (cr_requestKey request) of
        Some persisted \<Rightarrow> (persisted, db)
      | None \<Rightarrow>
          (case validate_creation request of
             None \<Rightarrow> (rejected Validation_error, db)
           | Some valid \<Rightarrow>
               (case refuseIneligibleDependencies repository known (vf_dependencies valid) of
                  Some refused \<Rightarrow> (refused, db)
                | None \<Rightarrow>
                    (case allocated of
                       None \<Rightarrow> (failure Unavailable_error, db)
                     | Some ident \<Rightarrow> intake nt owns now seen db (creation_intake repository ident request valid)))))"

text \<open>The memory of recent requests, oldest first. Only a persisted mission stays remembered.\<close>

definition REMEMBERED_REQUESTS :: nat where
  "REMEMBERED_REQUESTS = 256"

definition remember :: "(string \<times> 'a) list \<Rightarrow> string \<Rightarrow> 'a \<Rightarrow> (string \<times> 'a) list" where
  "remember remembered key attempt =
     (let added = remembered @ [(key, attempt)] in
      if REMEMBERED_REQUESTS < length added then tl added else added)"

definition execute_creation ::
  "(jsnum \<Rightarrow> string) \<Rightarrow> (string \<Rightarrow> bool) \<Rightarrow> string \<Rightarrow> database \<Rightarrow> database \<Rightarrow> string \<Rightarrow> mission list option \<Rightarrow>
    string option \<Rightarrow> (string \<times> (mission \<times> nat) outcome) list \<Rightarrow> creation_request \<Rightarrow>
    (mission \<times> nat) outcome \<times> (string \<times> (mission \<times> nat) outcome) list \<times> database" where
  "execute_creation nt owns now seen db repository known allocated remembered request =
     (if blank (cr_operationId request) \<or> blank (cr_requestKey request) then (rejected Validation_error, remembered, db)
      else if ''mission:intake'' \<notin> set (cr_capabilities request) then (rejected Capability_error, remembered, db)
      else case map_of remembered (cr_requestKey request) of
          Some prior \<Rightarrow> (prior, remembered, db)
        | None \<Rightarrow>
            let (result, db') = create_mission nt owns now seen db repository known allocated request;
                kept = remember remembered (cr_requestKey request) result in
            (result, if outcome_status result = Ended_completed then kept
               else filter (\<lambda>entry. fst entry \<noteq> cr_requestKey request) kept, db'))"

section \<open>What the commands write\<close>

text \<open>What a rewriting command may do: nothing, with a failure, or one save of a mission with the same identity,
  repository and lane, as the next version of the one it read.\<close>

definition content_write :: "(jsnum \<Rightarrow> string) \<Rightarrow> (string \<Rightarrow> bool) \<Rightarrow> database \<Rightarrow> database \<Rightarrow> string \<Rightarrow> database \<Rightarrow> bool" where
  "content_write nt owns seen db ident db' \<longleftrightarrow> (\<exists>m v changed.
     loadAggregate nt seen ident = Inr (Some (m, v)) \<and> saveAggregate owns db changed (Some v) = Inr (Suc v, db') \<and>
     ms_id m = ident \<and> ms_id changed = ident \<and> ms_repositoryId changed = ms_repositoryId m \<and> ms_status changed = ms_status m)"

text \<open>The interface of the rewriting commands: what a decision may change.\<close>

locale content_command =
  fixes decide :: "mission \<Rightarrow> nat \<Rightarrow> 'a decision"
  assumes refuses: "decide m v = Inl refusal \<Longrightarrow> \<exists>status kind. refusal = Failure status kind"
    and keeps_identity: "decide m v = Inr (changed, answer) \<Longrightarrow> ms_id changed = ms_id m"
    and keeps_repository: "decide m v = Inr (changed, answer) \<Longrightarrow> ms_repositoryId changed = ms_repositoryId m"
    and keeps_lane: "decide m v = Inr (changed, answer) \<Longrightarrow> ms_status changed = ms_status m"
begin

lemma failed_rewrite: "rewrite_mission nt owns seen db request decide = (Failure status kind, db') \<Longrightarrow> db' = db"
  by (auto simp: rewrite_mission_def with_loaded_def save_rewritten_def split: sum.splits prod.splits)

lemma rewritten:
  assumes "rewrite_mission nt owns seen db request decide = (Success x, db')"
  shows "content_write nt owns seen db (cq_missionId request) db'"
proof -
  obtain m v where l: "loadForCommand nt seen request = (Inr (m, v) :: 'a outcome + mission \<times> nat)"
    and w: "(case decide m v of Inl refusal \<Rightarrow> (refusal, db) | Inr (changed, answer) \<Rightarrow> save_rewritten owns db changed v answer) =
      (Success x, db')"
    using assms by (auto simp: rewrite_mission_def dest!: with_loaded_Success)
  obtain changed answer where d: "decide m v = Inr (changed, answer)"
    using w refuses by (cases "decide m v") fastforce+
  obtain v' where s: "saveAggregate owns db changed (Some v) = Inr (v', db')"
    using w d by (auto simp: save_rewritten_def split: sum.splits)
  have "v' = Suc v" using saved_versions[OF s[unfolded saveAggregate_def]] by simp
  moreover have "ms_id m = cq_missionId request" using l by (rule load_command_Inr)
  moreover have "loadAggregate nt seen (cq_missionId request) = Inr (Some (m, v))"
    using l by (auto simp: loadForCommand_def split: sum.splits option.splits if_splits)
  ultimately show ?thesis
    using s keeps_identity[OF d] keeps_repository[OF d] keeps_lane[OF d] unfolding content_write_def by metis
qed

lemma permitted_rewrite:
  assumes "permitted request capability db (rewrite_mission nt owns seen db request decide) = (result, db')"
  shows "(\<exists>status kind. result = Failure status kind \<and> db' = db) \<or>
    (\<exists>x. result = Success x \<and> content_write nt owns seen db (cq_missionId request) db')"
proof (cases "missingCapability request capability :: 'a outcome option")
  case None
  then have w: "rewrite_mission nt owns seen db request decide = (result, db')" using assms by (simp add: permitted_def)
  show ?thesis
  proof (cases result)
    case (Success x)
    then show ?thesis using w rewritten by metis
  next
    case (Failure status kind)
    then show ?thesis using w failed_rewrite by metis
  qed
next
  case (Some refusal)
  then obtain status kind where "refusal = Failure status kind" using guarding_never_success by (cases refusal) fastforce+
  moreover have "result = refusal \<and> db' = db" using assms Some by (simp add: permitted_def)
  ultimately show ?thesis by metis
qed

end

subsection \<open>Every command is one\<close>

lemma failure_is_Failure: "failure kind = Failure (if kind = Cancelled_error then Ended_cancelled else Ended_failed) kind"
  by (simp add: failure_def)

lemma replaced_criteria: "replaceSuccessCriteria m criteria ids = Inr m' \<Longrightarrow>
    ms_id m' = ms_id m \<and> ms_repositoryId m' = ms_repositoryId m \<and> ms_status m' = ms_status m"
  by (auto simp: replaceSuccessCriteria_def Let_def try_bind_Inr split: sum.splits if_splits option.splits prod.splits)

lemma authored: "authorMission m written = Inr m' \<Longrightarrow>
    ms_id m' = ms_id m \<and> ms_repositoryId m' = ms_repositoryId m \<and> ms_status m' = ms_status m"
  by (auto simp: authorMission_def Let_def try_bind_Inr map_error_Inr split: if_splits dest!: replaced_criteria)

lemma nel_recorded: "recordNetEngineeringLines m lines = Inr m' \<Longrightarrow>
    ms_id m' = ms_id m \<and> ms_repositoryId m' = ms_repositoryId m \<and> ms_status m' = ms_status m"
  by (auto simp: recordNetEngineeringLines_def Let_def try_bind_Inr split: sum.splits if_splits option.splits)

interpretation brief_command: content_command "decide_brief patch"
  by unfold_locales (auto simp: decide_brief_def failure_is_Failure split: sum.splits if_splits)

interpretation gates_command: content_command "decide_gates gates"
  by unfold_locales (auto simp: decide_gates_def failure_is_Failure split: sum.splits)

interpretation criteria_command: content_command "decide_criteria texts ids"
  by unfold_locales (auto simp: decide_criteria_def failure_is_Failure split: sum.splits dest: replaced_criteria)

interpretation marks_command: content_command "decide_marks criterion"
  by unfold_locales (auto simp: decide_marks_def failure_is_Failure split: option.splits)

interpretation bucket_command: content_command "decide_bucket bucket"
  by unfold_locales (auto simp: decide_bucket_def failure_is_Failure split: option.splits)

interpretation test_command: content_command "decide_test testPath"
  by unfold_locales (auto simp: decide_test_def Let_def failure_is_Failure split: option.splits if_splits)

interpretation classification_command: content_command "decide_classification classification"
  by unfold_locales (auto simp: decide_classification_def Let_def failure_is_Failure split: sum.splits if_splits)

interpretation authoring_command: content_command "decide_authoring written"
  by unfold_locales (auto simp: decide_authoring_def failure_is_Failure split: sum.splits dest: authored)

interpretation nel_command: content_command "decide_nel lines measurement"
  by unfold_locales (auto simp: decide_nel_def failure_is_Failure try_bind_Inr map_sum_Inr split: sum.splits dest: nel_recorded)

interpretation plan_command: content_command "decide_plan change"
  by unfold_locales (auto simp: decide_plan_def failure_is_Failure split: option.splits)

lemma planning_replaced: "replacePlanning written m = Some m' \<Longrightarrow>
    ms_id m' = ms_id m \<and> ms_repositoryId m' = ms_repositoryId m \<and> ms_status m' = ms_status m"
  by (auto simp: replacePlanning_def Let_def split: sum.splits if_splits dest: replaced_criteria)

interpretation edit_command: content_command "decide_edit nt seen written"
  by unfold_locales (auto simp: decide_edit_def failure_is_Failure split: sum.splits option.splits if_splits dest: planning_replaced)

section \<open>The content commands of every caller\<close>

datatype content_call =
    Call_brief brief_patch
  | Call_gates "string list"
  | Call_criteria "string list" "string option list option"
  | Call_mark "jsnum option" bool
  | Call_dependencies "string list"
  | Call_bucket string
  | Call_test "string option"
  | Call_classification string
  | Call_author authoring_fields
  | Call_nel jsnum nel_record_input
  | Call_plan string "string option"
  | Call_unplan string
  | Call_edit planning_fields

fun run_content ::
  "(jsnum \<Rightarrow> string) \<Rightarrow> (string \<Rightarrow> bool) \<Rightarrow> database \<Rightarrow> database \<Rightarrow> command_request \<Rightarrow> content_call \<Rightarrow> database" where
  "run_content nt owns seen db request (Call_brief patch) = snd (update_brief nt owns seen db request patch)"
| "run_content nt owns seen db request (Call_gates gates) = snd (setGates nt owns seen db request gates)"
| "run_content nt owns seen db request (Call_criteria texts ids) = snd (setSuccessCriteria nt owns seen db request texts ids)"
| "run_content nt owns seen db request (Call_mark criterion appended) =
     snd (markSuccessCriteriaComplete nt owns seen db request criterion appended)"
| "run_content nt owns seen db request (Call_dependencies names) = snd (setDependencies nt owns seen db request names)"
| "run_content nt owns seen db request (Call_bucket bucket) = snd (setPredictedNelBucket nt owns seen db request bucket)"
| "run_content nt owns seen db request (Call_test path) = snd (setReproductionTest nt owns seen db request path)"
| "run_content nt owns seen db request (Call_classification label) = snd (setClassification nt owns seen db request label)"
| "run_content nt owns seen db request (Call_author written) = snd (author nt owns seen db request written)"
| "run_content nt owns seen db request (Call_nel lines measurement) = snd (recordNel nt owns seen db request lines measurement)"
| "run_content nt owns seen db request (Call_plan name description) = snd (plan nt owns seen db request name description)"
| "run_content nt owns seen db request (Call_unplan name) = snd (unplan nt owns seen db request name)"
| "run_content nt owns seen db request (Call_edit written) = snd (edit_mission nt owns seen db request written)"

lemma snd_permitted: "snd (permitted request capability db (rewrite_mission nt owns seen db request decide)) = db \<or>
    content_write nt owns seen db (cq_missionId request) (snd (permitted request capability db (rewrite_mission nt owns seen db request decide)))"
  if "content_command decide"
  using content_command.permitted_rewrite[OF that] by (metis prod.collapse)

lemmas content_commands = brief_command.content_command_axioms gates_command.content_command_axioms
  criteria_command.content_command_axioms marks_command.content_command_axioms bucket_command.content_command_axioms
  test_command.content_command_axioms classification_command.content_command_axioms
  authoring_command.content_command_axioms nel_command.content_command_axioms plan_command.content_command_axioms
  edit_command.content_command_axioms

lemma saved_rewritten: "snd (save_rewritten owns db changed v answer) = db \<or>
    saveAggregate owns db changed (Some v) = Inr (Suc v, snd (save_rewritten owns db changed v answer))"
  using saved_versions by (fastforce simp: save_rewritten_def saveAggregate_def split: sum.split)

lemma saved_alone: "saveAggregate owns db m e = Inr (v, db') \<Longrightarrow> i \<noteq> ms_id m \<Longrightarrow> find_stored db' i = find_stored db i"
  using write_other(1)[of db "(owns (ms_id m), m, e, None)" db' i]
  by (simp add: store_write_def saveAggregate_def flip: persist_owns[of owns db m e])

lemma dependencies_written: "snd (setDependencies nt owns seen db request names) = db \<or>
    content_write nt owns seen db (cq_missionId request) (snd (setDependencies nt owns seen db request names))"
proof (cases "missingCapability request ''mission:context'' :: (string list \<times> nat) outcome option")
  case None
  show ?thesis
  proof (cases "loadForCommand nt seen request :: (string list \<times> nat) outcome + mission \<times> nat")
    case (Inr loaded)
    obtain m v where mv: "loaded = (m, v)" by (cases loaded)
    have "ms_id m = cq_missionId request" using Inr mv by (auto elim: load_command_Inr)
    moreover have "loadAggregate nt seen (cq_missionId request) = Inr (Some (m, v))"
      using Inr mv by (auto simp: loadForCommand_def split: sum.splits option.splits if_splits)
    ultimately have "snd (save_rewritten owns db (m\<lparr>ms_dependencies := ds\<rparr>) v answer) = db \<or>
        content_write nt owns seen db (cq_missionId request) (snd (save_rewritten owns db (m\<lparr>ms_dependencies := ds\<rparr>) v answer))"
      for ds and answer :: "nat \<Rightarrow> string list \<times> nat"
      using saved_rewritten[of owns db "m\<lparr>ms_dependencies := ds\<rparr>" v answer] unfolding content_write_def by fastforce
    then show ?thesis using None Inr mv by (simp add: setDependencies_def split: sum.split option.split)
  qed (simp add: setDependencies_def None)
qed (simp add: setDependencies_def)

lemma content_written: "run_content nt owns seen db request call = db \<or>
    content_write nt owns seen db (cq_missionId request) (run_content nt owns seen db request call)"
proof (cases call)
  case (Call_dependencies names)
  then show ?thesis using dependencies_written by simp
next
  case (Call_edit written)
  then show ?thesis using snd_permitted[OF content_commands(11)]
    by (auto simp: edit_mission_def permitted_def split: option.splits)
next
  case (Call_mark criterion appended)
  then show ?thesis using snd_permitted[OF content_commands(4)]
    by (simp add: markSuccessCriteriaComplete_def split_beta)
qed (simp_all only: run_content.simps update_brief_def setGates_def setSuccessCriteria_def setPredictedNelBucket_def
  setReproductionTest_def setClassification_def author_def recordNel_def plan_def unplan_def replan_def
  snd_permitted content_commands)

section \<open>Creations\<close>

lemma find_first_stays: "find_first P xs = Some y \<Longrightarrow> find_first P (xs @ ys) = Some y"
  by (induction xs) auto

lemma find_first_last [simp]: "\<forall>x\<in>set xs. \<not> P x \<Longrightarrow> P y \<Longrightarrow> find_first P (xs @ [y]) = Some y"
  by (rule find_first_after)

lemma key_stays:
  assumes "reachable_by store_write db db'" and "findMissionIdByIdempotencyKey (db_events db) repository key = Some i"
  shows "findMissionIdByIdempotencyKey (db_events db') repository key = Some i"
  using writes_append_events[OF assms(1)] assms(2) find_first_stays by (fastforce simp: findMissionIdByIdempotencyKey_def)

lemma keyed_row:
  assumes "findMissionIdByIdempotencyKey events repository key = Some i"
  shows "\<exists>row\<in>set (lt_rows events). bl_repositoryId row = repository \<and> bl_idempotencyKey row = key"
  using assms by (auto simp: findMissionIdByIdempotencyKey_def dest: find_first_Some)

text \<open>Only a new key is taken in.\<close>

lemma creation_intake_outcome:
  assumes "intake nt owns now seen db (creation_intake repository ident request valid) = (out, db')"
  obtains (refused) "db' = db" "\<And>x. out \<noteq> Success x"
    | (taken) m v ev where "out = Success (m, v)" "saveAggregateWithTransition owns db m None ev = Inr (v, db')"
      "le_missionId ev = ms_id m" "le_repositoryId ev = repository" "le_idempotencyKey ev = creationKey (cr_requestKey request)"
proof (cases "try_bind (intakeMission (iq_mission (creation_intake repository ident request valid)))
    (withPlanning (creation_intake repository ident request valid))")
  case (Inr m)
  then have "ms_repositoryId m = repository"
    by (auto simp: try_bind_Inr intakeMission_def withPlanning_def creation_intake_def split: if_splits)
  moreover have "iq_idempotencyKey (creation_intake repository ident request valid) = Some (creationKey (cr_requestKey request))"
    by (simp add: creation_intake_def)
  ultimately show ?thesis using assms Inr refused taken
    by (auto simp: intake_def Let_def lifecycleLaneEvent_def rejected_def failure_def decisionFailure_def writeFailure_def readExisting_def
        split: if_splits option.splits sum.splits)
qed (use assms refused in \<open>auto simp: intake_def rejected_def decisionFailure_def failure_def split: if_splits\<close>)

lemma intake_with_key:
  assumes "intake nt owns now seen db (creation_intake repository ident request valid) = (out, db')"
    and "findMissionIdByIdempotencyKey (db_events db) repository (creationKey (cr_requestKey request)) = Some i"
  shows "db' = db \<and> (\<forall>x. out \<noteq> Success x)"
  using assms(1)
proof (cases rule: creation_intake_outcome)
  case (taken m v ev)
  then have "\<exists>e. saveAggregateWithTransition owns db m None ev = Inl e"
    using keyed_row[OF assms(2)] duplicate_refused by metis
  then show ?thesis using taken(2) by auto
qed simp

lemma intake_records_key:
  assumes "intake nt owns now seen db (creation_intake repository ident request valid) = (Success (m, v), db')"
  shows "findMissionIdByIdempotencyKey (db_events db') repository (creationKey (cr_requestKey request)) = Some (ms_id m)"
  using assms
proof (cases rule: creation_intake_outcome)
  case (taken m' v' ev)
  obtain events where "append_event (db_events db) (entry_of_event ev) = Inr (True, events)" "db_events db' = events"
    using transition_write[OF taken(2)] by (auto elim!: store_write_Inr)
  then show ?thesis using taken(1,3-5)
    by (auto elim!: append_Inr simp: findMissionIdByIdempotencyKey_def entry_of_event_def lane_entry.defs)
qed blast

lemma create_unrecovered:
  assumes "create_mission nt owns now seen db repository known allocated request = (out, db')"
    and "recoverPersisted nt seen repository (cr_requestKey request) = None"
  obtains (refused) "db' = db" "\<And>x. out \<noteq> Success x"
    | (taken) ident valid where "intake nt owns now seen db (creation_intake repository ident request valid) = (out, db')"
proof (cases "validate_creation request")
  case None
  then have "out = rejected Validation_error" "db' = db" using assms by (simp_all add: create_mission_def)
  then show ?thesis by (intro refused) (simp_all add: rejected_def)
next
  case (Some valid)
  show ?thesis
  proof (cases "refuseIneligibleDependencies repository known (vf_dependencies valid) :: (mission \<times> nat) outcome option")
    case None
    then show ?thesis using assms Some refused taken
      by (cases allocated) (auto simp: create_mission_def failure_def)
  next
    fix r :: "(mission \<times> nat) outcome"
    assume r: "refuseIneligibleDependencies repository known (vf_dependencies valid) = Some r"
    then have "\<And>x. r \<noteq> Success x"
      by (auto simp: refuseIneligibleDependencies_def Let_def failure_def rejected_def split: option.splits if_splits)
    then show ?thesis using assms Some r refused by (simp add: create_mission_def)
  qed
qed

lemma recovered_mission:
  assumes "recoverPersisted nt seen repository key = Some (Success (m, v))"
  shows "findMissionIdByIdempotencyKey (db_events seen) repository (creationKey key) = Some (ms_id m)"
  using assms load_stored_fields stored_named_find
  by (fastforce simp: recoverPersisted_def loadAggregate_def map_sum_Inr split: option.splits sum.splits if_splits)

definition sample_creation :: creation_request where
  "sample_creation = \<lparr> cr_operationId = ''op'', cr_requestKey = ''k'', cr_title = ''Title'', cr_description = Some ''text'',
     cr_context = None, cr_labels = None, cr_successCriteria = Some [''works''], cr_dependencies = None,
     cr_capabilities = [''mission:intake''] \<rparr>"

definition sample_taken :: mission where
  "sample_taken = \<lparr>ms_id = ''px-0001'', ms_repositoryId = ''repo'', ms_title = ''Title'', ms_description = Some ''text'',
     ms_labels = [], ms_assignee = None, ms_checkpoints = [], ms_brief = None, ms_declaredGates = [],
     ms_successCriteria = [''works''], ms_successCriterionIds = None, ms_nextSuccessCriterionId = None,
     ms_completedSuccessCriteria = [], ms_dependencies = [], ms_predictedNelBucket = None,
     ms_reproductionTest = None, ms_review = None, ms_reviewPreparationPending = False,
     ms_netEngineeringLines = None, ms_rawStatus = None, ms_externalTaskRef = None, ms_status = Backlog, ms_closedAt = None\<rparr>"

definition sample_fields :: valid_fields where
  "sample_fields = \<lparr> vf_title = ''Title'', vf_labels = [], vf_brief = None, vf_description = Some ''text'',
     vf_successCriteria = [''works''], vf_dependencies = [] \<rparr>"

lemma sample_validated: "validate_creation sample_creation = Some sample_fields"
  by code_simp

lemma sample_intake:
  "try_bind (intakeMission (iq_mission (creation_intake ''repo'' ''px-0001'' sample_creation sample_fields)))
     (withPlanning (creation_intake ''repo'' ''px-0001'' sample_creation sample_fields)) = Inr sample_taken"
  by code_simp

lemma sample_taken_saved: "is_ok (saveAggregate (\<lambda>_. True) empty_database sample_taken None)"
  by code_simp

lemma sample_created:
  "\<exists>memory db1. execute_creation (\<lambda>_. []) (\<lambda>_. True) ''2026-01-01T00:00:00.000Z'' empty_database empty_database ''repo'' None
      (Some ''px-0001'') [] sample_creation = (Success (sample_taken, 1), memory, db1)"
proof -
  let ?q = "creation_intake ''repo'' ''px-0001'' sample_creation sample_fields"
  let ?ev = "lifecycleLaneEvent \<lparr> li_mission = sample_taken, li_from = None, li_trigger = ''intake'', li_agent = ''unknown'',
     li_occurredAt = ''2026-01-01T00:00:00.000Z'', li_idempotencyKey = Some ''mission-create-k'' \<rparr>"
  obtain v saved where s: "persistAggregate (\<lambda>_. True) empty_database sample_taken None = Inr (v, saved)"
    using sample_taken_saved by (auto simp: saveAggregate_def is_ok_iff)
  have v: "v = 1" using s by (auto elim!: persist_stored)
  have "db_events saved = db_events empty_database" using s by (auto elim: persist_stored)
  moreover have "is_ok (to_canonical_utc_instant ''2026-01-01T00:00:00.000Z'')" by code_simp
  then obtain at_time where "to_canonical_utc_instant ''2026-01-01T00:00:00.000Z'' = Inr at_time" by (auto simp: is_ok_iff)
  ultimately have "\<exists>rows. append_event (db_events saved) (entry_of_event ?ev) = Inr (True, rows)"
    by (simp add: append_event_def entry_of_event_def lifecycleLaneEvent_def sample_taken_def empty_database_def repository_scoped_def)
  then obtain db1 where w: "saveAggregateWithTransition (\<lambda>_. True) empty_database sample_taken None ?ev = Inr (1, db1)"
    using s v by (auto simp: saveAggregateWithTransition_def lifecycleLaneEvent_def)
  have "iq_operationId ?q = ''op''" "mi_id (iq_mission ?q) = ''px-0001''" "iq_capabilities ?q = [''mission:intake'']"
    "mi_externalTaskRef (iq_mission ?q) = None" "iq_occurredAt ?q = None" "iq_idempotencyKey ?q = Some ''mission-create-k''"
    by (simp_all add: creation_intake_def sample_creation_def creationKey_def)
  moreover have "\<not> blank ''op''" "\<not> blank ''px-0001''" "\<not> blank ''k''" by code_simp+
  moreover have "ms_assignee sample_taken = None" by (simp add: sample_taken_def)
  moreover have "readExisting (\<lambda>_. []) empty_database ''px-0001'' = (None :: (mission \<times> nat) outcome option)"
    by (simp add: readExisting_def loadAggregate_def empty_database_def find_stored_def)
  ultimately have "intake (\<lambda>_. []) (\<lambda>_. True) ''2026-01-01T00:00:00.000Z'' empty_database empty_database ?q = (Success (sample_taken, 1), db1)"
    using w sample_intake by (simp add: intake_def)
  moreover have "recoverPersisted (\<lambda>_. []) empty_database ''repo'' ''k'' = None"
    by (simp add: recoverPersisted_def findMissionIdByIdempotencyKey_def empty_database_def)
  moreover have "refuseIneligibleDependencies ''repo'' None (vf_dependencies sample_fields) = (None :: (mission \<times> nat) outcome option)"
    by (simp add: refuseIneligibleDependencies_def sample_fields_def)
  moreover have "cr_requestKey sample_creation = ''k''" "cr_operationId sample_creation = ''op''"
    "cr_capabilities sample_creation = [''mission:intake'']" by (simp_all add: sample_creation_def)
  ultimately show ?thesis using sample_validated \<open>\<not> blank ''op''\<close> \<open>\<not> blank ''k''\<close>
    by (simp add: execute_creation_def create_mission_def Let_def)
qed

lemma content_witness_lanes: "lanes_recorded empty_database"
  by (simp add: lanes_recorded_def empty_database_def mission_events_def lane_of_def find_stored_def)

text \<open>C17: No command on the content of a mission moves it. Whatever the caller asks for, the command writes
  nothing, or it saves the mission once, as the next version of the one it read: no other mission changes, the
  operational history stays as it was, and the mission is still in the lane and the repository it was in.\<close>

theorem content_commands_move_nothing:
  assumes "lanes_recorded db" and "reachable_by store_write seen db" and "db' = run_content nt owns seen db request call"
  shows "lanes_recorded db' \<and> db_events db' = db_events db \<and>
    (\<forall>i. i \<noteq> cq_missionId request \<longrightarrow> find_stored db' i = find_stored db i) \<and>
    (db' = db \<or> (\<exists>v. currentVersion db (cq_missionId request) = Some v \<and>
      currentVersion db' (cq_missionId request) = Some (Suc v) \<and>
      lane_of db' (cq_missionId request) = lane_of db (cq_missionId request)))"
proof (cases "db' = db")
  case False
  then obtain m v changed where w: "loadAggregate nt seen (cq_missionId request) = Inr (Some (m, v))"
    "saveAggregate owns db changed (Some v) = Inr (Suc v, db')" "ms_id changed = cq_missionId request"
    "ms_status changed = ms_status m" "ms_id m = cq_missionId request"
    using content_written[of nt owns seen db request call] assms(3) unfolding content_write_def by blast
  obtain s where s: "find_stored seen (cq_missionId request) = Some s" "load_stored nt s = Inr (m, v)"
    using w(1) by (auto simp: loadAggregate_def map_sum_Inr split: option.splits)
  note versions = saved_versions[OF w(2)[unfolded saveAggregate_def]]
  have same: "find_stored seen (ms_id changed) = Some s" "v = mr_version (st_row s)" using s w(3) load_stored_fields[OF s(2)] by simp_all
  have kept: "lanes_recorded db'" using quiet_save_keeps_lanes[OF assms(1,2) same(1) s(2) same(2) w(2,4)] .
  have lane: "lane_of db (ms_id changed) = Some (status_text (ms_status m))"
    using written_lane[OF assms(1,2) same(1) s(2) same(2) w(2)[unfolded saveAggregate_def]] .
  have "lane_of db' (ms_id changed) = Some (status_text (ms_status changed))"
    and "\<And>i. i \<noteq> ms_id changed \<Longrightarrow> find_stored db' i = find_stored db i"
    using persist_lane(1)[OF w(2)[unfolded saveAggregate_def]] saved_alone[OF w(2)] by auto
  then show ?thesis using kept versions w lane by auto
qed (use assms in simp)

theorem content_commands_move_nothing_witness:
  "\<exists>v db. saveAggregateWithTransition (\<lambda>_. True) empty_database sample_saved None sample_event = Inr (v, db) \<and>
    lanes_recorded (run_content (\<lambda>_. []) (\<lambda>_. True) db db (tq_request sample_transition) (Call_gates [''make test'']))"
proof -
  obtain v db where s: "saveAggregateWithTransition (\<lambda>_. True) empty_database sample_saved None sample_event = Inr (v, db)"
    using sample_saved_ok(2) by blast
  have "lanes_recorded db"
    using content_witness_lanes s by (rule first_event_keeps_lanes) (simp_all add: sample_event_def lifecycleLaneEvent_def)
  from content_commands_move_nothing[OF this here refl] s show ?thesis by blast
qed

text \<open>C16: A creation happens once. When a creation has completed, the same request, however late it is repeated,
  whatever was written meanwhile and whether the process still remembers it, writes nothing and never answers
  with another mission; and when the mission can be read it is completed with that mission again. Cancelling the
  created mission, which deletes it with its events, is not among the writes.\<close>

theorem creation_is_idempotent:
  assumes "execute_creation nt owns now seen db repository known allocated remembered request = (Success (m, v), memory, db1)"
    and "map_of remembered (cr_requestKey request) = None" and "reachable_by store_write seen db"
    and "reachable_by store_write db1 seen2" and "reachable_by store_write seen2 db2"
    and "cr_requestKey request2 = cr_requestKey request"
    and "map_of memory2 (cr_requestKey request) \<in> {None, Some (Success (m, v))}"
    and "execute_creation nt owns2 now2 seen2 db2 repository known2 allocated2 memory2 request2 = (result, memory3, db3)"
  shows "db3 = db2 \<and> (\<forall>m2 v2. result = Success (m2, v2) \<longrightarrow> ms_id m2 = ms_id m) \<and>
    (\<forall>m2 v2. loadAggregate nt seen2 (ms_id m) = Inr (Some (m2, v2)) \<and> ms_repositoryId m2 = repository \<and>
      \<not> blank (cr_operationId request2) \<and> ''mission:intake'' \<in> set (cr_capabilities request2) \<longrightarrow> (\<exists>x. result = Success x))"
proof -
  let ?key = "creationKey (cr_requestKey request)"
  have first: "create_mission nt owns now seen db repository known allocated request = (Success (m, v), db1)"
    and named: "\<not> blank (cr_requestKey request)"
    using assms(1,2) by (auto simp: execute_creation_def rejected_def Let_def split: if_splits prod.splits)
  have "findMissionIdByIdempotencyKey (db_events db1) repository ?key = Some (ms_id m)"
  proof (cases "recoverPersisted nt seen repository (cr_requestKey request)")
    case None
    with first show ?thesis
    proof (cases rule: create_unrecovered)
      case (taken ident valid)
      then show ?thesis by (rule intake_records_key)
    qed blast
  next
    case (Some outcome)
    then show ?thesis using first recovered_mission key_stays[OF assms(3)] by (auto simp: create_mission_def)
  qed
  then have keyed: "findMissionIdByIdempotencyKey (db_events seen2) repository ?key = Some (ms_id m)"
    "findMissionIdByIdempotencyKey (db_events db2) repository ?key = Some (ms_id m)"
    using key_stays assms(4,5) by blast+
  have second: "db' = db2 \<and> (\<forall>m2 v2. out = Success (m2, v2) \<longrightarrow> ms_id m2 = ms_id m) \<and>
      (\<forall>m2 v2. loadAggregate nt seen2 (ms_id m) = Inr (Some (m2, v2)) \<and> ms_repositoryId m2 = repository \<longrightarrow> (\<exists>x. out = Success x))"
    if "create_mission nt owns2 now2 seen2 db2 repository known2 allocated2 request2 = (out, db')" for out db'
  proof (cases "recoverPersisted nt seen2 repository (cr_requestKey request2)")
    case None
    then have "\<nexists>m2 v2. loadAggregate nt seen2 (ms_id m) = Inr (Some (m2, v2)) \<and> ms_repositoryId m2 = repository"
      using keyed(1) assms(6) by (auto simp: recoverPersisted_def)
    moreover have "db' = db2 \<and> (\<forall>x. out \<noteq> Success x)"
      using that None
    proof (cases rule: create_unrecovered)
      case (taken ident valid)
      then show ?thesis by (rule intake_with_key) (use keyed(2) assms(6) in simp)
    qed simp
    ultimately show ?thesis by blast
  next
    case (Some outcome)
    have "ms_id m2 = ms_id m" if "outcome = Success (m2, v2)" for m2 v2
      using recovered_mission[of nt seen2 repository "cr_requestKey request2" m2 v2] Some keyed(1) assms(6) that by simp
    moreover have "\<exists>x. outcome = Success x"
      if "loadAggregate nt seen2 (ms_id m) = Inr (Some (m2, v2))" "ms_repositoryId m2 = repository" for m2 v2
      using Some[unfolded recoverPersisted_def assms(6)] keyed(1) that by auto
    moreover have "out = outcome" "db' = db2" using Some that by (simp_all add: create_mission_def)
    ultimately show ?thesis by blast
  qed
  show ?thesis
  proof (cases "blank (cr_operationId request2) \<or> ''mission:intake'' \<notin> set (cr_capabilities request2)")
    case True
    then show ?thesis using assms(8) by (auto simp: execute_creation_def rejected_def split: if_splits)
  next
    case False
    note run = assms(8)[unfolded execute_creation_def] False named assms(6)
    show ?thesis
    proof (cases "map_of memory2 (cr_requestKey request)")
      case None
      obtain out db' where c: "create_mission nt owns2 now2 seen2 db2 repository known2 allocated2 request2 = (out, db')" by fastforce
      then have "result = out \<and> db3 = db'" using run None by (simp add: Let_def)
      then show ?thesis using second[OF c] by blast
    next
      case (Some prior)
      then show ?thesis using run assms(7) by auto
    qed
  qed
qed

theorem creation_is_idempotent_witness:
  "\<exists>db1 memory. execute_creation (\<lambda>_. []) (\<lambda>_. True) ''2026-01-01T00:00:00.000Z'' empty_database empty_database ''repo'' None
      (Some ''px-0001'') [] sample_creation = (Success (sample_taken, 1), memory, db1) \<and>
    snd (snd (execute_creation (\<lambda>_. []) (\<lambda>_. True) ''2026-01-02T00:00:00.000Z'' db1 db1 ''repo'' None
      (Some ''px-0002'') [] sample_creation)) = db1"
proof -
  obtain memory db1 where c: "execute_creation (\<lambda>_. []) (\<lambda>_. True) ''2026-01-01T00:00:00.000Z'' empty_database empty_database ''repo'' None
      (Some ''px-0001'') [] sample_creation = (Success (sample_taken, 1), memory, db1)"
    using sample_created by blast
  obtain result memory3 db3 where again: "execute_creation (\<lambda>_. []) (\<lambda>_. True) ''2026-01-02T00:00:00.000Z'' db1 db1 ''repo'' None
      (Some ''px-0002'') [] sample_creation = (result, memory3, db3)" by (metis prod_cases3)
  from creation_is_idempotent[OF c _ here here here refl _ again] c again show ?thesis by simp
qed

end
