(* ===== verification/Evidence.thy ===== *)
theory Evidence
  imports Patterns Checkpoints "HOL-Library.Multiset"
begin

text \<open>
  References cited as evidence: \<open>src/src/application/static-evidence.ts\<close>. A row of the Goal Check table is
  verifiable when a cell of it cites a file of the checkout, a test of its test directory, a decision record or
  a recognised command.

  The texts the regular expressions capture are read by \<open>tries\<close>, which lists the ends of a match in the order a
  backtracking matcher tries them; the first is the match. The file system is the port \<open>EvidenceFileSystemPort\<close>,
  an argument; a listing or a read that throws is an error. The walks over directories are loops over a stack, and
  \<open>None\<close> is a walk that does not end.
\<close>

section \<open>Matching with captures\<close>

text \<open>The ends of a match, the preferred first: an alternative before the next, one more repetition before none.\<close>

fun tries_many :: "(place \<Rightarrow> place list) \<Rightarrow> nat \<Rightarrow> place \<Rightarrow> place list" where
  "tries_many f 0 p = [p]"
| "tries_many f (Suc n) p =
     concat (map (\<lambda>q. if length (snd q) < length (snd p) then tries_many f n q else []) (f p)) @ [p]"

fun tries :: "rx \<Rightarrow> place \<Rightarrow> place list" where
  "tries (Lit a) p = ends (Lit a) p"
| "tries (Class P) p = ends (Class P) p"
| "tries Edge p = ends Edge p"
| "tries Front p = ends Front p"
| "tries (Seq r t) p = concat (map (tries t) (tries r p))"
| "tries (Alt r t) p = tries r p @ tries t p"
| "tries (Many r) p = tries_many (tries r) (length (snd p)) p"
| "tries Nothing p = [p]"

text \<open>A matcher answers with what it captured and where the match ends, the preferred match first.\<close>

type_synonym matcher = "place \<Rightarrow> (string \<times> place) list"

definition between :: "place \<Rightarrow> place \<Rightarrow> string" where
  "between p q = take (length (snd p) - length (snd q)) (snd p)"

definition capturing :: "rx \<Rightarrow> rx \<Rightarrow> rx \<Rightarrow> matcher" where
  "capturing lead inner after p = concat (map (\<lambda>q. concat (map (\<lambda>u. map (Pair (between q u)) (tries after u))
     (tries inner q))) (tries lead p))"

definition is_quote :: "char \<Rightarrow> bool" where
  "is_quote c \<longleftrightarrow> c = CHR 0x27 \<or> c = CHR 0x22 \<or> c = CHR 0x60"

text \<open>\<open>(['"`])([^'"`]+)\1\<close> after \<open>lead\<close>.\<close>

definition quoting :: "rx \<Rightarrow> matcher" where
  "quoting lead p = concat (map (\<lambda>q. case snd q of
       [] \<Rightarrow> []
     | c # s \<Rightarrow> if is_quote c
         then capturing Nothing (some_of (Class (\<lambda>d. \<not> is_quote d))) (Class (\<lambda>d. d = c)) (Some c, s) else [])
     (tries lead p))"

text \<open>The captures of all matches, each searched from where the one before ended. No pattern here matches the
  empty text.\<close>

function all_matches :: "matcher \<Rightarrow> place \<Rightarrow> string list" where
  "all_matches f p = (case f p of
      (captured, q) # _ \<Rightarrow> if length (snd q) < length (snd p) then captured # all_matches f q else []
    | [] \<Rightarrow> (case snd p of [] \<Rightarrow> [] | c # s \<Rightarrow> all_matches f (Some c, s)))"
  by pat_completeness auto
termination by (relation "measure (\<lambda>(f, p). length (snd p))") auto

text \<open>\<open>text.replace(pattern, put)\<close> with the flag \<open>g\<close>.\<close>

function replace_matches :: "matcher \<Rightarrow> (string \<Rightarrow> string) \<Rightarrow> place \<Rightarrow> string" where
  "replace_matches f put p = (case f p of
      (captured, q) # _ \<Rightarrow> if length (snd q) < length (snd p) then put captured @ replace_matches f put q else snd p
    | [] \<Rightarrow> (case snd p of [] \<Rightarrow> [] | c # s \<Rightarrow> c # replace_matches f put (Some c, s)))"
  by pat_completeness auto
termination by (relation "measure (\<lambda>(f, put, p). length (snd p))") auto

declare all_matches.simps [simp del] replace_matches.simps [simp del]

definition matches_of :: "matcher \<Rightarrow> string \<Rightarrow> string list" where
  "matches_of f s = all_matches f (None, s)"

text \<open>A test whose expression ends with \<open>$\<close>.\<close>

fun test_end_from :: "rx \<Rightarrow> char option \<Rightarrow> string \<Rightarrow> bool" where
  "test_end_from r q [] = list_ex (\<lambda>u. snd u = []) (ends r (q, []))"
| "test_end_from r q (c # s) = (list_ex (\<lambda>u. snd u = []) (ends r (q, c # s)) \<or> test_end_from r (Some c) s)"

definition test_end :: "rx \<Rightarrow> string \<Rightarrow> bool" where
  "test_end r s = test_end_from r None s"

text \<open>A word compared with its case.\<close>

definition text_rx :: "string \<Rightarrow> rx" where
  "text_rx w = seq_of (map (\<lambda>c. Class (\<lambda>d. d = c)) w)"

definition one_of :: "string \<Rightarrow> rx" where
  "one_of cs = Class (\<lambda>c. c \<in> set cs)"

definition path_chars :: rx where \<comment> \<open>\<open>[\w./-]\<close>\<close>
  "path_chars = Class (\<lambda>c. ascii_word c \<or> c \<in> {CHR ''.'', CHR ''/'', CHR ''-''})"

definition word_dash :: rx where \<comment> \<open>\<open>[\w-]\<close>\<close>
  "word_dash = Class (\<lambda>c. ascii_word c \<or> c = CHR ''-'')"

definition digits_rx :: rx where
  "digits_rx = some_of (Class is_digit)"

section \<open>Paths\<close>

text \<open>\<open>path\<close> of Node on a POSIX host. \<open>settle\<close> reads the segments with the ones kept so far in reverse.\<close>

fun settle :: "bool \<Rightarrow> string list \<Rightarrow> string list \<Rightarrow> string list" where
  "settle absolute kept [] = rev kept"
| "settle absolute kept (s # ss) =
     (if s = [] \<or> s = ''.'' then settle absolute kept ss
      else if s = ''..'' then
        (if kept \<noteq> [] \<and> hd kept \<noteq> ''..'' then settle absolute (tl kept) ss
         else if absolute then settle absolute kept ss else settle absolute (s # kept) ss)
      else settle absolute (s # kept) ss)"

definition isAbsolute :: "string \<Rightarrow> bool" where
  "isAbsolute path \<longleftrightarrow> (case path of [] \<Rightarrow> False | c # _ \<Rightarrow> c = CHR ''/'')"

definition path_join :: "string list \<Rightarrow> string" where
  "path_join parts =
     (let joined = join ''/'' (filter (\<lambda>p. p \<noteq> []) parts); absolute = isAbsolute joined;
          body = join ''/'' (settle absolute [] (split_on CHR ''/'' joined));
          shut = (ends_with ''/'' joined) in
      if joined = [] then ''.''
      else if body = [] then (if absolute then ''/'' else if shut then ''./'' else ''.'')
      else (if absolute then ''/'' else []) @ body @ (if shut then ''/'' else []))"

definition path_resolve :: "string \<Rightarrow> string \<Rightarrow> string \<Rightarrow> string" where
  "path_resolve cwd base path =
     (let full = (if isAbsolute path then path else if isAbsolute base then base @ ''/'' @ path
         else cwd @ ''/'' @ base @ ''/'' @ path) in
      ''/'' @ join ''/'' (settle True [] (split_on CHR ''/'' full)))"

definition path_basename :: "string \<Rightarrow> string" where
  "path_basename path = default_to [] (at_last (filter (\<lambda>s. s \<noteq> []) (split_on CHR ''/'' path)))"

text \<open>A candidate is read with both separators, as \<open>split(/[\\/]/)\<close> does.\<close>

fun split_paths :: "string \<Rightarrow> string list" where
  "split_paths [] = [[]]"
| "split_paths (c # s) =
     (if c = CHR ''/'' \<or> c = CHR 0x5C then [] # split_paths s
      else (case split_paths s of [] \<Rightarrow> [[c]] | l # ls \<Rightarrow> (c # l) # ls))"

fun escapes_from :: "int \<Rightarrow> string list \<Rightarrow> bool" where
  "escapes_from depth [] = False"
| "escapes_from depth (s # ss) =
     (if s = ''..'' then depth - 1 < 0 \<or> escapes_from (depth - 1) ss
      else if s \<noteq> ''.'' \<and> s \<noteq> [] then escapes_from (depth + 1) ss else escapes_from depth ss)"

definition pathEscapesRoot :: "string \<Rightarrow> bool" where
  "pathEscapesRoot candidatePath = escapes_from 0 (split_paths candidatePath)"

definition repositoryPath :: "string \<Rightarrow> string \<Rightarrow> string \<Rightarrow> string option" where
  "repositoryPath cwd rootDir candidatePath =
     (if isAbsolute candidatePath \<or> pathEscapesRoot candidatePath then None
      else Some (path_resolve cwd rootDir candidatePath))"

section \<open>The file system\<close>

record dirent =
  de_name :: string
  de_isDirectory :: bool
  de_isFile :: bool

record file_system =
  fs_cwd :: string \<comment> \<open>\<open>process.cwd()\<close>\<close>
  fs_exists :: "string \<Rightarrow> bool"
  fs_read :: "string \<Rightarrow> string option" \<comment> \<open>\<open>None\<close> where the port throws\<close>
  fs_entries :: "string \<Rightarrow> dirent list option"
  fs_names :: "string \<Rightarrow> string list option"

datatype io_fault = Read_failed | Listing_failed

type_synonym 'a walk = "(io_fault + 'a) option"

definition existsInRepository :: "file_system \<Rightarrow> string \<Rightarrow> string \<Rightarrow> bool" where
  "existsInRepository fs rootDir candidatePath =
     (case repositoryPath (fs_cwd fs) rootDir candidatePath of None \<Rightarrow> False | Some resolved \<Rightarrow> fs_exists fs resolved)"

text \<open>\<open>/\.(?:test|spec|cases)\.[cm]?[jt]sx?$/i\<close>.\<close>

definition test_module :: "string \<Rightarrow> bool" where
  "test_module name = test_end (seq_of [Lit CHR ''.'', any_of [word ''test'', word ''spec'', word ''cases''], Lit CHR ''.'',
     maybe (any_of [Lit CHR ''c'', Lit CHR ''m'']), any_of [Lit CHR ''j'', Lit CHR ''t''], Lit CHR ''s'',
     maybe (Lit CHR ''x'')]) name"

text \<open>\<open>/\b(?:test|it)(?:\.\w+)?\s*\(\s*(['"`])([^'"`]+)\1/g\<close>.\<close>

definition test_name_matcher :: matcher where
  "test_name_matcher = quoting (seq_of [Edge, any_of [text_rx ''test'', text_rx ''it''],
     maybe (Seq (text_rx ''.'') (some_of (Class ascii_word))), Many (Class js_space), text_rx ''('',
     Many (Class js_space)])"

text \<open>One directory: its directories go on the stack, the test names of its test modules are added.\<close>

fun scan_entries :: "file_system \<Rightarrow> string \<Rightarrow> dirent list \<Rightarrow> string list \<Rightarrow> string list \<Rightarrow> io_fault + string list \<times> string list" where
  "scan_entries fs current [] queue names = Inr (queue, names)"
| "scan_entries fs current (e # es) queue names =
     (let fullPath = path_join [current, de_name e] in
      if de_isDirectory e then scan_entries fs current es (queue @ [fullPath]) names
      else if \<not> de_isFile e \<or> \<not> test_module (de_name e) then scan_entries fs current es queue names
      else (case fs_read fs fullPath of
          None \<Rightarrow> Inl Read_failed
        | Some text \<Rightarrow> scan_entries fs current es queue (names @ matches_of test_name_matcher text)))"

partial_function (option) collect_names :: "file_system \<Rightarrow> string list \<Rightarrow> string list \<Rightarrow> string list walk" where
  "collect_names fs queue names =
     (if queue = [] then Some (Inr names)
      else (case fs_entries fs (last queue) of
          None \<Rightarrow> collect_names fs (butlast queue) names
        | Some es \<Rightarrow> (case scan_entries fs (last queue) es (butlast queue) names of
              Inl fault \<Rightarrow> Some (Inl fault)
            | Inr (queue', names') \<Rightarrow> collect_names fs queue' names')))"

definition collectRepoTestNames :: "file_system \<Rightarrow> string \<Rightarrow> string list walk" where
  "collectRepoTestNames fs rootDir =
     (let testRoot = path_join [rootDir, ''test''] in
      if \<not> fs_exists fs testRoot then Some (Inr []) else collect_names fs [testRoot] [])"

text \<open>\<open>None\<close> in the result of a directory is the file found.\<close>

fun scan_source :: "string \<Rightarrow> string \<Rightarrow> dirent list \<Rightarrow> string list \<Rightarrow> string list option" where
  "scan_source current basename [] queue = Some queue"
| "scan_source current basename (e # es) queue =
     (if de_isDirectory e then scan_source current basename es (queue @ [path_join [current, de_name e]])
      else if de_isFile e \<and> de_name e = basename then None
      else scan_source current basename es queue)"

partial_function (option) source_walk :: "file_system \<Rightarrow> string \<Rightarrow> string list \<Rightarrow> bool walk" where
  "source_walk fs basename queue =
     (if queue = [] then Some (Inr False)
      else (case fs_entries fs (last queue) of
          None \<Rightarrow> Some (Inl Listing_failed)
        | Some es \<Rightarrow> (case scan_source (last queue) basename es (butlast queue) of
              None \<Rightarrow> Some (Inr True)
            | Some queue' \<Rightarrow> source_walk fs basename queue')))"

definition canonicalSourceContainsFile :: "file_system \<Rightarrow> string \<Rightarrow> string \<Rightarrow> bool walk" where
  "canonicalSourceContainsFile fs rootDir basename =
     (let sourceRoot = path_join [rootDir, ''src''] in
      if \<not> fs_exists fs sourceRoot then Some (Inr False) else source_walk fs basename [sourceRoot])"

declare collect_names.simps [code] source_walk.simps [code]

section \<open>What a cell cites\<close>

text \<open>\<open>[text](target)\<close> reads as \<open>target\<close>: \<open>/\[[^\]]+\]\(([^)]+)\)/g\<close>.\<close>

definition link_matcher :: matcher where
  "link_matcher = capturing (seq_of [text_rx ''['', some_of (Class (\<lambda>c. c \<noteq> CHR '']'')), text_rx '']('' ])
     (some_of (Class (\<lambda>c. c \<noteq> CHR '')''))) (text_rx '')'')"

definition unlinked :: "string \<Rightarrow> string" where
  "unlinked cell = replace_matches link_matcher (\<lambda>target. target) (None, cell)"

definition cited_start :: rx where \<comment> \<open>\<open>(?:^|[\s(`])\<close>\<close>
  "cited_start = Alt Front (Class (\<lambda>c. js_space c \<or> c = CHR ''('' \<or> c = CHR 0x60))"

definition path_lead :: rx where \<comment> \<open>\<open>(?:\/|\.\/)?\<close>\<close>
  "path_lead = maybe (Alt (text_rx ''/'') (text_rx ''./''))"

definition file_line_matcher :: matcher where
  "file_line_matcher = capturing cited_start
     (seq_of [path_lead, some_of path_chars, text_rx ''.'', some_of word_dash])
     (seq_of [text_rx '':'', digits_rx, maybe (Seq (text_rx ''-'') digits_rx)])"

definition bare_path_matcher :: matcher where
  "bare_path_matcher = capturing cited_start
     (seq_of [path_lead, some_of (Alt path_chars (text_rx '' '')), text_rx ''.'', some_of word_dash]) Nothing"

fun any_file_line :: "file_system \<Rightarrow> string \<Rightarrow> string list \<Rightarrow> bool walk" where
  "any_file_line fs rootDir [] = Some (Inr False)"
| "any_file_line fs rootDir (candidate # rest) =
     (let canonical = (if \<not> isAbsolute candidate \<and> \<not> pathEscapesRoot candidate \<and> strip_prefix ''lib/'' candidate \<noteq> None
          then canonicalSourceContainsFile fs rootDir (path_basename candidate) else Some (Inr False)) in
      case canonical of
        None \<Rightarrow> None
      | Some (Inl fault) \<Rightarrow> Some (Inl fault)
      | Some (Inr found) \<Rightarrow> if existsInRepository fs rootDir candidate \<or> found then Some (Inr True)
          else any_file_line fs rootDir rest)"

definition hasFileLineReference :: "file_system \<Rightarrow> string \<Rightarrow> string \<Rightarrow> bool walk" where
  "hasFileLineReference fs normalized rootDir = any_file_line fs rootDir (matches_of file_line_matcher normalized)"

definition hasBarePathReference :: "file_system \<Rightarrow> string \<Rightarrow> string \<Rightarrow> bool" where
  "hasBarePathReference fs normalized rootDir = list_ex (\<lambda>cited.
     let parts = split_on CHR '' '' (trim cited) in
     list_ex (\<lambda>start. existsInRepository fs rootDir (join '' '' (drop start parts))) [0..<length parts])
     (matches_of bare_path_matcher normalized)"

definition adr_matcher :: matcher where \<comment> \<open>\<open>/\bADR\s+(\d{4})\b/g\<close>\<close>
  "adr_matcher = capturing (seq_of [Edge, text_rx ''ADR'', gap])
     (seq_of [Class is_digit, Class is_digit, Class is_digit, Class is_digit]) Edge"

fun any_adr :: "file_system \<Rightarrow> string \<Rightarrow> string list \<Rightarrow> io_fault + bool" where
  "any_adr fs adrDir [] = Inr False"
| "any_adr fs adrDir (number # rest) =
     (if \<not> fs_exists fs adrDir then any_adr fs adrDir rest
      else case fs_names fs adrDir of
          None \<Rightarrow> Inl Listing_failed
        | Some names \<Rightarrow>
            if list_ex (\<lambda>name. strip_prefix (number @ ''-'') name \<noteq> None \<and> ends_with ''.md'' name) names then Inr True
            else any_adr fs adrDir rest)"

definition hasAdrReference :: "file_system \<Rightarrow> string \<Rightarrow> string \<Rightarrow> io_fault + bool" where
  "hasAdrReference fs normalized rootDir =
     any_adr fs (path_join [rootDir, ''docs'', ''adr'']) (matches_of adr_matcher normalized)"

definition hasQuotedTestReference :: "string \<Rightarrow> string list \<Rightarrow> bool" where
  "hasQuotedTestReference normalized knownTestNames =
     list_ex (\<lambda>name. name \<in> set knownTestNames) (matches_of (quoting Nothing) normalized)"

text \<open>\<open>command.split(/\s+/)\<close>.\<close>

fun split_blank :: "bool \<Rightarrow> string \<Rightarrow> string list" where
  "split_blank inside [] = [[]]"
| "split_blank inside (c # s) =
     (if js_space c then (if inside then split_blank True s else [] # split_blank True s)
      else (case split_blank False s of [] \<Rightarrow> [[c]] | l # ls \<Rightarrow> (c # l) # ls))"

definition command_words :: "string \<Rightarrow> string list" where
  "command_words command = split_blank False command"

definition begins_with_command :: "string list \<Rightarrow> string \<Rightarrow> bool" where
  "begins_with_command names command \<longleftrightarrow> ends (Seq (any_of (map word names)) gap) (None, command) \<noteq> []"

definition isVerifiableCommand :: "file_system \<Rightarrow> string \<Rightarrow> string \<Rightarrow> bool" where
  "isVerifiableCommand fs command rootDir =
     (if begins_with_command [''npm'', ''npx'', ''node'', ''git'', ''px''] command then True
      else if strip_prefix ''./'' command \<noteq> None then existsInRepository fs rootDir (hd (command_words command))
      else begins_with_command [''bash'', ''sh'', ''cat'', ''head'', ''tail'', ''diff'', ''grep'', ''sed'', ''awk'',
          ''xxd'', ''od'', ''wc'', ''sort'', ''uniq'', ''stat'', ''ls''] command \<and>
        list_ex (\<lambda>arg. strip_prefix ''-'' arg = None \<and> existsInRepository fs rootDir arg) (tl (command_words command)))"

definition two_ticks :: matcher where
  "two_ticks = capturing Nothing (text_rx [CHR 0x60, CHR 0x60]) Nothing"

definition inline_command :: matcher where
  "inline_command = capturing (text_rx [CHR 0x60]) (some_of (Class (\<lambda>c. c \<noteq> CHR 0x60))) (text_rx [CHR 0x60])"

definition hasCommandReference :: "file_system \<Rightarrow> string \<Rightarrow> string \<Rightarrow> bool" where
  "hasCommandReference fs cell rootDir =
     list_ex (\<lambda>command. isVerifiableCommand fs (trim command) rootDir)
       (matches_of inline_command (replace_matches two_ticks (\<lambda>_. ''  '') (None, cell)))"

definition evidenceCellHasVerifiableReference :: "file_system \<Rightarrow> string \<Rightarrow> string \<Rightarrow> string list \<Rightarrow> bool walk" where
  "evidenceCellHasVerifiableReference fs cell rootDir knownTestNames =
     (let normalized = unlinked cell in
      case hasFileLineReference fs normalized rootDir of
        None \<Rightarrow> None
      | Some (Inl fault) \<Rightarrow> Some (Inl fault)
      | Some (Inr True) \<Rightarrow> Some (Inr True)
      | Some (Inr False) \<Rightarrow>
          if hasBarePathReference fs normalized rootDir then Some (Inr True)
          else case hasAdrReference fs normalized rootDir of
              Inl fault \<Rightarrow> Some (Inl fault)
            | Inr adr \<Rightarrow> Some (Inr (adr \<or> hasQuotedTestReference normalized knownTestNames \<or>
                hasCommandReference fs cell rootDir)))"

section \<open>Rows\<close>

definition goalCheckTableRow :: "goal_row \<Rightarrow> string" where
  "goalCheckTableRow row = ''| '' @ gr_criterion row @ '' | '' @ gr_evidence row @ '' |''"

fun some_cell :: "file_system \<Rightarrow> string \<Rightarrow> string list \<Rightarrow> string list \<Rightarrow> bool walk" where
  "some_cell fs rootDir names [] = Some (Inr False)"
| "some_cell fs rootDir names (cell # cells) =
     (case evidenceCellHasVerifiableReference fs cell rootDir names of
        Some (Inr False) \<Rightarrow> some_cell fs rootDir names cells
      | answer \<Rightarrow> answer)"

text \<open>\<open>row.split('|').slice(1, -1).map(trim).filter(Boolean)\<close>.\<close>

definition row_cells :: "string \<Rightarrow> string list" where
  "row_cells row = filter (\<lambda>cell. cell \<noteq> []) (map trim (butlast (tl (split_on CHR ''|'' row))))"

text \<open>The test names are collected when the first row needs them.\<close>

fun unverifiable_row :: "file_system \<Rightarrow> string \<Rightarrow> string list option \<Rightarrow> string list \<Rightarrow> string option walk" where
  "unverifiable_row fs rootDir known [] = Some (Inr None)"
| "unverifiable_row fs rootDir known (row # rows) =
     (case some_cell fs rootDir (default_to [] known) (row_cells row) of
        None \<Rightarrow> None
      | Some (Inl fault) \<Rightarrow> Some (Inl fault)
      | Some (Inr True) \<Rightarrow> unverifiable_row fs rootDir known rows
      | Some (Inr False) \<Rightarrow>
          (case (case known of None \<Rightarrow> collectRepoTestNames fs rootDir | Some names \<Rightarrow> Some (Inr names)) of
             None \<Rightarrow> None
           | Some (Inl fault) \<Rightarrow> Some (Inl fault)
           | Some (Inr names) \<Rightarrow>
               (case some_cell fs rootDir names (row_cells row) of
                  None \<Rightarrow> None
                | Some (Inl fault) \<Rightarrow> Some (Inl fault)
                | Some (Inr True) \<Rightarrow> unverifiable_row fs rootDir (Some names) rows
                | Some (Inr False) \<Rightarrow> Some (Inr (Some row)))))"

definition findUnverifiableGoalCheckRow :: "file_system \<Rightarrow> string list \<Rightarrow> string \<Rightarrow> string option walk" where
  "findUnverifiableGoalCheckRow fs evidenceRows rootDir = unverifiable_row fs rootDir None evidenceRows"

text \<open>The tokens of a row that look like paths, \<open>/(?:\.\/)?[\w./-]*[\w-]\.[A-Za-z][\w-]*(?::\d+(?:-\d+)?)?/g\<close>, without
  their line numbers.\<close>

definition line_suffix :: rx where
  "line_suffix = seq_of [text_rx '':'', digits_rx, maybe (Seq (text_rx ''-'') digits_rx)]"

definition path_token :: matcher where
  "path_token = capturing Nothing (seq_of [maybe (text_rx ''./''), Many path_chars, word_dash, text_rx ''.'',
     Class (\<lambda>c. is_lower c \<or> is_upper c), Many word_dash, maybe line_suffix]) Nothing"

text \<open>\<open>token.replace(/:\d+(?:-\d+)?$/, '')\<close>: the first place where the suffix ends the token.\<close>

fun drop_suffix_from :: "char option \<Rightarrow> string \<Rightarrow> string" where
  "drop_suffix_from q [] = []"
| "drop_suffix_from q (c # s) =
     (if list_ex (\<lambda>u. snd u = []) (ends line_suffix (q, c # s)) then [] else c # drop_suffix_from (Some c) s)"

definition source_token :: "string \<Rightarrow> bool" where \<comment> \<open>\<open>/[\w-]\.(?:[cm]?[jt]sx?|md|json|sh|ya?ml)$/i\<close>\<close>
  "source_token = test_end (seq_of [word_dash, Lit CHR ''.'', any_of [
     seq_of [maybe (any_of [Lit CHR ''c'', Lit CHR ''m'']), any_of [Lit CHR ''j'', Lit CHR ''t''], Lit CHR ''s'',
       maybe (Lit CHR ''x'')],
     word ''md'', word ''json'', word ''sh'',
     seq_of [Lit CHR ''y'', maybe (Lit CHR ''a''), word ''ml'']]])"

definition unresolvedPathReferences :: "file_system \<Rightarrow> string \<Rightarrow> string \<Rightarrow> string list" where
  "unresolvedPathReferences fs row rootDir =
     dedupe (filter (\<lambda>token. \<not> existsInRepository fs rootDir token) (filter source_token
       (map (drop_suffix_from None) (matches_of path_token (unlinked row)))))"

definition describeUnverifiableGoalCheckRow :: "file_system \<Rightarrow> string \<Rightarrow> string \<Rightarrow> string" where
  "describeUnverifiableGoalCheckRow fs row rootDir =
     (let unresolved = unresolvedPathReferences fs row rootDir; tick = [CHR 0x60];
          hint = (if unresolved = [] then []
            else '' '' @ join '', '' (map (\<lambda>token. tick @ token @ tick) unresolved) @
              '' does not exist relative to the repository root; cite the repository-relative path (for example '' @
              tick @ ''test/unit/example.test.ts'' @ tick @ '').'') in
      ''Goal Check row cites no verifiable reference: an existing repository-relative path, a quoted exact test name '' @
      ''from a test/ .test, .spec or .cases module, a recognized command such as '' @ tick @ ''npm test'' @ tick @
      '', or an ADR reference.'' @ hint @ '' Offending row: '' @ row)"

definition findUnverifiableRecordedRow :: "file_system \<Rightarrow> goal_row list \<Rightarrow> string \<Rightarrow> (string \<times> string) option walk" where
  "findUnverifiableRecordedRow fs rows rootDir =
     map_option (map_sum id (map_option (\<lambda>row. (row, describeUnverifiableGoalCheckRow fs row rootDir))))
       (findUnverifiableGoalCheckRow fs (map goalCheckTableRow rows) rootDir)"

text \<open>The rows of a Goal Check table written in Markdown, up to the first line that is no row.\<close>

definition any_char :: rx where \<comment> \<open>\<open>.\<close>\<close>
  "any_char = Class (\<lambda>c. c \<noteq> char_of (10 :: nat) \<and> c \<noteq> char_of (13 :: nat))"

definition separator_line :: "string \<Rightarrow> bool" where \<comment> \<open>\<open>/^\|(?:\s*:?-+:?\s*\|)+$/\<close>\<close>
  "separator_line line = test_end (seq_of [Front, text_rx ''|'', some_of (seq_of [Many (Class js_space),
     maybe (text_rx '':''), some_of (text_rx ''-''), maybe (text_rx '':''), Many (Class js_space), text_rx ''|''])]) line"

definition table_line :: "string \<Rightarrow> bool" where \<comment> \<open>\<open>/^\| .+\| .+\| .+\|$/\<close>\<close>
  "table_line line = test_end (seq_of [Front, text_rx ''| '', some_of any_char, text_rx ''| '', some_of any_char,
     text_rx ''| '', some_of any_char, text_rx ''|'']) line"

fun evidence_rows :: "bool \<Rightarrow> string list \<Rightarrow> string list" where
  "evidence_rows pastHeader [] = []"
| "evidence_rows pastHeader (line # rest) =
     (let trimmed = trim line in
      if trimmed = [] then evidence_rows pastHeader rest
      else if \<not> pastHeader \<and> table_line trimmed then evidence_rows True rest
      else if separator_line trimmed then evidence_rows pastHeader rest
      else if pastHeader \<and> table_line trimmed then trimmed # evidence_rows pastHeader rest
      else [])"

definition collectGoalCheckEvidenceRows :: "string \<Rightarrow> string list" where
  "collectGoalCheckEvidenceRows afterHeader = evidence_rows False (split_on (char_of (10 :: nat)) afterHeader)"

section \<open>The matcher finds the matches\<close>

lemma set_tries_many:
  assumes "\<And>p. set (f p) = set (g p)"
  shows "set (tries_many f n p) = set (ends_many g n p)"
  by (induction n arbitrary: p) (auto simp: assms)

lemma set_tries: "set (tries r p) = set (ends r p)"
proof (induction r arbitrary: p)
  case (Many r)
  then show ?case by (simp add: set_tries_many)
qed (auto simp del: ends.simps(1,2,3,4))

lemma tries_iff: "q \<in> set (tries r p) \<longleftrightarrow> matches r p q"
  by (simp add: set_tries ends_iff)

lemma capturing_iff:
  "(captured, v) \<in> set (capturing lead inner after p) \<longleftrightarrow>
    (\<exists>q u. matches lead p q \<and> matches inner q u \<and> matches after u v \<and> captured = between q u)"
proof -
  have "(captured, v) \<in> set (capturing lead inner after p) \<longleftrightarrow>
      (\<exists>q\<in>set (tries lead p). \<exists>u\<in>set (tries inner q). (captured, v) \<in> Pair (between q u) ` set (tries after u))"
    by (simp add: capturing_def)
  also have "\<dots> \<longleftrightarrow> (\<exists>q u. matches lead p q \<and> matches inner q u \<and> matches after u v \<and> captured = between q u)"
    unfolding tries_iff[symmetric] by blast
  finally show ?thesis .
qed

text \<open>Every character an expression consumes satisfies \<open>P\<close>.\<close>

fun consumes_only :: "(char \<Rightarrow> bool) \<Rightarrow> rx \<Rightarrow> bool" where
  "consumes_only P (Lit a) \<longleftrightarrow> (\<forall>c. same_letter a c \<longrightarrow> P c)"
| "consumes_only P (Class Q) \<longleftrightarrow> (\<forall>c. Q c \<longrightarrow> P c)"
| "consumes_only P (Seq r t) \<longleftrightarrow> consumes_only P r \<and> consumes_only P t"
| "consumes_only P (Alt r t) \<longleftrightarrow> consumes_only P r \<and> consumes_only P t"
| "consumes_only P (Many r) \<longleftrightarrow> consumes_only P r"
| "consumes_only P _ \<longleftrightarrow> True"

lemma matches_consumed: "matches r p q \<Longrightarrow> consumes_only P r \<Longrightarrow> \<exists>taken. snd p = taken @ snd q \<and> list_all P taken"
proof (induction rule: matches.induct)
  case (lit a c q s)
  then show ?case by (intro exI[of _ "[c]"]) simp
next
  case (cls Q c q s)
  then show ?case by (intro exI[of _ "[c]"]) simp
next
  case (seq r p q t u)
  then obtain x y where "snd p = x @ snd q" "snd q = y @ snd u" "list_all P x" "list_all P y" by auto
  then show ?case by (intro exI[of _ "x @ y"]) simp
next
  case (more r p q u)
  then obtain x y where "snd p = x @ snd q" "snd q = y @ snd u" "list_all P x" "list_all P y" by auto
  then show ?case by (intro exI[of _ "x @ y"]) simp
qed auto

lemma matches_between: "matches r p q \<Longrightarrow> consumes_only P r \<Longrightarrow> list_all P (between p q)"
  by (drule (1) matches_consumed) (auto simp: between_def)

lemma captured_only:
  assumes "consumes_only P inner" and "captured \<in> set (all_matches (capturing lead inner after) p)"
  shows "list_all P captured"
  using assms(2)
proof (induction "capturing lead inner after" p rule: all_matches.induct)
  case (1 p)
  show ?case
  proof (cases "capturing lead inner after p")
    case Nil
    with 1(1)[OF Nil] "1.prems" show ?thesis by (cases "snd p") (simp_all add: all_matches.simps[of _ p])
  next
    case (Cons m ms)
    obtain w q where m: "m = (w, q)" by (cases m)
    have "(w, q) \<in> set (capturing lead inner after p)" using Cons m by simp
    then have w: "list_all P w" unfolding capturing_iff using assms(1) by (auto intro: matches_between)
    show ?thesis
    proof (cases "length (snd q) < length (snd p)")
      case True
      then have "captured = w \<or> captured \<in> set (all_matches (capturing lead inner after) q)"
        using "1.prems" Cons m by (simp add: all_matches.simps[of _ p])
      then show ?thesis using w 1(2)[OF Cons m[symmetric] True] by blast
    next
      case False
      then show ?thesis using "1.prems" Cons m by (simp add: all_matches.simps[of _ p])
    qed
  qed
qed

section \<open>Paths stay in the checkout\<close>

lemma settle_append: "settle True kept (xs @ ys) = settle True (rev (settle True kept xs)) ys"
  by (induction xs arbitrary: kept) simp_all

definition plain_segment :: "string \<Rightarrow> bool" where
  "plain_segment s \<longleftrightarrow> s \<noteq> [] \<and> s \<noteq> ''.'' \<and> s \<noteq> ''..''"

lemma settle_plain: "list_all plain_segment kept \<Longrightarrow> list_all plain_segment (settle True kept xs)"
proof (induction xs arbitrary: kept)
  case (Cons s ss)
  have up: "list_all plain_segment (tl kept)" using Cons.prems by (cases kept) simp_all
  have down: "list_all plain_segment (settle True (s # kept) ss)" if "s \<noteq> []" "s \<noteq> ''.''" "s \<noteq> ''..''"
    by (rule Cons.IH) (use that Cons.prems in \<open>simp add: plain_segment_def\<close>)
  show ?case using Cons.IH[OF up] Cons.IH[OF Cons.prems] down by simp
qed (simp add: list_all_iff)

lemma settle_below:
  "list_all plain_segment kept \<Longrightarrow> \<not> escapes_from (int (length upper)) xs \<Longrightarrow>
    \<exists>below. list_all plain_segment below \<and> settle True (upper @ kept) xs = rev kept @ below"
  if "list_all plain_segment upper"
  using that
proof (induction xs arbitrary: upper)
  case Nil
  then show ?case by (intro exI[of _ "rev upper"]) simp
next
  case (Cons s ss)
  show ?case
  proof (cases "s = ''..''")
    case True
    then obtain a upper' where a: "upper = a # upper'" using Cons.prems by (cases upper) auto
    then have "a \<noteq> ''..''" using Cons.prems by (simp add: plain_segment_def)
    then show ?thesis using Cons.IH[of upper'] Cons.prems True a by simp
  next
    case False
    then show ?thesis using Cons.IH[of upper] Cons.IH[of "s # upper"] Cons.prems
      by (auto simp: plain_segment_def add.commute split: if_splits)
  qed
qed

lemma split_paths_plain: "CHR 0x5C \<notin> set s \<Longrightarrow> split_paths s = split_on CHR ''/'' s"
  by (induction s) (auto split: list.splits)

lemma split_on_append: "split_on c (s @ c # t) = split_on c s @ split_on c t"
proof (induction s)
  case (Cons d s)
  then show ?case by (cases "split_on c s") auto
qed simp

text \<open>The segments of the checkout.\<close>

definition root_segments :: "string \<Rightarrow> string list" where
  "root_segments rootDir = settle True [] (split_on CHR ''/'' rootDir)"

section \<open>The walks end\<close>

text \<open>\<open>height\<close> bounds the directories of a finite tree: a listed directory is lower than the one that lists it.\<close>

definition finite_tree :: "file_system \<Rightarrow> (string \<Rightarrow> nat) \<Rightarrow> bool" where
  "finite_tree fs height \<longleftrightarrow> (\<forall>d es. fs_entries fs d = Some es \<longrightarrow>
     list_all (\<lambda>e. de_isDirectory e \<longrightarrow> height (path_join [d, de_name e]) < height d) es)"

definition stack_order :: "(string \<Rightarrow> nat) \<Rightarrow> (string list \<times> string list) set" where
  "stack_order height = inv_image (mult less_than) (\<lambda>queue. image_mset height (mset queue))"

lemma wf_stack_order: "wf (stack_order height)"
  by (simp add: stack_order_def wf_mult)

text \<open>Replacing the top of the stack by lower directories.\<close>

lemma lower_stack:
  assumes "queue \<noteq> []" and "list_all (\<lambda>d. height d < height (last queue)) lower"
  shows "(butlast queue @ lower, queue) \<in> stack_order height"
proof -
  obtain top rest where q: "queue = rest @ [top]" using assms(1) by (metis append_butlast_last_id)
  let ?rest = "image_mset height (mset rest)"
  have "(?rest + image_mset height (mset lower), ?rest + {#height top#}) \<in> mult less_than"
    by (rule one_step_implies_mult) (use assms(2) q in \<open>auto simp: list_all_iff\<close>)
  then show ?thesis by (simp add: stack_order_def q)
qed

lemma scanned_names:
  "scan_entries fs d es queue names = Inr (queue', names') \<Longrightarrow>
    list_all (\<lambda>e. de_isDirectory e \<longrightarrow> height (path_join [d, de_name e]) < height d) es \<Longrightarrow>
    \<exists>lower. queue' = queue @ lower \<and> list_all (\<lambda>x. height x < height d) lower"
proof (induction fs d es queue names rule: scan_entries.induct)
  case (2 fs d e es queue names)
  show ?case
  proof (cases "de_isDirectory e")
    case True
    with 2(1)[OF refl True] "2.prems" obtain lower where
      "queue' = (queue @ [path_join [d, de_name e]]) @ lower" "list_all (\<lambda>x. height x < height d) lower"
      by auto
    then show ?thesis using True "2.prems" by (intro exI[of _ "path_join [d, de_name e] # lower"]) simp
  next
    case False
    with 2(2,3) "2.prems" show ?thesis by (auto split: if_splits option.splits)
  qed
qed simp

lemma scanned_source:
  "scan_source d basename es queue = Some queue' \<Longrightarrow>
    list_all (\<lambda>e. de_isDirectory e \<longrightarrow> height (path_join [d, de_name e]) < height d) es \<Longrightarrow>
    \<exists>lower. queue' = queue @ lower \<and> list_all (\<lambda>x. height x < height d) lower"
proof (induction d basename es queue rule: scan_source.induct)
  case (2 d basename e es queue)
  show ?case
  proof (cases "de_isDirectory e")
    case True
    with 2(1)[OF True] "2.prems" obtain lower where
      "queue' = (queue @ [path_join [d, de_name e]]) @ lower" "list_all (\<lambda>x. height x < height d) lower"
      by auto
    then show ?thesis using True "2.prems" by (intro exI[of _ "path_join [d, de_name e] # lower"]) simp
  next
    case False
    with 2(2) "2.prems" show ?thesis by (auto split: if_splits)
  qed
qed simp

lemma empty_stack [simp]: "collect_names fs [] names = Some (Inr names)" "source_walk fs basename [] = Some (Inr False)"
  by (subst collect_names.simps source_walk.simps, simp)+

lemma collect_names_ends:
  assumes "finite_tree fs height"
  shows "\<exists>r. collect_names fs queue names = Some r"
proof (induction queue arbitrary: names rule: wf_induct_rule[OF wf_stack_order[of height]])
  case (1 queue)
  show ?case
  proof (cases "queue = [] \<or> fs_entries fs (last queue) = None")
    case True
    then show ?thesis using 1[of "butlast queue"] lower_stack[of queue height "[]"]
      by (cases "queue = []") (simp_all add: collect_names.simps[of _ queue])
  next
    case False
    then obtain es where es: "fs_entries fs (last queue) = Some es" by auto
    show ?thesis
    proof (cases "scan_entries fs (last queue) es (butlast queue) names")
      case (Inl fault)
      then show ?thesis using False es by (simp add: collect_names.simps[of _ queue])
    next
      case (Inr r)
      obtain queue' names' where r: "r = (queue', names')" by (cases r)
      obtain lower where "queue' = butlast queue @ lower" "list_all (\<lambda>x. height x < height (last queue)) lower"
        using scanned_names[OF Inr[unfolded r], of height] es assms unfolding finite_tree_def by blast
      then have "(queue', queue) \<in> stack_order height" using lower_stack False by simp
      from 1[OF this] obtain answer where "collect_names fs queue' names' = Some answer" by blast
      then have "collect_names fs queue names = Some answer"
        by (subst collect_names.simps) (use False es Inr r in simp)
      then show ?thesis by blast
    qed
  qed
qed

lemma source_walk_ends:
  assumes "finite_tree fs height"
  shows "\<exists>r. source_walk fs basename queue = Some r"
proof (induction queue rule: wf_induct_rule[OF wf_stack_order[of height]])
  case (1 queue)
  show ?case
  proof (cases "queue = [] \<or> fs_entries fs (last queue) = None")
    case True
    then show ?thesis by (cases "queue = []") (simp_all add: source_walk.simps[of _ _ queue])
  next
    case False
    then obtain es where es: "fs_entries fs (last queue) = Some es" by auto
    show ?thesis
    proof (cases "scan_source (last queue) basename es (butlast queue)")
      case None
      then show ?thesis using False es by (simp add: source_walk.simps[of _ _ queue])
    next
      case (Some queue')
      obtain lower where "queue' = butlast queue @ lower" "list_all (\<lambda>x. height x < height (last queue)) lower"
        using scanned_source[OF Some, of height] es assms unfolding finite_tree_def by blast
      then have "(queue', queue) \<in> stack_order height" using lower_stack False by simp
      from 1[OF this] obtain answer where "source_walk fs basename queue' = Some answer" by blast
      then have "source_walk fs basename queue = Some answer"
        by (subst source_walk.simps) (use False es Some in simp)
      then show ?thesis by blast
    qed
  qed
qed

lemma test_names_end: "finite_tree fs height \<Longrightarrow> \<exists>r. collectRepoTestNames fs rootDir = Some r"
  using collect_names_ends by (auto simp: collectRepoTestNames_def Let_def)

lemma any_file_line_ends: "finite_tree fs height \<Longrightarrow> \<exists>r. any_file_line fs rootDir candidates = Some r"
proof (induction candidates)
  case (Cons candidate rest)
  have "\<exists>r. canonicalSourceContainsFile fs rootDir (path_basename candidate) = Some r"
    using source_walk_ends[OF Cons.prems] by (simp add: canonicalSourceContainsFile_def Let_def)
  then show ?case using Cons by (auto simp: Let_def split: sum.splits)
qed simp

lemma cell_check_ends:
  assumes "finite_tree fs height"
  shows "\<exists>r. evidenceCellHasVerifiableReference fs cell rootDir names = Some r"
  using any_file_line_ends[OF assms, of rootDir "matches_of file_line_matcher (unlinked cell)"]
  by (auto simp: evidenceCellHasVerifiableReference_def hasFileLineReference_def Let_def split: sum.splits bool.splits)

lemma some_cell_ends: "finite_tree fs height \<Longrightarrow> \<exists>r. some_cell fs rootDir names cells = Some r"
proof (induction cells)
  case (Cons cell cells)
  then show ?case using cell_check_ends[OF Cons.prems, of cell rootDir names]
    by (auto split: sum.splits bool.splits)
qed simp

lemma unverifiable_row_ends: "finite_tree fs height \<Longrightarrow> \<exists>r. unverifiable_row fs rootDir known rows = Some r"
proof (induction fs rootDir known rows rule: unverifiable_row.induct)
  case (2 fs rootDir known row rows)
  obtain first where first: "some_cell fs rootDir (default_to [] known) (row_cells row) = Some first"
    using some_cell_ends[OF "2.prems"] by blast
  obtain collected where c: "(case known of None \<Rightarrow> collectRepoTestNames fs rootDir | Some names \<Rightarrow> Some (Inr names)) = Some collected"
    using test_names_end[OF "2.prems", of rootDir] by (cases known) auto
  show ?case
  proof (cases "first = Inr False")
    case False
    with 2(1)[of first] first "2.prems" show ?thesis by (cases first) auto
  next
    case True
    show ?thesis
    proof (cases collected)
      case (Inr names)
      obtain again where a: "some_cell fs rootDir names (row_cells row) = Some again"
        using some_cell_ends[OF "2.prems"] by blast
      show ?thesis using first True c Inr a 2(2)[of first False collected names again] "2.prems"
        by (cases again) (auto split: bool.splits)
    qed (use first True c in simp)
  qed
qed simp

section \<open>What a file reference rests on\<close>

text \<open>The directories of the source tree, as the walk lists them.\<close>

inductive source_dir :: "file_system \<Rightarrow> string \<Rightarrow> string \<Rightarrow> bool" for fs rootDir where
  top: "source_dir fs rootDir (path_join [rootDir, ''src''])"
| sub: "source_dir fs rootDir d \<Longrightarrow> fs_entries fs d = Some es \<Longrightarrow> e \<in> set es \<Longrightarrow> de_isDirectory e \<Longrightarrow>
    source_dir fs rootDir (path_join [d, de_name e])"

definition source_has :: "file_system \<Rightarrow> string \<Rightarrow> string \<Rightarrow> bool" where
  "source_has fs rootDir basename \<longleftrightarrow> (\<exists>d es e. source_dir fs rootDir d \<and> fs_entries fs d = Some es \<and>
     e \<in> set es \<and> de_isFile e \<and> de_name e = basename)"

lemma scanned_found:
  "scan_source d basename es queue = None \<Longrightarrow> \<exists>e\<in>set es. de_isFile e \<and> de_name e = basename"
  by (induction d basename es queue rule: scan_source.induct) (auto split: if_splits)

lemma scanned_dirs:
  "scan_source d basename es queue = Some queue' \<Longrightarrow> list_all good queue \<Longrightarrow>
    list_all (\<lambda>e. de_isDirectory e \<longrightarrow> good (path_join [d, de_name e])) es \<Longrightarrow> list_all good queue'"
  by (induction d basename es queue rule: scan_source.induct) (auto split: if_splits)

lemma walk_found:
  "source_walk fs basename queue = Some r \<Longrightarrow>
    r = Inr True \<longrightarrow> list_all (source_dir fs rootDir) queue \<longrightarrow> source_has fs rootDir basename"
proof (induction rule: source_walk.raw_induct[rotated, consumes 1])
  case (1 walk fs basename queue r)
  show ?case
  proof (intro impI)
    assume r: "r = Inr True" and q: "list_all (source_dir fs rootDir) queue"
    then have "queue \<noteq> []" using 1(2) by auto
    then have top: "source_dir fs rootDir (last queue)" and rest: "list_all (source_dir fs rootDir) (butlast queue)"
      using q by (auto simp: list_all_iff in_set_butlastD)
    obtain es where es: "fs_entries fs (last queue) = Some es"
      using 1(2) r \<open>queue \<noteq> []\<close> by (cases "fs_entries fs (last queue)") auto
    show "source_has fs rootDir basename"
    proof (cases "scan_source (last queue) basename es (butlast queue)")
      case None
      then show ?thesis using scanned_found[OF None] top es unfolding source_has_def by blast
    next
      case (Some queue')
      have "list_all (\<lambda>e. de_isDirectory e \<longrightarrow> source_dir fs rootDir (path_join [last queue, de_name e])) es"
        using source_dir.sub[OF top es] by (simp add: list_all_iff)
      then have "list_all (source_dir fs rootDir) queue'" by (rule scanned_dirs[OF Some rest])
      moreover have "walk fs basename queue' = Some r" using 1(2) \<open>queue \<noteq> []\<close> es Some by simp
      ultimately show ?thesis using 1(1) r by blast
    qed
  qed
qed

lemma canonical_found:
  "canonicalSourceContainsFile fs rootDir basename = Some (Inr True) \<Longrightarrow> source_has fs rootDir basename"
  using walk_found[of fs basename "[path_join [rootDir, ''src'']]" "Inr True" rootDir]
  by (simp add: canonicalSourceContainsFile_def Let_def source_dir.top split: if_splits)

text \<open>A cited \<open>lib/\<close> path names a file of the source tree.\<close>

definition built_from :: "file_system \<Rightarrow> string \<Rightarrow> string \<Rightarrow> bool" where
  "built_from fs rootDir candidate \<longleftrightarrow> \<not> isAbsolute candidate \<and> \<not> pathEscapesRoot candidate \<and>
     strip_prefix ''lib/'' candidate \<noteq> None \<and> source_has fs rootDir (path_basename candidate)"

lemma any_file_line_found:
  "any_file_line fs rootDir candidates = Some (Inr True) \<Longrightarrow>
    \<exists>c\<in>set candidates. existsInRepository fs rootDir c \<or> built_from fs rootDir c"
proof (induction candidates)
  case (Cons c rest)
  define canonical where "canonical = (if \<not> isAbsolute c \<and> \<not> pathEscapesRoot c \<and> strip_prefix ''lib/'' c \<noteq> None
          then canonicalSourceContainsFile fs rootDir (path_basename c) else Some (Inr False))"
  have found: "built_from fs rootDir c" if "canonical = Some (Inr True)"
    using that canonical_found unfolding canonical_def built_from_def by (metis Inr_inject option.inject)
  obtain b where b: "canonical = Some (Inr b)"
    using Cons.prems by (auto simp: canonical_def[symmetric] simp del: not_None_eq split: option.splits sum.splits)
  show ?case
  proof (cases "existsInRepository fs rootDir c \<or> b")
    case True
    then show ?thesis using found b by auto
  next
    case False
    then show ?thesis using Cons b by (simp add: canonical_def[symmetric] del: not_None_eq)
  qed
qed simp

lemma set_join: "set (join sep xs) \<subseteq> set sep \<union> (\<Union>x\<in>set xs. set x)"
  by (induction sep xs rule: join.induct) auto

lemma set_split_on: "(\<Union>x\<in>set (split_on c s). set x) \<subseteq> set s"
proof (induction s)
  case (Cons d s)
  then show ?case by (cases "split_on c s") auto
qed simp

lemma set_trim: "set (trim s) \<subseteq> set s"
  by (auto simp: trim_def trim_start_def dest!: set_dropWhileD)

lemma no_backslash_word: "ascii_word c \<Longrightarrow> c \<noteq> CHR 0x5C"
  by (auto simp: ascii_word_def is_lower_def is_upper_def is_digit_def)

lemma captured_path_plain:
  "captured \<in> set (matches_of file_line_matcher s) \<Longrightarrow> CHR 0x5C \<notin> set captured"
  "captured \<in> set (matches_of bare_path_matcher s) \<Longrightarrow> CHR 0x5C \<notin> set captured"
  unfolding matches_of_def file_line_matcher_def bare_path_matcher_def
  by (drule captured_only[rotated, where P = "\<lambda>c. c \<noteq> CHR 0x5C"];
    auto simp: path_lead_def path_chars_def word_dash_def text_rx_def some_of_def maybe_def list_all_iff dest: no_backslash_word)+

lemma bare_candidate_plain:
  assumes "cited \<in> set (matches_of bare_path_matcher s)"
  shows "CHR 0x5C \<notin> set (join '' '' (drop start (split_on CHR '' '' (trim cited))))"
proof -
  have "set (join '' '' (drop start (split_on CHR '' '' (trim cited)))) \<subseteq>
      {CHR '' ''} \<union> (\<Union>x\<in>set (split_on CHR '' '' (trim cited)). set x)"
    using set_join[of "'' ''" "drop start (split_on CHR '' '' (trim cited))"] by (auto dest: in_set_dropD)
  also have "\<dots> \<subseteq> {CHR '' ''} \<union> set cited" using set_split_on[of "CHR '' ''" "trim cited"] set_trim[of cited] by blast
  finally show ?thesis using captured_path_plain(2)[OF assms] by auto
qed

text \<open>What either expression captures ends in a dot and a word, so the last segment of a cited path is a name.\<close>

definition dotted :: "string \<Rightarrow> bool" where
  "dotted s \<longleftrightarrow> (\<exists>stem ending. s = stem @ CHR ''.'' # ending \<and> ending \<noteq> [] \<and>
     list_all (\<lambda>c. ascii_word c \<or> c = CHR ''-'') ending)"

lemma between_append:
  assumes "matches r p q" and "matches t q u"
  shows "between p u = between p q @ between q u"
proof -
  have any: "consumes_only (\<lambda>_. True) r" for r by (induction r) auto
  obtain x y where "snd p = x @ snd q" "snd q = y @ snd u"
    using matches_consumed[OF assms(1) any] matches_consumed[OF assms(2) any] by blast
  then show ?thesis by (simp add: between_def)
qed

lemma captured_matches:
  "captured \<in> set (all_matches (capturing lead inner after) p) \<Longrightarrow>
    \<exists>q u. matches inner q u \<and> captured = between q u"
proof (induction "capturing lead inner after" p rule: all_matches.induct)
  case (1 p)
  show ?case
  proof (cases "capturing lead inner after p")
    case Nil
    with 1(1)[OF Nil] "1.prems" show ?thesis by (cases "snd p") (simp_all add: all_matches.simps[of _ p])
  next
    case (Cons m ms)
    obtain w q where m: "m = (w, q)" by (cases m)
    have "(w, q) \<in> set (capturing lead inner after p)" using Cons m by simp
    then have w: "\<exists>q u. matches inner q u \<and> w = between q u" unfolding capturing_iff by blast
    show ?thesis
    proof (cases "length (snd q) < length (snd p)")
      case True
      then have "captured = w \<or> captured \<in> set (all_matches (capturing lead inner after) q)"
        using "1.prems" Cons m by (simp add: all_matches.simps[of _ p])
      then show ?thesis using w 1(2)[OF Cons m[symmetric] True] by blast
    next
      case False
      then show ?thesis using "1.prems" Cons m by (simp add: all_matches.simps[of _ p])
    qed
  qed
qed

lemma dotted_tail: "dotted t \<Longrightarrow> dotted (s @ t)"
  unfolding dotted_def by (metis append.assoc)

lemma captured_dotted:
  "captured \<in> set (matches_of file_line_matcher s) \<Longrightarrow> dotted captured"
  "captured \<in> set (matches_of bare_path_matcher s) \<Longrightarrow> dotted captured"
proof -
  have last: "dotted (between p u)" if "matches (seq_of [text_rx ''.'', some_of word_dash]) p u" for p u
  proof -
    from that have "matches (Seq (text_rx ''.'') (some_of word_dash)) p u" by simp
    then obtain q where q: "matches (text_rx ''.'') p q" "matches (some_of word_dash) q u" by (rule seq_cases)
    obtain x where x: "matches word_dash q x" "matches (Many word_dash) x u"
      using q(2) unfolding some_of_def by (rule seq_cases)
    have "consumes_only (\<lambda>c. ascii_word c \<or> c = CHR ''-'') (some_of word_dash)"
      by (simp add: some_of_def word_dash_def)
    then have "list_all (\<lambda>c. ascii_word c \<or> c = CHR ''-'') (between q u)" using q(2) by (rule matches_between[rotated])
    moreover have "between q u = between q x @ between x u" using x by (rule between_append)
    moreover have "between q x \<noteq> []" using x(1) by (auto simp: word_dash_def between_def)
    moreover have "between p q = ''.''" using q(1) by (auto simp: text_rx_def between_def)
    moreover have "between p u = between p q @ between q u" using q by (rule between_append)
    ultimately show ?thesis unfolding dotted_def by (intro exI[of _ "[]"] exI[of _ "between q u"]) auto
  qed
  have any: "dotted (between p u)" if "matches (Seq a (Seq b (seq_of [text_rx ''.'', some_of word_dash]))) p u" for a b p u
  proof -
    from that obtain q where 1: "matches a p q" "matches (Seq b (seq_of [text_rx ''.'', some_of word_dash])) q u"
      by (rule seq_cases)
    from 1(2) obtain r where "matches b q r" "matches (seq_of [text_rx ''.'', some_of word_dash]) r u" by (rule seq_cases)
    note q = 1(1) this
    then have "between p u = between p q @ between q r @ between r u"
      using between_append matches.seq by metis
    then show ?thesis using last[OF q(3)] dotted_tail by metis
  qed
  have whole: "dotted (between p u)" if "matches (seq_of [a, b, text_rx ''.'', some_of word_dash]) p u" for a b p u
    by (rule any[where a = a and b = b]) (use that in \<open>simp only: seq_of.simps\<close>)
  show "captured \<in> set (matches_of file_line_matcher s) \<Longrightarrow> dotted captured"
    "captured \<in> set (matches_of bare_path_matcher s) \<Longrightarrow> dotted captured"
    unfolding matches_of_def file_line_matcher_def bare_path_matcher_def
    by (drule captured_matches, elim exE conjE, hypsubst, rule whole, assumption)+
qed

lemma split_on_last: "c \<notin> set t \<Longrightarrow> split_on c (s @ t) = butlast (split_on c s) @ [last (split_on c s) @ t]"
proof (induction s)
  case Nil
  then have "split_on c t = [t]" by (induction t) auto
  then show ?case by simp
next
  case (Cons d s)
  then show ?case by (cases "split_on c s") auto
qed

lemma dotted_last_part:
  assumes "dotted s" and "c = CHR ''/'' \<or> c = CHR '' ''"
  obtains parts part where "split_on c s = parts @ [part]" "dotted part"
proof -
  obtain stem ending where s: "s = stem @ CHR ''.'' # ending" "ending \<noteq> []"
    "list_all (\<lambda>c. ascii_word c \<or> c = CHR ''-'') ending" using assms(1) unfolding dotted_def by blast
  have "\<not> ascii_word CHR ''/''" "\<not> ascii_word CHR '' ''" by code_simp+
  then have "c \<notin> set (CHR ''.'' # ending)" using s(3) assms(2) by (auto simp: list_all_iff)
  from split_on_last[OF this] s that show ?thesis unfolding dotted_def by blast
qed

lemma dotted_plain: "dotted s \<Longrightarrow> plain_segment s"
proof -
  assume "dotted s"
  then obtain stem ending where s: "s = stem @ CHR ''.'' # ending" "ending \<noteq> []"
    "list_all (\<lambda>c. ascii_word c \<or> c = CHR ''-'') ending" unfolding dotted_def by blast
  have "\<not> ascii_word CHR ''.''" by code_simp
  then have "last s \<noteq> CHR ''.''" using s last_in_set[OF s(2)]
    by (auto simp: list_all_iff simp del: last_in_set)
  moreover have "s \<noteq> []" by (simp add: s(1))
  ultimately show ?thesis by (auto simp: plain_segment_def)
qed

lemma join_snoc: "\<exists>before. join sep (xs @ [y]) = before @ y"
proof (induction sep xs rule: join.induct)
  case (3 sep x z xs)
  then show ?case by (metis append.assoc append_Cons join.simps(3))
qed (auto intro: exI[of _ "[]"])

lemma dotted_suffix:
  assumes "dotted s" and "start < length (split_on CHR '' '' s)"
  shows "dotted (join '' '' (drop start (split_on CHR '' '' s)))"
proof -
  obtain parts part where p: "split_on CHR '' '' s = parts @ [part]" "dotted part"
    using dotted_last_part[OF assms(1)] by blast
  then have "drop start (split_on CHR '' '' s) = drop start parts @ [part]" using assms(2) by simp
  then show ?thesis using join_snoc[of "'' ''" "drop start parts" part] dotted_tail[OF p(2)] by metis
qed

lemma dotted_trim:
  assumes "dotted s"
  shows "dotted (trim s)"
proof -
  obtain stem ending where s: "s = stem @ CHR ''.'' # ending" "ending \<noteq> []"
    "list_all (\<lambda>c. ascii_word c \<or> c = CHR ''-'') ending" using assms unfolding dotted_def by blast
  have dot: "\<not> js_space CHR ''.''" by code_simp
  have "dropWhile js_space (xs @ CHR ''.'' # ending) = dropWhile js_space xs @ CHR ''.'' # ending" for xs
    using dot by (induction xs) simp_all
  then have start: "dropWhile js_space s = dropWhile js_space stem @ CHR ''.'' # ending" by (simp add: s(1))
  have "\<not> js_space (last ending)"
  proof -
    have "ascii_word (last ending) \<or> last ending = CHR ''-''" using s(3) last_in_set[OF s(2)] by (auto simp: list_all_iff)
    moreover have "\<not> js_space CHR ''-''" by code_simp
    ultimately show ?thesis by (auto simp: ascii_word_def is_lower_def is_upper_def is_digit_def js_space_def Let_def)
  qed
  then have "dropWhile js_space (rev (dropWhile js_space s)) = rev (dropWhile js_space s)"
    using s(2) unfolding start by (cases ending rule: rev_cases) simp_all
  then show ?thesis using s(2,3) unfolding dotted_def trim_def start by auto
qed

text \<open>A path that is looked up: strictly below the checkout, with the name the citation has.\<close>

definition names_file_below :: "string \<Rightarrow> string \<Rightarrow> string \<Rightarrow> bool" where
  "names_file_below rootDir candidate path \<longleftrightarrow> (\<exists>between_segments.
     list_all plain_segment (between_segments @ [path_basename candidate]) \<and>
     path = ''/'' @ join ''/'' (root_segments rootDir @ between_segments @ [path_basename candidate]))"

definition backed :: "file_system \<Rightarrow> string \<Rightarrow> string \<Rightarrow> bool" where
  "backed fs rootDir candidate \<longleftrightarrow> \<not> isAbsolute candidate \<and>
     names_file_below rootDir candidate (path_resolve (fs_cwd fs) rootDir candidate) \<and>
     fs_exists fs (path_resolve (fs_cwd fs) rootDir candidate)"

lemma escapes_append: "escapes_from d xs \<Longrightarrow> escapes_from d (xs @ ys)"
  by (induction xs arbitrary: d) (auto split: if_splits)

lemma dotted_basename:
  assumes "split_on CHR ''/'' candidate = parts @ [part]" and "dotted part"
  shows "path_basename candidate = part"
proof -
  have "part \<noteq> []" using dotted_plain[OF assms(2)] by (simp add: plain_segment_def)
  then show ?thesis by (simp add: path_basename_def assms(1) default_to_def)
qed

lemma existing_backed:
  assumes "isAbsolute rootDir" and "CHR 0x5C \<notin> set candidate" and "dotted candidate"
    and "existsInRepository fs rootDir candidate"
  shows "backed fs rootDir candidate"
proof -
  have r: "\<not> isAbsolute candidate" "\<not> escapes_from 0 (split_on CHR ''/'' candidate)"
    and e: "fs_exists fs (path_resolve (fs_cwd fs) rootDir candidate)"
    using assms(2,4) by (auto simp: existsInRepository_def repositoryPath_def pathEscapesRoot_def split_paths_plain
      split: if_splits)
  obtain parts part where p: "split_on CHR ''/'' candidate = parts @ [part]" "dotted part"
    using dotted_last_part[OF assms(3)] by blast
  have plain: "plain_segment part" by (rule dotted_plain[OF p(2)])
  have "\<not> escapes_from 0 parts" using r(2) p(1) escapes_append by metis
  moreover have "list_all plain_segment (rev (root_segments rootDir))" by (simp add: root_segments_def settle_plain)
  ultimately obtain below where below: "list_all plain_segment below"
    "settle True (rev (root_segments rootDir)) parts = root_segments rootDir @ below"
    using settle_below[of "[]" "rev (root_segments rootDir)" parts] by auto
  have "settle True [] (split_on CHR ''/'' (rootDir @ ''/'' @ candidate)) =
      settle True (rev (settle True (rev (root_segments rootDir)) parts)) [part]"
    by (simp only: append_Cons append_Nil split_on_append settle_append root_segments_def p(1))
  also have "\<dots> = root_segments rootDir @ below @ [part]" using plain below(2) by (simp add: plain_segment_def)
  finally have "names_file_below rootDir candidate (path_resolve (fs_cwd fs) rootDir candidate)"
    unfolding names_file_below_def dotted_basename[OF p] path_resolve_def
    using r(1) assms(1) below(1) plain by (intro exI[of _ below]) simp
  then show ?thesis using r(1) e by (simp add: backed_def)
qed

section \<open>Test names on demand\<close>

lemma some_cell_Cons:
  "some_cell fs rootDir names (cell # cells) = (case evidenceCellHasVerifiableReference fs cell rootDir names of
     Some (Inr b) \<Rightarrow> if b then Some (Inr True) else some_cell fs rootDir names cells | answer \<Rightarrow> answer)"
  by (simp split: option.splits sum.splits bool.splits)

lemma more_names:
  assumes "evidenceCellHasVerifiableReference fs cell rootDir names = Some (Inr b)" and "set names \<subseteq> set names'"
  shows "\<exists>b'. evidenceCellHasVerifiableReference fs cell rootDir names' = Some (Inr b') \<and> (b \<longrightarrow> b')"
  using assms by (auto simp: evidenceCellHasVerifiableReference_def hasQuotedTestReference_def list_ex_iff Let_def
    split: option.splits sum.splits bool.splits if_splits)

lemma more_names_some:
  "some_cell fs rootDir names cells = Some (Inr True) \<Longrightarrow> set names \<subseteq> set names' \<Longrightarrow>
    some_cell fs rootDir names' cells = Some (Inr True)"
proof (induction cells)
  case (Cons cell cells)
  obtain b where b: "evidenceCellHasVerifiableReference fs cell rootDir names = Some (Inr b)"
    using Cons.prems(1) unfolding some_cell_Cons by (auto split: option.splits sum.splits)
  obtain b' where "evidenceCellHasVerifiableReference fs cell rootDir names' = Some (Inr b')" "b \<longrightarrow> b'"
    using more_names[OF b Cons.prems(2)] by blast
  then show ?case using Cons b unfolding some_cell_Cons by (auto split: if_splits)
qed simp

lemma unverifiable_row_known:
  assumes "collectRepoTestNames fs rootDir = Some (Inr names)"
  shows "unverifiable_row fs rootDir known rows = Some (Inr r) \<Longrightarrow> known \<in> {None, Some names} \<Longrightarrow>
    r = find_first (\<lambda>row. some_cell fs rootDir names (row_cells row) \<noteq> Some (Inr True)) rows \<and>
    (\<forall>row. r = Some row \<longrightarrow> some_cell fs rootDir names (row_cells row) = Some (Inr False))"
proof (induction rows arbitrary: known)
  case (Cons row rows)
  let ?now = "some_cell fs rootDir (default_to [] known) (row_cells row)"
  let ?all = "some_cell fs rootDir names (row_cells row)"
  have sub: "set (default_to [] known) \<subseteq> set names" using Cons.prems(2) by auto
  obtain now where now: "?now = Some (Inr now)" using Cons.prems(1) by (auto split: option.splits sum.splits)
  show ?case
  proof (cases now)
    case True
    then have "?all = Some (Inr True)" using more_names_some[OF _ sub] now by simp
    moreover have "unverifiable_row fs rootDir known rows = Some (Inr r)" using Cons.prems(1) now True by simp
    ultimately show ?thesis using Cons.IH[OF _ Cons.prems(2)] by auto
  next
    case False
    have "(case known of None \<Rightarrow> collectRepoTestNames fs rootDir | Some names \<Rightarrow> Some (Inr names)) = Some (Inr names)"
      using Cons.prems(2) assms by auto
    then obtain b where "?all = Some (Inr b)"
      "if b then unverifiable_row fs rootDir (Some names) rows = Some (Inr r) else r = Some row"
      using Cons.prems(1) now False by (auto split: option.splits sum.splits bool.splits)
    then show ?thesis using Cons.IH[of "Some names"] by (auto split: if_splits)
  qed
qed simp

section \<open>Properties\<close>

text \<open>A checkout for the witnesses: a document and a test in a directory of tests.\<close>

definition sample_checkout :: file_system where
  "sample_checkout = \<lparr> fs_cwd = ''/'', fs_exists = (\<lambda>p. p \<in> set [''/repo/a.ts'', ''/repo/test'']),
     fs_read = (\<lambda>p. if p = ''/repo/test/u/x.test.ts'' then Some (''it('' @ [CHR 0x27] @ ''adds'' @ [CHR 0x27] @ '')'') else None),
     fs_entries = (\<lambda>p. if p = ''/repo/test'' then Some [\<lparr> de_name = ''u'', de_isDirectory = True, de_isFile = False \<rparr>]
       else if p = ''/repo/test/u'' then Some [\<lparr> de_name = ''x.test.ts'', de_isDirectory = False, de_isFile = True \<rparr>]
       else None),
     fs_names = (\<lambda>_. None) \<rparr>"

definition sample_row :: "string \<Rightarrow> goal_row" where
  "sample_row evidence = \<lparr> gr_criterion = ''adds'', gr_criterionId = Null, gr_evidence = evidence,
     gr_recordedRound = None, gr_repairedGate = None, gr_repairedGates = None, gr_carriedFrom = None \<rparr>"

text \<open>C28: A file reference rests on what it cites. When a cell counts as citing a file with a line, one of the
  paths it cites is relative and, resolved from the checkout, exists strictly below the checkout's root under the
  name the citation has, or it is a \<open>lib/\<close> path whose name the walk over the checkout's source tree
  lists as a file. When a cell counts as citing a bare path, the same lookup succeeds for the words that end one of
  the paths it cites.\<close>

theorem file_references_are_backed:
  assumes "isAbsolute rootDir"
  shows "(hasFileLineReference fs text rootDir = Some (Inr True) \<longrightarrow>
      (\<exists>candidate\<in>set (matches_of file_line_matcher text). backed fs rootDir candidate \<or> built_from fs rootDir candidate)) \<and>
    (hasBarePathReference fs text rootDir \<longrightarrow>
      (\<exists>cited\<in>set (matches_of bare_path_matcher text). \<exists>start<length (split_on CHR '' '' (trim cited)).
         backed fs rootDir (join '' '' (drop start (split_on CHR '' '' (trim cited))))))"
proof (intro conjI impI)
  assume "hasFileLineReference fs text rootDir = Some (Inr True)"
  then show "\<exists>candidate\<in>set (matches_of file_line_matcher text). backed fs rootDir candidate \<or> built_from fs rootDir candidate"
    using any_file_line_found existing_backed[OF assms captured_path_plain(1) captured_dotted(1)]
    unfolding hasFileLineReference_def by blast
next
  assume "hasBarePathReference fs text rootDir"
  then obtain cited start where c: "cited \<in> set (matches_of bare_path_matcher text)" "start < length (split_on CHR '' '' (trim cited))"
    "existsInRepository fs rootDir (join '' '' (drop start (split_on CHR '' '' (trim cited))))"
    by (auto simp: hasBarePathReference_def Let_def list_ex_iff)
  have "backed fs rootDir (join '' '' (drop start (split_on CHR '' '' (trim cited))))"
    using existing_backed[OF assms bare_candidate_plain[OF c(1)] dotted_suffix[OF dotted_trim[OF captured_dotted(2)[OF c(1)]] c(2)] c(3)] .
  then show "\<exists>cited\<in>set (matches_of bare_path_matcher text). \<exists>start<length (split_on CHR '' '' (trim cited)).
      backed fs rootDir (join '' '' (drop start (split_on CHR '' '' (trim cited))))" using c(1,2) by blast
qed

theorem file_references_are_backed_witness:
  "hasFileLineReference sample_checkout ''see a.ts:12'' ''/repo'' = Some (Inr True) \<and>
    hasBarePathReference sample_checkout ''the a.ts'' ''/repo'' \<and>
    fs_exists sample_checkout (path_resolve ''/'' ''/repo'' ''a.ts'') \<and>
    names_file_below ''/repo'' ''a.ts'' (path_resolve ''/'' ''/repo'' ''a.ts'')"
proof -
  have found: "hasFileLineReference sample_checkout ''see a.ts:12'' ''/repo'' = Some (Inr True)"
    "hasBarePathReference sample_checkout ''the a.ts'' ''/repo''" by code_simp+
  have facts: "matches_of file_line_matcher ''see a.ts:12'' = [''a.ts'']" "isAbsolute ''/repo''"
    "strip_prefix ''lib/'' ''a.ts'' = None" "fs_cwd sample_checkout = ''/''" by code_simp+
  have "backed sample_checkout ''/repo'' ''a.ts''"
    using file_references_are_backed[of "''/repo''" sample_checkout "''see a.ts:12''"] facts found(1)
    by (simp add: built_from_def)
  then show ?thesis using found facts(4) by (simp add: backed_def)
qed

text \<open>C29: Checking evidence ends. On a finite directory tree the check of recorded rows returns, with an answer or
  the fault of a read, whatever the rows cite and whatever the port answers.\<close>

theorem evidence_check_ends:
  assumes "finite_tree fs height"
  shows "\<exists>answer. findUnverifiableRecordedRow fs rows rootDir = Some answer"
  using unverifiable_row_ends[OF assms, of rootDir None "map goalCheckTableRow rows"]
  by (auto simp: findUnverifiableRecordedRow_def findUnverifiableGoalCheckRow_def)

lemma sample_finite: "finite_tree sample_checkout (\<lambda>d. if d = ''/repo/test'' then 1 else 0)"
proof -
  have "path_join [''/repo/test'', ''u''] = ''/repo/test/u''" by code_simp
  then show ?thesis by (simp add: finite_tree_def sample_checkout_def)
qed

theorem evidence_check_ends_witness:
  "\<exists>answer. findUnverifiableRecordedRow sample_checkout [sample_row ''none'', sample_row ''[t](a.ts)''] ''/repo'' = Some answer"
  by (rule evidence_check_ends[OF sample_finite])

text \<open>C30: Collecting the test names only when a row needs them changes no answer. When the check answers and the
  names can be collected, it refuses the first row that has no verifiable cell with all names known, and
  refuses no row otherwise.\<close>

theorem names_are_collected_on_demand:
  assumes "findUnverifiableGoalCheckRow fs rows rootDir = Some (Inr refused)"
    and "collectRepoTestNames fs rootDir = Some (Inr names)"
  shows "refused = find_first (\<lambda>row. some_cell fs rootDir names (row_cells row) \<noteq> Some (Inr True)) rows \<and>
    (\<forall>row. refused = Some row \<longrightarrow> some_cell fs rootDir names (row_cells row) = Some (Inr False))"
  using unverifiable_row_known[OF assms(2)] assms(1) unfolding findUnverifiableGoalCheckRow_def by blast

theorem names_are_collected_on_demand_witness:
  "findUnverifiableGoalCheckRow sample_checkout [''| a | none |''] ''/repo'' = Some (Inr (Some ''| a | none |'')) \<and>
    some_cell sample_checkout ''/repo'' [''adds''] (row_cells ''| a | none |'') = Some (Inr False)"
proof -
  have "findUnverifiableGoalCheckRow sample_checkout [''| a | none |''] ''/repo'' = Some (Inr (Some ''| a | none |''))"
    "collectRepoTestNames sample_checkout ''/repo'' = Some (Inr [''adds''])" by code_simp+
  from names_are_collected_on_demand[OF this] this(1) show ?thesis by simp
qed

text \<open>Where the reading of separators and the host's differ: an argument of a command that leaves the checkout
  after a segment with a backslash is looked up outside it.\<close>

theorem backslash_argument_escapes:
  "isVerifiableCommand fs (''cat a'' @ [CHR 0x5C] @ ''b/../../etc/passwd'') ''/repo'' = fs_exists fs ''/etc/passwd''"
proof -
  have "command_words (''cat a'' @ [CHR 0x5C] @ ''b/../../etc/passwd'') = [''cat'', ''a'' @ [CHR 0x5C] @ ''b/../../etc/passwd'']"
    "repositoryPath (fs_cwd fs) ''/repo'' (''a'' @ [CHR 0x5C] @ ''b/../../etc/passwd'') = Some ''/etc/passwd''"
    "strip_prefix ''./'' (''cat a'' @ [CHR 0x5C] @ ''b/../../etc/passwd'') = None"
    "\<not> begins_with_command [''npm'', ''npx'', ''node'', ''git'', ''px''] (''cat a'' @ [CHR 0x5C] @ ''b/../../etc/passwd'')"
    "begins_with_command [''bash'', ''sh'', ''cat'', ''head'', ''tail'', ''diff'', ''grep'', ''sed'', ''awk'',
          ''xxd'', ''od'', ''wc'', ''sort'', ''uniq'', ''stat'', ''ls''] (''cat a'' @ [CHR 0x5C] @ ''b/../../etc/passwd'')"
    "strip_prefix ''-'' (''a'' @ [CHR 0x5C] @ ''b/../../etc/passwd'') = None"
    by code_simp+
  then show ?thesis by (simp add: isVerifiableCommand_def existsInRepository_def)
qed

end
