(* ===== verification/CheckpointWrites.thy ===== *)
theory CheckpointWrites
  imports MissionWrites Evidence Failures
begin

text \<open>
  Recording checkpoint evidence and repairing it: \<open>record\<close> and \<open>check\<close> of \<open>mission-checkpoint-service.ts\<close>,
  \<open>repair-checkpoint-service.ts\<close> with the port's types (\<open>ports/repair-checkpoint.ts\<close>),
  \<open>mission-evidence-readiness.ts\<close>, and the open repair a review owes (\<open>openRepairFromReview\<close> in \<open>review.ts\<close>).

  \<open>open\<close>, \<open>verify\<close> and the other operations of the repair port throw; a throw is a \<open>repair_fault\<close>. A checkpoint is
  found by its name, the first of that name. The checkout the evidence refers to is a file system of the theory
  \<open>Evidence\<close> with the root of the mission's checkout, if it has one.
\<close>

section \<open>The open repair of a review\<close>

definition criterion_reference :: matcher where
  "criterion_reference = capturing
     (seq_of [maybe (Seq (word ''success'') (Class (\<lambda>c. c = CHR ''-'' \<or> c = CHR '' ''))), word ''criteri'',
       any_of [word ''on'', word ''a''], gap])
     (some_of (seq_of [maybe (text_rx ''#''), digits_rx,
       maybe (seq_of [Many (Class js_space), any_of [text_rx '','', word ''and'', text_rx ''&''], Many (Class js_space)])]))
     Nothing"

definition criterionNumbersNamedBy :: "review_finding \<Rightarrow> nat list" where
  "criterionNumbersNamedBy finding =
     (case strip_prefix ''success-criterion-'' (rf_id finding) of
        Some ds \<Rightarrow> if all_digits ds then [digits_val ds] else [] | None \<Rightarrow> []) @
     concat (map (\<lambda>named. map digits_val (matches_of (capturing Nothing digits_rx Nothing) named))
       (matches_of criterion_reference (rf_summary finding @ '' '' @ default_to [] (rf_location finding))))"

definition failedGateNames :: "revocation \<Rightarrow> string list" where
  "failedGateNames revocation =
     (case rk_cause revocation of
        Some (Integration_gate_failure cause) \<Rightarrow>
          filter (\<lambda>name. name \<noteq> []) (map (\<lambda>name. default_to [] (map_option trim name)) [given (gf_command cause), gf_gate cause])
      | _ \<Rightarrow> [])"

definition criteriaCitingFailedGate :: "string list \<Rightarrow> string list \<Rightarrow> goal_row list \<Rightarrow> string list" where
  "criteriaCitingFailedGate names criteria recordedRows =
     filter (\<lambda>criterion. list_ex (\<lambda>row. gr_criterion row = criterion \<and>
       list_ex (\<lambda>name. str_includes (gr_evidence row) name \<or> gr_repairedGate row = Some name \<or>
         name \<in> set (default_to [] (gr_repairedGates row))) names) recordedRows) criteria"

text \<open>\<open>successCriteria[index - 1]\<close> of the numbers the findings name, each once and no empty text.\<close>

definition named_criteria :: "string list \<Rightarrow> nat list \<Rightarrow> string list" where
  "named_criteria criteria numbers = dedupe (filter (\<lambda>c. c \<noteq> []) (List.map_filter
     (\<lambda>n. case n of 0 \<Rightarrow> None | Suc i \<Rightarrow> nth_opt criteria i) numbers))"

definition withdrawnRepairObligation ::
  "review_round \<Rightarrow> review_round \<Rightarrow> revocation \<Rightarrow> string list \<Rightarrow> goal_row list \<Rightarrow> open_repair" where
  "withdrawnRepairObligation current previous revocation criteria recordedRows =
     (let names = failedGateNames revocation;
          incident = (case rk_cause revocation of
              Some (Integration_gate_failure _) \<Rightarrow> Option.bind (rd_assessment previous) ia_repair | _ \<Rightarrow> None) in
      \<lparr> or_round = rd_number current, or_affected = criteriaCitingFailedGate names criteria recordedRows,
        or_gate = (case names of [] \<Rightarrow> None | name # _ \<Rightarrow> Some name),
        or_integrationIncident = map_option (\<lambda>i. \<lparr> ii_round = rd_number previous, ii_startedAt = ri_startedAt i \<rparr>) incident \<rparr>)"

definition openRepairFromReview :: "review option \<Rightarrow> string list \<Rightarrow> goal_row list \<Rightarrow> open_repair option" where
  "openRepairFromReview subject criteria recordedRows =
     (case subject of
        None \<Rightarrow> None
      | Some review \<Rightarrow>
          (case at_last (rounds review) of
             None \<Rightarrow> None
           | Some current \<Rightarrow>
               (case request_of (rd_decision current) of
                  Some request \<Rightarrow> Some \<lparr> or_round = rd_number current,
                    or_affected = named_criteria criteria (concat (map criterionNumbersNamedBy (cr_findings request))),
                    or_gate = None, or_integrationIncident = None \<rparr>
                | None \<Rightarrow>
                    if rd_decision current \<noteq> None then None
                    else (case at_last2 (rounds review) of
                        None \<Rightarrow> None
                      | Some previous \<Rightarrow>
                          (case Option.bind (approval_of (rd_decision previous)) ap_revocation of
                             None \<Rightarrow> None
                           | Some revocation \<Rightarrow> Some (withdrawnRepairObligation current previous revocation criteria recordedRows))))))"

section \<open>The contract of a repair\<close>

datatype contract_failure = Contract_blocked contract_blocker | Required_checks_changed | Criteria_changed

definition repairContractFailure ::
  "checkpoint list \<Rightarrow> string list option \<Rightarrow> string list option \<Rightarrow> contract_failure option" where
  "repairContractFailure checkpoints gates criteria =
     (case List.map_filter (\<lambda>cp. Option.bind (cp_repair cp) rx_blocker) checkpoints of
        blocker # _ \<Rightarrow> Some (Contract_blocked blocker)
      | [] \<Rightarrow>
          let obligations = effectiveRepairObligations checkpoints gates criteria None;
              differs = (\<lambda>authorized current. current \<noteq> None \<and> list_ex (\<lambda>cp. case cp_repair cp of
                  None \<Rightarrow> False | Some repair \<Rightarrow> Some (authorized repair) \<noteq> current) obligations) in
          if differs rx_authorizedGates gates then Some Required_checks_changed
          else if differs rx_authorizedCriteria criteria then Some Criteria_changed
          else None)"

datatype checkpoint_failure = Contract_failure contract_failure | Missing_evidence_of "string list"

definition repairCheckpointFailure ::
  "checkpoint list \<Rightarrow> string list option \<Rightarrow> string list option \<Rightarrow> checkpoint_failure option" where
  "repairCheckpointFailure checkpoints gates criteria =
     (case repairContractFailure checkpoints gates criteria of
        Some f \<Rightarrow> Some (Contract_failure f)
      | None \<Rightarrow>
          let missing = missingCheckpointEvidence checkpoints gates criteria in
          if missing = [] then None else Some (Missing_evidence_of (map cp_name missing)))"

datatype reconciliation_failure = No_correction_authority | Gates_drifted | Criteria_current

definition legacyCriteriaReconciliationFailure ::
  "checkpoint_repair \<Rightarrow> string list \<Rightarrow> string list \<Rightarrow> reconciliation_failure option" where
  "legacyCriteriaReconciliationFailure repair gates criteria =
     (if rx_blocker repair \<noteq> None then None
      else case Option.bind (rx_corrections repair) at_last of
          None \<Rightarrow> Some No_correction_authority
        | Some prior \<Rightarrow>
            if blank (oz_operator prior) \<or> blank (oz_decision prior) \<or> blank (oz_evidence prior) \<or>
               blank (oz_occurredAt prior) \<or> oz_missionRevision prior < 1
            then Some No_correction_authority
            else if \<not> sameRepairAuthority (rx_authorizedGates repair) gates then Some Gates_drifted
            else if sameRepairAuthority (rx_authorizedCriteria repair) criteria then Some Criteria_current
            else None)"

text \<open>The correction itself; it throws (\<open>None\<close>) where there is no blocker. \<open>record\<close> and \<open>correct\<close> call it only
  where there is one.\<close>

definition correctRepairBlocker ::
  "checkpoint_repair \<Rightarrow> string \<Rightarrow> string \<Rightarrow> string \<Rightarrow> string \<Rightarrow> int \<Rightarrow> string list \<Rightarrow> checkpoint_repair option" where
  "correctRepairBlocker repair operator decision evidence occurredAt missionRevision currentCriteria =
     (case rx_blocker repair of
        None \<Rightarrow> None
      | Some blocker \<Rightarrow> Some (repair\<lparr> rx_authorizedCriteria := currentCriteria, rx_blocker := None,
          rx_acknowledgedBlocker := Some blocker, rx_acknowledgedBy := Some operator, rx_acknowledgedAt := Some occurredAt,
          rx_corrections := Some (default_to [] (rx_corrections repair) @
            [\<lparr> oz_authorizedCriteria = Some (rx_authorizedCriteria repair), oz_authorizedGates = Some (rx_authorizedGates repair),
               oz_blocker = blocker, oz_operator = operator, oz_decision = decision, oz_evidence = evidence,
               oz_occurredAt = occurredAt, oz_missionRevision = missionRevision \<rparr>]) \<rparr>))"

section \<open>Recording\<close>

record record_request =
  rq_request :: command_request
  rq_checkpoint :: checkpoint
  rq_force :: bool

type_synonym record_result = "mission \<times> nat \<times> checkpoint \<times> bool"

text \<open>\<open>references\<close>: the file system and the root of the mission's checkout.\<close>

type_synonym references = "(file_system \<times> (string \<Rightarrow> string option)) option"

definition root_for :: "references \<Rightarrow> string \<Rightarrow> string option" where
  "root_for references ident = Option.bind references (\<lambda>(_, rootFor). rootFor ident)"

definition validateRecordRequest :: "record_request \<Rightarrow> 'a outcome option" where
  "validateRecordRequest rq =
     (case missingCapability (rq_request rq) ''checkpoint:record'' of
        Some refusal \<Rightarrow> Some refusal
      | None \<Rightarrow>
          if cp_missionId (rq_checkpoint rq) \<noteq> cq_missionId (rq_request rq) then Some (failure Validation_error)
          else if \<not> isReviewPreparationReadyCheckpoint (rq_checkpoint rq) then Some (failure Validation_error)
          else (case assertGoalCheckRows (cp_goalCheck (rq_checkpoint rq)) of
              Inl _ \<Rightarrow> Some (failure Validation_error) | Inr _ \<Rightarrow> None))"

definition all_rows :: "checkpoint list \<Rightarrow> goal_row list" where
  "all_rows checkpoints = concat (map cp_goalCheck checkpoints)"

definition mission_repair :: "mission \<Rightarrow> open_repair option" where
  "mission_repair m = openRepairFromReview (ms_review m) (ms_successCriteria m) (all_rows (ms_checkpoints m))"

definition stamp_row :: "goal_row list \<Rightarrow> int \<Rightarrow> string option \<Rightarrow> goal_row \<Rightarrow> goal_row" where
  "stamp_row recorded current gate row =
     (let prior = filter (\<lambda>p. row_key p = row_key row) recorded;
          repaired = dedupe (concat (map (\<lambda>p. default_to [] (gr_repairedGates p) @
              (case gr_repairedGate p of None \<Rightarrow> [] | Some g \<Rightarrow> if g = [] then [] else [g])) prior) @
            (case gate of None \<Rightarrow> [] | Some g \<Rightarrow> [g])) in
      row\<lparr> gr_recordedRound := Some current,
           gr_repairedGate := (if gate \<noteq> None then gate else gr_repairedGate row),
           gr_repairedGates := (if repaired \<noteq> [] then Some repaired else gr_repairedGates row) \<rparr>)"

definition stampCheckpointRecord :: "checkpoint \<Rightarrow> mission \<Rightarrow> int option \<Rightarrow> string option \<Rightarrow> checkpoint" where
  "stampCheckpointRecord identified m current gate =
     (case current of
        None \<Rightarrow> identified
      | Some number \<Rightarrow> identified\<lparr> cp_goalCheck :=
          map (stamp_row (all_rows (ms_checkpoints m)) number gate) (cp_goalCheck identified) \<rparr>)"

text \<open>The repair of the prior checkpoint after its evidence is recorded; a retained blocker needs the operator.\<close>

definition repaired_record ::
  "record_request \<Rightarrow> mission \<Rightarrow> nat \<Rightarrow> string \<Rightarrow> checkpoint \<Rightarrow> checkpoint_repair \<Rightarrow> 'a outcome + checkpoint_repair" where
  "repaired_record rq m version now stamped repair =
     (if list_ex (\<lambda>row. gr_criterion row \<notin> set (ms_successCriteria m)) (cp_goalCheck stamped) then Inl (failure Validation_error)
      else if rx_blocker repair \<noteq> None \<and> \<not> rq_force rq then Inl (failure Validation_error)
      else if rx_blocker repair \<noteq> None \<and> ''checkpoint:correct'' \<notin> set (cq_capabilities (rq_request rq)) then Inl (failure Capability_error)
      else
        let corrected = default_to repair (correctRepairBlocker repair ''px checkpoint record --force operator''
              ''Operator supplied corrected repair evidence'' (join newline (map gr_evidence (cp_goalCheck stamped)))
              now (int version + 1) (ms_successCriteria m)) in
        Inr (corrected\<lparr> rx_evidenceRecorded := True, rx_verified := False \<rparr>))"

text \<open>The round of a review without rounds is read from undefined, which is caught.\<close>

definition recording_round :: "mission \<Rightarrow> 'a outcome + int option" where
  "recording_round m =
     (case ms_review m of
        None \<Rightarrow> Inr None
      | Some review \<Rightarrow> (case at_last (rounds review) of
            None \<Rightarrow> Inl (failure Validation_error) | Some current \<Rightarrow> Inr (Some (rd_number current))))"

definition prior_checkpoint :: "record_request \<Rightarrow> mission \<Rightarrow> checkpoint option" where
  "prior_checkpoint rq m = checkpoint_named (ms_checkpoints m) (cp_name (rq_checkpoint rq))"

definition stamped_record :: "record_request \<Rightarrow> mission \<Rightarrow> int option \<Rightarrow> checkpoint" where
  "stamped_record rq m current =
     stampCheckpointRecord ((rq_checkpoint rq)\<lparr> cp_goalCheck :=
       identifyGoalCheckRows (cp_goalCheck (rq_checkpoint rq)) (criterionContract m) \<rparr>)
       m current (Option.bind (mission_repair m) or_gate)"

text \<open>A repair records only its affected criteria; the rows of the others are kept.\<close>

definition kept_record :: "record_request \<Rightarrow> mission \<Rightarrow> int option \<Rightarrow> checkpoint" where
  "kept_record rq m current =
     (let stamped = stamped_record rq m current in
      case prior_checkpoint rq m of
        None \<Rightarrow> stamped
      | Some p \<Rightarrow> stamped\<lparr> cp_goalCheck := retainPriorGoalCheckRows (cp_goalCheck p) (cp_goalCheck stamped) \<rparr>)"

definition prepareCheckpointValues ::
  "record_request \<Rightarrow> string \<Rightarrow> mission \<Rightarrow> nat \<Rightarrow> 'a outcome + checkpoint list \<times> checkpoint" where
  "prepareCheckpointValues rq now m version = try_bind (recording_round m) (\<lambda>current.
     let kept = kept_record rq m current in
     try_bind (case Option.bind (prior_checkpoint rq m) cp_repair of
           None \<Rightarrow> Inr kept
         | Some repair \<Rightarrow> map_sum id (\<lambda>r. kept\<lparr> cp_repair := Some r \<rparr>)
             (repaired_record rq m version now (stamped_record rq m current) repair))
       (\<lambda>merged'.
         let merged = merged'\<lparr> cp_recording := Some \<lparr> rg_recordedAt = now, rg_recordedRound = current,
               rg_missionRevision = int version + 1 \<rparr> \<rparr> in
         map_sum (\<lambda>_. failure Validation_error) (\<lambda>checkpoints. (checkpoints, merged))
           (recordCheckpoint (ms_checkpoints m) merged)))"

text \<open>What the last planned checkpoint owes: fresh evidence of the open repair, and a row for every criterion.\<close>

definition owes_evidence :: "mission \<Rightarrow> checkpoint list \<Rightarrow> bool" where
  "owes_evidence m checkpoints \<longleftrightarrow>
     (case mission_repair m of None \<Rightarrow> False | Some repair \<Rightarrow> staleRepairCriteria checkpoints repair \<noteq> []) \<or>
     uncoveredCriteria (map cp_goalCheck checkpoints) (ms_successCriteria m) (ms_successCriterionIds m) \<noteq> []"

definition assertRecordableEvidence ::
  "references \<Rightarrow> record_request \<Rightarrow> mission \<Rightarrow> checkpoint list \<Rightarrow> checkpoint \<Rightarrow> 'a outcome option walk" where
  "assertRecordableEvidence references rq m checkpoints merged =
     (let unverifiable = (case (root_for references (cq_missionId (rq_request rq)), references) of
            (Some rootDir, Some (fs, _)) \<Rightarrow>
              if rootDir = [] then Some (Inr None) else findUnverifiableRecordedRow fs (cp_goalCheck merged) rootDir
          | _ \<Rightarrow> Some (Inr None)) in
      map_option (map_sum id (\<lambda>found.
        if found \<noteq> None then Some (failure Validation_error)
        else if map_option cp_name (at_last checkpoints) = Some (cp_name (rq_checkpoint rq)) \<and> owes_evidence m checkpoints
        then Some (failure Validation_error)
        else None)) unverifiable)"

definition decide_record :: "references \<Rightarrow> string \<Rightarrow> record_request \<Rightarrow> mission \<Rightarrow> nat \<Rightarrow> record_result decision walk" where
  "decide_record references now rq m version =
     (let replaced = list_ex (\<lambda>cp. cp_name cp = cp_name (rq_checkpoint rq)) (ms_checkpoints m) in
      case prepareCheckpointValues rq now m version of
        Inl refusal \<Rightarrow> Some (Inr (Inl refusal))
      | Inr (checkpoints, merged) \<Rightarrow>
          map_option (map_sum id (\<lambda>refused. case refused of
              Some refusal \<Rightarrow> Inl refusal
            | None \<Rightarrow> let updated = m\<lparr> ms_checkpoints := checkpoints \<rparr> in
                Inr (updated, \<lambda>v. (updated, v, rq_checkpoint rq, replaced))))
            (assertRecordableEvidence references rq m checkpoints merged))"

definition record_checkpoint ::
  "(jsnum \<Rightarrow> string) \<Rightarrow> (string \<Rightarrow> bool) \<Rightarrow> database \<Rightarrow> database \<Rightarrow> references \<Rightarrow> string \<Rightarrow> record_request \<Rightarrow>
    (record_result outcome \<times> database) walk" where
  "record_checkpoint nt owns seen db references now rq =
     (case validateRecordRequest rq of
        Some refusal \<Rightarrow> Some (Inr (refusal, db))
      | None \<Rightarrow>
          (case loadForCommand nt seen (rq_request rq) of
             Inl refusal \<Rightarrow> Some (Inr (refusal, db))
           | Inr (m, version) \<Rightarrow> map_option (map_sum id (\<lambda>decided. case decided of
                 Inl refusal \<Rightarrow> (refusal, db)
               | Inr (changed, answer) \<Rightarrow> save_rewritten owns db changed version answer))
               (decide_record references now rq m version)))"

section \<open>The repair service\<close>

datatype repair_fault =
    Repair_slug_invalid | Repair_unreadable load_error | Repair_not_found | Awaits_operator | Authority_changed
  | Fresh_evidence_owed | Coverage_changed | Resume_not_permitted | Repair_contract contract_failure
  | Repair_unsaved store_error

definition load_repair :: "(jsnum \<Rightarrow> string) \<Rightarrow> database \<Rightarrow> string \<Rightarrow> repair_fault + mission \<times> nat" where
  "load_repair nt seen slug =
     (case missionId slug of
        Inl _ \<Rightarrow> Inl Repair_slug_invalid
      | Inr ident \<Rightarrow> (case loadAggregate nt seen ident of
            Inl e \<Rightarrow> Inl (Repair_unreadable e)
          | Inr None \<Rightarrow> Inl Repair_not_found
          | Inr (Some loaded) \<Rightarrow> Inr loaded))"

definition save_repair :: "(string \<Rightarrow> bool) \<Rightarrow> database \<Rightarrow> mission \<Rightarrow> nat \<Rightarrow> repair_fault + nat \<times> database" where
  "save_repair owns db changed version = map_error Repair_unsaved (saveAggregate owns db changed (Some version))"

text \<open>Opening the checkpoint of an incident.\<close>

record open_request =
  oq_slug :: string
  oq_incidentId :: string
  oq_command :: string
  oq_attempt :: int
  oq_worktree :: "string option"
  oq_failureRevision :: "string option"
  oq_failureEvidenceId :: "string option"

definition newFailureOccurrence :: "open_request \<Rightarrow> int \<Rightarrow> repair_occurrence option" where
  "newFailureOccurrence rq openedMissionRevision =
     (if \<not> has_text (oq_worktree rq) \<or> \<not> has_text (oq_failureRevision rq) \<or> \<not> has_text (oq_failureEvidenceId rq) then None
      else Some \<lparr> oc_openedMissionRevision = openedMissionRevision, oc_worktree = the (oq_worktree rq),
        oc_failureRevision = the (oq_failureRevision rq), oc_failureEvidenceId = the (oq_failureEvidenceId rq) \<rparr>)"

text \<open>\<open>Math.max(0, ...numbers) + 1\<close>; the names of a loaded mission are \<open>CP-N\<close>.\<close>

definition next_checkpoint_name :: "checkpoint list \<Rightarrow> string" where
  "next_checkpoint_name checkpoints =
     ''CP-'' @ decimal (fold max (map (\<lambda>cp. checkpoint_number (cp_name cp)) checkpoints) 0 + 1)"

definition reopened_repair :: "open_request \<Rightarrow> mission \<Rightarrow> nat \<Rightarrow> checkpoint_repair option \<Rightarrow> checkpoint_repair" where
  "reopened_repair rq m version prior =
     \<lparr> rx_incidentId = oq_incidentId rq, rx_command = oq_command rq, rx_authorizedGates = ms_declaredGates m,
       rx_authorizedCriteria = ms_successCriteria m, rx_attempt = oq_attempt rq, rx_evidenceRecorded = False,
       rx_verified = False, rx_occurrence = newFailureOccurrence rq (int version + 1),
       rx_exactSuccessCoverage = Option.bind prior rx_exactSuccessCoverage, rx_blocker = Option.bind prior rx_blocker,
       rx_acknowledgedBlocker = Option.bind prior rx_acknowledgedBlocker,
       rx_acknowledgedBy = Option.bind prior rx_acknowledgedBy, rx_acknowledgedAt = Option.bind prior rx_acknowledgedAt,
       rx_corrections = Option.bind prior rx_corrections \<rparr>"

definition incident_checkpoint :: "open_request \<Rightarrow> mission \<Rightarrow> checkpoint option" where
  "incident_checkpoint rq m =
     find_first (\<lambda>cp. map_option rx_incidentId (cp_repair cp) = Some (oq_incidentId rq)) (ms_checkpoints m)"

definition opened_checkpoint :: "open_request \<Rightarrow> mission \<Rightarrow> nat \<Rightarrow> checkpoint option \<Rightarrow> checkpoint" where
  "opened_checkpoint rq m version prior =
     \<lparr> cp_missionId = ms_id m, cp_recording = None,
       cp_name = (case prior of Some cp \<Rightarrow> cp_name cp | None \<Rightarrow> next_checkpoint_name (ms_checkpoints m)),
       cp_rawFilename = None,
       cp_firstLine = Some (''Repair incident '' @ oq_incidentId rq @ '': '' @ oq_command rq),
       cp_repair = Some (reopened_repair rq m version (Option.bind prior cp_repair)),
       cp_goalCheck = (case prior of Some cp \<Rightarrow> cp_goalCheck cp | None \<Rightarrow> carriedGoalCheckRows (ms_checkpoints m)),
       cp_nextActionText = ''Record authorized repair evidence, complete remaining checkpoints and rerun the authorized required check.'' \<rparr>"

definition decide_open :: "open_request \<Rightarrow> mission \<Rightarrow> nat \<Rightarrow> repair_fault + (mission \<times> string) option" where
  "decide_open rq m version =
     (let prior = incident_checkpoint rq m in
      if ms_brief m = None then Inr None
      else if list_ex (\<lambda>cp. Option.bind (cp_repair cp) rx_blocker \<noteq> None) (ms_checkpoints m) then Inl Awaits_operator
      else if (case Option.bind prior cp_repair of None \<Rightarrow> False | Some r \<Rightarrow> rx_authorizedGates r \<noteq> ms_declaredGates m \<or>
          rx_authorizedCriteria r \<noteq> ms_successCriteria m) then Inl Authority_changed
      else
        let opened = opened_checkpoint rq m version prior in
        Inr (Some (m\<lparr> ms_checkpoints := filter (\<lambda>cp. cp_name cp \<noteq> cp_name opened) (ms_checkpoints m) @ [opened] \<rparr>,
          cp_name opened)))"

definition open_repair_checkpoint ::
  "(jsnum \<Rightarrow> string) \<Rightarrow> (string \<Rightarrow> bool) \<Rightarrow> database \<Rightarrow> database \<Rightarrow> open_request \<Rightarrow>
    (repair_fault + (string \<times> nat) option) \<times> database" where
  "open_repair_checkpoint nt owns seen db rq =
     (case load_repair nt seen (oq_slug rq) of
        Inl e \<Rightarrow> (Inl e, db)
      | Inr (m, version) \<Rightarrow> (case decide_open rq m version of
            Inl e \<Rightarrow> (Inl e, db)
          | Inr None \<Rightarrow> (Inr None, db)
          | Inr (Some (changed, name)) \<Rightarrow> (case save_repair owns db changed version of
                Inl e \<Rightarrow> (Inl e, db) | Inr (v, db') \<Rightarrow> (Inr (Some (name, v)), db'))))"

definition readBlocker :: "(jsnum \<Rightarrow> string) \<Rightarrow> database \<Rightarrow> string \<Rightarrow> string \<Rightarrow> repair_fault + contract_blocker option" where
  "readBlocker nt seen slug name =
     map_sum id (\<lambda>(m, _). Option.bind (Option.bind (checkpoint_named (ms_checkpoints m) name) cp_repair) rx_blocker)
       (load_repair nt seen slug)"

text \<open>The operator's resume. One checkpoint: left alone, cleared of its blocker, or refreshed.\<close>

datatype resumed = Left_alone | Cleared contract_blocker | Refreshed

definition resume_repair ::
  "string \<Rightarrow> string \<Rightarrow> string list \<Rightarrow> string list \<Rightarrow> checkpoint_repair \<Rightarrow> resumed \<times> checkpoint_repair" where
  "resume_repair actor occurredAt gates criteria repair =
     (let stale = (rx_authorizedGates repair \<noteq> gates \<or> rx_authorizedCriteria repair \<noteq> criteria);
          refreshed = repair\<lparr> rx_authorizedGates := gates, rx_authorizedCriteria := criteria \<rparr> in
      if rx_verified repair then (Left_alone, repair)
      else case rx_blocker repair of
          Some blocker \<Rightarrow> (Cleared blocker, refreshed\<lparr> rx_blocker := None, rx_acknowledgedBlocker := Some blocker,
            rx_acknowledgedBy := Some actor, rx_acknowledgedAt := Some occurredAt \<rparr>)
        | None \<Rightarrow> if stale then (Refreshed, refreshed) else (Left_alone, repair))"

definition resume_checkpoint ::
  "string \<Rightarrow> string \<Rightarrow> string list \<Rightarrow> string list \<Rightarrow> checkpoint \<Rightarrow> resumed \<times> checkpoint" where
  "resume_checkpoint actor occurredAt gates criteria cp =
     (case cp_repair cp of
        None \<Rightarrow> (Left_alone, cp)
      | Some repair \<Rightarrow> map_prod id (\<lambda>r. cp\<lparr> cp_repair := Some r \<rparr>) (resume_repair actor occurredAt gates criteria repair))"

record resume_verdict =
  rv_cleared :: "string list"
  rv_refreshed :: "string list"
  rv_priorBlockers :: "contract_blocker list"

definition verdict_of :: "(resumed \<times> checkpoint) list \<Rightarrow> resume_verdict" where
  "verdict_of results =
     \<lparr> rv_cleared = List.map_filter (\<lambda>(r, cp). case r of Cleared _ \<Rightarrow> Some (cp_name cp) | _ \<Rightarrow> None) results,
       rv_refreshed = List.map_filter (\<lambda>(r, cp). case r of Refreshed \<Rightarrow> Some (cp_name cp) | _ \<Rightarrow> None) results,
       rv_priorBlockers = List.map_filter (\<lambda>(r, cp). case r of Cleared b \<Rightarrow> Some b | _ \<Rightarrow> None) results \<rparr>"

definition resume_mission :: "string \<Rightarrow> string \<Rightarrow> mission \<Rightarrow> resume_verdict \<times> mission" where
  "resume_mission actor occurredAt m =
     (let results = map (resume_checkpoint actor occurredAt (ms_declaredGates m) (ms_successCriteria m)) (ms_checkpoints m) in
      (verdict_of results, m\<lparr> ms_checkpoints := map snd results \<rparr>))"

definition acknowledgeOperatorResume ::
  "(jsnum \<Rightarrow> string) \<Rightarrow> (string \<Rightarrow> bool) \<Rightarrow> database \<Rightarrow> database \<Rightarrow> command_request \<Rightarrow> string \<Rightarrow> string \<Rightarrow>
    (repair_fault + resume_verdict) \<times> database" where
  "acknowledgeOperatorResume nt owns seen db request actor occurredAt =
     (if ''checkpoint:record'' \<notin> set (cq_capabilities request) then (Inl Resume_not_permitted, db)
      else case loadAggregate nt seen (cq_missionId request) of
          Inl e \<Rightarrow> (Inl (Repair_unreadable e), db)
        | Inr None \<Rightarrow> (Inr \<lparr> rv_cleared = [], rv_refreshed = [], rv_priorBlockers = [] \<rparr>, db)
        | Inr (Some (m, version)) \<Rightarrow>
            (let (verdict, changed) = resume_mission actor occurredAt m in
             if rv_cleared verdict = [] \<and> rv_refreshed verdict = [] then (Inr verdict, db)
             else case save_repair owns db changed version of
                 Inl e \<Rightarrow> (Inl e, db) | Inr (_, db') \<Rightarrow> (Inr verdict, db')))"

text \<open>The operator's correction. The map over the checkpoints changes the object that was found: of equal names,
  the first.\<close>

record correction_request =
  kq_request :: command_request
  kq_name :: string
  kq_operator :: string
  kq_decision :: string
  kq_evidence :: string

definition replace_first :: "string \<Rightarrow> checkpoint \<Rightarrow> checkpoint list \<Rightarrow> checkpoint list" where
  "replace_first name corrected checkpoints =
     takeWhile (\<lambda>cp. cp_name cp \<noteq> name) checkpoints @ corrected # tl (dropWhile (\<lambda>cp. cp_name cp \<noteq> name) checkpoints)"

definition corrected_repair ::
  "correction_request \<Rightarrow> string \<Rightarrow> nat \<Rightarrow> string list \<Rightarrow> checkpoint_repair \<Rightarrow> checkpoint_repair" where
  "corrected_repair rq occurredAt version criteria repair =
     (case correctRepairBlocker repair (kq_operator rq) (kq_decision rq) (kq_evidence rq) occurredAt (int version + 1) criteria of
        Some corrected \<Rightarrow> corrected
      | None \<Rightarrow> repair\<lparr> rx_authorizedCriteria := criteria,
          rx_corrections := map_option (\<lambda>corrections. corrections @
            [\<lparr> oz_authorizedCriteria = Some (rx_authorizedCriteria repair), oz_authorizedGates = Some (rx_authorizedGates repair),
               oz_blocker = oz_blocker (last corrections), oz_operator = kq_operator rq, oz_decision = kq_decision rq,
               oz_evidence = kq_evidence rq, oz_occurredAt = occurredAt, oz_missionRevision = int version + 1 \<rparr>])
            (rx_corrections repair) \<rparr>)"

definition decide_correction ::
  "references \<Rightarrow> string \<Rightarrow> correction_request \<Rightarrow> mission \<Rightarrow> nat \<Rightarrow> nat decision walk" where
  "decide_correction references occurredAt rq m version =
     (case checkpoint_named (ms_checkpoints m) (kq_name rq) of
        None \<Rightarrow> Some (Inr (Inl (failure Validation_error)))
      | Some cp \<Rightarrow>
          (case cp_repair cp of
             None \<Rightarrow> Some (Inr (Inl (failure Validation_error)))
           | Some repair \<Rightarrow>
               if legacyCriteriaReconciliationFailure repair (ms_declaredGates m) (ms_successCriteria m) \<noteq> None \<or>
                  blank (kq_operator rq) \<or> blank (kq_decision rq) \<or> blank (kq_evidence rq)
               then Some (Inr (Inl (failure Validation_error)))
               else (case (references, root_for references (cq_missionId (kq_request rq))) of
                   (Some (fs, _), Some rootDir) \<Rightarrow>
                     if rootDir = [] then Some (Inr (Inl (failure Unavailable_error)))
                     else map_option (map_sum id (\<lambda>invalid.
                       if invalid \<noteq> None then Inl (failure Validation_error)
                       else Inr (m\<lparr> ms_checkpoints := replace_first (kq_name rq) (cp\<lparr> cp_repair :=
                           Some (corrected_repair rq occurredAt version (ms_successCriteria m) repair) \<rparr>) (ms_checkpoints m) \<rparr>, id)))
                       (findUnverifiableRecordedRow fs [\<lparr> gr_criterion = kq_decision rq, gr_criterionId = Absent,
                          gr_evidence = kq_evidence rq, gr_recordedRound = None, gr_repairedGate = None,
                          gr_repairedGates = None, gr_carriedFrom = None \<rparr>] rootDir)
                 | _ \<Rightarrow> Some (Inr (Inl (failure Unavailable_error))))))"

definition correct_checkpoint ::
  "(jsnum \<Rightarrow> string) \<Rightarrow> (string \<Rightarrow> bool) \<Rightarrow> database \<Rightarrow> database \<Rightarrow> references \<Rightarrow> string \<Rightarrow> correction_request \<Rightarrow>
    (nat outcome \<times> database) walk" where
  "correct_checkpoint nt owns seen db references occurredAt rq =
     (if ''checkpoint:correct'' \<notin> set (cq_capabilities (kq_request rq)) then Some (Inr (failure Capability_error, db))
      else case loadForCommand nt seen (kq_request rq) of
          Inl refusal \<Rightarrow> Some (Inr (refusal, db))
        | Inr (m, version) \<Rightarrow> map_option (map_sum id (\<lambda>decided. case decided of
              Inl refusal \<Rightarrow> (refusal, db)
            | Inr (changed, answer) \<Rightarrow> save_rewritten owns db changed version answer))
            (decide_correction references occurredAt rq m version))"

text \<open>Verification: the snapshot taken before the check runs, and the proof handed back after it passed.\<close>

record verification_snapshot =
  vs_missionId :: string
  vs_command :: string
  vs_worktree :: string
  vs_executionRevision :: string
  vs_executionMissionRevision :: int
  vs_checkpointEvidenceRevision :: int
  vs_authorizedGates :: "string list"
  vs_authorizedCriteria :: "string list"
  vs_verifiedOccurrence :: covered_occurrence
  vs_coveredOccurrences :: "covered_occurrence list"

record verification_proof =
  vp_snapshot :: verification_snapshot
  vp_command :: string
  vp_revisionAfter :: "string option"
  vp_execution :: exact_execution

definition snapshot_of ::
  "string \<Rightarrow> string \<Rightarrow> string \<Rightarrow> string option \<Rightarrow> mission \<Rightarrow> nat \<Rightarrow> repair_fault + verification_snapshot option" where
  "snapshot_of slug name worktree executionRevision m version =
     (case checkpoint_named (ms_checkpoints m) name of
        None \<Rightarrow> Inr None
      | Some cp \<Rightarrow>
          (case (cp_repair cp, repairOccurrence cp, executionRevision) of
             (Some repair, Some own, Some revision) \<Rightarrow>
               if revision = [] \<or> oc_worktree own \<noteq> worktree then Inr None
               else (case repairContractFailure (ms_checkpoints m) (Some (ms_declaredGates m)) (Some (ms_successCriteria m)) of
                   Some f \<Rightarrow> Inl (Repair_contract f)
                 | None \<Rightarrow>
                     (case cp_recording cp of
                        None \<Rightarrow> Inr None
                      | Some recorded \<Rightarrow>
                          if \<not> rx_evidenceRecorded repair \<or> freshGoalCheckRows (cp_goalCheck cp) = [] then Inr None
                          else Inr (Some \<lparr> vs_missionId = slug, vs_command = rx_command repair, vs_worktree = worktree,
                            vs_executionRevision = revision, vs_executionMissionRevision = int version,
                            vs_checkpointEvidenceRevision = rg_missionRevision recorded,
                            vs_authorizedGates = rx_authorizedGates repair, vs_authorizedCriteria = rx_authorizedCriteria repair,
                            vs_verifiedOccurrence = own,
                            vs_coveredOccurrences = filter (\<lambda>o'. oc_worktree o' = worktree) (List.map_filter repairOccurrence
                              (filter (\<lambda>c. cp_name c \<noteq> name \<and> (case cp_repair c of None \<Rightarrow> False | Some r \<Rightarrow>
                                   rx_command r = rx_command repair \<and>
                                   sameRepairAuthority (rx_authorizedGates r) (rx_authorizedGates repair) \<and>
                                   sameRepairAuthority (rx_authorizedCriteria r) (rx_authorizedCriteria repair)))
                                 (effectiveRepairObligations (ms_checkpoints m) (Some (ms_declaredGates m))
                                   (Some (ms_successCriteria m)) (Some worktree)))) \<rparr>)))
           | _ \<Rightarrow> Inr None))"

definition prepareVerification ::
  "(jsnum \<Rightarrow> string) \<Rightarrow> database \<Rightarrow> string \<Rightarrow> string \<Rightarrow> string \<Rightarrow> string option \<Rightarrow>
    repair_fault + verification_snapshot option" where
  "prepareVerification nt seen slug name worktree executionRevision =
     try_bind (load_repair nt seen slug) (\<lambda>(m, version). snapshot_of slug name worktree executionRevision m version)"

definition verificationAuthorityUnchanged :: "mission \<Rightarrow> verification_proof \<Rightarrow> bool" where
  "verificationAuthorityUnchanged m proof' \<longleftrightarrow>
     sameRepairAuthority (vs_authorizedGates (vp_snapshot proof')) (ms_declaredGates m) \<and>
     sameRepairAuthority (vs_authorizedCriteria (vp_snapshot proof')) (ms_successCriteria m) \<and>
     repairContractFailure (ms_checkpoints m) (Some (ms_declaredGates m)) (Some (ms_successCriteria m)) = None"

definition coveredOccurrencesUnchanged :: "mission \<Rightarrow> verification_proof \<Rightarrow> bool" where
  "coveredOccurrencesUnchanged m proof' \<longleftrightarrow>
     (let snapshot = vp_snapshot proof' in
      list_all (\<lambda>item. case checkpoint_named (ms_checkpoints m) (co_checkpoint item) of
          None \<Rightarrow> False
        | Some current \<Rightarrow>
            (case (repairOccurrence current, cp_repair current) of
               (Some occurrence, Some repair) \<Rightarrow>
                 sameRepairOccurrence item occurrence \<and> oc_worktree item = vs_worktree snapshot \<and>
                 rx_command repair = vs_command snapshot \<and>
                 sameRepairAuthority (rx_authorizedGates repair) (vs_authorizedGates snapshot) \<and>
                 sameRepairAuthority (rx_authorizedCriteria repair) (vs_authorizedCriteria snapshot)
             | _ \<Rightarrow> False)) (vs_coveredOccurrences snapshot))"

definition coverage_proven :: "mission \<Rightarrow> checkpoint \<Rightarrow> checkpoint_repair \<Rightarrow> verification_proof \<Rightarrow> bool" where
  "coverage_proven m cp repair proof' \<longleftrightarrow>
     (let snapshot = vp_snapshot proof' in
      vs_missionId snapshot = ms_id m \<and> vp_command proof' = rx_command repair \<and> vp_command proof' = vs_command snapshot \<and>
      vs_worktree snapshot \<noteq> [] \<and> vs_executionRevision snapshot \<noteq> [] \<and>
      vp_revisionAfter proof' = Some (vs_executionRevision snapshot) \<and>
      map_option rg_missionRevision (cp_recording cp) = Some (vs_checkpointEvidenceRevision snapshot) \<and>
      (case repairOccurrence cp of None \<Rightarrow> False | Some own \<Rightarrow> vs_worktree snapshot = oc_worktree own \<and>
         sameRepairOccurrence (vs_verifiedOccurrence snapshot) own) \<and>
      verificationAuthorityUnchanged m proof' \<and> validExactExecution (vp_execution proof') \<and>
      coveredOccurrencesUnchanged m proof')"

definition exact_success :: "verification_proof \<Rightarrow> nat \<Rightarrow> exact_coverage" where
  "exact_success proof' version =
     (let s = vp_snapshot proof' in
      \<lparr> ec_producer = ''harness-exact-check'', ec_missionId = vs_missionId s, ec_worktree = vs_worktree s,
        ec_command = vs_command s, ec_authorizedGates = vs_authorizedGates s, ec_authorizedCriteria = vs_authorizedCriteria s,
        ec_executionRevision = vs_executionRevision s, ec_executionMissionRevision = vs_executionMissionRevision s,
        ec_checkpointEvidenceRevision = vs_checkpointEvidenceRevision s, ec_verifiedMissionRevision = int version + 1,
        ec_execution = vp_execution proof', ec_verifiedOccurrence = vs_verifiedOccurrence s,
        ec_coveredOccurrences = vs_coveredOccurrences s \<rparr>)"

definition decide_verify :: "string \<Rightarrow> verification_proof option \<Rightarrow> mission \<Rightarrow> nat \<Rightarrow> repair_fault + mission" where
  "decide_verify name proof' m version =
     (case checkpoint_named (ms_checkpoints m) name of
        None \<Rightarrow> Inl Fresh_evidence_owed
      | Some cp \<Rightarrow>
          (case cp_repair cp of
             None \<Rightarrow> Inl Fresh_evidence_owed
           | Some repair \<Rightarrow>
               if rx_blocker repair \<noteq> None \<or> \<not> rx_evidenceRecorded repair \<or> freshGoalCheckRows (cp_goalCheck cp) = []
               then Inl Fresh_evidence_owed
               else if rx_authorizedGates repair \<noteq> ms_declaredGates m \<or> rx_authorizedCriteria repair \<noteq> ms_successCriteria m
               then Inl Authority_changed
               else if (case proof' of None \<Rightarrow> False | Some p \<Rightarrow> \<not> coverage_proven m cp repair p) then Inl Coverage_changed
               else let verified = repair\<lparr> rx_verified := True, rx_exactSuccessCoverage := (case proof' of
                     None \<Rightarrow> rx_exactSuccessCoverage repair | Some p \<Rightarrow> Some (exact_success p version)) \<rparr> in
                 Inr (m\<lparr> ms_checkpoints := map (\<lambda>c. if cp_name c = name then c\<lparr> cp_repair := Some verified \<rparr> else c)
                   (ms_checkpoints m) \<rparr>)))"

definition verify_checkpoint ::
  "(jsnum \<Rightarrow> string) \<Rightarrow> (string \<Rightarrow> bool) \<Rightarrow> database \<Rightarrow> database \<Rightarrow> string \<Rightarrow> string \<Rightarrow> verification_proof option \<Rightarrow>
    (repair_fault + unit) \<times> database" where
  "verify_checkpoint nt owns seen db slug name proof' =
     (case try_bind (load_repair nt seen slug) (\<lambda>(m, version).
         map_sum id (\<lambda>changed. (changed, version)) (decide_verify name proof' m version)) of
        Inl e \<Rightarrow> (Inl e, db)
      | Inr (changed, version) \<Rightarrow> (case save_repair owns db changed version of
            Inl e \<Rightarrow> (Inl e, db) | Inr (_, db') \<Rightarrow> (Inr (), db')))"

text \<open>An invalid contract reported by the implementer. The checks are inside the \<open>try\<close> of the save: a refused
  report is no \<open>MissionRuleViolation\<close> and is a failed execution.\<close>

definition decide_report :: "string \<Rightarrow> contract_blocker \<Rightarrow> mission \<Rightarrow> nat \<Rightarrow> nat decision" where
  "decide_report name blocker m version =
     (case assertInvalidContractBlocker blocker of
        Inl _ \<Rightarrow> Inl (failure Execution_error)
      | Inr _ \<Rightarrow>
          (case Option.bind (checkpoint_named (ms_checkpoints m) name) cp_repair of
             None \<Rightarrow> Inl (failure Execution_error)
           | Some repair \<Rightarrow>
               if rx_command repair \<noteq> ib_command blocker then Inl (failure Execution_error)
               else Inr (m\<lparr> ms_checkpoints := map (\<lambda>c. if cp_name c = name
                     then c\<lparr> cp_repair := Some (repair\<lparr> rx_blocker := Some blocker, rx_verified := False \<rparr>) \<rparr> else c)
                   (ms_checkpoints m) \<rparr>, id)))"

definition report_blocker ::
  "(jsnum \<Rightarrow> string) \<Rightarrow> (string \<Rightarrow> bool) \<Rightarrow> database \<Rightarrow> database \<Rightarrow> command_request \<Rightarrow> string \<Rightarrow> contract_blocker \<Rightarrow>
    nat outcome \<times> database" where
  "report_blocker nt owns seen db request name blocker =
     (if ''checkpoint:record'' \<notin> set (cq_capabilities request) then (failure Capability_error, db)
      else rewrite_mission nt owns seen db request (decide_report name blocker))"

section \<open>Reading the evidence\<close>

datatype finding_code =
    Human_only_contract_blocker | Repair_contract_changed | Missing_checkpoint | Unverifiable_reference
  | Incomplete_criterion | Uncovered_criterion | Stale_repair_row | Missing_evidence_code

record evidence_finding =
  ef_code :: finding_code
  ef_nextCommands :: "string list"
  ef_checkpoint :: "string option"
  ef_criterion :: "string option"
  ef_criterionIndex :: "int option"
  ef_rowIndex :: "nat option"

definition invalidContractRecoveryCommands :: "string \<Rightarrow> string list" where
  "invalidContractRecoveryCommands name =
     [''px checkpoint read --name '' @ name,
      ''px checkpoint correct-invalid-contract --name '' @ name @ '' --operator <name> --decision <correction> --evidence <reference>'',
      ''px checkpoint record --name '' @ name @ '' --force --criterion <exact-criterion> --evidence <reference> --next <next-action>'']"

record evidence_contract =
  ev_draftedInDb :: bool
  ev_checkpoints :: "checkpoint list"
  ev_successCriteria :: "string list"
  ev_successCriterionIds :: "string list option"
  ev_completedSuccessCriteria :: "nat list"
  ev_gates :: "string list"
  ev_review :: "review option"

definition record_command :: "string \<Rightarrow> string" where
  "record_command name = ''px checkpoint record --name '' @ name @
     '' --criterion <exact-criterion> --evidence <verifiable-reference> --next <next-action>''"

definition checkpointFindings :: "evidence_contract \<Rightarrow> evidence_finding list" where
  "checkpointFindings contract =
     (if \<not> ev_draftedInDb contract then []
      else
        let checkpoints = ev_checkpoints contract; gates = Some (ev_gates contract); criteria = Some (ev_successCriteria contract);
            blocked = find_first (\<lambda>cp. Option.bind (cp_repair cp) rx_blocker \<noteq> None) checkpoints in
        (case repairContractFailure checkpoints gates criteria of
           None \<Rightarrow> []
         | Some _ \<Rightarrow> [\<lparr> ef_code = (if blocked \<noteq> None then Human_only_contract_blocker else Repair_contract_changed),
             ef_nextCommands = (case blocked of Some cp \<Rightarrow> invalidContractRecoveryCommands (cp_name cp) | None \<Rightarrow> [''px status --json'']),
             ef_checkpoint = map_option cp_name blocked, ef_criterion = None, ef_criterionIndex = None, ef_rowIndex = None \<rparr>]) @
        map (\<lambda>cp. \<lparr> ef_code = Missing_checkpoint, ef_nextCommands = [record_command (cp_name cp)],
             ef_checkpoint = Some (cp_name cp), ef_criterion = None, ef_criterionIndex = None, ef_rowIndex = None \<rparr>)
          (missingCheckpointEvidence checkpoints gates criteria))"

text \<open>The rows that cite nothing verifiable, each checked alone, with its place in its checkpoint.\<close>

fun unverifiable_findings ::
  "file_system \<Rightarrow> string \<Rightarrow> (checkpoint \<times> nat \<times> goal_row) list \<Rightarrow> evidence_finding list walk" where
  "unverifiable_findings fs rootDir [] = Some (Inr [])"
| "unverifiable_findings fs rootDir ((cp, index, row) # rest) =
     (case findUnverifiableRecordedRow fs [row] rootDir of
        None \<Rightarrow> None
      | Some (Inl fault) \<Rightarrow> Some (Inl fault)
      | Some (Inr invalid) \<Rightarrow> map_option (map_sum id (\<lambda>findings. if invalid = None then findings
          else \<lparr> ef_code = Unverifiable_reference, ef_nextCommands = [record_command (cp_name cp)],
              ef_checkpoint = Some (cp_name cp), ef_criterion = Some (gr_criterion row), ef_criterionIndex = None,
              ef_rowIndex = Some (Suc index) \<rparr> # findings)) (unverifiable_findings fs rootDir rest))"

definition criterion_finding :: "finding_code \<Rightarrow> string \<Rightarrow> string option \<Rightarrow> int option \<Rightarrow> evidence_finding" where
  "criterion_finding code command criterion index =
     \<lparr> ef_code = code, ef_nextCommands = [command], ef_checkpoint = None, ef_criterion = criterion,
       ef_criterionIndex = index, ef_rowIndex = None \<rparr>"

text \<open>What is left to say of the criteria. \<open>indexOf\<close> is -1 for an absent text.\<close>

definition criteria_findings :: "evidence_contract \<Rightarrow> string \<Rightarrow> nat list \<Rightarrow> evidence_finding list" where
  "criteria_findings contract latest incomplete =
     (let checkpoints = ev_checkpoints contract; criteria = ev_successCriteria contract in
      map (\<lambda>index. criterion_finding Incomplete_criterion (''px mission mark-complete --criterion '' @ decimal index)
        (nth_opt criteria (index - 1)) (Some (int index))) incomplete @
      map (\<lambda>criterion. criterion_finding Uncovered_criterion (record_command latest) (Some criterion)
        (Some (case find_index (\<lambda>c. c = criterion) criteria of Some i \<Rightarrow> int i + 1 | None \<Rightarrow> 0)))
        (uncoveredCompletedCriteria (map cp_goalCheck checkpoints) criteria (ev_completedSuccessCriteria contract)
          (ev_successCriterionIds contract)) @
      map (\<lambda>criterion. criterion_finding Stale_repair_row (record_command latest) (Some criterion) None)
        (case openRepairFromReview (ev_review contract) criteria (all_rows checkpoints) of
           None \<Rightarrow> [] | Some repair \<Rightarrow> staleRepairCriteria checkpoints repair))"

record evidence_verdict =
  ed_ready :: bool
  ed_source :: evidence_origin
  ed_findings :: "evidence_finding list"
  ed_primaryStopReason :: "finding_code option"

definition evaluateMissionEvidence :: "evidence_contract \<Rightarrow> file_system \<Rightarrow> string \<Rightarrow> evidence_verdict walk" where
  "evaluateMissionEvidence contract fs rootDir =
     (let checkpoints = ev_checkpoints contract;
          latest = default_to ''CP-1'' (map_option cp_name (at_last checkpoints));
          policy = reviewPreparationEvidencePolicy (map cp_goalCheck checkpoints) (ev_successCriteria contract)
            (ev_successCriterionIds contract) (ev_completedSuccessCriteria contract) (ev_draftedInDb contract);
          first = checkpointFindings contract @ (if er_source policy = Missing_evidence
            then [criterion_finding Missing_evidence_code (record_command latest) None None] else []);
          conclude = (\<lambda>findings. \<lparr> ed_ready = (findings = [] \<and> er_source policy \<noteq> Historical), ed_source = er_source policy,
            ed_findings = findings, ed_primaryStopReason = map_option ef_code (if findings = [] then None else Some (hd findings)) \<rparr>) in
      if er_source policy = Historical then Some (Inr (conclude first))
      else map_option (map_sum id (\<lambda>invalid. conclude (first @ invalid @ criteria_findings contract latest (er_incomplete policy))))
        (unverifiable_findings fs rootDir
          (concat (map (\<lambda>cp. map (Pair cp) (enumerate 0 (cp_goalCheck cp))) checkpoints))))"

definition mission_contract :: "mission \<Rightarrow> evidence_contract" where
  "mission_contract m =
     \<lparr> ev_draftedInDb = True, ev_checkpoints = ms_checkpoints m, ev_successCriteria = ms_successCriteria m,
       ev_successCriterionIds = ms_successCriterionIds m, ev_completedSuccessCriteria = ms_completedSuccessCriteria m,
       ev_gates = ms_declaredGates m, ev_review = ms_review m \<rparr>"

text \<open>\<open>rootFor(id) ?? checkoutRoot\<close>; an empty root is no root.\<close>

definition check_checkpoints ::
  "(jsnum \<Rightarrow> string) \<Rightarrow> database \<Rightarrow> references \<Rightarrow> command_request \<Rightarrow> string option \<Rightarrow>
    (string \<times> nat \<times> evidence_verdict) outcome walk" where
  "check_checkpoints nt seen references request checkoutRoot =
     (case loadForCommand nt seen request of
        Inl refusal \<Rightarrow> Some (Inr refusal)
      | Inr (m, version) \<Rightarrow>
          (let rootDir = (case root_for references (cq_missionId request) of Some r \<Rightarrow> Some r | None \<Rightarrow> checkoutRoot) in
           case references of
             None \<Rightarrow> Some (Inr (failure Unavailable_error))
           | Some (fs, _) \<Rightarrow>
               if \<not> has_text rootDir \<or> ms_brief m = None then Some (Inr (failure Unavailable_error))
               else map_option (map_sum id (\<lambda>verdict. Success (ms_id m, version, verdict)))
                 (evaluateMissionEvidence (mission_contract m) fs (the rootDir))))"

section \<open>Calls that change checkpoints\<close>

datatype checkpoint_call =
    Cp_record references string record_request
  | Cp_open open_request
  | Cp_resume string string
  | Cp_correct references string correction_request
  | Cp_verify string "verification_proof option"
  | Cp_report string contract_blocker
  | Cp_plan string "string option"
  | Cp_unplan string

definition saved :: "'a decision walk \<Rightarrow> mission option" where
  "saved decided = (case decided of Some (Inr (Inr (m', _))) \<Rightarrow> Some m' | _ \<Rightarrow> None)"

lemma saved_Some: "saved decided = Some m' \<longleftrightarrow> (\<exists>answer. decided = Some (Inr (Inr (m', answer))))"
  by (auto simp: saved_def split: option.splits sum.splits)

definition recorded_change :: "references \<Rightarrow> string \<Rightarrow> record_request \<Rightarrow> mission \<Rightarrow> nat \<Rightarrow> mission option" where
  "recorded_change references now rq m v =
     (if (validateRecordRequest rq :: record_result outcome option) = None \<and> cq_missionId (rq_request rq) = ms_id m
      then saved (decide_record references now rq m v) else None)"

text \<open>The mission a call saves when it was made on \<open>m\<close>; \<open>None\<close> where it saves nothing.\<close>

fun change_of :: "checkpoint_call \<Rightarrow> mission \<Rightarrow> nat \<Rightarrow> mission option" where
  "change_of (Cp_record references now rq) m v = recorded_change references now rq m v"
| "change_of (Cp_open rq) m v = (case decide_open rq m v of Inr (Some (m', _)) \<Rightarrow> Some m' | _ \<Rightarrow> None)"
| "change_of (Cp_resume actor occurredAt) m v = Some (snd (resume_mission actor occurredAt m))"
| "change_of (Cp_correct references occurredAt rq) m v = saved (decide_correction references occurredAt rq m v)"
| "change_of (Cp_verify name proof') m v = (case decide_verify name proof' m v of Inr m' \<Rightarrow> Some m' | _ \<Rightarrow> None)"
| "change_of (Cp_report name blocker) m v = saved (Some (Inr (decide_report name blocker m v)))"
| "change_of (Cp_plan name description) m v = saved (Some (Inr (decide_plan (\<lambda>checkpoints ident.
     case planCheckpoint checkpoints ident name (default_to [] description) of Inl _ \<Rightarrow> None | Inr planned \<Rightarrow> Some planned) m v)))"
| "change_of (Cp_unplan name) m v = saved (Some (Inr (decide_plan (\<lambda>checkpoints _. dropped_plan name checkpoints) m v)))"

text \<open>The checkpoints of a mission: each is its own, is named \<open>CP-N\<close>, and no name is used twice.\<close>

definition checkpoints_wf :: "mission \<Rightarrow> bool" where
  "checkpoints_wf m \<longleftrightarrow> distinct (map cp_name (ms_checkpoints m)) \<and>
     list_all (\<lambda>cp. isCheckpointName (cp_name cp) \<and> cp_missionId cp = ms_id m) (ms_checkpoints m)"

text \<open>The interface of these calls: only checkpoints change, they stay well formed, and none is lost.\<close>

locale checkpoint_change =
  fixes change :: "mission \<Rightarrow> nat \<Rightarrow> mission option"
  assumes keeps_rest: "change m v = Some m' \<Longrightarrow> m' = m\<lparr> ms_checkpoints := ms_checkpoints m' \<rparr>"
    and keeps_shape: "checkpoints_wf m \<Longrightarrow> change m v = Some m' \<Longrightarrow> checkpoints_wf m'"
    and keeps_names: "change m v = Some m' \<Longrightarrow> cp_name ` set (ms_checkpoints m) \<subseteq> cp_name ` set (ms_checkpoints m')"
begin

lemma keeps_contract:
  assumes "change m v = Some m'"
  shows "ms_id m' = ms_id m \<and> ms_status m' = ms_status m \<and> ms_review m' = ms_review m \<and>
    ms_successCriteria m' = ms_successCriteria m \<and> ms_declaredGates m' = ms_declaredGates m"
proof -
  obtain cps where "m' = m\<lparr> ms_checkpoints := cps \<rparr>" using keeps_rest[OF assms] by blast
  then show ?thesis by simp
qed

lemma all_kept: "checkpoints_wf m \<Longrightarrow> change m v = Some m' \<Longrightarrow>
    checkpoints_wf m' \<and> m' = m\<lparr> ms_checkpoints := ms_checkpoints m' \<rparr> \<and>
    cp_name ` set (ms_checkpoints m) \<subseteq> cp_name ` set (ms_checkpoints m')"
  using keeps_rest keeps_shape keeps_names by blast

end

text \<open>A change of the checkpoints in place.\<close>

lemma mapped_checkpoints_wf:
  assumes "checkpoints_wf m" and "\<And>cp. cp_name (f cp) = cp_name cp \<and> cp_missionId (f cp) = cp_missionId cp"
  shows "checkpoints_wf (m\<lparr> ms_checkpoints := map f (ms_checkpoints m) \<rparr>)"
proof -
  have "map cp_name (map f (ms_checkpoints m)) = map cp_name (ms_checkpoints m)" using assms(2) by simp
  then show ?thesis using assms unfolding checkpoints_wf_def by (simp add: list_all_iff del: map_map)
qed

lemma mapped_names:
  assumes "ms_checkpoints m' = map f cps" and "\<And>cp. cp_name (f cp) = cp_name cp"
  shows "cp_name ` set cps \<subseteq> cp_name ` set (ms_checkpoints m')"
  unfolding assms(1) by (simp add: image_image assms(2))

text \<open>One checkpoint is added, or takes the place of the one of its name.\<close>

lemma put_checkpoints_wf:
  assumes "checkpoints_wf m" and "isCheckpointName (cp_name cp)" and "cp_missionId cp = ms_id m"
    and "mset cps = mset (filter (\<lambda>c. cp_name c \<noteq> cp_name cp) (ms_checkpoints m) @ [cp])"
  shows "checkpoints_wf (m\<lparr> ms_checkpoints := cps \<rparr>)"
    and "cp_name ` set (ms_checkpoints m) \<subseteq> cp_name ` set cps"
proof -
  let ?put = "filter (\<lambda>c. cp_name c \<noteq> cp_name cp) (ms_checkpoints m) @ [cp]"
  have "mset (map cp_name cps) = mset (map cp_name ?put)" using assms(4) by simp
  moreover have "distinct (map cp_name ?put)"
    using assms(1) by (intro distinct_put_checkpoint) (simp_all add: checkpoints_wf_def)
  ultimately have "distinct (map cp_name cps)" using mset_eq_imp_distinct_iff by blast
  moreover have s: "set cps = set ?put" using assms(4) by (metis set_mset_mset)
  ultimately show "checkpoints_wf (m\<lparr> ms_checkpoints := cps \<rparr>)"
    using assms(1-3) unfolding checkpoints_wf_def by (auto simp: list_all_iff)
  show "cp_name ` set (ms_checkpoints m) \<subseteq> cp_name ` set cps" unfolding s by auto
qed

lemma put_checkpoint_mset:
  "mset (put_checkpoint cps name cp) = mset (filter (\<lambda>c. cp_name c \<noteq> name) cps @ [cp])"
  by (simp add: put_checkpoint_def byNumber_def)

lemma named_put:
  assumes "distinct (map cp_name cps)" and "cp_name cp = name"
  shows "checkpoint_named (put_checkpoint cps name cp) name = Some cp"
proof -
  have "distinct (map cp_name (filter (\<lambda>c. cp_name c \<noteq> name) cps @ [cp]))"
    using assms by (rule distinct_put_checkpoint)
  moreover have "checkpoint_named (filter (\<lambda>c. cp_name c \<noteq> name) cps) name = None"
    by (simp add: checkpoint_named_def find_first_None)
  ultimately show ?thesis using assms(2)
    by (simp add: put_checkpoint_def named_byNumber named_append) (simp add: checkpoint_named_def)
qed

lemma named_in: "checkpoint_named cps name = Some cp \<Longrightarrow> cp \<in> set cps \<and> cp_name cp = name"
  by (auto simp: checkpoint_named_def find_Some_iff)

lemma named_unique:
  "distinct (map cp_name cps) \<Longrightarrow> cp \<in> set cps \<Longrightarrow> checkpoint_named cps (cp_name cp) = Some cp"
proof (induction cps)
  case (Cons c cps)
  then show ?case by (auto simp: checkpoint_named_def)
qed simp

section \<open>Recorded evidence\<close>

lemma validated:
  "(validateRecordRequest rq :: 'a outcome option) = None \<longleftrightarrow>
    (missingCapability (rq_request rq) ''checkpoint:record'' :: 'a outcome option) = None \<and>
    cp_missionId (rq_checkpoint rq) = cq_missionId (rq_request rq) \<and>
    isReviewPreparationReadyCheckpoint (rq_checkpoint rq) \<and>
    (\<forall>row\<in>set (cp_goalCheck (rq_checkpoint rq)). \<not> blank (gr_criterion row) \<and> \<not> blank (gr_evidence row))"
  by (auto simp: validateRecordRequest_def goal_rows_Inr split: option.splits sum.splits)
     (metis goal_rows_Inr old.sum.exhaust sum.simps(4))

lemma stamped_fields [simp]:
  "cp_name (stampCheckpointRecord cp m r gate) = cp_name cp"
  "cp_missionId (stampCheckpointRecord cp m r gate) = cp_missionId cp"
  "cp_repair (stampCheckpointRecord cp m r gate) = cp_repair cp"
  "cp_firstLine (stampCheckpointRecord cp m r gate) = cp_firstLine cp"
  by (simp_all add: stampCheckpointRecord_def split: option.splits)

lemma repaired_recorded:
  "repaired_record rq m version now stamped repair = Inr r \<Longrightarrow> rx_evidenceRecorded r \<and> \<not> rx_verified r"
  by (auto simp: repaired_record_def Let_def split: if_splits)

lemma kept_fields [simp]:
  "cp_name (kept_record rq m r) = cp_name (rq_checkpoint rq)"
  "cp_missionId (kept_record rq m r) = cp_missionId (rq_checkpoint rq)"
  "cp_repair (kept_record rq m r) = cp_repair (rq_checkpoint rq)"
  by (simp_all add: kept_record_def stamped_record_def Let_def split: option.splits)

lemma prepared:
  assumes "prepareCheckpointValues rq now m version = Inr (checkpoints, merged)"
  shows "recordCheckpoint (ms_checkpoints m) merged = Inr checkpoints"
    and "cp_name merged = cp_name (rq_checkpoint rq)" and "cp_missionId merged = cp_missionId (rq_checkpoint rq)"
    and "map_option rg_missionRevision (cp_recording merged) = Some (int version + 1)"
    and "map_option rg_recordedAt (cp_recording merged) = Some now"
    and "case Option.bind (prior_checkpoint rq m) cp_repair of
        None \<Rightarrow> cp_repair merged = cp_repair (rq_checkpoint rq)
      | Some repair \<Rightarrow> (\<exists>r. cp_repair merged = Some r \<and> rx_evidenceRecorded r \<and> \<not> rx_verified r)"
  using assms
  by (auto simp: prepareCheckpointValues_def Let_def try_bind_Inr map_sum_Inr dest!: repaired_recorded split: option.splits)

lemma recordable:
  assumes "assertRecordableEvidence references rq m checkpoints merged = Some (Inr (None :: 'a outcome option))"
  shows "references = Some (fs, rootFor) \<Longrightarrow> rootFor (cq_missionId (rq_request rq)) = Some rootDir \<Longrightarrow> rootDir \<noteq> [] \<Longrightarrow>
      findUnverifiableRecordedRow fs (cp_goalCheck merged) rootDir = Some (Inr None)"
    and "map_option cp_name (at_last checkpoints) = Some (cp_name (rq_checkpoint rq)) \<Longrightarrow> \<not> owes_evidence m checkpoints"
  using assms
  by (auto simp: assertRecordableEvidence_def root_for_def Let_def map_sum_Inr simp del: split_paired_All not_None_eq
      split: if_splits option.splits)

lemma decided_record:
  assumes "decide_record references now rq m version = Some (Inr (Inr (m', answer)))"
  obtains checkpoints merged where "prepareCheckpointValues rq now m version = (Inr (checkpoints, merged) :: record_result outcome + _)"
    and "assertRecordableEvidence references rq m checkpoints merged = Some (Inr (None :: record_result outcome option))"
    and "m' = m\<lparr> ms_checkpoints := checkpoints \<rparr>"
    and "\<And>v. answer v = (m', v, rq_checkpoint rq, list_ex (\<lambda>cp. cp_name cp = cp_name (rq_checkpoint rq)) (ms_checkpoints m))"
  using assms
  by (auto simp: decide_record_def Let_def map_sum_Inr split: sum.splits option.splits prod.splits intro: that)

lemma recorded_changes:
  assumes "recorded_change references now rq m v = Some m'"
  obtains checkpoints merged stored where
    "prepareCheckpointValues rq now m v = (Inr (checkpoints, merged) :: record_result outcome + _)"
    "m' = m\<lparr> ms_checkpoints := checkpoints \<rparr>" "checkpoints = put_checkpoint (ms_checkpoints m) (cp_name merged) stored"
    "cp_name stored = cp_name merged" "isCheckpointName (cp_name stored)" "cp_missionId stored = ms_id m"
    "cp_repair stored = cp_repair merged" "cp_goalCheck stored = cp_goalCheck merged" "cp_recording stored = cp_recording merged"
proof -
  from assms have valid: "(validateRecordRequest rq :: record_result outcome option) = None"
    "cq_missionId (rq_request rq) = ms_id m"
    and "\<exists>answer. decide_record references now rq m v = Some (Inr (Inr (m', answer)))"
    by (auto simp: recorded_change_def saved_Some split: if_splits)
  then obtain answer where d: "decide_record references now rq m v = Some (Inr (Inr (m', answer)))" by blast
  obtain checkpoints merged where p: "prepareCheckpointValues rq now m v = (Inr (checkpoints, merged) :: record_result outcome + _)"
    "m' = m\<lparr> ms_checkpoints := checkpoints \<rparr>" using decided_record[OF d] by metis
  obtain stored where "isReviewPreparationReadyCheckpoint merged"
    "checkpoints = put_checkpoint (ms_checkpoints m) (cp_name merged) stored" "cp_name stored = cp_name merged"
    "stored = merged \<or> (\<exists>l. stored = merged\<lparr> cp_firstLine := l \<rparr>)"
    using record_Inr[OF prepared(1)[OF p(1)]] by metis
  then show thesis using that[OF p, of stored] prepared(3)[OF p(1)] valid
    by (auto simp: isReviewPreparationReadyCheckpoint_def validated)
qed

interpretation record_change: checkpoint_change "recorded_change references now rq"
proof
  fix m v m'
  assume "recorded_change references now rq m v = Some m'"
  then obtain checkpoints and merged :: checkpoint and stored where r: "m' = m\<lparr> ms_checkpoints := checkpoints \<rparr>"
    "checkpoints = put_checkpoint (ms_checkpoints m) (cp_name merged) stored"
    "cp_name stored = cp_name merged" "isCheckpointName (cp_name stored)" "cp_missionId stored = ms_id m"
    by (rule recorded_changes) blast
  then show "m' = m\<lparr> ms_checkpoints := ms_checkpoints m' \<rparr>" by simp
  have put: "mset checkpoints = mset (filter (\<lambda>c. cp_name c \<noteq> cp_name stored) (ms_checkpoints m) @ [stored])"
    using r(2,3) put_checkpoint_mset by simp
  show "checkpoints_wf m'" if "checkpoints_wf m" using put_checkpoints_wf(1)[OF that r(4,5) put] r(1) by simp
  show "cp_name ` set (ms_checkpoints m) \<subseteq> cp_name ` set (ms_checkpoints m')"
    unfolding r(1,2) put_checkpoint_def by (auto simp: r(3))
qed

lemma next_name: "isCheckpointName (next_checkpoint_name cps)"
  using decimal_digits[of "fold max (map (\<lambda>cp. checkpoint_number (cp_name cp)) cps) 0 + 1"]
  by (simp add: next_checkpoint_name_def isCheckpointName_def strip_prefix_def all_digits_def)

lemma fold_max_start: "(start::nat) \<le> fold max ns start"
  by (induction ns arbitrary: start) (simp, metis fold_simps(2) max.cobounded2 order_trans)

lemma fold_max: "(n::nat) \<in> set ns \<Longrightarrow> n \<le> fold max ns start"
proof (induction ns arbitrary: start)
  case (Cons k ns)
  show ?case
  proof (cases "n = k")
    case True
    have "k \<le> max k start" by simp
    also have "\<dots> \<le> fold max ns (max k start)" by (rule fold_max_start)
    finally show ?thesis using True by simp
  qed (use Cons in simp)
qed simp

lemma next_name_fresh: "next_checkpoint_name cps \<notin> cp_name ` set cps"
proof
  let ?top = "fold max (map (\<lambda>cp. checkpoint_number (cp_name cp)) cps) 0"
  assume "next_checkpoint_name cps \<in> cp_name ` set cps"
  then obtain cp where cp: "cp \<in> set cps" "cp_name cp = ''CP-'' @ decimal (?top + 1)"
    by (auto simp: next_checkpoint_name_def)
  then have "checkpoint_number (cp_name cp) = ?top + 1" using decimal_digits[of "?top + 1"]
    by (simp add: checkpoint_number_def)
  moreover have "checkpoint_number (cp_name cp) \<le> ?top" by (rule fold_max) (use cp(1) in simp)
  ultimately show False by simp
qed

text \<open>What opening writes.\<close>

lemma opened:
  assumes "change_of (Cp_open rq) m v = Some m'"
  shows "m' = m\<lparr> ms_checkpoints := filter (\<lambda>cp. cp_name cp \<noteq> cp_name (opened_checkpoint rq m v (incident_checkpoint rq m)))
      (ms_checkpoints m) @ [opened_checkpoint rq m v (incident_checkpoint rq m)] \<rparr>"
  using assms by (auto simp: decide_open_def Let_def split: if_splits)

lemma opened_fields [simp]:
  "cp_missionId (opened_checkpoint rq m v prior) = ms_id m"
  "cp_name (opened_checkpoint rq m v prior) =
     (case prior of Some cp \<Rightarrow> cp_name cp | None \<Rightarrow> next_checkpoint_name (ms_checkpoints m))"
  "map_option rx_verified (cp_repair (opened_checkpoint rq m v prior)) = Some False"
  by (simp_all add: opened_checkpoint_def reopened_repair_def)

lemma incident_in: "incident_checkpoint rq m = Some cp \<Longrightarrow> cp \<in> set (ms_checkpoints m)"
  unfolding incident_checkpoint_def by (metis find_Some_iff nth_mem)

interpretation open_change: checkpoint_change "change_of (Cp_open rq)"
proof
  fix m v m'
  define cp where "cp = opened_checkpoint rq m v (incident_checkpoint rq m)"
  assume "change_of (Cp_open rq) m v = Some m'"
  then have o: "m' = m\<lparr> ms_checkpoints := filter (\<lambda>c. cp_name c \<noteq> cp_name cp) (ms_checkpoints m) @ [cp] \<rparr>"
    unfolding cp_def by (rule opened)
  show "m' = m\<lparr> ms_checkpoints := ms_checkpoints m' \<rparr>" using o by simp
  show "checkpoints_wf m'" if "checkpoints_wf m"
  proof -
    have "isCheckpointName (cp_name cp)"
      using that next_name by (cases "incident_checkpoint rq m")
        (auto simp: cp_def checkpoints_wf_def list_all_iff dest: incident_in)
    moreover have "cp_missionId cp = ms_id m" by (simp add: cp_def)
    ultimately show ?thesis using put_checkpoints_wf(1)[OF that _ _ refl] o by simp
  qed
  show "cp_name ` set (ms_checkpoints m) \<subseteq> cp_name ` set (ms_checkpoints m')" unfolding o by auto
qed

lemma resumed_fields [simp]:
  "cp_name (snd (resume_checkpoint actor occurredAt gates criteria cp)) = cp_name cp"
  "cp_missionId (snd (resume_checkpoint actor occurredAt gates criteria cp)) = cp_missionId cp"
  "cp_goalCheck (snd (resume_checkpoint actor occurredAt gates criteria cp)) = cp_goalCheck cp"
  by (simp_all add: resume_checkpoint_def split: option.splits)

interpretation resume_change: checkpoint_change "change_of (Cp_resume actor occurredAt)"
proof
  fix m v m'
  assume "change_of (Cp_resume actor occurredAt) m v = Some m'"
  then have m': "m' = m\<lparr> ms_checkpoints := map (\<lambda>cp. snd (resume_checkpoint actor occurredAt (ms_declaredGates m)
      (ms_successCriteria m) cp)) (ms_checkpoints m) \<rparr>"
    by (auto simp: resume_mission_def Let_def comp_def)
  then show "m' = m\<lparr> ms_checkpoints := ms_checkpoints m' \<rparr>" by simp
  show "checkpoints_wf m'" if "checkpoints_wf m" unfolding m' using that by (rule mapped_checkpoints_wf) simp
  show "cp_name ` set (ms_checkpoints m) \<subseteq> cp_name ` set (ms_checkpoints m')" unfolding m' by (simp add: image_image)
qed

text \<open>A checkpoint replaced where it stands.\<close>

lemma replaced_names:
  assumes "checkpoint_named cps name = Some cp" and "cp_name new = name"
  shows "map cp_name (replace_first name new cps) = map cp_name cps"
  using assms by (induction cps) (auto simp: replace_first_def checkpoint_named_def)

lemma replaced_set:
  "checkpoint_named cps name = Some cp \<Longrightarrow> set (replace_first name new cps) \<subseteq> insert new (set cps)"
  by (induction cps) (auto simp: replace_first_def checkpoint_named_def)

lemma corrected:
  assumes "saved (decide_correction references occurredAt rq m v) = Some m'"
  obtains cp repair where "checkpoint_named (ms_checkpoints m) (kq_name rq) = Some cp" "cp_repair cp = Some repair"
    "legacyCriteriaReconciliationFailure repair (ms_declaredGates m) (ms_successCriteria m) = None"
    "m' = m\<lparr> ms_checkpoints := replace_first (kq_name rq) (cp\<lparr> cp_repair :=
        Some (corrected_repair rq occurredAt v (ms_successCriteria m) repair) \<rparr>) (ms_checkpoints m) \<rparr>"
  using assms
  by (auto simp: saved_Some decide_correction_def map_sum_Inr split: option.splits if_splits prod.splits intro: that)

interpretation correct_change: checkpoint_change "change_of (Cp_correct references occurredAt rq)"
proof
  fix m v m'
  assume "change_of (Cp_correct references occurredAt rq) m v = Some m'"
  then have "saved (decide_correction references occurredAt rq m v) = Some m'" by simp
  then obtain cp repair where c: "checkpoint_named (ms_checkpoints m) (kq_name rq) = Some cp"
    and m': "m' = m\<lparr> ms_checkpoints := replace_first (kq_name rq) (cp\<lparr> cp_repair :=
        Some (corrected_repair rq occurredAt v (ms_successCriteria m) repair) \<rparr>) (ms_checkpoints m) \<rparr>"
    by (rule corrected)
  let ?new = "cp\<lparr> cp_repair := Some (corrected_repair rq occurredAt v (ms_successCriteria m) repair) \<rparr>"
  have names: "map cp_name (replace_first (kq_name rq) ?new (ms_checkpoints m)) = map cp_name (ms_checkpoints m)"
    by (rule replaced_names[OF c]) (use named_in[OF c] in simp)
  show "m' = m\<lparr> ms_checkpoints := ms_checkpoints m' \<rparr>" using m' by simp
  show "checkpoints_wf m'" if "checkpoints_wf m"
    using that names named_in[OF c] unfolding m' checkpoints_wf_def
    by (auto simp: list_all_iff dest!: subsetD[OF replaced_set[OF c]])
  show "cp_name ` set (ms_checkpoints m) \<subseteq> cp_name ` set (ms_checkpoints m')"
    unfolding m' using arg_cong[OF names, of set] by simp
qed

lemma verified_change:
  assumes "decide_verify name proof' m v = Inr m'"
  obtains cp repair where "checkpoint_named (ms_checkpoints m) name = Some cp" "cp_repair cp = Some repair"
    "rx_blocker repair = None" "rx_evidenceRecorded repair" "freshGoalCheckRows (cp_goalCheck cp) \<noteq> []"
    "rx_authorizedGates repair = ms_declaredGates m" "rx_authorizedCriteria repair = ms_successCriteria m"
    "\<And>p. proof' = Some p \<Longrightarrow> coverage_proven m cp repair p"
    "m' = m\<lparr> ms_checkpoints := map (\<lambda>c. if cp_name c = name then c\<lparr> cp_repair := Some (repair\<lparr> rx_verified := True,
       rx_exactSuccessCoverage := (case proof' of None \<Rightarrow> rx_exactSuccessCoverage repair | Some p \<Rightarrow> Some (exact_success p v)) \<rparr>) \<rparr>
       else c) (ms_checkpoints m) \<rparr>"
  using assms by (auto simp: decide_verify_def Let_def split: option.splits if_splits intro: that)

interpretation verify_change: checkpoint_change "change_of (Cp_verify name proof')"
proof
  fix m v m'
  assume "change_of (Cp_verify name proof') m v = Some m'"
  then have "decide_verify name proof' m v = Inr m'" by (auto split: sum.splits)
  then obtain r where m': "m' = m\<lparr> ms_checkpoints := map (\<lambda>c. if cp_name c = name then c\<lparr> cp_repair := r \<rparr> else c) (ms_checkpoints m) \<rparr>"
    by (rule verified_change)
  then show "m' = m\<lparr> ms_checkpoints := ms_checkpoints m' \<rparr>" by simp
  show "checkpoints_wf m'" if "checkpoints_wf m" unfolding m' using that by (rule mapped_checkpoints_wf) simp
  show "cp_name ` set (ms_checkpoints m) \<subseteq> cp_name ` set (ms_checkpoints m')"
    by (rule mapped_names[where f = "\<lambda>c. if cp_name c = name then c\<lparr>cp_repair := r\<rparr> else c"]) (simp_all add: m')
qed

lemma reported:
  assumes "decide_report name blocker m v = Inr (m', answer)"
  obtains repair where "m' = m\<lparr> ms_checkpoints := map (\<lambda>c. if cp_name c = name
     then c\<lparr> cp_repair := Some (repair\<lparr> rx_blocker := Some blocker, rx_verified := False \<rparr>) \<rparr> else c) (ms_checkpoints m) \<rparr>"
  using assms by (auto simp: decide_report_def split: sum.splits option.splits if_splits intro: that)

interpretation report_change: checkpoint_change "change_of (Cp_report name blocker)"
proof
  fix m v m'
  assume "change_of (Cp_report name blocker) m v = Some m'"
  then obtain answer where "decide_report name blocker m v = Inr (m', answer)" by (auto simp: saved_Some)
  then obtain r where m': "m' = m\<lparr> ms_checkpoints := map (\<lambda>c. if cp_name c = name then c\<lparr> cp_repair := r \<rparr> else c) (ms_checkpoints m) \<rparr>"
    by (rule reported)
  then show "m' = m\<lparr> ms_checkpoints := ms_checkpoints m' \<rparr>" by simp
  show "checkpoints_wf m'" if "checkpoints_wf m" unfolding m' using that by (rule mapped_checkpoints_wf) simp
  show "cp_name ` set (ms_checkpoints m) \<subseteq> cp_name ` set (ms_checkpoints m')"
    by (rule mapped_names[where f = "\<lambda>c. if cp_name c = name then c\<lparr>cp_repair := r\<rparr> else c"]) (simp_all add: m')
qed

lemma planned:
  assumes "change_of (Cp_plan name description) m v = Some m'"
  obtains cp where "m' = m\<lparr> ms_checkpoints := byNumber (ms_checkpoints m @ [cp]) \<rparr>" "cp_name cp = name"
    "isCheckpointName name" "name \<notin> cp_name ` set (ms_checkpoints m)" "cp_missionId cp = ms_id m" "cp_repair cp = None"
  using assms by (auto simp: saved_Some decide_plan_def plan_Inr split: option.splits sum.splits intro!: that)

interpretation plan_change: checkpoint_change "change_of (Cp_plan name description)"
proof
  fix m v m'
  assume "change_of (Cp_plan name description) m v = Some m'"
  then obtain cp where p: "m' = m\<lparr> ms_checkpoints := byNumber (ms_checkpoints m @ [cp]) \<rparr>" "cp_name cp = name"
    "isCheckpointName name" "name \<notin> cp_name ` set (ms_checkpoints m)" "cp_missionId cp = ms_id m" by (rule planned)
  then show "m' = m\<lparr> ms_checkpoints := ms_checkpoints m' \<rparr>" by simp
  have put: "mset (byNumber (ms_checkpoints m @ [cp])) = mset (filter (\<lambda>c. cp_name c \<noteq> cp_name cp) (ms_checkpoints m) @ [cp])"
    unfolding plan_is_put[OF p(4)] using p(2) put_checkpoint_mset by simp
  show "checkpoints_wf m'" if "checkpoints_wf m" using put_checkpoints_wf(1)[OF that _ p(5) put] p(1-3) by simp
  show "cp_name ` set (ms_checkpoints m) \<subseteq> cp_name ` set (ms_checkpoints m')" unfolding p(1) by auto
qed

lemma unplanned:
  assumes "change_of (Cp_unplan name) m v = Some m'"
  obtains target where "checkpoint_named (ms_checkpoints m) name = Some target" "cp_repair target = None" "cp_goalCheck target = []"
    "m' = m\<lparr> ms_checkpoints := takeWhile (\<lambda>cp. cp_name cp \<noteq> name) (ms_checkpoints m) @
       tl (dropWhile (\<lambda>cp. cp_name cp \<noteq> name) (ms_checkpoints m)) \<rparr>"
  using assms
  by (auto simp: saved_Some decide_plan_def dropped_plan_def checkpoint_named_def split: option.splits if_splits intro!: that)

section \<open>What the changes keep\<close>

lemma unplanned_split:
  assumes "checkpoint_named cps name = Some target"
  shows "cps = takeWhile (\<lambda>cp. cp_name cp \<noteq> name) cps @ target # tl (dropWhile (\<lambda>cp. cp_name cp \<noteq> name) cps)"
  using assms by (induction cps) (auto simp: checkpoint_named_def)

lemma unplanned_kept:
  assumes "change_of (Cp_unplan name) m v = Some m'" and "checkpoints_wf m"
  shows "checkpoints_wf m' \<and> m' = m\<lparr> ms_checkpoints := ms_checkpoints m' \<rparr> \<and>
    (\<forall>cp\<in>set (ms_checkpoints m'). cp \<in> set (ms_checkpoints m)) \<and>
    (\<forall>cp\<in>set (ms_checkpoints m). cp \<in> set (ms_checkpoints m') \<or> cp_repair cp = None \<and> cp_goalCheck cp = [])"
proof -
  obtain target where t: "checkpoint_named (ms_checkpoints m) name = Some target" "cp_repair target = None" "cp_goalCheck target = []"
    "m' = m\<lparr> ms_checkpoints := takeWhile (\<lambda>cp. cp_name cp \<noteq> name) (ms_checkpoints m) @
       tl (dropWhile (\<lambda>cp. cp_name cp \<noteq> name) (ms_checkpoints m)) \<rparr>"
    using assms(1) by (rule unplanned)
  define before after where "before = takeWhile (\<lambda>cp. cp_name cp \<noteq> name) (ms_checkpoints m)"
    and "after = tl (dropWhile (\<lambda>cp. cp_name cp \<noteq> name) (ms_checkpoints m))"
  have s: "ms_checkpoints m = before @ target # after"
    unfolding before_def after_def by (rule unplanned_split[OF t(1)])
  have m': "m' = m\<lparr> ms_checkpoints := before @ after \<rparr>" using t(4) by (simp add: before_def after_def)
  show ?thesis using assms(2) t(2,3) unfolding m' checkpoints_wf_def by (auto simp: s)
qed

section \<open>What settles a repair\<close>

definition was_settled :: "mission \<Rightarrow> checkpoint \<Rightarrow> bool" where
  "was_settled m cp \<longleftrightarrow> (\<exists>old\<in>set (ms_checkpoints m). cp_name old = cp_name cp \<and> cp_goalCheck old = cp_goalCheck cp \<and>
     map_option rx_verified (cp_repair old) = Some True)"

lemma old_settled: "cp \<in> set (ms_checkpoints m) \<Longrightarrow> map_option rx_verified (cp_repair cp) = Some True \<Longrightarrow> was_settled m cp"
  by (auto simp: was_settled_def)

text \<open>A record under a name that has no repair keeps the repair its caller sent.\<close>

definition sent_with_repair :: "mission \<Rightarrow> record_request \<Rightarrow> checkpoint \<Rightarrow> bool" where
  "sent_with_repair m rq cp \<longleftrightarrow> cp_name cp = cp_name (rq_checkpoint rq) \<and> cp_repair cp = cp_repair (rq_checkpoint rq) \<and>
     Option.bind (prior_checkpoint rq m) cp_repair = None"

lemma record_settles:
  assumes "change_of (Cp_record references now rq) m v = Some m'"
    and "cp \<in> set (ms_checkpoints m')" and "map_option rx_verified (cp_repair cp) = Some True"
  shows "was_settled m cp \<or> sent_with_repair m rq cp"
proof -
  have "recorded_change references now rq m v = Some m'" using assms(1) by simp
  then obtain checkpoints merged stored where
    p: "prepareCheckpointValues rq now m v = (Inr (checkpoints, merged) :: record_result outcome + _)"
    and c: "m' = m\<lparr> ms_checkpoints := checkpoints \<rparr>" "checkpoints = put_checkpoint (ms_checkpoints m) (cp_name merged) stored"
      "cp_name stored = cp_name merged" "cp_repair stored = cp_repair merged" by (rule recorded_changes) blast
  have "set checkpoints \<subseteq> insert stored (set (ms_checkpoints m))"
    unfolding c(2) put_checkpoint_def by auto
  then have "cp = stored \<or> cp \<in> set (ms_checkpoints m)" using assms(2) c(1) by auto
  moreover have "sent_with_repair m rq cp" if "cp = stored"
    using prepared(2,6)[OF p] assms(3) c(3,4) that by (auto simp: sent_with_repair_def split: option.splits)
  ultimately show ?thesis using assms(3) old_settled by blast
qed

lemma open_settles:
  assumes "change_of (Cp_open rq) m v = Some m'"
    and "cp \<in> set (ms_checkpoints m')" and "map_option rx_verified (cp_repair cp) = Some True"
  shows "was_settled m cp"
proof -
  have "cp \<noteq> opened_checkpoint rq m v (incident_checkpoint rq m)"
    using assms(3) by (metis opened_fields(3) option.inject)
  then have "cp \<in> set (ms_checkpoints m)" using assms(2) unfolding opened[OF assms(1)] by auto
  then show ?thesis using assms(3) by (rule old_settled)
qed

lemma resume_settles:
  assumes "change_of (Cp_resume actor occurredAt) m v = Some m'"
    and "cp \<in> set (ms_checkpoints m')" and "map_option rx_verified (cp_repair cp) = Some True"
  shows "was_settled m cp"
proof -
  have "ms_checkpoints m' = map (\<lambda>cp. snd (resume_checkpoint actor occurredAt (ms_declaredGates m) (ms_successCriteria m) cp))
      (ms_checkpoints m)"
    using assms(1) by (auto simp: resume_mission_def Let_def)
  then obtain old where "old \<in> set (ms_checkpoints m)"
    "cp = snd (resume_checkpoint actor occurredAt (ms_declaredGates m) (ms_successCriteria m) old)" using assms(2) by auto
  moreover have "map_option rx_verified (cp_repair (snd (resume_checkpoint actor occurredAt gates criteria old))) =
      map_option rx_verified (cp_repair old)" for gates criteria
    by (simp add: resume_checkpoint_def resume_repair_def Let_def split: option.splits)
  ultimately show ?thesis using assms(3) by (auto simp: was_settled_def)
qed

lemma correct_settles:
  assumes "change_of (Cp_correct references occurredAt rq) m v = Some m'"
    and "cp \<in> set (ms_checkpoints m')" and "map_option rx_verified (cp_repair cp) = Some True"
  shows "was_settled m cp"
proof -
  have "saved (decide_correction references occurredAt rq m v) = Some m'" using assms(1) by simp
  then obtain old owed where c: "checkpoint_named (ms_checkpoints m) (kq_name rq) = Some old" "cp_repair old = Some owed"
    "m' = m\<lparr> ms_checkpoints := replace_first (kq_name rq) (old\<lparr> cp_repair :=
        Some (corrected_repair rq occurredAt v (ms_successCriteria m) owed) \<rparr>) (ms_checkpoints m) \<rparr>"
    by (rule corrected) blast
  let ?new = "old\<lparr> cp_repair := Some (corrected_repair rq occurredAt v (ms_successCriteria m) owed) \<rparr>"
  have "rx_verified (corrected_repair rq occurredAt v criteria owed) = rx_verified owed" for criteria
    by (simp add: corrected_repair_def correctRepairBlocker_def split: option.splits)
  then have "was_settled m ?new" if "map_option rx_verified (cp_repair ?new) = Some True"
    using that named_in[OF c(1)] c(2) by (auto simp: was_settled_def)
  moreover have "cp = ?new \<or> cp \<in> set (ms_checkpoints m)"
    using assms(2) subsetD[OF replaced_set[OF c(1)]] unfolding c(3) by auto
  ultimately show ?thesis using assms(3) old_settled by blast
qed

lemma report_settles:
  assumes "change_of (Cp_report name blocker) m v = Some m'"
    and "cp \<in> set (ms_checkpoints m')" and "map_option rx_verified (cp_repair cp) = Some True"
  shows "was_settled m cp"
proof -
  obtain answer where "decide_report name blocker m v = Inr (m', answer)" using assms(1) by (auto simp: saved_Some)
  then obtain r where m': "m' = m\<lparr> ms_checkpoints := map (\<lambda>c. if cp_name c = name
     then c\<lparr> cp_repair := Some (r\<lparr> rx_blocker := Some blocker, rx_verified := False \<rparr>) \<rparr> else c) (ms_checkpoints m) \<rparr>"
    by (rule reported)
  then have "cp \<in> set (ms_checkpoints m)" using assms(2,3) by (auto split: if_splits)
  then show ?thesis using assms(3) by (rule old_settled)
qed

lemma plan_settles:
  assumes "change_of (Cp_plan name description) m v = Some m'"
    and "cp \<in> set (ms_checkpoints m')" and "map_option rx_verified (cp_repair cp) = Some True"
  shows "was_settled m cp"
proof -
  obtain new where "m' = m\<lparr> ms_checkpoints := byNumber (ms_checkpoints m @ [new]) \<rparr>" "cp_repair new = None"
    using assms(1) by (rule planned) blast
  then have "cp \<in> set (ms_checkpoints m)" using assms(2,3) by auto
  then show ?thesis using assms(3) by (rule old_settled)
qed

lemma unplan_settles:
  assumes "change_of (Cp_unplan name) m v = Some m'" and "checkpoints_wf m"
    and "cp \<in> set (ms_checkpoints m')" and "map_option rx_verified (cp_repair cp) = Some True"
  shows "was_settled m cp"
  using unplanned_kept[OF assms(1,2)] assms(3,4) old_settled by blast

lemma verify_settles:
  assumes "decide_verify name proof' m v = Inr m'" and "checkpoints_wf m"
    and "cp \<in> set (ms_checkpoints m')" and "map_option rx_verified (cp_repair cp) = Some True"
  shows "was_settled m cp \<or> (\<exists>old owed. cp_name cp = name \<and> old \<in> set (ms_checkpoints m) \<and> cp_repair old = Some owed \<and>
      cp_name old = cp_name cp \<and> cp_goalCheck old = cp_goalCheck cp \<and> rx_blocker owed = None \<and> rx_evidenceRecorded owed \<and>
      freshGoalCheckRows (cp_goalCheck old) \<noteq> [] \<and> rx_authorizedGates owed = ms_declaredGates m \<and>
      rx_authorizedCriteria owed = ms_successCriteria m \<and> (\<forall>p. proof' = Some p \<longrightarrow> coverage_proven m old owed p))"
proof -
  from assms(1) obtain old owed r where n: "checkpoint_named (ms_checkpoints m) name = Some old" and o: "cp_repair old = Some owed"
    "rx_blocker owed = None" "rx_evidenceRecorded owed" "freshGoalCheckRows (cp_goalCheck old) \<noteq> []"
    "rx_authorizedGates owed = ms_declaredGates m" "rx_authorizedCriteria owed = ms_successCriteria m"
    "\<And>p. proof' = Some p \<Longrightarrow> coverage_proven m old owed p"
    and m': "m' = m\<lparr> ms_checkpoints := map (\<lambda>c. if cp_name c = name then c\<lparr> cp_repair := r \<rparr> else c) (ms_checkpoints m) \<rparr>"
    by (rule verified_change) blast
  obtain c where c: "c \<in> set (ms_checkpoints m)" "cp = (if cp_name c = name then c\<lparr> cp_repair := r \<rparr> else c)"
    using assms(3) unfolding m' by auto
  show ?thesis
  proof (cases "cp_name c = name")
    case True
    then have "c = old" using named_unique[of "ms_checkpoints m" c] c(1) n assms(2) by (simp add: checkpoints_wf_def)
    then show ?thesis using c True o by auto
  qed (use c assms(4) old_settled in auto)
qed

section \<open>The commands save what they decided\<close>

lemma bind_Inl: "try_bind r k = Inl e \<longleftrightarrow> r = Inl e \<or> (\<exists>x. r = Inr x \<and> k x = Inl e)"
  by (cases r) simp_all

lemma sum_Inl: "map_sum f g r = Inl e \<longleftrightarrow> (\<exists>x. r = Inl x \<and> e = f x)"
  by (cases r) auto

lemma record_refused:
  "validateRecordRequest rq = Some refusal \<Longrightarrow> \<exists>status kind. refusal = Failure status kind"
  "decide_record references now rq m v = Some (Inr (Inl refusal')) \<Longrightarrow> \<exists>status kind. refusal' = Failure status kind"
proof -
  show "validateRecordRequest rq = Some refusal \<Longrightarrow> \<exists>status kind. refusal = Failure status kind"
    by (auto simp: validateRecordRequest_def missingCapability_def failure_def rejected_def split: if_splits option.splits sum.splits)
  have "recording_round m = Inl r \<Longrightarrow> \<exists>status kind. r = Failure status kind"
    and "repaired_record rq m v now stamped repair = Inl r \<Longrightarrow> \<exists>status kind. r = Failure status kind"
    for r :: "record_result outcome" and stamped repair
    by (auto simp: recording_round_def repaired_record_def failure_def Let_def split: option.splits if_splits)
  then have "\<exists>status kind. r = Failure status kind" if "prepareCheckpointValues rq now m v = (Inl r :: record_result outcome + _)" for r
    using that by (auto simp: prepareCheckpointValues_def failure_def bind_Inl sum_Inl Let_def split: option.splits)
  then show "decide_record references now rq m v = Some (Inr (Inl refusal')) \<Longrightarrow> \<exists>status kind. refusal' = Failure status kind"
    by (auto simp: decide_record_def assertRecordableEvidence_def failure_def map_sum_Inr Let_def
      split: sum.splits option.splits if_splits prod.splits)
qed

definition record_decision :: "references \<Rightarrow> string \<Rightarrow> record_request \<Rightarrow> mission \<Rightarrow> nat \<Rightarrow> record_result decision" where
  "record_decision references now rq m v =
     (case decide_record references now rq m v of Some (Inr d) \<Rightarrow> d | _ \<Rightarrow> Inl (failure Unavailable_error))"

interpretation record_command: content_command "record_decision references now rq"
proof
  fix m v refusal
  assume "record_decision references now rq m v = Inl refusal"
  then show "\<exists>status kind. refusal = Failure status kind"
    by (auto simp: record_decision_def failure_def dest: record_refused(2) split: option.splits sum.splits)
next
  fix m v changed answer
  assume "record_decision references now rq m v = Inr (changed, answer)"
  then have "decide_record references now rq m v = Some (Inr (Inr (changed, answer)))"
    by (auto simp: record_decision_def split: option.splits sum.splits)
  then obtain checkpoints where "changed = m\<lparr> ms_checkpoints := checkpoints \<rparr>" by (rule decided_record)
  then show "ms_id changed = ms_id m" "ms_repositoryId changed = ms_repositoryId m" "ms_status changed = ms_status m" by simp_all
qed

interpretation report_command: content_command "decide_report name blocker"
  by unfold_locales (auto simp: decide_report_def failure_is_Failure split: sum.splits option.splits if_splits)

lemma record_success:
  assumes "record_checkpoint nt owns seen db references now rq = Some (Inr (Success x, db'))"
  obtains m v changed answer where "loadForCommand nt seen (rq_request rq) = (Inr (m, v) :: record_result outcome + mission \<times> nat)"
    "(validateRecordRequest rq :: record_result outcome option) = None"
    "decide_record references now rq m v = Some (Inr (Inr (changed, answer)))"
    "save_rewritten owns db changed v answer = (Success x, db')"
proof -
  have valid: "(validateRecordRequest rq :: record_result outcome option) = None"
    using assms record_refused(1) by (cases "validateRecordRequest rq :: record_result outcome option")
      (fastforce simp: record_checkpoint_def)+
  have "loadForCommand nt seen (rq_request rq) \<noteq> (Inl (Success x) :: record_result outcome + mission \<times> nat)"
    by (auto simp: loadForCommand_def failure_def split: sum.splits option.splits if_splits)
  then obtain m v where l: "loadForCommand nt seen (rq_request rq) = (Inr (m, v) :: record_result outcome + mission \<times> nat)"
    using assms valid by (auto simp: record_checkpoint_def split: sum.splits)
  obtain decided where "decide_record references now rq m v = Some (Inr decided)"
    "(case decided of Inl refusal \<Rightarrow> (refusal, db) | Inr (changed, answer) \<Rightarrow> save_rewritten owns db changed v answer) = (Success x, db')"
    using assms valid l by (auto simp: record_checkpoint_def map_sum_Inr)
  then show thesis using that[OF l valid] record_refused(2) by (cases decided) fastforce+
qed

lemma recorded_stored:
  assumes "recorded_change references now rq m v = Some m'"
    and "prepareCheckpointValues rq now m v = (Inr (checkpoints, merged) :: record_result outcome + _)"
  obtains stored where "checkpoints = put_checkpoint (ms_checkpoints m) (cp_name merged) stored"
    "cp_name stored = cp_name merged" "cp_goalCheck stored = cp_goalCheck merged" "cp_recording stored = cp_recording merged"
  using assms(1) by (rule recorded_changes) (use assms(2) that in auto)

section \<open>Properties\<close>

text \<open>C26: Checkpoints stay well formed. Whatever call changes them, the checkpoints of a mission stay its own, named
  \<open>CP-N\<close>, without a name used twice, and nothing else of the mission changes. No call loses a checkpoint but
  the removal of a plan without evidence, and a new incident is added behind all others, under a fresh name.\<close>

theorem checkpoints_stay_well_formed:
  assumes "checkpoints_wf m" and "change_of call m v = Some m'"
  shows "checkpoints_wf m' \<and> m' = m\<lparr> ms_checkpoints := ms_checkpoints m' \<rparr> \<and>
    (\<forall>cp\<in>set (ms_checkpoints m). cp_name cp \<in> cp_name ` set (ms_checkpoints m') \<or>
      (\<exists>name. call = Cp_unplan name) \<and> cp_repair cp = None \<and> cp_goalCheck cp = []) \<and>
    (\<forall>rq. call = Cp_open rq \<longrightarrow> incident_checkpoint rq m = None \<longrightarrow>
      (\<exists>opened. ms_checkpoints m' = ms_checkpoints m @ [opened]))"
proof (cases call)
  case (Cp_record references now rq)
  then show ?thesis using record_change.all_kept[OF assms(1), of references now rq v m'] assms(2) by auto
next
  case (Cp_open rq)
  have "\<exists>opened. ms_checkpoints m' = ms_checkpoints m @ [opened]" if "incident_checkpoint rq m = None"
  proof -
    have "filter (\<lambda>cp. cp_name cp \<noteq> next_checkpoint_name (ms_checkpoints m)) (ms_checkpoints m) = ms_checkpoints m"
      using next_name_fresh[of "ms_checkpoints m"] by (metis (mono_tags, lifting) filter_id_conv image_eqI)
    then show ?thesis using opened[OF assms(2)[unfolded Cp_open]] that by simp
  qed
  then show ?thesis using open_change.all_kept[OF assms(1), of rq v m'] assms(2) Cp_open by auto
next
  case (Cp_resume actor occurredAt)
  then show ?thesis using resume_change.all_kept[OF assms(1), of actor occurredAt v m'] assms(2) by auto
next
  case (Cp_correct references occurredAt rq)
  then show ?thesis using correct_change.all_kept[OF assms(1), of references occurredAt rq v m'] assms(2) by auto
next
  case (Cp_verify name proof')
  then show ?thesis using verify_change.all_kept[OF assms(1), of name proof' v m'] assms(2) by auto
next
  case (Cp_report name blocker)
  then show ?thesis using report_change.all_kept[OF assms(1), of name blocker v m'] assms(2) by auto
next
  case (Cp_plan name description)
  then show ?thesis using plan_change.all_kept[OF assms(1), of name description v m'] assms(2) by auto
next
  case (Cp_unplan name)
  then show ?thesis using unplanned_kept[OF assms(2)[unfolded Cp_unplan] assms(1)] by auto
qed

text \<open>C25: What settles a repair. After any call, a checkpoint whose repair counts as verified was so before, with the
  same evidence, or the call was the verification of exactly this checkpoint: then it had no blocker, its evidence
  was recorded and fresh, its authority was the mission's current one, and a proof that came with the call was for
  this occurrence, revision and evidence. There is one other way, which the code does not mean to have: the call
  recorded this checkpoint under a name that had no repair, and its caller sent the verified repair with it.\<close>

theorem what_settles_a_repair:
  assumes "change_of call m v = Some m'" and "checkpoints_wf m"
    and "cp \<in> set (ms_checkpoints m')" and "map_option rx_verified (cp_repair cp) = Some True"
  shows "was_settled m cp \<or>
    (\<exists>proof' old owed. call = Cp_verify (cp_name cp) proof' \<and> old \<in> set (ms_checkpoints m) \<and> cp_repair old = Some owed \<and>
      cp_name old = cp_name cp \<and> cp_goalCheck old = cp_goalCheck cp \<and> rx_blocker owed = None \<and> rx_evidenceRecorded owed \<and>
      freshGoalCheckRows (cp_goalCheck old) \<noteq> [] \<and> rx_authorizedGates owed = ms_declaredGates m \<and>
      rx_authorizedCriteria owed = ms_successCriteria m \<and> (\<forall>p. proof' = Some p \<longrightarrow> coverage_proven m old owed p)) \<or>
    (\<exists>references now rq. call = Cp_record references now rq \<and> sent_with_repair m rq cp)"
proof (cases call)
  case (Cp_verify name proof')
  then have "decide_verify name proof' m v = Inr m'" using assms(1) by (auto split: sum.splits)
  from verify_settles[OF this assms(2,3,4)] show ?thesis using Cp_verify by blast
next
  case (Cp_record references now rq)
  then show ?thesis using record_settles[OF _ assms(3,4)] assms(1) by blast
next
  case (Cp_open rq)
  then show ?thesis using open_settles[OF _ assms(3,4)] assms(1) by blast
next
  case (Cp_resume actor occurredAt)
  then show ?thesis using resume_settles[OF _ assms(3,4)] assms(1) by blast
next
  case (Cp_correct references occurredAt rq)
  then show ?thesis using correct_settles[OF _ assms(3,4)] assms(1) by blast
next
  case (Cp_report name blocker)
  then show ?thesis using report_settles[OF _ assms(3,4)] assms(1) by blast
next
  case (Cp_plan name description)
  then show ?thesis using plan_settles[OF _ assms(3,4)] assms(1) by blast
next
  case (Cp_unplan name)
  then show ?thesis using unplan_settles[OF _ assms(2,3,4)] assms(1) by blast
qed

text \<open>C24: Recorded evidence stands. When a record completes, it was saved as the next version of the mission that was
  read, the checkpoint is found under its name with the revision of that save, every row it holds, kept ones
  included, cites something verifiable where the checkout is known, and when it is the last checkpoint, every
  criterion has a row and the open repair of the review has fresh evidence.\<close>

theorem recorded_evidence_stands:
  assumes "record_checkpoint nt owns seen db references now rq = Some (Inr (Success (m', v', answered, replaced), db'))"
    and "\<And>m v. loadAggregate nt seen (cq_missionId (rq_request rq)) = Inr (Some (m, v)) \<Longrightarrow> checkpoints_wf m"
  shows "\<exists>m v stored. loadAggregate nt seen (cq_missionId (rq_request rq)) = Inr (Some (m, v)) \<and>
    saveAggregate owns db m' (Some v) = Inr (v', db') \<and> v' = Suc v \<and>
    checkpoint_named (ms_checkpoints m') (cp_name (rq_checkpoint rq)) = Some stored \<and>
    map_option rg_missionRevision (cp_recording stored) = Some (int v') \<and>
    (\<forall>fs rootFor rootDir. references = Some (fs, rootFor) \<longrightarrow> rootFor (ms_id m) = Some rootDir \<longrightarrow> rootDir \<noteq> [] \<longrightarrow>
      findUnverifiableRecordedRow fs (cp_goalCheck stored) rootDir = Some (Inr None)) \<and>
    (map_option cp_name (at_last (ms_checkpoints m')) = Some (cp_name (rq_checkpoint rq)) \<longrightarrow>
      uncoveredCriteria (map cp_goalCheck (ms_checkpoints m')) (ms_successCriteria m) (ms_successCriterionIds m) = [] \<and>
      (\<forall>repair. mission_repair m = Some repair \<longrightarrow> staleRepairCriteria (ms_checkpoints m') repair = []))"
proof -
  obtain m v changed answer where l: "loadForCommand nt seen (rq_request rq) = (Inr (m, v) :: record_result outcome + mission \<times> nat)"
    and valid: "(validateRecordRequest rq :: record_result outcome option) = None"
    and d: "decide_record references now rq m v = Some (Inr (Inr (changed, answer)))"
    and s: "save_rewritten owns db changed v answer = (Success (m', v', answered, replaced), db')"
    using assms(1) by (rule record_success)
  have id: "ms_id m = cq_missionId (rq_request rq)" using l by (rule load_command_Inr)
  have loaded: "loadAggregate nt seen (cq_missionId (rq_request rq)) = Inr (Some (m, v))"
    using l by (auto simp: loadForCommand_def split: sum.splits option.splits if_splits)
  then have wf: "checkpoints_wf m" by (rule assms(2))
  obtain checkpoints merged where e: "assertRecordableEvidence references rq m checkpoints merged = Some (Inr (None :: record_result outcome option))"
    and c: "changed = m\<lparr> ms_checkpoints := checkpoints \<rparr>" and a: "\<And>v. \<exists>r. answer v = (changed, v, r)"
    and p: "prepareCheckpointValues rq now m v = (Inr (checkpoints, merged) :: record_result outcome + _)"
    using d by (rule decided_record) blast
  have w: "m' = changed" "saveAggregate owns db changed (Some v) = Inr (v', db')"
    using s a by (auto simp: save_rewritten_def split: sum.splits) (metis prod.inject)+
  have "v' = Suc v" using saved_versions[OF w(2)[unfolded saveAggregate_def]] by simp
  moreover have "recorded_change references now rq m v = Some m'"
    using valid id d w(1) by (simp add: recorded_change_def saved_Some)
  then obtain stored where "checkpoints = put_checkpoint (ms_checkpoints m) (cp_name merged) stored"
    "cp_name stored = cp_name merged" "cp_goalCheck stored = cp_goalCheck merged" "cp_recording stored = cp_recording merged"
    using p by (rule recorded_stored)
  moreover from this have "checkpoint_named checkpoints (cp_name (rq_checkpoint rq)) = Some stored"
    using wf named_put prepared(2)[OF p] by (simp add: checkpoints_wf_def)
  ultimately show ?thesis using loaded w c id recordable[OF e] prepared(4)[OF p]
    by (intro exI[of _ m] exI[of _ v] exI[of _ stored]) (auto simp: owes_evidence_def)
qed

lemma unverifiable_none:
  "unverifiable_findings fs rootDir entries = Some (Inr found) \<Longrightarrow>
    found = [] \<longleftrightarrow> (\<forall>(cp, index, row)\<in>set entries. findUnverifiableRecordedRow fs [row] rootDir = Some (Inr None))"
proof (induction entries arbitrary: found)
  case (Cons entry rest)
  obtain cp index row where entry: "entry = (cp, index, row)" by (cases entry)
  obtain invalid where i: "findUnverifiableRecordedRow fs [row] rootDir = Some (Inr invalid)"
    using Cons.prems by (auto simp: entry split: option.splits sum.splits)
  then obtain later where l: "unverifiable_findings fs rootDir rest = Some (Inr later)"
    using Cons.prems by (auto simp: entry map_sum_Inr)
  then have "found = [] \<longleftrightarrow> invalid = None \<and> later = []" using Cons.prems i by (cases invalid) (auto simp: entry)
  then show ?case using Cons.IH[OF l] i by (auto simp: entry)
qed simp

lemma all_entries: "(\<forall>(cp, index, row)\<in>set (concat (map (\<lambda>cp. map (Pair cp) (enumerate 0 (cp_goalCheck cp))) cps)). P row) \<longleftrightarrow>
    (\<forall>cp\<in>set cps. \<forall>row\<in>set (cp_goalCheck cp). P row)"
proof -
  have "(\<forall>(index, row)\<in>set (enumerate 0 rows). P row) \<longleftrightarrow> (\<forall>row\<in>set rows. P row)" for rows :: "goal_row list"
    by (metis (no_types, lifting) case_prod_beta map_snd_enumerate list.pred_map list.pred_set comp_def)
  then show ?thesis by (simp add: ball_Un case_prod_beta) 
qed

text \<open>C27: The evidence is ready exactly when nothing is owed: checkpoints are recorded, no repair is blocked or lost its
  authority, no planned checkpoint lacks evidence, every row cites something verifiable, every criterion is
  marked complete and has a row, and the open repair of the review has fresh evidence.\<close>

theorem evidence_ready_iff:
  assumes "evaluateMissionEvidence contract fs rootDir = Some (Inr verdict)"
  shows "ed_ready verdict \<longleftrightarrow> ev_checkpoints contract \<noteq> [] \<and>
    (ev_draftedInDb contract \<longrightarrow>
      repairContractFailure (ev_checkpoints contract) (Some (ev_gates contract)) (Some (ev_successCriteria contract)) = None \<and>
      missingCheckpointEvidence (ev_checkpoints contract) (Some (ev_gates contract)) (Some (ev_successCriteria contract)) = []) \<and>
    (\<forall>cp\<in>set (ev_checkpoints contract). \<forall>row\<in>set (cp_goalCheck cp).
      findUnverifiableRecordedRow fs [row] rootDir = Some (Inr None)) \<and>
    {..<length (ev_successCriteria contract)} \<subseteq> set (ev_completedSuccessCriteria contract) \<and>
    uncoveredCompletedCriteria (map cp_goalCheck (ev_checkpoints contract)) (ev_successCriteria contract)
      (ev_completedSuccessCriteria contract) (ev_successCriterionIds contract) = [] \<and>
    (\<forall>repair. openRepairFromReview (ev_review contract) (ev_successCriteria contract) (all_rows (ev_checkpoints contract)) = Some repair \<longrightarrow>
      staleRepairCriteria (ev_checkpoints contract) repair = [])"
proof -
  define policy where "policy = reviewPreparationEvidencePolicy (map cp_goalCheck (ev_checkpoints contract))
    (ev_successCriteria contract) (ev_successCriterionIds contract) (ev_completedSuccessCriteria contract) (ev_draftedInDb contract)"
  define first where "first = checkpointFindings contract @ (if er_source policy = Missing_evidence
    then [criterion_finding Missing_evidence_code (record_command (default_to ''CP-1''
      (map_option cp_name (at_last (ev_checkpoints contract))))) None None] else [])"
  have source: "er_source policy = Recorded \<longleftrightarrow> ev_checkpoints contract \<noteq> []"
    "er_source policy = Historical \<Longrightarrow> ev_checkpoints contract = []"
    and incomplete: "er_incomplete policy = [] \<longleftrightarrow> {..<length (ev_successCriteria contract)} \<subseteq> set (ev_completedSuccessCriteria contract)"
    by (auto simp: policy_def reviewPreparationEvidencePolicy_def filter_empty_conv split: if_splits)
  have first: "first = [] \<longleftrightarrow> er_source policy \<noteq> Missing_evidence \<and> (ev_draftedInDb contract \<longrightarrow>
      repairContractFailure (ev_checkpoints contract) (Some (ev_gates contract)) (Some (ev_successCriteria contract)) = None \<and>
      missingCheckpointEvidence (ev_checkpoints contract) (Some (ev_gates contract)) (Some (ev_successCriteria contract)) = [])"
    by (auto simp: first_def checkpointFindings_def Let_def split: option.splits)
  show ?thesis
  proof (cases "er_source policy = Historical")
    case True
    then have "\<not> ed_ready verdict" using assms unfolding evaluateMissionEvidence_def policy_def[symmetric] Let_def by auto
    then show ?thesis using source(2)[OF True] by simp
  next
    case False
    obtain invalid where i: "unverifiable_findings fs rootDir (concat (map (\<lambda>cp. map (Pair cp) (enumerate 0 (cp_goalCheck cp)))
        (ev_checkpoints contract))) = Some (Inr invalid)"
      and ready: "ed_ready verdict \<longleftrightarrow> first @ invalid @ criteria_findings contract (default_to ''CP-1'' (map_option cp_name
        (at_last (ev_checkpoints contract)))) (er_incomplete policy) = []"
      using assms False unfolding evaluateMissionEvidence_def policy_def[symmetric] Let_def first_def
      by (auto simp: map_sum_Inr)
    have "criteria_findings contract latest (er_incomplete policy) = [] \<longleftrightarrow> er_incomplete policy = [] \<and>
      uncoveredCompletedCriteria (map cp_goalCheck (ev_checkpoints contract)) (ev_successCriteria contract)
        (ev_completedSuccessCriteria contract) (ev_successCriterionIds contract) = [] \<and>
      (\<forall>repair. openRepairFromReview (ev_review contract) (ev_successCriteria contract) (all_rows (ev_checkpoints contract)) = Some repair \<longrightarrow>
        staleRepairCriteria (ev_checkpoints contract) repair = [])" for latest
      by (simp add: criteria_findings_def Let_def split: option.split)
    moreover have "er_source policy = Missing_evidence \<longleftrightarrow> ev_checkpoints contract = []"
      using source(1) False by (cases "er_source policy") auto
    ultimately show ?thesis
      using ready first incomplete unverifiable_none[OF i, unfolded all_entries] by auto
  qed
qed

text \<open>Samples for the witnesses: a repair with fresh evidence, and a record for a saved mission.\<close>

definition sample_repair :: checkpoint where
  "sample_repair = \<lparr> cp_missionId = ''px-0001'',
     cp_recording = Some \<lparr> rg_recordedAt = ''2026-01-01T00:00:00.000Z'', rg_recordedRound = None, rg_missionRevision = 1 \<rparr>,
     cp_name = ''CP-2'', cp_rawFilename = None, cp_firstLine = Some ''repair'',
     cp_repair = Some \<lparr> rx_incidentId = ''i'', rx_command = ''make test'', rx_authorizedGates = [''make test''],
       rx_authorizedCriteria = [''works''], rx_attempt = 1, rx_evidenceRecorded = True, rx_verified = False,
       rx_occurrence = None, rx_exactSuccessCoverage = None, rx_blocker = None, rx_acknowledgedBlocker = None,
       rx_acknowledgedBy = None, rx_acknowledgedAt = None, rx_corrections = None \<rparr>,
     cp_goalCheck = [(sample_row ''x'')\<lparr> gr_criterion := ''works'' \<rparr>], cp_nextActionText = ''next'' \<rparr>"

definition sample_repairing :: mission where
  "sample_repairing = sample_saved\<lparr> ms_checkpoints := ms_checkpoints sample_saved @ [sample_repair] \<rparr>"

definition sample_record :: record_request where
  "sample_record = \<lparr> rq_request = \<lparr> cq_operationId = ''op'', cq_missionId = ''px-0001'', cq_capabilities = [''checkpoint:record''],
       cq_expectedVersion = None \<rparr>,
     rq_checkpoint = \<lparr> cp_missionId = ''px-0001'', cp_recording = None, cp_name = ''CP-1'', cp_rawFilename = None,
       cp_firstLine = None, cp_repair = None, cp_goalCheck = [(sample_row ''a.ts'')\<lparr> gr_criterion := ''works'', gr_criterionId := Absent \<rparr>],
       cp_nextActionText = ''next'' \<rparr>,
     rq_force = False \<rparr>"

lemma sample_wf: "checkpoints_wf sample_repairing"
  by code_simp

lemma sample_verified: "\<exists>m'. change_of (Cp_verify ''CP-2'' None) sample_repairing 1 = Some m' \<and>
    list_ex (\<lambda>cp. cp_name cp = ''CP-2'' \<and> map_option rx_verified (cp_repair cp) = Some True) (ms_checkpoints m')"
proof -
  have "case change_of (Cp_verify ''CP-2'' None) sample_repairing 1 of None \<Rightarrow> False | Some m' \<Rightarrow>
      list_ex (\<lambda>cp. cp_name cp = ''CP-2'' \<and> map_option rx_verified (cp_repair cp) = Some True) (ms_checkpoints m')"
    by code_simp
  then show ?thesis by (auto split: option.splits)
qed

theorem checkpoints_stay_well_formed_witness:
  "\<exists>m'. change_of (Cp_verify ''CP-2'' None) sample_repairing 1 = Some m' \<and> checkpoints_wf m'"
  using checkpoints_stay_well_formed[OF sample_wf] sample_verified by blast

theorem what_settles_a_repair_witness:
  "\<exists>m' cp. change_of (Cp_verify ''CP-2'' None) sample_repairing 1 = Some m' \<and> cp \<in> set (ms_checkpoints m') \<and>
    cp_name cp = ''CP-2'' \<and> (was_settled sample_repairing cp \<or>
    (\<exists>old\<in>set (ms_checkpoints sample_repairing). cp_goalCheck old = cp_goalCheck cp \<and> freshGoalCheckRows (cp_goalCheck old) \<noteq> []))"
proof -
  obtain m' cp where c: "change_of (Cp_verify ''CP-2'' None) sample_repairing 1 = Some m'" "cp \<in> set (ms_checkpoints m')"
    "map_option rx_verified (cp_repair cp) = Some True" "cp_name cp = ''CP-2''"
    using sample_verified by (auto simp: list_ex_iff simp del: change_of.simps)
  from what_settles_a_repair[OF c(1) sample_wf c(2,3)] c show ?thesis by (metis checkpoint_call.distinct(7))
qed

definition sample_completed :: "(record_result outcome \<times> database) walk \<Rightarrow> bool" where
  "sample_completed r = (case r of
     Some (Inr (Success (m', v', answered, replaced), db')) \<Rightarrow> v' = 2 \<and> answered = rq_checkpoint sample_record \<and> replaced
   | _ \<Rightarrow> False)"

lemma sample_completed_iff: "sample_completed r \<longleftrightarrow> (\<exists>m' db'. r = Some (Inr (Success (m', 2, rq_checkpoint sample_record, True), db')))"
  by (auto simp: sample_completed_def split: option.split sum.split prod.split outcome.split)

definition loads_wf :: "load_error + (mission \<times> nat) option \<Rightarrow> bool" where
  "loads_wf r = (case r of Inr (Some (m, v)) \<Rightarrow> checkpoints_wf m | _ \<Rightarrow> True)"

lemma sample_recorded:
  "\<exists>db m' db'. record_checkpoint (\<lambda>_. []) (\<lambda>_. True) db db None ''2026-01-01T00:00:00.000Z'' sample_record =
      Some (Inr (Success (m', 2, rq_checkpoint sample_record, True), db')) \<and>
    loads_wf (loadAggregate (\<lambda>_. []) db ''px-0001'')"
proof -
  have "case saveAggregate (\<lambda>_. True) empty_database sample_saved None of Inl _ \<Rightarrow> False | Inr (w, db) \<Rightarrow>
      sample_completed (record_checkpoint (\<lambda>_. []) (\<lambda>_. True) db db None ''2026-01-01T00:00:00.000Z'' sample_record) \<and>
      loads_wf (loadAggregate (\<lambda>_. []) db ''px-0001'')"
    by code_simp
  then show ?thesis unfolding sample_completed_iff by (auto split: sum.splits)
qed

theorem recorded_evidence_stands_witness:
  "\<exists>db m' db' stored. record_checkpoint (\<lambda>_. []) (\<lambda>_. True) db db None ''2026-01-01T00:00:00.000Z'' sample_record =
      Some (Inr (Success (m', 2, rq_checkpoint sample_record, True), db')) \<and>
    checkpoint_named (ms_checkpoints m') ''CP-1'' = Some stored \<and>
    map_option rg_missionRevision (cp_recording stored) = Some 2"
proof -
  obtain db m' db' where r: "record_checkpoint (\<lambda>_. []) (\<lambda>_. True) db db None ''2026-01-01T00:00:00.000Z'' sample_record =
      Some (Inr (Success (m', 2, rq_checkpoint sample_record, True), db'))"
    and wf: "\<And>m v. loadAggregate (\<lambda>_. []) db ''px-0001'' = Inr (Some (m, v)) \<Longrightarrow> checkpoints_wf m"
    using sample_recorded by (fastforce simp: loads_wf_def)
  have i: "cq_missionId (rq_request sample_record) = ''px-0001''" "cp_name (rq_checkpoint sample_record) = ''CP-1''"
    by (simp_all add: sample_record_def)
  from recorded_evidence_stands[OF r] wf i obtain stored where "checkpoint_named (ms_checkpoints m') ''CP-1'' = Some stored"
    "map_option rg_missionRevision (cp_recording stored) = Some 2" by auto
  with r show ?thesis by blast
qed

theorem evidence_ready_iff_witness:
  "\<exists>verdict. evaluateMissionEvidence (mission_contract sample_repairing) sample_checkout ''/repo'' = Some (Inr verdict) \<and>
    \<not> ed_ready verdict"
proof -
  have "case evaluateMissionEvidence (mission_contract sample_repairing) sample_checkout ''/repo'' of
      Some (Inr verdict) \<Rightarrow> True | _ \<Rightarrow> False" by code_simp
  then obtain verdict where v: "evaluateMissionEvidence (mission_contract sample_repairing) sample_checkout ''/repo'' = Some (Inr verdict)"
    by (auto split: option.splits sum.splits)
  have "\<not> {..<length (ev_successCriteria (mission_contract sample_repairing))} \<subseteq>
      set (ev_completedSuccessCriteria (mission_contract sample_repairing))"
    by (simp add: mission_contract_def sample_repairing_def sample_saved_def lessThan_Suc)
  then show ?thesis using evidence_ready_iff[OF v] v by blast
qed

end
