(* ===== verification/WorkflowRuns.thy ===== *)
theory WorkflowRuns
  imports Commands Activities Agents
begin

text \<open>
  Admitted workflow commands in the operator database: the table of \<open>workflow-operation-store.ts\<close> with the
  constraints of \<open>migrations/0039\<close> and \<open>0042\<close>, the activity it publishes
  (\<open>execution-activity-store.ts\<close>), the start of a mission and its compensation
  (\<open>execution-start-service.ts\<close>), admission, claim, end, loss and stop of a command
  (\<open>workflow-operation-service.ts\<close>), and the authorization a running command writes missions with
  (\<open>composition/workflow-operations.ts\<close>).

  Each transaction of the service is one step on the state of the database; steps of any processes may
  interleave. An exception rolls the step back. Processes, the choice of an agent and the facts of a draft are
  observed outside and are arguments, as is the time. A stored snapshot of activity is the value it denotes.
\<close>

section \<open>The mode of a review command\<close>

definition REVIEW_FLAG_OPERATIONS :: "(string \<times> review_operation) list" where
  "REVIEW_FLAG_OPERATIONS =
     [(''--status'', Op_status), (''--verify'', Op_verify), (''--submit'', Op_submit), (''--push'', Op_push),
      (''--comments'', Op_readComments), (''--comment'', Op_comment), (''--comment-file'', Op_comment),
      (''--submit-review'', Op_submitReview), (''--close'', Op_close), (''--reconcile-review'', Op_reconcileReview)]"

definition reviewOperation :: "string list \<Rightarrow> review_operation" where
  "reviewOperation args =
     (let flags = map (takeWhile (\<lambda>c. c \<noteq> CHR ''='')) (filter (\<lambda>arg. take 2 arg = ''--'') args) in
      case find_first (\<lambda>entry. fst entry \<in> set flags) REVIEW_FLAG_OPERATIONS of
        None \<Rightarrow> Op_enter
      | Some entry \<Rightarrow> snd entry)"

section \<open>The table of operations\<close>

record workflow_record =
  wr_operation :: workflow_operation
  wr_operatorInvocation :: "bool option"
  wr_requestedAgent :: "string option"
  wr_pinnedAgent :: "bool option"
  wr_invocation :: "(string \<times> string list) option"

record operation_row =
  or_id :: string
  or_repository_id :: string
  or_mission_id :: string
  or_request_key :: string
  or_generation :: int
  or_phase :: workflow_phase
  or_record :: workflow_record

datatype start_fault =
    Start_slug mission_error | Start_unreadable load_error | Start_unavailable string
  | Start_agent selection_error | Start_version load_error | Start_refused terminal_status error_kind
  | Undo_failed terminal_status error_kind

datatype run_fault =
    Stored_identity | Stored_owner | Row_refused | Ownership_changed
  | Operation_refused operation_error | Activity_refused activity_error | Agent_refused selection_error
  | Start_failed start_fault | Mission_unreadable load_error | Slug_refused mission_error
  | Owner_missing_fault | Foreign_execution | Stop_changed | Preparation_refused | Write_failed store_error | Publication_refused

definition open_phase :: "workflow_phase \<Rightarrow> bool" where
  "open_phase phase \<longleftrightarrow> phase \<in> {Accepted, Executing, Stopping}"

definition readOperation :: "string \<Rightarrow> operation_row \<Rightarrow> run_fault + workflow_record" where
  "readOperation repository row =
     (let raw = wr_operation (or_record row) in
      if wo_repositoryId raw \<noteq> repository \<or> blank (wo_id raw) \<or> blank (wo_missionId raw) \<or> blank (wo_requestKey raw) \<or>
        \<not> safe_integer (wo_generation raw) \<or> wo_generation raw < 0
      then Inl Stored_identity
      else if (case wo_owner raw of None \<Rightarrow> False
        | Some owner \<Rightarrow> \<not> safe_integer (ow_pid owner) \<or> ow_pid owner < 1 \<or> blank (ow_identity owner))
      then Inl Stored_owner
      else Inr (or_record row))"

definition read_operations ::
  "string \<Rightarrow> operation_row list \<Rightarrow> (operation_row \<Rightarrow> bool) \<Rightarrow> run_fault + workflow_record list" where
  "read_operations repository rows chosen =
     try_map (readOperation repository) (filter (\<lambda>row. or_repository_id row = repository \<and> chosen row) rows)"

definition first_operation ::
  "string \<Rightarrow> operation_row list \<Rightarrow> (operation_row \<Rightarrow> bool) \<Rightarrow> run_fault + workflow_record option" where
  "first_operation repository rows chosen = map_sum id (\<lambda>found. nth_opt found 0) (read_operations repository rows chosen)"

definition get_operation :: "string \<Rightarrow> operation_row list \<Rightarrow> string \<Rightarrow> run_fault + workflow_record option" where
  "get_operation repository rows ident = first_operation repository rows (\<lambda>row. or_id row = ident)"

definition by_request :: "string \<Rightarrow> operation_row list \<Rightarrow> string \<Rightarrow> string \<Rightarrow> run_fault + workflow_record option" where
  "by_request repository rows mission key =
     first_operation repository rows (\<lambda>row. or_mission_id row = mission \<and> or_request_key row = key)"

definition current_operation :: "string \<Rightarrow> operation_row list \<Rightarrow> string \<Rightarrow> run_fault + workflow_record option" where
  "current_operation repository rows mission =
     first_operation repository rows (\<lambda>row. or_mission_id row = mission \<and> open_phase (or_phase row))"

definition open_operations :: "string \<Rightarrow> operation_row list \<Rightarrow> run_fault + workflow_record list" where
  "open_operations repository rows = read_operations repository rows (\<lambda>row. open_phase (or_phase row))"

definition latest_operation :: "string \<Rightarrow> operation_row list \<Rightarrow> string \<Rightarrow> run_fault + workflow_record option" where
  "latest_operation repository rows mission =
     (case at_last (filter (\<lambda>row. or_repository_id row = repository \<and> or_mission_id row = mission) rows) of
        None \<Rightarrow> Inr None
      | Some row \<Rightarrow> map_sum id Some (readOperation repository row))"

text \<open>Primary key, key of a request, and one open operation of a mission.\<close>

definition rows_valid :: "operation_row list \<Rightarrow> bool" where
  "rows_valid rows \<longleftrightarrow> distinct (map or_id rows) \<and>
     distinct (map (\<lambda>row. (or_repository_id row, or_mission_id row, or_request_key row)) rows) \<and>
     distinct (map (\<lambda>row. (or_repository_id row, or_mission_id row)) (filter (\<lambda>row. open_phase (or_phase row)) rows))"

definition insert_operation :: "string \<Rightarrow> operation_row list \<Rightarrow> workflow_record \<Rightarrow> run_fault + operation_row list" where
  "insert_operation repository rows record =
     (let operation = wr_operation record;
          added = rows @ [\<lparr> or_id = wo_id operation, or_repository_id = repository, or_mission_id = wo_missionId operation,
            or_request_key = wo_requestKey operation, or_generation = wo_generation operation,
            or_phase = wo_phase operation, or_record = record \<rparr>] in
      if rows_valid added then Inr added else Inl Row_refused)"

definition replaced_row :: "string \<Rightarrow> workflow_record \<Rightarrow> int \<Rightarrow> operation_row \<Rightarrow> bool" where
  "replaced_row repository record generation row \<longleftrightarrow> or_id row = wo_id (wr_operation record) \<and>
     or_repository_id row = repository \<and> or_generation row = generation"

definition updated_row :: "workflow_record \<Rightarrow> operation_row \<Rightarrow> operation_row" where
  "updated_row record row = row\<lparr>or_generation := wo_generation (wr_operation record),
     or_phase := wo_phase (wr_operation record), or_record := record\<rparr>"

definition replace_operation ::
  "string \<Rightarrow> operation_row list \<Rightarrow> workflow_record \<Rightarrow> int \<Rightarrow> run_fault + operation_row list" where
  "replace_operation repository rows record generation =
     (let updated = map (\<lambda>row. if replaced_row repository record generation row
            then updated_row record row else row) rows in
      if \<not> rows_valid updated then Inl Row_refused
      else if length (filter (replaced_row repository record generation) rows) \<noteq> 1 then Inl Ownership_changed
      else Inr updated)"

section \<open>Published activity\<close>

record workflow_state =
  ws_operations :: "operation_row list"
  ws_activity :: "(string \<times> activity_snapshot) list"
  ws_missions :: database

definition publish_activity ::
  "(string \<Rightarrow> bool) \<Rightarrow> string \<Rightarrow> workflow_state \<Rightarrow> activity \<Rightarrow> string \<Rightarrow> run_fault + workflow_state" where
  "publish_activity owns repository state event sourceId =
     (if \<not> owns (ea_missionId event) then Inl Publication_refused
      else let owner = map_option or_id (find_first (\<lambda>row. or_repository_id row = repository \<and>
            or_mission_id row = ea_missionId event \<and> open_phase (or_phase row)) (ws_operations state)) in
      case advanceExecutionActivity (map_of (ws_activity state) (ea_missionId event)) event sourceId owner of
        Inl e \<Rightarrow> Inl (Activity_refused e)
      | Inr None \<Rightarrow> Inr state
      | Inr (Some next_snapshot) \<Rightarrow> Inr (state\<lparr>ws_activity := (ea_missionId event, next_snapshot) #
          filter (\<lambda>entry. fst entry \<noteq> ea_missionId event) (ws_activity state)\<rparr>))"

fun command_stage :: "workflow_command \<Rightarrow> activity_stage" where
  "command_stage Active_execute = St_execute"
| "command_stage Draft_create = St_draft"
| "command_stage Integrate_merge = St_integrate"
| "command_stage Review_submit = St_review"

definition executionActivity ::
  "workflow_operation \<Rightarrow> activity_state \<Rightarrow> string \<Rightarrow> process_owner option \<Rightarrow> string \<Rightarrow> run_fault + activity" where
  "executionActivity operation state summary publisher now =
     try_bind (if has_text (wo_agent operation)
         then map_sum Agent_refused Some (agentFamily (the (wo_agent operation))) else Inr None) (\<lambda>agent.
       Inr \<lparr> ea_missionId = wo_missionId operation, ea_operationId = wo_id operation,
         ea_phase = command_stage (wo_command operation), ea_state = state, ea_summary = summary, ea_agent = agent,
         ea_processId = map_option ow_pid publisher,
         ea_processIdentity = (case publisher of None \<Rightarrow> Null | Some p \<Rightarrow> Present (ow_identity p)),
         ea_blockedReason = (if state = Activity_blocked then Some summary else None),
         ea_occurredAt = now, ea_sequence = None \<rparr>)"

definition publish_operation ::
  "(string \<Rightarrow> bool) \<Rightarrow> string \<Rightarrow> workflow_state \<Rightarrow> workflow_operation \<Rightarrow> activity_state \<Rightarrow> string \<Rightarrow> process_owner option \<Rightarrow> string \<Rightarrow>
    run_fault + workflow_state" where
  "publish_operation owns repository state operation shown summary publisher now =
     try_bind (executionActivity operation shown summary publisher now) (\<lambda>event.
       publish_activity owns repository state event (wo_id operation))"

text \<open>A replaced operation and what it shows.\<close>

definition replace_and_publish ::
  "(string \<Rightarrow> bool) \<Rightarrow> string \<Rightarrow> workflow_state \<Rightarrow> workflow_record \<Rightarrow> int \<Rightarrow> activity_state \<Rightarrow> string \<Rightarrow> string \<Rightarrow>
    run_fault + workflow_state" where
  "replace_and_publish owns repository state record generation shown summary now =
     try_bind (replace_operation repository (ws_operations state) record generation) (\<lambda>rows.
       publish_operation owns repository (state\<lparr>ws_operations := rows\<rparr>) (wr_operation record) shown summary
         (wo_owner (wr_operation record)) now)"

section \<open>The start of a mission and its undoing\<close>

definition first_activation :: "mission \<Rightarrow> agent_family \<Rightarrow> mission_command" where
  "first_activation mission agent =
     (if ms_status mission = In_review \<and> (case ms_review mission of None \<Rightarrow> False
         | Some r \<Rightarrow> map_option rd_phase (at_last (rounds r)) = Some Fixing)
      then Rebound_to_active agent Review_rebound None
      else Activate agent)"

definition start_execution ::
  "(jsnum \<Rightarrow> string) \<Rightarrow> (string \<Rightarrow> bool) \<Rightarrow> string \<Rightarrow> database \<Rightarrow> string \<Rightarrow> string \<Rightarrow> string \<Rightarrow> nat option \<Rightarrow>
    start_fault + transition_result \<times> database" where
  "start_execution nt owns now db slug agent ident expected =
     try_bind (map_error Start_slug (missionId slug)) (\<lambda>mission.
     try_bind (map_error Start_unreadable (loadAggregate nt db mission)) (\<lambda>loaded.
     case loaded of
       None \<Rightarrow> Inl (Start_unavailable slug)
     | Some (m, version) \<Rightarrow>
         try_bind (map_error Start_version (case expected of None \<Rightarrow> Inr version | Some v \<Rightarrow> missionVersion v)) (\<lambda>wanted.
         try_bind (map_error Start_agent (agentFamily agent)) (\<lambda>family.
           case transition nt owns db db
             \<lparr> tq_request = \<lparr> cq_operationId = ident, cq_missionId = ms_id m, cq_capabilities = [''mission:transition''],
                 cq_expectedVersion = Some wanted \<rparr>,
               tq_command = first_activation m family,
               tq_actor = (case first_activation m family of Activate a \<Rightarrow> a | _ \<Rightarrow> agent),
               tq_occurredAt = now, tq_idempotencyKey = Some (ident @ '':activate'') \<rparr> of
             (Success result, db') \<Rightarrow> Inr (result, db')
           | (Failure status kind, _) \<Rightarrow> Inl (Start_refused status kind)))))"

definition compensate ::
  "(jsnum \<Rightarrow> string) \<Rightarrow> (string \<Rightarrow> bool) \<Rightarrow> string \<Rightarrow> database \<Rightarrow> workflow_operation \<Rightarrow> start_fault + database" where
  "compensate nt owns now db start =
     (case wo_activationVersion start of
        None \<Rightarrow> Inr db
      | Some activation \<Rightarrow>
          if wo_originalStatus start \<noteq> Refined then Inr db
          else try_bind (map_error Start_unreadable (loadAggregate nt db (wo_missionId start))) (\<lambda>loaded.
            case loaded of
              None \<Rightarrow> Inr db
            | Some (m, version) \<Rightarrow>
                if ms_status m \<noteq> Active \<or> int version \<noteq> activation then Inr db
                else try_bind (if has_text (wo_previousAssignee start)
                    then map_sum Start_agent Some (agentFamily (the (wo_previousAssignee start))) else Inr None) (\<lambda>assignee.
                  case abortActivation nt owns db db
                    \<lparr> xq_request = \<lparr> cq_operationId = wo_id start @ '':abort'', cq_missionId = wo_missionId start,
                        cq_capabilities = [''mission:transition''], cq_expectedVersion = Some version \<rparr>,
                      xq_assignee = assignee, xq_actor = default_to ''execution'' (wo_agent start), xq_occurredAt = now \<rparr> of
                    (Success _, db') \<Rightarrow> Inr db'
                  | (Failure status kind, _) \<Rightarrow> Inl (Undo_failed status kind))))"

section \<open>Admission\<close>

record board_request =
  bq_operationId :: string
  bq_requestKey :: "string option"
  bq_kind :: string
  bq_missionId :: string
  bq_missionStatusAtRequest :: "string option"
  bq_agent :: "string option"
  bq_pinnedAgent :: "bool option"
  bq_reviewer :: "string option"
  bq_capabilities :: "string list"
  bq_cancelled :: bool
  bq_operatorInvocation :: "bool option"
  bq_invocation :: "(string \<times> string list) option"
  bq_payload :: bool \<comment> \<open>whether there is one\<close>

record draft_input =
  di_title :: string
  di_labels :: "string list"
  di_status :: string

datatype admission = Admitted workflow_record | Not_admitted terminal_status error_kind

text \<open>What the service is composed with: the repository, the other commands that can run, the choice of an
  agent, the families that may continue, and where drafts come from.\<close>

record workflow_ports =
  wp_repository :: string
  wp_canExecute :: "string \<Rightarrow> bool"
  wp_selectAgent :: "run_fault + string"
  wp_eligibleAgent :: "string \<Rightarrow> bool"
  wp_draftInput :: "(string \<Rightarrow> draft_input option) option"

definition request_key :: "board_request \<Rightarrow> string" where
  "request_key request = default_to (bq_operationId request) (bq_requestKey request)"

definition command_of :: "string \<Rightarrow> workflow_command" where
  "command_of kind = (if kind = ''active:execute'' then Active_execute else if kind = ''draft:create'' then Draft_create
     else if kind = ''review:submit'' then Review_submit else Integrate_merge)"

definition admissionRequestRefusal :: "workflow_ports \<Rightarrow> board_request \<Rightarrow> admission option" where
  "admissionRequestRefusal ports request =
     (if \<not> isWorkflowCommand (bq_kind request) then Some (Not_admitted Ended_rejected Validation_error)
      else if bq_payload request then Some (Not_admitted Ended_rejected Validation_error)
      else if bq_kind request \<notin> set (bq_capabilities request) \<or>
        \<not> (bq_kind request = ''workflow:stop'' \<or> wp_canExecute ports (bq_kind request))
      then Some (Not_admitted Ended_rejected Capability_error)
      else if bq_cancelled request then Some (Not_admitted Ended_cancelled Cancelled_error)
      else if blank (request_key request) \<or> 128 < length (request_key request)
      then Some (Not_admitted Ended_rejected Validation_error)
      else None)"

definition existingAdmission ::
  "workflow_ports \<Rightarrow> workflow_state \<Rightarrow> board_request \<Rightarrow> run_fault + admission option" where
  "existingAdmission ports state request =
     try_bind (map_error Slug_refused (missionId (bq_missionId request))) (\<lambda>mission.
     try_bind (by_request (wp_repository ports) (ws_operations state) mission (request_key request)) (\<lambda>duplicate.
     case duplicate of
       Some record \<Rightarrow> Inr (Some (if command_text (wo_command (wr_operation record)) = bq_kind request
         then Admitted record else Not_admitted Ended_failed Conflict_error))
     | None \<Rightarrow>
         try_bind (current_operation (wp_repository ports) (ws_operations state) mission) (\<lambda>current.
           Inr (if current = None then None else Some (Not_admitted Ended_failed Conflict_error)))))"

definition admissionEligibility :: "board_request \<Rightarrow> mission \<Rightarrow> admission option" where
  "admissionEligibility request mission =
     (if bq_missionStatusAtRequest request \<noteq> None \<and>
        bq_missionStatusAtRequest request \<noteq> Some (status_text (ms_status mission))
      then Some (Not_admitted Ended_failed Conflict_error)
      else
        let reviewMode = (case bq_invocation request of
            Some (command, args) \<Rightarrow> if command = ''review'' then reviewOperation args else Op_status
          | None \<Rightarrow> Op_status) in
        if workflowEligible (command_of (bq_kind request)) mission reviewMode
          (bq_operatorInvocation request = Some True) Absent
        then None else Some (Not_admitted Ended_rejected Validation_error))"

definition resolveActiveAgent :: "workflow_ports \<Rightarrow> board_request \<Rightarrow> mission option \<Rightarrow> run_fault + string" where
  "resolveActiveAgent ports request loaded =
     (if has_text (bq_agent request) then Inr (the (bq_agent request))
      else let owner = (case loaded of
            Some m \<Rightarrow> if ms_status m = Active then ms_assignee m else None | None \<Rightarrow> None) in
        if has_text owner \<and> wp_eligibleAgent ports (the owner) then Inr (the owner)
        else wp_selectAgent ports)"

text \<open>What is observed before the transaction: the agent of an execution and the input of a draft.\<close>

definition prepareAdmission ::
  "(jsnum \<Rightarrow> string) \<Rightarrow> workflow_ports \<Rightarrow> workflow_state \<Rightarrow> board_request \<Rightarrow>
    run_fault + admission + string option \<times> draft_input option" where
  "prepareAdmission nt ports seen request =
     try_bind (map_error Slug_refused (missionId (bq_missionId request))) (\<lambda>mission.
     try_bind (map_error Mission_unreadable (loadAggregate nt (ws_missions seen) mission)) (\<lambda>loaded.
     if loaded = None \<and> bq_kind request \<noteq> ''draft:create'' then Inr (Inl (Not_admitted Ended_failed Unavailable_error))
     else case (case loaded of
           None \<Rightarrow> None
         | Some (m, _) \<Rightarrow> if ms_repositoryId m \<noteq> wp_repository ports then Some (Not_admitted Ended_failed Unavailable_error)
             else admissionEligibility request m) of
         Some refusal \<Rightarrow> Inr (Inl refusal)
       | None \<Rightarrow>
           let draft = (if loaded = None \<and> bq_kind request = ''draft:create''
             then Option.bind (wp_draftInput ports) (\<lambda>input. input (bq_missionId request)) else None) in
           if bq_kind request = ''active:execute''
           then try_bind (resolveActiveAgent ports request (map_option fst loaded)) (\<lambda>agent. Inr (Inr (Some agent, draft)))
           else Inr (Inr (None, draft))))"

definition draft_intake :: "workflow_ports \<Rightarrow> board_request \<Rightarrow> string \<Rightarrow> draft_input \<Rightarrow> intake_request" where
  "draft_intake ports request mission input =
     \<lparr> iq_operationId = bq_operationId request @ '':intake'',
       iq_mission = \<lparr> mi_id = mission, mi_repositoryId = wp_repository ports, mi_title = di_title input,
         mi_labels = Some (di_labels input), mi_assignee = None, mi_description = None,
         mi_rawStatus = Some (di_status input), mi_externalTaskRef = None \<rparr>,
       iq_brief = None, iq_successCriteria = None, iq_dependencies = None, iq_occurredAt = None,
       iq_idempotencyKey = Some (bq_operationId request @ '':intake''), iq_capabilities = [''mission:intake''] \<rparr>"

definition loadForAdmission ::
  "(jsnum \<Rightarrow> string) \<Rightarrow> (string \<Rightarrow> bool) \<Rightarrow> string \<Rightarrow> workflow_ports \<Rightarrow> board_request \<Rightarrow> string \<Rightarrow>
    draft_input option \<Rightarrow> database \<Rightarrow> run_fault + (admission + (mission \<times> nat) option) \<times> database" where
  "loadForAdmission nt owns now ports request mission draft db =
     try_bind (map_error Mission_unreadable (loadAggregate nt db mission)) (\<lambda>loaded.
     if loaded = None \<and> bq_kind request = ''draft:create'' \<and> wp_draftInput ports \<noteq> None
     then (case draft of
         None \<Rightarrow> Inr (Inl (Not_admitted Ended_rejected Validation_error), db)
       | Some input \<Rightarrow>
           if di_status input \<noteq> ''backlog'' then Inr (Inl (Not_admitted Ended_rejected Validation_error), db)
           else if bq_missionStatusAtRequest request \<noteq> None \<and> bq_missionStatusAtRequest request \<noteq> Some ''backlog''
           then Inr (Inl (Not_admitted Ended_failed Conflict_error), db)
           else (case intake nt owns now db db (draft_intake ports request mission input) of
               (Failure status kind, db') \<Rightarrow> Inr (Inl (Not_admitted status kind), db')
             | (Success _, db') \<Rightarrow>
                 try_bind (map_error Mission_unreadable (loadAggregate nt db' mission)) (\<lambda>again. Inr (Inr again, db'))))
     else Inr (Inr loaded, db))"

definition beginReviewPreparation_for ::
  "(jsnum \<Rightarrow> string) \<Rightarrow> (string \<Rightarrow> bool) \<Rightarrow> string \<Rightarrow> database \<Rightarrow> string \<Rightarrow> run_fault + database" where
  "beginReviewPreparation_for nt owns now db slug =
     try_bind (map_error Slug_refused (missionId slug)) (\<lambda>mission.
     try_bind (map_error Mission_unreadable (loadAggregate nt db mission)) (\<lambda>loaded.
     case loaded of
       None \<Rightarrow> Inl Preparation_refused
     | Some (m, version) \<Rightarrow>
         if ms_status m = In_review then Inr db
         else (case transition nt owns db db
             \<lparr> tq_request = \<lparr> cq_operationId = ''review-preparation:'' @ slug, cq_missionId = ms_id m,
                 cq_capabilities = [''mission:transition''], cq_expectedVersion = Some version \<rparr>,
               tq_command = Begin_review_preparation, tq_actor = default_to ''review'' (ms_assignee m),
               tq_occurredAt = now,
               tq_idempotencyKey = Some (''review-preparation:'' @ slug @ '':'' @ decimal version) \<rparr> of
             (Success _, db') \<Rightarrow> Inr db'
           | (Failure _ _, _) \<Rightarrow> Inl Preparation_refused)))"

definition accepted_record ::
  "workflow_ports \<Rightarrow> string \<Rightarrow> board_request \<Rightarrow> mission \<Rightarrow> string option \<Rightarrow> operation_error + workflow_record" where
  "accepted_record ports now request mission agent =
     try_bind (workflowOperation
       \<lparr> wo_activationVersion = None, wo_id = bq_operationId request, wo_repositoryId = wp_repository ports,
         wo_missionId = ms_id mission, wo_requestKey = request_key request, wo_command = command_of (bq_kind request),
         wo_generation = 0, wo_phase = Accepted, wo_providerStarted = False, wo_agent = agent,
         wo_reviewer = bq_reviewer request, wo_originalStatus = ms_status mission,
         wo_previousAssignee = ms_assignee mission, wo_owner = None, wo_launcher = None, wo_createdAt = now,
         wo_updatedAt = now, wo_reason = None \<rparr>) (\<lambda>operation.
       Inr \<lparr> wr_operation = operation, wr_operatorInvocation = bq_operatorInvocation request,
         wr_requestedAgent = bq_agent request, wr_pinnedAgent = bq_pinnedAgent request,
         wr_invocation = bq_invocation request \<rparr>)"

definition accept ::
  "(jsnum \<Rightarrow> string) \<Rightarrow> (string \<Rightarrow> bool) \<Rightarrow> string \<Rightarrow> workflow_ports \<Rightarrow> board_request \<Rightarrow> mission \<Rightarrow> nat \<Rightarrow>
    string option \<Rightarrow> workflow_state \<Rightarrow> run_fault + workflow_record \<times> workflow_state" where
  "accept nt owns now ports request mission version agent state =
     try_bind (map_error Operation_refused (accepted_record ports now request mission agent)) (\<lambda>record.
     try_bind (if command_of (bq_kind request) = Active_execute \<and> has_text agent
         then map_sum Start_failed (\<lambda>(result, db). (record\<lparr>wr_operation :=
             (wr_operation record)\<lparr>wo_activationVersion := Some (int (tn_version result))\<rparr>\<rparr>, db))
           (start_execution nt owns now (ws_missions state) (ms_id mission) (the agent) (bq_operationId request) (Some version))
         else Inr (record, ws_missions state)) (\<lambda>(started, db).
     try_bind (if command_of (bq_kind request) = Review_submit
         then beginReviewPreparation_for nt owns now db (ms_id mission) else Inr db) (\<lambda>db'.
     try_bind (insert_operation (wp_repository ports) (ws_operations state) started) (\<lambda>rows.
     try_bind (publish_operation owns (wp_repository ports) (state\<lparr>ws_operations := rows, ws_missions := db'\<rparr>)
         (wr_operation started) Running ''preparing workflow'' None now) (\<lambda>state'.
       Inr (started, state'))))))"

text \<open>The transaction of an admission. A refusal is returned, not raised: what was written before it stays.\<close>

definition admit_transaction ::
  "(jsnum \<Rightarrow> string) \<Rightarrow> (string \<Rightarrow> bool) \<Rightarrow> string \<Rightarrow> workflow_ports \<Rightarrow> board_request \<Rightarrow> string option \<Rightarrow>
    draft_input option \<Rightarrow> workflow_state \<Rightarrow> run_fault + admission \<times> workflow_state" where
  "admit_transaction nt owns now ports request agent draft state =
     (case admissionRequestRefusal ports request of
        Some refusal \<Rightarrow> Inr (refusal, state)
      | None \<Rightarrow>
          try_bind (map_error Slug_refused (missionId (bq_missionId request))) (\<lambda>mission.
          try_bind (existingAdmission ports state request) (\<lambda>competing.
          case competing of
            Some outcome \<Rightarrow> Inr (outcome, state)
          | None \<Rightarrow>
              try_bind (loadForAdmission nt owns now ports request mission draft (ws_missions state)) (\<lambda>(loaded, db).
                let state' = state\<lparr>ws_missions := db\<rparr> in
                case loaded of
                  Inl outcome \<Rightarrow> Inr (outcome, state')
                | Inr None \<Rightarrow> Inr (Not_admitted Ended_failed Unavailable_error, state')
                | Inr (Some (m, version)) \<Rightarrow>
                    if ms_repositoryId m \<noteq> wp_repository ports
                    then Inr (Not_admitted Ended_failed Unavailable_error, state')
                    else (case admissionEligibility request m of
                        Some ineligible \<Rightarrow> Inr (ineligible, state')
                      | None \<Rightarrow> map_sum id (map_prod Admitted id)
                          (accept nt owns now ports request m version agent state')))))) "

definition fault_outcome :: "run_fault \<Rightarrow> admission" where
  "fault_outcome fault = (case fault of
       Start_failed (Start_refused status kind) \<Rightarrow> Not_admitted status kind
     | _ \<Rightarrow> Not_admitted Ended_failed Execution_error)"

text \<open>Admission reads (\<open>seen\<close>) before it locks and decides again on the state it locked.\<close>

definition admit ::
  "(jsnum \<Rightarrow> string) \<Rightarrow> (string \<Rightarrow> bool) \<Rightarrow> string \<Rightarrow> workflow_ports \<Rightarrow> workflow_state \<Rightarrow> workflow_state \<Rightarrow>
    board_request \<Rightarrow> admission \<times> workflow_state" where
  "admit nt owns now ports seen state request =
     (case admissionRequestRefusal ports request of
        Some refusal \<Rightarrow> (refusal, state)
      | None \<Rightarrow>
          (case existingAdmission ports seen request of
             Inl fault \<Rightarrow> (fault_outcome fault, state)
           | Inr (Some existing) \<Rightarrow> (existing, state)
           | Inr None \<Rightarrow>
               (case prepareAdmission nt ports seen request of
                  Inl fault \<Rightarrow> (fault_outcome fault, state)
                | Inr (Inl outcome) \<Rightarrow> (outcome, state)
                | Inr (Inr (agent, draft)) \<Rightarrow>
                    (case admit_transaction nt owns now ports request agent draft state of
                       Inl fault \<Rightarrow> (fault_outcome fault, state)
                     | Inr result \<Rightarrow> result))))"

section \<open>A command under way\<close>

definition reserveLaunch ::
  "string \<Rightarrow> string \<Rightarrow> process_owner \<Rightarrow> (process_owner \<Rightarrow> bool option) \<Rightarrow> workflow_state \<Rightarrow>
    run_fault + bool \<times> workflow_state" where
  "reserveLaunch repository ident launcher alive state =
     try_bind (get_operation repository (ws_operations state) ident) (\<lambda>found.
     case found of
       None \<Rightarrow> Inr (False, state)
     | Some record \<Rightarrow>
         let operation = wr_operation record in
         if wo_phase operation \<noteq> Accepted \<or> wo_owner operation \<noteq> None then Inr (False, state)
         else if (case wo_launcher operation of None \<Rightarrow> False | Some l \<Rightarrow> alive l \<noteq> Some False) then Inr (False, state)
         else try_bind (replace_operation repository (ws_operations state)
             (record\<lparr>wr_operation := operation\<lparr>wo_launcher := Some launcher\<rparr>\<rparr>) (wo_generation operation)) (\<lambda>rows.
           Inr (True, state\<lparr>ws_operations := rows\<rparr>)))"

definition claim ::
  "(string \<Rightarrow> bool) \<Rightarrow> string \<Rightarrow> string \<Rightarrow> process_owner \<Rightarrow> string \<Rightarrow> workflow_state \<Rightarrow> run_fault + workflow_record option \<times> workflow_state" where
  "claim owns repository ident owner now state =
     try_bind (get_operation repository (ws_operations state) ident) (\<lambda>found.
     case found of
       None \<Rightarrow> Inr (None, state)
     | Some pending \<Rightarrow>
         let operation = wr_operation pending in
         if wo_phase operation \<noteq> Accepted \<or> wo_owner operation \<noteq> None then Inr (None, state)
         else try_bind (map_error Operation_refused (claimWorkflow operation owner now)) (\<lambda>claimed.
           let record = pending\<lparr>wr_operation := claimed\<rparr> in
           try_bind (replace_and_publish owns repository state record (wo_generation operation) Running ''preparing workflow'' now)
             (\<lambda>state'. Inr (Some record, state'))))"

text \<open>What the process that ran the command records when it ends: whether it completed, and the error.\<close>

definition finish ::
  "(jsnum \<Rightarrow> string) \<Rightarrow> (string \<Rightarrow> bool) \<Rightarrow> string \<Rightarrow> string \<Rightarrow> int \<Rightarrow> bool \<Rightarrow> string option \<Rightarrow> string \<Rightarrow> workflow_state \<Rightarrow>
    run_fault + workflow_state" where
  "finish nt owns repository ident generation success reason now state =
     try_bind (get_operation repository (ws_operations state) ident) (\<lambda>found.
     case found of
       None \<Rightarrow> Inr state
     | Some current \<Rightarrow>
         let operation = wr_operation current in
         if wo_generation operation \<noteq> generation \<or> wo_phase operation = Stopping \<or> \<not> isOpenWorkflow operation
         then Inr state
         else try_bind (if \<not> success \<and> \<not> wo_providerStarted operation
             then map_sum Start_failed id (compensate nt owns now (ws_missions state) operation)
             else Inr (ws_missions state)) (\<lambda>db.
           try_bind (map_error Operation_refused (finishWorkflow operation generation success reason now)) (\<lambda>ended.
             replace_and_publish owns repository (state\<lparr>ws_missions := db\<rparr>) (current\<lparr>wr_operation := ended\<rparr>) (wo_generation operation)
               (if wo_phase ended = Completed then Ended else Activity_blocked)
               (default_to ''workflow completed'' (wo_reason ended)) now)))"

text \<open>The operation that runs under a generation, for everything its process does in between.\<close>

definition owned_operation :: "string \<Rightarrow> workflow_state \<Rightarrow> string \<Rightarrow> int \<Rightarrow> run_fault + workflow_record" where
  "owned_operation repository state ident generation =
     try_bind (get_operation repository (ws_operations state) ident) (\<lambda>found.
     case found of
       None \<Rightarrow> Inl Owner_missing_fault
     | Some record \<Rightarrow>
         try_bind (map_error Operation_refused (requireWorkflowOwner (wr_operation record) generation)) (\<lambda>_. Inr record))"

definition owner_activity ::
  "(string \<Rightarrow> bool) \<Rightarrow> string \<Rightarrow> string \<Rightarrow> int \<Rightarrow> activity \<Rightarrow> string \<Rightarrow> workflow_state \<Rightarrow> run_fault + workflow_state" where
  "owner_activity owns repository ident generation event sourceId state =
     try_bind (owned_operation repository state ident generation) (\<lambda>record.
       let operation = wr_operation record; owner = the (wo_owner operation) in
       if ea_operationId event \<noteq> wo_id operation \<or> ea_missionId event \<noteq> wo_missionId operation then Inl Foreign_execution
       else publish_activity owns repository state
         (if ea_processId event = Some (ow_pid owner) \<and> \<not> has_text (given (ea_processIdentity event))
          then event\<lparr>ea_processIdentity := Present (ow_identity owner)\<rparr> else event) sourceId)"

definition provider_started ::
  "string \<Rightarrow> string \<Rightarrow> int \<Rightarrow> string \<Rightarrow> workflow_state \<Rightarrow> run_fault + workflow_state" where
  "provider_started repository ident generation agent state =
     try_bind (owned_operation repository state ident generation) (\<lambda>record.
     try_bind (replace_operation repository (ws_operations state)
         (record\<lparr>wr_operation := (wr_operation record)\<lparr>wo_providerStarted := True, wo_agent := Some agent\<rparr>\<rparr>) generation) (\<lambda>rows.
       Inr (state\<lparr>ws_operations := rows\<rparr>)))"

definition startup_failed ::
  "(jsnum \<Rightarrow> string) \<Rightarrow> (string \<Rightarrow> bool) \<Rightarrow> string \<Rightarrow> string \<Rightarrow> string \<Rightarrow> string \<Rightarrow> workflow_state \<Rightarrow>
    run_fault + workflow_state" where
  "startup_failed nt owns repository ident reason now state =
     try_bind (get_operation repository (ws_operations state) ident) (\<lambda>found.
     case found of
       None \<Rightarrow> Inr state
     | Some record \<Rightarrow>
         let operation = wr_operation record in
         if wo_phase operation \<noteq> Accepted \<or> wo_owner operation \<noteq> None then Inr state
         else try_bind (map_sum Start_failed id (compensate nt owns now (ws_missions state) operation)) (\<lambda>db.
           replace_and_publish owns repository (state\<lparr>ws_missions := db\<rparr>)
             (record\<lparr>wr_operation := operation\<lparr>wo_phase := Blocked, wo_reason := Some reason, wo_updatedAt := now\<rparr>\<rparr>)
             (wo_generation operation) Activity_blocked reason now))"

text \<open>A recovery pass that saw the operation under a generation and whose owner is dead (\<open>True\<close>) or uncertain.\<close>

definition lose_owner ::
  "(string \<Rightarrow> bool) \<Rightarrow> string \<Rightarrow> string \<Rightarrow> int \<Rightarrow> bool \<Rightarrow> string \<Rightarrow> workflow_state \<Rightarrow> run_fault + workflow_state" where
  "lose_owner owns repository ident generation known_dead now state =
     try_bind (get_operation repository (ws_operations state) ident) (\<lambda>found.
     case found of
       None \<Rightarrow> Inr state
     | Some current \<Rightarrow>
         let operation = wr_operation current in
         if wo_generation operation \<noteq> generation \<or> wo_phase operation = Stopping \<or> \<not> isOpenWorkflow operation
         then Inr state
         else try_bind (map_error Operation_refused (loseWorkflowOwner operation (wo_generation operation) known_dead now)) (\<lambda>lost.
           replace_and_publish owns repository state (current\<lparr>wr_operation := lost\<rparr>) (wo_generation operation)
             Activity_blocked (the (wo_reason lost)) now))"

section \<open>Stopping\<close>

definition request_stop ::
  "(string \<Rightarrow> bool) \<Rightarrow> string \<Rightarrow> string \<Rightarrow> string option \<Rightarrow> string \<Rightarrow> workflow_state \<Rightarrow>
    run_fault + workflow_record option \<times> workflow_state" where
  "request_stop owns repository mission ident now state =
     try_bind (current_operation repository (ws_operations state) mission) (\<lambda>found.
     case found of
       None \<Rightarrow> Inr (None, state)
     | Some current \<Rightarrow>
         if has_text ident \<and> Some (wo_id (wr_operation current)) \<noteq> ident then Inr (None, state)
         else try_bind (map_error Operation_refused (requestWorkflowStop (wr_operation current) now)) (\<lambda>stopping.
           let record = current\<lparr>wr_operation := stopping\<rparr> in
           try_bind (replace_and_publish owns repository state record (wo_generation (wr_operation current)) Running
             ''waiting for owned workflow to stop'' now) (\<lambda>state'. Inr (Some record, state'))))"

definition settle_stop ::
  "(string \<Rightarrow> bool) \<Rightarrow> string \<Rightarrow> string \<Rightarrow> int \<Rightarrow> string \<Rightarrow> workflow_state \<Rightarrow> run_fault + workflow_state" where
  "settle_stop owns repository ident generation now state =
     try_bind (get_operation repository (ws_operations state) ident) (\<lambda>found.
     case found of
       None \<Rightarrow> Inl Stop_changed
     | Some current \<Rightarrow>
         let operation = wr_operation current in
         if wo_phase operation = Stopped then Inr state
         else if wo_generation operation \<noteq> generation \<or> wo_phase operation \<noteq> Stopping then Inl Stop_changed
         else try_bind (map_error Operation_refused (settleWorkflowStop operation now)) (\<lambda>stopped.
           replace_and_publish owns repository state (current\<lparr>wr_operation := stopped\<rparr>) (wo_generation operation) Ended
             ''workflow stopped; mission retained'' now))"

definition pending_stop ::
  "string \<Rightarrow> string \<Rightarrow> int \<Rightarrow> string \<Rightarrow> string \<Rightarrow> workflow_state \<Rightarrow> run_fault + workflow_state" where
  "pending_stop repository ident generation reason now state =
     try_bind (get_operation repository (ws_operations state) ident) (\<lambda>found.
     case found of
       None \<Rightarrow> Inr state
     | Some current \<Rightarrow>
         let operation = wr_operation current in
         if wo_phase operation \<noteq> Stopping \<or> wo_generation operation \<noteq> generation then Inr state
         else try_bind (replace_operation repository (ws_operations state)
             (current\<lparr>wr_operation := operation\<lparr>wo_reason := Some reason, wo_updatedAt := now\<rparr>\<rparr>) (wo_generation operation)) (\<lambda>rows.
           Inr (state\<lparr>ws_operations := rows\<rparr>)))"

section \<open>Writing missions under a command\<close>

text \<open>The authorization of a process that runs an operation: it writes its own mission, while its generation
  executes. It is read in the transaction of the write.\<close>

definition workflow_authorized ::
  "operation_row list \<Rightarrow> string \<Rightarrow> string \<Rightarrow> int \<Rightarrow> string \<Rightarrow> bool" where
  "workflow_authorized rows own_mission ident generation mission \<longleftrightarrow> mission = own_mission \<and>
     (case find_first (\<lambda>row. or_id row = ident) rows of
        None \<Rightarrow> False
      | Some row \<Rightarrow> is_ok (requireWorkflowOwner (wr_operation (or_record row)) generation))"

section \<open>The steps of all processes\<close>

datatype workflow_transaction =
    Step_admit string board_request "string option" "draft_input option"
  | Step_reserve string process_owner "process_owner \<Rightarrow> bool option"
  | Step_claim string process_owner string
  | Step_finish string int bool "string option" string
  | Step_activity string int activity string
  | Step_provider string int string
  | Step_startup_failed string string string
  | Step_lose string int bool string
  | Step_request_stop string "string option" string
  | Step_settle_stop string int string
  | Step_pending_stop string int string string
  | Step_write bool mission "nat option" "lane_event option"

fun workflow_step ::
  "(jsnum \<Rightarrow> string) \<Rightarrow> (string \<Rightarrow> bool) \<Rightarrow> workflow_ports \<Rightarrow> workflow_state \<Rightarrow> workflow_transaction \<Rightarrow>
    run_fault + workflow_state" where
  "workflow_step nt owns ports s (Step_admit now request agent draft) =
     map_sum id snd (admit_transaction nt owns now ports request agent draft s)"
| "workflow_step nt owns ports s (Step_reserve i launcher alive) =
     map_sum id snd (reserveLaunch (wp_repository ports) i launcher alive s)"
| "workflow_step nt owns ports s (Step_claim i owner now) = map_sum id snd (claim owns (wp_repository ports) i owner now s)"
| "workflow_step nt owns ports s (Step_finish i g success reason now) =
     finish nt owns (wp_repository ports) i g success reason now s"
| "workflow_step nt owns ports s (Step_activity i g event source) = owner_activity owns (wp_repository ports) i g event source s"
| "workflow_step nt owns ports s (Step_provider i g agent) = provider_started (wp_repository ports) i g agent s"
| "workflow_step nt owns ports s (Step_startup_failed i reason now) =
     startup_failed nt owns (wp_repository ports) i reason now s"
| "workflow_step nt owns ports s (Step_lose i g dead now) = lose_owner owns (wp_repository ports) i g dead now s"
| "workflow_step nt owns ports s (Step_request_stop mission i now) =
     map_sum id snd (request_stop owns (wp_repository ports) mission i now s)"
| "workflow_step nt owns ports s (Step_settle_stop i g now) = settle_stop owns (wp_repository ports) i g now s"
| "workflow_step nt owns ports s (Step_pending_stop i g reason now) = pending_stop (wp_repository ports) i g reason now s"
| "workflow_step nt owns ports s (Step_write owned m e event) =
     map_sum Write_failed (\<lambda>db. s\<lparr>ws_missions := db\<rparr>) (store_write (ws_missions s) (owned, m, e, event))"

text \<open>A process takes its step under the authorization (\<open>owns\<close>) it was configured with.\<close>

definition process_step ::
  "(jsnum \<Rightarrow> string) \<Rightarrow> workflow_ports \<Rightarrow> workflow_state \<Rightarrow> (string \<Rightarrow> bool) \<times> workflow_transaction \<Rightarrow>
    run_fault + workflow_state" where
  "process_step nt ports s process = workflow_step nt (fst process) ports s (snd process)"

section \<open>Lemmas\<close>

text \<open>A row and its record agree, and the operation is one the domain accepts.\<close>

definition row_ok :: "operation_row \<Rightarrow> bool" where
  "row_ok row \<longleftrightarrow> (let operation = wr_operation (or_record row) in
     or_id row = wo_id operation \<and> or_repository_id row = wo_repositoryId operation \<and>
     or_mission_id row = wo_missionId operation \<and> or_request_key row = wo_requestKey operation \<and>
     or_generation row = wo_generation operation \<and> or_phase row = wo_phase operation \<and> operation_ok operation)"

definition table_ok :: "operation_row list \<Rightarrow> bool" where
  "table_ok rows \<longleftrightarrow> rows_valid rows \<and> (\<forall>row\<in>set rows. row_ok row)"

definition same_operation :: "workflow_operation \<Rightarrow> workflow_operation \<Rightarrow> bool" where
  "same_operation v w \<longleftrightarrow> wo_id v = wo_id w \<and> wo_repositoryId v = wo_repositoryId w \<and> wo_missionId v = wo_missionId w \<and>
     wo_requestKey v = wo_requestKey w \<and> wo_command v = wo_command w"

text \<open>What may become of an operation: a step of its machine, a note that changes neither phase, owner nor
  generation, or a start that failed before it was claimed.\<close>

definition operation_change :: "workflow_operation \<Rightarrow> workflow_operation \<Rightarrow> bool" where
  "operation_change v w \<longleftrightarrow> same_operation v w \<and>
     ((\<exists>c. operation_step v c = Inr w) \<or>
      (wo_phase w = wo_phase v \<and> wo_generation w = wo_generation v \<and> wo_owner w = wo_owner v) \<or>
      (wo_phase v = Accepted \<and> wo_owner v = None \<and> wo_phase w = Blocked \<and> wo_generation w = wo_generation v \<and> wo_owner w = None))"

definition changes_one :: "operation_row list \<Rightarrow> operation_row list \<Rightarrow> bool" where
  "changes_one rows rows' \<longleftrightarrow> (\<exists>before row after record.
     rows = before @ row # after \<and>
     rows' = before @ updated_row record row # after \<and>
     operation_change (wr_operation (or_record row)) (wr_operation record) \<and> rows_valid rows')"

text \<open>The new operation is accepted intent, and its mission has no open one.\<close>

definition adds_one :: "operation_row list \<Rightarrow> operation_row list \<Rightarrow> bool" where
  "adds_one rows rows' \<longleftrightarrow> (\<exists>row. rows' = rows @ [row] \<and> row_ok row \<and> or_phase row = Accepted \<and> or_generation row = 0 \<and>
     (\<forall>r\<in>set rows. or_repository_id r = or_repository_id row \<and> or_mission_id r = or_mission_id row \<longrightarrow> \<not> open_phase (or_phase r)) \<and>
     rows_valid rows')"

lemma first_operation_row:
  assumes "first_operation repository rows chosen = Inr (Some record)"
  obtains row where "row \<in> set rows" "chosen row" "or_repository_id row = repository" "or_record row = record"
    "wo_repositoryId (wr_operation record) = repository"
proof -
  let ?found = "filter (\<lambda>row. or_repository_id row = repository \<and> chosen row) rows"
  obtain found where f: "try_map (readOperation repository) ?found = Inr found" "nth_opt found 0 = Some record"
    using assms by (auto simp: first_operation_def read_operations_def map_sum_Inr)
  then have all: "list_all2 (\<lambda>row r. readOperation repository row = Inr r) ?found found" by (simp add: try_map_Inr)
  have found: "0 < length found" "found ! 0 = record" using f(2) by (auto simp: nth_opt_def split: if_splits)
  then have "0 < length ?found" using list_all2_lengthD[OF all] by simp
  then have "?found ! 0 \<in> set ?found" "readOperation repository (?found ! 0) = Inr record"
    using list_all2_nthD[OF all, of 0] found(2) by (simp_all only: nth_mem)
  then show ?thesis using that[of "?found ! 0"] by (auto simp: readOperation_def Let_def split: if_splits)
qed

lemma first_operation_None:
  assumes "first_operation repository rows chosen = Inr None" and "row \<in> set rows" and "or_repository_id row = repository"
  shows "\<not> chosen row"
proof
  assume c: "chosen row"
  let ?found = "filter (\<lambda>row. or_repository_id row = repository \<and> chosen row) rows"
  obtain found where f: "try_map (readOperation repository) ?found = Inr found" "nth_opt found 0 = None"
    using assms(1) by (auto simp: first_operation_def read_operations_def map_sum_Inr)
  then have "length ?found = 0" by (auto simp: nth_opt_def dest!: try_map_length split: if_splits)
  moreover have "row \<in> set ?found" using assms(2,3) c by simp
  ultimately show False by auto
qed

lemmas get_operation_row = first_operation_row[of _ _ "\<lambda>row. or_id row = i" for i, folded get_operation_def]
lemmas current_operation_row =
  first_operation_row[of _ _ "\<lambda>row. or_mission_id row = mission \<and> open_phase (or_phase row)" for mission, folded current_operation_def]

lemma replaces_one:
  assumes ok: "table_ok rows" and row: "row \<in> set rows" "or_repository_id row = repository" "or_record row = old"
    and change: "operation_change (wr_operation old) (wr_operation record)"
    and replace: "replace_operation repository rows record (wo_generation (wr_operation old)) = Inr rows'"
  shows "changes_one rows rows'"
proof -
  obtain before after where split: "rows = before @ row # after" using row(1) by (auto simp: in_set_conv_decomp)
  have ids: "distinct (map or_id rows)" using ok by (simp add: table_ok_def rows_valid_def)
  have "row_ok row" using ok row(1) by (simp add: table_ok_def)
  moreover have "same_operation (wr_operation old) (wr_operation record)" using change by (simp add: operation_change_def)
  ultimately have r: "or_id row = wo_id (wr_operation record)" "or_generation row = wo_generation (wr_operation old)"
    using row(3) by (simp_all add: row_ok_def Let_def same_operation_def)
  let ?p = "replaced_row repository record (wo_generation (wr_operation old))"
  have p: "?p row" using r row(2) by (simp add: replaced_row_def)
  have others: "\<not> ?p t" if "t \<in> set before \<union> set after" for t
  proof -
    have "or_id row \<notin> or_id ` (set before \<union> set after)" using ids by (simp add: split image_Un)
    moreover have "or_id t \<in> or_id ` (set before \<union> set after)" using that by (rule imageI)
    ultimately have "or_id t \<noteq> or_id row" by metis
    then show ?thesis using r(1) by (simp add: replaced_row_def)
  qed
  have "rows' = map (\<lambda>t. if ?p t then updated_row record t else t) rows" and valid: "rows_valid rows'"
    using replace by (auto simp: replace_operation_def Let_def split: if_splits)
  then have "rows' = before @ updated_row record row # after"
    using p others by (auto simp: split intro!: map_idI)
  then show ?thesis using split change valid row(3) unfolding changes_one_def by metis
qed

lemma operation_change_ok:
  assumes ok: "operation_ok v" and change: "operation_change v w"
  shows "operation_ok w"
proof -
  consider c where "operation_step v c = Inr w"
    | "wo_phase w = wo_phase v" "wo_generation w = wo_generation v" "wo_owner w = wo_owner v"
    | "wo_phase w = Blocked" "wo_generation w = wo_generation v"
    using change unfolding operation_change_def by blast
  then show ?thesis
  proof cases
    case 1
    show ?thesis using operation_ranks.step_inv[OF ok 1] .
  qed (use ok in \<open>simp_all add: operation_ok_def\<close>)
qed

definition table_effect :: "operation_row list \<Rightarrow> operation_row list \<Rightarrow> bool" where
  "table_effect rows rows' \<longleftrightarrow> rows' = rows \<or> changes_one rows rows' \<or> adds_one rows rows'"

lemma changed_row_ok:
  assumes row: "row_ok row" and change: "operation_change (wr_operation (or_record row)) (wr_operation record)"
  shows "row_ok (updated_row record row)"
proof -
  have "operation_ok (wr_operation record)" using operation_change_ok[OF _ change] row by (simp add: row_ok_def Let_def)
  moreover have "same_operation (wr_operation (or_record row)) (wr_operation record)"
    using change by (simp add: operation_change_def)
  ultimately show ?thesis using row by (simp add: row_ok_def Let_def updated_row_def same_operation_def)
qed

lemma effect_table_ok: "table_ok rows \<Longrightarrow> table_effect rows rows' \<Longrightarrow> table_ok rows'"
  unfolding table_effect_def
proof (elim disjE)
  assume ok: "table_ok rows" and change: "changes_one rows rows'"
  obtain before row after new where c: "rows = before @ row # after" "rows' = before @ updated_row new row # after"
    "operation_change (wr_operation (or_record row)) (wr_operation new)" "rows_valid rows'"
    using change unfolding changes_one_def by blast
  then have "row_ok (updated_row new row)" using ok changed_row_ok by (simp add: table_ok_def)
  then show "table_ok rows'" using ok c(1,2,4) by (simp add: table_ok_def)
qed (auto simp: adds_one_def table_ok_def)

lemma publish_keeps:
  "publish_activity owns repository s event source = Inr s' \<Longrightarrow>
    ws_operations s' = ws_operations s \<and> ws_missions s' = ws_missions s"
  by (auto simp: publish_activity_def Let_def split: sum.splits option.splits if_splits)

lemma publish_operation_keeps:
  "publish_operation owns repository s w shown summary p now = Inr s' \<Longrightarrow>
    ws_operations s' = ws_operations s \<and> ws_missions s' = ws_missions s"
  by (auto simp: publish_operation_def try_bind_Inr dest!: publish_keeps)

lemma replace_and_publish_rows:
  "replace_and_publish owns repository s record g shown summary now = Inr s' \<Longrightarrow>
    replace_operation repository (ws_operations s) record g = Inr (ws_operations s') \<and> ws_missions s' = ws_missions s"
  by (auto simp: replace_and_publish_def try_bind_Inr dest!: publish_operation_keeps)

text \<open>Every replacement of an operation that was read and changed as it may be has the effect of one change.\<close>

lemma replaced_effect:
  assumes ok: "table_ok rows" and get: "get_operation repository rows i = Inr (Some old)"
    and change: "operation_change (wr_operation old) (wr_operation record)"
    and replace: "replace_operation repository rows record (wo_generation (wr_operation old)) = Inr rows'"
  shows "table_effect rows rows'"
proof -
  from get obtain row where "row \<in> set rows" "or_repository_id row = repository" "or_record row = old"
    by (auto elim: get_operation_row)
  then show ?thesis using replaces_one[OF ok _ _ _ change replace] by (auto simp: table_effect_def)
qed

lemma step_change: "operation_step v c = Inr w \<Longrightarrow> operation_change v w"
  by (cases c) (auto simp: operation_change_def same_operation_def claimWorkflow_def finishWorkflow_def
      requestWorkflowStop_def loseWorkflowOwner_def settleWorkflowStop_def try_bind_Inr split: if_splits
      intro: exI[of _ c])

section \<open>The effect of every transaction on the table\<close>

lemmas run_inverts = try_bind_Inr map_sum_Inr map_error_Inr

lemma machine_effect:
  assumes "table_ok rows" and "get_operation repository rows i = Inr (Some old)"
    and "operation_step (wr_operation old) c = Inr w"
    and "replace_operation repository rows (old\<lparr>wr_operation := w\<rparr>) (wo_generation (wr_operation old)) = Inr rows'"
  shows "table_effect rows rows'"
  using replaced_effect[OF assms(1,2) _ assms(4)] step_change[OF assms(3)] by simp

lemma note_change:
  "wo_phase w = wo_phase v \<Longrightarrow> wo_generation w = wo_generation v \<Longrightarrow> wo_owner w = wo_owner v \<Longrightarrow> same_operation v w \<Longrightarrow>
    operation_change v w"
  by (simp add: operation_change_def)

lemma note_effect:
  assumes "table_ok rows" and "get_operation repository rows i = Inr (Some old)"
    and "wo_phase w = wo_phase (wr_operation old)" "wo_generation w = wo_generation (wr_operation old)"
      "wo_owner w = wo_owner (wr_operation old)" "same_operation (wr_operation old) w"
    and "replace_operation repository rows (old\<lparr>wr_operation := w\<rparr>) (wo_generation (wr_operation old)) = Inr rows'"
  shows "table_effect rows rows'"
  using replaced_effect[OF assms(1,2) _ assms(7)] note_change[OF assms(3-6)] by simp

lemma no_effect [simp]: "table_effect rows rows"
  by (simp add: table_effect_def)

lemma with_operation:
  assumes "try_bind (get_operation repository rows i) k = Inr y"
  obtains (none) "get_operation repository rows i = Inr None" "k None = Inr y"
    | (some) old where "get_operation repository rows i = Inr (Some old)" "k (Some old) = Inr y"
proof -
  obtain found where f: "get_operation repository rows i = Inr found" "k found = Inr y"
    using assms by (auto simp: try_bind_Inr)
  then show ?thesis using that by (cases found) auto
qed

lemma reserve_effect:
  assumes "table_ok (ws_operations s)" and "reserveLaunch repository i launcher alive s = Inr (b, s')"
  shows "table_effect (ws_operations s) (ws_operations s')"
  using assms(2) unfolding reserveLaunch_def
  by (rule with_operation) (auto simp: Let_def run_inverts same_operation_def split: if_splits option.splits
      elim!: note_effect[OF assms(1), rotated -1])

lemma claim_effect:
  assumes "table_ok (ws_operations s)" and "claim owns repository i owner now s = Inr (r, s')"
  shows "table_effect (ws_operations s) (ws_operations s')"
  using assms(2) unfolding claim_def
  by (rule with_operation) (auto simp: Let_def run_inverts split: if_splits dest!: replace_and_publish_rows
      intro: machine_effect[OF assms(1), where c = "Claim owner now"])

lemma finish_effect:
  assumes "table_ok (ws_operations s)" and "finish nt owns repository i g success reason now s = Inr s'"
  shows "table_effect (ws_operations s) (ws_operations s')"
  using assms(2) unfolding finish_def
  by (rule with_operation) (auto simp: Let_def run_inverts split: if_splits dest!: replace_and_publish_rows
      intro: machine_effect[OF assms(1), where c = "Finish g success reason now"])

lemma lose_effect:
  assumes "table_ok (ws_operations s)" and "lose_owner owns repository i g dead now s = Inr s'"
  shows "table_effect (ws_operations s) (ws_operations s')"
  using assms(2) unfolding lose_owner_def
  by (rule with_operation) (auto simp: Let_def run_inverts split: if_splits dest!: replace_and_publish_rows
      intro: machine_effect[OF assms(1), where c = "Lose_owner g dead now"])

lemma settle_effect:
  assumes "table_ok (ws_operations s)" and "settle_stop owns repository i g now s = Inr s'"
  shows "table_effect (ws_operations s) (ws_operations s')"
  using assms(2) unfolding settle_stop_def
  by (rule with_operation) (auto simp: Let_def run_inverts split: if_splits dest!: replace_and_publish_rows
      intro: machine_effect[OF assms(1), where c = "Settle_stop now"])

lemma current_operation_get:
  assumes "table_ok rows" and "current_operation repository rows mission = Inr (Some record)"
  shows "\<exists>row\<in>set rows. or_repository_id row = repository \<and> or_record row = record \<and> or_mission_id row = mission"
  using assms(2) by (auto elim: current_operation_row)

lemma request_stop_effect:
  assumes ok: "table_ok (ws_operations s)" and run: "request_stop owns repository mission i now s = Inr (r, s')"
  shows "table_effect (ws_operations s) (ws_operations s')"
proof -
  obtain found where f: "current_operation repository (ws_operations s) mission = Inr found"
    using run by (auto simp: request_stop_def try_bind_Inr)
  show ?thesis
  proof (cases found)
    case None
    then show ?thesis using run f by (simp add: request_stop_def)
  next
    case (Some current)
    then obtain row where row: "row \<in> set (ws_operations s)" "or_repository_id row = repository" "or_record row = current"
      using current_operation_get[OF ok] f by blast
    show ?thesis using run f Some
      by (auto simp: request_stop_def Let_def run_inverts table_effect_def split: if_splits dest!: replace_and_publish_rows
          elim!: replaces_one[OF ok row, rotated -1] intro: step_change[where c = "Request_stop now"])
  qed
qed

lemma pending_stop_effect:
  assumes "table_ok (ws_operations s)" and "pending_stop repository i g reason now s = Inr s'"
  shows "table_effect (ws_operations s) (ws_operations s')"
  using assms(2) unfolding pending_stop_def
  by (rule with_operation) (auto simp: Let_def run_inverts same_operation_def split: if_splits
      elim!: note_effect[OF assms(1), rotated -1])

lemma owned_operation_get:
  "owned_operation repository s i g = Inr current \<Longrightarrow>
    get_operation repository (ws_operations s) i = Inr (Some current) \<and> wo_generation (wr_operation current) = g \<and>
    wo_phase (wr_operation current) = Executing"
  unfolding owned_operation_def
  by (erule with_operation) (auto simp: run_inverts requireWorkflowOwner_def split: if_splits)

lemma provider_effect:
  assumes ok: "table_ok (ws_operations s)" and run: "provider_started repository i g agent s = Inr s'"
  shows "table_effect (ws_operations s) (ws_operations s')"
proof -
  obtain current where c: "owned_operation repository s i g = Inr current"
    "replace_operation repository (ws_operations s) (current\<lparr>wr_operation :=
      (wr_operation current)\<lparr>wo_providerStarted := True, wo_agent := Some agent\<rparr>\<rparr>) g = Inr (ws_operations s')"
    using run by (auto simp: provider_started_def run_inverts)
  show ?thesis using owned_operation_get[OF c(1)] c(2)
    by (auto elim!: note_effect[OF ok, rotated -1] simp: same_operation_def)
qed

lemma startup_effect:
  assumes "table_ok (ws_operations s)" and "startup_failed nt owns repository i reason now s = Inr s'"
  shows "table_effect (ws_operations s) (ws_operations s')"
  using assms(2) unfolding startup_failed_def
  by (rule with_operation) (auto simp: Let_def run_inverts operation_change_def same_operation_def split: if_splits
      dest!: replace_and_publish_rows elim!: replaced_effect[OF assms(1), rotated -1])

lemma activity_effect: "owner_activity owns repository i g event source s = Inr s' \<Longrightarrow> ws_operations s' = ws_operations s"
  by (auto simp: owner_activity_def run_inverts Let_def split: if_splits dest!: publish_keeps)

lemma added_alone:
  assumes valid: "rows_valid (rows @ [row])" and mine: "open_phase (or_phase row)"
    and r: "r \<in> set rows" "or_repository_id r = or_repository_id row" "or_mission_id r = or_mission_id row"
  shows "\<not> open_phase (or_phase r)"
proof
  assume "open_phase (or_phase r)"
  then have "(or_repository_id row, or_mission_id row) \<in>
      (\<lambda>row. (or_repository_id row, or_mission_id row)) ` {row \<in> set rows. open_phase (or_phase row)}"
    using r by (metis (mono_tags, lifting) imageI mem_Collect_eq)
  then show False using valid mine by (simp add: rows_valid_def)
qed

lemma inserted_effect:
  assumes "insert_operation repository rows record = Inr rows'" and "operation_ok (wr_operation record)"
    and "wo_phase (wr_operation record) = Accepted" "wo_repositoryId (wr_operation record) = repository"
  shows "table_effect rows rows'"
proof -
  obtain row where row: "rows' = rows @ [row]" "rows_valid rows'" "row_ok row" "or_phase row = Accepted" "or_generation row = 0"
    using assms by (auto simp: insert_operation_def Let_def row_ok_def operation_ok_def split: if_splits)
  then have "adds_one rows rows'"
    unfolding adds_one_def using added_alone[of rows row] by (auto simp: open_phase_def)
  then show ?thesis by (simp add: table_effect_def)
qed

lemma accepted_record_ok:
  "accepted_record ports now request m agent = Inr record \<Longrightarrow> operation_ok (wr_operation record) \<and>
    wo_phase (wr_operation record) = Accepted \<and> wo_repositoryId (wr_operation record) = wp_repository ports"
  by (auto simp: accepted_record_def run_inverts workflowOperation_def operation_ok_def split: if_splits)

lemma accept_effect:
  assumes "accept nt owns now ports request m version agent s = Inr (record, s')"
  shows "table_effect (ws_operations s) (ws_operations s')"
  using assms
  by (auto simp: accept_def run_inverts operation_ok_def split: if_splits
      dest!: publish_operation_keeps accepted_record_ok elim!: inserted_effect)

lemma try_bind_InrE: "try_bind m k = Inr y \<Longrightarrow> (\<And>x. m = Inr x \<Longrightarrow> k x = Inr y \<Longrightarrow> P) \<Longrightarrow> P"
  by (auto simp: try_bind_Inr)

lemma admit_effect:
  assumes "admit_transaction nt owns now ports request agent draft s = Inr (r, s')"
  shows "table_effect (ws_operations s) (ws_operations s')"
  using assms unfolding admit_transaction_def
  by (auto simp: Let_def map_sum_Inr elim!: try_bind_InrE split: option.splits sum.splits prod.splits if_splits
      dest!: accept_effect)

lemma step_effect:
  assumes ok: "table_ok (ws_operations s)" and step: "workflow_step nt owns ports s c = Inr s'"
  shows "table_effect (ws_operations s) (ws_operations s')"
  using step
  by (cases c) (auto simp: map_sum_Inr activity_effect intro: admit_effect reserve_effect[OF ok] claim_effect[OF ok]
      finish_effect[OF ok] provider_effect[OF ok] startup_effect[OF ok] lose_effect[OF ok] request_stop_effect[OF ok]
      settle_effect[OF ok] pending_stop_effect[OF ok])

interpretation workflow_runs: guarded_machine "process_step nt ports" "\<lambda>s. table_ok (ws_operations s)" for nt ports
  by unfold_locales (unfold process_step_def, blast intro: effect_table_ok step_effect)

text \<open>An operation that stops or has ended: it is not executing and cannot be claimed.\<close>

definition fenced_off :: "string \<Rightarrow> operation_row list \<Rightarrow> bool" where
  "fenced_off ident rows \<longleftrightarrow> (\<exists>row\<in>set rows. or_id row = ident \<and> or_phase row \<notin> {Accepted, Executing})"

lemma fenced_change:
  assumes "operation_change v w" and "wo_phase v \<notin> {Accepted, Executing}"
  shows "wo_phase w \<notin> {Accepted, Executing}"
proof -
  consider c where "operation_step v c = Inr w" | "wo_phase w = wo_phase v" | "wo_phase w = Blocked"
    using assms(1) unfolding operation_change_def by blast
  then show ?thesis
  proof cases
    case 1
    show ?thesis using operation_step_cases[OF 1] assms(2) by auto
  qed (use assms(2) in simp_all)
qed

lemma fenced_effect:
  assumes ok: "table_ok rows" and effect: "table_effect rows rows'" and off: "fenced_off i rows"
  shows "fenced_off i rows'"
  using effect unfolding table_effect_def
proof (elim disjE)
  assume "changes_one rows rows'"
  then obtain before row after new where c: "rows = before @ row # after" "rows' = before @ updated_row new row # after"
    "operation_change (wr_operation (or_record row)) (wr_operation new)"
    unfolding changes_one_def by blast
  have "or_phase row = wo_phase (wr_operation (or_record row))" using ok c(1) by (simp add: table_ok_def row_ok_def Let_def)
  then have "or_phase row \<notin> {Accepted, Executing} \<Longrightarrow> wo_phase (wr_operation new) \<notin> {Accepted, Executing}"
    using fenced_change[OF c(3)] by simp
  then show ?thesis using off unfolding fenced_off_def c(1,2) by (auto simp: updated_row_def)
qed (use off in \<open>auto simp: adds_one_def fenced_off_def\<close>)

interpretation fenced_runs:
  guarded_machine "process_step nt ports" "\<lambda>s. table_ok (ws_operations s) \<and> fenced_off i (ws_operations s)"
  for nt ports i
  by unfold_locales (unfold process_step_def, blast intro: effect_table_ok step_effect fenced_effect)

lemma fenced_row:
  assumes ok: "table_ok rows" and off: "fenced_off i rows" and row: "row \<in> set rows" "or_id row = i"
  shows "wo_phase (wr_operation (or_record row)) \<notin> {Accepted, Executing}"
proof -
  obtain r where r: "r \<in> set rows" "or_id r = i" "or_phase r \<notin> {Accepted, Executing}" using off by (auto simp: fenced_off_def)
  have "inj_on or_id (set rows)" using ok by (simp add: table_ok_def rows_valid_def distinct_map)
  then have "r = row" using r(1,2) row by (auto dest: inj_onD)
  then show ?thesis using ok r(3) row(1) by (simp add: table_ok_def row_ok_def Let_def)
qed

lemma fenced_refuses:
  assumes ok: "table_ok (ws_operations s)" and off: "fenced_off i (ws_operations s)"
  shows "\<not> workflow_authorized (ws_operations s) mission i g m"
    and "\<not> is_ok (owned_operation repository s i g)"
    and "finish nt owns repository i g success reason now s = Inr s' \<Longrightarrow> s' = s"
    and "claim owns repository i owner now s = Inr (r, s') \<Longrightarrow> r = None \<and> s' = s"
proof -
  have read: "wo_phase (wr_operation old) \<notin> {Accepted, Executing}"
    if "get_operation repository (ws_operations s) i = Inr (Some old)" for old
    using that fenced_row[OF ok off] by (auto elim!: get_operation_row)
  show "\<not> workflow_authorized (ws_operations s) mission i g m"
    using fenced_row[OF ok off]
    by (auto simp: workflow_authorized_def requireWorkflowOwner_def dest!: find_first_Some split: option.splits)
  show "\<not> is_ok (owned_operation repository s i g)"
  proof (cases "owned_operation repository s i g")
    case (Inr current)
    then show ?thesis using owned_operation_get[OF Inr] read by auto
  qed simp
  show "s' = s" if "finish nt owns repository i g success reason now s = Inr s'"
    using that unfolding finish_def
    by (rule with_operation) (use read in \<open>auto simp: Let_def isOpenWorkflow_def split: if_splits\<close>)
  show "r = None \<and> s' = s" if "claim owns repository i owner now s = Inr (r, s')"
    using that unfolding claim_def
    by (rule with_operation) (use read in \<open>auto simp: Let_def split: if_splits\<close>)
qed

lemma unowned_write: "\<not> is_ok (store_write db (False, m, e, event))"
  by (cases event) (simp_all add: store_write_def saveAggregate_def saveAggregateWithTransition_def persistAggregate_def)

lemma is_ok_map: "is_ok (map_sum f g x) = is_ok x"
  by (cases x) simp_all

lemma is_ok_bind: "\<not> is_ok x \<Longrightarrow> \<not> is_ok (try_bind x k)"
  by (cases x) simp_all

lemma replaced_present:
  assumes "replace_operation repository rows record g = Inr rows'"
  shows "\<exists>row\<in>set rows'. or_id row = wo_id (wr_operation record) \<and> or_phase row = wo_phase (wr_operation record)"
proof -
  let ?p = "replaced_row repository record g"
  have rows: "rows' = map (\<lambda>row. if ?p row then updated_row record row else row) rows" and one: "length (filter ?p rows) = 1"
    using assms by (auto simp: replace_operation_def Let_def split: if_splits)
  have "filter ?p rows \<noteq> []" using one by auto
  then obtain row where row: "row \<in> set rows" "?p row" by (auto simp: filter_empty_conv)
  have "updated_row record row \<in> set rows'" using row by (force simp: rows)
  moreover have "or_id (updated_row record row) = wo_id (wr_operation record)"
    "or_phase (updated_row record row) = wo_phase (wr_operation record)"
    using row(2) by (simp_all add: updated_row_def replaced_row_def)
  ultimately show ?thesis by blast
qed

lemma request_stop_fences:
  assumes ok: "table_ok (ws_operations s)" and run: "request_stop owns repository mission i now s = Inr (Some stopping, s')"
  shows "fenced_off (wo_id (wr_operation stopping)) (ws_operations s')"
proof -
  obtain current w where c: "requestWorkflowStop (wr_operation current) now = Inr w" "stopping = current\<lparr>wr_operation := w\<rparr>"
    "replace_operation repository (ws_operations s) stopping (wo_generation (wr_operation current)) = Inr (ws_operations s')"
    using run unfolding request_stop_def
    by (auto elim!: try_bind_InrE simp: Let_def map_error_Inr split: option.splits if_splits dest!: replace_and_publish_rows)
  have "wo_phase (wr_operation stopping) = Stopping" using c(1,2) by (auto simp: requestWorkflowStop_def split: if_splits)
  then show ?thesis using replaced_present[OF c(3)] by (auto simp: fenced_off_def)
qed

text \<open>A table with one accepted operation.\<close>

definition sample_ports :: workflow_ports where
  "sample_ports = \<lparr> wp_repository = ''repo'', wp_canExecute = (\<lambda>_. True), wp_selectAgent = Inr ''claude'',
     wp_eligibleAgent = (\<lambda>_. True), wp_draftInput = None \<rparr>"

definition sample_table :: workflow_state where
  "sample_table = \<lparr> ws_operations = [\<lparr> or_id = ''op1'', or_repository_id = ''repo'', or_mission_id = ''px-0001'',
       or_request_key = ''k1'', or_generation = 0, or_phase = Accepted, or_record = \<lparr> wr_operation = sample_operation,
         wr_operatorInvocation = None, wr_requestedAgent = None, wr_pinnedAgent = None, wr_invocation = None \<rparr> \<rparr>],
     ws_activity = [], ws_missions = empty_database \<rparr>"

lemma sample_table_ok: "table_ok (ws_operations sample_table)"
  by code_simp

text \<open>C7: whatever the processes do, an operation table that satisfied its constraints keeps them: every row agrees
  with its record, a mission has one open operation at most, and only a claimed generation executes. Every
  transaction leaves the operations alone, adds an accepted one to a mission with none open, or changes one of them
  as its machine, a note or a failed start may.\<close>

theorem workflow_runs_refine:
  assumes start: "table_ok (ws_operations s)" and run: "reachable_by (process_step nt ports) s t"
  shows "table_ok (ws_operations t) \<and>
    (\<forall>r\<in>set (ws_operations t). \<forall>q\<in>set (ws_operations t). open_phase (or_phase r) \<and> open_phase (or_phase q) \<and>
      or_repository_id r = or_repository_id q \<and> or_mission_id r = or_mission_id q \<longrightarrow> r = q) \<and>
    (\<forall>r\<in>set (ws_operations t). or_phase r = Executing \<longrightarrow> or_generation r = 1 \<and> wo_owner (wr_operation (or_record r)) \<noteq> None) \<and>
    (\<forall>c owns u. workflow_step nt owns ports t c = Inr u \<longrightarrow>
      ws_operations u = ws_operations t \<or> changes_one (ws_operations t) (ws_operations u) \<or>
      adds_one (ws_operations t) (ws_operations u))"
proof -
  have ok: "table_ok (ws_operations t)" using workflow_runs.reachable_inv[OF run start] .
  then have "inj_on (\<lambda>row. (or_repository_id row, or_mission_id row)) {r \<in> set (ws_operations t). open_phase (or_phase r)}"
    by (simp add: table_ok_def rows_valid_def distinct_map)
  then have one: "r = q" if "r \<in> set (ws_operations t)" "q \<in> set (ws_operations t)" "open_phase (or_phase r)"
    "open_phase (or_phase q)" "or_repository_id r = or_repository_id q" "or_mission_id r = or_mission_id q" for r q
    using that by (auto dest: inj_onD)
  have executing: "or_generation r = 1 \<and> wo_owner (wr_operation (or_record r)) \<noteq> None"
    if "r \<in> set (ws_operations t)" "or_phase r = Executing" for r
    using ok that by (auto simp: table_ok_def row_ok_def Let_def operation_ok_def)
  show ?thesis using ok one executing step_effect[OF ok] unfolding table_effect_def by blast
qed

theorem workflow_runs_refine_witness:
  "\<exists>t. workflow_step (\<lambda>_. []) (\<lambda>_. True) sample_ports sample_table (Step_claim ''op1'' sample_owner ''2026-01-01T00:00:00.000Z'') = Inr t \<and>
     table_ok (ws_operations t) \<and> map or_phase (ws_operations t) = [Executing]"
proof -
  let ?step = "workflow_step (\<lambda>_. []) (\<lambda>_. True) sample_ports"
  let ?claim = "Step_claim ''op1'' sample_owner ''2026-01-01T00:00:00.000Z''"
  have "(case ?step sample_table ?claim of Inr u \<Rightarrow> map or_phase (ws_operations u) = [Executing] | _ \<Rightarrow> False)" by code_simp
  then obtain t where t: "?step sample_table ?claim = Inr t" "map or_phase (ws_operations t) = [Executing]"
    by (auto split: sum.splits)
  have "reachable_by (process_step (\<lambda>_. []) sample_ports) sample_table t"
    by (rule reachable_by.further[where t = sample_table and c = "(\<lambda>_. True, ?claim)"], rule reachable_by.here)
      (simp only: process_step_def fst_conv snd_conv t(1))
  from workflow_runs_refine[OF sample_table_ok this] have "table_ok (ws_operations t)" by (rule conjunct1)
  then show ?thesis using t by (intro exI[of _ t] conjI)
qed

text \<open>C6: A stop cuts its operation off. Once a stop of an operation was recorded, then in every later state,
  whatever other processes do, no write authorised by that operation, under any of its generations, is accepted,
  no activity or provider start is recorded in its name, an end it reports changes nothing and it cannot be claimed.
  Writes authorised by another operation, one accepted later for the same mission among them, and writes made outside
  any operation are not concerned.\<close>

theorem stop_fences_writes:
  assumes start: "table_ok (ws_operations s)"
    and stop: "request_stop stopper (wp_repository ports) mission i now s = Inr (Some stopping, s')"
    and run: "reachable_by (process_step nt ports) s' t"
  shows "let ident = wo_id (wr_operation stopping) in
    (\<forall>owns g m e event own. \<not> is_ok (workflow_step nt owns ports t
      (Step_write (workflow_authorized (ws_operations t) own ident g (ms_id m)) m e event))) \<and>
    (\<forall>owns g event source. \<not> is_ok (workflow_step nt owns ports t (Step_activity ident g event source))) \<and>
    (\<forall>owns g agent. \<not> is_ok (workflow_step nt owns ports t (Step_provider ident g agent))) \<and>
    (\<forall>owns g success reason time u. workflow_step nt owns ports t (Step_finish ident g success reason time) = Inr u \<longrightarrow> u = t) \<and>
    (\<forall>owns owner time u. workflow_step nt owns ports t (Step_claim ident owner time) = Inr u \<longrightarrow> u = t)"
proof -
  let ?i = "wo_id (wr_operation stopping)"
  have ok: "table_ok (ws_operations s')" using effect_table_ok[OF start request_stop_effect[OF start stop]] .
  have "fenced_off ?i (ws_operations s')" by (rule request_stop_fences[OF start stop])
  then have t: "table_ok (ws_operations t)" "fenced_off ?i (ws_operations t)"
    using fenced_runs.reachable_inv[OF run] ok by blast+
  note refuses = fenced_refuses[OF t]
  show ?thesis unfolding Let_def
  proof (intro conjI allI impI)
    show "\<not> is_ok (workflow_step nt owns ports t
      (Step_write (workflow_authorized (ws_operations t) own ?i g (ms_id m)) m e event))" for owns g m e event own
      using refuses(1) unowned_write by (simp add: is_ok_map)
    show "\<not> is_ok (workflow_step nt owns ports t (Step_activity ?i g event source))" for owns g event source
      using refuses(2) by (simp add: owner_activity_def is_ok_bind)
    show "\<not> is_ok (workflow_step nt owns ports t (Step_provider ?i g agent))" for owns g agent
      using refuses(2) by (simp add: provider_started_def is_ok_bind)
    show "u = t" if "workflow_step nt owns ports t (Step_finish ?i g success reason time) = Inr u" for owns g success reason time u
      using refuses(3) that by simp
    show "u = t" if "workflow_step nt owns ports t (Step_claim ?i owner time) = Inr u" for owns owner time u
      using refuses(4) that by (auto simp: map_sum_Inr)
  qed
qed

theorem stop_fences_writes_witness:
  "\<exists>stopping s'. request_stop (\<lambda>_. True) ''repo'' ''px-0001'' None ''2026-01-01T00:00:00.000Z'' sample_table = Inr (Some stopping, s') \<and>
     wo_id (wr_operation stopping) = ''op1'' \<and>
     (\<forall>owns owner time u. workflow_step (\<lambda>_. []) owns sample_ports s' (Step_claim ''op1'' owner time) = Inr u \<longrightarrow> u = s')"
proof -
  let ?stop = "request_stop (\<lambda>_. True) (wp_repository sample_ports) ''px-0001'' None ''2026-01-01T00:00:00.000Z'' sample_table"
  have "(case ?stop of Inr (Some w, _) \<Rightarrow> wo_id (wr_operation w) = ''op1'' | _ \<Rightarrow> False)" by code_simp
  then obtain w s' where w: "?stop = Inr (Some w, s')" "wo_id (wr_operation w) = ''op1''"
    by (auto split: sum.splits option.splits)
  have "\<forall>owns owner time u. workflow_step (\<lambda>_. []) owns sample_ports s' (Step_claim ''op1'' owner time) = Inr u \<longrightarrow> u = s'"
    using stop_fences_writes[OF sample_table_ok w(1) reachable_by.here, where nt = "\<lambda>_. []"] w(2)
    unfolding Let_def by (elim conjE) simp
  then show ?thesis using w by (auto simp: sample_ports_def)
qed

end
