(* ===== verification/WorkflowService.thy ===== *)
theory WorkflowService
  imports WorkflowRuns
begin

text \<open>
  What \<open>workflow-operation-service.ts\<close> does around its transactions: where a request goes, the wait of a
  foreground command, the stop of an operation with the answers of the processes it asked, the pass that recovers
  operations, and the request a claimed operation is run with.

  The clock, the processes and the table as a loop reads it are observed outside: one iteration of a loop is one
  value of what it observed. \<open>None\<close> is the answer of a port that is not there (or of a probe that does not know).
\<close>

section \<open>Where a request goes\<close>

datatype dispatch_decision = Refuse_request terminal_status error_kind | Stop_mission | Delegate_request | Admit_and_wait

definition dispatch_route :: "string \<Rightarrow> operation_row list \<Rightarrow> board_request \<Rightarrow> run_fault + dispatch_decision" where
  "dispatch_route repository rows request =
     (if bq_kind request = ''workflow:stop''
      then Inr (if ''workflow:stop'' \<in> set (bq_capabilities request) then Stop_mission
        else Refuse_request Ended_rejected Capability_error)
      else if \<not> isWorkflowCommand (bq_kind request)
      then try_bind (current_operation repository rows (bq_missionId request)) (\<lambda>current.
        Inr (if current \<noteq> None then Refuse_request Ended_failed Conflict_error else Delegate_request))
      else Inr Admit_and_wait)"

section \<open>Waiting for an admitted operation\<close>

record wait_tick =
  wk_operation :: "workflow_operation option"
  wk_observed :: "bool option"
  wk_requested :: bool \<comment> \<open>whether cancellation was requested\<close>
  wk_stop :: "unit outcome" \<comment> \<open>what \<open>stop\<close> returns, when it is called\<close>
  wk_settled_now :: int
  wk_now :: int

text \<open>The caller's own stop of the operation it waits for; \<open>stop_owned\<close> is \<open>cancellation.stopOwnedWorkflow\<close>.\<close>

definition settleForegroundStop :: "bool \<Rightarrow> workflow_operation \<Rightarrow> wait_tick \<Rightarrow> unit outcome option" where
  "settleForegroundStop stop_owned operation tick =
     (if \<not> stop_owned \<or> (\<not> wk_requested tick \<and> wo_phase operation \<noteq> Stopping) then None
      else Some (if outcome_status (wk_stop tick) = Ended_completed then failure Cancelled_error else wk_stop tick))"

definition wait_once :: "bool \<Rightarrow> int \<Rightarrow> int option \<Rightarrow> wait_tick \<Rightarrow> unit outcome + int option" where
  "wait_once stop_owned deadline settledAt tick =
     (case wk_operation tick of
        None \<Rightarrow> Inl (failure Execution_error)
      | Some operation \<Rightarrow>
          (case settleForegroundStop stop_owned operation tick of
             Some interrupted \<Rightarrow> Inl interrupted
           | None \<Rightarrow>
               if wo_phase operation = Stopping then Inl (failure Conflict_error)
               else if \<not> isOpenWorkflow operation
               then let since = default_to (wk_settled_now tick) settledAt in
                 if wk_observed tick = Some False \<and> wk_now tick - since < 2000 then Inr (Some since)
                 else Inl (if wo_phase operation = Completed then Success () else failure Execution_error)
               else if wk_requested tick \<or> deadline \<le> wk_now tick then Inl (failure Cancelled_error)
               else Inr settledAt))"

text \<open>The loop over what its iterations observe; \<open>None\<close> while it still waits.\<close>

fun waitForWorkflow :: "bool \<Rightarrow> int \<Rightarrow> int option \<Rightarrow> wait_tick list \<Rightarrow> unit outcome option" where
  "waitForWorkflow stop_owned deadline settledAt [] = None"
| "waitForWorkflow stop_owned deadline settledAt (tick # ticks) =
     (case wait_once stop_owned deadline settledAt tick of
        Inl result \<Rightarrow> Some result
      | Inr since \<Rightarrow> waitForWorkflow stop_owned deadline since ticks)"

section \<open>Stopping an operation\<close>

record stop_answers =
  sa_owner_stopped :: bool
  sa_launcher_stopped :: bool
  sa_effects_stopped :: "bool option"
  sa_effects_settled :: "bool option"
  sa_owner_alive :: "bool option"

definition owner_confirmed :: "workflow_operation \<Rightarrow> stop_answers \<Rightarrow> bool" where
  "owner_confirmed operation replies \<longleftrightarrow>
     sa_owner_stopped replies \<or> wo_owner operation = None \<or> sa_owner_alive replies = Some False"

definition pendingGuidance :: "string \<Rightarrow> string" where
  "pendingGuidance mission =
     ''Inspect px history '' @ mission @ '' list for surviving executions. Manually terminate a surviving process only after verifying its current start identity matches the retained workflow or run identity, then rerun px stop '' @ mission @ ''.''"

text \<open>The first unconfirmed termination, in the order they are asked.\<close>

definition stop_pending_reason :: "string \<Rightarrow> workflow_operation \<Rightarrow> stop_answers \<Rightarrow> string option" where
  "stop_pending_reason mission operation replies =
     (if sa_effects_stopped replies = Some False
      then Some (''Stop is pending: attributed execution termination is unconfirmed. '' @ pendingGuidance mission)
      else if sa_effects_settled replies = Some False
      then Some (''Stop is pending: external execution is not yet reconciled; replacement is refused. '' @ pendingGuidance mission)
      else if \<not> owner_confirmed operation replies
      then Some (''Stop is pending: termination is unconfirmed; replacement is refused. '' @ pendingGuidance mission)
      else if \<not> sa_launcher_stopped replies
      then Some (''Stop is pending: launcher termination is unconfirmed. '' @ pendingGuidance mission)
      else None)"

text \<open>After the stop was requested and the processes have answered, on the state of that moment.\<close>

definition conclude_stop ::
  "(string \<Rightarrow> bool) \<Rightarrow> string \<Rightarrow> string \<Rightarrow> workflow_record \<Rightarrow> stop_answers \<Rightarrow> string \<Rightarrow> workflow_state \<Rightarrow>
    run_fault + unit outcome \<times> workflow_state" where
  "conclude_stop owns repository mission stopping replies now state =
     (let operation = wr_operation stopping in
      case stop_pending_reason mission operation replies of
        Some reason \<Rightarrow> try_bind (pending_stop repository (wo_id operation) (wo_generation operation) reason now state) (\<lambda>state'.
          Inr (failure Conflict_error, state'))
      | None \<Rightarrow> try_bind (settle_stop owns repository (wo_id operation) (wo_generation operation) now state) (\<lambda>state'.
          Inr (Success (), state')))"

section \<open>Recovering operations\<close>

datatype recovery_decision = Leave_operation | Relaunch_operation | Lose_operation bool

text \<open>What a recovery pass does with an open operation; the answers are those of \<open>alive(launcher)\<close>,
  \<open>alive(owner)\<close> and \<open>effectsSettled\<close>.\<close>

definition recovery_choice ::
  "workflow_operation \<Rightarrow> bool option \<Rightarrow> bool option \<Rightarrow> bool option \<Rightarrow> recovery_decision" where
  "recovery_choice operation launcher_alive owner_alive settled_effects =
     (if wo_phase operation = Stopping then Leave_operation
      else if wo_phase operation = Accepted \<and> wo_owner operation = None
      then (if wo_launcher operation \<noteq> None \<and> launcher_alive \<noteq> Some False then Leave_operation else Relaunch_operation)
      else if wo_owner operation = None then Leave_operation
      else let liveness = (if owner_alive = Some False \<and> settled_effects = Some False then None else owner_alive) in
        if liveness = Some True then Leave_operation else Lose_operation (liveness = Some False))"

definition recovery_targets ::
  "string \<Rightarrow> operation_row list \<Rightarrow> string option \<Rightarrow> run_fault + workflow_record list" where
  "recovery_targets repository rows ident =
     (if \<not> has_text ident then open_operations repository rows
      else map_sum id (\<lambda>found. case found of
          None \<Rightarrow> [] | Some record \<Rightarrow> if isOpenWorkflow (wr_operation record) then [record] else [])
        (get_operation repository rows (the ident)))"

text \<open>The transactions of a pass, one for every operation whose owner it lost; a launch writes nothing.\<close>

definition recovery_steps ::
  "(workflow_operation \<Rightarrow> bool option \<times> bool option \<times> bool option) \<Rightarrow> string \<Rightarrow> workflow_record list \<Rightarrow>
    workflow_transaction list" where
  "recovery_steps probe now targets =
     concat (map (\<lambda>record. let operation = wr_operation record; (launcher, owner, effects) = probe operation in
       case recovery_choice operation launcher owner effects of
         Lose_operation dead \<Rightarrow> [Step_lose (wo_id operation) (wo_generation operation) dead now]
       | _ \<Rightarrow> []) targets)"

section \<open>Running a claimed operation\<close>

definition run_request :: "workflow_record \<Rightarrow> board_request" where
  "run_request record =
     (let operation = wr_operation record; kind = command_text (wo_command operation) in
      \<lparr> bq_operationId = wo_id operation, bq_requestKey = None, bq_kind = kind, bq_missionId = wo_missionId operation,
        bq_missionStatusAtRequest = None,
        bq_agent = (if wo_command operation = Active_execute then wo_agent operation else wr_requestedAgent record),
        bq_pinnedAgent = wr_pinnedAgent record, bq_reviewer = wo_reviewer operation, bq_capabilities = [kind],
        bq_cancelled = False, bq_operatorInvocation = wr_operatorInvocation record, bq_invocation = None,
        bq_payload = False \<rparr>)"

text \<open>The outcome of the command as \<open>finish\<close> takes it.\<close>

definition finish_run ::
  "(jsnum \<Rightarrow> string) \<Rightarrow> (string \<Rightarrow> bool) \<Rightarrow> string \<Rightarrow> workflow_record \<Rightarrow> unit outcome \<Rightarrow> string option \<Rightarrow> string \<Rightarrow>
    workflow_state \<Rightarrow> run_fault + workflow_state" where
  "finish_run nt owns repository claimed result message now =
     finish nt owns repository (wo_id (wr_operation claimed)) (wo_generation (wr_operation claimed))
       (outcome_status result = Ended_completed) message now"

section \<open>Lemmas\<close>

lemma settled_since:
  "wait_once stop_owned deadline settledAt tick = Inr since \<Longrightarrow>
    since = settledAt \<or> (settledAt = None \<and> since = Some (wk_settled_now tick))"
  by (cases settledAt) (auto simp: wait_once_def Let_def split: option.splits if_splits)

text \<open>The loop after a prefix of its iterations: it has ended, or it goes on with what it remembers.\<close>

lemma waiting_prefix:
  assumes keeps: "\<And>tick since since'. tick \<in> set ticks \<Longrightarrow> P since \<Longrightarrow> wait_once stop_owned deadline since tick = Inr since' \<Longrightarrow> P since'"
    and start: "P since"
  shows "(\<exists>result. \<forall>rest. waitForWorkflow stop_owned deadline since (ticks @ rest) = Some result) \<or>
    (\<exists>since'. P since' \<and>
      (\<forall>rest. waitForWorkflow stop_owned deadline since (ticks @ rest) = waitForWorkflow stop_owned deadline since' rest))"
  using assms
proof (induction ticks arbitrary: since)
  case Nil
  then show ?case by (intro disjI2 exI[of _ since]) simp
next
  case (Cons tick ticks)
  show ?case
  proof (cases "wait_once stop_owned deadline since tick")
    case (Inl result)
    then show ?thesis by (intro disjI1 exI[of _ result]) simp
  next
    case (Inr next_since)
    have "P next_since" using Cons.prems(1)[OF _ Cons.prems(2) Inr] by simp
    moreover have "P t" if "tick' \<in> set ticks" "P s" "wait_once stop_owned deadline s tick' = Inr t" for tick' s t
      using Cons.prems(1)[OF _ that(2,3)] that(1) by simp
    ultimately show ?thesis using Cons.IH[of next_since] Inr by simp
  qed
qed

text \<open>Past the deadline an iteration goes on only with an operation seen settled, and for two seconds more at most.\<close>

lemma late_iteration:
  assumes "wait_once stop_owned deadline since tick = Inr since'" and "deadline \<le> wk_now tick"
  shows "since' = Some (default_to (wk_settled_now tick) since) \<and> wk_now tick < default_to (wk_settled_now tick) since + 2000"
  using assms by (auto simp: wait_once_def Let_def split: option.splits if_splits)

text \<open>C18: a foreground command does not wait for ever, whatever the operation does: with a clock that does not run
  backwards, the wait ends at the first iteration that comes two seconds after one past the deadline.\<close>

theorem waiting_ends:
  assumes late: "deadline \<le> wk_now (ticks k)" and order: "k < l"
    and clock: "\<forall>i\<le>k. wk_settled_now (ticks i) \<le> wk_now (ticks k)"
    and later: "wk_now (ticks k) + 2000 \<le> wk_now (ticks l)"
  shows "\<exists>result. waitForWorkflow stop_owned deadline None (map ticks [0..<Suc l]) = Some result"
proof -
  let ?wait = "waitForWorkflow stop_owned deadline" and ?once = "wait_once stop_owned deadline"
  define early between where "early = map ticks [0..<k]" and "between = map ticks [Suc k..<l]"
  have "[0..<l] = [0..<k] @ [k..<l]" using order upt_add_eq_append[of 0 k "l - k"] by simp
  then have all: "map ticks [0..<Suc l] = early @ ticks k # between @ [ticks l]"
    using order by (simp add: early_def between_def upt_conv_Cons)
  define soon where "soon = (\<lambda>since. since = None \<or> the since \<le> wk_now (ticks k))"
  have early: "(\<exists>result. \<forall>rest. ?wait None (early @ rest) = Some result) \<or>
      (\<exists>since. soon since \<and> (\<forall>rest. ?wait None (early @ rest) = ?wait since rest))"
  proof (rule waiting_prefix)
    fix tick since since'
    assume t: "tick \<in> set early" "soon since" "?once since tick = Inr since'"
    then have "wk_settled_now tick \<le> wk_now (ticks k)" using clock by (auto simp: early_def)
    then show "soon since'" using settled_since[OF t(3)] t(2) by (auto simp: soon_def)
  qed (simp add: soon_def)
  have rest: "\<exists>result. ?wait since (ticks k # between @ [ticks l]) = Some result" if since: "soon since" for since
  proof (cases "?once since (ticks k)")
    case (Inr s)
    then obtain t where t: "s = Some t" "t \<le> wk_now (ticks k)"
      using late_iteration[OF Inr late] since clock by (cases since) (auto simp: soon_def)
    have "(\<exists>result. \<forall>rest. ?wait s (between @ rest) = Some result) \<or>
        (\<exists>u. u = Some t \<and> (\<forall>rest. ?wait s (between @ rest) = ?wait u rest))"
      by (rule waiting_prefix) (use t(1) in \<open>auto dest: settled_since\<close>)
    moreover obtain result where "?once (Some t) (ticks l) = Inl result"
      using late_iteration[of stop_owned deadline "Some t" "ticks l"] late later t(2)
      by (cases "?once (Some t) (ticks l)") auto
    ultimately show ?thesis using Inr by auto
  qed simp
  show ?thesis unfolding all using early rest by metis
qed

definition sample_tick :: "int \<Rightarrow> wait_tick" where
  "sample_tick now = \<lparr> wk_operation = Some (sample_operation\<lparr>wo_phase := Blocked\<rparr>), wk_observed = Some False, wk_requested = False,
     wk_stop = Success (), wk_settled_now = now, wk_now = now \<rparr>"

theorem waiting_ends_witness:
  "(\<exists>result. waitForWorkflow False 10 None (map (\<lambda>i. sample_tick (1500 * int i)) [0..<Suc 3]) = Some result) \<and>
    waitForWorkflow False 10 None [sample_tick 0, sample_tick 1500] = None"
proof -
  have "waitForWorkflow False 10 None [sample_tick 0, sample_tick 1500] = None" by code_simp
  then show ?thesis
    using waiting_ends[of 10 "\<lambda>i. sample_tick (1500 * int i)" 1 3 False] by (simp add: sample_tick_def)
qed

text \<open>What the caller is told of the operation.\<close>

lemma waiting_tells:
  assumes "waitForWorkflow stop_owned deadline since ticks = Some (Success ())"
  shows "\<exists>tick\<in>set ticks. \<exists>operation. wk_operation tick = Some operation \<and> wo_phase operation = Completed"
  using assms
proof (induction ticks arbitrary: since)
  case (Cons tick ticks)
  show ?case
  proof (cases "wait_once stop_owned deadline since tick")
    case (Inl result)
    then show ?thesis using Cons.prems
      by (auto simp: wait_once_def settleForegroundStop_def Let_def failure_def split: option.splits if_splits)
  next
    case (Inr next_since)
    then show ?thesis using Cons.IH[of next_since] Cons.prems by auto
  qed
qed simp

section \<open>What a stop reports\<close>

lemma settle_stops:
  assumes ok: "table_ok (ws_operations s)" and run: "settle_stop owns repository i g now s = Inr s'"
  shows "\<exists>row\<in>set (ws_operations s'). or_id row = i \<and> or_phase row = Stopped"
proof -
  obtain current where c: "get_operation repository (ws_operations s) i = Inr (Some current)"
    and cases: "(wo_phase (wr_operation current) = Stopped \<and> s' = s) \<or>
      (\<exists>w. settleWorkflowStop (wr_operation current) now = Inr w \<and>
        replace_operation repository (ws_operations s) (current\<lparr>wr_operation := w\<rparr>) (wo_generation (wr_operation current)) =
          Inr (ws_operations s'))"
    using run unfolding settle_stop_def
    by (elim with_operation)
      (auto simp: Let_def try_bind_Inr split: if_splits dest!: replace_and_publish_rows)
  from c obtain row where row: "row \<in> set (ws_operations s)" "or_id row = i" "or_record row = current"
    by (auto elim!: get_operation_row)
  then have agree: "row_ok row" using ok by (simp add: table_ok_def)
  from cases show ?thesis
  proof (elim disjE exE conjE)
    assume "wo_phase (wr_operation current) = Stopped" "s' = s"
    then show ?thesis using row agree by (auto simp: row_ok_def Let_def)
  next
    fix w
    assume w: "settleWorkflowStop (wr_operation current) now = Inr w" "replace_operation repository (ws_operations s)
      (current\<lparr>wr_operation := w\<rparr>) (wo_generation (wr_operation current)) = Inr (ws_operations s')"
    have "wo_phase w = Stopped" "wo_id w = wo_id (wr_operation current)"
      using w(1) by (auto simp: settleWorkflowStop_def split: if_splits)
    then show ?thesis using replaced_present[OF w(2)] row agree by (auto simp: row_ok_def Let_def)
  qed
qed

lemma pending_keeps_phases:
  assumes ok: "table_ok (ws_operations s)" and run: "pending_stop repository i g reason now s = Inr s'"
  shows "map or_phase (ws_operations s') = map or_phase (ws_operations s)"
proof -
  have "map or_phase rows' = map or_phase (ws_operations s)"
    if get: "get_operation repository (ws_operations s) i = Inr (Some current)"
      and replace: "replace_operation repository (ws_operations s)
        (current\<lparr>wr_operation := (wr_operation current)\<lparr>wo_reason := r, wo_updatedAt := t\<rparr>\<rparr>) (wo_generation (wr_operation current)) = Inr rows'"
    for current r t rows'
  proof -
    obtain row where row: "row \<in> set (ws_operations s)" "or_id row = i" "or_record row = current"
      using get by (auto elim!: get_operation_row)
    have inj: "inj_on or_id (set (ws_operations s))" using ok by (simp add: table_ok_def rows_valid_def distinct_map)
    have agree: "row_ok row" using ok row(1) by (simp add: table_ok_def)
    have "or_phase q = wo_phase (wr_operation current)" if "q \<in> set (ws_operations s)" "or_id q = wo_id (wr_operation current)" for q
    proof -
      have "or_id q = or_id row" using that(2) agree row(3) by (simp add: row_ok_def Let_def)
      then have "q = row" using inj_onD[OF inj _ that(1) row(1)] by simp
      then show ?thesis using agree row(3) by (simp add: row_ok_def Let_def)
    qed
    then show ?thesis using replace
      by (auto simp: replace_operation_def Let_def replaced_row_def updated_row_def split: if_splits)
  qed
  then show ?thesis using run unfolding pending_stop_def
    by (elim with_operation) (auto simp: Let_def try_bind_Inr split: if_splits)
qed

text \<open>C19: a stop reports success only when every process it asked is confirmed gone, and then the operation is
  recorded as stopped. Otherwise it reports a conflict and no operation changes its phase: a stopping one stays
  fenced, and no replacement can be admitted.\<close>

theorem stop_concludes:
  assumes ok: "table_ok (ws_operations s)" and stop: "conclude_stop owns repository mission stopping replies now s = Inr (result, s')"
  shows "(result = Success () \<longrightarrow>
      sa_effects_stopped replies \<noteq> Some False \<and> sa_effects_settled replies \<noteq> Some False \<and> sa_launcher_stopped replies \<and>
      (wo_owner (wr_operation stopping) = None \<or> sa_owner_stopped replies \<or> sa_owner_alive replies = Some False) \<and>
      (\<exists>row\<in>set (ws_operations s'). or_id row = wo_id (wr_operation stopping) \<and> or_phase row = Stopped)) \<and>
    (result \<noteq> Success () \<longrightarrow>
      result = Failure Ended_failed Conflict_error \<and> map or_phase (ws_operations s') = map or_phase (ws_operations s)) \<and>
    table_ok (ws_operations s')"
proof (cases "stop_pending_reason mission (wr_operation stopping) replies")
  case None
  then have settled: "settle_stop owns repository (wo_id (wr_operation stopping)) (wo_generation (wr_operation stopping)) now s = Inr s'"
    and "result = Success ()"
    using stop by (auto simp: conclude_stop_def Let_def try_bind_Inr)
  then show ?thesis
    using None settle_stops[OF ok settled] effect_table_ok[OF ok settle_effect[OF ok settled]]
    by (auto simp: stop_pending_reason_def owner_confirmed_def split: if_splits)
next
  case (Some reason)
  then have pending: "pending_stop repository (wo_id (wr_operation stopping)) (wo_generation (wr_operation stopping)) reason now s = Inr s'"
    and "result = Failure Ended_failed Conflict_error"
    using stop by (auto simp: conclude_stop_def Let_def try_bind_Inr failure_def)
  then show ?thesis
    using pending_keeps_phases[OF ok pending] effect_table_ok[OF ok pending_stop_effect[OF ok pending]] by simp
qed

definition sample_replies :: stop_answers where
  "sample_replies = \<lparr> sa_owner_stopped = True, sa_launcher_stopped = True, sa_effects_stopped = None,
     sa_effects_settled = Some True, sa_owner_alive = None \<rparr>"

definition sample_stopping :: workflow_state where
  "sample_stopping = (case request_stop (\<lambda>_. True) ''repo'' ''px-0001'' None ''2026-01-01T00:00:00.000Z'' sample_table of
     Inr (_, s) \<Rightarrow> s | Inl _ \<Rightarrow> sample_table)"

theorem stop_concludes_witness:
  "\<exists>s'. conclude_stop (\<lambda>_. True) ''repo'' ''px-0001'' (or_record (hd (ws_operations sample_stopping))) sample_replies
      ''2026-01-01T00:00:01.000Z'' sample_stopping = Inr (Success (), s') \<and> table_ok (ws_operations s')"
proof -
  let ?stop = "conclude_stop (\<lambda>_. True) ''repo'' ''px-0001'' (or_record (hd (ws_operations sample_stopping))) sample_replies
      ''2026-01-01T00:00:01.000Z'' sample_stopping"
  have "(case ?stop of Inr (Success (), _) \<Rightarrow> True | _ \<Rightarrow> False)" by code_simp
  then obtain s' where s: "?stop = Inr (Success (), s')" by (auto split: sum.splits outcome.splits)
  have "table_ok (ws_operations sample_stopping)" by code_simp
  from stop_concludes[OF this s] have "table_ok (ws_operations s')" by (elim conjE)
  then show ?thesis using s by (intro exI[of _ s'] conjI)
qed

text \<open>A recovery pass takes an operation from its owner only if a probe did not find the owner alive, and calls it
  dead only if the probe said so and its effects are not known to be unsettled.\<close>

lemma recovery_choice_lose:
  "recovery_choice operation launcher alive effects = Lose_operation dead \<Longrightarrow>
    wo_owner operation \<noteq> None \<and> wo_phase operation \<noteq> Stopping \<and> alive \<noteq> Some True \<and>
    (dead \<longrightarrow> alive = Some False \<and> effects \<noteq> Some False)"
  by (auto simp: recovery_choice_def Let_def split: if_splits)

lemma recovery_spares_the_living:
  assumes lost: "Step_lose i g dead now \<in> set (recovery_steps probe now targets)"
  obtains target launcher alive effects where "target \<in> set targets" "wo_id (wr_operation target) = i"
    "wo_generation (wr_operation target) = g" "probe (wr_operation target) = (launcher, alive, effects)"
    "wo_owner (wr_operation target) \<noteq> None" "wo_phase (wr_operation target) \<noteq> Stopping" "alive \<noteq> Some True"
    "dead \<Longrightarrow> alive = Some False \<and> effects \<noteq> Some False"
proof -
  obtain target where t: "target \<in> set targets" "Step_lose i g dead now \<in> set (recovery_steps probe now [target])"
    using lost by (auto simp: recovery_steps_def)
  obtain launcher alive effects where p: "probe (wr_operation target) = (launcher, alive, effects)" by (metis prod_cases3)
  have "recovery_choice (wr_operation target) launcher alive effects = Lose_operation dead"
    "wo_id (wr_operation target) = i" "wo_generation (wr_operation target) = g"
    using t(2) p by (auto simp: recovery_steps_def Let_def split: recovery_decision.splits)
  then show ?thesis using that[OF t(1) _ _ p] recovery_choice_lose by blast
qed

end
