(* ===== verification/Spec2Isabelle.thy ===== *)
theory Spec2Isabelle
  imports Prelude Instants DecisionWindows ReviewTypes Retention Reviews Checkpoints Contracts Missions MissionWorkflow Operations Activities
    Agents AgentRuns ApprovalCoverage Obligations Classifier Patterns Failures ReboundLoop RepairRecords ReviewRows Lanes MissionRows
    MissionStore MissionCache Commands MissionWrites Evidence CheckpointWrites WorkflowRuns WorkflowService
begin

text \<open>
  Parallix runs every piece of work as a mission: it is drafted, taken on by a coding agent in a worktree
  of its own, reviewed by another agent, verified by gates, integrated and closed. The workflow is
  deterministic code around the agents; this library models that code: the domain layer
  (\<open>src/src/domain\<close>), the store of missions, events and running commands in the operator database
  (\<open>src/src/adapters/sqlite\<close>), and the application services between them (\<open>src/src/application\<close>).

  \<^bold>\<open>The parts of the program and how they interact.\<close> A mission is a value that only
  \<open>decideMission\<close> moves from lane to lane. It carries a review conversation, which changes by the commands of
  \<open>review.ts\<close>, and checkpoints with evidence. A service reads the mission and its version, lets the domain
  decide, and saves the result against that version, together with the event of the move; a save based on
  an older version is refused. Long-running commands are admitted as operations, claimed by one process
  with a generation, and every write of that process carries the generation, so that a stopped or lost
  owner cannot write any more. The board reads the missions through a cache, and the activity of a running
  command from frames its process publishes.

  \<^bold>\<open>Theories and sources.\<close> Definitions keep the names of the source; the manifest
  gives the lines of each.
    \<^item> \<open>Prelude\<close>: results that may fail, JavaScript strings, arrays and numbers; the interfaces
      \<open>guarded_machine\<close>, \<open>ranked_machine\<close>, \<open>absorbing_machine\<close>, \<open>keyed_store\<close>.
    \<^item> \<open>Instants\<close>: \<open>instant.ts\<close>. \<open>Patterns\<close>: the regular expressions of the texts the code tests.
    \<^item> \<open>DecisionWindows\<close>: \<open>decision-window.ts\<close>, the reporting days and weeks.
    \<^item> \<open>ReviewTypes\<close>, \<open>Reviews\<close>: \<open>review.ts\<close>, \<open>review-phase-policy.ts\<close>. \<open>Obligations\<close>, \<open>Classifier\<close>,
      \<open>ApprovalCoverage\<close>: \<open>review-obligations.ts\<close>, \<open>classifier-review.ts\<close>, \<open>approval-coverage.ts\<close>.
    \<^item> \<open>Contracts\<close>, \<open>Missions\<close>, \<open>Checkpoints\<close>, \<open>MissionWorkflow\<close>: \<open>mission.ts\<close> with its attributes,
      \<open>checkpoint.ts\<close>, \<open>repair-coverage.ts\<close>, \<open>mission-workflow.ts\<close>, \<open>integration-repair-policy.ts\<close>.
    \<^item> \<open>Retention\<close>, \<open>RepairRecords\<close>: \<open>integration-validation-policy.ts\<close>,
      \<open>integration-approval-retention.ts\<close>, \<open>integration-repair-record.ts\<close>.
    \<^item> \<open>Failures\<close>: \<open>failure-reason.ts\<close>, \<open>failure-classification.ts\<close>, \<open>rebound-policy.ts\<close>.
    \<^item> \<open>ReboundLoop\<close>: the repair loop of \<open>rebound-kernel.ts\<close>.
    \<^item> \<open>Operations\<close>, \<open>Activities\<close>, \<open>Agents\<close>, \<open>AgentRuns\<close>: \<open>workflow-operation.ts\<close>,
      \<open>execution-activity.ts\<close>, \<open>agents.ts\<close>, \<open>session.ts\<close>, \<open>agent-run.ts\<close>.
    \<^item> \<open>ReviewRows\<close>, \<open>MissionRows\<close>, \<open>Lanes\<close>, \<open>MissionStore\<close>, \<open>MissionCache\<close>: the rows of a mission
      (\<open>mission-serialization.ts\<close>, \<open>mission-value-writer.ts\<close>, \<open>mission-load-reader.ts\<close>), the table of events
      (\<open>board-lane-event-repository.ts\<close>, \<open>board-event.ts\<close>) and the store (\<open>mission-store.ts\<close>,
      \<open>checkpoint-history.ts\<close>).
    \<^item> \<open>Commands\<close>, \<open>MissionWrites\<close>: the services that move a mission and those that change what it says
      (\<open>mission-*-service.ts\<close>, \<open>execution-start-service.ts\<close> in \<open>WorkflowRuns\<close>).
    \<^item> \<open>Evidence\<close>: \<open>static-evidence.ts\<close>, what a row of evidence cites. \<open>CheckpointWrites\<close>: the recording of
      evidence and the repair checkpoints (\<open>mission-checkpoint-service.ts\<close>, \<open>repair-checkpoint-service.ts\<close>,
      \<open>mission-evidence-readiness.ts\<close>, \<open>openRepairFromReview\<close>).
    \<^item> \<open>WorkflowRuns\<close>, \<open>WorkflowService\<close>: \<open>workflow-operation-store.ts\<close>, \<open>execution-activity-store.ts\<close>,
      \<open>workflow-operation-service.ts\<close>.

  \<^bold>\<open>How state and effects are modelled.\<close> A record of the source is a record, a union a datatype, an
  exception a value of a sum. An error carries what the caller can tell apart (its kind), not its message.
  The database is a value (\<open>database\<close>, \<open>service_state\<close>); a transaction is one step that either returns the
  new value or an error, and then nothing is written. A service reads one state (\<open>seen\<close>) and writes to
  another (\<open>db\<close>), because other processes may write in between; the theorems quantify over all that can
  have been written (\<open>reachable_by store_write\<close>, \<open>reachable_by process_step\<close>). Whether a process owns
  the operation under which it writes is the parameter \<open>owns\<close> of a save in the store, and is computed from the
  table of operations in \<open>WorkflowRuns\<close>. The constraints of the schema the code relies on (unique keys,
  checks, non-null columns) are conditions of the writes.

  \<^bold>\<open>What is a parameter.\<close> Clocks, random numbers, floating-point rounding of the weighted draw,
  number formatting and collation of the runtime, time zones, process probes, Git observations, the
  file system of a checkout, the identity allocator and the board's catalog. Strings are lists of 8-bit code units, so the texts of the model
  are Latin-1; a JSON value that is stored and read back is kept as itself.

  \<^bold>\<open>What the lemmas show.\<close> Every machine has an invariant that its steps keep (\<open>conversation\<close>,
  \<open>mission_ok\<close>, \<open>operation_ok\<close>, \<open>activity_ok\<close>, \<open>database_ok\<close>, \<open>table_ok\<close>), carried to all reachable
  states by the interface it interprets. From these follow the properties of the manifest: nothing lands
  without an approval of the exact revision, whatever writes a mission between its intake and its closing
  (\<open>mission_life\<close>); a review conversation is numbered, ordered and judged once; one
  process claims an operation and a stopped one is fenced; a saved mission is loaded back, no save is lost,
  evidence is never rewritten; the events of a mission are a chain that ends in its lane, whatever command
  runs; a creation happens once; recorded evidence
  covers the criteria and cites what exists, and a repair is settled by its verification or by the record that
  brings it along; a reader's cache (\<open>reader_step\<close>) shows what the rows say, unless a mission is cancelled and
  created again between two reads; the reporting windows partition the days;
  the loops that wait, page, search or repair end.

  \<^bold>\<open>Bounds and termination.\<close> The pages of a load are chunks of \<open>LOAD_CHUNK = 400\<close> ids, and the recursion is on the
  list of ids, which a chunk shortens. The wait of a foreground command is a recursion over the ticks it
  observes: \<open>waiting_ends\<close> says which tick ends it. The search of \<open>decisionWindowDayEnd\<close> is a recursion with the
  distance of its two bounds as the measure; that distance is at most 72 hours of milliseconds, which
  \<open>day_end_probes\<close> turns into at most 28 probes. The repair loop recurses on the attempts left of its budget.
  The walks over a checkout's directories are recursions over a stack that may not end; \<open>evidence_check_ends\<close>
  shows that they end on a finite tree, by the multiset of the heights on the stack.
  No definition uses fuel.

  \<^bold>\<open>Not modelled.\<close> The external engines: the SQLite driver, Git, Forgejo and GitHub,
  processes and files, and the agent programs. The texts of prompts, reports, the command line and the web board;
  the parsing of configuration and of artifacts written by agents; statistics; the supervision of recovery and
  the orchestration of an integration, which are sequences of calls to those engines. The table of operations is modelled without
  the retry of a busy database, and the activity of a process without its history row.
\<close>

end
